(* ===== verification/Prelude.thy ===== *)
theory Prelude
  imports Main "HOL-Library.Word" "HOL-Library.Signed_Division"
begin

text \<open>
  Shared vocabulary of the development: the machine integer types of the kernel's
  C code, the outcome of running a piece of kernel code, sequential composition
  of such runs, and the generic lemmas the component theories use.

  \<^item> \<open>u8\<close>, \<open>u16\<close>, \<open>u32\<close> stand for \<open>unsigned char\<close>, \<open>unsigned short\<close> and
    \<open>unsigned long\<close> of the i386; \<open>long\<close> and \<open>int\<close> are 32-bit words read with
    \<open>sint\<close> where their sign matters.
  \<^item> \<open>outcome\<close> has one constructor for each way a kernel path can end:
    a normal return, a call of \<open>panic()\<close> (which never returns), a call of
    \<open>sleep_on()\<close> (the path stops there and other tasks run), a call of
    \<open>do_exit()\<close>, an access the C language gives no meaning to, and a loop that does
    not end.
\<close>

unbundle bit_operations_syntax

text \<open>
  The collections of facts the components fill: \<open>state_simps\<close> unfolds the updates of the
  kernel state into record updates, \<open>queue_simps\<close> gives the fields of the wait queues, and
  \<open>keeps\<close> says what an operation leaves unchanged.
\<close>

named_theorems state_simps
named_theorems queue_simps
named_theorems keeps

section \<open>Machine integers\<close>

type_synonym u8 = "8 word"
type_synonym u16 = "16 word"
type_synonym u32 = "32 word"

section \<open>Outcomes of kernel code\<close>

datatype ('a, 's) outcome =
    Ret 'a 's          \<comment> \<open>returns a value in a new state\<close>
  | Panic string       \<comment> \<open>\<open>panic()\<close>: the machine halts\<close>
  | Sleeps 's          \<comment> \<open>the path went to sleep in this state\<close>
  | Exits u32 's       \<comment> \<open>the path called \<open>do_exit()\<close> with this code\<close>
  | Fault              \<comment> \<open>an access outside the objects of the program\<close>
  | Hangs              \<comment> \<open>a loop that never ends\<close>

text \<open>\<open>seq m f\<close> runs \<open>m\<close> and, if it returns, goes on with \<open>f\<close>.\<close>

definition seq :: "('a, 's) outcome \<Rightarrow> ('a \<Rightarrow> 's \<Rightarrow> ('b, 's) outcome) \<Rightarrow> ('b, 's) outcome" where
  "seq m f = (case m of
      Ret a s \<Rightarrow> f a s
    | Panic msg \<Rightarrow> Panic msg
    | Sleeps s \<Rightarrow> Sleeps s
    | Exits c s \<Rightarrow> Exits c s
    | Fault \<Rightarrow> Fault
    | Hangs \<Rightarrow> Hangs)"

lemma seq_simps [simp]:
  "seq (Ret a s) f = f a s"
  "seq (Panic msg) f = Panic msg"
  "seq (Sleeps s) f = Sleeps s"
  "seq (Exits c s) f = Exits c s"
  "seq Fault f = Fault"
  "seq Hangs f = Hangs"
  by (simp_all add: seq_def)

lemma seq_cong [fundef_cong]:
  "m = m' \<Longrightarrow> (\<And>a s. m' = Ret a s \<Longrightarrow> f a s = g a s) \<Longrightarrow> seq m f = seq m' g"
  by (cases m') simp_all

lemma seq_assoc: "seq (seq m f) g = seq m (\<lambda>a s. seq (f a s) g)"
  by (cases m) simp_all

lemma seq_eq_Ret_iff:
  "seq m f = Ret b t \<longleftrightarrow> (\<exists>a s. m = Ret a s \<and> f a s = Ret b t)"
  by (cases m) auto

lemma seq_RetE:
  assumes "seq m f = Ret b t"
  obtains a s where "m = Ret a s" and "f a s = Ret b t"
  using assms by (cases m) auto

text \<open>
  Lifting a run of a component to the state the component is a part of:
  \<open>put\<close> stores the component's new state back.
\<close>

definition lift_outcome :: "('t \<Rightarrow> 's) \<Rightarrow> ('a, 't) outcome \<Rightarrow> ('a, 's) outcome" where
  "lift_outcome put m = (case m of
      Ret a t \<Rightarrow> Ret a (put t)
    | Panic msg \<Rightarrow> Panic msg
    | Sleeps t \<Rightarrow> Sleeps (put t)
    | Exits c t \<Rightarrow> Exits c (put t)
    | Fault \<Rightarrow> Fault
    | Hangs \<Rightarrow> Hangs)"

lemma lift_outcome_simps [simp]:
  "lift_outcome put (Ret a t) = Ret a (put t)"
  "lift_outcome put (Panic msg) = Panic msg"
  "lift_outcome put (Sleeps t) = Sleeps (put t)"
  "lift_outcome put (Exits c t) = Exits c (put t)"
  "lift_outcome put Fault = Fault"
  "lift_outcome put Hangs = Hangs"
  by (simp_all add: lift_outcome_def)

text \<open>A loop that runs its body on each element of a list in turn.\<close>

fun for_each :: "('a \<Rightarrow> 's \<Rightarrow> (unit, 's) outcome) \<Rightarrow> 'a list \<Rightarrow> 's \<Rightarrow> (unit, 's) outcome" where
  "for_each f [] s = Ret () s"
| "for_each f (x # xs) s = seq (f x s) (\<lambda>_ s. for_each f xs s)"

text \<open>
  A C loop: \<open>step\<close> is one turn, which either goes round again with new loop variables
  (\<open>Inl\<close>) or leaves the loop with a result (\<open>Inr\<close>). A loop that never leaves \<open>Hangs\<close>.
\<close>

partial_function (option) run_loop ::
    "('a \<Rightarrow> 's \<Rightarrow> ('a + 'b, 's) outcome) \<Rightarrow> 'a \<Rightarrow> 's \<Rightarrow> ('b, 's) outcome option" where
  "run_loop step a s = (case step a s of
       Ret r t \<Rightarrow> (case r of Inl b \<Rightarrow> run_loop step b t | Inr v \<Rightarrow> Some (Ret v t))
     | Panic msg \<Rightarrow> Some (Panic msg)
     | Sleeps t \<Rightarrow> Some (Sleeps t)
     | Exits c t \<Rightarrow> Some (Exits c t)
     | Fault \<Rightarrow> Some Fault
     | Hangs \<Rightarrow> Some Hangs)"

definition loop :: "('a \<Rightarrow> 's \<Rightarrow> ('a + 'b, 's) outcome) \<Rightarrow> 'a \<Rightarrow> 's \<Rightarrow> ('b, 's) outcome" where
  "loop step a s = (case run_loop step a s of None \<Rightarrow> Hangs | Some r \<Rightarrow> r)"

lemma loop_unfold:
  "loop step a s = seq (step a s) (\<lambda>r s. case r of Inl b \<Rightarrow> loop step b s | Inr v \<Rightarrow> Ret v s)"
  unfolding loop_def by (subst run_loop.simps) (auto split: outcome.split sum.split)

section \<open>Judgements on outcomes\<close>

text \<open>
  \<open>total m Q\<close>: the run returns, and its value and state satisfy \<open>Q\<close>.
  \<open>safe m Q\<close>: the run neither panics nor faults, and if it returns or gives up the
  processor the state satisfies the given predicate.
\<close>

definition total :: "('a, 's) outcome \<Rightarrow> ('a \<Rightarrow> 's \<Rightarrow> bool) \<Rightarrow> bool" where
  "total m Q = (case m of Ret a s \<Rightarrow> Q a s | _ \<Rightarrow> False)"

definition safe :: "('a, 's) outcome \<Rightarrow> ('a \<Rightarrow> 's \<Rightarrow> bool) \<Rightarrow> bool" where
  "safe m Q = (case m of Ret a s \<Rightarrow> Q a s | Panic _ \<Rightarrow> False | Sleeps _ \<Rightarrow> True
     | Exits _ _ \<Rightarrow> True | Fault \<Rightarrow> False
     | Hangs \<Rightarrow> False)"

definition partial :: "('a, 's) outcome \<Rightarrow> ('a \<Rightarrow> 's \<Rightarrow> bool) \<Rightarrow> bool" where
  "partial m Q = (case m of Ret a s \<Rightarrow> Q a s | _ \<Rightarrow> True)"

lemma total_simps [simp]:
  "total (Ret a s) Q = Q a s"
  "\<not> total (Panic msg) Q" "\<not> total (Sleeps s) Q" "\<not> total (Exits c s) Q" "\<not> total Fault Q" "\<not> total Hangs Q"
  by (simp_all add: total_def)

lemma safe_simps [simp]:
  "safe (Ret a s) Q = Q a s"
  "\<not> safe (Panic msg) Q" "safe (Sleeps s) Q" "safe (Exits c s) Q" "\<not> safe Fault Q" "\<not> safe Hangs Q"
  by (simp_all add: safe_def)

lemma partial_simps [simp]:
  "partial (Ret a s) Q = Q a s"
  "partial (Panic msg) Q" "partial (Sleeps s) Q" "partial (Exits c s) Q" "partial Fault Q" "partial Hangs Q"
  by (simp_all add: partial_def)

lemma total_seq [simp]: "total (seq m f) Q = total m (\<lambda>a s. total (f a s) Q)"
  by (cases m) simp_all

lemma safe_seq [simp]: "safe (seq m f) Q = safe m (\<lambda>a s. safe (f a s) Q)"
  by (cases m) simp_all

lemma partial_seq [simp]: "partial (seq m f) Q = partial m (\<lambda>a s. partial (f a s) Q)"
  by (cases m) simp_all

lemma total_mono: "total m Q \<Longrightarrow> (\<And>a s. m = Ret a s \<Longrightarrow> Q a s \<Longrightarrow> R a s) \<Longrightarrow> total m R"
  by (cases m) simp_all

lemma safe_mono: "safe m Q \<Longrightarrow> (\<And>a s. m = Ret a s \<Longrightarrow> Q a s \<Longrightarrow> R a s) \<Longrightarrow> safe m R"
  by (cases m) simp_all

lemma partial_mono: "partial m Q \<Longrightarrow> (\<And>a s. m = Ret a s \<Longrightarrow> Q a s \<Longrightarrow> R a s) \<Longrightarrow> partial m R"
  by (cases m) simp_all

lemma total_iff: "total m Q \<longleftrightarrow> (\<exists>a s. m = Ret a s \<and> Q a s)"
  by (cases m) simp_all

lemma total_safe: "total m Q \<Longrightarrow> safe m Q"
  by (cases m) simp_all

lemma total_conj: "total m Q \<Longrightarrow> partial m R \<Longrightarrow> total m (\<lambda>a s. Q a s \<and> R a s)"
  by (cases m) simp_all

lemma partialD: "partial m Q \<Longrightarrow> m = Ret a s \<Longrightarrow> Q a s"
  by simp

text \<open>
  \<open>finishes m Q\<close>: the run does not loop or wait for ever; if it neither panics nor faults it
  returns, in a state with \<open>Q\<close>. A loop finishes if some
  \<open>n\<close> descends in a well-founded order.
\<close>

definition finishes :: "('a, 's) outcome \<Rightarrow> ('a \<Rightarrow> 's \<Rightarrow> bool) \<Rightarrow> bool" where
  "finishes m Q = (case m of Ret a s \<Rightarrow> Q a s | Panic _ \<Rightarrow> True | Fault \<Rightarrow> True
     | Sleeps _ \<Rightarrow> False | Exits _ _ \<Rightarrow> False | Hangs \<Rightarrow> False)"

lemma finishes_simps [simp]:
  "finishes (Ret a s) Q = Q a s"
  "finishes (Panic msg) Q" "finishes Fault Q" "\<not> finishes (Sleeps s) Q" "\<not> finishes (Exits c s) Q" "\<not> finishes Hangs Q"
  by (simp_all add: finishes_def)

lemma finishes_seq [simp]: "finishes (seq m f) Q = finishes m (\<lambda>a s. finishes (f a s) Q)"
  by (cases m) simp_all

lemma finishes_mono: "finishes m Q \<Longrightarrow> (\<And>a s. m = Ret a s \<Longrightarrow> Q a s \<Longrightarrow> R a s) \<Longrightarrow> finishes m R"
  by (cases m) simp_all

lemma finishes_loop:
  assumes "wf r"
    and step: "\<And>n a s. I n a s \<Longrightarrow> finishes (step a s) (\<lambda>v t. case v of
      Inl b \<Rightarrow> \<exists>m. (m, n) \<in> r \<and> I m b t | Inr v \<Rightarrow> Q v t)"
    and "I n a s"
  shows "finishes (loop step a s) Q"
  using assms(1,3)
proof (induction n arbitrary: a s rule: wf_induct_rule)
  case (less n)
  show ?case
    unfolding loop_unfold [of step a s] finishes_seq
    by (rule finishes_mono [OF step [OF less.prems]]) (auto split: sum.splits intro: less.IH)
qed

text \<open>Total correctness of a loop by a measure, and partial correctness by an invariant.\<close>

lemma total_loop:
  fixes m :: "'a \<Rightarrow> 's \<Rightarrow> nat"
  assumes "\<And>a s. I a s \<Longrightarrow> total (step a s) (\<lambda>r t. case r of
      Inl b \<Rightarrow> I b t \<and> m b t < m a s | Inr v \<Rightarrow> Q v t)"
    and "I a s"
  shows "total (loop step a s) Q"
  using assms(2)
proof (induction "m a s" arbitrary: a s rule: less_induct)
  case less
  show ?case
    unfolding loop_unfold [of step a s] total_seq
    by (rule total_mono [OF assms(1) [OF less.prems]]) (auto split: sum.splits intro: less.hyps)
qed

lemma partial_loop:
  assumes "\<And>a s. I a s \<Longrightarrow> partial (step a s) (\<lambda>r t. case r of Inl b \<Rightarrow> I b t | Inr v \<Rightarrow> Q v t)"
    and "I a s"
  shows "partial (loop step a s) Q"
proof -
  have "st = step \<longrightarrow> I a s \<longrightarrow> partial r Q" if "run_loop st a s = Some r" for st a s r
  proof (rule run_loop.raw_induct [where P = "\<lambda>st a s r. st = step \<longrightarrow> I a s \<longrightarrow> partial r Q", OF _ that])
    fix rl st a s r
    assume IH: "\<And>st a s r. rl st a s = Some r \<Longrightarrow> st = step \<longrightarrow> I a s \<longrightarrow> partial r Q"
      and eq: "(case st a s of
         Ret r t \<Rightarrow> (case r of Inl b \<Rightarrow> rl st b t | Inr v \<Rightarrow> Some (Ret v t))
       | Panic msg \<Rightarrow> Some (Panic msg) | Sleeps t \<Rightarrow> Some (Sleeps t) | Exits c t \<Rightarrow> Some (Exits c t)
       | Fault \<Rightarrow> Some Fault | Hangs \<Rightarrow> Some Hangs) = Some r"
    show "st = step \<longrightarrow> I a s \<longrightarrow> partial r Q"
      using assms(1) [of a s] eq IH by (auto split: outcome.splits sum.splits)
  qed
  then show ?thesis
    using assms(2) by (cases "run_loop step a s") (auto simp: loop_def)
qed

lemma total_for_each:
  assumes "\<And>x s. x \<in> set xs \<Longrightarrow> P s \<Longrightarrow> total (f x s) (\<lambda>_. P)" and "P s"
  shows "total (for_each f xs s) (\<lambda>_. P)"
  using assms
proof (induction xs arbitrary: s)
  case (Cons x xs)
  have "total (f x s) (\<lambda>_. P)" using Cons.prems by simp
  then show ?case
    unfolding for_each.simps total_seq by (rule total_mono) (use Cons in simp)
qed simp

lemma partial_for_each:
  assumes "\<And>x s. x \<in> set xs \<Longrightarrow> P s \<Longrightarrow> partial (f x s) (\<lambda>_. P)" and "P s"
  shows "partial (for_each f xs s) (\<lambda>_. P)"
  using assms
proof (induction xs arbitrary: s)
  case (Cons x xs)
  have "partial (f x s) (\<lambda>_. P)" using Cons.prems by simp
  then show ?case
    unfolding for_each.simps partial_seq by (rule partial_mono) (use Cons in simp)
qed simp

section \<open>Bytes\<close>

text \<open>Little-endian halfwords and words in a block of bytes.\<close>

definition get16 :: "(nat \<Rightarrow> u8) \<Rightarrow> nat \<Rightarrow> u16" where
  "get16 d k = word_cat (d (k + 1)) (d k)"

definition get32 :: "(nat \<Rightarrow> u8) \<Rightarrow> nat \<Rightarrow> u32" where
  "get32 d k = word_cat (get16 d (k + 2)) (get16 d k)"

definition put16 :: "u16 \<Rightarrow> nat \<Rightarrow> (nat \<Rightarrow> u8) \<Rightarrow> nat \<Rightarrow> u8" where
  "put16 v k d = d(k := ucast v, k + 1 := ucast (drop_bit 8 v))"

definition put32 :: "u32 \<Rightarrow> nat \<Rightarrow> (nat \<Rightarrow> u8) \<Rightarrow> nat \<Rightarrow> u8" where
  "put32 v k d = put16 (ucast (drop_bit 16 v)) (k + 2) (put16 (ucast v) k d)"

lemma word_cat_split16: "word_cat (ucast (drop_bit 8 v) :: u8) (ucast v :: u8) = (v :: u16)"
  by (rule bit_word_eqI) (auto simp: bit_word_cat_iff bit_simps)

lemma word_cat_split32: "word_cat (ucast (drop_bit 16 v) :: u16) (ucast v :: u16) = (v :: u32)"
  by (rule bit_word_eqI) (auto simp: bit_word_cat_iff bit_simps)

lemma get16_put16 [simp]: "get16 (put16 v k d) k = v"
  by (simp add: get16_def put16_def word_cat_split16)

lemma get16_put16_other: "j + 1 < k \<or> k + 1 < j \<Longrightarrow> get16 (put16 v k d) j = get16 d j"
  by (auto simp: get16_def put16_def)

lemma get32_put32 [simp]: "get32 (put32 v k d) k = v"
  by (simp add: get32_def put32_def get16_put16_other word_cat_split32)

section \<open>C conditions and integers\<close>

text \<open>A C integer used as a condition.\<close>

definition tst :: "'n::len word \<Rightarrow> bool" where
  "tst w = (w \<noteq> 0)"

lemma tst_iff [simp]: "tst w \<longleftrightarrow> w \<noteq> 0"
  by (simp add: tst_def)

text \<open>\<open>long\<close> and \<open>int\<close> comparisons read the word as two's complement.\<close>

definition slt :: "u32 \<Rightarrow> u32 \<Rightarrow> bool" where
  "slt a b = (sint a < sint b)"

definition sle :: "u32 \<Rightarrow> u32 \<Rightarrow> bool" where
  "sle a b = (sint a \<le> sint b)"

text \<open>C division and remainder of \<open>int\<close>s truncate towards zero.\<close>

definition cdiv :: "u32 \<Rightarrow> u32 \<Rightarrow> u32" where
  "cdiv a b = word_of_int (sint a sdiv sint b)"

definition cmod :: "u32 \<Rightarrow> u32 \<Rightarrow> u32" where
  "cmod a b = word_of_int (sint a smod sint b)"

lemma sint_of_nat: "n < 2 ^ 31 \<Longrightarrow> sint (of_nat n :: u32) = int n"
  by (simp add: sint_uint uint_nat unsigned_of_nat take_bit_nat_eq_self signed_take_bit_eq_if_positive
      bit_iff_odd of_nat_take_bit) (simp add: take_bit_int_eq_self)

lemma sint_add_bound:
  fixes a b :: u32
  assumes "- (2 ^ 31) \<le> sint a + sint b" and "sint a + sint b < 2 ^ 31"
  shows "sint (a + b) = sint a + sint b"
  using assms by (simp add: signed_take_bit_int_eq_self_iff signed_take_bit_int_eq_self sint_word_ariths)

lemma sint_pred: "0 \<le> sint c \<Longrightarrow> sint (c - 1 :: u32) = sint c - 1"
  using sint_add_bound [of c "- 1"] sint_lt [of c] by simp

text \<open>Reading a list out of range has no meaning in C.\<close>

definition at :: "'a list \<Rightarrow> nat \<Rightarrow> ('a \<Rightarrow> ('b, 's) outcome) \<Rightarrow> ('b, 's) outcome" where
  "at xs i k = (if i < length xs then k (xs ! i) else Fault)"

lemma at_simps [simp]:
  "i < length xs \<Longrightarrow> at xs i k = k (xs ! i)"
  "\<not> i < length xs \<Longrightarrow> at xs i k = Fault"
  by (simp_all add: at_def)

end
