(* ===== verification/Memory.thy ===== *)
theory Memory
  imports Prelude
begin

text \<open>
  The page allocator and the page tables of mm/memory.c: \<open>get_free_page\<close>,
  \<open>free_page\<close>, \<open>free_page_tables\<close>, \<open>copy_page_tables\<close>, \<open>put_page\<close>, \<open>un_wp_page\<close>,
  \<open>do_wp_page\<close>, \<open>write_verify\<close>, \<open>get_empty_page\<close>, \<open>try_to_share\<close>, \<open>mem_init\<close> and
  \<open>calc_mem\<close>.

  Physical memory is a map from the address of a 32-bit cell to its contents (the code
  reads and writes page tables cell by cell); the page directory is at address 0
  (\<open>_pg_dir = 0\<close>). \<open>mem_map\<close> is the array of page use counts, bytes that wrap at
  256; an index at or beyond \<open>PAGING_PAGES\<close> is outside the array and a \<open>Fault\<close>.
  \<open>invalidate()\<close> flushes the TLB of the processor and has no effect on this state.
\<close>

section \<open>State and constants\<close>

record mm_state =
  mem_map :: "nat \<Rightarrow> u8"
  phys :: "u32 \<Rightarrow> u32"
  high_memory :: u32

definition LOW_MEM :: u32 where "LOW_MEM = 0x100000"

definition PAGING_PAGES :: nat where "PAGING_PAGES = 3840"

definition USED :: u8 where "USED = 100"

definition MAP_NR :: "u32 \<Rightarrow> nat" where
  "MAP_NR addr = unat (drop_bit 12 (addr - LOW_MEM))"

definition mem_map_at :: "nat \<Rightarrow> mm_state \<Rightarrow> (u8 \<Rightarrow> ('a, mm_state) outcome) \<Rightarrow> ('a, mm_state) outcome" where
  "mem_map_at i m k = (if i < PAGING_PAGES then k (mem_map m i) else Fault)"

definition set_mem_map :: "nat \<Rightarrow> u8 \<Rightarrow> mm_state \<Rightarrow> (unit, mm_state) outcome" where
  "set_mem_map i c m =
     (if i < PAGING_PAGES then Ret () (m\<lparr>mem_map := (mem_map m)(i := c)\<rparr>) else Fault)"

definition poke :: "u32 \<Rightarrow> u32 \<Rightarrow> mm_state \<Rightarrow> mm_state" where
  "poke a v m = m\<lparr>phys := (phys m)(a := v)\<rparr>"

section \<open>Allocating and freeing a page\<close>

text \<open>\<open>repne scasb\<close> runs down from the last entry of \<open>mem_map\<close>.\<close>

primrec scan_free :: "nat \<Rightarrow> (nat \<Rightarrow> u8) \<Rightarrow> nat option" where
  "scan_free 0 mp = None"
| "scan_free (Suc n) mp = (if mp n = 0 then Some n else scan_free n mp)"

definition page_addr :: "nat \<Rightarrow> u32" where
  "page_addr i = push_bit 12 (of_nat i) + LOW_MEM"

text \<open>\<open>rep ; stosl\<close> over the 1024 cells of the page.\<close>

definition clear_page :: "u32 \<Rightarrow> (u32 \<Rightarrow> u32) \<Rightarrow> u32 \<Rightarrow> u32" where
  "clear_page p ph = (\<lambda>a. if p \<le> a \<and> a \<le> p + 4095 then 0 else ph a)"

definition copy_page :: "u32 \<Rightarrow> u32 \<Rightarrow> (u32 \<Rightarrow> u32) \<Rightarrow> u32 \<Rightarrow> u32" where
  "copy_page src dst ph = (\<lambda>a. if dst \<le> a \<and> a \<le> dst + 4095 then ph (src + (a - dst)) else ph a)"

definition get_free_page :: "mm_state \<Rightarrow> (u32, mm_state) outcome" where
  "get_free_page m = (case scan_free PAGING_PAGES (mem_map m) of
      None \<Rightarrow> Ret 0 m
    | Some i \<Rightarrow> Ret (page_addr i)
        (m\<lparr>mem_map := (mem_map m)(i := 1), phys := clear_page (page_addr i) (phys m)\<rparr>))"

definition free_page :: "u32 \<Rightarrow> mm_state \<Rightarrow> (unit, mm_state) outcome" where
  "free_page addr m =
     (if addr < LOW_MEM then Ret () m
      else if high_memory m \<le> addr then Panic ''trying to free nonexistent page''
      else let i = unat (drop_bit 12 (addr - LOW_MEM)) in
        mem_map_at i m (\<lambda>c.
          if c \<noteq> 0 then set_mem_map i (c - 1) m
          else Panic ''trying to free free page''))"

section \<open>Page tables of a range of linear addresses\<close>

text \<open>\<open>(addr >> 20) & 0xffc\<close>: the directory entry of a linear address.\<close>

definition pde_addr :: "u32 \<Rightarrow> u32" where
  "pde_addr addr = drop_bit 20 addr AND 0xffc"

primrec free_table :: "nat \<Rightarrow> u32 \<Rightarrow> mm_state \<Rightarrow> (unit, mm_state) outcome" where
  "free_table 0 pg_table m = Ret () m"
| "free_table (Suc n) pg_table m =
     seq (if tst (1 AND phys m pg_table) then free_page (0xfffff000 AND phys m pg_table) m
          else Ret () m)
       (\<lambda>_ m. free_table n (pg_table + 4) (poke pg_table 0 m))"

primrec free_dirs :: "nat \<Rightarrow> u32 \<Rightarrow> mm_state \<Rightarrow> (unit, mm_state) outcome" where
  "free_dirs 0 dir m = Ret () m"
| "free_dirs (Suc n) dir m =
     (if \<not> tst (1 AND phys m dir) then free_dirs n (dir + 4) m
      else seq (free_table 1024 (0xfffff000 AND phys m dir) m) (\<lambda>_ m.
           seq (free_page (0xfffff000 AND phys m dir) m) (\<lambda>_ m.
           free_dirs n (dir + 4) (poke dir 0 m))))"

definition free_page_tables :: "u32 \<Rightarrow> u32 \<Rightarrow> mm_state \<Rightarrow> (u32, mm_state) outcome" where
  "free_page_tables frm sz m =
     (if tst (frm AND 0x3fffff) then Panic ''free_page_tables called with wrong alignment''
      else if frm = 0 then Panic ''Trying to free up swapper memory space''
      else seq (free_dirs (unat (drop_bit 22 (sz + 0x3fffff))) (pde_addr frm) m)
             (\<lambda>_ m. Ret 0 m))"

text \<open>\<open>entry & ~2\<close>: a page table entry without its write permission.\<close>

definition write_protect :: "u32 \<Rightarrow> u32" where
  "write_protect e = e AND NOT 2"

primrec copy_table :: "nat \<Rightarrow> u32 \<Rightarrow> u32 \<Rightarrow> mm_state \<Rightarrow> (unit, mm_state) outcome" where
  "copy_table 0 from_page_table to_page_table m = Ret () m"
| "copy_table (Suc nr) from_page_table to_page_table m =
     (let this_page = phys m from_page_table in
      if \<not> tst (1 AND this_page)
      then copy_table nr (from_page_table + 4) (to_page_table + 4) m
      else let this_page = write_protect this_page; m = poke to_page_table this_page m in
        if LOW_MEM < this_page
        then let m = poke from_page_table this_page m; i = MAP_NR this_page in
          mem_map_at i m (\<lambda>c. seq (set_mem_map i (c + 1) m) (\<lambda>_ m.
            copy_table nr (from_page_table + 4) (to_page_table + 4) m))
        else copy_table nr (from_page_table + 4) (to_page_table + 4) m)"

primrec copy_dirs :: "nat \<Rightarrow> nat \<Rightarrow> u32 \<Rightarrow> u32 \<Rightarrow> mm_state \<Rightarrow> (u32, mm_state) outcome" where
  "copy_dirs nr 0 from_dir to_dir m = Ret 0 m"
| "copy_dirs nr (Suc n) from_dir to_dir m =
     (if tst (1 AND phys m to_dir) then Panic ''copy_page_tables: already exist''
      else if \<not> tst (1 AND phys m from_dir) then copy_dirs nr n (from_dir + 4) (to_dir + 4) m
      else let from_page_table = 0xfffff000 AND phys m from_dir in
        seq (get_free_page m) (\<lambda>to_page_table m.
          if to_page_table = 0 then Ret (- 1) m
          else let m = poke to_dir (to_page_table OR 7) m in
            seq (copy_table nr from_page_table to_page_table m) (\<lambda>_ m.
            copy_dirs nr n (from_dir + 4) (to_dir + 4) m)))"

text \<open>
  \<open>size\<close> is a \<open>long\<close>: the loop \<open>for( ; size-->0 ; )\<close> runs \<open>sint size\<close> times, and
  after the unsigned shift by 22 the value is a small non-negative one.
\<close>

definition copy_page_tables :: "u32 \<Rightarrow> u32 \<Rightarrow> u32 \<Rightarrow> mm_state \<Rightarrow> (u32, mm_state) outcome" where
  "copy_page_tables frm to sz m =
     (if tst (frm AND 0x3fffff) \<or> tst (to AND 0x3fffff)
      then Panic ''copy_page_tables called with wrong alignment''
      else copy_dirs (if frm = 0 then 0xA0 else 1024) (unat (drop_bit 22 (sz + 0x3fffff)))
             (pde_addr frm) (pde_addr to) m)"

section \<open>Mapping, unsharing and sharing single pages\<close>

definition put_page :: "u32 \<Rightarrow> u32 \<Rightarrow> mm_state \<Rightarrow> (u32, mm_state) outcome" where
  "put_page page address m =
     mem_map_at (MAP_NR page) m (\<lambda>_.
       seq (if tst (phys m (pde_addr address) AND 1)
            then Ret (Some (0xfffff000 AND phys m (pde_addr address))) m
            else seq (get_free_page m) (\<lambda>tmp m.
              if tmp = 0 then Ret None m
              else Ret (Some tmp) (poke (pde_addr address) (tmp OR 7) m)))
         (\<lambda>r m. case r of
            None \<Rightarrow> Ret 0 m
          | Some page_table \<Rightarrow>
              Ret page (poke (page_table + 4 * (drop_bit 12 address AND 0x3ff)) (page OR 7) m)))"

text \<open>\<open>oom()\<close> ends the current process with \<open>SIGSEGV\<close>.\<close>

definition SIGSEGV :: u32 where "SIGSEGV = 11"

definition oom :: "mm_state \<Rightarrow> ('a, mm_state) outcome" where
  "oom m = Exits SIGSEGV m"

definition un_wp_page :: "u32 \<Rightarrow> mm_state \<Rightarrow> (unit, mm_state) outcome" where
  "un_wp_page table_entry m =
     (let old_page = 0xfffff000 AND phys m table_entry in
      if LOW_MEM \<le> old_page \<and> PAGING_PAGES \<le> MAP_NR old_page then Fault
      else if LOW_MEM \<le> old_page \<and> mem_map m (MAP_NR old_page) = 1
      then Ret () (poke table_entry (phys m table_entry OR 2) m)
      else seq (get_free_page m) (\<lambda>new_page m.
        if new_page = 0 then oom m
        else seq (if LOW_MEM \<le> old_page
                  then mem_map_at (MAP_NR old_page) m (\<lambda>c. set_mem_map (MAP_NR old_page) (c - 1) m)
                  else Ret () m) (\<lambda>_ m.
             let m = poke table_entry (new_page OR 7) m in
             Ret () (m\<lparr>phys := copy_page old_page new_page (phys m)\<rparr>))))"

text \<open>The address of the page table entry that the two page-fault handlers look at.\<close>

definition pte_of :: "u32 \<Rightarrow> u32 \<Rightarrow> u32" where
  "pte_of pde address = (drop_bit 10 address AND 0xffc) + (0xfffff000 AND pde)"

definition do_wp_page :: "u32 \<Rightarrow> u32 \<Rightarrow> mm_state \<Rightarrow> (unit, mm_state) outcome" where
  "do_wp_page error_code address m =
     un_wp_page (pte_of (phys m (pde_addr address)) address) m"

definition write_verify :: "u32 \<Rightarrow> mm_state \<Rightarrow> (unit, mm_state) outcome" where
  "write_verify address m =
     (let page = phys m (pde_addr address) in
      if \<not> tst (page AND 1) then Ret () m
      else let page = (page AND 0xfffff000) + (drop_bit 10 address AND 0xffc) in
        if 3 AND phys m page = 1 then un_wp_page page m else Ret () m)"

definition get_empty_page :: "u32 \<Rightarrow> mm_state \<Rightarrow> (unit, mm_state) outcome" where
  "get_empty_page address m =
     seq (get_free_page m) (\<lambda>tmp m.
       if tmp = 0 then seq (free_page tmp m) (\<lambda>_ m. oom m)
       else seq (put_page tmp address m) (\<lambda>r m.
         if r = 0 then seq (free_page tmp m) (\<lambda>_ m. oom m) else Ret () m))"

definition try_to_share :: "u32 \<Rightarrow> u32 \<Rightarrow> u32 \<Rightarrow> mm_state \<Rightarrow> (u32, mm_state) outcome" where
  "try_to_share address p_start_code current_start_code m =
     (let from_page = pde_addr address + pde_addr p_start_code;
          to_page = pde_addr address + pde_addr current_start_code;
          frm = phys m from_page in
      if \<not> tst (frm AND 1) then Ret 0 m
      else let frm = frm AND 0xfffff000;
          from_page = frm + (drop_bit 10 address AND 0xffc);
          phys_addr = phys m from_page in
      if phys_addr AND 0x41 \<noteq> 0x01 then Ret 0 m
      else let phys_addr = phys_addr AND 0xfffff000 in
      if high_memory m \<le> phys_addr \<or> phys_addr < LOW_MEM then Ret 0 m
      else let to = phys m to_page in
      seq (if \<not> tst (to AND 1)
           then seq (get_free_page m) (\<lambda>to m.
             if to = 0 then oom m else Ret to (poke to_page (to OR 7) m))
           else Ret to m) (\<lambda>to m.
      let to = to AND 0xfffff000; to_page = to + (drop_bit 10 address AND 0xffc) in
      if tst (1 AND phys m to_page) then Panic ''try_to_share: to_page already exists''
      else let m = poke from_page (write_protect (phys m from_page)) m;
          m = poke to_page (phys m from_page) m;
          i = unat (drop_bit 12 (phys_addr - LOW_MEM)) in
        mem_map_at i m (\<lambda>c. seq (set_mem_map i (c + 1) m) (\<lambda>_ m. Ret 1 m))))"

section \<open>Start-up and statistics\<close>

primrec zero_pages :: "nat \<Rightarrow> nat \<Rightarrow> mm_state \<Rightarrow> (unit, mm_state) outcome" where
  "zero_pages 0 i m = Ret () m"
| "zero_pages (Suc n) i m = seq (set_mem_map i 0 m) (\<lambda>_ m. zero_pages n (Suc i) m)"

text \<open>\<open>end_mem >>= 12\<close> shifts a \<open>long\<close>; a negative length runs the loop no time.\<close>

definition mem_init :: "u32 \<Rightarrow> u32 \<Rightarrow> mm_state \<Rightarrow> (unit, mm_state) outcome" where
  "mem_init start_mem end_mem m =
     (let m = m\<lparr>high_memory := end_mem, mem_map := (\<lambda>i. if i < PAGING_PAGES then USED else mem_map m i)\<rparr>
      in zero_pages (nat (sint (end_mem - start_mem) div 4096)) (MAP_NR start_mem) m)"

text \<open>What \<open>calc_mem\<close> prints: the free pages, and the pages of each page table in use.\<close>

definition count_free :: "mm_state \<Rightarrow> nat" where
  "count_free m = length (filter (\<lambda>i. mem_map m i = 0) [0..<PAGING_PAGES])"

definition count_table :: "u32 \<Rightarrow> mm_state \<Rightarrow> nat" where
  "count_table pg_tbl m =
     length (filter (\<lambda>j. tst (phys m (pg_tbl + 4 * of_nat j) AND 1)) [0..<1024])"

definition calc_mem :: "mm_state \<Rightarrow> nat \<times> (nat \<times> nat) list" where
  "calc_mem m = (count_free m,
     map (\<lambda>i. (i, count_table (0xfffff000 AND phys m (4 * of_nat i)) m))
       (filter (\<lambda>i. tst (1 AND phys m (4 * of_nat i))) [2..<1024]))"

end
