(* ===== verification/PageRefs.thy ===== *)
theory PageRefs
  imports Memory
begin

text \<open>
  Reference counting of physical pages. \<open>frame e\<close> is the physical page number a page
  table entry (or an address) points to, \<open>cell t k\<close> the address of entry \<open>k\<close> of the
  table at \<open>t\<close>. The first four directory entries are the kernel's own identity map of
  the 16 MB of physical memory (set up by boot/head.s) and hold no reference that
  \<open>mem_map\<close> counts. \<open>acct ph i\<close> counts, over the other directory entries, the present
  directory and table entries that point to page \<open>i\<close> of \<open>mem_map\<close>; \<open>mm_inv ext m\<close> says
  that \<open>mem_map\<close> holds exactly that count plus the references \<open>ext\<close> held outside the
  page tables (task structures, pipe buffers, reserved pages). Every operation of
  mm/memory.c that touches page tables keeps it.
\<close>

section \<open>Frames and cells\<close>

lemma unat32_less [simp]: "unat (e::u32) < 4294967296"
  using unsigned_less [of e, where ?'a = nat] by simp

lemma page_mask: "(0xfffff000::u32) = NOT (mask 12)"
  by (simp add: mask_numeral)

definition frame :: "u32 \<Rightarrow> nat" where
  "frame e = unat (drop_bit 12 e)"

definition cell :: "u32 \<Rightarrow> nat \<Rightarrow> u32" where
  "cell t k = t + 4 * of_nat k"

definition tbl :: "u32 \<Rightarrow> u32" where
  "tbl e = 0xfffff000 AND e"

lemma frame_div: "frame e = unat e div 4096"
  by (simp add: frame_def drop_bit_eq_div unat_div)

lemma frame_less: "frame e < 1048576"
  unfolding frame_div by (rule less_mult_imp_div_less) (simp add: less_le_trans [OF unat32_less])

lemma tbl_push: "tbl e = push_bit 12 (drop_bit 12 e)"
  by (rule bit_word_eqI) (auto simp: tbl_def page_mask bit_simps)

lemma frame_tbl [simp]: "frame (tbl e) = frame e"
  unfolding frame_def tbl_push
  by (rule arg_cong [where f = unat], rule bit_word_eqI) (auto simp: bit_simps dest: bit_imp_le_length)

lemma unat_tbl: "unat (tbl e) = 4096 * frame e"
proof -
  have "tbl e = (e div 4096) * 4096"
    by (simp add: tbl_push push_bit_eq_mult drop_bit_eq_div)
  moreover have "unat (e div 4096) = frame e"
    by (simp add: frame_div unat_div)
  ultimately have "unat (tbl e) = (frame e * 4096) mod 4294967296"
    by (simp add: unat_word_ariths)
  then show ?thesis
    using frame_less [of e] by simp
qed

lemma unat_cell: "k < 1024 \<Longrightarrow> unat (cell (tbl e) k) = 4096 * frame e + 4 * k"
  using frame_less [of e]
  by (simp add: cell_def unat_word_ariths unat_of_nat unat_tbl)

lemma frame_cell: "k < 1024 \<Longrightarrow> frame (cell (tbl e) k) = frame e"
  by (simp add: frame_div [of "cell _ _"] unat_cell)

lemma cell_index: "k < 1024 \<Longrightarrow> unat (cell (tbl e) k) mod 4096 = 4 * k"
  by (simp add: unat_cell)

lemma cell_eq_iff:
  assumes "k < 1024" and "l < 1024"
  shows "cell (tbl e) k = cell (tbl f) l \<longleftrightarrow> frame e = frame f \<and> k = l"
proof
  assume eq: "cell (tbl e) k = cell (tbl f) l"
  then have "frame e = frame f"
    using assms by (metis frame_cell)
  moreover from eq have "4 * k = 4 * l"
    using assms by (metis cell_index)
  ultimately show "frame e = frame f \<and> k = l" by simp
next
  assume "frame e = frame f \<and> k = l"
  then show "cell (tbl e) k = cell (tbl f) l"
    using assms by (simp add: word_unat_eq_iff unat_cell)
qed

lemma present_bit: "1 AND e \<noteq> 0 \<longleftrightarrow> bit (e::u32) 0"
  by (simp add: and.commute [of 1] and_one_eq bit_0 odd_iff_mod_2_eq_one)

lemma present_bit': "e AND 1 \<noteq> 0 \<longleftrightarrow> bit (e::u32) 0"
  by (simp add: and_one_eq bit_0 odd_iff_mod_2_eq_one)

lemma bit_write_protect: "bit (write_protect e) n \<longleftrightarrow> bit e n \<and> n \<noteq> 1"
proof -
  have "bit (write_protect e) n \<longleftrightarrow> bit e n \<and> bit (NOT (2::u32)) n"
    unfolding write_protect_def by (rule bit_and_iff)
  also have "bit (NOT (2::u32)) n \<longleftrightarrow> n < 32 \<and> n \<noteq> 1"
    unfolding bit_not_iff bit_2_iff by auto
  finally show ?thesis by (auto dest: bit_imp_le_length)
qed

lemma frame_write_protect [simp]: "frame (write_protect e) = frame e"
  unfolding frame_def
  by (rule arg_cong [where f = unat], rule bit_word_eqI)
    (simp add: bit_drop_bit_eq bit_write_protect)

lemma present_write_protect [simp]: "bit (write_protect e) 0 = bit e 0"
  by (simp add: bit_write_protect)

lemma low_mem_frame: "LOW_MEM \<le> e \<longleftrightarrow> 256 \<le> frame e"
  unfolding LOW_MEM_def frame_div word_le_nat_alt
  by (simp add: less_eq_div_iff_mult_less_eq)

lemma MAP_NR_frame: "LOW_MEM \<le> e \<Longrightarrow> MAP_NR e = frame e - 256"
  apply (simp add: MAP_NR_def drop_bit_eq_div unat_div unat_sub frame_div)
  apply (simp add: LOW_MEM_def)
  done

lemma low_mem_write_protect:
  assumes "bit e 0"
  shows "LOW_MEM < write_protect e \<longleftrightarrow> 256 \<le> frame e"
proof -
  have "bit (write_protect e) 0" using assms by simp
  moreover have "\<not> bit LOW_MEM 0" by (simp add: LOW_MEM_def)
  ultimately have "LOW_MEM \<noteq> write_protect e" by metis
  then show ?thesis
    using low_mem_frame [of "write_protect e"] by (simp add: order.strict_iff_order)
qed

section \<open>Counting references\<close>

definition pte_ref :: "u32 \<Rightarrow> nat \<Rightarrow> nat" where
  "pte_ref e i = (if bit e 0 \<and> frame e = i + 256 then 1 else 0)"

definition table_refs :: "(u32 \<Rightarrow> u32) \<Rightarrow> u32 \<Rightarrow> nat \<Rightarrow> nat" where
  "table_refs ph t i = (\<Sum>k<1024. pte_ref (ph (cell t k)) i)"

definition dir_refs :: "(u32 \<Rightarrow> u32) \<Rightarrow> nat \<Rightarrow> nat \<Rightarrow> nat" where
  "dir_refs ph i d = (let e = ph (cell 0 d) in
     if bit e 0 then pte_ref e i + table_refs ph (tbl e) i else 0)"

definition acct :: "(u32 \<Rightarrow> u32) \<Rightarrow> nat \<Rightarrow> nat" where
  "acct ph i = (\<Sum>d\<in>{4..<1024}. dir_refs ph i d)"

definition below :: "u32 \<Rightarrow> u32 \<Rightarrow> bool" where
  "below hm e \<longleftrightarrow> (256 \<le> frame e \<longrightarrow> 4096 * frame e < unat hm)"

definition pt_wf :: "u32 \<Rightarrow> (u32 \<Rightarrow> u32) \<Rightarrow> bool" where
  "pt_wf hm ph \<longleftrightarrow>
     (\<forall>d<1024. bit (ph (cell 0 d)) 0 \<longrightarrow> frame (ph (cell 0 d)) \<noteq> 0 \<and> below hm (ph (cell 0 d)) \<and>
        (d < 4 \<longrightarrow> frame (ph (cell 0 d)) < 256) \<and>
        (4 \<le> d \<longrightarrow> (\<forall>k<1024. bit (ph (cell (tbl (ph (cell 0 d))) k)) 0 \<longrightarrow>
           below hm (ph (cell (tbl (ph (cell 0 d))) k))))) \<and>
     (\<forall>d<1024. \<forall>d'<1024. d \<noteq> d' \<longrightarrow> bit (ph (cell 0 d)) 0 \<longrightarrow> bit (ph (cell 0 d')) 0 \<longrightarrow>
        frame (ph (cell 0 d)) \<noteq> frame (ph (cell 0 d')))"

definition mm_inv :: "(nat \<Rightarrow> nat) \<Rightarrow> mm_state \<Rightarrow> bool" where
  "mm_inv ext m \<longleftrightarrow> high_memory m \<le> 0x1000000 \<and> pt_wf (high_memory m) (phys m) \<and>
     (\<forall>i<PAGING_PAGES. unat (mem_map m i) = acct (phys m) i + ext i) \<and>
     (\<forall>i<PAGING_PAGES. high_memory m \<le> page_addr i \<longrightarrow> 0 < ext i)"

lemma tbl_0 [simp]: "tbl 0 = 0"
  by (simp add: tbl_def)

lemma frame_0 [simp]: "frame 0 = 0"
  by (simp add: frame_def)

lemmas cell_dir_eq_iff [simp] = cell_eq_iff [of _ _ 0 0, simplified]

lemma cell_dir_table_neq:
  "d < 1024 \<Longrightarrow> k < 1024 \<Longrightarrow> frame e \<noteq> 0 \<Longrightarrow> cell 0 d \<noteq> cell (tbl e) k"
  using cell_eq_iff [of d k 0 e] by simp

lemma pt_wfD:
  assumes "pt_wf hm ph" and "d < 1024" and "bit (ph (cell 0 d)) 0"
  shows "frame (ph (cell 0 d)) \<noteq> 0" and "below hm (ph (cell 0 d))"
    and "4 \<le> d \<Longrightarrow> k < 1024 \<Longrightarrow> bit (ph (cell (tbl (ph (cell 0 d))) k)) 0 \<Longrightarrow>
      below hm (ph (cell (tbl (ph (cell 0 d))) k))"
    and "d' < 1024 \<Longrightarrow> d \<noteq> d' \<Longrightarrow> bit (ph (cell 0 d')) 0 \<Longrightarrow>
      frame (ph (cell 0 d')) \<noteq> frame (ph (cell 0 d))"
    and "d < 4 \<Longrightarrow> frame (ph (cell 0 d)) < 256"
  using assms by (auto simp: pt_wf_def)

lemma sum_point_update:
  fixes f g :: "nat \<Rightarrow> nat"
  assumes "finite A" and "k \<in> A" and "\<And>x. x \<in> A \<Longrightarrow> x \<noteq> k \<Longrightarrow> f x = g x"
  shows "sum f A + g k = sum g A + f k"
proof -
  have "sum f A = f k + sum f (A - {k})" and "sum g A = g k + sum g (A - {k})"
    using assms(1,2) by (simp_all add: sum.remove [of _ k])
  moreover have "sum f (A - {k}) = sum g (A - {k})"
    using assms(3) by (intro sum.cong) auto
  ultimately show ?thesis by simp
qed

lemma table_refs_cong:
  "(\<And>k. k < 1024 \<Longrightarrow> ph' (cell t k) = ph (cell t k)) \<Longrightarrow> table_refs ph' t i = table_refs ph t i"
  by (simp add: table_refs_def)

lemma dir_refs_cong:
  "ph' (cell 0 d) = ph (cell 0 d) \<Longrightarrow>
   (\<And>k. bit (ph (cell 0 d)) 0 \<Longrightarrow> k < 1024 \<Longrightarrow>
      ph' (cell (tbl (ph (cell 0 d))) k) = ph (cell (tbl (ph (cell 0 d))) k)) \<Longrightarrow>
   dir_refs ph' i d = dir_refs ph i d"
  by (auto simp: dir_refs_def Let_def intro: table_refs_cong)

lemma acct_ge_dir: "4 \<le> d \<Longrightarrow> d < 1024 \<Longrightarrow> dir_refs ph i d \<le> acct ph i"
  unfolding acct_def by (rule member_le_sum) auto

lemma table_refs_ge: "k < 1024 \<Longrightarrow> pte_ref (ph (cell t k)) i \<le> table_refs ph t i"
  unfolding table_refs_def by (rule member_le_sum) auto

lemma acct_ge_pde:
  "4 \<le> d \<Longrightarrow> d < 1024 \<Longrightarrow> bit (ph (cell 0 d)) 0 \<Longrightarrow> pte_ref (ph (cell 0 d)) i \<le> acct ph i"
  using acct_ge_dir [of d ph i] by (simp add: dir_refs_def Let_def)

lemma acct_ge_pte:
  assumes "4 \<le> d" and "d < 1024" and "bit (ph (cell 0 d)) 0" and "k < 1024"
  shows "pte_ref (ph (cell (tbl (ph (cell 0 d))) k)) i \<le> acct ph i"
  using acct_ge_dir [OF assms(1,2), of ph i] assms(3)
    table_refs_ge [OF assms(4), of ph "tbl (ph (cell 0 d))" i]
  by (simp add: dir_refs_def Let_def)

section \<open>Changing one entry\<close>

lemma poke_pte_dirs:
  assumes wf: "pt_wf hm ph" and d: "d < 1024" and pr: "bit (ph (cell 0 d)) 0" and k: "k < 1024"
  defines "c \<equiv> cell (tbl (ph (cell 0 d))) k"
  shows "d' < 1024 \<Longrightarrow> (ph(c := v)) (cell 0 d') = ph (cell 0 d')"
    and "d' < 1024 \<Longrightarrow> d' \<noteq> d \<Longrightarrow> dir_refs (ph(c := v)) i d' = dir_refs ph i d'"
proof -
  show dir: "(ph(c := v)) (cell 0 d') = ph (cell 0 d')" if "d' < 1024" for d'
    using that cell_dir_table_neq [OF that k pt_wfD(1) [OF wf d pr]] by (simp add: c_def)
  show "dir_refs (ph(c := v)) i d' = dir_refs ph i d'" if "d' < 1024" "d' \<noteq> d"
  proof (rule dir_refs_cong)
    fix l assume "bit (ph (cell 0 d')) 0" and "(l::nat) < 1024"
    then have "cell (tbl (ph (cell 0 d'))) l \<noteq> c"
      using that d k pt_wfD(4) [OF wf d pr, of d'] by (simp add: c_def cell_eq_iff)
    then show "(ph(c := v)) (cell (tbl (ph (cell 0 d'))) l) = ph (cell (tbl (ph (cell 0 d'))) l)" by simp
  qed (use that dir in auto)
qed

lemma acct_poke_pte:
  assumes wf: "pt_wf hm ph" and d: "4 \<le> d" "d < 1024" and pr: "bit (ph (cell 0 d)) 0" and k: "k < 1024"
  defines "c \<equiv> cell (tbl (ph (cell 0 d))) k"
  shows "acct (ph(c := v)) i + pte_ref (ph c) i = acct ph i + pte_ref v i"
proof -
  let ?ph = "ph(c := v)" and ?t = "tbl (ph (cell 0 d))"
  note pd = poke_pte_dirs [OF wf d(2) pr k, folded c_def]
  have "(\<Sum>l<1024. pte_ref (?ph (cell ?t l)) i) + pte_ref (ph (cell ?t k)) i
      = (\<Sum>l<1024. pte_ref (ph (cell ?t l)) i) + pte_ref (?ph (cell ?t k)) i"
    by (rule sum_point_update) (use k in \<open>auto simp: c_def cell_eq_iff\<close>)
  then have one: "dir_refs ?ph i d + pte_ref (ph c) i = dir_refs ph i d + pte_ref v i"
    using pr pd(1) [OF d(2)] by (simp add: dir_refs_def Let_def table_refs_def c_def)
  have "acct ?ph i + dir_refs ph i d = acct ph i + dir_refs ?ph i d"
    unfolding acct_def by (rule sum_point_update) (use d pd(2) in auto)
  with one show ?thesis by simp
qed

lemma acct_poke_pte_low:
  assumes wf: "pt_wf hm ph" and d: "d < 4" and pr: "bit (ph (cell 0 d)) 0" and k: "k < 1024"
  shows "acct (ph(cell (tbl (ph (cell 0 d))) k := v)) i = acct ph i"
  unfolding acct_def by (rule sum.cong) (use d poke_pte_dirs(2) [OF wf _ pr k] in auto)

lemma pt_wf_poke_pte:
  assumes wf: "pt_wf hm ph" and d: "d < 1024" and pr: "bit (ph (cell 0 d)) 0" and k: "k < 1024"
    and v: "4 \<le> d \<Longrightarrow> bit v 0 \<Longrightarrow> below hm v"
  shows "pt_wf hm (ph(cell (tbl (ph (cell 0 d))) k := v))"
proof -
  have dir: "cell 0 d' \<noteq> cell (tbl (ph (cell 0 d))) k" if "d' < 1024" for d'
    by (rule cell_dir_table_neq [OF that k pt_wfD(1) [OF wf d pr]])
  have own: "d' = d" if "cell (tbl (ph (cell 0 d'))) l = cell (tbl (ph (cell 0 d))) k"
    "d' < 1024" "l < 1024" "bit (ph (cell 0 d')) 0" for d' l
    using that pt_wfD(4) [OF wf d pr that(2) _ that(4)] k by (auto simp: cell_eq_iff)
  show ?thesis
    using wf v dir own unfolding pt_wf_def by (simp add: fun_upd_def) blast
qed

lemma acct_poke_pde:
  assumes wf: "pt_wf hm ph" and d: "4 \<le> d" "d < 1024"
  shows "acct (ph(cell 0 d := v)) i + dir_refs ph i d = acct ph i + dir_refs (ph(cell 0 d := v)) i d"
  unfolding acct_def
proof (rule sum_point_update)
  fix d' assume "d' \<in> {4..<1024::nat}" "d' \<noteq> d"
  then have d': "d' < 1024" "d' \<noteq> d" by auto
  show "dir_refs (ph(cell 0 d := v)) i d' = dir_refs ph i d'"
  proof (rule dir_refs_cong)
    fix k assume "bit (ph (cell 0 d')) 0" and "(k::nat) < 1024"
    then show "(ph(cell 0 d := v)) (cell (tbl (ph (cell 0 d'))) k) = ph (cell (tbl (ph (cell 0 d'))) k)"
      using cell_dir_table_neq [OF d(2) _ pt_wfD(1) [OF wf d'(1)]] by (metis fun_upd_other)
  qed (use d d' in simp)
qed (use d in auto)

lemma pt_wf_del_pde:
  assumes wf: "pt_wf hm ph" and d: "d < 1024"
  shows "pt_wf hm (ph(cell 0 d := 0))"
proof -
  have "cell 0 d \<noteq> cell (tbl (ph (cell 0 d'))) k"
    if "d' < 1024" "bit (ph (cell 0 d')) 0" "k < 1024" for d' k
    using cell_dir_table_neq [OF d that(3) pt_wfD(1) [OF wf that(1,2)]] .
  then show ?thesis
    using wf d unfolding pt_wf_def by (simp add: fun_upd_def)
qed

section \<open>Pages that are free\<close>

lemma frame_page_addr: "i < PAGING_PAGES \<Longrightarrow> frame (page_addr i) = i + 256"
  and unat_page_addr: "i < PAGING_PAGES \<Longrightarrow> unat (page_addr i) = 4096 * (i + 256)"
proof -
  assume i: "i < PAGING_PAGES"
  have "unat (push_bit 12 (of_nat i :: u32)) = 4096 * i"
    using i by (simp add: push_bit_eq_mult unat_word_ariths unat_of_nat PAGING_PAGES_def)
  then show u: "unat (page_addr i) = 4096 * (i + 256)"
    using i by (simp add: page_addr_def LOW_MEM_def unat_word_ariths PAGING_PAGES_def)
  show "frame (page_addr i) = i + 256"
    by (simp add: frame_div u)
qed

lemma tbl_page_addr [simp]: "i < PAGING_PAGES \<Longrightarrow> tbl (page_addr i) = page_addr i"
  by (simp add: word_unat_eq_iff unat_tbl frame_page_addr unat_page_addr)

lemma page_addr_nonzero [simp]: "i < PAGING_PAGES \<Longrightarrow> page_addr i \<noteq> 0"
  using unat_page_addr [of i] by (intro notI) simp

lemma in_page:
  assumes "i < PAGING_PAGES"
  shows "page_addr i \<le> a \<and> a \<le> page_addr i + 4095 \<longleftrightarrow> frame a = i + 256"
proof -
  have "unat (page_addr i + 4095) = 4096 * (i + 256) + 4095"
    using assms by (simp add: unat_word_ariths unat_page_addr PAGING_PAGES_def)
  then have "page_addr i \<le> a \<and> a \<le> page_addr i + 4095 \<longleftrightarrow>
      4096 * (i + 256) \<le> unat a \<and> unat a < 4096 * (i + 256) + 4096"
    using assms by (simp add: word_le_nat_alt unat_page_addr) linarith
  also have "\<dots> \<longleftrightarrow> unat a div 4096 = i + 256"
    by (simp add: div_nat_eqI less_eq_div_iff_mult_less_eq le_antisym) (auto simp: div_nat_eqI)
  finally show ?thesis by (simp add: frame_div)
qed

lemma clear_page_frame:
  "i < PAGING_PAGES \<Longrightarrow> clear_page (page_addr i) ph a = (if frame a = i + 256 then 0 else ph a)"
  by (simp add: clear_page_def in_page)

lemma scan_free_SomeD:
  "scan_free n mp = Some i \<Longrightarrow> i < n \<and> mp i = 0 \<and> (\<forall>j. i < j \<longrightarrow> j < n \<longrightarrow> mp j \<noteq> 0)"
  by (induction n) (auto split: if_splits simp: less_Suc_eq)

lemma scan_free_NoneD: "scan_free n mp = None \<Longrightarrow> i < n \<Longrightarrow> mp i \<noteq> 0"
  by (induction n) (auto split: if_splits simp: less_Suc_eq)

lemma mm_inv_unreferenced:
  assumes inv: "mm_inv ext m" and i: "i < PAGING_PAGES" and z: "mem_map m i = 0"
    and d: "d < 1024" and pr: "bit (phys m (cell 0 d)) 0"
  shows "frame (phys m (cell 0 d)) \<noteq> i + 256"
    and "4 \<le> d \<Longrightarrow> k < 1024 \<Longrightarrow> bit (phys m (cell (tbl (phys m (cell 0 d))) k)) 0 \<Longrightarrow>
      frame (phys m (cell (tbl (phys m (cell 0 d))) k)) \<noteq> i + 256"
proof -
  have wf: "pt_wf (high_memory m) (phys m)" using inv by (simp add: mm_inv_def)
  have "unat (mem_map m i) = acct (phys m) i + ext i"
    using inv i by (simp add: mm_inv_def)
  with z have a: "acct (phys m) i = 0" by simp
  show "frame (phys m (cell 0 d)) \<noteq> i + 256"
  proof (cases "d < 4")
    case True
    then show ?thesis using pt_wfD(5) [OF wf d pr] by simp
  next
    case False
    then show ?thesis
      using acct_ge_pde [of d "phys m" i] d a pr by (auto simp: pte_ref_def split: if_splits)
  qed
  show "4 \<le> d \<Longrightarrow> k < 1024 \<Longrightarrow> bit (phys m (cell (tbl (phys m (cell 0 d))) k)) 0 \<Longrightarrow>
      frame (phys m (cell (tbl (phys m (cell 0 d))) k)) \<noteq> i + 256"
    using acct_ge_pte [of d "phys m" k i] d pr a by (auto simp: pte_ref_def split: if_splits)
qed

text \<open>Clearing a page nothing points to leaves every page table as it was.\<close>

lemma clear_free_page:
  assumes inv: "mm_inv ext m" and i: "i < PAGING_PAGES" and z: "mem_map m i = 0"
  defines "ph \<equiv> clear_page (page_addr i) (phys m)"
  shows "\<And>d. d < 1024 \<Longrightarrow> ph (cell 0 d) = phys m (cell 0 d)"
    and "\<And>d k. d < 1024 \<Longrightarrow> bit (phys m (cell 0 d)) 0 \<Longrightarrow> k < 1024 \<Longrightarrow>
      ph (cell (tbl (phys m (cell 0 d))) k) = phys m (cell (tbl (phys m (cell 0 d))) k)"
    and "acct ph j = acct (phys m) j"
    and "pt_wf (high_memory m) ph"
proof -
  show dir: "ph (cell 0 d) = phys m (cell 0 d)" if "d < 1024" for d
    using that i frame_cell [of d 0] by (simp add: ph_def clear_page_frame)
  show tab: "ph (cell (tbl (phys m (cell 0 d))) k) = phys m (cell (tbl (phys m (cell 0 d))) k)"
    if "d < 1024" "bit (phys m (cell 0 d)) 0" "k < 1024" for d k
    using that i mm_inv_unreferenced(1) [OF inv i z that(1,2)]
    by (simp add: ph_def clear_page_frame frame_cell)
  show "acct ph j = acct (phys m) j"
    unfolding acct_def by (rule sum.cong) (auto intro!: dir_refs_cong dir tab)
  show "pt_wf (high_memory m) ph"
    using inv dir tab by (simp add: mm_inv_def pt_wf_def)
qed

lemma mm_invD:
  assumes "mm_inv ext m"
  shows "high_memory m \<le> 0x1000000" and "pt_wf (high_memory m) (phys m)"
    and "i < PAGING_PAGES \<Longrightarrow> unat (mem_map m i) = acct (phys m) i + ext i"
    and "i < PAGING_PAGES \<Longrightarrow> high_memory m \<le> page_addr i \<Longrightarrow> 0 < ext i"
  using assms by (auto simp: mm_inv_def)

lemma poke_simps [simp]:
  "mem_map (poke a v m) = mem_map m" "high_memory (poke a v m) = high_memory m"
  "phys (poke a v m) = (phys m)(a := v)"
  by (simp_all add: poke_def)

section \<open>Freeing\<close>

definition dec_ref :: "u32 \<Rightarrow> mm_state \<Rightarrow> mm_state" where
  "dec_ref e m = (if 256 \<le> frame e
     then m\<lparr>mem_map := (mem_map m)(frame e - 256 := mem_map m (frame e - 256) - 1)\<rparr> else m)"

lemma dec_ref_simps [simp]:
  "phys (dec_ref e m) = phys m" "high_memory (dec_ref e m) = high_memory m"
  by (simp_all add: dec_ref_def)

lemma below_index: "below hm e \<Longrightarrow> hm \<le> 0x1000000 \<Longrightarrow> 256 \<le> frame e \<Longrightarrow> frame e - 256 < PAGING_PAGES"
proof -
  assume "below hm e" "hm \<le> 0x1000000" "256 \<le> frame e"
  then have "4096 * frame e < 16777216"
    by (simp add: below_def word_le_nat_alt)
  then show ?thesis using \<open>256 \<le> frame e\<close> by (simp add: PAGING_PAGES_def)
qed

lemma tbl_less_high: "below hm e \<Longrightarrow> 256 \<le> frame e \<Longrightarrow> \<not> hm \<le> tbl e"
  by (simp add: below_def word_le_nat_alt unat_tbl)

lemma free_page_entry:
  assumes hm: "high_memory m \<le> 0x1000000" and e: "below (high_memory m) e"
    and used: "256 \<le> frame e \<Longrightarrow> mem_map m (frame e - 256) \<noteq> 0"
  shows "free_page (tbl e) m = Ret () (dec_ref e m)"
proof (cases "256 \<le> frame e")
  case True
  moreover have "LOW_MEM \<le> tbl e" using True by (simp add: low_mem_frame)
  moreover have "unat (drop_bit 12 (tbl e - LOW_MEM)) = frame e - 256"
    using MAP_NR_frame [of "tbl e"] \<open>LOW_MEM \<le> tbl e\<close> by (simp add: MAP_NR_def)
  ultimately show ?thesis
    using used tbl_less_high [OF e True] below_index [OF e hm True]
    by (simp add: free_page_def dec_ref_def mem_map_at_def set_mem_map_def Let_def not_less [symmetric])
next
  case False
  then have "tbl e < LOW_MEM"
    using low_mem_frame [of "tbl e"] by (simp add: not_le)
  with False show ?thesis by (simp add: free_page_def dec_ref_def)
qed

lemma unat_dec: "c \<noteq> 0 \<Longrightarrow> unat (c - 1 :: u8) = unat c - 1"
  by (simp add: unat_minus_one)

lemma mm_inv_used:
  assumes inv: "mm_inv ext m" and i: "i < PAGING_PAGES" and "0 < acct (phys m) i"
  shows "mem_map m i \<noteq> 0"
  using mm_invD(3) [OF inv i] assms(3) by (intro notI) simp

lemma mem_map_dec_ref:
  assumes "256 \<le> frame e \<Longrightarrow> mem_map m (frame e - 256) \<noteq> 0"
  shows "unat (mem_map (dec_ref e m) i) + (if frame e = i + 256 then 1 else 0) = unat (mem_map m i)"
proof (cases "256 \<le> frame e \<and> frame e = i + 256")
  case True
  then have "mem_map m i \<noteq> 0" using assms by simp
  then have "0 < unat (mem_map m i)" by (simp add: unat_gt_0)
  with True show ?thesis
    by (simp add: dec_ref_def unat_dec [OF \<open>mem_map m i \<noteq> 0\<close>])
next
  case False
  then show ?thesis by (auto simp: dec_ref_def)
qed

lemma free_pte:
  assumes inv: "mm_inv ext m" and d4: "4 \<le> d" and d: "d < 1024" and pr: "bit (phys m (cell 0 d)) 0" and k: "k < 1024"
  defines "c \<equiv> cell (tbl (phys m (cell 0 d))) k"
  assumes e: "bit (phys m c) 0"
  shows "free_page (tbl (phys m c)) m = Ret () (dec_ref (phys m c) m)"
    and "mm_inv ext (poke c 0 (dec_ref (phys m c) m))"
proof -
  note wf = mm_invD(2) [OF inv]
  have bel: "below (high_memory m) (phys m c)"
    using pt_wfD(3) [OF wf d pr d4 k] e by (simp add: c_def)
  have used: "mem_map m (frame (phys m c) - 256) \<noteq> 0" if "256 \<le> frame (phys m c)"
  proof (rule mm_inv_used [OF inv below_index [OF bel mm_invD(1) [OF inv] that]])
    show "0 < acct (phys m) (frame (phys m c) - 256)"
      using acct_ge_pte [of d "phys m" k "frame (phys m c) - 256"] d4 d pr k e that
      by (simp add: c_def pte_ref_def)
  qed
  show "free_page (tbl (phys m c)) m = Ret () (dec_ref (phys m c) m)"
    by (rule free_page_entry [OF mm_invD(1) [OF inv] bel used])
  have "acct ((phys m)(c := 0)) i + pte_ref (phys m c) i = acct (phys m) i" for i
    using acct_poke_pte [OF wf d4 d pr k, of 0 i] by (simp add: c_def pte_ref_def)
  moreover have "unat (mem_map (dec_ref (phys m c) m) i) + pte_ref (phys m c) i = unat (mem_map m i)" for i
    using mem_map_dec_ref [of "phys m c" m i, OF used] e by (simp add: pte_ref_def)
  ultimately have "unat (mem_map (dec_ref (phys m c) m) i) = acct ((phys m)(c := 0)) i + ext i"
    if "i < PAGING_PAGES" for i
    using mm_invD(3) [OF inv that] by (metis add.assoc add.commute add_right_cancel)
  moreover have "pt_wf (high_memory m) ((phys m)(c := 0))"
    unfolding c_def by (rule pt_wf_poke_pte [OF wf d pr k]) simp
  ultimately show "mm_inv ext (poke c 0 (dec_ref (phys m c) m))"
    using mm_invD(1,4) [OF inv] by (simp add: mm_inv_def)
qed

lemma clear_absent_pte:
  assumes inv: "mm_inv ext m" and d4: "4 \<le> d" and d: "d < 1024" and pr: "bit (phys m (cell 0 d)) 0" and k: "k < 1024"
  defines "c \<equiv> cell (tbl (phys m (cell 0 d))) k"
  assumes e: "\<not> bit (phys m c) 0"
  shows "mm_inv ext (poke c 0 m)"
proof -
  note wf = mm_invD(2) [OF inv]
  have "acct ((phys m)(c := 0)) i = acct (phys m) i" for i
    using acct_poke_pte [OF wf d4 d pr k, of 0 i] e by (simp add: c_def pte_ref_def)
  moreover have "pt_wf (high_memory m) ((phys m)(c := 0))"
    unfolding c_def by (rule pt_wf_poke_pte [OF wf d pr k]) simp
  ultimately show ?thesis using inv by (simp add: mm_inv_def)
qed

lemma cell_Suc: "cell t (Suc k) = cell t k + 4"
  by (simp add: cell_def algebra_simps)

lemma all_range_Suc:
  "(\<forall>j. d \<le> j \<longrightarrow> j < d + Suc n \<longrightarrow> P j) \<longleftrightarrow> P d \<and> (\<forall>j. Suc d \<le> j \<longrightarrow> j < Suc d + n \<longrightarrow> P j)"
  by (metis Suc_leD add_Suc_right add_Suc le_antisym le_add1 less_Suc_eq_le not_less_eq_eq)

lemma ex_range_Suc:
  "(\<exists>j. d \<le> j \<and> j < d + Suc n \<and> P j) \<longleftrightarrow> P d \<or> (\<exists>j. Suc d \<le> j \<and> j < Suc d + n \<and> P j)"
  using all_range_Suc [of d n "\<lambda>j. \<not> P j"] by blast

lemma free_table_spec:
  "mm_inv ext m \<Longrightarrow> 4 \<le> d \<Longrightarrow> d < 1024 \<Longrightarrow> bit (phys m (cell 0 d)) 0 \<Longrightarrow> k + n \<le> 1024 \<Longrightarrow>
   total (free_table n (cell (tbl (phys m (cell 0 d))) k) m) (\<lambda>_ m'. mm_inv ext m' \<and>
     high_memory m' = high_memory m \<and> (\<forall>a. phys m' a =
       (if \<exists>j. k \<le> j \<and> j < k + n \<and> a = cell (tbl (phys m (cell 0 d))) j then 0 else phys m a)))"
proof (induction n arbitrary: k m)
  case 0
  then show ?case by auto
next
  case (Suc n)
  let ?t = "tbl (phys m (cell 0 d))" and ?c = "cell (tbl (phys m (cell 0 d))) k"
  have k: "k < 1024" and kn: "Suc k + n \<le> 1024" using Suc.prems(5) by auto
  define m1 where "m1 = (if bit (phys m ?c) 0 then dec_ref (phys m ?c) m else m)"
  have ph1: "phys m1 = phys m" and hm1: "high_memory m1 = high_memory m"
    by (simp_all add: m1_def)
  have inv1: "mm_inv ext (poke ?c 0 m1)"
    using free_pte(2) [OF Suc.prems(1-4) k] clear_absent_pte [OF Suc.prems(1-4) k]
    by (simp add: m1_def)
  have step: "free_table (Suc n) ?c m = free_table n (cell ?t (Suc k)) (poke ?c 0 m1)"
    using free_pte(1) [OF Suc.prems(1-4) k]
    by (simp add: m1_def present_bit [simplified] tbl_def cell_Suc)
  have dc: "cell 0 d \<noteq> ?c"
    using cell_dir_table_neq [OF Suc.prems(3) k pt_wfD(1) [OF mm_invD(2) [OF Suc.prems(1)] Suc.prems(3,4)]] .
  have "total (free_table n (cell ?t (Suc k)) (poke ?c 0 m1)) (\<lambda>_ m'. mm_inv ext m' \<and>
      high_memory m' = high_memory m \<and> (\<forall>a. phys m' a =
        (if \<exists>j. Suc k \<le> j \<and> j < Suc k + n \<and> a = cell ?t j then 0 else phys (poke ?c 0 m1) a)))"
    using Suc.IH [OF inv1 Suc.prems(2,3) _ kn] dc Suc.prems(4) by (simp add: ph1 hm1)
  then show ?case
    unfolding step ex_range_Suc by (rule total_mono) (auto simp: ph1)
qed

text \<open>Removing a directory entry whose table is empty.\<close>

lemma free_pde:
  assumes inv: "mm_inv ext m" and d4: "4 \<le> d" and d: "d < 1024"
  defines "e \<equiv> phys m (cell 0 d)"
  assumes pr: "bit e 0" and z: "\<And>k. k < 1024 \<Longrightarrow> phys m (cell (tbl e) k) = 0"
  shows "free_page (tbl e) m = Ret () (dec_ref e m)"
    and "mm_inv ext (poke (cell 0 d) 0 (dec_ref e m))"
proof -
  note wf = mm_invD(2) [OF inv]
  have bel: "below (high_memory m) e"
    using pt_wfD(2) [OF wf d] pr by (simp add: e_def)
  have used: "mem_map m (frame e - 256) \<noteq> 0" if "256 \<le> frame e"
  proof (rule mm_inv_used [OF inv below_index [OF bel mm_invD(1) [OF inv] that]])
    show "0 < acct (phys m) (frame e - 256)"
      using acct_ge_pde [of d "phys m" "frame e - 256"] d4 d pr that
      by (simp add: e_def pte_ref_def)
  qed
  show "free_page (tbl e) m = Ret () (dec_ref e m)"
    by (rule free_page_entry [OF mm_invD(1) [OF inv] bel used])
  have "table_refs (phys m) (tbl e) i = 0" for i
    using z by (simp add: table_refs_def pte_ref_def)
  then have "acct ((phys m)(cell 0 d := 0)) i + pte_ref e i = acct (phys m) i" for i
    using acct_poke_pde [OF wf d4 d, of 0 i] pr by (simp add: dir_refs_def e_def Let_def)
  moreover have "unat (mem_map (dec_ref e m) i) + pte_ref e i = unat (mem_map m i)" for i
    using mem_map_dec_ref [of e m i, OF used] pr by (simp add: pte_ref_def)
  ultimately have "unat (mem_map (dec_ref e m) i) = acct ((phys m)(cell 0 d := 0)) i + ext i"
    if "i < PAGING_PAGES" for i
    using mm_invD(3) [OF inv that] by (metis add.assoc add.commute add_right_cancel)
  then show "mm_inv ext (poke (cell 0 d) 0 (dec_ref e m))"
    using mm_invD(1,4) [OF inv] pt_wf_del_pde [OF wf d] by (simp add: mm_inv_def)
qed

definition same_dir :: "mm_state \<Rightarrow> mm_state \<Rightarrow> nat \<Rightarrow> bool" where
  "same_dir m m' j \<longleftrightarrow> phys m' (cell 0 j) = phys m (cell 0 j) \<and>
     (bit (phys m (cell 0 j)) 0 \<longrightarrow>
        (\<forall>k<1024. phys m' (cell (tbl (phys m (cell 0 j))) k) = phys m (cell (tbl (phys m (cell 0 j))) k)))"

lemma same_dir_refl [simp]: "same_dir m m j"
  by (simp add: same_dir_def)

lemma same_dir_trans: "same_dir m m1 j \<Longrightarrow> same_dir m1 m2 j \<Longrightarrow> same_dir m m2 j"
  by (auto simp: same_dir_def)

lemma free_dirs_spec:
  "mm_inv ext m \<Longrightarrow> 4 \<le> d \<Longrightarrow> d + n \<le> 1024 \<Longrightarrow>
   total (free_dirs n (cell 0 d) m) (\<lambda>_ m'. mm_inv ext m' \<and> high_memory m' = high_memory m \<and>
     (\<forall>j. d \<le> j \<longrightarrow> j < d + n \<longrightarrow> \<not> bit (phys m' (cell 0 j)) 0) \<and>
     (\<forall>j<1024. j < d \<or> d + n \<le> j \<longrightarrow> same_dir m m' j))"
proof (induction n arbitrary: d m)
  case 0
  then show ?case by simp
next
  case (Suc n)
  let ?e = "phys m (cell 0 d)"
  have d: "d < 1024" and dn: "Suc d + n \<le> 1024" and d4: "4 \<le> d" "4 \<le> Suc d"
    using Suc.prems(2,3) by auto
  note IH = Suc.IH [OF _ d4(2) dn]
  show ?case
  proof (cases "bit ?e 0")
    case False
    then have "free_dirs (Suc n) (cell 0 d) m = free_dirs n (cell 0 (Suc d)) m"
      by (simp add: present_bit [simplified] cell_Suc)
    moreover have "\<not> bit (phys m' (cell 0 d)) 0" if "same_dir m m' d" for m'
      using that False by (simp add: same_dir_def)
    ultimately show ?thesis
      using d unfolding all_range_Suc
      by (auto simp del: free_dirs.simps intro!: total_mono [OF IH [OF Suc.prems(1)]])
  next
    case True
    note wf = mm_invD(2) [OF Suc.prems(1)]
    have nz: "frame ?e \<noteq> 0" by (rule pt_wfD(1) [OF wf d True])
    obtain m1 where m1: "free_table 1024 (tbl ?e) m = Ret () m1" and inv1: "mm_inv ext m1"
      and hm1: "high_memory m1 = high_memory m"
      and ph1: "\<And>a. phys m1 a = (if \<exists>j<1024. a = cell (tbl ?e) j then 0 else phys m a)"
      using free_table_spec [OF Suc.prems(1) d4(1) d True, of 0 1024]
      by (auto simp: total_iff cell_def [of _ 0])
    have e1: "phys m1 (cell 0 d) = ?e"
      using cell_dir_table_neq [OF d _ nz] by (auto simp: ph1)
    have z1: "phys m1 (cell (tbl ?e) k) = 0" if "k < 1024" for k
      using that by (auto simp: ph1)
    define m2 where "m2 = poke (cell 0 d) 0 (dec_ref ?e m1)"
    have f: "free_page (tbl ?e) m1 = Ret () (dec_ref ?e m1)" and inv2: "mm_inv ext m2"
      using free_pde [OF inv1 d4(1) d] e1 True z1 by (simp_all add: m2_def)
    have step: "free_dirs (Suc n) (cell 0 d) m = free_dirs n (cell 0 (Suc d)) m2"
      using True m1 f e1 by (simp add: present_bit [simplified] tbl_def cell_Suc m2_def)
    have oth: "same_dir m m2 j" if j: "j < 1024" "j \<noteq> d" for j
    proof -
      have "phys m2 (cell 0 j) = phys m (cell 0 j)"
        using j d cell_dir_table_neq [OF j(1) _ nz] by (auto simp: m2_def ph1)
      moreover have "phys m2 (cell (tbl (phys m (cell 0 j))) k) = phys m (cell (tbl (phys m (cell 0 j))) k)"
        if "bit (phys m (cell 0 j)) 0" "k < 1024" for k
        using that j pt_wfD(4) [OF wf d True j(1) _ that(1)]
          cell_dir_table_neq [OF d that(2) pt_wfD(1) [OF wf j(1) that(1)]]
        by (auto simp: m2_def ph1 cell_eq_iff)
      ultimately show ?thesis by (simp add: same_dir_def)
    qed
    have "\<not> bit (phys m' (cell 0 d)) 0" if "same_dir m2 m' d" for m'
      using that by (simp add: same_dir_def m2_def)
    moreover have "high_memory m2 = high_memory m"
      by (simp add: m2_def hm1)
    ultimately show ?thesis
      using oth d unfolding step all_range_Suc
      by (auto intro!: total_mono [OF IH [OF inv2]] intro: same_dir_trans [of m m2])
  qed
qed

lemma pde_addr_cell: "pde_addr a = cell 0 (unat (drop_bit 22 a))"
proof (rule bit_word_eqI)
  fix n assume "n < LENGTH(32)"
  have "cell 0 (unat (drop_bit 22 a)) = push_bit 2 (drop_bit 22 a)"
    by (simp add: cell_def push_bit_eq_mult)
  moreover have "(0xffc::u32) = mask 12 AND NOT (mask 2)"
    by (simp add: mask_numeral)
  ultimately show "bit (pde_addr a) n = bit (cell 0 (unat (drop_bit 22 a))) n"
    using \<open>n < LENGTH(32)\<close> unfolding pde_addr_def
    by (auto simp only: bit_simps) (auto dest: bit_imp_le_length)
qed

end
