(* ===== verification/PageOps.thy ===== *)
theory PageOps
  imports PageRefs
begin

text \<open>
  Every other operation of mm/memory.c on the page tables keeps the reference counts:
  allocation, copying the tables of a process at \<open>fork\<close>, mapping a page, unsharing
  a page on a write fault, and start-up.
\<close>

section \<open>Allocation\<close>

text \<open>A fresh page, referenced from outside the page tables until it is mapped.\<close>

definition add_ext :: "nat \<Rightarrow> (nat \<Rightarrow> nat) \<Rightarrow> nat \<Rightarrow> nat" where
  "add_ext i ext = ext(i := ext i + 1)"

definition alloc_page :: "nat \<Rightarrow> mm_state \<Rightarrow> mm_state" where
  "alloc_page i m = m\<lparr>mem_map := (mem_map m)(i := 1), phys := clear_page (page_addr i) (phys m)\<rparr>"

lemma get_free_page_cases:
  obtains (none) "get_free_page m = Ret 0 m" and "\<And>i. i < PAGING_PAGES \<Longrightarrow> mem_map m i \<noteq> 0"
  | (page) i where "get_free_page m = Ret (page_addr i) (alloc_page i m)"
      and "i < PAGING_PAGES" and "mem_map m i = 0"
      and "\<And>j. i < j \<Longrightarrow> j < PAGING_PAGES \<Longrightarrow> mem_map m j \<noteq> 0"
proof (cases "scan_free PAGING_PAGES (mem_map m)")
  case None
  then show ?thesis
    using none scan_free_NoneD [OF None] by (simp add: get_free_page_def)
next
  case (Some i)
  then show ?thesis
    using page [of i] scan_free_SomeD [OF Some] by (simp add: get_free_page_def alloc_page_def)
qed

lemma alloc_page_inv:
  assumes inv: "mm_inv ext m" and i: "i < PAGING_PAGES" and z: "mem_map m i = 0"
  shows "mm_inv (add_ext i ext) (alloc_page i m)"
proof -
  note c = clear_free_page [OF inv i z]
  have "unat (mem_map m i) = acct (phys m) i + ext i"
    by (rule mm_invD(3) [OF inv i])
  with z have "acct (phys m) i = 0" "ext i = 0" by auto
  then show ?thesis
    using c(3,4) mm_invD [OF inv] by (auto simp: mm_inv_def alloc_page_def add_ext_def)
qed

lemma alloc_page_simps [simp]: "high_memory (alloc_page i m) = high_memory m"
  by (simp add: alloc_page_def)

lemma alloc_page_same_dir:
  assumes "mm_inv ext m" and "i < PAGING_PAGES" and "mem_map m i = 0" and "d < 1024"
  shows "same_dir m (alloc_page i m) d"
  using clear_free_page(1,2) [OF assms(1-3)] assms(4)
  by (simp add: same_dir_def alloc_page_def)

lemma alloc_page_below:
  assumes inv: "mm_inv ext m" and i: "i < PAGING_PAGES" and z: "mem_map m i = 0"
  shows "unat (page_addr i) < unat (high_memory m)"
proof -
  have "ext i = 0" using mm_invD(3) [OF inv i] z by simp
  then show ?thesis
    using mm_invD(4) [OF inv i] by (fastforce simp: word_le_nat_alt not_le)
qed

text \<open>Turning the outside reference to a page into an entry of a page table.\<close>

lemma frame_or7 [simp]: "frame (e OR 7) = frame e"
  unfolding frame_def
  by (rule arg_cong [where f = unat], rule bit_word_eqI)
     (simp add: bit_drop_bit_eq bit_or_iff bit_numeral_rec bit_simps)

lemma present_or7 [simp]: "bit ((e::u32) OR 7) 0"
  by (simp add: bit_or_iff)

lemma set_pte_inv:
  assumes inv: "mm_inv (add_ext i ext) m" and d4: "4 \<le> d" and d: "d < 1024" and pr: "bit (phys m (cell 0 d)) 0"
    and k: "k < 1024" and i: "i < PAGING_PAGES" and hm: "unat (page_addr i) < unat (high_memory m)"
    and old: "\<not> bit (phys m (cell (tbl (phys m (cell 0 d))) k)) 0"
  shows "mm_inv ext (poke (cell (tbl (phys m (cell 0 d))) k) (page_addr i OR 7) m)"
proof -
  note wf = mm_invD(2) [OF inv]
  have "acct ((phys m)(cell (tbl (phys m (cell 0 d))) k := page_addr i OR 7)) j
      = acct (phys m) j + (if i = j then 1 else 0)" for j
    using acct_poke_pte [OF wf d4 d pr k, of "page_addr i OR 7" j] old i
    by (simp add: pte_ref_def frame_page_addr)
  moreover have "pt_wf (high_memory m) ((phys m)(cell (tbl (phys m (cell 0 d))) k := page_addr i OR 7))"
    by (rule pt_wf_poke_pte [OF wf d pr k]) (use i hm in \<open>simp add: below_def frame_page_addr unat_page_addr\<close>)
  moreover have "0 < ext j" if "j < PAGING_PAGES" "high_memory m \<le> page_addr j" for j
    using mm_invD(4) [OF inv that] that hm by (auto simp: add_ext_def word_le_nat_alt split: if_splits)
  ultimately show ?thesis
    using mm_invD(1,3) [OF inv] by (auto simp: mm_inv_def add_ext_def)
qed

lemma set_pde_inv:
  assumes inv: "mm_inv (add_ext i ext) m" and d4: "4 \<le> d" and d: "d < 1024" and abs: "\<not> bit (phys m (cell 0 d)) 0"
    and i: "i < PAGING_PAGES" and hm: "unat (page_addr i) < unat (high_memory m)"
    and new: "\<And>d'. d' < 1024 \<Longrightarrow> bit (phys m (cell 0 d')) 0 \<Longrightarrow> frame (phys m (cell 0 d')) \<noteq> i + 256"
    and z: "\<And>k. k < 1024 \<Longrightarrow> phys m (cell (page_addr i) k) = 0"
  shows "mm_inv ext (poke (cell 0 d) (page_addr i OR 7) m)"
proof -
  note wf = mm_invD(2) [OF inv]
  let ?ph = "(phys m)(cell 0 d := page_addr i OR 7)"
  have t: "tbl (page_addr i OR 7) = page_addr i"
    using i by (simp add: word_unat_eq_iff unat_tbl frame_page_addr unat_page_addr)
  have neq: "cell 0 d \<noteq> cell (page_addr i) k" if "k < 1024" for k
    using cell_dir_table_neq [OF d that, of "page_addr i"] i by (simp add: frame_page_addr)
  have "table_refs ?ph (page_addr i) j = 0" for j
    using z neq [symmetric] by (simp add: table_refs_def pte_ref_def)
  then have "acct ?ph j = acct (phys m) j + (if i = j then 1 else 0)" for j
    using acct_poke_pde [OF wf d4 d, of "page_addr i OR 7" j] abs i
    by (simp add: dir_refs_def Let_def pte_ref_def frame_page_addr t)
  moreover have "pt_wf (high_memory m) ?ph"
    using wf i hm new z neq d4 cell_dir_table_neq [OF d _ pt_wfD(1) [OF wf]] d
    unfolding pt_wf_def
    by (auto simp: t frame_page_addr below_def unat_page_addr) (metis new)+
  moreover have "0 < ext j" if "j < PAGING_PAGES" "high_memory m \<le> page_addr j" for j
    using mm_invD(4) [OF inv that] that hm by (auto simp: add_ext_def word_le_nat_alt split: if_splits)
  ultimately show ?thesis
    using mm_invD(1,3) [OF inv] by (auto simp: mm_inv_def add_ext_def)
qed

section \<open>Copying a page table\<close>

definition inc_ref :: "u32 \<Rightarrow> mm_state \<Rightarrow> mm_state" where
  "inc_ref e m = m\<lparr>mem_map := (mem_map m)(frame e - 256 := mem_map m (frame e - 256) + 1)\<rparr>"

lemma inc_ref_simps [simp]:
  "phys (inc_ref e m) = phys m" "high_memory (inc_ref e m) = high_memory m"
  by (simp_all add: inc_ref_def)

text \<open>The entries a copied entry leaves in the child's and in the parent's table.\<close>

definition child_pte :: "u32 \<Rightarrow> u32" where
  "child_pte e = (if bit e 0 then write_protect e else 0)"

definition parent_pte :: "u32 \<Rightarrow> u32" where
  "parent_pte e = (if bit e 0 \<and> 256 \<le> frame e then write_protect e else e)"

definition copy_pte :: "u32 \<Rightarrow> u32 \<Rightarrow> mm_state \<Rightarrow> mm_state" where
  "copy_pte f t m = (let e = phys m f in
     if \<not> bit e 0 then m
     else if 256 \<le> frame e then inc_ref e (poke f (write_protect e) (poke t (write_protect e) m))
     else poke t (write_protect e) m)"

lemma copy_pte_hm [simp]: "high_memory (copy_pte f t m) = high_memory m"
  by (simp add: copy_pte_def Let_def)

lemma copy_pte_phys:
  "f \<noteq> t \<Longrightarrow> phys m t = 0 \<Longrightarrow>
   phys (copy_pte f t m) = (phys m)(t := child_pte (phys m f), f := parent_pte (phys m f))"
  by (auto simp: copy_pte_def child_pte_def parent_pte_def fun_eq_iff Let_def)

lemma pte_ref_write_protect [simp]: "pte_ref (write_protect e) i = pte_ref e i"
  by (simp add: pte_ref_def)

lemma below_write_protect [simp]: "below hm (write_protect e) = below hm e"
  by (simp add: below_def)

text \<open>
  The entries of a table that a copy may read: they point below the end of memory,
  and those of the kernel's own directories below 1 MB.
\<close>

definition from_ok :: "nat \<Rightarrow> mm_state \<Rightarrow> nat \<Rightarrow> bool" where
  "from_ok nr m d \<longleftrightarrow> (\<forall>k<nr. bit (phys m (cell (tbl (phys m (cell 0 d))) k)) 0 \<longrightarrow>
     below (high_memory m) (phys m (cell (tbl (phys m (cell 0 d))) k)) \<and>
     (d < 4 \<longrightarrow> frame (phys m (cell (tbl (phys m (cell 0 d))) k)) < 256))"

lemma from_ok_user:
  "mm_inv ext m \<Longrightarrow> 4 \<le> d \<Longrightarrow> d < 1024 \<Longrightarrow> bit (phys m (cell 0 d)) 0 \<Longrightarrow> nr \<le> 1024 \<Longrightarrow> from_ok nr m d"
  by (simp add: from_ok_def pt_wfD(3) [OF mm_invD(2)])

lemma copy_table_step:
  assumes "bit (phys m f) 0 \<Longrightarrow> below (high_memory m) (phys m f)" and "high_memory m \<le> 0x1000000" and "f \<noteq> t"
  shows "copy_table (Suc n) f t m = copy_table n (f + 4) (t + 4) (copy_pte f t m)"
proof (cases "bit (phys m f) 0 \<and> 256 \<le> frame (phys m f)")
  case True
  let ?e = "phys m f"
  have i: "frame ?e - 256 < PAGING_PAGES"
    using below_index assms(1,2) True by blast
  have "MAP_NR (write_protect ?e) = frame ?e - 256"
    using MAP_NR_frame [of "write_protect ?e"] low_mem_write_protect [of ?e] True by simp
  with True i assms(3) show ?thesis
    by (simp add: copy_pte_def present_bit [simplified] Let_def low_mem_write_protect mem_map_at_def
        set_mem_map_def inc_ref_def poke_def)
next
  case False
  then show ?thesis
    by (auto simp: copy_pte_def present_bit [simplified] Let_def low_mem_write_protect)
qed

lemma unat_inc: "unat c < 255 \<Longrightarrow> unat (c + 1 :: u8) = unat c + 1"
  by (simp add: unat_word_ariths)

lemma copy_pte_inv:
  assumes inv: "mm_inv ext m" and dF: "dF < 1024" and dT4: "4 \<le> dT" and dT: "dT < 1024"
    and pF: "bit (phys m (cell 0 dF)) 0" and pT: "bit (phys m (cell 0 dT)) 0" and ne: "dF \<noteq> dT"
    and k: "k < 1024"
    and bel: "bit (phys m (cell (tbl (phys m (cell 0 dF))) k)) 0 \<Longrightarrow>
      below (high_memory m) (phys m (cell (tbl (phys m (cell 0 dF))) k))"
  defines "f \<equiv> cell (tbl (phys m (cell 0 dF))) k" and "t \<equiv> cell (tbl (phys m (cell 0 dT))) k"
  assumes z: "phys m t = 0"
    and room: "\<forall>i<PAGING_PAGES. unat (mem_map m i) + pte_ref (phys m f) i < 256"
  shows "mm_inv ext (copy_pte f t m)"
    and "\<forall>i<PAGING_PAGES. unat (mem_map (copy_pte f t m) i) = unat (mem_map m i) + pte_ref (phys m f) i"
proof -
  note wf = mm_invD(2) [OF inv]
  let ?e = "phys m f" and ?hm = "high_memory m"
  define ph1 where "ph1 = (phys m)(t := child_pte ?e)"
  have ft: "f \<noteq> t"
    using pt_wfD(4) [OF wf dT pT dF _ pF] ne k by (simp add: f_def t_def cell_eq_iff)
  note bel = bel [folded f_def]
  have wf1: "pt_wf ?hm ph1"
    unfolding ph1_def t_def by (rule pt_wf_poke_pte [OF wf dT pT k]) (use bel in \<open>auto simp: child_pte_def\<close>)
  have keep: "ph1 (cell 0 dF) = phys m (cell 0 dF)"
    using cell_dir_table_neq [OF dF k pt_wfD(1) [OF wf dT pT]] by (simp add: t_def ph1_def)
  have ph1f: "ph1 f = ?e" using ft by (simp add: ph1_def)
  have f1: "f = cell (tbl (ph1 (cell 0 dF))) k" by (subst keep) (simp add: f_def)
  have acct1: "acct ph1 i = acct (phys m) i + pte_ref (child_pte ?e) i" for i
    using acct_poke_pte [OF wf dT4 dT pT k, of "child_pte ?e" i] z by (simp add: ph1_def t_def pte_ref_def)
  have pF1: "bit (ph1 (cell 0 dF)) 0" using keep pF by simp
  have parent_ref: "pte_ref (parent_pte ?e) i = pte_ref ?e i" for i
    by (simp add: parent_pte_def)
  have acct2: "acct (ph1(f := parent_pte ?e)) i = acct ph1 i" for i
  proof (cases "4 \<le> dF")
    case True
    then show ?thesis
      using acct_poke_pte [OF wf1 True dF pF1 k, of "parent_pte ?e" i] ph1f
        parent_ref unfolding f1 [symmetric] by simp
  next
    case False
    then show ?thesis
      using acct_poke_pte_low [OF wf1 _ pF1 k, of "parent_pte ?e" i] unfolding f1 [symmetric] by simp
  qed
  have wf2: "pt_wf ?hm (ph1(f := parent_pte ?e))"
    unfolding f1 by (rule pt_wf_poke_pte [OF wf1 dF pF1 k])
      (use bel in \<open>auto simp: parent_pte_def f1 [symmetric] split: if_splits\<close>)
  have cnt: "unat (mem_map (copy_pte f t m) i) = unat (mem_map m i) + pte_ref ?e i"
    if "i < PAGING_PAGES" for i
  proof (cases "bit ?e 0 \<and> frame ?e = i + 256")
    case True
    then show ?thesis
      using room [rule_format, OF that] by (simp add: copy_pte_def Let_def inc_ref_def pte_ref_def unat_inc)
  next
    case False
    then show ?thesis
      by (auto simp: copy_pte_def Let_def inc_ref_def pte_ref_def)
  qed
  then show "\<forall>i<PAGING_PAGES. unat (mem_map (copy_pte f t m) i) = unat (mem_map m i) + pte_ref ?e i"
    by blast
  have ref: "pte_ref (child_pte ?e) i = pte_ref ?e i" for i
    by (simp add: child_pte_def pte_ref_def)
  have ph: "phys (copy_pte f t m) = ph1(f := parent_pte ?e)"
    using copy_pte_phys [OF ft z] by (simp add: ph1_def)
  show "mm_inv ext (copy_pte f t m)"
    unfolding mm_inv_def ph using cnt acct1 acct2 ref wf2 mm_invD [OF inv] by simp
qed

lemma copy_table_spec:
  "mm_inv ext m \<Longrightarrow> dF < 1024 \<Longrightarrow> dT < 1024 \<Longrightarrow> bit (phys m (cell 0 dF)) 0 \<Longrightarrow>
   bit (phys m (cell 0 dT)) 0 \<Longrightarrow> dF \<noteq> dT \<Longrightarrow> k + n \<le> 1024 \<Longrightarrow> 4 \<le> dT \<Longrightarrow>
   (\<And>j. k \<le> j \<Longrightarrow> j < k + n \<Longrightarrow> bit (phys m (cell (tbl (phys m (cell 0 dF))) j)) 0 \<Longrightarrow>
      below (high_memory m) (phys m (cell (tbl (phys m (cell 0 dF))) j))) \<Longrightarrow>
   (\<And>j. k \<le> j \<Longrightarrow> j < k + n \<Longrightarrow> phys m (cell (tbl (phys m (cell 0 dT))) j) = 0) \<Longrightarrow>
   (\<And>i. i < PAGING_PAGES \<Longrightarrow> unat (mem_map m i) +
      (\<Sum>j=k..<k + n. pte_ref (phys m (cell (tbl (phys m (cell 0 dF))) j)) i) < 256) \<Longrightarrow>
   total (copy_table n (cell (tbl (phys m (cell 0 dF))) k) (cell (tbl (phys m (cell 0 dT))) k) m)
     (\<lambda>_ m'. mm_inv ext m' \<and> high_memory m' = high_memory m \<and>
       (\<forall>i<PAGING_PAGES. unat (mem_map m' i) = unat (mem_map m i) +
          (\<Sum>j=k..<k + n. pte_ref (phys m (cell (tbl (phys m (cell 0 dF))) j)) i)) \<and>
       (\<forall>j. k \<le> j \<longrightarrow> j < k + n \<longrightarrow>
          phys m' (cell (tbl (phys m (cell 0 dT))) j) = child_pte (phys m (cell (tbl (phys m (cell 0 dF))) j)) \<and>
          phys m' (cell (tbl (phys m (cell 0 dF))) j) = parent_pte (phys m (cell (tbl (phys m (cell 0 dF))) j))) \<and>
       (\<forall>a. (\<forall>j. k \<le> j \<longrightarrow> j < k + n \<longrightarrow> a \<noteq> cell (tbl (phys m (cell 0 dT))) j \<and>
            a \<noteq> cell (tbl (phys m (cell 0 dF))) j) \<longrightarrow> phys m' a = phys m a))"
proof (induction n arbitrary: k m)
  case 0
  then show ?case by simp
next
  case (Suc n)
  define tF where "tF = tbl (phys m (cell 0 dF))"
  define tT where "tT = tbl (phys m (cell 0 dT))"
  note inv = Suc.prems(1) and dF = Suc.prems(2) and dT = Suc.prems(3) and pF = Suc.prems(4)
    and pT = Suc.prems(5) and ne = Suc.prems(6)
  note wf = mm_invD(2) [OF inv]
  have k: "k < 1024" and kn: "Suc k + n \<le> 1024" using Suc.prems(7) by auto
  let ?f = "cell tF k" and ?t = "cell tT k"
  define m1 where "m1 = copy_pte ?f ?t m"
  have nzF: "frame (phys m (cell 0 dF)) \<noteq> 0" and nzT: "frame (phys m (cell 0 dT)) \<noteq> 0"
    using pt_wfD(1) [OF wf dF pF] pt_wfD(1) [OF wf dT pT] by auto
  have frames: "frame (phys m (cell 0 dF)) \<noteq> frame (phys m (cell 0 dT))"
    using pt_wfD(4) [OF wf dT pT dF _ pF] ne by auto
  have cells: "cell tF i \<noteq> cell tT j" "cell 0 dF \<noteq> cell tF j" "cell 0 dF \<noteq> cell tT j"
    "cell 0 dT \<noteq> cell tF j" "cell 0 dT \<noteq> cell tT j" if "i < 1024" "j < 1024" for i j
    using that frames cell_dir_table_neq dF dT nzF nzT by (auto simp: tF_def tT_def cell_eq_iff)
  have z: "phys m ?t = 0" using Suc.prems(10) [of k] by (simp add: tT_def)
  have sum: "(\<Sum>j=k..<k + Suc n. g j) = g k + (\<Sum>j=Suc k..<Suc k + n. g j)" for g :: "nat \<Rightarrow> nat"
    by (simp add: sum.atLeast_Suc_lessThan)
  have room: "\<forall>i<PAGING_PAGES. unat (mem_map m i) + pte_ref (phys m ?f) i < 256"
    using Suc.prems(11) unfolding sum tF_def [symmetric] by (metis add.assoc add_lessD1)
  note dT4 = Suc.prems(8)
  have bel: "bit (phys m (cell tF j)) 0 \<Longrightarrow> below (high_memory m) (phys m (cell tF j))"
    if "k \<le> j" "j < k + Suc n" for j
    using Suc.prems(9) [OF that] by (simp add: tF_def)
  note st = copy_pte_inv [OF inv dF dT4 dT pF pT ne k, folded tF_def tT_def, OF bel z room, folded m1_def,
      simplified]
  have ph1: "phys m1 = (phys m)(?t := child_pte (phys m ?f), ?f := parent_pte (phys m ?f))"
    unfolding m1_def by (rule copy_pte_phys [OF cells(1) [OF k k] z])
  have dirs: "phys m1 (cell 0 dF) = phys m (cell 0 dF)" "phys m1 (cell 0 dT) = phys m (cell 0 dT)"
    using cells k by (auto simp: ph1)
  have rest: "phys m1 (cell tF j) = phys m (cell tF j)" "phys m1 (cell tT j) = phys m (cell tT j)"
    if "j < 1024" "j \<noteq> k" for j
    using that k cells(1) [OF that(1) k] cells(1) [OF k that(1)]
    by (auto simp: ph1 tF_def tT_def cell_eq_iff)
  have sums: "(\<Sum>j=Suc k..<Suc k + n. pte_ref (phys m1 (cell tF j)) i)
      = (\<Sum>j=Suc k..<Suc k + n. pte_ref (phys m (cell tF j)) i)" for i
    by (rule sum.cong) (use kn rest in auto)
  have step: "copy_table (Suc n) ?f ?t m = copy_table n (cell tF (Suc k)) (cell tT (Suc k)) m1"
    unfolding m1_def cell_Suc
    by (rule copy_table_step [OF _ mm_invD(1) [OF inv] cells(1) [OF k k]])
      (use bel [of k] in simp)
  have "total (copy_table n (cell tF (Suc k)) (cell tT (Suc k)) m1) (\<lambda>_ m'. mm_inv ext m' \<and>
      high_memory m' = high_memory m1 \<and>
      (\<forall>i<PAGING_PAGES. unat (mem_map m' i) = unat (mem_map m1 i) +
         (\<Sum>j=Suc k..<Suc k + n. pte_ref (phys m1 (cell tF j)) i)) \<and>
      (\<forall>j. Suc k \<le> j \<longrightarrow> j < Suc k + n \<longrightarrow>
         phys m' (cell tT j) = child_pte (phys m1 (cell tF j)) \<and>
         phys m' (cell tF j) = parent_pte (phys m1 (cell tF j))) \<and>
      (\<forall>a. (\<forall>j. Suc k \<le> j \<longrightarrow> j < Suc k + n \<longrightarrow> a \<noteq> cell tT j \<and> a \<noteq> cell tF j) \<longrightarrow>
         phys m' a = phys m1 a))"
  proof (rule Suc.IH [of m1 "Suc k", unfolded dirs, folded tF_def tT_def])
    show "mm_inv ext m1" by (rule st(1))
    show "phys m1 (cell tT j) = 0" if "Suc k \<le> j" "j < Suc k + n" for j
      using that kn rest(2) [of j] Suc.prems(10) [of j] by (simp add: tT_def)
    show "unat (mem_map m1 i) + (\<Sum>j=Suc k..<Suc k + n. pte_ref (phys m1 (cell tF j)) i) < 256"
      if "i < PAGING_PAGES" for i
      using Suc.prems(11) [OF that] unfolding sums st(2) [rule_format, OF that] sum tF_def [symmetric] by simp
    show "below (high_memory m1) (phys m1 (cell tF j))"
      if "Suc k \<le> j" "j < Suc k + n" "bit (phys m1 (cell tF j)) 0" for j
      using that kn rest(1) [of j] bel [of j] by (simp add: m1_def)
  qed (use dF dT pF pT ne kn dT4 in auto)
  then show ?case
    unfolding tF_def [symmetric] tT_def [symmetric] step
  proof (rule total_mono)
    fix u m' assume *: "mm_inv ext m' \<and> high_memory m' = high_memory m1 \<and>
      (\<forall>i<PAGING_PAGES. unat (mem_map m' i) = unat (mem_map m1 i) +
         (\<Sum>j=Suc k..<Suc k + n. pte_ref (phys m1 (cell tF j)) i)) \<and>
      (\<forall>j. Suc k \<le> j \<longrightarrow> j < Suc k + n \<longrightarrow>
         phys m' (cell tT j) = child_pte (phys m1 (cell tF j)) \<and>
         phys m' (cell tF j) = parent_pte (phys m1 (cell tF j))) \<and>
      (\<forall>a. (\<forall>j. Suc k \<le> j \<longrightarrow> j < Suc k + n \<longrightarrow> a \<noteq> cell tT j \<and> a \<noteq> cell tF j) \<longrightarrow>
         phys m' a = phys m1 a)"
    have at_k: "phys m' ?t = child_pte (phys m ?f)" "phys m' ?f = parent_pte (phys m ?f)"
      using * k kn cells(1) [OF k k] cells(1) by (auto simp: ph1 tF_def tT_def cell_eq_iff) 
    have "phys m' (cell tT j) = child_pte (phys m (cell tF j)) \<and>
        phys m' (cell tF j) = parent_pte (phys m (cell tF j))" if "k \<le> j" "j < k + Suc n" for j
      using that * at_k rest(1) [of j] kn by (cases "j = k") auto
    moreover have "phys m' a = phys m a"
      if "\<forall>j. k \<le> j \<longrightarrow> j < k + Suc n \<longrightarrow> a \<noteq> cell tT j \<and> a \<noteq> cell tF j" for a
      using that * by (auto simp: all_range_Suc ph1)
    moreover have "unat (mem_map m' i) = unat (mem_map m i) +
         (\<Sum>j=k..<k + Suc n. pte_ref (phys m (cell tF j)) i)" if "i < PAGING_PAGES" for i
    proof -
      from * that have "unat (mem_map m' i) = unat (mem_map m1 i) +
          (\<Sum>j=Suc k..<Suc k + n. pte_ref (phys m1 (cell tF j)) i)" by blast
      then show ?thesis
        unfolding sums sum using st(2) [rule_format, OF that] by simp
    qed
    moreover have "high_memory m1 = high_memory m" by (simp add: m1_def)
    ultimately show "mm_inv ext m' \<and> high_memory m' = high_memory m \<and>
      (\<forall>i<PAGING_PAGES. unat (mem_map m' i) = unat (mem_map m i) +
         (\<Sum>j=k..<k + Suc n. pte_ref (phys m (cell tF j)) i)) \<and>
      (\<forall>j. k \<le> j \<longrightarrow> j < k + Suc n \<longrightarrow>
         phys m' (cell tT j) = child_pte (phys m (cell tF j)) \<and>
         phys m' (cell tF j) = parent_pte (phys m (cell tF j))) \<and>
      (\<forall>a. (\<forall>j. k \<le> j \<longrightarrow> j < k + Suc n \<longrightarrow> a \<noteq> cell tT j \<and> a \<noteq> cell tF j) \<longrightarrow> phys m' a = phys m a)"
      using * by simp
  qed
qed

section \<open>Copying a range of page tables\<close>

text \<open>Entry \<open>k\<close> of the table of directory entry \<open>d\<close>; 0 when there is no table.\<close>

definition pte :: "mm_state \<Rightarrow> nat \<Rightarrow> nat \<Rightarrow> u32" where
  "pte m d k = (if bit (phys m (cell 0 d)) 0 then phys m (cell (tbl (phys m (cell 0 d))) k) else 0)"

lemma same_dir_pte: "same_dir m m' d \<Longrightarrow> k < 1024 \<Longrightarrow> pte m' d k = pte m d k"
  by (simp add: same_dir_def pte_def)

lemma same_dir_refs: "same_dir m m' d \<Longrightarrow> dir_refs (phys m') i d = dir_refs (phys m) i d"
  by (rule dir_refs_cong) (auto simp: same_dir_def)

lemma child_pte_0 [simp]: "child_pte 0 = 0" and parent_pte_0 [simp]: "parent_pte 0 = 0"
  by (simp_all add: child_pte_def parent_pte_def)

text \<open>A fresh table installed in an absent directory entry.\<close>

lemma new_table:
  assumes inv: "mm_inv ext m" and d4: "4 \<le> d" and d: "d < 1024" and abs: "\<not> bit (phys m (cell 0 d)) 0"
    and i: "i < PAGING_PAGES" and z: "mem_map m i = 0"
  defines "m2 \<equiv> poke (cell 0 d) (page_addr i OR 7) (alloc_page i m)"
  shows "mm_inv ext m2" and "phys m2 (cell 0 d) = page_addr i OR 7"
    and "\<And>k. k < 1024 \<Longrightarrow> phys m2 (cell (page_addr i) k) = 0"
    and "\<And>j. j < 1024 \<Longrightarrow> j \<noteq> d \<Longrightarrow> same_dir m m2 j"
proof -
  have zero: "phys (alloc_page i m) (cell (page_addr i) k) = 0" if "k < 1024" for k
    using i that frame_cell [of k "page_addr i"]
    by (simp add: alloc_page_def clear_page_frame frame_page_addr)
  have dirs: "phys (alloc_page i m) (cell 0 j) = phys m (cell 0 j)" if "j < 1024" for j
    using alloc_page_same_dir [OF inv i z that] by (simp add: same_dir_def)
  show "mm_inv ext m2"
    unfolding m2_def
  proof (rule set_pde_inv [OF alloc_page_inv [OF inv i z] d4 d _ i])
    show "unat (page_addr i) < unat (high_memory (alloc_page i m))"
      using alloc_page_below [OF inv i z] by simp
    show "frame (phys (alloc_page i m) (cell 0 d')) \<noteq> i + 256"
      if "d' < 1024" "bit (phys (alloc_page i m) (cell 0 d')) 0" for d'
      using mm_inv_unreferenced(1) [OF inv i z that(1)] that by (simp add: dirs)
  qed (use abs d zero dirs in auto)
  show "phys m2 (cell 0 d) = page_addr i OR 7" by (simp add: m2_def)
  have neq: "cell 0 d \<noteq> cell (page_addr i) k" if "k < 1024" for k
    using cell_dir_table_neq [OF d that, of "page_addr i"] i by (simp add: frame_page_addr)
  show "phys m2 (cell (page_addr i) k) = 0" if "k < 1024" for k
    using neq [OF that] zero [OF that] by (simp add: m2_def)
  show "same_dir m m2 j" if "j < 1024" "j \<noteq> d" for j
    using alloc_page_same_dir [OF inv i z that(1)] that d
      cell_dir_table_neq [OF d _ pt_wfD(1) [OF mm_invD(2) [OF inv] that(1)], THEN not_sym]
    by (auto simp: same_dir_def m2_def)
qed

lemma tbl_or7 [simp]: "i < PAGING_PAGES \<Longrightarrow> tbl (page_addr i OR 7) = page_addr i"
  by (simp add: word_unat_eq_iff unat_tbl frame_page_addr unat_page_addr)

definition from_refs :: "nat \<Rightarrow> (u32 \<Rightarrow> u32) \<Rightarrow> nat \<Rightarrow> nat \<Rightarrow> nat" where
  "from_refs nr ph i d = (if bit (ph (cell 0 d)) 0
     then \<Sum>k<nr. pte_ref (ph (cell (tbl (ph (cell 0 d))) k)) i else 0)"

lemma from_refs_le_acct:
  assumes "from_ok nr m d" and "d < 1024" and "nr \<le> 1024"
  shows "from_refs nr (phys m) i d \<le> acct (phys m) i"
proof (cases "4 \<le> d")
  case True
  have "(\<Sum>k<nr. pte_ref (phys m (cell t k)) i) \<le> table_refs (phys m) t i" for t
    unfolding table_refs_def by (rule sum_mono2) (use assms(3) in auto)
  then have "from_refs nr (phys m) i d \<le> dir_refs (phys m) i d"
    by (simp add: from_refs_def dir_refs_def Let_def trans_le_add2)
  also have "\<dots> \<le> acct (phys m) i" by (rule acct_ge_dir [OF True assms(2)])
  finally show ?thesis .
next
  case False
  then have "from_refs nr (phys m) i d = 0"
    using assms(1) by (auto simp: from_refs_def from_ok_def pte_ref_def)
  then show ?thesis by simp
qed

lemma from_refs_same_dir:
  "same_dir m m' d \<Longrightarrow> nr \<le> 1024 \<Longrightarrow> from_refs nr (phys m') i d = from_refs nr (phys m) i d"
  by (auto simp: from_refs_def same_dir_def intro!: sum.cong)

lemma from_ok_same_dir:
  "same_dir m m' d \<Longrightarrow> bit (phys m (cell 0 d)) 0 \<Longrightarrow> nr \<le> 1024 \<Longrightarrow> high_memory m' = high_memory m \<Longrightarrow>
   from_ok nr m d \<Longrightarrow> from_ok nr m' d"
  by (simp add: from_ok_def same_dir_def)

lemma copy_dir_spec:
  assumes inv: "mm_inv ext m" and dF: "dF < 1024" and dT4: "4 \<le> dT" and dT: "dT < 1024" and ne: "dF \<noteq> dT"
    and pF: "bit (phys m (cell 0 dF)) 0" and abs: "\<not> bit (phys m (cell 0 dT)) 0" and nr: "nr \<le> 1024"
    and ok: "from_ok nr m dF"
    and room: "\<forall>i<PAGING_PAGES. unat (mem_map m i) + from_refs nr (phys m) i dF < 256"
    and i: "i < PAGING_PAGES" and z: "mem_map m i = 0"
  shows "total (copy_table nr (tbl (phys m (cell 0 dF))) (page_addr i)
           (poke (cell 0 dT) (page_addr i OR 7) (alloc_page i m)))
    (\<lambda>_ m'. mm_inv ext m' \<and> high_memory m' = high_memory m \<and>
      (\<forall>j<1024. j \<noteq> dF \<longrightarrow> j \<noteq> dT \<longrightarrow> same_dir m m' j) \<and>
      (\<forall>k<1024. pte m' dT k = (if k < nr then child_pte (pte m dF k) else 0)) \<and>
      (\<forall>k<1024. pte m' dF k = (if k < nr then parent_pte (pte m dF k) else pte m dF k)) \<and>
      (\<forall>j<PAGING_PAGES. unat (mem_map m' j) \<le> (if j = i then 1 else unat (mem_map m j) + from_refs nr (phys m) j dF)))"
    (is "total _ ?Q")
proof -
  let ?eF = "phys m (cell 0 dF)" and ?tF = "tbl (phys m (cell 0 dF))" and ?tT = "page_addr i"
  define m2 where "m2 = poke (cell 0 dT) (page_addr i OR 7) (alloc_page i m)"
  note nt = new_table [OF inv dT4 dT abs i z, folded m2_def]
  have sF: "same_dir m m2 dF" by (rule nt(4) [OF dF ne])
  have eF2: "phys m2 (cell 0 dF) = ?eF" using sF by (simp add: same_dir_def)
  have tabF: "phys m2 (cell ?tF k) = phys m (cell ?tF k)" if "k < 1024" for k
    using sF that pF by (simp add: same_dir_def)
  have refs_le: "(\<Sum>k=0..<nr. pte_ref (phys m2 (cell ?tF k)) j) = from_refs nr (phys m) j dF" for j
  proof -
    have "(\<Sum>k=0..<nr. pte_ref (phys m2 (cell ?tF k)) j) = (\<Sum>k=0..<nr. pte_ref (phys m (cell ?tF k)) j)"
      by (rule sum.cong) (use nr tabF in auto)
    then show ?thesis using pF by (simp add: from_refs_def lessThan_atLeast0)
  qed
  have none: "from_refs nr (phys m) i dF = 0"
    using from_refs_le_acct [OF ok dF nr, of i] mm_invD(3) [OF inv i] z by simp
  have map2: "mem_map m2 j = (if j = i then 1 else mem_map m j)" for j
    by (simp add: m2_def alloc_page_def)
  have room2: "unat (mem_map m2 j) + (\<Sum>k=0..<0 + nr. pte_ref (phys m2 (cell ?tF k)) j) < 256"
    if "j < PAGING_PAGES" for j
    using room [rule_format, OF that] refs_le [of j] none by (cases "j = i") (auto simp: map2)
  have tT: "tbl (phys m2 (cell 0 dT)) = page_addr i"
    by (simp add: nt(2) i)
  have pT2: "bit (phys m2 (cell 0 dT)) 0" by (simp only: nt(2) present_or7)
  have pF2: "bit (phys m2 (cell 0 dF)) 0" using pF eF2 by simp
  have c0: "cell t 0 = t" for t by (simp add: cell_def)
  have spec: "total (copy_table nr ?tF ?tT m2) (\<lambda>_ m'. mm_inv ext m' \<and> high_memory m' = high_memory m2 \<and>
       (\<forall>j<PAGING_PAGES. unat (mem_map m' j) = unat (mem_map m2 j) +
          (\<Sum>k=0..<0 + nr. pte_ref (phys m2 (cell ?tF k)) j)) \<and>
       (\<forall>k. 0 \<le> k \<longrightarrow> k < 0 + nr \<longrightarrow> phys m' (cell ?tT k) = child_pte (phys m2 (cell ?tF k)) \<and>
          phys m' (cell ?tF k) = parent_pte (phys m2 (cell ?tF k))) \<and>
       (\<forall>a. (\<forall>k. 0 \<le> k \<longrightarrow> k < 0 + nr \<longrightarrow> a \<noteq> cell ?tT k \<and> a \<noteq> cell ?tF k) \<longrightarrow> phys m' a = phys m2 a))"
    using copy_table_spec [OF nt(1) dF dT pF2 pT2 ne, of 0 nr, unfolded tT eF2 c0] nr nt(3) room2 dT4
      ok tabF by (simp add: from_ok_def m2_def [THEN arg_cong, of high_memory])
  show ?thesis
    unfolding m2_def [symmetric] using spec
  proof (rule total_mono)
    fix u m'
    assume *: "mm_inv ext m' \<and> high_memory m' = high_memory m2 \<and>
       (\<forall>j<PAGING_PAGES. unat (mem_map m' j) = unat (mem_map m2 j) +
          (\<Sum>k=0..<0 + nr. pte_ref (phys m2 (cell ?tF k)) j)) \<and>
       (\<forall>k. 0 \<le> k \<longrightarrow> k < 0 + nr \<longrightarrow> phys m' (cell ?tT k) = child_pte (phys m2 (cell ?tF k)) \<and>
          phys m' (cell ?tF k) = parent_pte (phys m2 (cell ?tF k))) \<and>
       (\<forall>a. (\<forall>k. 0 \<le> k \<longrightarrow> k < 0 + nr \<longrightarrow> a \<noteq> cell ?tT k \<and> a \<noteq> cell ?tF k) \<longrightarrow> phys m' a = phys m2 a)"
    have wf2: "pt_wf (high_memory m2) (phys m2)" by (rule mm_invD(2) [OF nt(1)])
    have frT: "frame (page_addr i OR 7) = i + 256" using i by (simp add: frame_page_addr)
    have far: "phys m' a = phys m2 a"
      if "\<And>k. k < 1024 \<Longrightarrow> a \<noteq> cell ?tT k" "\<And>k. k < 1024 \<Longrightarrow> a \<noteq> cell ?tF k" for a
      using * that nr by simp
    have dirs: "phys m' (cell 0 j) = phys m2 (cell 0 j)" if "j < 1024" for j
    proof (rule far)
      show "cell 0 j \<noteq> cell ?tT k" if "k < 1024" for k
        using cell_dir_table_neq [OF \<open>j < 1024\<close> that, of "page_addr i"] i by (simp add: frame_page_addr)
      show "cell 0 j \<noteq> cell ?tF k" if "k < 1024" for k
        by (rule cell_dir_table_neq [OF \<open>j < 1024\<close> that pt_wfD(1) [OF mm_invD(2) [OF inv] dF pF]])
    qed
    have FT: "cell ?tF k \<noteq> cell ?tT l" if "k < 1024" "l < 1024" for k l
      using that i pt_wfD(4) [OF wf2 dT pT2 dF ne [symmetric] pF2] cell_eq_iff [OF that, of ?eF ?tT]
      unfolding nt(2) eF2 frT by (simp add: frame_page_addr)
    have pteT: "pte m' dT k = (if k < nr then child_pte (pte m dF k) else 0)" if k: "k < 1024" for k
    proof -
      have "pte m' dT k = phys m' (cell ?tT k)"
        by (simp add: pte_def dirs [OF dT] nt(2) i)
      also have "\<dots> = (if k < nr then child_pte (phys m (cell ?tF k)) else 0)"
      proof (cases "k < nr")
        case True
        then show ?thesis using * tabF [OF k] by simp
      next
        case False
        have "cell ?tT k \<noteq> cell ?tT l \<and> cell ?tT k \<noteq> cell ?tF l" if "l < nr" for l
          using cell_eq_iff [OF k, of l ?tT ?tT] FT [of l k] that False nr k i by auto
        then have "phys m' (cell ?tT k) = phys m2 (cell ?tT k)"
          using * by simp
        with False nt(3) [OF k] show ?thesis by simp
      qed
      finally show ?thesis using pF by (simp add: pte_def)
    qed
    have pteF: "pte m' dF k = (if k < nr then parent_pte (pte m dF k) else pte m dF k)" if k: "k < 1024" for k
    proof -
      have "phys m' (cell ?tF k) = (if k < nr then parent_pte (phys m (cell ?tF k)) else phys m (cell ?tF k))"
      proof (cases "k < nr")
        case True
        then show ?thesis using * tabF [OF k] by simp
      next
        case False
        have "phys m' (cell ?tF k) = phys m2 (cell ?tF k)"
          using * False nr k FT by (auto simp: cell_eq_iff)
        with False tabF [OF k] show ?thesis by simp
      qed
      then show ?thesis using pF by (simp add: pte_def dirs [OF dF] eF2)
    qed
    have oth: "same_dir m2 m' j" if j: "j < 1024" "j \<noteq> dF" "j \<noteq> dT" for j
      unfolding same_dir_def
    proof (intro conjI allI impI)
      show "phys m' (cell 0 j) = phys m2 (cell 0 j)" by (rule dirs [OF j(1)])
      fix k :: nat assume pj: "bit (phys m2 (cell 0 j)) 0" and k: "k < 1024"
      show "phys m' (cell (tbl (phys m2 (cell 0 j))) k) = phys m2 (cell (tbl (phys m2 (cell 0 j))) k)"
      proof (rule far)
        show "cell (tbl (phys m2 (cell 0 j))) k \<noteq> cell ?tT l" if "l < 1024" for l
          using pt_wfD(4) [OF wf2 dT pT2 j(1) _ pj] j k that unfolding tT [symmetric]
          by (simp only: cell_eq_iff) auto
        show "cell (tbl (phys m2 (cell 0 j))) k \<noteq> cell ?tF l" if "l < 1024" for l
          using pt_wfD(4) [OF wf2 dF pF2 j(1) _ pj] j k that unfolding eF2 [symmetric]
          by (simp only: cell_eq_iff) auto
      qed
    qed
    have cnt: "unat (mem_map m' j) \<le> (if j = i then 1 else unat (mem_map m j) + from_refs nr (phys m) j dF)"
      if "j < PAGING_PAGES" for j
      using * that refs_le [of j] none by (cases "j = i") (auto simp: map2)
    have hm: "high_memory m2 = high_memory m" by (simp add: m2_def)
    show "?Q u m'"
      using * pteT pteF same_dir_trans [OF nt(4) oth] cnt hm by auto
  qed
qed

text \<open>
  What a copy of \<open>n\<close> directory entries leaves behind: each child entry is the parent's
  without write permission (only the first \<open>nr\<close> of a table are copied), each parent
  entry above 1 MB has lost its write permission, no other directory entry changed.
\<close>

definition copied :: "nat \<Rightarrow> nat \<Rightarrow> nat \<Rightarrow> nat \<Rightarrow> mm_state \<Rightarrow> mm_state \<Rightarrow> bool" where
  "copied nr n dF dT m m' \<longleftrightarrow> (\<forall>j<n. \<forall>k<1024.
     pte m' (dT + j) k = (if k < nr then child_pte (pte m (dF + j) k) else 0) \<and>
     pte m' (dF + j) k = (if k < nr then parent_pte (pte m (dF + j) k) else pte m (dF + j) k))"

definition others_same :: "nat \<Rightarrow> nat \<Rightarrow> nat \<Rightarrow> mm_state \<Rightarrow> mm_state \<Rightarrow> bool" where
  "others_same n dF dT m m' \<longleftrightarrow> (\<forall>j<1024. j \<notin> {dF..<dF + n} \<longrightarrow> j \<notin> {dT..<dT + n} \<longrightarrow> same_dir m m' j)"

lemma copied_Suc:
  "copied nr (Suc n) dF dT m m' \<longleftrightarrow>
     copied nr 1 dF dT m m' \<and> copied nr n (Suc dF) (Suc dT) m m'"
  unfolding copied_def by (auto simp: All_less_Suc2)

lemma copied_trans:
  assumes "copied nr n dF dT m1 m'" and "\<And>j. j < n \<Longrightarrow> same_dir m m1 (dF + j)"
    and "dF + n \<le> 1024"
  shows "copied nr n dF dT m m'"
  using assms(1) by (simp add: copied_def same_dir_pte [OF assms(2)])

lemma copied_one_trans:
  assumes "copied nr 1 dF dT m m1" and "same_dir m1 m' dF" and "same_dir m1 m' dT"
  shows "copied nr 1 dF dT m m'"
  unfolding copied_def
proof (intro allI impI)
  fix j k :: nat assume "j < 1" and k: "k < 1024"
  with assms(1) have "pte m1 (dT + j) k = (if k < nr then child_pte (pte m (dF + j) k) else 0) \<and>
     pte m1 (dF + j) k = (if k < nr then parent_pte (pte m (dF + j) k) else pte m (dF + j) k)"
    unfolding copied_def by blast
  then show "pte m' (dT + j) k = (if k < nr then child_pte (pte m (dF + j) k) else 0) \<and>
     pte m' (dF + j) k = (if k < nr then parent_pte (pte m (dF + j) k) else pte m (dF + j) k)"
    using same_dir_pte [OF assms(2) k] same_dir_pte [OF assms(3) k] \<open>j < 1\<close> by simp
qed

lemma copy_dirs_spec:
  "mm_inv ext m \<Longrightarrow> dF + n \<le> 1024 \<Longrightarrow> dT + n \<le> 1024 \<Longrightarrow> dF + n \<le> dT \<or> dT + n \<le> dF \<Longrightarrow>
   nr \<le> 1024 \<Longrightarrow> 4 \<le> dT \<Longrightarrow>
   (\<And>j. j < n \<Longrightarrow> bit (phys m (cell 0 (dF + j))) 0 \<Longrightarrow> from_ok nr m (dF + j)) \<Longrightarrow>
   (\<And>j. j < n \<Longrightarrow> \<not> bit (phys m (cell 0 (dT + j))) 0) \<Longrightarrow>
   (\<And>i. i < PAGING_PAGES \<Longrightarrow> unat (mem_map m i) + (\<Sum>j<n. from_refs nr (phys m) i (dF + j)) < 256) \<Longrightarrow>
   total (copy_dirs nr n (cell 0 dF) (cell 0 dT) m) (\<lambda>r m'. mm_inv ext m' \<and>
     high_memory m' = high_memory m \<and> others_same n dF dT m m' \<and>
     (r = 0 \<and> copied nr n dF dT m m' \<or>
      r = - 1 \<and> (\<forall>i<PAGING_PAGES. mem_map m' i \<noteq> 0)))"
proof (induction n arbitrary: dF dT m)
  case 0
  then show ?case by (simp add: others_same_def copied_def)
next
  case (Suc n)
  note inv = Suc.prems(1)
  have d: "dF < 1024" "dT < 1024" "dF \<noteq> dT" using Suc.prems(2-4) by auto
  have dT4: "4 \<le> dT" "4 \<le> Suc dT" using Suc.prems(6) by auto
  have abs: "\<not> bit (phys m (cell 0 dT)) 0" using Suc.prems(8) [of 0] by simp
  have sum: "(\<Sum>j<Suc n. from_refs nr ph i (dF + j)) = from_refs nr ph i dF + (\<Sum>j<n. from_refs nr ph i (Suc dF + j))" for ph i
    by (simp only: sum.lessThan_Suc_shift) simp
  have inr: "dF + j \<noteq> dT" "dT + j \<noteq> dF" "dT + j \<noteq> dT \<or> j = 0" "Suc (dF + j) \<noteq> dT" "Suc (dT + j) \<noteq> dF"
    if "j < n" for j
    using that Suc.prems(4) by auto
  have IH: "total (copy_dirs nr n (cell 0 (Suc dF)) (cell 0 (Suc dT)) m1) (\<lambda>r m'. mm_inv ext m' \<and>
     high_memory m' = high_memory m \<and> others_same (Suc n) dF dT m m' \<and>
     (r = 0 \<and> copied nr (Suc n) dF dT m m' \<or> r = - 1 \<and> (\<forall>i<PAGING_PAGES. mem_map m' i \<noteq> 0)))"
    if inv1: "mm_inv ext m1" and hm1: "high_memory m1 = high_memory m"
      and same: "\<And>j. j < 1024 \<Longrightarrow> j \<noteq> dF \<Longrightarrow> j \<noteq> dT \<Longrightarrow> same_dir m m1 j"
      and cp: "copied nr 1 dF dT m m1"
      and cnt: "\<And>i. i < PAGING_PAGES \<Longrightarrow> mem_map m i \<noteq> 0 \<or> mem_map m1 i = 0 \<Longrightarrow>
        unat (mem_map m1 i) \<le> unat (mem_map m i) + from_refs nr (phys m) i dF"
      and one: "\<And>i. i < PAGING_PAGES \<Longrightarrow> mem_map m i = 0 \<Longrightarrow> unat (mem_map m1 i) \<le> 1" for m1
  proof -
    have rest: "same_dir m m1 (Suc dF + j)" "same_dir m m1 (Suc dT + j)" if "j < n" for j
      using that Suc.prems(2-4) by (auto intro!: same)
    have "total (copy_dirs nr n (cell 0 (Suc dF)) (cell 0 (Suc dT)) m1) (\<lambda>r m'. mm_inv ext m' \<and>
     high_memory m' = high_memory m1 \<and> others_same n (Suc dF) (Suc dT) m1 m' \<and>
     (r = 0 \<and> copied nr n (Suc dF) (Suc dT) m1 m' \<or> r = - 1 \<and> (\<forall>i<PAGING_PAGES. mem_map m' i \<noteq> 0)))"
    proof (rule Suc.IH [OF inv1])
      show "\<not> bit (phys m1 (cell 0 (Suc dT + j))) 0" if "j < n" for j
        using rest(2) [OF that] Suc.prems(8) [of "Suc j"] that by (simp add: same_dir_def)
      show "unat (mem_map m1 i) + (\<Sum>j<n. from_refs nr (phys m1) i (Suc dF + j)) < 256"
        if i: "i < PAGING_PAGES" for i
      proof -
        have eq: "(\<Sum>j<n. from_refs nr (phys m1) i (Suc dF + j)) = (\<Sum>j<n. from_refs nr (phys m) i (Suc dF + j))"
          by (rule sum.cong) (use from_refs_same_dir [OF rest(1) Suc.prems(5)] in auto)
        show ?thesis
        proof (cases "mem_map m i = 0")
          case False
          then show ?thesis
            using cnt [OF i] Suc.prems(9) [OF i] unfolding eq sum by linarith
        next
          case True
          then have "acct (phys m) i = 0" using mm_invD(3) [OF inv i] by simp
          moreover have "from_refs nr (phys m) i (Suc dF + j) \<le> acct (phys m) i" if "j < n" for j
          proof (cases "bit (phys m (cell 0 (Suc dF + j))) 0")
            case True
            then show ?thesis
              using from_refs_le_acct [OF Suc.prems(7) [of "Suc j"], of i] that Suc.prems(2,5) by simp
          qed (simp add: from_refs_def)
          ultimately have "from_refs nr (phys m) i (Suc dF + j) = 0" if "j < n" for j
            using that by simp
          then show ?thesis using one [OF i True] unfolding eq by simp
        qed
      qed
      show "from_ok nr m1 (Suc dF + j)" if "j < n" "bit (phys m1 (cell 0 (Suc dF + j))) 0" for j
        using that rest(1) [OF that(1)] Suc.prems(7) [of "Suc j"] hm1
        by (intro from_ok_same_dir [OF rest(1) [OF that(1)] _ Suc.prems(5)]) (auto simp: same_dir_def)
    qed (use Suc.prems(2-6) in auto)
    then show ?thesis
    proof (rule total_mono)
      fix r m' assume *: "mm_inv ext m' \<and>
     high_memory m' = high_memory m1 \<and> others_same n (Suc dF) (Suc dT) m1 m' \<and>
     (r = 0 \<and> copied nr n (Suc dF) (Suc dT) m1 m' \<or> r = - 1 \<and> (\<forall>i<PAGING_PAGES. mem_map m' i \<noteq> 0))"
      have "same_dir m m' j" if j: "j < 1024" "j \<notin> {dF..<dF + Suc n}" "j \<notin> {dT..<dT + Suc n}" for j
      proof (rule same_dir_trans [OF same])
        show "same_dir m1 m' j" using * j by (simp add: others_same_def)
      qed (use j in auto)
      then have "others_same (Suc n) dF dT m m'"
        by (simp add: others_same_def)
      moreover have "copied nr (Suc n) dF dT m m'" if "copied nr n (Suc dF) (Suc dT) m1 m'"
      proof -
        have "copied nr n (Suc dF) (Suc dT) m m'"
          by (rule copied_trans [OF that rest(1)]) (use Suc.prems(2) in auto)
        moreover have sd: "same_dir m1 m' dF" "same_dir m1 m' dT"
          using * d Suc.prems(2-4) by (auto simp: others_same_def)
        have "copied nr 1 dF dT m m'"
          by (rule copied_one_trans [OF cp sd])
        ultimately show ?thesis by (simp add: copied_Suc [of nr n])
      qed
      ultimately show "mm_inv ext m' \<and> high_memory m' = high_memory m \<and> others_same (Suc n) dF dT m m' \<and>
     (r = 0 \<and> copied nr (Suc n) dF dT m m' \<or> r = - 1 \<and> (\<forall>i<PAGING_PAGES. mem_map m' i \<noteq> 0))"
        using * hm1 by auto
    qed
  qed
  show ?case
  proof (cases "bit (phys m (cell 0 dF)) 0")
    case False
    then have "copy_dirs nr (Suc n) (cell 0 dF) (cell 0 dT) m = copy_dirs nr n (cell 0 (Suc dF)) (cell 0 (Suc dT)) m"
      using abs by (simp add: present_bit [simplified] cell_Suc)
    moreover have "copied nr 1 dF dT m m"
      using False abs by (simp add: copied_def pte_def)
    ultimately show ?thesis using IH [OF inv] by simp
  next
    case True
    then have un: "copy_dirs nr (Suc n) (cell 0 dF) (cell 0 dT) m =
      seq (get_free_page m) (\<lambda>p m1. if p = 0 then Ret (- 1) m1
        else seq (copy_table nr (tbl (phys m (cell 0 dF))) p (poke (cell 0 dT) (p OR 7) m1))
          (\<lambda>_ m. copy_dirs nr n (cell 0 (Suc dF)) (cell 0 (Suc dT)) m))"
      using abs unfolding copy_dirs.simps Let_def tbl_def cell_Suc
      by (simp add: present_bit [simplified])
    show ?thesis
    proof (cases rule: get_free_page_cases [of m])
      case none
      then show ?thesis using inv un by (simp add: others_same_def)
    next
      case (page i)
      have room: "\<forall>i<PAGING_PAGES. unat (mem_map m i) + from_refs nr (phys m) i dF < 256"
        using Suc.prems(9) unfolding sum by (metis add.assoc add_lessD1)
      have ok: "from_ok nr m dF" using Suc.prems(7) [of 0] True by simp
      note sp = copy_dir_spec [OF inv d(1) dT4(1) d(2,3) True abs Suc.prems(5) ok room page(2,3)]
      show ?thesis
        unfolding un page(1) using page(2)
      proof (simp, intro total_mono [OF sp])
        fix u m1
        assume *: "mm_inv ext m1 \<and> high_memory m1 = high_memory m \<and>
          (\<forall>j<1024. j \<noteq> dF \<longrightarrow> j \<noteq> dT \<longrightarrow> same_dir m m1 j) \<and>
          (\<forall>k<1024. pte m1 dT k = (if k < nr then child_pte (pte m dF k) else 0)) \<and>
          (\<forall>k<1024. pte m1 dF k = (if k < nr then parent_pte (pte m dF k) else pte m dF k)) \<and>
          (\<forall>j<PAGING_PAGES. unat (mem_map m1 j) \<le>
             (if j = i then 1 else unat (mem_map m j) + from_refs nr (phys m) j dF))"
        show "total (copy_dirs nr n (cell 0 (Suc dF)) (cell 0 (Suc dT)) m1) (\<lambda>r m'. mm_inv ext m' \<and>
          high_memory m' = high_memory m \<and> others_same (Suc n) dF dT m m' \<and>
          (r = 0 \<and> copied nr (Suc n) dF dT m m' \<or> r = - 1 \<and> (\<forall>i<PAGING_PAGES. mem_map m' i \<noteq> 0)))"
        proof (rule IH)
          show "copied nr 1 dF dT m m1" using * by (simp add: copied_def)
          fix j assume j: "j < PAGING_PAGES"
          from * j have le: "unat (mem_map m1 j) \<le>
            (if j = i then 1 else unat (mem_map m j) + from_refs nr (phys m) j dF)" by blast
          show "mem_map m j \<noteq> 0 \<or> mem_map m1 j = 0 \<Longrightarrow>
              unat (mem_map m1 j) \<le> unat (mem_map m j) + from_refs nr (phys m) j dF"
            using le page(3) by (cases "j = i") auto
          show "unat (mem_map m1 j) \<le> 1" if "mem_map m j = 0"
            using le that from_refs_le_acct [OF ok d(1) Suc.prems(5), of j] mm_invD(3) [OF inv j]
            by (cases "j = i") auto
        qed (use * in auto)
      qed
    qed
  qed
qed

end
