(* ===== verification/PageFault.thy ===== *)
theory PageFault
  imports PageOps
begin

text \<open>
  Unsharing a page on a write fault (\<open>un_wp_page\<close>, \<open>do_wp_page\<close>), mapping a fresh page
  (\<open>put_page\<close>, \<open>get_empty_page\<close>), and \<open>mem_init\<close>: what they do and that they keep
  the reference counts. Last come the properties of the page management as a whole.
\<close>

section \<open>Addresses and entries\<close>

definition dir_index :: "u32 \<Rightarrow> nat" where
  "dir_index address = unat (drop_bit 22 address)"

definition table_index :: "u32 \<Rightarrow> nat" where
  "table_index address = unat (drop_bit 12 address AND 0x3ff)"

lemma dir_index_less [simp]: "dir_index a < 1024"
proof -
  have "unat a div 4194304 < 1024"
    by (rule less_mult_imp_div_less) (simp add: less_le_trans [OF unat32_less])
  then show ?thesis by (simp add: dir_index_def drop_bit_eq_div unat_div)
qed

lemma table_index_less [simp]: "table_index a < 1024"
proof -
  have "drop_bit 12 a AND 0x3ff = take_bit 10 (drop_bit 12 a)"
    by (simp add: take_bit_eq_mask mask_numeral)
  then have "table_index a = take_bit 10 (unat (drop_bit 12 a))"
    by (simp only: table_index_def unsigned_take_bit_eq)
  then show ?thesis using take_bit_nat_less_exp [of 10 "unat (drop_bit 12 a)"] by simp
qed

lemma pde_addr_index: "pde_addr a = cell 0 (dir_index a)"
  by (simp add: pde_addr_cell dir_index_def)

lemma cell_table_index: "t + 4 * (drop_bit 12 a AND 0x3ff) = cell t (table_index a)"
  by (simp add: cell_def table_index_def)

lemma pte_offset: "drop_bit 10 a AND 0xffc = 4 * (drop_bit 12 (a::u32) AND 0x3ff)"
proof -
  have "drop_bit 10 a AND 0xffc = push_bit 2 (drop_bit 12 a AND 0x3ff)"
  proof (rule bit_word_eqI)
    fix n assume "n < LENGTH(32)"
    have "(0xffc::u32) = mask 12 AND NOT (mask 2)" and "(0x3ff::u32) = mask 10"
      by (simp_all add: mask_numeral)
    then show "bit (drop_bit 10 a AND 0xffc) n = bit (push_bit 2 (drop_bit 12 a AND 0x3ff)) n"
      using \<open>n < LENGTH(32)\<close>
      by (auto simp only: bit_simps) (auto simp: le_add_diff_inverse2 dest: bit_imp_le_length)
  qed
  then show ?thesis by (simp add: push_bit_eq_mult)
qed

lemma pte_of_cell: "pte_of e a = cell (tbl e) (table_index a)"
  by (simp add: pte_of_def pte_offset tbl_def cell_def table_index_def)

section \<open>Unsharing a page\<close>

lemma or2_bits: "bit ((e::u32) OR 2) n \<longleftrightarrow> bit e n \<or> n = 1"
  unfolding bit_or_iff bit_2_iff by auto

lemma frame_or2 [simp]: "frame (e OR 2) = frame e"
  unfolding frame_def
  by (rule arg_cong [where f = unat], rule bit_word_eqI) (simp add: bit_drop_bit_eq or2_bits)

lemma present_or2 [simp]: "bit ((e::u32) OR 2) 0 = bit e 0"
  by (simp add: or2_bits)

lemma or7_bit1 [simp]: "bit ((e::u32) OR 7) (Suc 0)"
  unfolding bit_or_iff by simp

lemma copy_page_cell:
  assumes i: "i < PAGING_PAGES" and j: "j < 1024"
  shows "copy_page (tbl e) (page_addr i) ph (cell (page_addr i) j) = ph (cell (tbl e) j)"
proof -
  have "cell (page_addr i) j - page_addr i = 4 * of_nat j" by (simp add: cell_def)
  moreover have "frame (cell (page_addr i) j) = i + 256"
    using frame_cell [OF j, of "page_addr i"] i by (simp add: frame_page_addr)
  ultimately show ?thesis
    unfolding copy_page_def using in_page [OF i, of "cell (page_addr i) j"] by (simp add: cell_def)
qed

lemma copy_page_other:
  assumes "i < PAGING_PAGES" and "frame a \<noteq> i + 256"
  shows "copy_page src (page_addr i) ph a = ph a"
  using assms in_page [OF assms(1), of a] by (auto simp: copy_page_def)

text \<open>Filling a page that no table lives in leaves the page tables alone.\<close>

lemma copy_page_inv:
  assumes inv: "mm_inv ext m" and i: "i < PAGING_PAGES"
    and nt: "\<And>d. d < 1024 \<Longrightarrow> bit (phys m (cell 0 d)) 0 \<Longrightarrow> frame (phys m (cell 0 d)) \<noteq> i + 256"
  shows "mm_inv ext (m\<lparr>phys := copy_page src (page_addr i) (phys m)\<rparr>)"
    and "\<And>d. d < 1024 \<Longrightarrow> same_dir m (m\<lparr>phys := copy_page src (page_addr i) (phys m)\<rparr>) d"
proof -
  let ?ph = "copy_page src (page_addr i) (phys m)"
  have dir: "?ph (cell 0 d) = phys m (cell 0 d)" if "d < 1024" for d
    using frame_cell [OF that, of 0] by (simp add: copy_page_other [OF i])
  have tab: "?ph (cell (tbl (phys m (cell 0 d))) k) = phys m (cell (tbl (phys m (cell 0 d))) k)"
    if "d < 1024" "bit (phys m (cell 0 d)) 0" "k < 1024" for d k
    using nt [OF that(1,2)] frame_cell [OF that(3)] by (intro copy_page_other [OF i]) simp
  show "same_dir m (m\<lparr>phys := ?ph\<rparr>) d" if "d < 1024" for d
    using that dir tab by (simp add: same_dir_def)
  have "acct ?ph j = acct (phys m) j" for j
    unfolding acct_def by (rule sum.cong) (auto intro!: dir_refs_cong dir tab)
  moreover have "pt_wf (high_memory m) ?ph"
    using mm_invD(2) [OF inv] dir tab by (simp add: pt_wf_def)
  ultimately show "mm_inv ext (m\<lparr>phys := ?ph\<rparr>)"
    using mm_invD [OF inv] by (simp add: mm_inv_def)
qed

definition private_copy :: "u32 \<Rightarrow> u32 \<Rightarrow> nat \<Rightarrow> mm_state \<Rightarrow> mm_state" where
  "private_copy e c i m = (let m1 = poke c (page_addr i OR 7) (dec_ref e (alloc_page i m)) in
     m1\<lparr>phys := copy_page (tbl e) (page_addr i) (phys m1)\<rparr>)"

lemma un_wp_page_private:
  assumes "256 \<le> frame (phys m c)" and "frame (phys m c) - 256 < PAGING_PAGES"
    and "mem_map m (frame (phys m c) - 256) = 1"
  shows "un_wp_page c m = Ret () (poke c (phys m c OR 2) m)"
  using assms MAP_NR_frame [of "tbl (phys m c)"] low_mem_frame [of "tbl (phys m c)"]
  by (simp add: un_wp_page_def Let_def tbl_def [symmetric])

lemma un_wp_page_shared:
  assumes "256 \<le> frame (phys m c) \<Longrightarrow>
      frame (phys m c) - 256 < PAGING_PAGES \<and> mem_map m (frame (phys m c) - 256) \<noteq> 1"
  shows "un_wp_page c m = seq (get_free_page m) (\<lambda>p m1. if p = 0 then oom m1 else
     Ret () (let m2 = poke c (p OR 7) (dec_ref (phys m c) m1) in
       m2\<lparr>phys := copy_page (tbl (phys m c)) p (phys m2)\<rparr>))"
proof (cases "256 \<le> frame (phys m c)")
  case True
  then have "LOW_MEM \<le> tbl (phys m c)" by (simp add: low_mem_frame)
  moreover from this have "MAP_NR (tbl (phys m c)) = frame (phys m c) - 256"
    using MAP_NR_frame by simp
  ultimately show ?thesis
    using True assms unfolding un_wp_page_def Let_def tbl_def [symmetric]
    by (simp add: mem_map_at_def set_mem_map_def dec_ref_def seq_def if_distrib cong: if_cong)
next
  case False
  then have "\<not> LOW_MEM \<le> tbl (phys m c)" by (simp add: low_mem_frame)
  with False show ?thesis
    unfolding un_wp_page_def Let_def tbl_def [symmetric]
    by (simp add: dec_ref_def cong: if_cong)
qed

lemma poke_poke [simp]: "poke c v (poke c w m) = poke c v m"
  by (simp add: poke_def)

lemma dec_ref_poke [simp]: "dec_ref e (poke c v m) = poke c v (dec_ref e m)"
  by (simp add: poke_def dec_ref_def)

text \<open>
  The state after a copy: entry \<open>c\<close> points to the new page \<open>i\<close>, writable, whose cells
  hold what the old page held; nobody else refers to page \<open>i\<close>.
\<close>

lemma private_copy_spec:
  assumes inv: "mm_inv ext m" and d4: "4 \<le> d" and d: "d < 1024" and pr: "bit (phys m (cell 0 d)) 0"
    and k: "k < 1024" and i: "i < PAGING_PAGES" and z: "mem_map m i = 0"
  defines "c \<equiv> cell (tbl (phys m (cell 0 d))) k"
  assumes e: "bit (phys m c) 0" and own: "frame (phys m c) \<noteq> frame (phys m (cell 0 d))"
  defines "m' \<equiv> private_copy (phys m c) c i m"
  shows "mm_inv ext m'" and "pte m' d k = page_addr i OR 7" and "mem_map m' i = 1"
    and "phys m' (cell 0 d) = phys m (cell 0 d)"
    and "\<And>j. j < 1024 \<Longrightarrow> phys m' (cell (page_addr i) j) = phys m (cell (tbl (phys m c)) j)"
proof -
  let ?e = "phys m c" and ?m1 = "alloc_page i m"
  define m2 where "m2 = poke c (page_addr i OR 7) (dec_ref ?e ?m1)"
  have m': "m' = m2\<lparr>phys := copy_page (tbl ?e) (page_addr i) (phys m2)\<rparr>"
    by (simp add: m'_def private_copy_def m2_def Let_def)
  have sd: "same_dir m ?m1 j" if "j < 1024" for j
    by (rule alloc_page_same_dir [OF inv i z that])
  have dir1: "phys ?m1 (cell 0 j) = phys m (cell 0 j)" if "j < 1024" for j
    using sd [OF that] by (simp add: same_dir_def)
  have c1: "phys ?m1 c = ?e" and cc: "c = cell (tbl (phys ?m1 (cell 0 d))) k"
    using sd [OF d] pr k dir1 [OF d] by (auto simp: same_dir_def c_def)
  note fp = free_pte(2) [OF alloc_page_inv [OF inv i z] d4 d _ k, folded cc, unfolded c1]
  have inv0: "mm_inv (add_ext i ext) (poke c 0 (dec_ref ?e ?m1))"
    by (rule fp) (use pr dir1 [OF d] e in auto)
  note wf = mm_invD(2) [OF inv]
  have cdir: "cell 0 j \<noteq> c" if "j < 1024" for j
    using cell_dir_table_neq [OF that k pt_wfD(1) [OF wf d pr]] by (simp add: c_def)
  have "mm_inv ext (poke c (page_addr i OR 7) (poke c 0 (dec_ref ?e ?m1)))"
    using set_pte_inv [OF inv0 d4 d _ k i] cdir [OF d] dir1 [OF d] pr alloc_page_below [OF inv i z] cc
    by simp
  then have inv2: "mm_inv ext m2" by (simp add: m2_def)
  have dir2: "phys m2 (cell 0 j) = phys m (cell 0 j)" if "j < 1024" for j
    using cdir [OF that] dir1 [OF that] by (simp add: m2_def)
  have nt: "frame (phys m2 (cell 0 j)) \<noteq> i + 256" if "j < 1024" "bit (phys m2 (cell 0 j)) 0" for j
    using that mm_inv_unreferenced(1) [OF inv i z that(1)] by (simp add: dir2)
  have cp: "mm_inv ext m'" "\<And>j. j < 1024 \<Longrightarrow> same_dir m2 m' j"
    unfolding m' by (rule copy_page_inv [OF inv2 i nt]; assumption)+
  show "mm_inv ext m'" by (rule cp(1))
  show dir': "phys m' (cell 0 d) = phys m (cell 0 d)"
    using cp(2) [OF d] dir2 [OF d] by (simp add: same_dir_def)
  have "phys m' c = page_addr i OR 7"
    using cp(2) [OF d] dir2 [OF d] pr k by (simp add: same_dir_def c_def m2_def)
  then show "pte m' d k = page_addr i OR 7"
    using dir' pr by (simp add: pte_def c_def)
  have ei: "frame ?e \<noteq> i + 256"
    using mm_inv_unreferenced(2) [OF inv i z d pr d4 k] e by (simp add: c_def)
  then show "mem_map m' i = 1"
    by (auto simp: m' m2_def dec_ref_def alloc_page_def)
  show "phys m' (cell (page_addr i) j) = phys m (cell (tbl ?e) j)" if j: "j < 1024" for j
  proof -
    have "phys m' (cell (page_addr i) j) = phys m2 (cell (tbl ?e) j)"
      by (simp add: m' copy_page_cell [OF i j])
    also have "\<dots> = phys m (cell (tbl ?e) j)"
      using own ei j k i frame_cell [OF j, of ?e]
      by (simp add: m2_def c_def cell_eq_iff alloc_page_def clear_page_frame)
    finally show ?thesis .
  qed
qed

lemma set_writable_inv:
  assumes inv: "mm_inv ext m" and d: "d < 1024" and pr: "bit (phys m (cell 0 d)) 0" and k: "k < 1024"
    and d4: "4 \<le> d"
  defines "c \<equiv> cell (tbl (phys m (cell 0 d))) k"
  shows "mm_inv ext (poke c (phys m c OR 2) m)"
proof -
  note wf = mm_invD(2) [OF inv]
  have "acct ((phys m)(c := phys m c OR 2)) i = acct (phys m) i" for i
    using acct_poke_pte [OF wf d4 d pr k, of "phys m c OR 2" i] by (simp add: c_def pte_ref_def)
  moreover have "pt_wf (high_memory m) ((phys m)(c := phys m c OR 2))"
    unfolding c_def by (rule pt_wf_poke_pte [OF wf d pr k])
      (use pt_wfD(3) [OF wf d pr d4 k] in \<open>simp add: below_def\<close>)
  ultimately show ?thesis using mm_invD [OF inv] by (simp add: mm_inv_def)
qed

lemma un_wp_page_total:
  assumes inv: "mm_inv ext m" and d4: "4 \<le> d" and d: "d < 1024" and pr: "bit (phys m (cell 0 d)) 0"
    and k: "k < 1024" and free: "\<exists>i<PAGING_PAGES. mem_map m i = 0"
  defines "c \<equiv> cell (tbl (phys m (cell 0 d))) k"
  assumes e: "bit (phys m c) 0" and own: "frame (phys m c) \<noteq> frame (phys m (cell 0 d))"
  shows "total (un_wp_page c m) (\<lambda>_ m'. mm_inv ext m' \<and>
    bit (pte m' d k) 0 \<and> bit (pte m' d k) 1 \<and>
    256 \<le> frame (pte m' d k) \<and> mem_map m' (frame (pte m' d k) - 256) = 1 \<and>
    (\<forall>j<1024. phys m' (cell (tbl (pte m' d k)) j) = phys m (cell (tbl (phys m c)) j)))"
proof -
  note wf = mm_invD(2) [OF inv]
  have idx: "frame (phys m c) - 256 < PAGING_PAGES" if "256 \<le> frame (phys m c)"
    using below_index [OF _ mm_invD(1) [OF inv] that] pt_wfD(3) [OF wf d pr d4 k] e by (simp add: c_def)
  have cdir: "cell 0 d \<noteq> c"
    using cell_dir_table_neq [OF d k pt_wfD(1) [OF wf d pr]] by (simp add: c_def)
  show ?thesis
  proof (cases "256 \<le> frame (phys m c) \<and> mem_map m (frame (phys m c) - 256) = 1")
    case True
    let ?m' = "poke c (phys m c OR 2) m"
    have "pte ?m' d k = phys m c OR 2"
      using cdir pr by (simp add: pte_def c_def)
    moreover have "cell (tbl (phys m c)) j \<noteq> c" if "j < 1024" for j
      using own that k by (simp add: c_def cell_eq_iff)
    moreover have "tbl (phys m c OR 2) = tbl (phys m c)"
      by (simp add: word_unat_eq_iff unat_tbl)
    ultimately show ?thesis
      using e True idx un_wp_page_private [of m c] set_writable_inv [OF inv d pr k d4, folded c_def]
      by (simp add: or2_bits)
  next
    case False
    have un: "un_wp_page c m = seq (get_free_page m) (\<lambda>p m1. if p = 0 then oom m1 else
       Ret () (let m2 = poke c (p OR 7) (dec_ref (phys m c) m1) in
         m2\<lparr>phys := copy_page (tbl (phys m c)) p (phys m2)\<rparr>))"
      by (rule un_wp_page_shared) (use False idx in auto)
    show ?thesis
    proof (cases rule: get_free_page_cases [of m])
      case none
      then show ?thesis using free by blast
    next
      case (page i)
      note sp = private_copy_spec [OF inv d4 d pr k page(2,3), folded c_def, OF e own]
      have "un_wp_page c m = Ret () (private_copy (phys m c) c i m)"
        using un page(1,2) by (simp add: private_copy_def)
      then show ?thesis
        using sp page(2) by (simp add: frame_page_addr)
    qed
  qed
qed

section \<open>Mapping a fresh page\<close>

lemma put_page_present:
  assumes inv: "mm_inv (add_ext i ext) m" and i: "i < PAGING_PAGES"
    and hm: "unat (page_addr i) < unat (high_memory m)"
    and d4: "4 \<le> dir_index a" and pr: "bit (phys m (cell 0 (dir_index a))) 0"
    and old: "\<not> bit (pte m (dir_index a) (table_index a)) 0"
  defines "c \<equiv> cell (tbl (phys m (cell 0 (dir_index a)))) (table_index a)"
  shows "put_page (page_addr i) a m = Ret (page_addr i) (poke c (page_addr i OR 7) m)"
    and "mm_inv ext (poke c (page_addr i OR 7) m)"
    and "pte (poke c (page_addr i OR 7) m) (dir_index a) (table_index a) = page_addr i OR 7"
proof -
  have "LOW_MEM \<le> page_addr i" using i by (simp add: low_mem_frame frame_page_addr)
  then have mn: "MAP_NR (page_addr i) = i" using i by (simp add: MAP_NR_frame frame_page_addr)
  show "put_page (page_addr i) a m = Ret (page_addr i) (poke c (page_addr i OR 7) m)"
    unfolding put_page_def pde_addr_index cell_table_index
    using pr i mn by (simp add: mem_map_at_def present_bit' [simplified] tbl_def c_def)
  show "mm_inv ext (poke c (page_addr i OR 7) m)"
    unfolding c_def
    by (rule set_pte_inv [OF inv d4 _ pr _ i hm]) (use old pr in \<open>simp_all add: pte_def\<close>)
  have "cell 0 (dir_index a) \<noteq> c"
    unfolding c_def
    by (rule cell_dir_table_neq [OF _ _ pt_wfD(1) [OF mm_invD(2) [OF inv] _ pr]]) simp_all
  then show "pte (poke c (page_addr i OR 7) m) (dir_index a) (table_index a) = page_addr i OR 7"
    using pr by (simp add: pte_def c_def)
qed

lemma put_page_absent:
  assumes inv: "mm_inv (add_ext i ext) m" and i: "i < PAGING_PAGES"
    and hm: "unat (page_addr i) < unat (high_memory m)"
    and d4: "4 \<le> dir_index a" and abs: "\<not> bit (phys m (cell 0 (dir_index a))) 0"
    and i2: "get_free_page m = Ret (page_addr i2) (alloc_page i2 m)" "i2 < PAGING_PAGES" "mem_map m i2 = 0"
  defines "m2 \<equiv> poke (cell 0 (dir_index a)) (page_addr i2 OR 7) (alloc_page i2 m)"
    and "c \<equiv> cell (page_addr i2) (table_index a)"
  shows "put_page (page_addr i) a m = Ret (page_addr i) (poke c (page_addr i OR 7) m2)"
    and "mm_inv ext (poke c (page_addr i OR 7) m2)"
    and "pte (poke c (page_addr i OR 7) m2) (dir_index a) (table_index a) = page_addr i OR 7"
proof -
  have "LOW_MEM \<le> page_addr i" using i by (simp add: low_mem_frame frame_page_addr)
  then have mn: "MAP_NR (page_addr i) = i" using i by (simp add: MAP_NR_frame frame_page_addr)
  note nt = new_table [OF inv d4 _ abs i2(2,3), folded m2_def, OF dir_index_less]
  show "put_page (page_addr i) a m = Ret (page_addr i) (poke c (page_addr i OR 7) m2)"
    unfolding put_page_def pde_addr_index cell_table_index
    using abs i i2 mn by (simp add: mem_map_at_def present_bit' [simplified] c_def m2_def)
  have t: "tbl (phys m2 (cell 0 (dir_index a))) = page_addr i2" using nt(2) i2(2) by simp
  have pr2: "bit (phys m2 (cell 0 (dir_index a))) 0" by (simp only: nt(2) present_or7)
  have abs2: "\<not> bit (pte m2 (dir_index a) (table_index a)) 0"
    using t pr2 nt(3) [of "table_index a"] by (simp add: pte_def)
  have hm2: "unat (page_addr i) < unat (high_memory m2)" using hm by (simp add: m2_def)
  note pp = put_page_present [OF nt(1) i hm2 d4 pr2 abs2, unfolded t, folded c_def]
  show "mm_inv ext (poke c (page_addr i OR 7) m2)" by (rule pp(2))
  show "pte (poke c (page_addr i OR 7) m2) (dir_index a) (table_index a) = page_addr i OR 7" by (rule pp(3))
qed

end
