(* ===== verification/MemoryProps.thy ===== *)
theory MemoryProps
  imports PageFault
begin

text \<open>
  The properties of mm/memory.c, each with a witness on a small concrete memory: page 3839
  (the last one below 16 MB) is free, page 3838 is a user page table, page 3837 a user
  page mapped by it.
\<close>

section \<open>Start-up\<close>

lemma zero_pages_spec:
  "i + n \<le> PAGING_PAGES \<Longrightarrow> zero_pages n i m =
     Ret () (m\<lparr>mem_map := (\<lambda>j. if i \<le> j \<and> j < i + n then 0 else mem_map m j)\<rparr>)"
proof (induction n arbitrary: i m)
  case 0
  have "(\<lambda>j. if i \<le> j \<and> j < i + 0 then 0 else mem_map m j) = mem_map m"
    by (auto simp: fun_eq_iff)
  then show ?case by simp
next
  case (Suc n)
  have "(\<lambda>j. if Suc i \<le> j \<and> j < Suc i + n then 0 else mem_map (m\<lparr>mem_map := (mem_map m)(i := 0)\<rparr>) j)
      = (\<lambda>j. if i \<le> j \<and> j < i + Suc n then 0 else mem_map m j)"
    by (auto simp: fun_eq_iff)
  then show ?case using Suc by (simp add: set_mem_map_def)
qed

text \<open>The references outside the page tables after start-up: the reserved pages.\<close>

definition reserved :: "nat \<Rightarrow> nat \<Rightarrow> nat \<Rightarrow> nat" where
  "reserved lo hi i = (if lo \<le> i \<and> i < hi then 0 else 100)"

lemma mem_init_spec:
  assumes "256 * 4096 \<le> unat start_mem" and "unat start_mem \<le> unat end_mem"
    and "unat end_mem \<le> 0x1000000" and "4096 dvd unat start_mem" and "4096 dvd unat end_mem"
  shows "mem_init start_mem end_mem m = Ret () (m\<lparr>high_memory := end_mem,
    mem_map := (\<lambda>j. if frame start_mem - 256 \<le> j \<and> j < frame end_mem - 256 then 0
                    else if j < PAGING_PAGES then USED else mem_map m j)\<rparr>)"
proof -
  have u: "unat (end_mem - start_mem) = unat end_mem - unat start_mem"
    by (rule unat_sub) (use assms(2) in \<open>simp add: word_le_nat_alt\<close>)
  then have "uint (end_mem - start_mem) < 2147483648"
    using assms(3) by (simp add: uint_nat)
  then have "sint (end_mem - start_mem) = uint (end_mem - start_mem)"
    using order_trans [OF _ uint_ge_0, of "- 2147483648" "end_mem - start_mem"]
    by (simp add: sint_uint signed_take_bit_int_eq_self_iff)
  obtain a b where ab: "unat start_mem = 4096 * a" "unat end_mem = 4096 * b"
    using assms(4,5) by (auto elim!: dvdE)
  have "uint (end_mem - start_mem) = int (unat (end_mem - start_mem))"
    by (rule uint_nat)
  also have "unat (end_mem - start_mem) = 4096 * (b - a)"
    unfolding u ab by (simp add: diff_mult_distrib2)
  finally have "sint (end_mem - start_mem) = 4096 * int (b - a)"
    using \<open>sint (end_mem - start_mem) = uint (end_mem - start_mem)\<close> by simp
  then have n: "nat (sint (end_mem - start_mem) div 4096) = frame end_mem - frame start_mem"
    by (simp add: frame_div ab)
  have lo: "LOW_MEM \<le> start_mem"
    using assms(1) by (simp add: LOW_MEM_def word_le_nat_alt)
  have fr: "frame start_mem \<le> frame end_mem" "256 \<le> frame start_mem"
    using assms(1,2) by (auto simp: frame_div div_le_mono less_eq_div_iff_mult_less_eq)
  have "frame end_mem \<le> 4096"
    using div_le_mono [OF assms(3), of 4096] by (simp add: frame_div)
  with fr have le: "frame start_mem - 256 + (frame end_mem - frame start_mem) \<le> PAGING_PAGES"
    and eq: "frame start_mem - 256 + (frame end_mem - frame start_mem) = frame end_mem - 256"
    by (simp_all add: PAGING_PAGES_def)
  show ?thesis
    unfolding mem_init_def Let_def n MAP_NR_frame [OF lo] zero_pages_spec [OF le] eq by (simp cong: if_cong)
qed

lemma empty_tables_inv:
  assumes "high_memory m \<le> 0x1000000" and "\<And>d. d < 1024 \<Longrightarrow> 4 \<le> d \<Longrightarrow> \<not> bit (phys m (cell 0 d)) 0"
    and "pt_wf (high_memory m) (phys m)"
    and "\<And>i. i < PAGING_PAGES \<Longrightarrow> unat (mem_map m i) = ext i"
    and "\<And>i. i < PAGING_PAGES \<Longrightarrow> high_memory m \<le> page_addr i \<Longrightarrow> 0 < ext i"
  shows "mm_inv ext m"
proof -
  have "acct (phys m) i = 0" for i
    using assms(2) by (simp add: acct_def dir_refs_def Let_def)
  then show ?thesis using assms by (simp add: mm_inv_def)
qed

lemma mem_init_inv:
  assumes "256 * 4096 \<le> unat start_mem" and "unat start_mem \<le> unat end_mem"
    and "unat end_mem \<le> 0x1000000" and "4096 dvd unat start_mem" and "4096 dvd unat end_mem"
    and "pt_wf end_mem (phys m)" and "\<forall>d<1024. 4 \<le> d \<longrightarrow> \<not> bit (phys m (cell 0 d)) 0"
  shows "total (mem_init start_mem end_mem m) (\<lambda>_ m'.
    mm_inv (reserved (frame start_mem - 256) (frame end_mem - 256)) m' \<and>
    (\<forall>i<PAGING_PAGES. mem_map m' i = 0 \<longleftrightarrow>
       unat start_mem \<le> unat (page_addr i) \<and> unat (page_addr i) < unat end_mem))"
proof -
  let ?lo = "frame start_mem - 256" and ?hi = "frame end_mem - 256"
  have ge: "256 \<le> frame start_mem" "256 \<le> frame end_mem"
    using assms(1,2) by (auto simp: frame_div less_eq_div_iff_mult_less_eq)
  have range: "?lo \<le> i \<and> i < ?hi \<longleftrightarrow> unat start_mem \<le> unat (page_addr i) \<and> unat (page_addr i) < unat end_mem"
    if "i < PAGING_PAGES" for i
    using ge assms(4,5) that by (auto simp: frame_div unat_page_addr elim!: dvdE)
  have "mm_inv (reserved ?lo ?hi) (m\<lparr>high_memory := end_mem,
      mem_map := (\<lambda>j. if ?lo \<le> j \<and> j < ?hi then 0 else if j < PAGING_PAGES then USED else mem_map m j)\<rparr>)"
  proof (rule empty_tables_inv)
    fix i assume i: "i < PAGING_PAGES"
    show "0 < reserved ?lo ?hi i"
      if "high_memory (m\<lparr>high_memory := end_mem, mem_map := (\<lambda>j. if ?lo \<le> j \<and> j < ?hi then 0
        else if j < PAGING_PAGES then USED else mem_map m j)\<rparr>) \<le> page_addr i"
      using that range [OF i] by (auto simp: reserved_def word_le_nat_alt)
  qed (use assms in \<open>auto simp: reserved_def USED_def word_le_nat_alt\<close>)
  then show ?thesis
    using mem_init_spec [OF assms(1-5)] range by (auto simp: USED_def)
qed

text \<open>
  C27. \<open>mem_init\<close>, called with the page-aligned bounds of the main memory, makes exactly
  the pages between them free, reserves all others, and starts the reference counting
  in a consistent state when only the kernel's directory entries are set.
\<close>

theorem mem_init_establishes_inv:
  assumes "256 * 4096 \<le> unat start_mem" and "unat start_mem \<le> unat end_mem"
    and "unat end_mem \<le> 0x1000000" and "4096 dvd unat start_mem" and "4096 dvd unat end_mem"
    and "pt_wf end_mem (phys m)" and "\<forall>d<1024. 4 \<le> d \<longrightarrow> \<not> bit (phys m (cell 0 d)) 0"
  shows "total (mem_init start_mem end_mem m) (\<lambda>_ m'.
    mm_inv (reserved (frame start_mem - 256) (frame end_mem - 256)) m' \<and>
    (\<forall>i<PAGING_PAGES. mem_map m' i = 0 \<longleftrightarrow>
       unat start_mem \<le> unat (page_addr i) \<and> unat (page_addr i) < unat end_mem))"
  using assms by (rule mem_init_inv)

definition boot_mm :: mm_state where
  "boot_mm = \<lparr>mem_map = (\<lambda>i. if 768 \<le> i \<and> i < 3840 then 0 else if i < PAGING_PAGES then USED else 0),
     phys = (\<lambda>_. 0), high_memory = 0x1000000\<rparr>"

lemma pt_wf_zero: "pt_wf hm (\<lambda>_. 0)"
  by (simp add: pt_wf_def)

theorem mem_init_establishes_inv_witness:
  "total (mem_init 0x400000 0x1000000 boot_mm) (\<lambda>_ m'.
    mm_inv (reserved (frame 0x400000 - 256) (frame 0x1000000 - 256)) m' \<and>
    (\<forall>i<PAGING_PAGES. mem_map m' i = 0 \<longleftrightarrow>
       unat (0x400000 :: u32) \<le> unat (page_addr i) \<and> unat (page_addr i) < unat (0x1000000 :: u32)))"
  by (rule mem_init_establishes_inv) (simp_all add: boot_mm_def pt_wf_zero)

section \<open>A concrete user address space\<close>

definition user_mm :: mm_state where
  "user_mm = poke (cell (page_addr 3839) 0) (page_addr 3838 OR 7) (alloc_page 3838
     (poke (cell 0 16) (page_addr 3839 OR 7) (alloc_page 3839 boot_mm)))"

lemma boot_inv: "mm_inv (reserved 768 3840) boot_mm"
  by (rule empty_tables_inv)
    (auto simp: boot_mm_def pt_wf_zero reserved_def USED_def PAGING_PAGES_def word_le_nat_alt unat_page_addr)

abbreviation table_mm :: mm_state where
  "table_mm \<equiv> poke (cell 0 16) (page_addr 3839 OR 7) (alloc_page 3839 boot_mm)"

lemma table_mm:
  "mm_inv (reserved 768 3840) table_mm" "phys table_mm (cell 0 16) = page_addr 3839 OR 7"
  "k < 1024 \<Longrightarrow> phys table_mm (cell (page_addr 3839) k) = 0"
  "j < 1024 \<Longrightarrow> j \<noteq> 16 \<Longrightarrow> phys table_mm (cell 0 j) = 0" "mem_map table_mm 3838 = 0"
proof -
  note nt = new_table [OF boot_inv, of 16 3839]
  show "mm_inv (reserved 768 3840) table_mm" "phys table_mm (cell 0 16) = page_addr 3839 OR 7"
    "k < 1024 \<Longrightarrow> phys table_mm (cell (page_addr 3839) k) = 0"
    using nt(1,2,3) by (simp_all add: boot_mm_def PAGING_PAGES_def)
  show "j < 1024 \<Longrightarrow> j \<noteq> 16 \<Longrightarrow> phys table_mm (cell 0 j) = 0"
    using nt(4) [of j] by (simp add: boot_mm_def PAGING_PAGES_def same_dir_def)
  show "mem_map table_mm 3838 = 0" by (simp add: alloc_page_def boot_mm_def)
qed

lemma user_mm:
  "mm_inv (reserved 768 3840) user_mm" "phys user_mm (cell 0 16) = page_addr 3839 OR 7"
  "pte user_mm 16 0 = page_addr 3838 OR 7"
  "j < 1024 \<Longrightarrow> j \<noteq> 16 \<Longrightarrow> phys user_mm (cell 0 j) = 0"
  "mem_map user_mm i = (if i = 3838 \<or> i = 3839 then 1 else mem_map boot_mm i)"
  "high_memory user_mm = 0x1000000"
proof -
  have i: "3838 < PAGING_PAGES" "3839 < PAGING_PAGES" by (simp_all add: PAGING_PAGES_def)
  let ?m1 = "alloc_page 3838 table_mm"
  have sd: "same_dir table_mm ?m1 j" if "j < 1024" for j
    by (rule alloc_page_same_dir [OF table_mm(1) i(1) table_mm(5) that])
  have d1: "phys ?m1 (cell 0 j) = phys table_mm (cell 0 j)" if "j < 1024" for j
    using sd [OF that] by (simp add: same_dir_def)
  have t: "tbl (phys ?m1 (cell 0 16)) = page_addr 3839" and pr: "bit (phys ?m1 (cell 0 16)) 0"
    using d1 [of 16] table_mm(2) i by simp_all
  have z: "phys ?m1 (cell (page_addr 3839) 0) = 0"
    using sd [of 16] table_mm(2,3) i by (simp add: same_dir_def)
  have cd: "cell 0 j \<noteq> cell (page_addr 3839) 0" if "j < 1024" for j
    using cell_dir_table_neq [OF that, of 0 "page_addr 3839"] i by (simp add: frame_page_addr)
  show "mm_inv (reserved 768 3840) user_mm"
    unfolding user_mm_def
    using set_pte_inv [OF alloc_page_inv [OF table_mm(1) i(1) table_mm(5)], of 16 0] pr z i
    unfolding t by (simp add: unat_page_addr boot_mm_def)
  show "phys user_mm (cell 0 16) = page_addr 3839 OR 7"
    using cd [of 16] d1 [of 16] table_mm(2) by (simp add: user_mm_def)
  then show "pte user_mm 16 0 = page_addr 3838 OR 7"
    using i by (simp add: pte_def) (simp add: user_mm_def)
  show "j < 1024 \<Longrightarrow> j \<noteq> 16 \<Longrightarrow> phys user_mm (cell 0 j) = 0"
    using cd [of j] d1 [of j] table_mm(4) [of j] by (simp add: user_mm_def)
  show "mem_map user_mm i = (if i = 3838 \<or> i = 3839 then 1 else mem_map boot_mm i)"
    by (simp add: user_mm_def alloc_page_def)
  show "high_memory user_mm = 0x1000000"
    by (simp add: user_mm_def boot_mm_def)
qed

section \<open>Allocation, \<open>fork\<close> and \<open>exit\<close>\<close>

text \<open>
  C26. \<open>get_free_page\<close> returns 0 and changes nothing exactly when no page is free;
  otherwise it returns the highest free page, below the end of memory, counts it once,
  clears its 1024 cells, and touches no other page and no page table.
\<close>

theorem get_free_page_correct:
  assumes "mm_inv ext m"
  shows "total (get_free_page m) (\<lambda>p m'.
    (p = 0 \<and> m' = m \<and> (\<forall>i<PAGING_PAGES. mem_map m i \<noteq> 0)) \<or>
    (\<exists>i<PAGING_PAGES. p = page_addr i \<and> p < high_memory m \<and> mem_map m i = 0 \<and>
       (\<forall>j. i < j \<longrightarrow> j < PAGING_PAGES \<longrightarrow> mem_map m j \<noteq> 0) \<and>
       mem_map m' = (mem_map m)(i := 1) \<and>
       (\<forall>a. phys m' a = (if frame a = frame p then 0 else phys m a)) \<and>
       (\<forall>d<1024. same_dir m m' d) \<and> mm_inv (add_ext i ext) m'))"
proof (cases rule: get_free_page_cases [of m])
  case none
  then show ?thesis by simp
next
  case (page i)
  have "page_addr i < high_memory m"
    using alloc_page_below [OF assms page(2,3)] by (simp add: word_less_nat_alt)
  then show ?thesis
    using page alloc_page_inv [OF assms page(2,3)] alloc_page_same_dir [OF assms page(2,3)]
      clear_page_frame [OF page(2)] frame_page_addr [OF page(2)]
    by (auto simp: alloc_page_def)
qed

theorem get_free_page_correct_witness:
  "total (get_free_page boot_mm) (\<lambda>p m'.
    (p = 0 \<and> m' = boot_mm \<and> (\<forall>i<PAGING_PAGES. mem_map boot_mm i \<noteq> 0)) \<or>
    (\<exists>i<PAGING_PAGES. p = page_addr i \<and> p < high_memory boot_mm \<and> mem_map boot_mm i = 0 \<and>
       (\<forall>j. i < j \<longrightarrow> j < PAGING_PAGES \<longrightarrow> mem_map boot_mm j \<noteq> 0) \<and>
       mem_map m' = (mem_map boot_mm)(i := 1) \<and>
       (\<forall>a. phys m' a = (if frame a = frame p then 0 else phys boot_mm a)) \<and>
       (\<forall>d<1024. same_dir boot_mm m' d) \<and> mm_inv (add_ext i (reserved 768 3840)) m'))"
  by (rule get_free_page_correct [OF boot_inv])

text \<open>A request of \<open>fork\<close>: two disjoint 4 MB-aligned ranges, the target empty.\<close>

definition pages_per_table :: "u32 \<Rightarrow> nat" where
  "pages_per_table frm = (if frm = 0 then 0xA0 else 1024)"

definition dir_count :: "u32 \<Rightarrow> nat" where
  "dir_count sz = unat (drop_bit 22 (sz + 0x3fffff))"

definition copy_request :: "u32 \<Rightarrow> u32 \<Rightarrow> u32 \<Rightarrow> mm_state \<Rightarrow> bool" where
  "copy_request frm to sz m \<longleftrightarrow> frm AND 0x3fffff = 0 \<and> to AND 0x3fffff = 0 \<and> 4 \<le> dir_index to \<and>
     dir_index frm + dir_count sz \<le> 1024 \<and> dir_index to + dir_count sz \<le> 1024 \<and>
     (dir_index frm + dir_count sz \<le> dir_index to \<or> dir_index to + dir_count sz \<le> dir_index frm) \<and>
     (\<forall>j<dir_count sz. \<not> bit (phys m (cell 0 (dir_index to + j))) 0) \<and>
     (\<forall>j<dir_count sz. bit (phys m (cell 0 (dir_index frm + j))) 0 \<longrightarrow>
        from_ok (pages_per_table frm) m (dir_index frm + j))"

lemma sum_from_refs_le:
  assumes "\<And>j. j < n \<Longrightarrow> bit (phys m (cell 0 (d + j))) 0 \<Longrightarrow> from_ok nr m (d + j)"
    and "d + n \<le> 1024" and "nr \<le> 1024"
  shows "(\<Sum>j<n. from_refs nr (phys m) i (d + j)) \<le> acct (phys m) i"
proof -
  let ?f = "\<lambda>x. from_refs nr (phys m) i x"
  have le: "?f (d + j) \<le> (if 4 \<le> d + j then dir_refs (phys m) i (d + j) else 0)" if "j < n" for j
  proof (cases "bit (phys m (cell 0 (d + j))) 0")
    case True
    have "(\<Sum>k<nr. pte_ref (phys m (cell t k)) i) \<le> table_refs (phys m) t i" for t
      unfolding table_refs_def by (rule sum_mono2) (use assms(3) in auto)
    then show ?thesis
      using True assms(1) [OF that True]
      by (auto simp: from_refs_def dir_refs_def Let_def trans_le_add2 from_ok_def pte_ref_def)
  qed (simp add: from_refs_def)
  have "(\<Sum>j<n. ?f (d + j)) \<le> (\<Sum>j<n. if 4 \<le> d + j then dir_refs (phys m) i (d + j) else 0)"
    by (rule sum_mono) (use le in simp)
  also have "\<dots> = (\<Sum>x\<in>{d..<d + n}. if 4 \<le> x then dir_refs (phys m) i x else 0)"
    by (rule sum.reindex_bij_witness [of _ "\<lambda>x. x - d" "\<lambda>j. d + j"]) auto
  also have "\<dots> = (\<Sum>x\<in>{x\<in>{d..<d + n}. 4 \<le> x}. dir_refs (phys m) i x)"
    by (rule sum.inter_filter [symmetric]) simp
  also have "\<dots> \<le> acct (phys m) i"
    unfolding acct_def by (rule sum_mono2) (use assms(2) in auto)
  finally show ?thesis .
qed

lemma copy_page_tables_spec:
  assumes inv: "mm_inv ext m" and req: "copy_request frm to sz m"
    and few: "\<forall>i<PAGING_PAGES. mem_map m i < 128"
  shows "total (copy_page_tables frm to sz m) (\<lambda>r m'. mm_inv ext m' \<and> high_memory m' = high_memory m \<and>
     others_same (dir_count sz) (dir_index frm) (dir_index to) m m' \<and>
     (r = 0 \<and> copied (pages_per_table frm) (dir_count sz) (dir_index frm) (dir_index to) m m' \<or>
      r = - 1 \<and> (\<forall>i<PAGING_PAGES. mem_map m' i \<noteq> 0)))"
proof -
  have "unat (mem_map m i) + (\<Sum>j<dir_count sz. from_refs (pages_per_table frm) (phys m) i (dir_index frm + j)) < 256"
    if i: "i < PAGING_PAGES" for i
  proof -
    have "(\<Sum>j<dir_count sz. from_refs (pages_per_table frm) (phys m) i (dir_index frm + j)) \<le> acct (phys m) i"
      by (rule sum_from_refs_le) (use req in \<open>auto simp: copy_request_def pages_per_table_def\<close>)
    also have "\<dots> \<le> unat (mem_map m i)" using mm_invD(3) [OF inv i] by simp
    finally have "(\<Sum>j<dir_count sz. from_refs (pages_per_table frm) (phys m) i (dir_index frm + j))
      \<le> unat (mem_map m i)" .
    moreover have "unat (mem_map m i) < 128" using few i by (simp add: word_less_nat_alt)
    ultimately show ?thesis by linarith
  qed
  then show ?thesis
    using copy_dirs_spec [OF inv, of "dir_index frm" "dir_count sz" "dir_index to" "pages_per_table frm"] req
    unfolding copy_page_tables_def pde_addr_index dir_count_def [symmetric] pages_per_table_def [symmetric]
    by (simp add: copy_request_def) (simp add: pages_per_table_def)
qed

text \<open>
  C5. Reference counts survive \<open>fork\<close>: \<open>copy_page_tables\<close> on a valid request returns
  0 or -1 without panicking, \<open>mem_map\<close> still holds the exact number of references to
  every page afterwards (also when it runs out of memory half way), -1 only comes back
  when no page is free, and directory entries outside the two ranges are untouched.
\<close>

theorem copy_page_tables_counts:
  assumes "mm_inv ext m" and "copy_request frm to sz m" and "\<forall>i<PAGING_PAGES. mem_map m i < 128"
  shows "total (copy_page_tables frm to sz m) (\<lambda>r m'. mm_inv ext m' \<and> (r = 0 \<or> r = - 1) \<and>
    (r = - 1 \<longrightarrow> (\<forall>i<PAGING_PAGES. mem_map m' i \<noteq> 0)) \<and>
    others_same (dir_count sz) (dir_index frm) (dir_index to) m m')"
  by (rule total_mono [OF copy_page_tables_spec [OF assms]]) auto

lemma user_few: "\<forall>i<PAGING_PAGES. mem_map user_mm i < 128"
  by (simp add: user_mm(5)) (auto simp: boot_mm_def USED_def word_less_nat_alt)

lemma user_request: "copy_request 0x4000000 0x8000000 0x400000 user_mm"
proof -
  have d: "dir_index 0x4000000 = 16" "dir_index 0x8000000 = 32" "dir_count 0x400000 = 1"
    by (simp_all add: dir_index_def dir_count_def drop_bit_eq_div unat_div)
  have "bit (phys user_mm (cell 0 16)) 0"
    using present_or7 [of "page_addr 3839"] by (simp only: user_mm(2))
  then have "from_ok 1024 user_mm 16"
    using from_ok_user [OF user_mm(1), of 16 1024] by simp
  then show ?thesis
    using user_mm(4) [of 32] by (simp add: copy_request_def d pages_per_table_def)
qed

theorem copy_page_tables_counts_witness:
  "total (copy_page_tables 0x4000000 0x8000000 0x400000 user_mm) (\<lambda>r m'.
    mm_inv (reserved 768 3840) m' \<and> (r = 0 \<or> r = - 1) \<and>
    (r = - 1 \<longrightarrow> (\<forall>i<PAGING_PAGES. mem_map m' i \<noteq> 0)) \<and>
    others_same (dir_count 0x400000) (dir_index 0x4000000) (dir_index 0x8000000) user_mm m')"
  by (rule copy_page_tables_counts [OF user_mm(1) user_request user_few])

text \<open>
  C6. Copy-on-write at \<open>fork\<close>: when \<open>copy_page_tables\<close> returns 0, every page table
  entry of the child is the parent's entry without the write permission, so both see
  the same pages, and the parent has lost its write permission to every page above 1 MB
  (for the kernel's first \<open>fork\<close> only the first 160 entries are copied).
\<close>

theorem copy_page_tables_cow:
  assumes "mm_inv ext m" and "copy_request frm to sz m" and "\<forall>i<PAGING_PAGES. mem_map m i < 128"
  shows "total (copy_page_tables frm to sz m) (\<lambda>r m'. r = 0 \<longrightarrow>
    (\<forall>j<dir_count sz. \<forall>k<1024.
       let e = pte m (dir_index frm + j) k; parent = pte m' (dir_index frm + j) k;
           child = pte m' (dir_index to + j) k
       in if k < pages_per_table frm \<and> bit e 0
          then child = write_protect e \<and> \<not> bit child 1 \<and> frame child = frame e \<and>
               parent = (if 256 \<le> frame e then write_protect e else e)
          else child = 0 \<and> parent = e))"
proof (rule total_mono [OF copy_page_tables_spec [OF assms]])
  fix r :: u32 and m'
  assume *: "mm_inv ext m' \<and> high_memory m' = high_memory m \<and>
     others_same (dir_count sz) (dir_index frm) (dir_index to) m m' \<and>
     (r = 0 \<and> copied (pages_per_table frm) (dir_count sz) (dir_index frm) (dir_index to) m m' \<or>
      r = - 1 \<and> (\<forall>i<PAGING_PAGES. mem_map m' i \<noteq> 0))"
  show "r = 0 \<longrightarrow> (\<forall>j<dir_count sz. \<forall>k<1024.
       let e = pte m (dir_index frm + j) k; parent = pte m' (dir_index frm + j) k;
           child = pte m' (dir_index to + j) k
       in if k < pages_per_table frm \<and> bit e 0
          then child = write_protect e \<and> \<not> bit child 1 \<and> frame child = frame e \<and>
               parent = (if 256 \<le> frame e then write_protect e else e)
          else child = 0 \<and> parent = e)"
  proof
    assume "r = 0"
    moreover have "(0 :: u32) \<noteq> - 1" by simp
    ultimately have "copied (pages_per_table frm) (dir_count sz) (dir_index frm) (dir_index to) m m'"
      using * by metis
    then show "\<forall>j<dir_count sz. \<forall>k<1024.
       let e = pte m (dir_index frm + j) k; parent = pte m' (dir_index frm + j) k;
           child = pte m' (dir_index to + j) k
       in if k < pages_per_table frm \<and> bit e 0
          then child = write_protect e \<and> \<not> bit child 1 \<and> frame child = frame e \<and>
               parent = (if 256 \<le> frame e then write_protect e else e)
          else child = 0 \<and> parent = e"
      by (auto simp: copied_def child_pte_def parent_pte_def Let_def bit_write_protect)
  qed
qed

theorem copy_page_tables_cow_witness:
  "total (copy_page_tables 0x4000000 0x8000000 0x400000 user_mm) (\<lambda>r m'. r = 0 \<longrightarrow>
    (\<forall>j<dir_count 0x400000. \<forall>k<1024.
       let e = pte user_mm (dir_index 0x4000000 + j) k; parent = pte m' (dir_index 0x4000000 + j) k;
           child = pte m' (dir_index 0x8000000 + j) k
       in if k < pages_per_table 0x4000000 \<and> bit e 0
          then child = write_protect e \<and> \<not> bit child 1 \<and> frame child = frame e \<and>
               parent = (if 256 \<le> frame e then write_protect e else e)
          else child = 0 \<and> parent = e))"
  by (rule copy_page_tables_cow [OF user_mm(1) user_request user_few])

text \<open>
  C24. \<open>free_page_tables\<close> on an aligned user range never panics (no page in use is
  counted 0): it removes every directory entry of the range, leaves all others
  alone, and \<open>mem_map\<close> again holds the exact number of references.
\<close>

theorem free_page_tables_correct:
  assumes inv: "mm_inv ext m" and al: "frm AND 0x3fffff = 0" and d4: "4 \<le> dir_index frm"
    and n: "dir_index frm + dir_count sz \<le> 1024"
  shows "total (free_page_tables frm sz m) (\<lambda>r m'. r = 0 \<and> mm_inv ext m' \<and>
    (\<forall>j. dir_index frm \<le> j \<longrightarrow> j < dir_index frm + dir_count sz \<longrightarrow> \<not> bit (phys m' (cell 0 j)) 0) \<and>
    (\<forall>j<1024. j < dir_index frm \<or> dir_index frm + dir_count sz \<le> j \<longrightarrow> same_dir m m' j))"
proof -
  have "frm \<noteq> 0" using d4 by (auto simp: dir_index_def)
  then show ?thesis
    using al total_mono [OF free_dirs_spec [OF inv d4 n]]
    unfolding free_page_tables_def pde_addr_index dir_count_def [symmetric] by simp
qed

theorem free_page_tables_correct_witness:
  "total (free_page_tables 0x4000000 0x400000 user_mm) (\<lambda>r m'. r = 0 \<and> mm_inv (reserved 768 3840) m' \<and>
    (\<forall>j. dir_index 0x4000000 \<le> j \<longrightarrow> j < dir_index 0x4000000 + dir_count 0x400000 \<longrightarrow>
       \<not> bit (phys m' (cell 0 j)) 0) \<and>
    (\<forall>j<1024. j < dir_index 0x4000000 \<or> dir_index 0x4000000 + dir_count 0x400000 \<le> j \<longrightarrow>
       same_dir user_mm m' j))"
  by (rule free_page_tables_correct [OF user_mm(1)])
    (simp_all add: dir_index_def dir_count_def drop_bit_eq_div unat_div)

section \<open>Page faults\<close>

text \<open>
  C25. A write fault on a present user page ends, if a page is free, with an entry that
  is present and writable and points to a page nobody else uses, whose contents are
  those of the page before; the reference counts stay exact.
\<close>

theorem do_wp_page_private:
  assumes inv: "mm_inv ext m" and d4: "4 \<le> dir_index a"
    and pr: "bit (phys m (cell 0 (dir_index a))) 0"
    and e: "bit (pte m (dir_index a) (table_index a)) 0"
    and own: "frame (pte m (dir_index a) (table_index a)) \<noteq> frame (phys m (cell 0 (dir_index a)))"
    and free: "\<exists>i<PAGING_PAGES. mem_map m i = 0"
  shows "total (do_wp_page code a m) (\<lambda>_ m'. let e = pte m (dir_index a) (table_index a);
       e' = pte m' (dir_index a) (table_index a) in
     mm_inv ext m' \<and> bit e' 0 \<and> bit e' 1 \<and>
     256 \<le> frame e' \<and> mem_map m' (frame e' - 256) = 1 \<and>
     (\<forall>j<1024. phys m' (cell (tbl e') j) = phys m (cell (tbl e) j)))"
proof -
  have p: "pte m (dir_index a) (table_index a)
      = phys m (cell (tbl (phys m (cell 0 (dir_index a)))) (table_index a))"
    using pr by (simp add: pte_def)
  show ?thesis
    unfolding do_wp_page_def pde_addr_index pte_of_cell Let_def
    using un_wp_page_total [OF inv d4 dir_index_less pr table_index_less free] e own
    unfolding p by simp
qed

lemma user_index: "dir_index 0x4000000 = 16" "table_index 0x4000000 = 0" "table_index 0x4001000 = 1"
  "dir_index 0x4001000 = 16"
  by (simp_all add: dir_index_def table_index_def drop_bit_eq_div unat_div)

lemma user_free: "\<exists>i<PAGING_PAGES. mem_map user_mm i = 0"
  by (rule exI [of _ 3000]) (simp add: user_mm(5) boot_mm_def PAGING_PAGES_def)

lemma user_dir: "bit (phys user_mm (cell 0 16)) 0" "frame (phys user_mm (cell 0 16)) = 4095"
  "bit (pte user_mm 16 0) 0" "frame (pte user_mm 16 0) = 4094"
proof -
  show "bit (phys user_mm (cell 0 16)) 0" "bit (pte user_mm 16 0) 0"
    using present_or7 by (simp_all only: user_mm(2,3))
  show "frame (phys user_mm (cell 0 16)) = 4095" "frame (pte user_mm 16 0) = 4094"
    unfolding user_mm(2,3) by (simp_all add: frame_page_addr PAGING_PAGES_def)
qed

theorem do_wp_page_private_witness:
  "total (do_wp_page 7 0x4000000 user_mm) (\<lambda>_ m'.
     let e = pte user_mm (dir_index 0x4000000) (table_index 0x4000000);
       e' = pte m' (dir_index 0x4000000) (table_index 0x4000000) in
     mm_inv (reserved 768 3840) m' \<and> bit e' 0 \<and> bit e' 1 \<and>
     256 \<le> frame e' \<and> mem_map m' (frame e' - 256) = 1 \<and>
     (\<forall>j<1024. phys m' (cell (tbl e') j) = phys user_mm (cell (tbl e) j)))"
  by (rule do_wp_page_private [OF user_mm(1)])
    (use user_dir user_free in \<open>simp_all add: user_index\<close>)

end
