(* ===== verification/Mktime.thy ===== *)
theory Mktime
  imports Prelude
begin

text \<open>
  \<open>kernel/mktime.c\<close>: seconds since 1970 from a broken-down time. \<open>kernel_mktime\<close> is
  compared with a day count that adds up the lengths of the years and months by the
  Gregorian rule.
\<close>

section \<open>The code\<close>

record tm =
  tm_sec :: u32
  tm_min :: u32
  tm_hour :: u32
  tm_mday :: u32
  tm_mon :: u32
  tm_year :: u32
  tm_wday :: u32
  tm_yday :: u32
  tm_isdst :: u32

definition MINUTE :: u32 where "MINUTE = 60"
definition HOUR :: u32 where "HOUR = 60 * MINUTE"
definition DAY :: u32 where "DAY = 24 * HOUR"
definition YEAR :: u32 where "YEAR = 365 * DAY"

definition month :: "u32 list" where
  "month = [0, DAY * 31, DAY * (31 + 29), DAY * (31 + 29 + 31), DAY * (31 + 29 + 31 + 30),
     DAY * (31 + 29 + 31 + 30 + 31), DAY * (31 + 29 + 31 + 30 + 31 + 30),
     DAY * (31 + 29 + 31 + 30 + 31 + 30 + 31), DAY * (31 + 29 + 31 + 30 + 31 + 30 + 31 + 31),
     DAY * (31 + 29 + 31 + 30 + 31 + 30 + 31 + 31 + 30),
     DAY * (31 + 29 + 31 + 30 + 31 + 30 + 31 + 31 + 30 + 31),
     DAY * (31 + 29 + 31 + 30 + 31 + 30 + 31 + 31 + 30 + 31 + 30)]"

definition kernel_mktime :: "tm \<Rightarrow> (u32, unit) outcome" where
  "kernel_mktime tm =
     (let year = tm_year tm - 70; res = YEAR * year + DAY * cdiv (year + 1) 4 in
      if slt (tm_mon tm) 0 then Fault else
      at month (unat (tm_mon tm)) (\<lambda>before.
        let res = res + before;
            res = (if slt 1 (tm_mon tm) \<and> tst (cmod (year + 2) 4) then res - DAY else res);
            res = res + DAY * (tm_mday tm - 1);
            res = res + HOUR * tm_hour tm;
            res = res + MINUTE * tm_min tm;
            res = res + tm_sec tm
        in Ret res ()))"

section \<open>The calendar\<close>

definition leap :: "nat \<Rightarrow> bool" where
  "leap y \<longleftrightarrow> 4 dvd y \<and> (100 dvd y \<longrightarrow> 400 dvd y)"

definition year_days :: "nat \<Rightarrow> nat" where
  "year_days y = (if leap y then 366 else 365)"

definition month_days :: "nat \<Rightarrow> nat \<Rightarrow> nat" where
  "month_days y m = (if m = 1 then (if leap y then 29 else 28)
     else if m \<in> {3, 5, 8, 10} then 30 else 31)"

text \<open>Days from 1 January 1970 to day \<open>d\<close> of month \<open>m\<close> (0 to 11) of year \<open>y\<close>.\<close>

definition days_since_epoch :: "nat \<Rightarrow> nat \<Rightarrow> nat \<Rightarrow> nat" where
  "days_since_epoch y m d = (\<Sum>k\<in>{1970..<y}. year_days k) + (\<Sum>k<m. month_days y k) + (d - 1)"

definition epoch_seconds :: "nat \<Rightarrow> nat \<Rightarrow> nat \<Rightarrow> nat \<Rightarrow> nat \<Rightarrow> nat \<Rightarrow> nat" where
  "epoch_seconds y m d h mi s = ((days_since_epoch y m d * 24 + h) * 60 + mi) * 60 + s"

text \<open>The broken-down time the kernel gets from the CMOS clock: \<open>tm_year\<close> counts from 1900.\<close>

definition broken_down :: "nat \<Rightarrow> nat \<Rightarrow> nat \<Rightarrow> nat \<Rightarrow> nat \<Rightarrow> nat \<Rightarrow> tm" where
  "broken_down y m d h mi s = \<lparr>tm_sec = of_nat s, tm_min = of_nat mi, tm_hour = of_nat h,
     tm_mday = of_nat d, tm_mon = of_nat m, tm_year = of_nat (y - 1900),
     tm_wday = 0, tm_yday = 0, tm_isdst = 0\<rparr>"

definition valid_time :: "nat \<Rightarrow> nat \<Rightarrow> nat \<Rightarrow> nat \<Rightarrow> nat \<Rightarrow> nat \<Rightarrow> bool" where
  "valid_time y m d h mi s \<longleftrightarrow> 1970 \<le> y \<and> y < 2038 \<and> m < 12 \<and> 1 \<le> d \<and> d \<le> month_days y m \<and>
     h < 24 \<and> mi < 60 \<and> s < 60"

section \<open>The code computes the calendar\<close>

lemma leap_1970:
  assumes "n < 130"
  shows "leap (1970 + n) \<longleftrightarrow> (n + 2) mod 4 = 0"
proof -
  have "400 dvd (1970 + n)" if dvd: "100 dvd (1970 + n)"
  proof -
    obtain k where k: "1970 + n = 100 * k" using dvd unfolding dvd_def by blast
    from this assms have "k = 20" by linarith
    then show ?thesis using k by simp
  qed
  moreover have "4 dvd (1970 + n) \<longleftrightarrow> (n + 2) mod 4 = 0"
    by presburger
  ultimately show ?thesis unfolding leap_def by (cases "100 dvd (1970 + n)") simp_all
qed

lemma years_before: "n < 130 \<Longrightarrow> (\<Sum>k\<in>{1970..<1970 + n}. year_days k) = 365 * n + (n + 1) div 4"
proof (induction n)
  case (Suc n)
  have "(\<Sum>k\<in>{1970..<1970 + Suc n}. year_days k) =
      (\<Sum>k\<in>{1970..<1970 + n}. year_days k) + year_days (1970 + n)"
    using sum.atLeastLessThan_Suc [of 1970 "1970 + n" year_days] by simp
  then show ?case
    using Suc leap_1970 [of n] by (auto simp: year_days_def) presburger+
qed simp

definition leap_months :: "nat list" where
  "leap_months = [0, 31, 60, 91, 121, 152, 182, 213, 244, 274, 305, 335]"

lemma less_12: "m < (12 :: nat) \<longleftrightarrow> m \<in> {0, 1, 2, 3, 4, 5, 6, 7, 8, 9, 10, 11}"
  by (simp, presburger)

lemma months_before:
  assumes "m < 12"
  shows "(\<Sum>k<m. month_days y k) = leap_months ! m - (if 1 < m \<and> \<not> leap y then 1 else 0)"
  using assms unfolding less_12
  by (elim insertE emptyE) (simp_all add: leap_months_def month_days_def eval_nat_numeral)

lemma month_eq: "m < 12 \<Longrightarrow> month ! m = of_nat (86400 * leap_months ! m)"
  unfolding less_12
  by (elim insertE emptyE) (simp_all add: month_def leap_months_def DAY_def HOUR_def MINUTE_def)

lemma leap_months_pos: "m < 12 \<Longrightarrow> 1 < m \<Longrightarrow> 1 \<le> leap_months ! m"
  unfolding less_12 by (elim insertE emptyE) (simp_all add: leap_months_def)

lemma leap_months_le: "m < 12 \<Longrightarrow> leap_months ! m \<le> 335"
  unfolding less_12 by (elim insertE emptyE) (simp_all add: leap_months_def)

lemma cdiv_of_nat: "n < 2 ^ 31 \<Longrightarrow> cdiv (of_nat n) 4 = of_nat (n div 4)"
  using of_int_of_nat_eq [where ?'a = u32, of "n div 4"]
  by (cases "n = 0") (simp_all add: cdiv_def sint_of_nat signed_divide_int_def of_nat_div)

lemma cmod_of_nat: "n < 2 ^ 31 \<Longrightarrow> cmod (of_nat n) 4 = of_nat (n mod 4)"
  using of_int_of_nat_eq [where ?'a = u32, of "n mod 4"]
  by (simp add: cmod_def sint_of_nat signed_modulo_int_def signed_divide_int_def of_nat_mod)

text \<open>
  C33. \<open>kernel_mktime\<close>, given a valid date and time from 1970 to 2037, is the number of
  seconds since the epoch by the Gregorian calendar, and no 32-bit overflow occurs.
\<close>

theorem mktime_correct:
  assumes "valid_time y m d h mi s"
  shows "kernel_mktime (broken_down y m d h mi s) = Ret (of_nat (epoch_seconds y m d h mi s)) () \<and>
    epoch_seconds y m d h mi s < 2 ^ 31"
proof -
  define n where "n = y - 1970"
  have y: "y = 1970 + n" "n < 68" and m: "m < 12" and d: "1 \<le> d" "d \<le> 31" and t: "h < 24" "mi < 60" "s < 60"
    using assms by (auto simp: n_def valid_time_def month_days_def split: if_splits)
  define adj where "adj = (if 1 < m \<and> (n + 2) mod 4 \<noteq> 0 then 1 else 0 :: nat)"
  have days: "days_since_epoch y m d = 365 * n + (n + 1) div 4 + (leap_months ! m - adj) + (d - 1)"
    using y(2) leap_1970 [of n] by (simp add: days_since_epoch_def y(1) years_before months_before m adj_def)
  have adj: "adj \<le> leap_months ! m" "leap_months ! m \<le> 335"
    using leap_months_pos [OF m] leap_months_le [OF m] by (auto simp: adj_def)
  define a where "a = 31536000 * n + 86400 * ((n + 1) div 4) + 86400 * leap_months ! m
    + 86400 * (d - 1) + 3600 * h + 60 * mi + s"
  have a: "epoch_seconds y m d h mi s + 86400 * adj = a"
    using adj(1) by (simp add: epoch_seconds_def days a_def algebra_simps)
  have "(n + 1) div 4 \<le> 17" using y(2) by linarith
  moreover have "d - 1 \<le> 30" using d by linarith
  ultimately have "epoch_seconds y m d h mi s \<le> 2146003199"
    using a y(2) adj(2) t unfolding a_def by linarith
  then have "epoch_seconds y m d h mi s < 2 ^ 31" by simp
  moreover have "of_nat (epoch_seconds y m d h mi s) = of_nat a - 86400 * (of_nat adj :: u32)"
    using arg_cong [OF a, of "of_nat :: nat \<Rightarrow> u32"] by (simp add: eq_diff_eq)
  moreover have "kernel_mktime (broken_down y m d h mi s) = Ret (of_nat a - 86400 * of_nat adj) ()"
  proof -
    have 1: "of_nat (y - 1900) - 70 = (of_nat n :: u32)"
      by (simp add: y(1) of_nat_diff)
    have 2: "sint (of_nat m :: u32) = int m" "unat (of_nat m :: u32) = m"
      using m by (simp_all add: sint_of_nat unsigned_of_nat take_bit_nat_eq_self)
    have 3: "cdiv (of_nat n + 1) 4 = of_nat ((n + 1) div 4)"
      "cmod (of_nat n + 2) 4 = of_nat ((n + 2) mod 4)"
      using cdiv_of_nat [of "n + 1"] cmod_of_nat [of "n + 2"] y(2) by (simp_all add: add.commute)
    have "(of_nat r :: u32) = 0 \<longleftrightarrow> r = 0" if "r < 4" for r
      using that by (auto simp: word_of_nat_eq_0_iff dest: dvd_imp_le)
    then have 4: "(of_nat ((n + 2) mod 4) :: u32) = 0 \<longleftrightarrow> (n + 2) mod 4 = 0"
      by simp
    have 5: "length month = 12" "of_nat d - 1 = (of_nat (d - 1) :: u32)"
      using d(1) by (simp_all add: month_def of_nat_diff)
    show ?thesis
      unfolding kernel_mktime_def broken_down_def
      by (simp only: tm.simps 1 2 3 4 5 Let_def slt_def at_simps(1) [of m month] month_eq [OF m] m tst_iff)
        (simp add: adj_def a_def YEAR_def DAY_def HOUR_def MINUTE_def)
  qed
  ultimately show ?thesis by simp
qed

theorem mktime_correct_witness:
  "kernel_mktime (broken_down 2000 1 29 12 30 15) = Ret (of_nat (epoch_seconds 2000 1 29 12 30 15)) () \<and>
    epoch_seconds 2000 1 29 12 30 15 < 2 ^ 31"
  by (rule mktime_correct) (simp add: valid_time_def month_days_def leap_def)

end
