(* ===== verification/Vsprintf.thy ===== *)
theory Vsprintf
  imports Prelude
begin

text \<open>
  \<open>kernel/vsprintf.c\<close>: the formatter behind \<open>printk\<close>. A format is the list of
  characters before the terminating NUL; the output is the list of characters
  written to the buffer. An argument is a number or a string: reading the one where
  the caller passed the other has no meaning in C.
\<close>

section \<open>Digits and padding\<close>

definition is_digit :: "char \<Rightarrow> bool" where
  "is_digit c \<longleftrightarrow> 48 \<le> (of_char c :: nat) \<and> (of_char c :: nat) \<le> 57"

fun skip_atoi_from :: "u32 \<Rightarrow> string \<Rightarrow> u32 \<times> string" where
  "skip_atoi_from i [] = (i, [])"
| "skip_atoi_from i (c # s) =
     (if is_digit c then skip_atoi_from (i * 10 + of_char c - 48) s else (i, c # s))"

definition skip_atoi :: "string \<Rightarrow> u32 \<times> string" where
  "skip_atoi s = skip_atoi_from 0 s"

definition ZEROPAD :: u32 where "ZEROPAD = 1"
definition SIGN :: u32 where "SIGN = 2"
definition PLUS :: u32 where "PLUS = 4"
definition SPACE :: u32 where "SPACE = 8"
definition LEFT :: u32 where "LEFT = 16"
definition SPECIAL :: u32 where "SPECIAL = 32"
definition SMALL :: u32 where "SMALL = 64"

definition digits :: "u32 \<Rightarrow> string" where
  "digits type = (if tst (type AND SMALL) then ''0123456789abcdefghijklmnopqrstuvwxyz''
     else ''0123456789ABCDEFGHIJKLMNOPQRSTUVWXYZ'')"

text \<open>\<open>while (num!=0) tmp[i++] = digits[do_div(num,base)]\<close>: least significant digit first.\<close>

function digit_loop :: "string \<Rightarrow> nat \<Rightarrow> nat \<Rightarrow> string" where
  "digit_loop ds b n = (if n = 0 \<or> b < 2 then [] else (ds ! (n mod b)) # digit_loop ds b (n div b))"
  by auto
termination by (relation "measure (\<lambda>(_, _, n). n)") auto

declare digit_loop.simps [simp del]

text \<open>
  \<open>while (w-- > 0) *str++ = c\<close>: the characters written, and \<open>w\<close> after the loop.
\<close>

definition pad :: "u32 \<Rightarrow> char \<Rightarrow> string" where
  "pad w c = replicate (nat (sint w)) c"

definition after_pad :: "u32 \<Rightarrow> u32" where
  "after_pad w = (if slt 0 w then - 1 else w - 1)"

text \<open>
  The second half of \<open>number\<close>: writing the padding, the sign, the prefix and the digits
  \<open>tmp\<close> (least significant first) once their room is known.
\<close>

definition emit_number :: "string \<Rightarrow> u32 \<Rightarrow> u32 \<Rightarrow> string \<Rightarrow> string \<Rightarrow> u32 \<Rightarrow> u32 \<Rightarrow> string" where
  "emit_number ds type bas sign tmp sz precision =
    (let i = of_nat (length tmp);
         c = (if tst (type AND ZEROPAD) then CHR ''0'' else CHR '' '');
         precision = (if slt precision i then i else precision);
         sz = sz - precision;
         spaces = (if \<not> tst (type AND (ZEROPAD + LEFT)) then pad sz CHR '' '' else []);
         sz = (if \<not> tst (type AND (ZEROPAD + LEFT)) then after_pad sz else sz);
         prefix = (if tst (type AND SPECIAL)
                   then (if bas = 8 then ''0'' else if bas = 16 then ''0'' @ [ds ! 33] else [])
                   else []);
         fill = (if \<not> tst (type AND LEFT) then pad sz c else []);
         sz = (if \<not> tst (type AND LEFT) then after_pad sz else sz);
         zeros = pad (precision - i) CHR ''0''
     in spaces @ sign @ prefix @ fill @ zeros @ rev tmp @ pad sz CHR '' '')"

definition number :: "u32 \<Rightarrow> u32 \<Rightarrow> u32 \<Rightarrow> u32 \<Rightarrow> u32 \<Rightarrow> string option" where
  "number num bas sz precision type =
    (let ds = digits type;
         type = (if tst (type AND LEFT) then type AND NOT ZEROPAD else type) in
     if slt bas 2 \<or> slt 36 bas then None else
     let neg = (tst (type AND SIGN) \<and> slt num 0);
         num = (if neg then - num else num);
         sign = (if neg then ''-'' else if tst (type AND PLUS) then ''+''
                 else if tst (type AND SPACE) then '' '' else []);
         sz = (if sign \<noteq> [] then sz - 1 else sz);
         sz = (if tst (type AND SPECIAL)
               then (if bas = 16 then sz - 2 else if bas = 8 then sz - 1 else sz) else sz);
         tmp = (if num = 0 then ''0'' else digit_loop ds (unat bas) (unat num))
     in Some (emit_number ds type bas sign tmp sz precision))"

section \<open>The format loop\<close>

datatype arg = Num u32 | Str string

text \<open>The flags after a \<open>%\<close>: the \<open>repeat\<close> loop.\<close>

fun flag_loop :: "u32 \<Rightarrow> string \<Rightarrow> u32 \<times> string" where
  "flag_loop flags [] = (flags, [])"
| "flag_loop flags (f # fmt) =
     (if f = CHR ''-'' then flag_loop (flags OR LEFT) fmt
      else if f = CHR ''+'' then flag_loop (flags OR PLUS) fmt
      else if f = CHR '' '' then flag_loop (flags OR SPACE) fmt
      else if f = CHR ''#'' then flag_loop (flags OR SPECIAL) fmt
      else if f = CHR ''0'' then flag_loop (flags OR ZEROPAD) fmt
      else (flags, f # fmt))"

definition va_int :: "arg list \<Rightarrow> (u32 \<times> arg list) option" where
  "va_int args = (case args of Num n # rest \<Rightarrow> Some (n, rest) | _ \<Rightarrow> None)"

definition va_str :: "arg list \<Rightarrow> (string \<times> arg list) option" where
  "va_str args = (case args of Str s # rest \<Rightarrow> Some (s, rest) | _ \<Rightarrow> None)"

text \<open>
  The field width. After \<open>*\<close> the format pointer stays on the \<open>*\<close>, as in the code.
\<close>

definition field_width :: "u32 \<Rightarrow> string \<Rightarrow> arg list \<Rightarrow> (u32 \<times> u32 \<times> string \<times> arg list) option" where
  "field_width flags fmt args =
    (case fmt of
       f # _ \<Rightarrow>
         if is_digit f then (let (w, fmt) = skip_atoi fmt in Some (flags, w, fmt, args))
         else if f = CHR ''*''
         then (case va_int args of None \<Rightarrow> None
               | Some (w, args) \<Rightarrow>
                   if slt w 0 then Some (flags OR LEFT, - w, fmt, args) else Some (flags, w, fmt, args))
         else Some (flags, - 1, fmt, args)
     | [] \<Rightarrow> Some (flags, - 1, fmt, args))"

definition get_precision :: "string \<Rightarrow> arg list \<Rightarrow> (u32 \<times> string \<times> arg list) option" where
  "get_precision fmt args =
    (case fmt of
       f # fmt' \<Rightarrow>
         if f \<noteq> CHR ''.'' then Some (- 1, fmt, args)
         else map_option (\<lambda>(p, fmt, args). (if slt p 0 then 0 else p, fmt, args))
           (case fmt' of
              d # _ \<Rightarrow>
                if is_digit d then (let (p, fmt) = skip_atoi fmt' in Some (p, fmt, args))
                else if d = CHR ''*''
                then map_option (\<lambda>(p, args). (p, fmt', args)) (va_int args)
                else Some (- 1, fmt', args)
            | [] \<Rightarrow> Some (- 1, fmt', args))
     | [] \<Rightarrow> Some (- 1, fmt, args))"

definition skip_qualifier :: "string \<Rightarrow> string" where
  "skip_qualifier fmt = (case fmt of
       q # fmt' \<Rightarrow> if q = CHR ''h'' \<or> q = CHR ''l'' \<or> q = CHR ''L'' then fmt' else fmt
     | [] \<Rightarrow> fmt)"

text \<open>\<open>case 'c'\<close>: both loops are \<open>while (--field_width > 0)\<close>.\<close>

definition conv_char :: "u32 \<Rightarrow> u32 \<Rightarrow> u32 \<Rightarrow> string" where
  "conv_char flags width c =
    (let lead = (if tst (flags AND LEFT) then [] else pad (width - 1) CHR '' '');
         width = (if tst (flags AND LEFT) then width
                  else if slt 0 (width - 1) then 0 else width - 1)
     in lead @ [char_of (unat c mod 256)] @ pad (width - 1) CHR '' '')"

text \<open>\<open>case 's'\<close>: both padding loops are \<open>while (len < field_width--)\<close>.\<close>

definition pad_from :: "u32 \<Rightarrow> u32 \<Rightarrow> string" where
  "pad_from len width = replicate (nat (sint width - sint len)) CHR '' ''"

definition conv_string :: "u32 \<Rightarrow> u32 \<Rightarrow> u32 \<Rightarrow> string \<Rightarrow> string" where
  "conv_string flags width precision s =
    (let len = of_nat (length s);
         len = (if slt precision 0 then len else if slt precision len then precision else len);
         lead = (if tst (flags AND LEFT) then [] else pad_from len width);
         width = (if tst (flags AND LEFT) then width
                  else if slt len width then len - 1 else width - 1)
     in lead @ take (nat (sint len)) s @ pad_from len width)"

text \<open>
  The conversion: the characters written, the value stored through the pointer of
  \<open>%n\<close>, the rest of the format after the conversion character, and the arguments left.
\<close>

record conversion =
  written :: string
  stored :: "(u32 \<times> u32) list"
  rest_fmt :: string
  rest_args :: "arg list"

definition conv_number :: "u32 \<Rightarrow> u32 \<Rightarrow> u32 \<Rightarrow> u32 \<Rightarrow> string \<Rightarrow> arg list \<Rightarrow> conversion option" where
  "conv_number bas flags width precision fmt args =
    (case va_int args of None \<Rightarrow> None
     | Some (n, args) \<Rightarrow> (case number n bas width precision flags of None \<Rightarrow> None
        | Some out \<Rightarrow> Some \<lparr>written = out, stored = [], rest_fmt = fmt, rest_args = args\<rparr>))"

definition convert :: "nat \<Rightarrow> u32 \<Rightarrow> u32 \<Rightarrow> u32 \<Rightarrow> string \<Rightarrow> arg list \<Rightarrow> conversion option" where
  "convert pos flags width precision fmt args = (case fmt of
     [] \<Rightarrow> Some \<lparr>written = ''%'', stored = [], rest_fmt = [], rest_args = args\<rparr>
   | f # fmt \<Rightarrow>
      if f = CHR ''c'' then
        (case va_int args of None \<Rightarrow> None
         | Some (n, args) \<Rightarrow> Some \<lparr>written = conv_char flags width n, stored = [], rest_fmt = fmt,
             rest_args = args\<rparr>)
      else if f = CHR ''s'' then
        (case va_str args of None \<Rightarrow> None
         | Some (s, args) \<Rightarrow> Some \<lparr>written = conv_string flags width precision s, stored = [],
             rest_fmt = fmt, rest_args = args\<rparr>)
      else if f = CHR ''o'' then conv_number 8 flags width precision fmt args
      else if f = CHR ''p'' then
        (if width = - 1 then conv_number 16 (flags OR ZEROPAD) 8 precision fmt args
         else conv_number 16 flags width precision fmt args)
      else if f = CHR ''x'' then conv_number 16 (flags OR SMALL) width precision fmt args
      else if f = CHR ''X'' then conv_number 16 flags width precision fmt args
      else if f = CHR ''d'' \<or> f = CHR ''i'' then conv_number 10 (flags OR SIGN) width precision fmt args
      else if f = CHR ''u'' then conv_number 10 flags width precision fmt args
      else if f = CHR ''n'' then
        (case va_int args of None \<Rightarrow> None
         | Some (ip, args) \<Rightarrow> Some \<lparr>written = [], stored = [(ip, of_nat pos)], rest_fmt = fmt,
             rest_args = args\<rparr>)
      else Some \<lparr>written = (if f = CHR ''%'' then ''%'' else [CHR ''%'', f]), stored = [],
             rest_fmt = fmt, rest_args = args\<rparr>)"

text \<open>One directive, from the character after the \<open>%\<close>; \<open>pos\<close> is \<open>str - buf\<close>.\<close>

definition directive :: "nat \<Rightarrow> string \<Rightarrow> arg list \<Rightarrow> conversion option" where
  "directive pos fmt args =
    (let (flags, fmt) = flag_loop 0 fmt in
     case field_width flags fmt args of None \<Rightarrow> None
     | Some (flags, width, fmt, args) \<Rightarrow>
       (case get_precision fmt args of None \<Rightarrow> None
        | Some (precision, fmt, args) \<Rightarrow>
            convert pos flags width precision (skip_qualifier fmt) args))"

lemma skip_atoi_from_shorter: "length (snd (skip_atoi_from i s)) \<le> length s"
  by (induction i s rule: skip_atoi_from.induct) auto

lemma skip_atoi_shorter: "skip_atoi s = (i, t) \<Longrightarrow> length t \<le> length s"
  using skip_atoi_from_shorter [of 0 s] by (simp add: skip_atoi_def)

lemma flag_loop_shorter: "flag_loop flags fmt = (flags', fmt') \<Longrightarrow> length fmt' \<le> length fmt"
  by (induction flags fmt rule: flag_loop.induct) (auto split: if_splits)

lemma field_width_shorter:
  "field_width flags fmt args = Some (flags', w, fmt', args') \<Longrightarrow> length fmt' \<le> length fmt"
  by (auto simp: field_width_def dest: skip_atoi_shorter
      split: list.splits if_splits option.splits prod.splits)

lemma get_precision_shorter:
  "get_precision fmt args = Some (p, fmt', args') \<Longrightarrow> length fmt' \<le> length fmt"
  by (auto simp: get_precision_def dest!: skip_atoi_shorter
      split: list.splits if_splits option.splits prod.splits)

lemma skip_qualifier_shorter: "length (skip_qualifier fmt) \<le> length fmt"
  by (simp add: skip_qualifier_def split: list.split)

definition rest_within :: "nat \<Rightarrow> conversion option \<Rightarrow> bool" where
  "rest_within n x \<longleftrightarrow> (\<forall>r. x = Some r \<longrightarrow> length (rest_fmt r) \<le> n)"

lemma rest_withinI [intro]:
  "rest_within n x \<Longrightarrow> rest_within n y \<Longrightarrow> rest_within n (if b then x else y)"
  "rest_within n None"
  "length (rest_fmt r) \<le> n \<Longrightarrow> rest_within n (Some r)"
  by (simp_all add: rest_within_def)

lemma rest_within_case_option:
  "(\<And>a. rest_within n (f a)) \<Longrightarrow> rest_within n (case x of None \<Rightarrow> None | Some a \<Rightarrow> f a)"
  by (simp add: rest_within_def split: option.split)

lemma rest_within_conv_number: "length fmt \<le> n \<Longrightarrow> rest_within n (conv_number b flags w p fmt args)"
  by (auto simp: rest_within_def conv_number_def split: option.splits)

lemma convert_shorter:
  assumes "convert pos flags w p fmt args = Some r"
  shows "length (rest_fmt r) \<le> length fmt"
proof -
  have "rest_within (length fmt) (convert pos flags w p fmt args)"
  proof (cases fmt)
    case (Cons f fs)
    show ?thesis
      unfolding convert_def Cons list.case
      by (intro rest_withinI(1) rest_within_conv_number rest_within_case_option)
        (auto simp: rest_within_def)
  qed (simp add: convert_def rest_within_def)
  then show ?thesis using assms by (simp add: rest_within_def)
qed

lemma directive_shorter:
  assumes "directive pos fmt args = Some r"
  shows "length (rest_fmt r) \<le> length fmt"
proof -
  obtain flags fmt1 where 1: "flag_loop 0 fmt = (flags, fmt1)" by (cases "flag_loop 0 fmt")
  obtain flags2 w fmt2 args2 where 2: "field_width flags fmt1 args = Some (flags2, w, fmt2, args2)"
    using assms 1 by (auto simp: directive_def split: option.splits)
  obtain p fmt3 args3 where 3: "get_precision fmt2 args2 = Some (p, fmt3, args3)"
    using assms 1 2 by (auto simp: directive_def split: option.splits)
  have "length (rest_fmt r) \<le> length (skip_qualifier fmt3)"
    using assms 1 2 3 by (auto simp: directive_def intro: convert_shorter)
  also have "\<dots> \<le> length fmt3" by (rule skip_qualifier_shorter)
  also have "\<dots> \<le> length fmt2" using 3 by (rule get_precision_shorter)
  also have "\<dots> \<le> length fmt1" using 2 by (rule field_width_shorter)
  also have "\<dots> \<le> length fmt" using 1 by (rule flag_loop_shorter)
  finally show ?thesis .
qed

text \<open>The characters written, and the stores made by \<open>%n\<close> in their order.\<close>

function format_loop :: "nat \<Rightarrow> string \<Rightarrow> arg list \<Rightarrow> (string \<times> (u32 \<times> u32) list) option" where
  "format_loop pos [] args = Some ([], [])"
| "format_loop pos (c # fmt) args =
     (if c \<noteq> CHR ''%''
      then map_option (\<lambda>(out, st). (c # out, st)) (format_loop (pos + 1) fmt args)
      else case directive pos fmt args of None \<Rightarrow> None
       | Some r \<Rightarrow> map_option (\<lambda>(out, st). (written r @ out, stored r @ st))
           (format_loop (pos + length (written r)) (rest_fmt r) (rest_args r)))"
  by pat_completeness auto
termination
  by (relation "measure (\<lambda>(_, fmt, _). length fmt)") (auto dest!: directive_shorter)

definition vsprintf :: "string \<Rightarrow> arg list \<Rightarrow> (u32 \<times> string \<times> (u32 \<times> u32) list) option" where
  "vsprintf fmt args = map_option (\<lambda>(out, st). (of_nat (length out), out, st)) (format_loop 0 fmt args)"

section \<open>What the conversions print\<close>

lemma digit_nth:
  "k < 10 \<Longrightarrow> is_digit (digits ty ! k) \<and> (of_char (digits ty ! k) :: nat) = 48 + k"
proof -
  assume "k < 10"
  then have "k \<in> {0, 1, 2, 3, 4, 5, 6, 7, 8, 9}" by (simp, presburger)
  then show ?thesis
    by (elim insertE emptyE) (simp_all add: digits_def is_digit_def)
qed

lemma of_char_u32: "(of_char c :: u32) = of_nat (of_char c)"
  by (cases c) simp

lemma skip_atoi_digit_loop:
  "skip_atoi_from i (rev (digit_loop (digits ty) 10 n) @ t) =
     skip_atoi_from (i * 10 ^ length (digit_loop (digits ty) 10 n) + of_nat n) t"
proof (induction n arbitrary: t rule: less_induct)
  case (less n)
  show ?case
  proof (cases "n = 0")
    case False
    let ?r = "digit_loop (digits ty) 10 (n div 10)" and ?d = "digits ty ! (n mod 10)"
    have d: "is_digit ?d" "(of_char ?d :: u32) = 48 + of_nat (n mod 10)"
      using digit_nth [of "n mod 10" ty] by (simp_all add: of_char_u32)
    have "digit_loop (digits ty) 10 n = ?d # ?r"
      using False by (simp add: digit_loop.simps [of _ 10 n])
    moreover have "skip_atoi_from i (rev ?r @ ?d # t) =
        skip_atoi_from (i * 10 ^ length ?r + of_nat (n div 10)) (?d # t)"
      using less [of "n div 10" "?d # t"] False by simp
    moreover have "(of_nat n :: u32) = of_nat (n div 10) * 10 + of_nat (n mod 10)"
      using arg_cong [OF div_mult_mod_eq [of n 10], of "of_nat :: nat \<Rightarrow> u32"]
      by (simp only: of_nat_add of_nat_mult of_nat_numeral)
    ultimately show ?thesis using d by (simp add: algebra_simps)
  qed (simp add: digit_loop.simps)
qed

lemma digit_loop_length: "2 \<le> b \<Longrightarrow> n < b ^ k \<Longrightarrow> length (digit_loop ds b n) \<le> k"
proof (induction k arbitrary: n)
  case (Suc k)
  then have "n div b < b ^ k" by (simp add: less_mult_imp_div_less mult.commute)
  then show ?case using Suc by (auto simp: digit_loop.simps [of _ _ n])
qed (simp add: digit_loop.simps)

lemma unat_less_32: "unat (n :: u32) < 2 ^ 32"
  using unsigned_less [where 'a = nat, of n] by simp

text \<open>\<open>tmp[36]\<close> is never overrun: 32 binary digits are the most \<open>number\<close> can store.\<close>

lemma tmp_bound: "2 \<le> b \<Longrightarrow> length (digit_loop ds b (unat (n :: u32))) \<le> 32"
proof (rule digit_loop_length)
  assume "2 \<le> b"
  then have "(2 :: nat) ^ 32 \<le> b ^ 32" by (rule power_mono) simp
  then show "unat n < b ^ 32" using unat_less_32 [of n] by linarith
qed

lemma digit_loop_not_Nil: "n \<noteq> 0 \<Longrightarrow> 2 \<le> b \<Longrightarrow> digit_loop ds b n \<noteq> []"
  by (subst digit_loop.simps) simp

text \<open>The digits of a number, most significant first, as \<open>number\<close> leaves them in \<open>tmp\<close>.\<close>

definition numeral_of :: "u32 \<Rightarrow> u32 \<Rightarrow> u32 \<Rightarrow> string" where
  "numeral_of type bas n = (if n = 0 then ''0'' else rev (digit_loop (digits type) (unat bas) (unat n)))"

lemma numeral_length:
  "2 \<le> unat bas \<Longrightarrow> 1 \<le> length (numeral_of type bas n) \<and> length (numeral_of type bas n) \<le> 32"
  using tmp_bound [of "unat bas" "digits type" n] digit_loop_not_Nil [of "unat n" "unat bas" "digits type"]
  by (simp add: numeral_of_def unat_eq_zero Suc_le_eq)

lemma sint_diff:
  assumes "- 0x80000000 \<le> sint a - sint b" and "sint a - sint b < 0x80000000"
  shows "sint (a - b :: u32) = sint a - sint b"
proof -
  have "a - b = word_of_int (sint a - sint b)" by simp
  then have "sint (a - b) = signed_take_bit 31 (sint a - sint b)"
    by (simp only: sint_sbintrunc') simp
  then show ?thesis
    using assms by (simp add: signed_take_bit_int_eq_self_iff)
qed

text \<open>
  \<open>number\<close> on a size and a precision of a reasonable magnitude: no more output than
  the field asks for, or than the sign, the prefix and the digits need.
\<close>

definition sign_len :: "u32 \<Rightarrow> u32 \<Rightarrow> nat" where
  "sign_len type n = (if tst (type AND SIGN) \<and> slt n 0 \<or> tst (type AND PLUS) \<or> tst (type AND SPACE)
     then 1 else 0)"

definition prefix_len :: "u32 \<Rightarrow> u32 \<Rightarrow> nat" where
  "prefix_len type bas = (if tst (type AND SPECIAL) then if bas = 16 then 2 else if bas = 8 then 1 else 0 else 0)"

definition shown :: "u32 \<Rightarrow> u32 \<Rightarrow> u32" where
  "shown type n = (if tst (type AND SIGN) \<and> slt n 0 then - n else n)"

lemma sint_after_pad: "- 0x80000000 < sint w \<Longrightarrow> sint (after_pad w) = (if 0 < sint w then - 1 else sint w - 1)"
  using sint_diff [of w 1] sint_lt [of w] by (auto simp: after_pad_def slt_def)

lemma length_pad [simp]: "length (pad w c) = nat (sint w)"
  by (simp add: pad_def)

lemma padding_total:
  assumes "- 0x80000000 + 2 < sint w"
  shows "length (if a then pad w c1 else []) +
    length (if b then pad (if a then after_pad w else w) c2 else []) +
    length (pad (if b then after_pad (if a then after_pad w else w) else if a then after_pad w else w) c3) =
    nat (sint w)"
  using assms by (cases a; cases b) (auto simp: sint_after_pad)

lemma flags_without_zeropad:
  "(type AND NOT ZEROPAD) AND SIGN = type AND SIGN" "(type AND NOT ZEROPAD) AND PLUS = type AND PLUS"
  "(type AND NOT ZEROPAD) AND SPACE = type AND SPACE" "(type AND NOT ZEROPAD) AND LEFT = type AND LEFT"
  "(type AND NOT ZEROPAD) AND SPECIAL = type AND SPECIAL"
  by (simp_all add: ZEROPAD_def SIGN_def PLUS_def SPACE_def LEFT_def SPECIAL_def and.assoc)

lemma emit_number_length:
  assumes "length tmp \<le> 32" and "- 100 \<le> sint sz" and "sint sz \<le> 0x40000000" and "sint precision \<le> 0x40000000"
  shows "int (length (emit_number ds type bas sign tmp sz precision)) =
    int (length sign) + int (prefix_len type bas) + max (sint sz) (max (sint precision) (int (length tmp)))"
proof -
  define i :: u32 where "i = of_nat (length tmp)"
  define pr where "pr = (if slt precision i then i else precision)"
  have i: "sint i = int (length tmp)"
    using assms(1) by (simp add: i_def sint_of_nat)
  have pr: "sint pr = max (sint precision) (int (length tmp))"
    by (simp add: pr_def slt_def i)
  have w: "sint (sz - pr) = sint sz - sint pr"
    using assms pr by (intro sint_diff) linarith+
  then have w': "- 0x80000000 + 2 < sint (sz - pr)"
    using assms pr by linarith
  have z: "length (pad (pr - i) CHR ''0'') + length tmp = nat (sint pr)"
    using sint_diff [of pr i] assms pr i by simp
  have pf: "length (if tst (type AND SPECIAL)
      then if bas = 8 then ''0'' else if bas = 16 then ''0'' @ [ds ! 33] else [] else []) = prefix_len type bas"
    by (simp add: prefix_len_def)
  have "length (emit_number ds type bas sign tmp sz precision) =
      nat (sint (sz - pr)) + length sign + prefix_len type bas + nat (sint pr)"
    unfolding emit_number_def Let_def i_def [symmetric] pr_def [symmetric] length_append pf length_rev
    using z padding_total [OF w', of "\<not> tst (type AND (ZEROPAD + LEFT))" "CHR '' ''"
        "\<not> tst (type AND LEFT)" "if tst (type AND ZEROPAD) then CHR ''0'' else CHR '' ''" "CHR '' ''"]
    by linarith
  then show ?thesis
    using w pr by linarith
qed

lemma sint_minus_small:
  assumes "k \<le> 2" and "- 0x40000000 \<le> sint sz"
  shows "sint (sz - of_nat k :: u32) = sint sz - int k"
  using assms sint_lt [of sz] sint_diff [of sz "of_nat k"] by (simp add: sint_of_nat)



section \<open>Numbers read back\<close>

lemma skip_atoi_numeral: "skip_atoi (numeral_of ty 10 n) = (n, [])"
proof -
  have "is_digit CHR ''0''" by (simp add: is_digit_def)
  then show ?thesis
    using skip_atoi_digit_loop [of 0 ty "unat n" "[]"]
    by (cases "n = 0") (simp_all add: skip_atoi_def numeral_of_def)
qed

lemma emit_number_plain:
  assumes "type = 0 \<or> type = SIGN" and "length sign \<le> 1" and "length tmp \<le> 32"
  shows "emit_number ds type 10 sign tmp (- 1 - of_nat (length sign)) (- 1) = sign @ rev tmp"
proof -
  have z: "type AND ZEROPAD = 0" "type AND (ZEROPAD + LEFT) = 0" "type AND LEFT = 0" "type AND SPECIAL = 0"
    using assms(1) by (auto simp: ZEROPAD_def SIGN_def LEFT_def SPECIAL_def)
  have i: "slt (- 1) (of_nat (length tmp))"
    using assms(3) by (simp add: slt_def sint_of_nat)
  have 1: "sint (- 1 - of_nat (length sign) :: u32) = - 1 - int (length sign)"
    using sint_minus_small [of "length sign" "- 1"] assms(2) by simp
  have 2: "sint (- 1 - of_nat (length sign) - of_nat (length tmp) :: u32) = - 1 - int (length sign) - int (length tmp)"
    using sint_diff [of "- 1 - of_nat (length sign)" "of_nat (length tmp)"] 1 assms(2,3)
    by (simp add: sint_of_nat)
  let ?w = "- 1 - of_nat (length sign) - of_nat (length tmp) :: u32"
  have "sint (after_pad ?w) < 0" "sint (after_pad (after_pad ?w)) < 0"
    using 2 assms(2,3) by (simp_all add: sint_after_pad)
  then show ?thesis
    unfolding emit_number_def Let_def z using 2 i by (simp add: pad_def)
qed

lemma SIGN_nonzero: "SIGN \<noteq> 0"
  by (simp add: SIGN_def)

lemma number_plain:
  assumes "type = 0 \<or> type = SIGN"
  shows "number n 10 (- 1) (- 1) type = Some (if type = SIGN \<and> slt n 0
     then CHR ''-'' # numeral_of 0 10 (- n) else numeral_of 0 10 n)"
proof -
  have z: "type AND LEFT = 0" "type AND PLUS = 0" "type AND SPACE = 0" "type AND SPECIAL = 0"
    "type AND SIGN = (if type = SIGN then SIGN else 0)" "type AND SMALL = 0" "SIGN \<noteq> 0"
    using assms by (auto simp: LEFT_def SIGN_def PLUS_def SPACE_def SPECIAL_def SMALL_def)
  have tmp: "(if m = 0 then ''0'' else digit_loop (digits type) (unat (10 :: u32)) (unat m)) = rev (numeral_of 0 10 m)"
    for m :: u32
    using z(6) by (simp add: numeral_of_def digits_def)
  have len: "length (rev (numeral_of 0 10 m)) \<le> 32" for m
    using numeral_length [of 10 0 m] by simp
  have "emit_number (digits type) type 10 ''-'' (rev (numeral_of 0 10 m)) (- 2) (- 1)
      = CHR ''-'' # numeral_of 0 10 m"
    "emit_number (digits type) type 10 [] (rev (numeral_of 0 10 m)) (- 1) (- 1) = numeral_of 0 10 m" for m
    using emit_number_plain [OF assms, of "''-''", OF _ len] emit_number_plain [OF assms, of "[]", OF _ len]
    by simp_all
  then show ?thesis

    by (simp only: number_def Let_def z tst_iff simp_thms if_False tmp)
      (auto simp: slt_def SIGN_nonzero split: if_splits)
qed

lemma vsprintf_number:
  assumes "c \<in> {CHR ''d'', CHR ''u''}"
  shows "vsprintf [CHR ''%'', c] [Num n] =
    map_option (\<lambda>out. (of_nat (length out), out, []))
      (number n 10 (- 1) (- 1) (if c = CHR ''d'' then SIGN else 0))"
proof -
  have nd: "\<not> is_digit c" using assms by (auto simp: is_digit_def)
  have "flag_loop 0 [c] = (0, [c])" using assms by auto
  moreover have "field_width 0 [c] [Num n] = Some (0, - 1, [c], [Num n])"
    using assms nd by (auto simp: field_width_def)
  moreover have "get_precision [c] [Num n] = Some (- 1, [c], [Num n])" "skip_qualifier [c] = [c]"
    using assms by (auto simp: get_precision_def skip_qualifier_def)
  moreover have "convert 0 0 (- 1) (- 1) [c] [Num n] =
      conv_number 10 (if c = CHR ''d'' then SIGN else 0) (- 1) (- 1) [] [Num n]"
    using assms by (auto simp: convert_def)
  ultimately have "directive 0 [c] [Num n] =
      conv_number 10 (if c = CHR ''d'' then SIGN else 0) (- 1) (- 1) [] [Num n]"
    by (simp add: directive_def)
  then show ?thesis
    by (simp add: vsprintf_def conv_number_def va_int_def split: option.split)
qed

text \<open>
  C34. Printed numbers read back: the output of \<open>%u\<close> is read by the file's own
  \<open>skip_atoi\<close> as the number printed, and \<open>%d\<close> prints a minus sign exactly for negative
  numbers, followed by the digits of the magnitude (also for the smallest \<open>int\<close>).
\<close>

theorem decimal_reads_back:
  "(\<exists>out. vsprintf ''%u'' [Num n] = Some (of_nat (length out), out, []) \<and> skip_atoi out = (n, [])) \<and>
   (\<exists>out. vsprintf ''%d'' [Num n] = Some (of_nat (length out), out, []) \<and>
     (if slt n 0 then hd out = CHR ''-'' \<and> skip_atoi (tl out) = (- n, []) else skip_atoi out = (n, [])))"
  using vsprintf_number [of "CHR ''u''" n] vsprintf_number [of "CHR ''d''" n]
    SIGN_nonzero by (simp add: number_plain skip_atoi_numeral)


end
