(* ===== verification/Malloc.thy ===== *)
theory Malloc
  imports Memory
begin

text \<open>
  \<open>lib/malloc.c\<close>: the kernel's bucket allocator. Descriptors and free objects live in
  pages from \<open>get_free_page\<close> and are linked through physical memory, so the model
  reads and writes \<open>phys\<close> at the addresses the C structures have: a
  \<open>struct bucket_desc\<close> of 16 bytes at address \<open>p\<close> has its \<open>page\<close> at \<open>p\<close>, \<open>next\<close> at
  \<open>p + 4\<close>, \<open>freeptr\<close> at \<open>p + 8\<close> and \<open>refcnt\<close> and \<open>bucket_size\<close> in the dword at \<open>p + 12\<close>.
\<close>

record malloc_state =
  mm :: mm_state
  chain :: "nat \<Rightarrow> u32"        \<comment> \<open>\<open>bucket_dir[i].chain\<close>\<close>
  free_bucket_desc :: u32

definition mem :: "malloc_state \<Rightarrow> u32 \<Rightarrow> u32" where
  "mem s a = phys (mm s) a"

definition set_mem :: "u32 \<Rightarrow> u32 \<Rightarrow> malloc_state \<Rightarrow> malloc_state" where
  "set_mem a v s = s\<lparr>mm := poke a v (mm s)\<rparr>"

definition in_mm :: "(mm_state \<Rightarrow> ('a, mm_state) outcome) \<Rightarrow> malloc_state \<Rightarrow> ('a, malloc_state) outcome" where
  "in_mm f s = lift_outcome (\<lambda>m. s\<lparr>mm := m\<rparr>) (f (mm s))"

section \<open>Bucket descriptors\<close>

definition bd_page :: "malloc_state \<Rightarrow> u32 \<Rightarrow> u32" where "bd_page s p = mem s p"
definition bd_next :: "malloc_state \<Rightarrow> u32 \<Rightarrow> u32" where "bd_next s p = mem s (p + 4)"
definition bd_freeptr :: "malloc_state \<Rightarrow> u32 \<Rightarrow> u32" where "bd_freeptr s p = mem s (p + 8)"
definition bd_refcnt :: "malloc_state \<Rightarrow> u32 \<Rightarrow> u16" where "bd_refcnt s p = ucast (mem s (p + 12))"

definition bd_bucket_size :: "malloc_state \<Rightarrow> u32 \<Rightarrow> u16" where
  "bd_bucket_size s p = ucast (drop_bit 16 (mem s (p + 12)))"

definition set_page :: "u32 \<Rightarrow> u32 \<Rightarrow> malloc_state \<Rightarrow> malloc_state" where
  "set_page p v = set_mem p v"

definition set_next :: "u32 \<Rightarrow> u32 \<Rightarrow> malloc_state \<Rightarrow> malloc_state" where
  "set_next p v = set_mem (p + 4) v"

definition set_freeptr :: "u32 \<Rightarrow> u32 \<Rightarrow> malloc_state \<Rightarrow> malloc_state" where
  "set_freeptr p v = set_mem (p + 8) v"

definition set_refcnt :: "u32 \<Rightarrow> u16 \<Rightarrow> malloc_state \<Rightarrow> malloc_state" where
  "set_refcnt p v s = set_mem (p + 12) (push_bit 16 (ucast (bd_bucket_size s p)) OR ucast v) s"

definition set_bucket_size :: "u32 \<Rightarrow> u16 \<Rightarrow> malloc_state \<Rightarrow> malloc_state" where
  "set_bucket_size p v s = set_mem (p + 12) (push_bit 16 (ucast v) OR ucast (bd_refcnt s p)) s"

text \<open>\<open>bucket_dir[i].size\<close>; the entry with size 0 ends the table.\<close>

definition bucket_sizes :: "u32 list" where
  "bucket_sizes = [16, 32, 64, 128, 256, 512, 1024, 2048, 4096, 0]"

definition PAGE_SIZE :: u32 where "PAGE_SIZE = 4096"

section \<open>\<open>malloc\<close>\<close>

text \<open>The descriptors of a page are linked in ascending order: \<open>i\<close> counts down to 1.\<close>

primrec link_descs :: "nat \<Rightarrow> u32 \<Rightarrow> malloc_state \<Rightarrow> u32 \<times> malloc_state" where
  "link_descs 0 bdesc s = (bdesc, s)"
| "link_descs (Suc n) bdesc s = link_descs n (bdesc + 16) (set_next bdesc (bdesc + 16) s)"

definition init_bucket_desc :: "malloc_state \<Rightarrow> (unit, malloc_state) outcome" where
  "init_bucket_desc s = seq (in_mm get_free_page s) (\<lambda>first s.
     if first = 0 then Panic ''Out of memory in init_bucket_desc()''
     else let (bdesc, s) = link_descs (4096 div 16 - 1) first s;
              s = set_next bdesc (free_bucket_desc s) s
          in Ret () (s\<lparr>free_bucket_desc := first\<rparr>))"

text \<open>The first bucket at least as large as the request (both compared unsigned).\<close>

fun find_bucket :: "u32 \<Rightarrow> nat \<Rightarrow> u32 list \<Rightarrow> nat option" where
  "find_bucket len i [] = None"
| "find_bucket len i (sz # szs) =
     (if sz = 0 then None else if len \<le> sz then Some i else find_bucket len (Suc i) szs)"

text \<open>The walks along a chain end only if the chain does.\<close>

partial_function (option) find_space :: "malloc_state \<Rightarrow> u32 \<Rightarrow> u32 option" where
  "find_space s bdesc =
     (if bdesc = 0 then Some 0
      else if bd_freeptr s bdesc \<noteq> 0 then Some bdesc
      else find_space s (bd_next s bdesc))"

text \<open>\<open>while\<close> the page has room: each object points to the next one.\<close>

primrec link_objects :: "nat \<Rightarrow> u32 \<Rightarrow> u32 \<Rightarrow> malloc_state \<Rightarrow> u32 \<times> malloc_state" where
  "link_objects 0 sz cp s = (cp, s)"
| "link_objects (Suc n) sz cp s = link_objects n sz (cp + sz) (set_mem cp (cp + sz) s)"

definition new_bucket :: "nat \<Rightarrow> u32 \<Rightarrow> malloc_state \<Rightarrow> (u32, malloc_state) outcome" where
  "new_bucket i sz s =
     seq (if free_bucket_desc s = 0 then init_bucket_desc s else Ret () s) (\<lambda>_ s.
       let bdesc = free_bucket_desc s;
           s = s\<lparr>free_bucket_desc := bd_next s bdesc\<rparr>;
           s = set_refcnt bdesc 0 s;
           s = set_bucket_size bdesc (ucast sz) s
       in seq (in_mm get_free_page s) (\<lambda>cp s.
         let s = set_page bdesc cp (set_freeptr bdesc cp s) in
         if cp = 0 then Panic ''Out of memory in kernel malloc()''
         else let (cp, s) = link_objects (4096 div unat sz - 1) sz cp s;
                  s = set_mem cp 0 s;
                  s = set_next bdesc (chain s i) s
              in Ret bdesc (s\<lparr>chain := (chain s)(i := bdesc)\<rparr>)))"

definition malloc :: "u32 \<Rightarrow> malloc_state \<Rightarrow> (u32, malloc_state) outcome" where
  "malloc len s = (case find_bucket len 0 bucket_sizes of
       None \<Rightarrow> Panic ''malloc: bad arg''
     | Some i \<Rightarrow>
         (case find_space s (chain s i) of None \<Rightarrow> Hangs
          | Some bdesc \<Rightarrow>
              seq (if bdesc = 0 then new_bucket i (bucket_sizes ! i) s else Ret bdesc s) (\<lambda>bdesc s.
                let retval = bd_freeptr s bdesc;
                    s = set_freeptr bdesc (mem s retval) s;
                    s = set_refcnt bdesc (bd_refcnt s bdesc + 1) s
                in Ret retval s)))"

section \<open>\<open>free_s\<close>\<close>

text \<open>One chain: the descriptor of the page and its predecessor, or 0 at the end.\<close>

partial_function (option) find_page :: "malloc_state \<Rightarrow> u32 \<Rightarrow> u32 \<Rightarrow> u32 \<Rightarrow> (u32 \<times> u32) option" where
  "find_page s page prev bdesc =
     (if bdesc = 0 then Some (prev, 0)
      else if bd_page s bdesc = page then Some (prev, bdesc)
      else find_page s page bdesc (bd_next s bdesc))"

text \<open>
  The search over the buckets: \<open>None\<close> when a chain never ends, \<open>Some None\<close> when no
  bucket has the page, and otherwise the bucket, the predecessor and the descriptor.
\<close>

fun find_desc :: "malloc_state \<Rightarrow> u32 \<Rightarrow> u32 \<Rightarrow> nat \<Rightarrow> u32 list \<Rightarrow> (nat \<times> u32 \<times> u32) option option" where
  "find_desc s page sz i [] = Some None"
| "find_desc s page sz i (bsz # szs) =
     (if bsz = 0 then Some None
      else if slt bsz sz then find_desc s page sz (Suc i) szs
      else case find_page s page 0 (chain s i) of None \<Rightarrow> None
        | Some (prev, bdesc) \<Rightarrow>
            if bdesc \<noteq> 0 then Some (Some (i, prev, bdesc)) else find_desc s page sz (Suc i) szs)"

partial_function (option) find_prev :: "malloc_state \<Rightarrow> u32 \<Rightarrow> u32 \<Rightarrow> u32 option" where
  "find_prev s bdesc prev =
     (if prev = 0 then Some 0
      else if bd_next s prev = bdesc then Some prev
      else find_prev s bdesc (bd_next s prev))"

definition unlink_desc :: "nat \<Rightarrow> u32 \<Rightarrow> u32 \<Rightarrow> malloc_state \<Rightarrow> (unit, malloc_state) outcome" where
  "unlink_desc i prev bdesc s =
     (case (if prev \<noteq> 0 \<and> bd_next s prev \<noteq> bdesc \<or> prev = 0 \<and> chain s i \<noteq> bdesc
            then find_prev s bdesc (chain s i) else Some prev) of
        None \<Rightarrow> Hangs
      | Some prev \<Rightarrow>
          if prev \<noteq> 0 then Ret () (set_next prev (bd_next s bdesc) s)
          else if chain s i \<noteq> bdesc then Panic ''malloc bucket chains corrupted''
          else Ret () (s\<lparr>chain := (chain s)(i := bd_next s bdesc)\<rparr>))"

definition free_s :: "u32 \<Rightarrow> u32 \<Rightarrow> malloc_state \<Rightarrow> (unit, malloc_state) outcome" where
  "free_s obj sz s = (case find_desc s (obj AND 0xfffff000) sz 0 bucket_sizes of
       None \<Rightarrow> Hangs
     | Some None \<Rightarrow> Panic ''Bad address passed to kernel free_s()''
     | Some (Some (i, prev, bdesc)) \<Rightarrow>
         (let s = set_mem obj (bd_freeptr s bdesc) s;
              s = set_freeptr bdesc obj s;
              s = set_refcnt bdesc (bd_refcnt s bdesc - 1) s
          in if bd_refcnt s bdesc \<noteq> 0 then Ret () s
             else seq (unlink_desc i prev bdesc s) (\<lambda>_ s.
                  seq (in_mm (free_page (bd_page s bdesc)) s) (\<lambda>_ s.
                    let s = set_next bdesc (free_bucket_desc s) s
                    in Ret () (s\<lparr>free_bucket_desc := bdesc\<rparr>)))))"

end
