(* ===== verification/Console.thy ===== *)
theory Console
  imports Prelude
begin

text \<open>
  \<open>kernel/chr_drv/console.c\<close>: the VT102 console on text-mode video memory. The static
  variables of the file are the fields of \<open>console\<close>; \<open>vram\<close> maps the address of a cell
  (character and attribute) to its value; \<open>crt\<close> records what \<open>set_origin\<close> and
  \<open>set_cursor\<close> have written to the controller, and \<open>beeps\<close> counts \<open>sysbeep\<close>.
\<close>

section \<open>State\<close>

record console =
  video_type :: u8
  video_num_columns :: u32
  video_size_row :: u32
  video_num_lines :: u32
  video_mem_start :: u32
  video_mem_end :: u32
  video_erase_char :: u16
  origin :: u32
  scr_end :: u32
  con_pos :: u32
  con_x :: u32
  con_y :: u32
  con_top :: u32
  con_bottom :: u32
  con_state :: u32
  con_npar :: nat
  con_par :: "nat \<Rightarrow> u32"
  con_ques :: bool
  con_attr :: u8
  saved_x :: u32
  saved_y :: u32
  vram :: "u32 \<Rightarrow> u16"
  crt :: "(u32 \<times> u32) list"
  beeps :: nat

definition VIDEO_TYPE_MDA :: u8 where "VIDEO_TYPE_MDA = 0x10"
definition VIDEO_TYPE_CGA :: u8 where "VIDEO_TYPE_CGA = 0x11"
definition VIDEO_TYPE_EGAM :: u8 where "VIDEO_TYPE_EGAM = 0x20"
definition VIDEO_TYPE_EGAC :: u8 where "VIDEO_TYPE_EGAC = 0x21"

definition NPAR :: nat where "NPAR = 16"

definition gotoxy :: "u32 \<Rightarrow> u32 \<Rightarrow> console \<Rightarrow> console" where
  "gotoxy new_x new_y c =
    (if video_num_columns c < new_x \<or> video_num_lines c \<le> new_y then c
     else c\<lparr>con_x := new_x, con_y := new_y,
            con_pos := origin c + new_y * video_size_row c + push_bit 1 new_x\<rparr>)"

text \<open>Registers 12 to 15 of the controller: the two bytes of a cell number.\<close>

definition set_origin :: "console \<Rightarrow> console" where
  "set_origin c = (let d = origin c - video_mem_start c in
     c\<lparr>crt := (13, 0xff AND drop_bit 1 d) # (12, 0xff AND drop_bit 9 d) # crt c\<rparr>)"

definition set_cursor :: "console \<Rightarrow> console" where
  "set_cursor c = (let d = con_pos c - video_mem_start c in
     c\<lparr>crt := (15, 0xff AND drop_bit 1 d) # (14, 0xff AND drop_bit 9 d) # crt c\<rparr>)"

section \<open>Moving cells\<close>

text \<open>\<open>rep movsl\<close> with the direction flag clear and set, two cells a time, and \<open>rep stosw\<close>.\<close>

primrec movsl :: "nat \<Rightarrow> u32 \<Rightarrow> u32 \<Rightarrow> (u32 \<Rightarrow> u16) \<Rightarrow> u32 \<Rightarrow> u16" where
  "movsl 0 di si m = m"
| "movsl (Suc n) di si m = movsl n (di + 4) (si + 4) (m(di := m si, di + 2 := m (si + 2)))"

primrec movsl_down :: "nat \<Rightarrow> u32 \<Rightarrow> u32 \<Rightarrow> (u32 \<Rightarrow> u16) \<Rightarrow> u32 \<Rightarrow> u16" where
  "movsl_down 0 di si m = m"
| "movsl_down (Suc n) di si m = movsl_down n (di - 4) (si - 4) (m(di := m si, di + 2 := m (si + 2)))"

primrec stosw :: "nat \<Rightarrow> u32 \<Rightarrow> u16 \<Rightarrow> (u32 \<Rightarrow> u16) \<Rightarrow> u32 \<Rightarrow> u16" where
  "stosw 0 di v m = m"
| "stosw (Suc n) di v m = stosw n (di + 2) v (m(di := v))"

primrec stosw_down :: "nat \<Rightarrow> u32 \<Rightarrow> u16 \<Rightarrow> (u32 \<Rightarrow> u16) \<Rightarrow> u32 \<Rightarrow> u16" where
  "stosw_down 0 di v m = m"
| "stosw_down (Suc n) di v m = stosw_down n (di - 2) v (m(di := v))"

definition erase :: "u32 \<Rightarrow> u32 \<Rightarrow> console \<Rightarrow> console" where
  "erase n start c = c\<lparr>vram := stosw (unat n) start (video_erase_char c) (vram c)\<rparr>"

text \<open>Move \<open>n\<close> dwords up and erase the row behind them.\<close>

definition scroll_up :: "u32 \<Rightarrow> u32 \<Rightarrow> u32 \<Rightarrow> console \<Rightarrow> console" where
  "scroll_up n di si c =
     erase (video_num_columns c) (di + push_bit 2 n) (c\<lparr>vram := movsl (unat n) di si (vram c)\<rparr>)"

definition scrup :: "console \<Rightarrow> console" where
  "scrup c =
    (if (video_type c = VIDEO_TYPE_EGAC \<or> video_type c = VIDEO_TYPE_EGAM) \<and>
        con_top c = 0 \<and> con_bottom c = video_num_lines c
     then
       let row = video_size_row c;
           c = c\<lparr>origin := origin c + row, con_pos := con_pos c + row, scr_end := scr_end c + row\<rparr>;
           c = (if video_mem_end c < scr_end c
                then let c = scroll_up (drop_bit 1 ((video_num_lines c - 1) * video_num_columns c))
                               (video_mem_start c) (origin c) c;
                         moved = origin c - video_mem_start c
                     in c\<lparr>scr_end := scr_end c - moved, con_pos := con_pos c - moved,
                          origin := video_mem_start c\<rparr>
                else erase (video_num_columns c) (scr_end c - row) c)
       in set_origin c
     else scroll_up (drop_bit 1 ((con_bottom c - con_top c - 1) * video_num_columns c))
            (origin c + video_size_row c * con_top c)
            (origin c + video_size_row c * (con_top c + 1)) c)"

definition scrdown :: "console \<Rightarrow> console" where
  "scrdown c =
    (let n = drop_bit 1 ((con_bottom c - con_top c - 1) * video_num_columns c);
         di = origin c + video_size_row c * con_bottom c - 4;
         si = origin c + video_size_row c * (con_bottom c - 1) - 4;
         m = movsl_down (unat n) di si (vram c)
     in c\<lparr>vram := stosw_down (unat (video_num_columns c)) (di - push_bit 2 n + 2) (video_erase_char c) m\<rparr>)"

section \<open>Cursor movement and editing\<close>

definition lf :: "console \<Rightarrow> console" where
  "lf c = (if con_y c + 1 < con_bottom c
     then c\<lparr>con_y := con_y c + 1, con_pos := con_pos c + video_size_row c\<rparr> else scrup c)"

definition ri :: "console \<Rightarrow> console" where
  "ri c = (if con_top c < con_y c
     then c\<lparr>con_y := con_y c - 1, con_pos := con_pos c - video_size_row c\<rparr> else scrdown c)"

definition cr :: "console \<Rightarrow> console" where
  "cr c = c\<lparr>con_pos := con_pos c - push_bit 1 (con_x c), con_x := 0\<rparr>"

definition del :: "console \<Rightarrow> console" where
  "del c = (if tst (con_x c)
     then c\<lparr>con_pos := con_pos c - 2, con_x := con_x c - 1,
            vram := (vram c)(con_pos c - 2 := video_erase_char c)\<rparr>
     else c)"

text \<open>\<open>scr_end\<close> and \<open>pos\<close> are unsigned, so is the shift that makes a count of cells.\<close>

definition csi_J :: "u32 \<Rightarrow> console \<Rightarrow> console" where
  "csi_J par c =
    (if par = 0 then erase (drop_bit 1 (scr_end c - con_pos c)) (con_pos c) c
     else if par = 1 then erase (drop_bit 1 (con_pos c - origin c)) (origin c) c
     else if par = 2 then erase (video_num_columns c * video_num_lines c) (origin c) c
     else c)"

definition csi_K :: "u32 \<Rightarrow> console \<Rightarrow> console" where
  "csi_K par c =
    (if par = 0 then
       (if video_num_columns c \<le> con_x c then c else erase (video_num_columns c - con_x c) (con_pos c) c)
     else if par = 1 then
       erase (if con_x c < video_num_columns c then con_x c else video_num_columns c)
         (con_pos c - push_bit 1 (con_x c)) c
     else if par = 2 then erase (video_num_columns c) (con_pos c - push_bit 1 (con_x c)) c
     else c)"

fun set_attrs :: "u32 list \<Rightarrow> console \<Rightarrow> console" where
  "set_attrs [] c = c"
| "set_attrs (p # ps) c = set_attrs ps
    (if p = 0 then c\<lparr>con_attr := 0x07\<rparr> else if p = 1 then c\<lparr>con_attr := 0x0f\<rparr>
     else if p = 4 then c\<lparr>con_attr := 0x0f\<rparr> else if p = 7 then c\<lparr>con_attr := 0x70\<rparr>
     else if p = 27 then c\<lparr>con_attr := 0x07\<rparr> else c)"

definition csi_m :: "console \<Rightarrow> console" where
  "csi_m c = set_attrs (List.map (con_par c) [0..<con_npar c + 1]) c"

primrec shift_right :: "nat \<Rightarrow> u32 \<Rightarrow> u16 \<Rightarrow> (u32 \<Rightarrow> u16) \<Rightarrow> u32 \<Rightarrow> u16" where
  "shift_right 0 p old m = m"
| "shift_right (Suc n) p old m = shift_right n (p + 2) (m p) (m(p := old))"

definition insert_char :: "console \<Rightarrow> console" where
  "insert_char c = c\<lparr>vram := shift_right (unat (video_num_columns c) - unat (con_x c)) (con_pos c)
     (video_erase_char c) (vram c)\<rparr>"

primrec shift_left :: "nat \<Rightarrow> u32 \<Rightarrow> u16 \<Rightarrow> (u32 \<Rightarrow> u16) \<Rightarrow> u32 \<Rightarrow> u16" where
  "shift_left 0 p v m = m(p := v)"
| "shift_left (Suc n) p v m = shift_left n (p + 2) v (m(p := m (p + 2)))"

definition delete_char :: "console \<Rightarrow> console" where
  "delete_char c = (if video_num_columns c \<le> con_x c then c
     else c\<lparr>vram := shift_left (unat (video_num_columns c) - unat (con_x c) - 1) (con_pos c)
            (video_erase_char c) (vram c)\<rparr>)"

definition insert_line :: "console \<Rightarrow> console" where
  "insert_line c = (let t = scrdown (c\<lparr>con_top := con_y c, con_bottom := video_num_lines c\<rparr>)
     in t\<lparr>con_top := con_top c, con_bottom := con_bottom c\<rparr>)"

definition delete_line :: "console \<Rightarrow> console" where
  "delete_line c = (let t = scrup (c\<lparr>con_top := con_y c, con_bottom := video_num_lines c\<rparr>)
     in t\<lparr>con_top := con_top c, con_bottom := con_bottom c\<rparr>)"

primrec repeat :: "nat \<Rightarrow> (console \<Rightarrow> console) \<Rightarrow> console \<Rightarrow> console" where
  "repeat 0 f c = c"
| "repeat (Suc n) f c = repeat n f (f c)"

text \<open>The count of an editing sequence: at least one, at most \<open>most\<close>.\<close>

definition clip :: "u32 \<Rightarrow> u32 \<Rightarrow> u32" where
  "clip nr most = (if most < nr then most else if nr = 0 then 1 else nr)"

definition csi_at :: "u32 \<Rightarrow> console \<Rightarrow> console" where
  "csi_at nr c = repeat (unat (clip nr (video_num_columns c))) insert_char c"

definition csi_L :: "u32 \<Rightarrow> console \<Rightarrow> console" where
  "csi_L nr c = repeat (unat (clip nr (video_num_lines c))) insert_line c"

definition csi_P :: "u32 \<Rightarrow> console \<Rightarrow> console" where
  "csi_P nr c = repeat (unat (clip nr (video_num_columns c))) delete_char c"

definition csi_M :: "u32 \<Rightarrow> console \<Rightarrow> console" where
  "csi_M nr c = repeat (unat (clip nr (video_num_lines c))) delete_line c"

definition save_cur :: "console \<Rightarrow> console" where
  "save_cur c = c\<lparr>saved_x := con_x c, saved_y := con_y c\<rparr>"

definition restore_cur :: "console \<Rightarrow> console" where
  "restore_cur c = gotoxy (saved_x c) (saved_y c) c"

definition sysbeep :: "console \<Rightarrow> console" where
  "sysbeep c = c\<lparr>beeps := beeps c + 1\<rparr>"

section \<open>The escape sequence machine\<close>

text \<open>
  \<open>char\<close> is signed: \<open>c>31 && c<127\<close> holds for 32 to 126 only. \<open>erase_ch\<close> is
  \<open>ERASE_CHAR(tty)\<close>, an unsigned character, so a value above 127 is never equal to \<open>c\<close>.
\<close>

definition put_char :: "u8 \<Rightarrow> console \<Rightarrow> console" where
  "put_char ch c =
    (let c = (if video_num_columns c \<le> con_x c
              then lf (c\<lparr>con_x := con_x c - video_num_columns c, con_pos := con_pos c - video_size_row c\<rparr>)
              else c)
     in c\<lparr>vram := (vram c)(con_pos c := word_cat (con_attr c) ch), con_pos := con_pos c + 2,
          con_x := con_x c + 1\<rparr>)"

definition tab :: "console \<Rightarrow> console" where
  "tab c =
    (let n = 8 - (con_x c AND 7);
         c = c\<lparr>con_x := con_x c + n, con_pos := con_pos c + push_bit 1 n\<rparr>
     in if video_num_columns c < con_x c
        then lf (c\<lparr>con_x := con_x c - video_num_columns c, con_pos := con_pos c - video_size_row c\<rparr>)
        else c)"

definition normal_char :: "u8 \<Rightarrow> u8 \<Rightarrow> console \<Rightarrow> console" where
  "normal_char erase_ch ch c =
    (if 31 < ch \<and> ch < 127 then put_char ch c
     else if ch = 27 then c\<lparr>con_state := 1\<rparr>
     else if ch = 10 \<or> ch = 11 \<or> ch = 12 then lf c
     else if ch = 13 then cr c
     else if ch = erase_ch \<and> ch < 128 then del c
     else if ch = 8 then
       (if tst (con_x c) then c\<lparr>con_x := con_x c - 1, con_pos := con_pos c - 2\<rparr> else c)
     else if ch = 9 then tab c
     else if ch = 7 then sysbeep c
     else c)"

text \<open>
  After an escape. The last two tests compare the cursor column \<open>x\<close> with the characters
  7 and 8, as the code has it. The flag asks the caller for \<open>respond(tty)\<close>.
\<close>

definition escape_char :: "u8 \<Rightarrow> console \<Rightarrow> bool \<times> console" where
  "escape_char ch c =
    (let c = c\<lparr>con_state := 0\<rparr> in
     if ch = 91 then (False, c\<lparr>con_state := 2\<rparr>)
     else if ch = 69 then (False, gotoxy 0 (con_y c + 1) c)
     else if ch = 77 then (False, ri c)
     else if ch = 68 then (False, lf c)
     else if ch = 90 then (True, c)
     else if con_x c = 55 then (False, save_cur c)
     else if con_x c = 56 then (False, restore_cur c)
     else (False, c))"

definition set_par :: "nat \<Rightarrow> u32 \<Rightarrow> console \<Rightarrow> console" where
  "set_par i v c = c\<lparr>con_par := (con_par c)(i := v)\<rparr>"

definition inc_par :: "console \<Rightarrow> console" where
  "inc_par c = (if con_par c 0 = 0 then set_par 0 1 c else c)"

definition dec_par :: "nat \<Rightarrow> console \<Rightarrow> console" where
  "dec_par i c = (if con_par c i \<noteq> 0 then set_par i (con_par c i - 1) c else c)"

text \<open>The final character of a control sequence.\<close>

definition csi_final :: "u8 \<Rightarrow> console \<Rightarrow> console" where
  "csi_final ch c =
    (let c = c\<lparr>con_state := 0\<rparr>; i = inc_par c; d = dec_par 0 c in
     if ch = 71 \<or> ch = 96 then gotoxy (con_par d 0) (con_y d) d
     else if ch = 65 then gotoxy (con_x i) (con_y i - con_par i 0) i
     else if ch = 66 \<or> ch = 101 then gotoxy (con_x i) (con_y i + con_par i 0) i
     else if ch = 67 \<or> ch = 97 then gotoxy (con_x i + con_par i 0) (con_y i) i
     else if ch = 68 then gotoxy (con_x i - con_par i 0) (con_y i) i
     else if ch = 69 then gotoxy 0 (con_y i + con_par i 0) i
     else if ch = 70 then gotoxy 0 (con_y i - con_par i 0) i
     else if ch = 100 then gotoxy (con_x d) (con_par d 0) d
     else if ch = 72 \<or> ch = 102 then
       (let d = dec_par 1 d in gotoxy (con_par d 1) (con_par d 0) d)
     else if ch = 74 then csi_J (con_par c 0) c
     else if ch = 75 then csi_K (con_par c 0) c
     else if ch = 76 then csi_L (con_par c 0) c
     else if ch = 77 then csi_M (con_par c 0) c
     else if ch = 80 then csi_P (con_par c 0) c
     else if ch = 64 then csi_at (con_par c 0) c
     else if ch = 109 then csi_m c
     else if ch = 114 then
       (let d = (if con_par d 1 = 0 then set_par 1 (video_num_lines d) d else d) in
        if con_par d 0 < con_par d 1 \<and> con_par d 1 \<le> video_num_lines d
        then d\<lparr>con_top := con_par d 0, con_bottom := con_par d 1\<rparr> else d)
     else if ch = 115 then save_cur c
     else if ch = 117 then restore_cur c
     else c)"

text \<open>States 3 and 4: parameters, then the final character.\<close>

definition csi_param :: "u8 \<Rightarrow> console \<Rightarrow> console" where
  "csi_param ch c =
    (if ch = 59 \<and> con_npar c < NPAR - 1 then c\<lparr>con_npar := con_npar c + 1\<rparr>
     else if 48 \<le> ch \<and> ch \<le> 57
     then set_par (con_npar c) (10 * con_par c (con_npar c) + ucast ch - 48) c
     else csi_final ch c)"

definition csi_start :: "u8 \<Rightarrow> console \<Rightarrow> console" where
  "csi_start ch c =
    (let c = c\<lparr>con_par := (\<lambda>i. if i < NPAR then 0 else con_par c i), con_npar := 0, con_state := 3,
               con_ques := (ch = 63)\<rparr>
     in if ch = 63 then c else csi_param ch c)"

text \<open>One turn of the loop of \<open>con_write\<close>.\<close>

definition con_char :: "u8 \<Rightarrow> u8 \<Rightarrow> console \<Rightarrow> bool \<times> console" where
  "con_char erase_ch ch c =
    (if con_state c = 0 then (False, normal_char erase_ch ch c)
     else if con_state c = 1 then escape_char ch c
     else if con_state c = 2 then (False, csi_start ch c)
     else if con_state c = 3 then (False, csi_param ch c)
     else if con_state c = 4 then (False, csi_final ch c)
     else (False, c))"

section \<open>Initialisation\<close>

definition put_desc :: "u32 \<Rightarrow> u8 list \<Rightarrow> (u32 \<Rightarrow> u16) \<Rightarrow> u32 \<Rightarrow> u16" where
  "put_desc p desc m = fold (\<lambda>(i, ch) m.
     m(p + 2 * of_nat i := word_cat (ucast (drop_bit 8 (m (p + 2 * of_nat i))) :: u8) ch)) (enumerate 0 desc) m"

text \<open>
  The arguments are the values \<open>setup.s\<close> leaves at 0x90000: the cursor, the columns, the
  mode and \<open>EGA_BX\<close>. The interrupt gate and the keyboard ports are hardware.
\<close>

definition con_init :: "u8 \<Rightarrow> u8 \<Rightarrow> u8 \<Rightarrow> u8 \<Rightarrow> u8 \<Rightarrow> console \<Rightarrow> console" where
  "con_init orig_x orig_y orig_mode orig_cols ega_bx c =
    (let mono = (orig_mode = 7); ega = (ega_bx \<noteq> 0x10);
         cols = ucast orig_cols;
         start = (if mono then 0xb0000 else 0xb8000);
         c = c\<lparr>video_num_columns := cols, video_size_row := cols * 2, video_num_lines := 25,
               video_erase_char := 0x0720, video_mem_start := start,
               video_type := (if mono then if ega then VIDEO_TYPE_EGAM else VIDEO_TYPE_MDA
                              else if ega then VIDEO_TYPE_EGAC else VIDEO_TYPE_CGA),
               video_mem_end := (if mono then if ega then 0xb8000 else 0xb2000
                                 else if ega then 0xbc000 else 0xba000)\<rparr>;
         desc = (if mono then if ega then [69, 71, 65, 109] else [42, 77, 68, 65]
                 else if ega then [69, 71, 65, 99] else [42, 67, 71, 65]);
         c = c\<lparr>vram := put_desc (start + video_size_row c - 8) desc (vram c)\<rparr>;
         c = c\<lparr>origin := start, scr_end := start + video_num_lines c * video_size_row c,
               con_top := 0, con_bottom := video_num_lines c\<rparr>
     in gotoxy (ucast orig_x) (ucast orig_y) c)"

end
