(* ===== verification/ConsoleProps.thy ===== *)
theory ConsoleProps
  imports Console
begin

text \<open>
  The invariant of the console and its preservation by every character: the cursor is
  on the screen, \<open>pos\<close> is its address, the scrolling region is inside the screen, and
  the window on video memory stays inside the card's memory.
\<close>

text \<open>The values that only \<open>con_init\<close> sets.\<close>

definition geometry_ok :: "console \<Rightarrow> bool" where
  "geometry_ok c \<longleftrightarrow> 8 \<le> unat (video_num_columns c) \<and> unat (video_num_columns c) < 256 \<and>
     0 < unat (video_num_lines c) \<and> unat (video_num_lines c) < 256 \<and>
     video_size_row c = 2 * video_num_columns c \<and>
     unat (video_mem_start c) + unat (video_num_lines c) * unat (video_size_row c) \<le> unat (video_mem_end c) \<and>
     unat (video_mem_end c) < 0x100000"

definition cursor_ok :: "console \<Rightarrow> bool" where
  "cursor_ok c \<longleftrightarrow> con_pos c = origin c + con_y c * video_size_row c + 2 * con_x c \<and>
     con_x c \<le> video_num_columns c \<and> con_y c < video_num_lines c"

definition region_ok :: "console \<Rightarrow> bool" where
  "region_ok c \<longleftrightarrow> con_top c < con_bottom c \<and> con_bottom c \<le> video_num_lines c"

definition window_ok :: "console \<Rightarrow> bool" where
  "window_ok c \<longleftrightarrow> scr_end c = origin c + video_num_lines c * video_size_row c \<and>
     unat (video_mem_start c) \<le> unat (origin c) \<and>
     unat (origin c) + unat (video_num_lines c) * unat (video_size_row c) \<le> unat (video_mem_end c)"

definition con_ok :: "console \<Rightarrow> bool" where
  "con_ok c \<longleftrightarrow> geometry_ok c \<and> cursor_ok c \<and> region_ok c \<and> window_ok c"

lemmas con_ok_defs = con_ok_def geometry_ok_def cursor_ok_def region_ok_def window_ok_def

lemma push_bit_1 [simp]: "push_bit 1 (w :: u32) = 2 * w"
  by (simp add: push_bit_eq_mult)

lemma con_ok_vram [simp]: "con_ok (c\<lparr>vram := v\<rparr>) = con_ok c"
  "con_ok (c\<lparr>crt := t\<rparr>) = con_ok c" "con_ok (c\<lparr>beeps := n\<rparr>) = con_ok c"
  "con_ok (c\<lparr>con_state := st\<rparr>) = con_ok c" "con_ok (c\<lparr>con_par := pr\<rparr>) = con_ok c"
  "con_ok (c\<lparr>con_npar := np\<rparr>) = con_ok c" "con_ok (c\<lparr>con_ques := q\<rparr>) = con_ok c"
  "con_ok (c\<lparr>con_attr := av\<rparr>) = con_ok c" "con_ok (c\<lparr>saved_x := sx\<rparr>) = con_ok c"
  "con_ok (c\<lparr>saved_y := sy\<rparr>) = con_ok c"
  by (simp_all add: con_ok_defs)

lemma con_ok_gotoxy: "con_ok c \<Longrightarrow> con_ok (gotoxy nx ny c)"
  by (auto simp: con_ok_defs gotoxy_def not_less not_le)

lemma con_ok_erase [simp]: "con_ok (erase n st c) = con_ok c"
  by (simp add: erase_def)

lemma con_ok_set_origin [simp]: "con_ok (set_origin c) = con_ok c"
  by (simp add: set_origin_def Let_def)

lemma con_ok_set_cursor [simp]: "con_ok (set_cursor c) = con_ok c"
  by (simp add: set_cursor_def Let_def)

lemma con_ok_scroll_up [simp]: "con_ok (scroll_up n di si c) = con_ok c"
  by (simp add: scroll_up_def)

lemma erase_fields [simp]:
  "origin (erase n st c) = origin c" "con_pos (erase n st c) = con_pos c" "scr_end (erase n st c) = scr_end c"
  "video_mem_start (erase n st c) = video_mem_start c"
  by (simp_all add: erase_def)

lemma scroll_up_fields [simp]:
  "origin (scroll_up n di si c) = origin c" "con_pos (scroll_up n di si c) = con_pos c"
  "scr_end (scroll_up n di si c) = scr_end c" "video_mem_start (scroll_up n di si c) = video_mem_start c"
  by (simp_all add: scroll_up_def)

text \<open>
  Changes of the cursor, and of the window on video memory: what a state \<open>d\<close> has to
  agree with \<open>c\<close> on.
\<close>

definition same_frame :: "console \<Rightarrow> console \<Rightarrow> bool" where
  "same_frame c d \<longleftrightarrow> video_num_columns d = video_num_columns c \<and> video_size_row d = video_size_row c \<and>
     video_num_lines d = video_num_lines c \<and> video_mem_start d = video_mem_start c \<and>
     video_mem_end d = video_mem_end c \<and> con_top d = con_top c \<and> con_bottom d = con_bottom c"

lemma con_ok_cursor:
  assumes "con_ok c" and "same_frame c d" and "origin d = origin c" and "scr_end d = scr_end c"
    and "con_pos d = origin c + con_y d * video_size_row c + 2 * con_x d"
    and "unat (con_x d) \<le> unat (video_num_columns c)" and "unat (con_y d) < unat (video_num_lines c)"
  shows "con_ok d"
  using assms unfolding con_ok_defs same_frame_def word_le_nat_alt word_less_nat_alt by metis

lemma con_ok_move_window:
  assumes "con_ok c" and "same_frame c d" and "con_x d = con_x c" and "con_y d = con_y c"
    and "unat (video_mem_start c) \<le> unat (origin d)"
    and "unat (origin d) + unat (video_num_lines c) * unat (video_size_row c) \<le> unat (video_mem_end c)"
    and "con_pos d = con_pos c + (origin d - origin c)" and "scr_end d = scr_end c + (origin d - origin c)"
  shows "con_ok d"
proof -
  have "con_pos c = origin c + con_y c * video_size_row c + 2 * con_x c"
    "scr_end c = origin c + video_num_lines c * video_size_row c"
    using assms(1) by (simp_all add: con_ok_defs)
  then have "con_pos d = origin d + con_y c * video_size_row c + 2 * con_x c"
    "scr_end d = origin d + video_num_lines c * video_size_row c"
    using assms(7,8) by (simp_all add: algebra_simps)
  then show ?thesis
    using assms(1-6) unfolding con_ok_defs same_frame_def by metis
qed

lemma unat_add_small: "unat a + unat b < 2 ^ 32 \<Longrightarrow> unat (a + b :: u32) = unat a + unat b"
  by (simp add: unat_word_ariths)

lemma unat_mult_small: "unat a * unat b < 2 ^ 32 \<Longrightarrow> unat (a * b :: u32) = unat a * unat b"
  by (simp add: unat_word_ariths)

lemma geometry_numbers:
  assumes "geometry_ok c"
  shows "unat (video_size_row c) = 2 * unat (video_num_columns c)"
    "unat (video_num_lines c * video_size_row c) = unat (video_num_lines c) * unat (video_size_row c)"
    "unat (video_size_row c) < 512"
proof -
  have c: "unat (video_num_columns c) < 256" "unat (video_num_lines c) < 256"
    "video_size_row c = 2 * video_num_columns c"
    using assms by (simp_all add: geometry_ok_def)
  then show 1: "unat (video_size_row c) = 2 * unat (video_num_columns c)"
    using unat_mult_small [of 2 "video_num_columns c"] by simp
  then show "unat (video_size_row c) < 512" using c by simp
  have "unat (video_num_lines c) * unat (video_size_row c) \<le> 256 * 512"
    by (rule mult_le_mono) (use 1 c in simp_all)
  then show "unat (video_num_lines c * video_size_row c) = unat (video_num_lines c) * unat (video_size_row c)"
    by (intro unat_mult_small) simp
qed

lemma scr_end_number:
  assumes "con_ok c"
  shows "unat (scr_end c) = unat (origin c) + unat (video_num_lines c) * unat (video_size_row c)"
    and "unat (scr_end c) \<le> unat (video_mem_end c)"
proof -
  have g: "geometry_ok c" and w: "window_ok c" using assms by (simp_all add: con_ok_def)
  then show "unat (scr_end c) = unat (origin c) + unat (video_num_lines c) * unat (video_size_row c)"
    using unat_add_small [of "origin c" "video_num_lines c * video_size_row c"] geometry_numbers(2) [OF g]
    by (simp add: window_ok_def geometry_ok_def)
  then show "unat (scr_end c) \<le> unat (video_mem_end c)" using w by (simp add: window_ok_def)
qed

lemma con_ok_scrup:
  assumes "con_ok c"
  shows "con_ok (scrup c)"
proof -
  let ?row = "video_size_row c"
  have g: "geometry_ok c" and w: "window_ok c" using assms by (simp_all add: con_ok_def)
  have start: "unat (video_mem_start c) + unat (video_num_lines c) * unat ?row \<le> unat (video_mem_end c)"
    using g unfolding geometry_ok_def by blast
  have row: "unat (origin c + ?row) + unat (video_num_lines c) * unat ?row \<le> unat (video_mem_end c)"
    "unat (video_mem_start c) \<le> unat (origin c + ?row)" if "\<not> video_mem_end c < scr_end c + ?row"
  proof -
    have m: "unat (video_mem_end c) < 0x100000" using g by (simp only: geometry_ok_def)
    have low: "unat (video_mem_start c) \<le> unat (origin c)" using w by (simp only: window_ok_def)
    have "unat (scr_end c + ?row) = unat (scr_end c) + unat ?row"
      "unat (origin c + ?row) = unat (origin c) + unat ?row"
      using scr_end_number [OF assms] geometry_numbers(3) [OF g] m
      by (intro unat_add_small; simp)+
    then show "unat (origin c + ?row) + unat (video_num_lines c) * unat ?row \<le> unat (video_mem_end c)"
      "unat (video_mem_start c) \<le> unat (origin c + ?row)"
      using that scr_end_number [OF assms] low unfolding word_less_nat_alt by linarith+
  qed
  show ?thesis
  proof (cases "(video_type c = VIDEO_TYPE_EGAC \<or> video_type c = VIDEO_TYPE_EGAM) \<and>
        con_top c = 0 \<and> con_bottom c = video_num_lines c")
    case True
    show ?thesis
      by (rule con_ok_move_window [OF assms])
        (use start row in \<open>simp_all add: scrup_def True Let_def set_origin_def scroll_up_def erase_def
           same_frame_def algebra_simps\<close>)
  qed (auto simp: scrup_def assms)
qed

lemma con_ok_D:
  assumes "con_ok c"
  shows "con_pos c = origin c + con_y c * video_size_row c + 2 * con_x c"
    "unat (con_x c) \<le> unat (video_num_columns c)" "unat (con_y c) < unat (video_num_lines c)"
    "8 \<le> unat (video_num_columns c)" "unat (video_num_columns c) < 256" "unat (video_num_lines c) < 256"
    "video_size_row c = 2 * video_num_columns c"
    "unat (con_top c) < unat (con_bottom c)" "unat (con_bottom c) \<le> unat (video_num_lines c)"
  using assms by (simp_all add: con_ok_defs word_le_nat_alt word_less_nat_alt)

lemma con_ok_lf:
  assumes "con_ok c"
  shows "con_ok (lf c)"
proof (cases "con_y c + 1 < con_bottom c")
  case True
  then show ?thesis
    by (intro con_ok_cursor [OF assms])
      (use con_ok_D [OF assms] in \<open>simp_all add: lf_def same_frame_def algebra_simps word_less_nat_alt\<close>)
qed (simp add: lf_def con_ok_scrup assms)

lemma scrdown_ok [simp]: "con_ok (scrdown c) = con_ok c"
  by (simp add: scrdown_def Let_def)

lemma con_ok_ri:
  assumes "con_ok c"
  shows "con_ok (ri c)"
proof (cases "con_top c < con_y c")
  case True
  then have "unat (con_y c - 1) = unat (con_y c) - 1"
    by (intro unat_minus_one) (auto simp: word_less_nat_alt)
  then show ?thesis
    by (intro con_ok_cursor [OF assms])
      (use True con_ok_D [OF assms] in \<open>simp_all add: ri_def same_frame_def algebra_simps\<close>)
qed (simp add: ri_def assms)

lemma con_ok_cr: "con_ok c \<Longrightarrow> con_ok (cr c)"
  by (rule con_ok_cursor) (use con_ok_D [of c] in \<open>simp_all add: cr_def same_frame_def\<close>)

lemma con_ok_left:
  assumes "con_ok c" and "con_x c \<noteq> 0"
  shows "con_ok (c\<lparr>con_x := con_x c - 1, con_pos := con_pos c - 2\<rparr>)"
proof -
  have "unat (con_x c - 1) = unat (con_x c) - 1" using assms(2) by (simp add: unat_minus_one)
  then show ?thesis
    by (intro con_ok_cursor [OF assms(1)])
      (use con_ok_D [OF assms(1)] in \<open>simp_all add: same_frame_def algebra_simps\<close>)
qed

lemma con_ok_del: "con_ok c \<Longrightarrow> con_ok (del c)"
proof (cases "con_x c = 0")
  case False
  assume ok: "con_ok c"
  have "unat (con_x c - 1) = unat (con_x c) - 1" using False by (simp add: unat_minus_one)
  then show ?thesis
    by (intro con_ok_cursor [OF ok])
      (use False con_ok_D [OF ok] in \<open>simp_all add: del_def same_frame_def algebra_simps\<close>)
qed (simp add: del_def)

lemma scrup_keeps [simp]: "con_x (scrup c) = con_x c" "video_num_columns (scrup c) = video_num_columns c"
  by (simp_all add: scrup_def Let_def set_origin_def scroll_up_def erase_def)

lemma lf_keeps [simp]: "con_x (lf c) = con_x c" "video_num_columns (lf c) = video_num_columns c"
  by (simp_all add: lf_def)

text \<open>From past the right margin to the next line, and along the line.\<close>

lemma con_ok_wrap:
  assumes "con_ok c" and "unat n \<le> 8" and "unat (video_num_columns c) \<le> unat (con_x c + n)"
  shows "con_ok (c\<lparr>con_x := con_x c + n - video_num_columns c,
    con_pos := con_pos c + 2 * n - video_size_row c\<rparr>)"
proof -
  have "unat (con_x c + n) = unat (con_x c) + unat n"
    using con_ok_D [OF assms(1)] assms(2) by (intro unat_add_small) simp
  moreover have "unat (con_x c + n - video_num_columns c) = unat (con_x c + n) - unat (video_num_columns c)"
    using assms(3) by (simp add: unat_sub word_le_nat_alt)
  ultimately show ?thesis
    by (intro con_ok_cursor [OF assms(1)])
      (use con_ok_D [OF assms(1)] assms(2) in \<open>simp_all add: same_frame_def algebra_simps\<close>)
qed

lemma con_ok_advance:
  assumes "con_ok c" and "unat (con_x c) + unat n \<le> unat (video_num_columns c)"
  shows "con_ok (c\<lparr>con_x := con_x c + n, con_pos := con_pos c + 2 * n\<rparr>)"
proof -
  have "unat (con_x c + n) = unat (con_x c) + unat n"
    using con_ok_D [OF assms(1)] assms(2) by (intro unat_add_small) simp
  then show ?thesis
    by (intro con_ok_cursor [OF assms(1)])
      (use con_ok_D [OF assms(1)] assms(2) in \<open>simp_all add: same_frame_def algebra_simps\<close>)
qed

lemma con_ok_put_char:
  assumes "con_ok c"
  shows "con_ok (put_char ch c)"
proof -
  define d where "d = (if video_num_columns c \<le> con_x c
    then lf (c\<lparr>con_x := con_x c - video_num_columns c, con_pos := con_pos c - video_size_row c\<rparr>) else c)"
  have "con_ok d \<and> unat (con_x d) < unat (video_num_columns d)"
  proof (cases "video_num_columns c \<le> con_x c")
    case True
    then have "con_x c = video_num_columns c"
      using con_ok_D(2) [OF assms] by (simp add: word_le_nat_alt word_unat_eq_iff)
    then show ?thesis
      using con_ok_lf [OF con_ok_wrap [OF assms, of 0]] True con_ok_D(4) [OF assms]
      by (simp add: d_def word_le_nat_alt)
  next
    case False
    then show ?thesis using assms by (simp add: d_def word_le_nat_alt)
  qed
  then have "con_ok (d\<lparr>con_x := con_x d + 1, con_pos := con_pos d + 2\<rparr>)"
    using con_ok_advance [of d 1] by simp
  moreover have "put_char ch c = (d\<lparr>con_x := con_x d + 1, con_pos := con_pos d + 2\<rparr>)
      \<lparr>vram := (vram d)(con_pos d := word_cat (con_attr d) ch)\<rparr>"
    by (simp add: put_char_def d_def Let_def)
  ultimately show ?thesis by simp
qed

lemma con_ok_tab:
  assumes "con_ok c"
  shows "con_ok (tab c)"
proof -
  define n where "n = 8 - (con_x c AND 7)"
  have "con_x c AND 7 \<le> 7" by (rule word_and_le1)
  then have "unat (con_x c AND 7) < 8" by (simp add: word_le_nat_alt)
  then have n: "unat n \<le> 8"
    unfolding n_def by (subst unat_sub) (simp_all add: word_le_nat_alt)
  have x: "unat (con_x c + n) = unat (con_x c) + unat n"
    using con_ok_D [OF assms] n by (intro unat_add_small) simp
  show ?thesis
  proof (cases "video_num_columns c < con_x c + n")
    case True
    then show ?thesis
      using con_ok_lf [OF con_ok_wrap [OF assms n]]
      by (simp add: tab_def Let_def n_def [symmetric] word_less_nat_alt mult.commute)
  next
    case False
    then show ?thesis
      using con_ok_advance [OF assms, of n] x
      by (simp add: tab_def Let_def n_def [symmetric] word_less_nat_alt mult.commute)
  qed
qed

lemma con_ok_repeat: "con_ok c \<Longrightarrow> (\<And>c. con_ok c \<Longrightarrow> con_ok (f c)) \<Longrightarrow> con_ok (repeat n f c)"
  by (induction n arbitrary: c) simp_all

lemma con_ok_region:
  assumes "con_ok c" and "t < b" and "b \<le> video_num_lines c"
  shows "con_ok (c\<lparr>con_top := t, con_bottom := b\<rparr>)"
  using assms by (auto simp: con_ok_defs)

text \<open>Scrolling in a temporary region from the cursor line to the end of the screen.\<close>

lemma scrup_num_lines [simp]: "video_num_lines (scrup c) = video_num_lines c"
  "video_num_lines (scrdown c) = video_num_lines c"
  by (simp_all add: scrup_def scrdown_def Let_def set_origin_def scroll_up_def erase_def)

lemma con_ok_delete_line: "con_ok c \<Longrightarrow> con_ok (delete_line c)"
  unfolding delete_line_def Let_def
  by (rule con_ok_region, rule con_ok_scrup, rule con_ok_region)
    (simp_all add: con_ok_def cursor_ok_def region_ok_def)

lemma con_ok_insert_line: "con_ok c \<Longrightarrow> con_ok (insert_line c)"
  unfolding insert_line_def Let_def
  by (rule con_ok_region, simp only: scrdown_ok, rule con_ok_region)
    (simp_all add: con_ok_def cursor_ok_def region_ok_def)

lemma con_ok_edit: "con_ok c \<Longrightarrow> con_ok (insert_char c)" "con_ok c \<Longrightarrow> con_ok (delete_char c)"
  by (simp_all add: insert_char_def delete_char_def)

lemma con_ok_set_attrs: "con_ok c \<Longrightarrow> con_ok (set_attrs ps c)"
  by (induction ps c rule: set_attrs.induct) auto

lemma con_ok_csi:
  assumes "con_ok c"
  shows "con_ok (csi_J n c)" "con_ok (csi_K n c)" "con_ok (csi_L n c)" "con_ok (csi_M n c)"
    "con_ok (csi_P n c)" "con_ok (csi_at n c)" "con_ok (csi_m c)"
  using assms
  by (simp_all add: csi_J_def csi_K_def csi_L_def csi_M_def csi_P_def csi_at_def csi_m_def
      con_ok_repeat con_ok_insert_line con_ok_delete_line con_ok_edit con_ok_set_attrs)

lemma con_ok_save: "con_ok (save_cur c) = con_ok c"
  by (simp add: save_cur_def)

lemma con_ok_restore: "con_ok c \<Longrightarrow> con_ok (restore_cur c)"
  by (simp add: restore_cur_def con_ok_gotoxy)

lemma con_ok_par [simp]: "con_ok (set_par i v c) = con_ok c" "con_ok (inc_par c) = con_ok c"
  "con_ok (dec_par i c) = con_ok c"
  by (simp_all add: set_par_def inc_par_def dec_par_def)

lemma con_ok_csi_final:
  assumes "con_ok c"
  shows "con_ok (csi_final ch c)"
proof -
  have "con_ok (c\<lparr>con_state := 0\<rparr>)" using assms by simp
  then show ?thesis
    unfolding csi_final_def Let_def
    by (simp add: con_ok_gotoxy con_ok_csi con_ok_save con_ok_restore con_ok_region)
qed

lemma con_ok_csi_param: "con_ok c \<Longrightarrow> con_ok (csi_param ch c)"
  by (simp add: csi_param_def con_ok_csi_final)

lemma con_ok_normal: "con_ok c \<Longrightarrow> con_ok (normal_char e ch c)"
  using con_ok_left [of c]
  by (simp add: normal_char_def con_ok_put_char con_ok_lf con_ok_cr con_ok_del con_ok_tab sysbeep_def)

lemma con_ok_char:
  assumes "con_ok c"
  shows "con_ok (snd (con_char e ch c))"
proof -
  have "con_ok (c\<lparr>con_state := st\<rparr>)" for st using assms by simp
  then have "con_ok (snd (escape_char ch c))"
    by (simp add: escape_char_def Let_def con_ok_gotoxy con_ok_ri con_ok_lf con_ok_save con_ok_restore)
  moreover have "con_ok (csi_start ch c)"
    using assms by (simp add: csi_start_def Let_def con_ok_csi_param)
  ultimately show ?thesis
    using assms by (simp add: con_char_def con_ok_normal con_ok_csi_param con_ok_csi_final)
qed

text \<open>The screen after a sequence of characters, without the answers to \<open>ESC Z\<close>.\<close>

definition con_chars :: "u8 \<Rightarrow> u8 list \<Rightarrow> console \<Rightarrow> console" where
  "con_chars e = fold (\<lambda>ch c. snd (con_char e ch c))"

lemma con_ok_chars: "con_ok c \<Longrightarrow> con_ok (con_chars e chs c)"
  by (induction chs arbitrary: c) (simp_all add: con_chars_def con_ok_char)

lemma con_ok_init:
  assumes "8 \<le> unat cols" and "unat cols \<le> 132" and "unat ox \<le> unat cols" and "unat oy < 25"
  shows "con_ok (con_init ox oy mode cols bx c)"
proof -
  have u: "unat (ucast cols :: u32) = unat cols" "unat (ucast ox :: u32) = unat ox" "unat (ucast oy :: u32) = unat oy"
    by (simp_all add: unsigned_ucast_eq take_bit_nat_eq_self unsigned_less [THEN order_less_le_trans])
  have r: "unat (ucast cols * 2 :: u32) = unat cols * 2"
    using assms(2) u by (subst unat_mult_small) simp_all
  have l: "\<not> (ucast cols :: u32) < ucast ox" "\<not> (25 :: u32) \<le> ucast oy"
    using assms(3,4) u by (simp_all add: word_less_nat_alt word_le_nat_alt)
  show ?thesis
    unfolding con_init_def Let_def gotoxy_def
    using l u r assms
    by (simp add: con_ok_def geometry_ok_def cursor_ok_def region_ok_def window_ok_def
        word_le_nat_alt word_less_nat_alt mult.commute)
qed

text \<open>
  C29. From the state \<open>con_init\<close> sets up, whatever characters are written (printable ones,
  control characters and escape sequences in any order, however damaged), the cursor
  stays on the screen, \<open>pos\<close> is its address, the scrolling region lies inside the screen
  and the displayed window lies inside video memory.
\<close>

theorem console_stays_on_screen:
  assumes "8 \<le> unat cols" and "unat cols \<le> 132" and "unat ox \<le> unat cols" and "unat oy < 25"
  shows "con_ok (con_chars e chs (con_init ox oy mode cols bx c))"
  by (rule con_ok_chars [OF con_ok_init [OF assms]])

definition blank_console :: console where
  "blank_console = \<lparr>video_type = 0, video_num_columns = 0, video_size_row = 0, video_num_lines = 0,
     video_mem_start = 0, video_mem_end = 0, video_erase_char = 0, origin = 0, scr_end = 0, con_pos = 0,
     con_x = 0, con_y = 0, con_top = 0, con_bottom = 0, con_state = 0, con_npar = 0, con_par = (\<lambda>_. 0),
     con_ques = False, con_attr = 7, saved_x = 0, saved_y = 0, vram = (\<lambda>_. 0), crt = [], beeps = 0\<rparr>"

theorem console_stays_on_screen_witness:
  "con_ok (con_chars 127 [27, 91, 50, 53, 59, 56, 48, 72, 65, 66, 10, 27, 91, 77]
     (con_init 3 4 3 80 1 blank_console))"
  by (rule console_stays_on_screen) simp_all

text \<open>
  C40. \<open>ESC 7\<close> and \<open>ESC 8\<close> do not work: the code compares the cursor column, not the
  character, so at every column other than 55 and 56 the two sequences leave the cursor
  and the saved position as they were, and at column 55 any unknown sequence saves.
\<close>

theorem escape_7_8_broken:
  "(con_x c \<notin> {55, 56} \<longrightarrow>
     (\<forall>ch \<in> {55, 56}. snd (escape_char ch c) = c\<lparr>con_state := 0\<rparr>)) \<and>
   (con_x c = 55 \<longrightarrow> (\<forall>ch. ch \<notin> {91, 69, 77, 68, 90} \<longrightarrow>
     snd (escape_char ch c) = c\<lparr>con_state := 0, saved_x := 55, saved_y := con_y c\<rparr>))"
  by (auto simp: escape_char_def Let_def save_cur_def)

theorem escape_7_8_broken_witness:
  "snd (escape_char 55 (blank_console\<lparr>con_x := 10\<rparr>)) = blank_console\<lparr>con_x := 10, con_state := 0\<rparr>"
  using escape_7_8_broken [of "blank_console\<lparr>con_x := 10\<rparr>"] by simp

end
