(* ===== verification/Ctype.thy ===== *)
theory Ctype
  imports Prelude
begin

text \<open>
  \<open>lib/ctype.c\<close> and \<open>include/ctype.h\<close>: the character class table and the macros on it. The
  macros index the table with a \<open>char\<close>; a negative one other than -1 (EOF) is outside it.
\<close>

definition CT_U :: u8 where "CT_U = 0x01"
definition CT_L :: u8 where "CT_L = 0x02"
definition CT_D :: u8 where "CT_D = 0x04"
definition CT_C :: u8 where "CT_C = 0x08"
definition CT_P :: u8 where "CT_P = 0x10"
definition CT_S :: u8 where "CT_S = 0x20"
definition CT_X :: u8 where "CT_X = 0x40"
definition CT_SP :: u8 where "CT_SP = 0x80"

text \<open>\<open>_ctype[]\<close>: the first entry is for EOF, the others for characters 0 to 255.\<close>

definition ctype_table :: "u8 list" where
  "ctype_table = [0] @ replicate 9 CT_C @ replicate 5 (CT_C OR CT_S) @ replicate 18 CT_C @ [CT_S OR CT_SP] @
     replicate 15 CT_P @ replicate 10 CT_D @ replicate 7 CT_P @ replicate 6 (CT_U OR CT_X) @
     replicate 20 CT_U @ replicate 6 CT_P @ replicate 6 (CT_L OR CT_X) @ replicate 20 CT_L @
     replicate 4 CT_P @ [CT_C] @ replicate 128 0"

text \<open>\<open>(_ctype+1)[c] & classes\<close>, undefined for a character below -1.\<close>

definition ctype_test :: "u8 \<Rightarrow> u8 \<Rightarrow> bool option" where
  "ctype_test classes c =
    (if c < 128 then Some (tst ((ctype_table ! Suc (unat c)) AND classes))
     else if c = 255 then Some (tst ((ctype_table ! 0) AND classes)) else None)"

definition isupper :: "u8 \<Rightarrow> bool option" where "isupper = ctype_test CT_U"
definition islower :: "u8 \<Rightarrow> bool option" where "islower = ctype_test CT_L"
definition isdigit :: "u8 \<Rightarrow> bool option" where "isdigit = ctype_test CT_D"
definition isspace :: "u8 \<Rightarrow> bool option" where "isspace = ctype_test CT_S"
definition iscntrl :: "u8 \<Rightarrow> bool option" where "iscntrl = ctype_test CT_C"
definition ispunct :: "u8 \<Rightarrow> bool option" where "ispunct = ctype_test CT_P"
definition isalpha :: "u8 \<Rightarrow> bool option" where "isalpha = ctype_test (CT_U OR CT_L)"
definition isalnum :: "u8 \<Rightarrow> bool option" where "isalnum = ctype_test (CT_U OR CT_L OR CT_D)"
definition isgraph :: "u8 \<Rightarrow> bool option" where "isgraph = ctype_test (CT_P OR CT_U OR CT_L OR CT_D)"
definition isprint :: "u8 \<Rightarrow> bool option" where "isprint = ctype_test (CT_P OR CT_U OR CT_L OR CT_D OR CT_SP)"
definition isxdigit :: "u8 \<Rightarrow> bool option" where "isxdigit = ctype_test (CT_D OR CT_X)"

definition tolower :: "u8 \<Rightarrow> u8 option" where
  "tolower c = map_option (\<lambda>u. if u then c - (65 - 97) else c) (isupper c)"

definition toupper :: "u8 \<Rightarrow> u8 option" where
  "toupper c = map_option (\<lambda>l. if l then c - (97 - 65) else c) (islower c)"

text \<open>The classes as ranges of ASCII.\<close>

definition in_class :: "u8 \<Rightarrow> nat \<Rightarrow> bool" where
  "in_class classes n \<longleftrightarrow>
     (classes AND CT_U \<noteq> 0 \<and> 65 \<le> n \<and> n \<le> 90) \<or> (classes AND CT_L \<noteq> 0 \<and> 97 \<le> n \<and> n \<le> 122) \<or>
     (classes AND CT_D \<noteq> 0 \<and> 48 \<le> n \<and> n \<le> 57) \<or> (classes AND CT_C \<noteq> 0 \<and> (n < 32 \<or> n = 127)) \<or>
     (classes AND CT_P \<noteq> 0 \<and> 33 \<le> n \<and> n \<le> 126 \<and> \<not> (48 \<le> n \<and> n \<le> 57) \<and> \<not> (65 \<le> n \<and> n \<le> 90) \<and>
        \<not> (97 \<le> n \<and> n \<le> 122)) \<or>
     (classes AND CT_S \<noteq> 0 \<and> (9 \<le> n \<and> n \<le> 13 \<or> n = 32)) \<or>
     (classes AND CT_X \<noteq> 0 \<and> (65 \<le> n \<and> n \<le> 70 \<or> 97 \<le> n \<and> n \<le> 102)) \<or>
     (classes AND CT_SP \<noteq> 0 \<and> n = 32)"

text \<open>The entry of each range of characters.\<close>

lemma ctype_entry:
  "n < 9 \<Longrightarrow> ctype_table ! Suc n = CT_C"
  "9 \<le> n \<Longrightarrow> n < 14 \<Longrightarrow> ctype_table ! Suc n = (CT_C OR CT_S)"
  "14 \<le> n \<Longrightarrow> n < 32 \<Longrightarrow> ctype_table ! Suc n = (CT_C)"
  "32 \<le> n \<Longrightarrow> n < 33 \<Longrightarrow> ctype_table ! Suc n = (CT_S OR CT_SP)"
  "33 \<le> n \<Longrightarrow> n < 48 \<Longrightarrow> ctype_table ! Suc n = (CT_P)"
  "48 \<le> n \<Longrightarrow> n < 58 \<Longrightarrow> ctype_table ! Suc n = (CT_D)"
  "58 \<le> n \<Longrightarrow> n < 65 \<Longrightarrow> ctype_table ! Suc n = (CT_P)"
  "65 \<le> n \<Longrightarrow> n < 71 \<Longrightarrow> ctype_table ! Suc n = (CT_U OR CT_X)"
  "71 \<le> n \<Longrightarrow> n < 91 \<Longrightarrow> ctype_table ! Suc n = (CT_U)"
  "91 \<le> n \<Longrightarrow> n < 97 \<Longrightarrow> ctype_table ! Suc n = (CT_P)"
  "97 \<le> n \<Longrightarrow> n < 103 \<Longrightarrow> ctype_table ! Suc n = (CT_L OR CT_X)"
  "103 \<le> n \<Longrightarrow> n < 123 \<Longrightarrow> ctype_table ! Suc n = (CT_L)"
  "123 \<le> n \<Longrightarrow> n < 127 \<Longrightarrow> ctype_table ! Suc n = (CT_P)"
  "127 \<le> n \<Longrightarrow> n < 128 \<Longrightarrow> ctype_table ! Suc n = (CT_C)"
  by (simp_all add: ctype_table_def nth_append less_diff_conv2)

lemma ascii_ranges:
  assumes "n < (128 :: nat)"
  obtains "n < 9" | "9 \<le> n" "n < 14" | "14 \<le> n" "n < 32" | "32 \<le> n" "n < 33" | "33 \<le> n" "n < 48" | "48 \<le> n" "n < 58" | "58 \<le> n" "n < 65" | "65 \<le> n" "n < 71" | "71 \<le> n" "n < 91" | "91 \<le> n" "n < 97" | "97 \<le> n" "n < 103" | "103 \<le> n" "n < 123" | "123 \<le> n" "n < 127" | "127 \<le> n" "n < 128"
  using assms by atomize_elim (simp add: not_less [symmetric] del: not_less cong: disj_cong)

lemma and_or_zero: "(a OR b :: u8) AND m = 0 \<longleftrightarrow> a AND m = 0 \<and> b AND m = 0"
  by (simp add: bit.conj_disj_distrib2 or_eq_0_iff)



end
