(* ===== verification/State.thy ===== *)
theory State
  imports Memory Console
begin

text \<open>
  The kernel's data structures outside \<open>mm/\<close>: \<open>include/linux/sched.h\<close>, \<open>fs.h\<close>, \<open>tty.h\<close>,
  \<open>kernel/blk_drv/blk.h\<close> and the static tables of \<open>sched.c\<close>, \<open>fs/\<close> and \<open>blk_drv/\<close>.

  A pointer into a table (\<open>inode_table\<close>, \<open>file_table\<close>, \<open>super_block\<close>, \<open>request\<close>, the
  buffer heads, the task table) is the index of its entry, NULL is \<open>None\<close>; the tables
  themselves are functions from indices, and every loop over one runs to the constant
  the C code has (\<open>NR_INODE\<close>, \<open>NR_FILE\<close>, ...). A \<open>struct task_struct\<close> is \<open>tsk s i\<close>, the
  pointer \<open>task[i]\<close> to it is \<open>task s i\<close>, the address of its page or 0. User memory is
  seen through the page tables: \<open>user s i a\<close> is the byte at address \<open>a\<close> of the data
  segment of the task in slot \<open>i\<close>.
\<close>

section \<open>Tasks\<close>

record sigaction =
  sa_handler :: u32
  sa_mask :: u32
  sa_flags :: u32
  sa_restorer :: u32

text \<open>\<open>struct i387_struct\<close>: the 27 words of the saved coprocessor state.\<close>

type_synonym i387_struct = "nat \<Rightarrow> u32"

record tss_struct =
  back_link :: u32
  esp0 :: u32
  ss0 :: u32
  esp1 :: u32
  ss1 :: u32
  esp2 :: u32
  ss2 :: u32
  cr3 :: u32
  tss_eip :: u32
  tss_eflags :: u32
  tss_eax :: u32
  tss_ecx :: u32
  tss_edx :: u32
  tss_ebx :: u32
  tss_esp :: u32
  tss_ebp :: u32
  tss_esi :: u32
  tss_edi :: u32
  tss_es :: u32
  tss_cs :: u32
  tss_ss :: u32
  tss_ds :: u32
  tss_fs :: u32
  tss_gs :: u32
  tss_ldt :: u32
  trace_bitmap :: u32
  i387 :: i387_struct

record task_struct =
  t_state :: u32
  t_counter :: u32
  t_priority :: u32
  t_signal :: u32
  t_sigaction :: "nat \<Rightarrow> sigaction"
  t_blocked :: u32
  t_exit_code :: u32
  t_start_code :: u32
  t_end_code :: u32
  t_end_data :: u32
  t_brk :: u32
  t_start_stack :: u32
  t_pid :: u32
  t_father :: u32
  t_pgrp :: u32
  t_session :: u32
  t_leader :: u32
  t_uid :: u16
  t_euid :: u16
  t_suid :: u16
  t_gid :: u16
  t_egid :: u16
  t_sgid :: u16
  t_alarm :: u32
  t_utime :: u32
  t_stime :: u32
  t_cutime :: u32
  t_cstime :: u32
  t_start_time :: u32
  t_used_math :: u16
  t_tty :: u32
  t_umask :: u16
  t_pwd :: "nat option"
  t_root :: "nat option"
  t_executable :: "nat option"
  t_close_on_exec :: u32
  t_filp :: "nat \<Rightarrow> nat option"
  t_ldt :: "nat \<Rightarrow> 64 word"
  t_tss :: tss_struct

definition NR_TASKS :: nat where "NR_TASKS = 64"
definition NR_OPEN :: nat where "NR_OPEN = 20"
definition HZ :: u32 where "HZ = 100"

definition TASK_RUNNING :: u32 where "TASK_RUNNING = 0"
definition TASK_INTERRUPTIBLE :: u32 where "TASK_INTERRUPTIBLE = 1"
definition TASK_UNINTERRUPTIBLE :: u32 where "TASK_UNINTERRUPTIBLE = 2"
definition TASK_ZOMBIE :: u32 where "TASK_ZOMBIE = 3"
definition TASK_STOPPED :: u32 where "TASK_STOPPED = 4"

section \<open>Files, inodes, super blocks, buffers\<close>

record file_struct =
  f_mode :: u16
  f_flags :: u16
  f_count :: u16
  f_inode :: "nat option"
  f_pos :: u32

record m_inode =
  i_mode :: u16
  i_uid :: u16
  i_size :: u32
  i_mtime :: u32
  i_gid :: u8
  i_nlinks :: u8
  i_zone :: "nat \<Rightarrow> u16"
  i_wait :: "nat option"
  i_atime :: u32
  i_ctime :: u32
  i_dev :: u16
  i_num :: u16
  i_count :: u16
  i_lock :: u8
  i_dirt :: u8
  i_pipe :: u8
  i_mount :: u8
  i_seek :: u8
  i_update :: u8

record super_block =
  s_ninodes :: u16
  s_nzones :: u16
  s_imap_blocks :: u16
  s_zmap_blocks :: u16
  s_firstdatazone :: u16
  s_log_zone_size :: u16
  s_max_size :: u32
  s_magic :: u16
  s_imap :: "nat \<Rightarrow> nat option"
  s_zmap :: "nat \<Rightarrow> nat option"
  s_dev :: u16
  s_isup :: "nat option"
  s_imount :: "nat option"
  s_time :: u32
  s_wait :: "nat option"
  s_lock :: u8
  s_rd_only :: u8
  s_dirt :: u8

record buffer_head =
  b_data :: "nat \<Rightarrow> u8"            \<comment> \<open>the block, at offsets below 1024\<close>
  b_addr :: u32                    \<comment> \<open>where in memory the block is, the pointer \<open>b_data\<close>\<close>
  b_blocknr :: u32
  b_dev :: u16
  b_uptodate :: u8
  b_dirt :: u8
  b_count :: u8
  b_lock :: u8
  b_wait :: "nat option"
  b_prev :: "nat option"
  b_next :: "nat option"
  b_prev_free :: "nat option"
  b_next_free :: "nat option"

definition NR_INODE :: nat where "NR_INODE = 32"
definition NR_FILE :: nat where "NR_FILE = 64"
definition NR_SUPER :: nat where "NR_SUPER = 8"
definition NR_HASH :: nat where "NR_HASH = 307"
definition BLOCK_SIZE :: nat where "BLOCK_SIZE = 1024"
definition I_MAP_SLOTS :: nat where "I_MAP_SLOTS = 8"
definition Z_MAP_SLOTS :: nat where "Z_MAP_SLOTS = 8"
definition ROOT_INO :: u32 where "ROOT_INO = 1"
definition SUPER_MAGIC :: u16 where "SUPER_MAGIC = 0x137F"
definition NAME_LEN :: nat where "NAME_LEN = 14"

definition READ :: u32 where "READ = 0"
definition WRITE :: u32 where "WRITE = 1"
definition READA :: u32 where "READA = 2"
definition WRITEA :: u32 where "WRITEA = 3"

definition MAJOR :: "u32 \<Rightarrow> u32" where "MAJOR a = drop_bit 8 a"
definition MINOR :: "u32 \<Rightarrow> u32" where "MINOR a = a AND 0xff"

definition IS_SEEKABLE :: "u32 \<Rightarrow> bool" where "IS_SEEKABLE x \<longleftrightarrow> 1 \<le> x \<and> x \<le> 3"

section \<open>Block device requests\<close>

record request =
  r_dev :: u32                     \<comment> \<open>-1 if no request\<close>
  r_cmd :: u32
  r_errors :: u32
  r_sector :: u32
  r_nr_sectors :: u32
  r_waiting :: "nat option"
  r_bh :: nat
  r_buffer :: nat                  \<comment> \<open>\<open>buffer\<close>: the offset in the \<open>b_data\<close> of the buffer head\<close>
  r_next :: "nat option"

definition NR_REQUEST :: nat where "NR_REQUEST = 32"
definition NR_BLK_DEV :: nat where "NR_BLK_DEV = 7"

text \<open>
  \<open>request_fn\<close> of a driver: the RAM disk runs to completion inside the call, the hard disk
  driver gives commands to its controller and goes on in its interrupt, the floppy driver
  waits for its motor first.
\<close>

datatype driver = Ramdisk | Harddisk | Floppy

section \<open>Ports and the hard disk\<close>

text \<open>
  The hardware behind the input ports is not code: \<open>port_in n p\<close> is what the \<open>n\<close>-th read of a
  port gives if it is from port \<open>p\<close>. \<open>port_out\<close> lists what was written, latest first.
\<close>

record port_state =
  port_in :: "nat \<Rightarrow> u16 \<Rightarrow> u16"
  port_reads :: nat
  port_out :: "(u16 \<times> u16) list"

record hd_i_struct =
  hd_head :: u32
  hd_sect :: u32
  hd_cyl :: u32
  hd_wpcom :: u32
  hd_lzone :: u32
  hd_ctl :: u32

text \<open>The functions \<open>do_hd\<close> points to.\<close>

datatype hd_intr = Read_intr | Write_intr | Recal_intr

record hd_state =
  hd_recalibrate :: bool
  hd_reset :: bool
  hd_info :: "nat \<Rightarrow> hd_i_struct"
  NR_HD :: u32
  start_sect :: "nat \<Rightarrow> u32"
  nr_sects :: "nat \<Rightarrow> u32"
  do_hd :: "hd_intr option"
  callable :: bool

section \<open>The floppy controller\<close>

text \<open>The functions \<open>do_floppy\<close> points to, and the static variables of \<open>floppy.c\<close>.\<close>

datatype fd_intr = Rw_interrupt | Seek_interrupt | Recal_interrupt | Reset_interrupt

record fd_state =
  fd_recalibrate :: bool
  fd_reset :: bool
  fd_seek :: bool
  reply_buffer :: "nat \<Rightarrow> u8"
  cur_spec1 :: u32
  cur_rate :: u32
  fd_type :: nat                   \<comment> \<open>the pointer \<open>floppy\<close> into \<open>floppy_type[]\<close>\<close>
  current_drive :: u8
  fd_sector :: u8
  fd_head :: u8
  fd_track :: u8
  seek_track :: u8
  current_track :: u8
  fd_command :: u8
  do_floppy :: "fd_intr option"
  tmp_floppy_area :: "nat \<Rightarrow> u8"

section \<open>Terminals\<close>

record tty_queue =
  q_data :: u32
  q_head :: u32
  q_tail :: u32
  q_proc_list :: "nat option"
  q_buf :: "nat \<Rightarrow> u8"

record termios =
  c_iflag :: u32
  c_oflag :: u32
  c_cflag :: u32
  c_lflag :: u32
  c_line :: u8
  c_cc :: "nat \<Rightarrow> u8"

record tty_struct =
  tt_termios :: termios
  tt_pgrp :: u32
  tt_stopped :: u32
  read_q :: tty_queue
  write_q :: tty_queue
  secondary :: tty_queue

section \<open>Timers\<close>

text \<open>
  \<open>timer_list\<close> of \<open>sched.c\<close>: a function to call is a number, 0 is NULL; \<open>fired\<close> lists
  the functions called, latest first. The floppy motor timers are in the second record.
\<close>

record timer_state =
  tl_jiffies :: "nat \<Rightarrow> u32"
  tl_fn :: "nat \<Rightarrow> nat"
  tl_next :: "nat \<Rightarrow> nat option"
  next_timer :: "nat option"
  fired :: "nat list"

record floppy_state =
  wait_motor :: "nat \<Rightarrow> nat option"
  mon_timer :: "nat \<Rightarrow> u32"
  moff_timer :: "nat \<Rightarrow> u32"
  current_DOR :: u8
  selected :: u8
  wait_on_floppy_select :: "nat option"
  dor_port :: "u8 list"            \<comment> \<open>the bytes written to \<open>FD_DOR\<close>, latest first\<close>

section \<open>The kernel state\<close>

record kstate =
  mm :: mm_state
  task :: "nat \<Rightarrow> u32"
  tsk :: "nat \<Rightarrow> task_struct"
  current :: nat
  last_task_used_math :: "nat option"
  fpu :: i387_struct               \<comment> \<open>the coprocessor's registers\<close>
  timers :: timer_state
  floppy :: floppy_state
  beepcount :: u32
  last_pid :: u32
  jiffies :: u32
  startup_time :: u32
  user :: "nat \<Rightarrow> u32 \<Rightarrow> u8"
  file_table :: "nat \<Rightarrow> file_struct"
  inode_table :: "nat \<Rightarrow> m_inode"
  last_inode :: nat                \<comment> \<open>\<open>static last_inode\<close> of \<open>get_empty_inode\<close>\<close>
  super_block :: "nat \<Rightarrow> super_block"
  ROOT_DEV :: u32
  bh :: "nat \<Rightarrow> buffer_head"
  nr_buffers :: nat
  hash_table :: "nat \<Rightarrow> nat option"
  free_list :: nat
  buffer_wait :: "nat option"
  null_prev :: "nat option"        \<comment> \<open>what a store to \<open>b_prev\<close> through NULL hits\<close>
  request :: "nat \<Rightarrow> request"
  request_fn :: "nat \<Rightarrow> driver option"
  current_request :: "nat \<Rightarrow> nat option"
  wait_for_request :: "nat option"
  rd_start :: u32
  rd_length :: u32
  rd_mem :: "u32 \<Rightarrow> u8"           \<comment> \<open>the memory of the RAM disk, by address\<close>
  ports :: port_state
  harddisk :: hd_state
  fdc :: fd_state
  gdt :: "nat \<Rightarrow> 64 word"
  tty_table :: "nat \<Rightarrow> tty_struct"
  cr_flag :: bool                  \<comment> \<open>\<open>static cr_flag\<close> of \<open>tty_write\<close>\<close>
  console :: console

text \<open>\<open>current->field\<close>.\<close>

definition cur :: "kstate \<Rightarrow> task_struct" where
  "cur s = tsk s (current s)"

definition upd_task :: "nat \<Rightarrow> (task_struct \<Rightarrow> task_struct) \<Rightarrow> kstate \<Rightarrow> kstate" where
  "upd_task i f s = s\<lparr>tsk := (tsk s)(i := f (tsk s i))\<rparr>"

definition upd_cur :: "(task_struct \<Rightarrow> task_struct) \<Rightarrow> kstate \<Rightarrow> kstate" where
  "upd_cur f s = upd_task (current s) f s"

definition upd_file :: "nat \<Rightarrow> (file_struct \<Rightarrow> file_struct) \<Rightarrow> kstate \<Rightarrow> kstate" where
  "upd_file i f s = s\<lparr>file_table := (file_table s)(i := f (file_table s i))\<rparr>"

definition upd_inode :: "nat \<Rightarrow> (m_inode \<Rightarrow> m_inode) \<Rightarrow> kstate \<Rightarrow> kstate" where
  "upd_inode i f s = s\<lparr>inode_table := (inode_table s)(i := f (inode_table s i))\<rparr>"

definition upd_super :: "nat \<Rightarrow> (super_block \<Rightarrow> super_block) \<Rightarrow> kstate \<Rightarrow> kstate" where
  "upd_super i f s = s\<lparr>super_block := (super_block s)(i := f (super_block s i))\<rparr>"

definition upd_bh :: "nat \<Rightarrow> (buffer_head \<Rightarrow> buffer_head) \<Rightarrow> kstate \<Rightarrow> kstate" where
  "upd_bh i f s = s\<lparr>bh := (bh s)(i := f (bh s i))\<rparr>"

definition upd_req :: "nat \<Rightarrow> (request \<Rightarrow> request) \<Rightarrow> kstate \<Rightarrow> kstate" where
  "upd_req i f s = s\<lparr>request := (request s)(i := f (request s i))\<rparr>"

definition upd_tty :: "nat \<Rightarrow> (tty_struct \<Rightarrow> tty_struct) \<Rightarrow> kstate \<Rightarrow> kstate" where
  "upd_tty i f s = s\<lparr>tty_table := (tty_table s)(i := f (tty_table s i))\<rparr>"

definition in_mm :: "(mm_state \<Rightarrow> ('a, mm_state) outcome) \<Rightarrow> kstate \<Rightarrow> ('a, kstate) outcome" where
  "in_mm f s = lift_outcome (\<lambda>m. s\<lparr>mm := m\<rparr>) (f (mm s))"

lemmas [state_simps] = cur_def upd_cur_def upd_task_def upd_file_def upd_inode_def upd_super_def
  upd_bh_def upd_req_def upd_tty_def

section \<open>User memory\<close>

definition get_fs_byte :: "u32 \<Rightarrow> kstate \<Rightarrow> u8" where
  "get_fs_byte a s = user s (current s) a"

definition get_fs_word :: "u32 \<Rightarrow> kstate \<Rightarrow> u16" where
  "get_fs_word a s = word_cat (get_fs_byte (a + 1) s) (get_fs_byte a s)"

definition get_fs_long :: "u32 \<Rightarrow> kstate \<Rightarrow> u32" where
  "get_fs_long a s = word_cat (get_fs_word (a + 2) s) (get_fs_word a s)"

definition put_fs_byte :: "u8 \<Rightarrow> u32 \<Rightarrow> kstate \<Rightarrow> kstate" where
  "put_fs_byte v a s = s\<lparr>user := (user s)(current s := (user s (current s))(a := v))\<rparr>"

definition put_fs_long :: "u32 \<Rightarrow> u32 \<Rightarrow> kstate \<Rightarrow> kstate" where
  "put_fs_long v a s = put_fs_byte (ucast (drop_bit 24 v)) (a + 3)
     (put_fs_byte (ucast (drop_bit 16 v)) (a + 2)
       (put_fs_byte (ucast (drop_bit 8 v)) (a + 1) (put_fs_byte (ucast v) a s)))"

section \<open>Ports and kernel memory\<close>

text \<open>\<open>outb\<close> and \<open>outb_p\<close>, \<open>inb\<close> and \<open>inb_p\<close> differ in a delay only.\<close>

definition outb :: "u8 \<Rightarrow> u16 \<Rightarrow> kstate \<Rightarrow> kstate" where
  "outb v p s = s\<lparr>ports := ports s\<lparr>port_out := (p, ucast v) # port_out (ports s)\<rparr>\<rparr>"

definition in_port :: "u16 \<Rightarrow> kstate \<Rightarrow> u16 \<times> kstate" where
  "in_port p s = (port_in (ports s) (port_reads (ports s)) p,
     s\<lparr>ports := ports s\<lparr>port_reads := port_reads (ports s) + 1\<rparr>\<rparr>)"

definition inb :: "u16 \<Rightarrow> kstate \<Rightarrow> u8 \<times> kstate" where
  "inb p s = (case in_port p s of (v, s) \<Rightarrow> (ucast v, s))"

text \<open>A byte of the kernel's memory, in the cell at the address rounded down to a multiple of 4.\<close>

definition phys_byte :: "u32 \<Rightarrow> mm_state \<Rightarrow> u8" where
  "phys_byte a m = ucast (drop_bit (8 * unat (a AND 3)) (phys m (a AND NOT 3)))"

definition poke_byte :: "u8 \<Rightarrow> u32 \<Rightarrow> mm_state \<Rightarrow> mm_state" where
  "poke_byte v a m = (let n = 8 * unat (a AND 3) in
     poke (a AND NOT 3) ((phys m (a AND NOT 3) AND NOT (push_bit n 0xff)) OR push_bit n (ucast v)) m)"

section \<open>Error numbers\<close>

definition EPERM :: u32 where "EPERM = 1"
definition ENOENT :: u32 where "ENOENT = 2"
definition ESRCH :: u32 where "ESRCH = 3"
definition EINTR :: u32 where "EINTR = 4"
definition EIO :: u32 where "EIO = 5"
definition E2BIG :: u32 where "E2BIG = 7"
definition ENOEXEC :: u32 where "ENOEXEC = 8"
definition EBADF :: u32 where "EBADF = 9"
definition ECHILD :: u32 where "ECHILD = 10"
definition EAGAIN :: u32 where "EAGAIN = 11"
definition ENOMEM :: u32 where "ENOMEM = 12"
definition EACCES :: u32 where "EACCES = 13"
definition ENOTBLK :: u32 where "ENOTBLK = 15"
definition EBUSY :: u32 where "EBUSY = 16"
definition EEXIST :: u32 where "EEXIST = 17"
definition EXDEV :: u32 where "EXDEV = 18"
definition ENODEV :: u32 where "ENODEV = 19"
definition ENOTDIR :: u32 where "ENOTDIR = 20"
definition EISDIR :: u32 where "EISDIR = 21"
definition EINVAL :: u32 where "EINVAL = 22"
definition EMFILE :: u32 where "EMFILE = 24"
definition ENOTTY :: u32 where "ENOTTY = 25"
definition ENOSPC :: u32 where "ENOSPC = 28"
definition ESPIPE :: u32 where "ESPIPE = 29"
definition ENOSYS :: u32 where "ENOSYS = 38"
definition ERROR :: u32 where "ERROR = 99"

definition CURRENT_TIME :: "kstate \<Rightarrow> u32" where
  "CURRENT_TIME s = startup_time s + cdiv (jiffies s) HZ"

definition suser :: "kstate \<Rightarrow> bool" where
  "suser s \<longleftrightarrow> t_euid (cur s) = 0"

end
