(* ===== verification/Segments.thy ===== *)
theory Segments
  imports State
begin

text \<open>
  Segment descriptors (\<open>include/linux/sched.h\<close>) and \<open>verify_area\<close> of \<open>kernel/fork.c\<close>. A
  descriptor is the 64-bit word of the local descriptor table: base in bits 16 to 39 and
  56 to 63, limit in bits 0 to 15 and 48 to 51, granularity in bit 55.
\<close>

definition field :: "nat \<Rightarrow> nat \<Rightarrow> 64 word \<Rightarrow> u32" where
  "field n k d = ucast (take_bit k (drop_bit n d))"

definition put_field :: "nat \<Rightarrow> nat \<Rightarrow> u32 \<Rightarrow> 64 word \<Rightarrow> 64 word" where
  "put_field n k v d = (d AND NOT (push_bit n (mask k))) OR push_bit n (ucast (take_bit k v))"

definition get_base :: "64 word \<Rightarrow> u32" where
  "get_base d = field 16 16 d OR push_bit 16 (field 32 8 d) OR push_bit 24 (field 56 8 d)"

definition set_base :: "u32 \<Rightarrow> 64 word \<Rightarrow> 64 word" where
  "set_base b d = put_field 56 8 (drop_bit 24 b) (put_field 32 8 (drop_bit 16 b) (put_field 16 16 b d))"

text \<open>\<open>lsl\<close> and the increment of \<open>get_limit\<close>: the size of the segment in bytes.\<close>

definition raw_limit :: "64 word \<Rightarrow> u32" where
  "raw_limit d = field 0 16 d OR push_bit 16 (field 48 4 d)"

definition get_limit :: "64 word \<Rightarrow> u32" where
  "get_limit d = (if bit d 55 then (push_bit 12 (raw_limit d) OR mask 12) else raw_limit d) + 1"

definition set_limit :: "u32 \<Rightarrow> 64 word \<Rightarrow> 64 word" where
  "set_limit n d = (let l = drop_bit 12 (n - 1) in put_field 48 4 (drop_bit 16 l) (put_field 0 16 l d))"

text \<open>The three segments of a task: \<open>ldt[1]\<close> is the code, \<open>ldt[2]\<close> data and stack.\<close>

definition code_base :: "kstate \<Rightarrow> u32" where "code_base s = get_base (t_ldt (cur s) 1)"
definition data_base :: "kstate \<Rightarrow> u32" where "data_base s = get_base (t_ldt (cur s) 2)"
definition code_limit :: "kstate \<Rightarrow> u32" where "code_limit s = get_limit (t_ldt (cur s) 1)"
definition data_limit :: "kstate \<Rightarrow> u32" where "data_limit s = get_limit (t_ldt (cur s) 2)"

definition verify_step :: "u32 \<times> u32 \<Rightarrow> kstate \<Rightarrow> ((u32 \<times> u32) + unit, kstate) outcome" where
  "verify_step v s = (case v of (sz, start) \<Rightarrow>
     if slt 0 sz then seq (in_mm (write_verify start) s) (\<lambda>_ s. Ret (Inl (sz - 4096, start + 4096)) s)
     else Ret (Inr ()) s)"

definition verify_area :: "u32 \<Rightarrow> u32 \<Rightarrow> kstate \<Rightarrow> (unit, kstate) outcome" where
  "verify_area addr sz s =
     loop verify_step (sz + (addr AND 0xfff), (addr AND 0xfffff000) + data_base s) s"

section \<open>Round trips\<close>

lemma bit_field: "k \<le> 32 \<Longrightarrow> bit (field n k d) m \<longleftrightarrow> m < k \<and> bit d (n + m)"
  by (auto simp: field_def bit_simps)

lemma bit_put_field:
  "n + k \<le> 64 \<Longrightarrow> k \<le> 32 \<Longrightarrow> bit (put_field n k v d) m \<longleftrightarrow>
     (if n \<le> m \<and> m < n + k then bit v (m - n) else bit d m)"
  by (auto simp: put_field_def bit_simps dest: bit_imp_le_length)

lemma bit_get_base: "bit (get_base d) m \<longleftrightarrow>
    (if m < 24 then bit d (16 + m) else m < 32 \<and> bit d (32 + m))"
proof -
  have "16 + m = 32 + (m - 16)" if "16 \<le> m" using that by simp
  moreover have "32 + m = 56 + (m - 24)" if "24 \<le> m" using that by simp
  ultimately show ?thesis
    by (auto simp: get_base_def bit_simps bit_field)
qed

lemma get_set_base: "get_base (set_base b d) = b"
  by (rule bit_word_eqI) (auto simp: bit_get_base set_base_def bit_put_field bit_simps)

lemma get_base_set_limit: "get_base (set_limit n d) = get_base d"
  by (rule bit_word_eqI) (auto simp: bit_get_base set_limit_def Let_def bit_put_field)

lemma bit_raw_limit: "bit (raw_limit d) m \<longleftrightarrow> (if m < 16 then bit d m else m < 20 \<and> bit d (32 + m))"
proof -
  have "32 + m = 48 + (m - 16)" if "16 \<le> m" using that by simp
  then show ?thesis by (auto simp: raw_limit_def bit_simps bit_field)
qed

lemma raw_limit_set_limit: "raw_limit (set_limit n d) = drop_bit 12 (n - 1)"
  by (rule bit_word_eqI)
    (auto simp: bit_raw_limit set_limit_def Let_def bit_put_field bit_simps dest: bit_imp_le_length)

lemma raw_limit_set_base: "raw_limit (set_base b d) = raw_limit d"
  by (rule bit_word_eqI) (auto simp: bit_raw_limit set_base_def bit_put_field)

lemma granularity_kept: "bit (set_limit n d) 55 = bit d 55" "bit (set_base b d) 55 = bit d 55"
  by (simp_all add: set_limit_def set_base_def Let_def bit_put_field)

lemma take_bit_minus_one_int: "take_bit 12 n = 0 \<Longrightarrow> take_bit 12 (n - 1) = mask 12" for n :: int
  using take_bit_diff [of 12 n 1] take_bit_diff [of 12 0 1]
  by (simp only: mask_eq_take_bit_minus_one diff_0) simp

lemma take_bit_minus_one:
  "take_bit 12 (n :: u32) = 0 \<Longrightarrow> take_bit 12 (n - 1) = mask 12"
  by transfer (simp add: take_bit_minus_one_int min_def)

lemma page_minus_one:
  assumes "n AND 0xfff = (0 :: u32)"
  shows "push_bit 12 (drop_bit 12 (n - 1)) OR mask 12 = n - 1"
proof -
  have "take_bit 12 n = 0"
    using assms by (simp add: take_bit_eq_mask mask_eq_exp_minus_1)
  then have "take_bit 12 (n - 1) = mask 12" by (rule take_bit_minus_one)
  then have low: "bit (n - 1) m" if "m < 12" for m
  proof -
    have "bit (take_bit 12 (n - 1)) m" using that \<open>take_bit 12 (n - 1) = mask 12\<close> by (simp add: bit_mask_iff)
    then show ?thesis by (simp only: bit_take_bit_iff)
  qed
  show ?thesis
    by (rule bit_word_eqI) (use low in \<open>auto simp: bit_simps\<close>)
qed

text \<open>
  C36. Segment descriptors: the base and the page-granular limit written into a
  descriptor are read back, and neither disturbs the other.
\<close>

theorem descriptor_fields:
  assumes "n AND 0xfff = 0" and "bit d 55"
  shows "get_base (set_base b d) = b \<and> get_limit (set_limit n d) = n \<and>
    get_base (set_limit n d) = get_base d \<and> get_limit (set_base b d) = get_limit d"
  using assms
  by (simp add: get_set_base get_base_set_limit get_limit_def granularity_kept raw_limit_set_limit
      raw_limit_set_base page_minus_one)

theorem descriptor_fields_witness:
  "get_base (set_base 0x4000000 0x00c0fa000000009f) = 0x4000000 \<and>
   get_limit (set_limit 0x4000000 0x00c0fa000000009f) = 0x4000000 \<and>
   get_base (set_limit 0x4000000 0x00c0fa000000009f) = get_base 0x00c0fa000000009f \<and>
   get_limit (set_base 0x4000000 0x00c0fa000000009f) = get_limit 0x00c0fa000000009f"
  by (rule descriptor_fields) (simp_all add: bit_iff_odd_drop_bit drop_bit_eq_div)

end
