(* ===== verification/Sched.thy ===== *)
theory Sched
  imports State
begin

text \<open>
  \<open>kernel/sched.c\<close>: the scheduler, sleeping and waking, the coprocessor switch, the
  clock interrupt and the small system calls. A run that gives up the processor ends
  in \<open>Sleeps s\<close>, where \<open>current s\<close> is the task switched to.
\<close>

definition SIGHUP :: u32 where "SIGHUP = 1"
definition SIGINT :: u32 where "SIGINT = 2"
definition SIGQUIT :: u32 where "SIGQUIT = 3"
definition SIGKILL :: u32 where "SIGKILL = 9"
definition SIGPIPE :: u32 where "SIGPIPE = 13"
definition SIGALRM :: u32 where "SIGALRM = 14"
definition SIGCHLD :: u32 where "SIGCHLD = 17"
definition SIGSTOP :: u32 where "SIGSTOP = 19"

text \<open>\<open>_S(nr)\<close> of \<open>sched.c\<close>, and \<open>1<<(sig-1)\<close> everywhere else.\<close>

definition sig_bit :: "u32 \<Rightarrow> u32" where
  "sig_bit nr = push_bit (unat (nr - 1)) 1"

definition BLOCKABLE :: u32 where
  "BLOCKABLE = NOT (sig_bit SIGKILL OR sig_bit SIGSTOP)"

section \<open>The scheduler\<close>

text \<open>One step of the first loop: an expired alarm, and a signal for a sleeping task.\<close>

definition check_signals :: "u32 \<Rightarrow> task_struct \<Rightarrow> task_struct" where
  "check_signals now p =
    (let p = (if tst (t_alarm p) \<and> slt (t_alarm p) now
              then p\<lparr>t_signal := t_signal p OR sig_bit SIGALRM, t_alarm := 0\<rparr> else p)
     in if tst (t_signal p AND NOT (BLOCKABLE AND t_blocked p)) \<and> t_state p = TASK_INTERRUPTIBLE
        then p\<lparr>t_state := TASK_RUNNING\<rparr> else p)"

text \<open>A loop over \<open>task[63]\<close> down to \<open>task[1]\<close> that changes each task by itself.\<close>

primrec for_tasks :: "nat \<Rightarrow> (task_struct \<Rightarrow> task_struct) \<Rightarrow> kstate \<Rightarrow> kstate" where
  "for_tasks 0 f s = s"
| "for_tasks (Suc i) f s = for_tasks i f (if tst (task s (Suc i)) then upd_task (Suc i) f s else s)"

text \<open>The task with the most time left; \<open>i\<close> runs down to 1 and ties keep the higher slot.\<close>

primrec pick :: "nat \<Rightarrow> u32 \<Rightarrow> nat \<Rightarrow> kstate \<Rightarrow> u32 \<times> nat" where
  "pick 0 c nxt s = (c, nxt)"
| "pick (Suc i) c nxt s =
     (let p = tsk s (Suc i) in
      if tst (task s (Suc i)) \<and> t_state p = TASK_RUNNING \<and> slt c (t_counter p)
      then pick i (t_counter p) (Suc i) s
      else pick i c nxt s)"

definition refill :: "task_struct \<Rightarrow> task_struct" where
  "refill p = p\<lparr>t_counter := signed_drop_bit 1 (t_counter p) + t_priority p\<rparr>"

text \<open>\<open>while (1)\<close>: \<open>None\<close> if it never finds a task with time left.\<close>

partial_function (option) choose_task :: "kstate \<Rightarrow> (nat \<times> kstate) option" where
  "choose_task s =
    (let (c, nxt) = pick (NR_TASKS - 1) (- 1) 0 s in
     if tst c then Some (nxt, s) else choose_task (for_tasks (NR_TASKS - 1) refill s))"

definition schedule :: "kstate \<Rightarrow> (unit, kstate) outcome" where
  "schedule s =
    (let s = for_tasks (NR_TASKS - 1) (check_signals (jiffies s)) s in
     case choose_task s of None \<Rightarrow> Hangs
     | Some (nxt, s) \<Rightarrow> if nxt = current s then Ret () s else Sleeps (s\<lparr>current := nxt\<rparr>))"

definition sys_pause :: "kstate \<Rightarrow> (u32, kstate) outcome" where
  "sys_pause s = seq (schedule (upd_cur (t_state_update (\<lambda>_. TASK_INTERRUPTIBLE)) s)) (\<lambda>_ s. Ret 0 s)"

section \<open>Wait queues\<close>

text \<open>A \<open>struct task_struct **\<close>: where the head of a wait queue is read and written.\<close>

record wait_queue =
  get_wait :: "kstate \<Rightarrow> nat option"
  put_wait :: "nat option \<Rightarrow> kstate \<Rightarrow> kstate"

definition set_state :: "u32 \<Rightarrow> nat option \<Rightarrow> kstate \<Rightarrow> kstate" where
  "set_state v p s = (case p of None \<Rightarrow> s | Some i \<Rightarrow> upd_task i (t_state_update (\<lambda>_. v)) s)"

definition sleep_on :: "wait_queue \<Rightarrow> kstate \<Rightarrow> (unit, kstate) outcome" where
  "sleep_on q s =
    (if current s = 0 then Panic ''task[0] trying to sleep'' else
     let tmp = get_wait q s;
         s = put_wait q (Some (current s)) s;
         s = upd_cur (t_state_update (\<lambda>_. TASK_UNINTERRUPTIBLE)) s
     in seq (schedule s) (\<lambda>_ s. Ret () (set_state 0 tmp s)))"

text \<open>
  When \<open>schedule()\<close> comes back and another task is at the head of the queue, that task
  is woken and this one sleeps again (\<open>goto repeat\<close>), so the run ends there.
\<close>

definition interruptible_sleep_on :: "wait_queue \<Rightarrow> kstate \<Rightarrow> (unit, kstate) outcome" where
  "interruptible_sleep_on q s =
    (if current s = 0 then Panic ''task[0] trying to sleep'' else
     let tmp = get_wait q s;
         s = put_wait q (Some (current s)) s;
         s = upd_cur (t_state_update (\<lambda>_. TASK_INTERRUPTIBLE)) s
     in seq (schedule s) (\<lambda>_ s.
          if get_wait q s \<noteq> None \<and> get_wait q s \<noteq> Some (current s)
          then Sleeps (upd_cur (t_state_update (\<lambda>_. TASK_INTERRUPTIBLE)) (set_state 0 (get_wait q s) s))
          else Ret () (set_state 0 tmp (put_wait q None s))))"

definition wake_up :: "wait_queue \<Rightarrow> kstate \<Rightarrow> kstate" where
  "wake_up q s = (if get_wait q s \<noteq> None then put_wait q None (set_state 0 (get_wait q s) s) else s)"

definition inode_queue :: "nat \<Rightarrow> wait_queue" where
  "inode_queue i = \<lparr>get_wait = (\<lambda>s. i_wait (inode_table s i)),
     put_wait = (\<lambda>p. upd_inode i (i_wait_update (\<lambda>_. p)))\<rparr>"

definition super_queue :: "nat \<Rightarrow> wait_queue" where
  "super_queue i = \<lparr>get_wait = (\<lambda>s. s_wait (super_block s i)),
     put_wait = (\<lambda>p. upd_super i (s_wait_update (\<lambda>_. p)))\<rparr>"

definition bh_queue :: "nat \<Rightarrow> wait_queue" where
  "bh_queue i = \<lparr>get_wait = (\<lambda>s. b_wait (bh s i)), put_wait = (\<lambda>p. upd_bh i (b_wait_update (\<lambda>_. p)))\<rparr>"

definition buffer_queue :: wait_queue where
  "buffer_queue = \<lparr>get_wait = buffer_wait, put_wait = (\<lambda>p. buffer_wait_update (\<lambda>_. p))\<rparr>"

definition request_queue :: wait_queue where
  "request_queue = \<lparr>get_wait = wait_for_request, put_wait = (\<lambda>p. wait_for_request_update (\<lambda>_. p))\<rparr>"

definition waiting_queue :: "nat \<Rightarrow> wait_queue" where
  "waiting_queue i = \<lparr>get_wait = (\<lambda>s. r_waiting (request s i)),
     put_wait = (\<lambda>p. upd_req i (r_waiting_update (\<lambda>_. p)))\<rparr>"

definition motor_queue :: "nat \<Rightarrow> wait_queue" where
  "motor_queue i = \<lparr>get_wait = (\<lambda>s. wait_motor (floppy s) i),
     put_wait = (\<lambda>p s. s\<lparr>floppy := (floppy s)\<lparr>wait_motor := (wait_motor (floppy s))(i := p)\<rparr>\<rparr>)\<rparr>"

definition select_queue :: wait_queue where
  "select_queue = \<lparr>get_wait = (\<lambda>s. wait_on_floppy_select (floppy s)),
     put_wait = (\<lambda>p s. s\<lparr>floppy := (floppy s)\<lparr>wait_on_floppy_select := p\<rparr>\<rparr>)\<rparr>"

definition secondary_queue :: "nat \<Rightarrow> wait_queue" where
  "secondary_queue i = \<lparr>get_wait = (\<lambda>s. q_proc_list (secondary (tty_table s i))),
     put_wait = (\<lambda>p. upd_tty i (secondary_update (q_proc_list_update (\<lambda>_. p))))\<rparr>"

definition write_queue :: "nat \<Rightarrow> wait_queue" where
  "write_queue i = \<lparr>get_wait = (\<lambda>s. q_proc_list (write_q (tty_table s i))),
     put_wait = (\<lambda>p. upd_tty i (write_q_update (q_proc_list_update (\<lambda>_. p))))\<rparr>"

lemmas [queue_simps] = inode_queue_def super_queue_def bh_queue_def buffer_queue_def
  request_queue_def waiting_queue_def motor_queue_def select_queue_def secondary_queue_def write_queue_def

section \<open>The coprocessor\<close>

text \<open>\<open>fninit\<close> leaves the coprocessor in its reset state, here \<open>fpu_reset\<close>.\<close>

definition math_state_restore :: "i387_struct \<Rightarrow> kstate \<Rightarrow> kstate" where
  "math_state_restore fpu_reset s =
    (if last_task_used_math s = Some (current s) then s else
     let s = (case last_task_used_math s of None \<Rightarrow> s
              | Some i \<Rightarrow> upd_task i (t_tss_update (i387_update (\<lambda>_. fpu s))) s);
         s = s\<lparr>last_task_used_math := Some (current s)\<rparr>
     in if t_used_math (cur s) \<noteq> 0 then s\<lparr>fpu := i387 (t_tss (cur s))\<rparr>
        else upd_cur (t_used_math_update (\<lambda>_. 1)) (s\<lparr>fpu := fpu_reset\<rparr>))"

section \<open>Small system calls\<close>

definition sys_alarm :: "u32 \<Rightarrow> kstate \<Rightarrow> u32 \<times> kstate" where
  "sys_alarm seconds s =
    (let old = t_alarm (cur s);
         old = (if tst old then cdiv (old - jiffies s) HZ else old)
     in (old, upd_cur (t_alarm_update (\<lambda>_. if slt 0 seconds then jiffies s + HZ * seconds else 0)) s))"

definition sys_getpid :: "kstate \<Rightarrow> u32" where "sys_getpid s = t_pid (cur s)"
definition sys_getppid :: "kstate \<Rightarrow> u32" where "sys_getppid s = t_father (cur s)"
definition sys_getuid :: "kstate \<Rightarrow> u32" where "sys_getuid s = ucast (t_uid (cur s))"
definition sys_geteuid :: "kstate \<Rightarrow> u32" where "sys_geteuid s = ucast (t_euid (cur s))"
definition sys_getgid :: "kstate \<Rightarrow> u32" where "sys_getgid s = ucast (t_gid (cur s))"
definition sys_getegid :: "kstate \<Rightarrow> u32" where "sys_getegid s = ucast (t_egid (cur s))"

definition sys_nice :: "u32 \<Rightarrow> kstate \<Rightarrow> u32 \<times> kstate" where
  "sys_nice increment s =
    (if slt 0 (t_priority (cur s) - increment)
     then (0, upd_cur (\<lambda>t. t\<lparr>t_priority := t_priority t - increment\<rparr>) s) else (0, s))"

end
