(* ===== verification/Timers.thy ===== *)
theory Timers
  imports Sched
begin

text \<open>
  The timer list, the floppy motor timers and the clock tick of \<open>kernel/sched.c\<close>.
  A timer function that is called is recorded in \<open>fired\<close>; what it does belongs to the
  driver that passed it.
\<close>

definition TIME_REQUESTS :: nat where "TIME_REQUESTS = 64"

definition in_timers :: "(timer_state \<Rightarrow> ('a, timer_state) outcome) \<Rightarrow> kstate \<Rightarrow> ('a, kstate) outcome" where
  "in_timers f s = lift_outcome (\<lambda>t. s\<lparr>timers := t\<rparr>) (f (timers s))"

definition call_fn :: "nat \<Rightarrow> timer_state \<Rightarrow> timer_state" where
  "call_fn fn t = t\<lparr>fired := fn # fired t\<rparr>"

fun free_timer :: "nat list \<Rightarrow> timer_state \<Rightarrow> nat option" where
  "free_timer [] t = None"
| "free_timer (p # ps) t = (if tl_fn t p = 0 then Some p else free_timer ps t)"

text \<open>The sorting loop: the new entry's time and function move towards the end of the list.\<close>

partial_function (option) sift_timer :: "nat \<Rightarrow> timer_state \<Rightarrow> timer_state option" where
  "sift_timer p t = (case tl_next t p of None \<Rightarrow> Some t
     | Some q \<Rightarrow>
         if slt (tl_jiffies t q) (tl_jiffies t p)
         then (let left = tl_jiffies t p - tl_jiffies t q in
           sift_timer q (t\<lparr>tl_fn := (tl_fn t)(p := tl_fn t q, q := tl_fn t p),
                           tl_jiffies := (tl_jiffies t)(p := tl_jiffies t q, q := left)\<rparr>))
         else Some t)"

definition add_timer :: "u32 \<Rightarrow> nat \<Rightarrow> timer_state \<Rightarrow> (unit, timer_state) outcome" where
  "add_timer jif fn t =
    (if fn = 0 then Ret () t
     else if sle jif 0 then Ret () (call_fn fn t)
     else case free_timer [0..<TIME_REQUESTS] t of
       None \<Rightarrow> Panic ''No more time requests free''
     | Some p \<Rightarrow>
         (case sift_timer p (t\<lparr>tl_fn := (tl_fn t)(p := fn), tl_jiffies := (tl_jiffies t)(p := jif),
                               tl_next := (tl_next t)(p := next_timer t), next_timer := Some p\<rparr>) of
            None \<Rightarrow> Hangs | Some t \<Rightarrow> Ret () t))"

partial_function (option) run_timers :: "timer_state \<Rightarrow> timer_state option" where
  "run_timers t = (case next_timer t of None \<Rightarrow> Some t
     | Some p \<Rightarrow>
         if sle (tl_jiffies t p) 0
         then run_timers (call_fn (tl_fn t p) (t\<lparr>tl_fn := (tl_fn t)(p := 0), next_timer := tl_next t p\<rparr>))
         else Some t)"

definition tick_timers :: "timer_state \<Rightarrow> (unit, timer_state) outcome" where
  "tick_timers t = (case next_timer t of None \<Rightarrow> Ret () t
     | Some p \<Rightarrow>
         (case run_timers (t\<lparr>tl_jiffies := (tl_jiffies t)(p := tl_jiffies t p - 1)\<rparr>) of
            None \<Rightarrow> Hangs | Some t \<Rightarrow> Ret () t))"

section \<open>Floppy motors\<close>

definition upd_floppy :: "(floppy_state \<Rightarrow> floppy_state) \<Rightarrow> kstate \<Rightarrow> kstate" where
  "upd_floppy f s = s\<lparr>floppy := f (floppy s)\<rparr>"

definition ticks_to_floppy_on :: "u32 \<Rightarrow> kstate \<Rightarrow> (u32, kstate) outcome" where
  "ticks_to_floppy_on nr s =
    (if 3 < nr then Panic ''floppy_on: nr>3'' else
     let n = unat nr;
         mask = push_bit n (0x10 :: u8) OR current_DOR (floppy s);
         mask = (if selected (floppy s) = 0 then (mask AND 0xFC) OR ucast nr else mask);
         s = upd_floppy (\<lambda>f. f\<lparr>moff_timer := (moff_timer f)(n := 10000)\<rparr>) s;
         s = (if mask \<noteq> current_DOR (floppy s)
              then upd_floppy (\<lambda>f. f\<lparr>dor_port := mask # dor_port f,
                 mon_timer := (mon_timer f)(n :=
                   if tst ((mask XOR current_DOR f) AND 0xf0) then cdiv HZ 2
                   else if slt (mon_timer f n) 2 then 2 else mon_timer f n),
                 current_DOR := mask\<rparr>) s
              else s)
     in Ret (mon_timer (floppy s) n) s)"

text \<open>\<open>while (ticks_to_floppy_on(nr)) sleep_on(nr+wait_motor)\<close>: a first sleep ends the run.\<close>

definition floppy_on :: "u32 \<Rightarrow> kstate \<Rightarrow> (unit, kstate) outcome" where
  "floppy_on nr s = seq (ticks_to_floppy_on nr s) (\<lambda>ticks s.
     if tst ticks then sleep_on (motor_queue (unat nr)) s else Ret () s)"

definition floppy_off :: "u32 \<Rightarrow> kstate \<Rightarrow> kstate" where
  "floppy_off nr = upd_floppy (\<lambda>f. f\<lparr>moff_timer := (moff_timer f)(unat nr := 3 * HZ)\<rparr>)"

fun floppy_timers :: "nat list \<Rightarrow> kstate \<Rightarrow> kstate" where
  "floppy_timers [] s = s"
| "floppy_timers (i # is) s =
    (let mask = push_bit i (0x10 :: u8); f = floppy s in
     if \<not> tst (mask AND current_DOR f) then floppy_timers is s
     else if tst (mon_timer f i) then
       (let s = upd_floppy (\<lambda>f. f\<lparr>mon_timer := (mon_timer f)(i := mon_timer f i - 1)\<rparr>) s
        in floppy_timers is (if tst (mon_timer (floppy s) i) then s else wake_up (motor_queue i) s))
     else if \<not> tst (moff_timer f i) then
       floppy_timers is (upd_floppy (\<lambda>f. f\<lparr>current_DOR := current_DOR f AND NOT mask,
          dor_port := (current_DOR f AND NOT mask) # dor_port f\<rparr>) s)
     else floppy_timers is (upd_floppy (\<lambda>f. f\<lparr>moff_timer := (moff_timer f)(i := moff_timer f i - 1)\<rparr>) s))"

definition do_floppy_timer :: "kstate \<Rightarrow> kstate" where
  "do_floppy_timer = floppy_timers [0..<4]"

section \<open>The clock tick\<close>

text \<open>
  \<open>jiffies\<close> is incremented by the assembly entry of the clock interrupt before
  \<open>do_timer\<close>. \<open>sysbeepstop()\<close> turns the speaker off, a port the model does not have.
\<close>

definition do_timer :: "u32 \<Rightarrow> kstate \<Rightarrow> (unit, kstate) outcome" where
  "do_timer cpl s =
    (let s = (if tst (beepcount s) then s\<lparr>beepcount := beepcount s - 1\<rparr> else s);
         s = (if tst cpl then upd_cur (\<lambda>t. t\<lparr>t_utime := t_utime t + 1\<rparr>) s
              else upd_cur (\<lambda>t. t\<lparr>t_stime := t_stime t + 1\<rparr>) s)
     in seq (in_timers tick_timers s) (\<lambda>_ s.
       let s = (if tst (current_DOR (floppy s) AND 0xf0) then do_floppy_timer s else s);
           s = upd_cur (\<lambda>t. t\<lparr>t_counter := t_counter t - 1\<rparr>) s
       in if slt 0 (t_counter (cur s)) then Ret () s
          else let s = upd_cur (\<lambda>t. t\<lparr>t_counter := 0\<rparr>) s
               in if \<not> tst cpl then Ret () s else schedule s))"

end
