(* ===== verification/SchedProps.thy ===== *)
theory SchedProps
  imports Timers
begin

text \<open>
  What the scheduler guarantees: which task it picks, that it always finds one, and that the
  counters stay within their bounds.
\<close>

section \<open>Tasks with proper counters\<close>

definition runnable :: "nat \<Rightarrow> kstate \<Rightarrow> bool" where
  "runnable i s \<longleftrightarrow> task s i \<noteq> 0 \<and> t_state (tsk s i) = TASK_RUNNING"

definition counters_ok :: "task_struct \<Rightarrow> bool" where
  "counters_ok p \<longleftrightarrow> 0 < sint (t_priority p) \<and> sint (t_priority p) < 2 ^ 29 \<and>
     0 \<le> sint (t_counter p) \<and> sint (t_counter p) < 2 ^ 30"

definition sched_inv :: "kstate \<Rightarrow> bool" where
  "sched_inv s \<longleftrightarrow> current s < NR_TASKS \<and> (\<forall>i < NR_TASKS. task s i \<noteq> 0 \<longrightarrow> counters_ok (tsk s i))"

definition counter :: "nat \<Rightarrow> kstate \<Rightarrow> int" where
  "counter i s = sint (t_counter (tsk s i))"

section \<open>The loops\<close>

lemma for_tasks_fields [simp]:
  "task (for_tasks n f s) = task s" "current (for_tasks n f s) = current s"
  by (induction n arbitrary: s) (simp_all add: state_simps)

lemma tsk_for_tasks:
  "tsk (for_tasks n f s) i = (if 1 \<le> i \<and> i \<le> n \<and> task s i \<noteq> 0 then f (tsk s i) else tsk s i)"
  by (induction n arbitrary: s) (auto simp: state_simps le_Suc_eq)

lemma pick_best:
  assumes "pick n c nxt s = (c', nxt')"
  shows "(c' = c \<and> nxt' = nxt \<and> (\<forall>i. 1 \<le> i \<and> i \<le> n \<and> runnable i s \<longrightarrow> counter i s \<le> sint c)) \<or>
     (1 \<le> nxt' \<and> nxt' \<le> n \<and> runnable nxt' s \<and> c' = t_counter (tsk s nxt') \<and> sint c < sint c' \<and>
      (\<forall>i. 1 \<le> i \<and> i \<le> n \<and> runnable i s \<longrightarrow> counter i s \<le> sint c' \<and> (nxt' < i \<longrightarrow> counter i s < sint c')))"
  using assms
proof (induction n arbitrary: c nxt)
  case (Suc n)
  show ?case
  proof (cases "runnable (Suc n) s \<and> sint c < counter (Suc n) s")
    case True
    then have "pick n (t_counter (tsk s (Suc n))) (Suc n) s = (c', nxt')"
      using Suc.prems by (simp add: runnable_def counter_def slt_def)
    from Suc.IH [OF this] True show ?thesis
      by (auto simp: counter_def le_Suc_eq)
  next
    case False
    then have "pick n c nxt s = (c', nxt')"
      using Suc.prems by (auto simp: runnable_def counter_def slt_def split: if_splits)
    from Suc.IH [OF this] False show ?thesis
      by (auto simp: le_Suc_eq)
  qed
qed simp

lemma sint_halved: "sint (signed_drop_bit 1 c :: u32) = sint c div 2"
  by (simp add: sint_signed_drop_bit_eq drop_bit_eq_div)

lemma refill_counter:
  assumes "counters_ok p"
  shows "sint (t_counter (refill p)) = sint (t_counter p) div 2 + sint (t_priority p)"
proof -
  have "sint (signed_drop_bit 1 (t_counter p) + t_priority p) =
      sint (signed_drop_bit 1 (t_counter p)) + sint (t_priority p)"
    by (rule sint_add_bound) (use assms in \<open>auto simp del: One_nat_def simp: counters_ok_def sint_halved\<close>)
  then show ?thesis by (simp del: One_nat_def add: refill_def sint_halved)
qed

lemma refill_ok: "counters_ok p \<Longrightarrow> counters_ok (refill p)"
  using refill_counter [of p] by (auto simp: counters_ok_def) (auto simp: refill_def)

lemma check_signals_fields [simp]:
  "t_counter (check_signals now p) = t_counter p" "t_priority (check_signals now p) = t_priority p"
  by (simp_all add: check_signals_def Let_def)

lemma check_signals_ok [simp]: "counters_ok (check_signals now p) = counters_ok p"
  by (simp add: counters_ok_def)

lemma sched_inv_for_tasks:
  assumes "sched_inv s" and "\<And>p. counters_ok p \<Longrightarrow> counters_ok (f p)"
  shows "sched_inv (for_tasks n f s)"
  using assms by (simp add: sched_inv_def tsk_for_tasks)

lemma for_tasks_only_tasks: "for_tasks n f s = s\<lparr>tsk := tsk (for_tasks n f s)\<rparr>"
proof (induction n arbitrary: s)
  case (Suc n)
  show ?case by (subst for_tasks.simps(2), subst Suc) (simp add: state_simps)
qed simp

section \<open>\<open>schedule\<close> finds the best task\<close>

definition best :: "nat \<Rightarrow> kstate \<Rightarrow> bool" where
  "best n s \<longleftrightarrow>
     (if \<exists>i. 1 \<le> i \<and> i < NR_TASKS \<and> runnable i s
      then 1 \<le> n \<and> n < NR_TASKS \<and> runnable n s \<and> 0 < counter n s \<and>
        (\<forall>i. 1 \<le> i \<and> i < NR_TASKS \<and> runnable i s \<longrightarrow>
           counter i s \<le> counter n s \<and> (n < i \<longrightarrow> counter i s < counter n s))
      else n = 0)"

lemma sched_inv_counter: "sched_inv s \<Longrightarrow> i < NR_TASKS \<Longrightarrow> runnable i s \<Longrightarrow> 0 \<le> counter i s"
  by (simp add: sched_inv_def runnable_def counters_ok_def counter_def)

lemma pick_decides:
  assumes "sched_inv s" and "pick (NR_TASKS - 1) (- 1) 0 s = (c, n)" and "c \<noteq> 0"
  shows "best n s"
proof -
  have nn: "i \<le> NR_TASKS - 1 \<longleftrightarrow> i < NR_TASKS" for i by (auto simp: NR_TASKS_def)
  from pick_best [OF assms(2)] show ?thesis
  proof (elim disjE conjE)
    assume "n = 0" and "\<forall>i. 1 \<le> i \<and> i \<le> NR_TASKS - 1 \<and> runnable i s \<longrightarrow> counter i s \<le> sint (- 1 :: u32)"
    then have "\<not> (\<exists>i. 1 \<le> i \<and> i < NR_TASKS \<and> runnable i s)"
      using sched_inv_counter [OF assms(1)] by (fastforce simp: nn)
    then show ?thesis using \<open>n = 0\<close> by (simp add: best_def)
  next
    assume n: "1 \<le> n" "n \<le> NR_TASKS - 1" "runnable n s" and c: "c = t_counter (tsk s n)"
      and max: "\<forall>i. 1 \<le> i \<and> i \<le> NR_TASKS - 1 \<and> runnable i s \<longrightarrow>
        counter i s \<le> sint c \<and> (n < i \<longrightarrow> counter i s < sint c)"
    have "0 < counter n s"
    proof -
      have "0 \<le> counter n s" using sched_inv_counter [OF assms(1), of n] n by (simp only: nn)
      moreover have "counter n s \<noteq> 0" using assms(3) c by (simp add: counter_def signed_eq_0_iff)
      ultimately show ?thesis by simp
    qed
    then show ?thesis
      using n [unfolded nn] c max [unfolded nn] by (auto simp del: One_nat_def simp: best_def counter_def)
  qed
qed

lemma pick_undecided:
  assumes "pick (NR_TASKS - 1) (- 1) 0 s = (0, n)"
  shows "1 \<le> n \<and> n < NR_TASKS \<and> runnable n s"
  using pick_best [OF assms] by (auto simp: NR_TASKS_def)

lemma choose_task_best:
  assumes "sched_inv s"
  obtains n t where "choose_task s = Some (n, t)" and "best n t" and "sched_inv t"
    and "t = s \<or> t = for_tasks (NR_TASKS - 1) refill s"
proof -
  obtain c n where p: "pick (NR_TASKS - 1) (- 1) 0 s = (c, n)" by (metis surj_pair)
  show thesis
  proof (cases "c = 0")
    case False
    then have "choose_task s = Some (n, s)" by (subst choose_task.simps) (simp del: One_nat_def add: p)
    then show thesis using that pick_decides [OF assms p False] assms by blast
  next
    case True
    let ?t = "for_tasks (NR_TASKS - 1) refill s"
    have inv: "sched_inv ?t" by (rule sched_inv_for_tasks [OF assms refill_ok])
    have r: "runnable i ?t = runnable i s" for i
      by (simp add: runnable_def tsk_for_tasks refill_def)
    obtain c' n' where p': "pick (NR_TASKS - 1) (- 1) 0 ?t = (c', n')" by (metis surj_pair)
    have n: "1 \<le> n" "n < NR_TASKS" "runnable n s"
      using pick_undecided p True by auto
    then have "0 < counter n ?t"
      using assms refill_counter [of "tsk s n"]
      by (auto simp: counter_def tsk_for_tasks sched_inv_def runnable_def counters_ok_def NR_TASKS_def)
    then have "c' \<noteq> 0"
      using pick_best [OF p'] n r [of n] by (auto simp: NR_TASKS_def)
    moreover have "choose_task s = choose_task ?t"
      by (subst choose_task.simps) (simp del: One_nat_def add: p True)
    moreover have "choose_task ?t = Some (n', ?t)"
      by (subst choose_task.simps) (simp del: One_nat_def add: p' \<open>c' \<noteq> 0\<close>)
    ultimately show thesis
      using that pick_decides [OF inv p'] inv by metis
  qed
qed

definition after_signals :: "kstate \<Rightarrow> kstate" where
  "after_signals s = for_tasks (NR_TASKS - 1) (check_signals (jiffies s)) s"

lemma sched_inv_after_signals: "sched_inv s \<Longrightarrow> sched_inv (after_signals s)"
  by (simp add: after_signals_def sched_inv_for_tasks)

lemma best_lt: "best n s \<Longrightarrow> n < NR_TASKS"
  by (auto simp: best_def NR_TASKS_def split: if_splits)

lemma switch_fields [simp]:
  "runnable i (t\<lparr>current := m\<rparr>) = runnable i t" "counter i (t\<lparr>current := m\<rparr>) = counter i t"
  by (simp_all add: runnable_def counter_def)

lemma best_switch: "best n (t\<lparr>current := m\<rparr>) = best n t"
  unfolding best_def by (simp only: switch_fields)

text \<open>The state a run of \<open>schedule\<close> leaves behind, whether it switched or not.\<close>

definition left_in :: "('a, kstate) outcome \<Rightarrow> kstate \<Rightarrow> bool" where
  "left_in m t \<longleftrightarrow> (\<exists>a. m = Ret a t) \<or> m = Sleeps t"

lemma schedule_outcome:
  assumes "sched_inv s"
  obtains t where "schedule s = (if current t = current s then Ret () t else Sleeps t)"
    and "best (current t) t" and "sched_inv t" and "t = s\<lparr>tsk := tsk t, current := current t\<rparr>"
    and "\<And>i. t_state (tsk t i) = t_state (tsk (after_signals s) i)"
proof -
  from choose_task_best [OF sched_inv_after_signals [OF assms]]
  obtain n t where t: "choose_task (after_signals s) = Some (n, t)" "best n t" "sched_inv t"
    "t = after_signals s \<or> t = for_tasks (NR_TASKS - 1) refill (after_signals s)" .
  let ?t = "t\<lparr>current := n\<rparr>"
  obtain f where "after_signals s = s\<lparr>tsk := f\<rparr>"
    unfolding after_signals_def by (metis for_tasks_only_tasks)
  moreover obtain g where "for_tasks (NR_TASKS - 1) refill (after_signals s) = (after_signals s)\<lparr>tsk := g\<rparr>"
    by (metis for_tasks_only_tasks)
  ultimately have only: "\<exists>f. t = s\<lparr>tsk := f\<rparr>" using t(4) by auto
  then have cur: "current t = current s" by auto
  have "schedule s = (if current ?t = current s then Ret () ?t else Sleeps ?t)"
    using t(1) cur by (auto simp del: One_nat_def simp: schedule_def Let_def after_signals_def [symmetric])
  moreover have "best (current ?t) ?t" using t(2) by (simp add: best_switch)
  moreover have "sched_inv ?t" using t(3) best_lt [OF t(2)] by (simp add: sched_inv_def)
  moreover have "t_state (tsk ?t i) = t_state (tsk (after_signals s) i)" for i
    using t(4) by (auto simp: tsk_for_tasks refill_def)
  moreover have "?t = s\<lparr>tsk := tsk ?t, current := current ?t\<rparr>" using only by auto
  ultimately show thesis using that [of ?t] by simp
qed

section \<open>The scheduler's contract\<close>

text \<open>The signals a task has once an alarm that expired before \<open>now\<close> is delivered.\<close>

definition pending :: "u32 \<Rightarrow> task_struct \<Rightarrow> u32" where
  "pending now p = (if t_alarm p \<noteq> 0 \<and> slt (t_alarm p) now then t_signal p OR sig_bit SIGALRM else t_signal p)
     AND NOT (BLOCKABLE AND t_blocked p)"

lemma check_signals_state:
  "t_state (check_signals now p) =
     (if t_state p = TASK_INTERRUPTIBLE \<and> pending now p \<noteq> 0 then TASK_RUNNING else t_state p)"
  by (auto simp: check_signals_def Let_def pending_def)

text \<open>
  C7. The scheduler: as long as priorities are positive and counters in range, \<open>schedule()\<close>
  always ends and picks the runnable task with the highest counter, the highest slot on a
  tie, and the idle task 0 exactly when no task can run; it has woken the interruptible
  tasks with a pending signal that is not blocked, changed the state of no other task, and
  left every counter in range.
\<close>

theorem schedule_correct:
  assumes "sched_inv s"
  shows "\<exists>t. schedule s = (if current t = current s then Ret () t else Sleeps t) \<and>
    best (current t) t \<and> sched_inv t \<and> task t = task s \<and>
    (\<forall>i. t_state (tsk t i) =
       (if 1 \<le> i \<and> i < NR_TASKS \<and> task s i \<noteq> 0 \<and> t_state (tsk s i) = TASK_INTERRUPTIBLE \<and>
           pending (jiffies s) (tsk s i) \<noteq> 0
        then TASK_RUNNING else t_state (tsk s i)))"
proof -
  obtain t
    where t: "schedule s = (if current t = current s then Ret () t else Sleeps t)" "best (current t) t"
      "sched_inv t" "t = s\<lparr>tsk := tsk t, current := current t\<rparr>"
      and st: "\<And>i. t_state (tsk t i) = t_state (tsk (after_signals s) i)"
    using schedule_outcome [OF assms] by blast
  have "task t = task s" by (subst t(4)) simp
  then show ?thesis
    using t(1-3) st by (intro exI [of _ t]) (auto simp: after_signals_def tsk_for_tasks check_signals_state NR_TASKS_def)
qed

text \<open>Two tasks, the sleeping one with a signal: it is woken and runs.\<close>

definition two_tasks :: kstate where
  "two_tasks = (undefined :: kstate)\<lparr>current := 1, jiffies := 100,
     task := (\<lambda>i. if i < 3 then 0x1000 else 0),
     tsk := (\<lambda>i. (undefined :: task_struct)\<lparr>t_priority := 15, t_alarm := 0, t_blocked := 0,
        t_counter := (if i = 2 then 9 else 3), t_signal := (if i = 2 then 1 else 0),
        t_state := (if i = 2 then TASK_INTERRUPTIBLE else TASK_RUNNING)\<rparr>)\<rparr>"

lemma two_tasks_inv: "sched_inv two_tasks"
  by (simp add: two_tasks_def sched_inv_def counters_ok_def NR_TASKS_def)

theorem schedule_correct_witness:
  "\<exists>t. schedule two_tasks = (if current t = current two_tasks then Ret () t else Sleeps t) \<and>
    best (current t) t \<and> sched_inv t \<and> task t = task two_tasks \<and>
    (\<forall>i. t_state (tsk t i) =
       (if 1 \<le> i \<and> i < NR_TASKS \<and> task two_tasks i \<noteq> 0 \<and> t_state (tsk two_tasks i) = TASK_INTERRUPTIBLE \<and>
           pending (jiffies two_tasks) (tsk two_tasks i) \<noteq> 0
        then TASK_RUNNING else t_state (tsk two_tasks i)))"
  by (rule schedule_correct [OF two_tasks_inv])

section \<open>Wait queues\<close>

text \<open>
  What \<open>sleep_on\<close> and \<open>wake_up\<close> rely on of the place a queue's head is kept in: a store is
  read back, and the store touches no task.
\<close>

locale waiting =
  fixes q :: wait_queue
  assumes get_put: "get_wait q (put_wait q p s) = p"
    and put_keeps: "task (put_wait q p s) = task s" "tsk (put_wait q p s) = tsk s"
      "current (put_wait q p s) = current s"
    and get_other: "get_wait q (s\<lparr>tsk := f, current := c\<rparr>) = get_wait q s"
begin

lemma get_tsk [simp]: "get_wait q (s\<lparr>tsk := f\<rparr>) = get_wait q s"
  using get_other [where s = s and f = f and c = "current s"] by (cases s) simp

lemmas [simp] = get_put put_keeps

definition ready :: "u32 \<Rightarrow> kstate \<Rightarrow> kstate" where
  "ready st s = upd_cur (t_state_update (\<lambda>_. st)) (put_wait q (Some (current s)) s)"

lemma ready_fields:
  "current (ready st s) = current s" "task (ready st s) = task s"
  "get_wait q (ready st s) = Some (current s)"
  "tsk (ready st s) i = (if i = current s then (tsk s i)\<lparr>t_state := st\<rparr> else tsk s i)"
  by (simp_all add: ready_def state_simps)

lemma ready_inv: "sched_inv s \<Longrightarrow> sched_inv (ready st s)"
  by (simp add: sched_inv_def ready_fields counters_ok_def)

lemma set_state_inv: "sched_inv s \<Longrightarrow> sched_inv (set_state v p s)"
  by (auto simp: set_state_def sched_inv_def state_simps counters_ok_def split: option.split)

lemma put_inv: "sched_inv (put_wait q p s) = sched_inv s"
  by (simp add: sched_inv_def)

lemma wake_inv: "sched_inv s \<Longrightarrow> sched_inv (wake_up q s)"
  by (simp add: wake_up_def put_inv set_state_inv)

lemma sleep_unfold: "current s \<noteq> 0 \<Longrightarrow> sleep_on q s =
    seq (schedule (ready TASK_UNINTERRUPTIBLE s)) (\<lambda>_ t. Ret () (set_state 0 (get_wait q s) t))"
  by (simp add: sleep_on_def ready_def)

text \<open>A task that calls \<open>sleep_on\<close> heads the queue and always gives up the processor.\<close>

lemma sleep_gives_up:
  assumes "sched_inv s" and "current s \<noteq> 0"
  obtains t where "sleep_on q s = Sleeps t" and "sched_inv t" and "current t \<noteq> current s"
    and "get_wait q t = Some (current s)" and "t_state (tsk t (current s)) = TASK_UNINTERRUPTIBLE"
    and "\<exists>f c. t = (put_wait q (Some (current s)) s)\<lparr>tsk := f, current := c\<rparr>"
proof -
  let ?r = "ready TASK_UNINTERRUPTIBLE s"
  obtain t
    where t: "schedule ?r = (if current t = current ?r then Ret () t else Sleeps t)" "best (current t) t"
      "sched_inv t" "t = ?r\<lparr>tsk := tsk t, current := current t\<rparr>"
      and st: "\<And>i. t_state (tsk t i) = t_state (tsk (after_signals ?r) i)"
    using schedule_outcome [OF ready_inv [OF assms(1)]] by blast
  have unint: "t_state (tsk t (current s)) = TASK_UNINTERRUPTIBLE"
    by (simp add: st after_signals_def tsk_for_tasks ready_fields check_signals_state
        TASK_UNINTERRUPTIBLE_def TASK_INTERRUPTIBLE_def)
  then have "\<not> runnable (current s) t" by (simp add: runnable_def TASK_UNINTERRUPTIBLE_def TASK_RUNNING_def)
  then have "current t \<noteq> current s" using t(2) assms(2) by (auto simp: best_def split: if_splits)
  moreover have "get_wait q t = Some (current s)" by (subst t(4)) (simp add: get_other ready_fields)
  moreover have "sleep_on q s = Sleeps t"
    using t(1) \<open>current t \<noteq> current s\<close> assms(2) by (simp add: sleep_unfold ready_fields)
  moreover have "\<exists>f c. t = (put_wait q (Some (current s)) s)\<lparr>tsk := f, current := c\<rparr>"
    by (rule exI [of _ "tsk t"], rule exI [of _ "current t"], subst t(4)) (simp add: ready_def state_simps)
  ultimately show thesis using that t(3) unint by blast
qed

lemma wake_runs: "get_wait q s = Some i \<Longrightarrow>
    t_state (tsk (wake_up q s) i) = TASK_RUNNING \<and> get_wait q (wake_up q s) = None"
  by (simp add: wake_up_def set_state_def state_simps TASK_RUNNING_def)

lemma wake_others: "get_wait q s \<noteq> Some j \<Longrightarrow> tsk (wake_up q s) j = tsk s j"
  by (auto simp: wake_up_def set_state_def state_simps split: option.split)

lemma sleep_then_wake:
  assumes "sched_inv s" and "current s \<noteq> 0"
  shows "\<exists>t. sleep_on q s = Sleeps t \<and> current t \<noteq> current s \<and>
    t_state (tsk t (current s)) = TASK_UNINTERRUPTIBLE \<and>
    t_state (tsk (wake_up q t) (current s)) = TASK_RUNNING \<and> get_wait q (wake_up q t) = None \<and>
    (\<forall>j. j \<noteq> current s \<longrightarrow> tsk (wake_up q t) j = tsk t j)"
  by (rule sleep_gives_up [OF assms]) (use wake_runs wake_others in auto)

end

interpretation inode_wq: waiting "inode_queue i" for i by unfold_locales (auto simp: queue_simps state_simps)
interpretation super_wq: waiting "super_queue i" for i by unfold_locales (auto simp: queue_simps state_simps)
interpretation bh_wq: waiting "bh_queue i" for i by unfold_locales (auto simp: queue_simps state_simps)
interpretation buffer_wq: waiting buffer_queue by unfold_locales (auto simp: queue_simps state_simps)
interpretation request_wq: waiting request_queue by unfold_locales (auto simp: queue_simps state_simps)
interpretation waiting_wq: waiting "waiting_queue i" for i by unfold_locales (auto simp: queue_simps state_simps)
interpretation motor_wq: waiting "motor_queue i" for i by unfold_locales (auto simp: queue_simps state_simps)
interpretation select_wq: waiting select_queue by unfold_locales (auto simp: queue_simps state_simps)
interpretation secondary_wq: waiting "secondary_queue i" for i by unfold_locales (auto simp: queue_simps state_simps)
interpretation write_wq: waiting "write_queue i" for i by unfold_locales (auto simp: queue_simps state_simps)

definition is_queue :: "wait_queue \<Rightarrow> bool" where
  "is_queue q \<longleftrightarrow> q = buffer_queue \<or> q = request_queue \<or> q = select_queue \<or>
     (\<exists>i. q \<in> {inode_queue i, super_queue i, bh_queue i, waiting_queue i, motor_queue i,
               secondary_queue i, write_queue i})"

lemma is_queue_waiting: "is_queue q \<Longrightarrow> waiting q"
  unfolding is_queue_def
  using inode_wq.waiting_axioms super_wq.waiting_axioms bh_wq.waiting_axioms buffer_wq.waiting_axioms
    request_wq.waiting_axioms select_wq.waiting_axioms waiting_wq.waiting_axioms motor_wq.waiting_axioms
    secondary_wq.waiting_axioms write_wq.waiting_axioms by auto

text \<open>
  C23. Sleeping and waking, on every wait queue of the kernel: a task that calls \<open>sleep_on\<close>
  always gives up the processor to another one and cannot be picked again until the queue
  is woken; a later \<open>wake_up\<close> makes it runnable, empties the queue and touches no other task.
\<close>

theorem sleep_on_wake_up:
  assumes "is_queue q" and "sched_inv s" and "current s \<noteq> 0"
  shows "\<exists>t. sleep_on q s = Sleeps t \<and> current t \<noteq> current s \<and>
    t_state (tsk t (current s)) = TASK_UNINTERRUPTIBLE \<and>
    t_state (tsk (wake_up q t) (current s)) = TASK_RUNNING \<and> get_wait q (wake_up q t) = None \<and>
    (\<forall>j. j \<noteq> current s \<longrightarrow> tsk (wake_up q t) j = tsk t j)"
  by (rule waiting.sleep_then_wake [OF is_queue_waiting [OF assms(1)] assms(2,3)])

theorem sleep_on_wake_up_witness:
  "\<exists>t. sleep_on (inode_queue 5) two_tasks = Sleeps t \<and> current t \<noteq> current two_tasks \<and>
    t_state (tsk t (current two_tasks)) = TASK_UNINTERRUPTIBLE \<and>
    t_state (tsk (wake_up (inode_queue 5) t) (current two_tasks)) = TASK_RUNNING \<and>
    get_wait (inode_queue 5) (wake_up (inode_queue 5) t) = None \<and>
    (\<forall>j. j \<noteq> current two_tasks \<longrightarrow> tsk (wake_up (inode_queue 5) t) j = tsk t j)"
  by (rule sleep_on_wake_up [OF _ two_tasks_inv]) (auto simp: is_queue_def two_tasks_def)

section \<open>The scheduler as a state machine\<close>

text \<open>
  What happens between two system calls: clock ticks, sleeping and waking on any queue,
  \<open>pause\<close>, \<open>alarm\<close> and \<open>nice\<close>. \<open>sys_nice\<close> does not check the priority it sets from above, so
  the increment is bounded here.
\<close>

inductive sched_step :: "kstate \<Rightarrow> kstate \<Rightarrow> bool" where
  tick: "left_in (do_timer cpl s) t \<Longrightarrow> sched_step s t"
| sleep: "is_queue q \<Longrightarrow> left_in (sleep_on q s) t \<Longrightarrow> sched_step s t"
| light_sleep: "is_queue q \<Longrightarrow> left_in (interruptible_sleep_on q s) t \<Longrightarrow> sched_step s t"
| wake: "is_queue q \<Longrightarrow> sched_step s (wake_up q s)"
| pause: "left_in (sys_pause s) t \<Longrightarrow> sched_step s t"
| alarm: "sched_step s (snd (sys_alarm seconds s))"
| nice: "sint (t_priority (cur s) - increment) < 2 ^ 29 \<Longrightarrow> sched_step s (snd (sys_nice increment s))"

inductive_cases sched_stepE: "sched_step s t"

lemma left_in_simps [simp]:
  "left_in (Ret a s) t \<longleftrightarrow> t = s" "left_in (Sleeps s) t \<longleftrightarrow> t = s" "\<not> left_in (Panic msg) t"
  "\<not> left_in (Exits c s) t" "\<not> left_in Fault t" "\<not> left_in Hangs t"
  by (auto simp: left_in_def)

definition leaves :: "(kstate \<Rightarrow> bool) \<Rightarrow> ('a, kstate) outcome \<Rightarrow> bool" where
  "leaves P m \<longleftrightarrow> (\<forall>t. left_in m t \<longrightarrow> P t)"

lemma leaves_simps [simp]:
  "leaves P (Ret a s) = P s" "leaves P (Sleeps s) = P s" "leaves P (Panic msg)"
  "leaves P (Exits c s)" "leaves P Fault" "leaves P Hangs"
  by (auto simp: leaves_def)

lemma leaves_seq: "leaves P m \<Longrightarrow> (\<And>a s. P s \<Longrightarrow> leaves P (f a s)) \<Longrightarrow> leaves P (seq m f)"
  by (cases m) auto

lemma sched_inv_cong:
  assumes "sched_inv s" and "current t = current s" and "task t = task s"
    and "\<And>i. counters_ok (tsk s i) \<Longrightarrow> counters_ok (tsk t i)"
  shows "sched_inv t"
  using assms by (simp add: sched_inv_def)

lemma sched_inv_upd_cur:
  "sched_inv s \<Longrightarrow> (counters_ok (cur s) \<Longrightarrow> counters_ok (f (cur s))) \<Longrightarrow> sched_inv (upd_cur f s)"
  by (erule sched_inv_cong) (auto simp: state_simps)

lemma set_current_state_inv: "sched_inv s \<Longrightarrow> sched_inv (upd_cur (t_state_update f) s)"
  by (rule sched_inv_upd_cur) (auto simp: counters_ok_def)

lemma schedule_inv: "sched_inv s \<Longrightarrow> leaves sched_inv (schedule s)"
  by (rule schedule_outcome [of s]) (auto simp: left_in_def split: if_splits)

lemma sleep_inv:
  assumes "waiting q" and "sched_inv s"
  shows "leaves sched_inv (sleep_on q s)" "leaves sched_inv (interruptible_sleep_on q s)"
  using assms(2)
  by (auto simp: sleep_on_def interruptible_sleep_on_def Let_def waiting.put_inv [OF assms(1)]
      intro!: leaves_seq schedule_inv set_current_state_inv waiting.set_state_inv [OF assms(1)])

lemma wake_up_inv: "is_queue q \<Longrightarrow> sched_inv s \<Longrightarrow> sched_inv (wake_up q s)"
  by (intro waiting.wake_inv is_queue_waiting)

lemma is_queue_motor [simp]: "is_queue (motor_queue i)"
  by (auto simp: is_queue_def)

lemma floppy_inv: "sched_inv (upd_floppy f s) = sched_inv s"
  by (simp add: sched_inv_def upd_floppy_def)

lemma floppy_timers_inv: "sched_inv s \<Longrightarrow> sched_inv (floppy_timers is s)"
  by (induction "is" s rule: floppy_timers.induct)
    (simp_all add: Let_def floppy_inv wake_up_inv split: if_split)

lemma in_timers_inv: "sched_inv s \<Longrightarrow> leaves sched_inv (in_timers f s)"
  by (cases "f (timers s)") (simp_all add: in_timers_def sched_inv_def)

lemma do_timer_inv:
  assumes "sched_inv s"
  shows "leaves sched_inv (do_timer cpl s)"
proof -
  let ?s = "if tst (beepcount s) then s\<lparr>beepcount := beepcount s - 1\<rparr> else s"
  let ?s' = "if tst cpl then upd_cur (\<lambda>t. t\<lparr>t_utime := t_utime t + 1\<rparr>) ?s
    else upd_cur (\<lambda>t. t\<lparr>t_stime := t_stime t + 1\<rparr>) ?s"
  have "sched_inv ?s" using assms by (simp add: sched_inv_def)
  then have 1: "sched_inv ?s'"
    by (auto simp: counters_ok_def simp del: tst_iff intro!: sched_inv_upd_cur)
  have 2: "leaves sched_inv
      (let s = (if tst (current_DOR (floppy s) AND 0xf0) then do_floppy_timer s else s);
           s = upd_cur (\<lambda>t. t\<lparr>t_counter := t_counter t - 1\<rparr>) s
       in if slt 0 (t_counter (cur s)) then Ret () s
          else let s = upd_cur (\<lambda>t. t\<lparr>t_counter := 0\<rparr>) s
               in if \<not> tst cpl then Ret () s else schedule s)" if "sched_inv s" for s
  proof -
    let ?f = "if tst (current_DOR (floppy s) AND 0xf0) then do_floppy_timer s else s"
    have f: "sched_inv ?f" using that by (simp add: do_floppy_timer_def floppy_timers_inv)
    have zero: "sched_inv (upd_cur (\<lambda>t. t\<lparr>t_counter := 0\<rparr>) (upd_cur (\<lambda>t. t\<lparr>t_counter := t_counter t - 1\<rparr>) ?f))"
      by (rule sched_inv_cong [OF f]) (auto simp: state_simps counters_ok_def)
    have less: "sched_inv (upd_cur (\<lambda>t. t\<lparr>t_counter := t_counter t - 1\<rparr>) ?f)"
      if "slt 0 (t_counter (cur (upd_cur (\<lambda>t. t\<lparr>t_counter := t_counter t - 1\<rparr>) ?f)))"
      using f that by (intro sched_inv_upd_cur) (auto simp: counters_ok_def state_simps slt_def sint_pred)
    show ?thesis
      unfolding Let_def using less zero by (simp add: schedule_inv del: tst_iff)
  qed
  show ?thesis
    unfolding do_timer_def Let_def [of "if tst (beepcount s) then _ else _"] Let_def [of "if tst cpl then _ else _"]
    by (rule leaves_seq [OF in_timers_inv [OF 1] 2])
qed

lemma sys_nice_inv:
  "sched_inv s \<Longrightarrow> sint (t_priority (cur s) - increment) < 2 ^ 29 \<Longrightarrow> sched_inv (snd (sys_nice increment s))"
  by (auto simp: sys_nice_def slt_def intro!: sched_inv_upd_cur) (auto simp: counters_ok_def)

lemma sched_step_inv: "sched_step s t \<Longrightarrow> sched_inv s \<Longrightarrow> sched_inv t"
proof (induction rule: sched_step.induct)
  case (tick cpl s t)
  then show ?case using do_timer_inv by (auto simp: leaves_def)
next
  case (sleep q s t)
  then show ?case using sleep_inv(1) [OF is_queue_waiting] by (auto simp: leaves_def)
next
  case (light_sleep q s t)
  then show ?case using sleep_inv(2) [OF is_queue_waiting] by (auto simp: leaves_def)
next
  case (pause s t)
  have "leaves sched_inv (sys_pause s)"
    using pause.prems by (auto simp: sys_pause_def intro!: leaves_seq schedule_inv set_current_state_inv)
  with pause show ?case by (auto simp: leaves_def)
next
  case (alarm s seconds)
  then show ?case
    by (auto simp: sys_alarm_def Let_def intro!: sched_inv_upd_cur) (auto simp: counters_ok_def)
qed (auto intro: wake_up_inv sys_nice_inv)

text \<open>
  C22. The scheduler as a state machine: from any state with proper counters, however clock
  ticks, sleeps, wake-ups, pauses, alarms and bounded changes of priority follow each
  other, every counter and priority stays in range and \<open>schedule()\<close> still ends with the best
  task running.
\<close>

theorem scheduler_never_stuck:
  assumes "sched_step\<^sup>*\<^sup>* s t" and "sched_inv s"
  shows "sched_inv t \<and> schedule t \<noteq> Hangs \<and> (\<forall>u. left_in (schedule t) u \<longrightarrow> best (current u) u)"
proof -
  have inv: "sched_inv t"
    using assms by (induction rule: rtranclp_induct) (auto intro: sched_step_inv)
  obtain u where "schedule t = (if current u = current t then Ret () u else Sleeps u)" and "best (current u) u"
    using schedule_outcome [OF inv] by blast
  then show ?thesis using inv by auto
qed

theorem scheduler_never_stuck_witness:
  "\<exists>t. sched_step two_tasks t \<and> sched_inv t \<and> schedule t \<noteq> Hangs \<and>
     (\<forall>u. left_in (schedule t) u \<longrightarrow> best (current u) u)"
proof -
  have "sched_step two_tasks (wake_up buffer_queue two_tasks)" by (rule wake) (simp add: is_queue_def)
  then show ?thesis
    using scheduler_never_stuck [OF r_into_rtranclp two_tasks_inv] by blast
qed

end
