(* ===== verification/TimerProps.thy ===== *)
theory TimerProps
  imports SchedProps
begin

text \<open>
  What the timer list and the lazy coprocessor switch of \<open>kernel/sched.c\<close> do: the linked
  entries as a list of delays, when each timer is due, and whose coprocessor state is where.
\<close>

section \<open>The linked list as a list\<close>

fun timer_chain :: "timer_state \<Rightarrow> nat option \<Rightarrow> nat list \<Rightarrow> bool" where
  "timer_chain t p [] \<longleftrightarrow> p = None"
| "timer_chain t p (x # xs) \<longleftrightarrow> p = Some x \<and> timer_chain t (tl_next t x) xs"

definition entry :: "timer_state \<Rightarrow> nat \<Rightarrow> u32 \<times> nat" where
  "entry t p = (tl_jiffies t p, tl_fn t p)"

definition timers_ok :: "timer_state \<Rightarrow> nat list \<Rightarrow> bool" where
  "timers_ok t ps \<longleftrightarrow> timer_chain t (next_timer t) ps \<and> distinct ps \<and> (\<forall>p \<in> set ps. tl_fn t p \<noteq> 0)"

text \<open>The insertion \<open>add_timer\<close> performs, on the delays alone.\<close>

fun insert_timer :: "u32 \<Rightarrow> nat \<Rightarrow> (u32 \<times> nat) list \<Rightarrow> (u32 \<times> nat) list" where
  "insert_timer j f [] = [(j, f)]"
| "insert_timer j f ((k, g) # ts) =
     (if slt k j then (k, g) # insert_timer (j - k) f ts else (j, f) # (k, g) # ts)"

lemma timer_chain_cong:
  assumes "timer_chain t p xs" and "\<And>x. x \<in> set xs \<Longrightarrow> tl_next t' x = tl_next t x"
  shows "timer_chain t' p xs"
  using assms by (induction xs arbitrary: p) auto

text \<open>The nodes keep their places while the new entry's time and function move down.\<close>

lemma sift_timer_inserts:
  assumes "timer_chain t (tl_next t p) ps" and "distinct (p # ps)"
  shows "\<exists>t'. sift_timer p t = Some t' \<and> tl_next t' = tl_next t \<and> next_timer t' = next_timer t \<and>
    fired t' = fired t \<and> (\<forall>x. x \<notin> set (p # ps) \<longrightarrow> entry t' x = entry t x) \<and>
    List.map (entry t') (p # ps) = insert_timer (tl_jiffies t p) (tl_fn t p) (List.map (entry t) ps)"
  using assms
proof (induction ps arbitrary: p t)
  case Nil
  then show ?case by (subst sift_timer.simps) (simp add: entry_def)
next
  case (Cons q qs)
  then have next_p: "tl_next t p = Some q" and chain: "timer_chain t (tl_next t q) qs" by auto
  show ?case
  proof (cases "slt (tl_jiffies t q) (tl_jiffies t p)")
    case False
    then have "sift_timer p t = Some t" by (subst sift_timer.simps) (simp add: next_p)
    then show ?thesis using False by (simp add: entry_def)
  next
    case True
    define u where "u = t\<lparr>tl_fn := (tl_fn t)(p := tl_fn t q, q := tl_fn t p),
      tl_jiffies := (tl_jiffies t)(p := tl_jiffies t q, q := tl_jiffies t p - tl_jiffies t q)\<rparr>"
    have step: "sift_timer p t = sift_timer q u"
      using True by (subst sift_timer.simps) (simp add: next_p u_def Let_def)
    have "timer_chain u (tl_next u q) qs" using chain by (auto simp: u_def intro: timer_chain_cong)
    from Cons.IH [OF this] Cons.prems(2) obtain v
      where v: "sift_timer q u = Some v" "tl_next v = tl_next u" "next_timer v = next_timer u" "fired v = fired u"
        "\<forall>x. x \<notin> set (q # qs) \<longrightarrow> entry v x = entry u x"
        "List.map (entry v) (q # qs) = insert_timer (tl_jiffies u q) (tl_fn u q) (List.map (entry u) qs)"
      by auto
    have same: "List.map (entry u) qs = List.map (entry t) qs"
      using Cons.prems(2) by (auto simp: u_def entry_def)
    have "entry v p = entry t q" using v(5) Cons.prems(2) by (auto simp: u_def entry_def)
    moreover have "tl_jiffies u q = tl_jiffies t p - tl_jiffies t q" "tl_fn u q = tl_fn t p"
      using Cons.prems(2) by (auto simp: u_def)
    moreover have "entry t q = (tl_jiffies t q, tl_fn t q)" by (simp add: entry_def)
    ultimately have "List.map (entry v) (p # q # qs) =
        insert_timer (tl_jiffies t p) (tl_fn t p) (List.map (entry t) (q # qs))"
      using v(6) True same by simp
    moreover have "\<forall>x. x \<notin> set (p # q # qs) \<longrightarrow> entry v x = entry t x"
      using v(5) by (simp add: u_def entry_def)
    ultimately show ?thesis using v(1-4) step by (auto simp: u_def)
  qed
qed

lemma free_timer_free: "free_timer ps t = Some p \<Longrightarrow> tl_fn t p = 0"
  by (induction ps t rule: free_timer.induct) (auto split: if_splits)

lemma add_timer_inserts:
  assumes "timers_ok t ps" and "fn \<noteq> 0" and "0 < sint jif" and "free_timer [0..<TIME_REQUESTS] t = Some p"
  shows "\<exists>t'. add_timer jif fn t = Ret () t' \<and> timer_chain t' (next_timer t') (p # ps) \<and> fired t' = fired t \<and>
    List.map (entry t') (p # ps) = insert_timer jif fn (List.map (entry t) ps)"
proof -
  have "p \<notin> set ps" using assms(1) free_timer_free [OF assms(4)] by (auto simp: timers_ok_def)
  let ?u = "t\<lparr>tl_fn := (tl_fn t)(p := fn), tl_jiffies := (tl_jiffies t)(p := jif),
    tl_next := (tl_next t)(p := next_timer t), next_timer := Some p\<rparr>"
  have chain: "timer_chain ?u (tl_next ?u p) ps"
    using assms(1) \<open>p \<notin> set ps\<close> by (auto simp: timers_ok_def intro: timer_chain_cong)
  have dist: "distinct (p # ps)" using assms(1) \<open>p \<notin> set ps\<close> by (simp add: timers_ok_def)
  obtain v where v: "sift_timer p ?u = Some v" "tl_next v = tl_next ?u" "next_timer v = next_timer ?u"
    "fired v = fired ?u" "List.map (entry v) (p # ps) = insert_timer (tl_jiffies ?u p) (tl_fn ?u p) (List.map (entry ?u) ps)"
    using sift_timer_inserts [OF chain dist] by blast
  have "List.map (entry ?u) ps = List.map (entry t) ps" using \<open>p \<notin> set ps\<close> by (auto simp: entry_def)
  then have "List.map (entry v) (p # ps) = insert_timer jif fn (List.map (entry t) ps)"
    using v(5) by (simp del: list.map map_eq_conv)
  moreover have "timer_chain v (next_timer v) (p # ps)"
    using chain v(2,3) by (auto intro: timer_chain_cong)
  ultimately show ?thesis using v(1,4) assms(2-4) by (auto simp: add_timer_def sle_def)
qed

section \<open>When timers are due\<close>

text \<open>Each entry counts from the one before it; \<open>due\<close> adds the delays up.\<close>

fun due :: "int \<Rightarrow> (u32 \<times> nat) list \<Rightarrow> (int \<times> nat) list" where
  "due now [] = []"
| "due now ((k, g) # ts) = (now + sint k, g) # due (now + sint k) ts"

definition late :: "int \<Rightarrow> (int \<times> nat) list \<Rightarrow> (int \<times> nat) list" where
  "late r = List.map (\<lambda>(d, g). (d + r, g))"

lemma due_shift: "due (now + r) ts = late r (due now ts)"
proof (induction ts arbitrary: now)
  case (Cons x ts)
  obtain k g where "x = (k, g)" by (cases x)
  moreover have "due (now + r + sint k) ts = late r (due (now + sint k) ts)"
    using Cons [of "now + sint k"] by (simp add: ac_simps)
  ultimately show ?case by (simp add: late_def)
qed (simp add: late_def)

lemma sint_diff_nonneg: "0 \<le> sint k \<Longrightarrow> 0 \<le> sint j \<Longrightarrow> sint (j - k :: u32) = sint j - sint k"
  using sint_lt [of j] sint_lt [of k]
  by (simp add: sint_word_ariths signed_take_bit_int_eq_self_iff signed_take_bit_int_eq_self)

lemma insert_timer_due:
  assumes "\<And>k g. (k, g) \<in> set ts \<Longrightarrow> 0 \<le> sint k" and "0 < sint j"
  shows "\<exists>n r. 0 < r \<and> due now (insert_timer j f ts) =
    take n (due now ts) @ (now + sint j, f) # late r (drop n (due now ts))"
  using assms
proof (induction ts arbitrary: j now)
  case Nil
  then show ?case by (auto simp: late_def intro: exI [of _ "1 :: int"])
next
  case (Cons x ts)
  obtain k g where x: "x = (k, g)" by (cases x)
  show ?case
  proof (cases "slt k j")
    case True
    have "0 \<le> sint k" using Cons.prems(1) [of k g] by (simp add: x)
    then have diff: "sint (j - k) = sint j - sint k" "0 < sint (j - k)"
      using Cons.prems(2) True by (simp_all add: sint_diff_nonneg slt_def)
    moreover have "0 \<le> sint k" if "(k, g) \<in> set ts" for k g using Cons.prems(1) that by auto
    ultimately obtain n r where "0 < r" and "due (now + sint k) (insert_timer (j - k) f ts) =
        take n (due (now + sint k) ts) @ (now + sint k + sint (j - k), f) # late r (drop n (due (now + sint k) ts))"
      using Cons.IH by blast
    then have "due now (insert_timer j f (x # ts)) =
        take (Suc n) (due now (x # ts)) @ (now + sint j, f) # late r (drop (Suc n) (due now (x # ts)))"
      using True diff by (simp add: x)
    then show ?thesis using \<open>0 < r\<close> by blast
  next
    case False
    then have "due now (insert_timer j f (x # ts)) = (now + sint j, f) # late (sint j) (due now (x # ts))"
      unfolding due_shift [symmetric] by (simp add: x)
    then have "due now (insert_timer j f (x # ts)) =
        take 0 (due now (x # ts)) @ (now + sint j, f) # late (sint j) (drop 0 (due now (x # ts)))" by simp
    then show ?thesis using Cons.prems(2) by blast
  qed
qed


definition one_timer :: timer_state where
  "one_timer = (undefined :: timer_state)\<lparr>next_timer := Some 0, tl_next := (\<lambda>_. None),
     tl_fn := (\<lambda>i. if i = 0 then 7 else 0), tl_jiffies := (\<lambda>_. 10), fired := []\<rparr>"

lemma one_timer_free: "free_timer [0..<TIME_REQUESTS] one_timer = Some 1"
  by (simp add: TIME_REQUESTS_def one_timer_def upt_conv_Cons [of 0] upt_conv_Cons [of "Suc 0"])


section \<open>The clock tick\<close>

lemma run_timers_fires:
  assumes "timer_chain t (next_timer t) ps" and "distinct ps"
  shows "\<exists>t'. run_timers t = Some t' \<and>
    timer_chain t' (next_timer t') (dropWhile (\<lambda>p. sle (tl_jiffies t p) 0) ps) \<and>
    fired t' = rev (List.map (tl_fn t) (takeWhile (\<lambda>p. sle (tl_jiffies t p) 0) ps)) @ fired t \<and>
    tl_jiffies t' = tl_jiffies t \<and> tl_next t' = tl_next t \<and>
    tl_fn t' = (\<lambda>p. if p \<in> set (takeWhile (\<lambda>p. sle (tl_jiffies t p) 0) ps) then 0 else tl_fn t p)"
  using assms
proof (induction ps arbitrary: t)
  case Nil
  then show ?case by (subst run_timers.simps) simp
next
  case (Cons q qs)
  then have head: "next_timer t = Some q" and chain: "timer_chain t (tl_next t q) qs" by auto
  show ?case
  proof (cases "sle (tl_jiffies t q) 0")
    case False
    then show ?thesis using head chain by (subst run_timers.simps) auto
  next
    case True
    define u where "u = call_fn (tl_fn t q) (t\<lparr>tl_fn := (tl_fn t)(q := 0), next_timer := tl_next t q\<rparr>)"
    have run: "run_timers t = run_timers u" using True head by (subst run_timers.simps) (simp add: u_def)
    have u: "tl_jiffies u = tl_jiffies t" "tl_next u = tl_next t" "next_timer u = tl_next t q"
      "tl_fn u = (tl_fn t)(q := 0)" "fired u = tl_fn t q # fired t"
      by (simp_all add: u_def call_fn_def)
    have "timer_chain u (next_timer u) qs" using chain u by (auto intro: timer_chain_cong)
    from Cons.IH [OF this] Cons.prems(2) obtain v where v: "run_timers u = Some v"
      "timer_chain v (next_timer v) (dropWhile (\<lambda>p. sle (tl_jiffies u p) 0) qs)"
      "fired v = rev (List.map (tl_fn u) (takeWhile (\<lambda>p. sle (tl_jiffies u p) 0) qs)) @ fired u"
      "tl_jiffies v = tl_jiffies u" "tl_next v = tl_next u"
      "tl_fn v = (\<lambda>p. if p \<in> set (takeWhile (\<lambda>p. sle (tl_jiffies u p) 0) qs) then 0 else tl_fn u p)"
      by auto
    have "List.map (tl_fn u) (takeWhile (\<lambda>p. sle (tl_jiffies t p) 0) qs) =
        List.map (tl_fn t) (takeWhile (\<lambda>p. sle (tl_jiffies t p) 0) qs)"
      using Cons.prems(2) by (auto simp: u dest: set_takeWhileD)
    then show ?thesis using v True by (auto simp: u run)
  qed
qed

lemma due_ge:
  assumes "\<And>k g. (k, g) \<in> set ts \<Longrightarrow> 0 \<le> sint k" and "(d, g) \<in> set (due now ts)"
  shows "now \<le> d"
  using assms
proof (induction ts arbitrary: now)
  case (Cons x ts)
  obtain k h where x: "x = (k, h)" by (cases x)
  have nonneg: "0 \<le> sint k" using Cons.prems(1) [of k h] by (simp add: x)
  show ?case
  proof (cases "(d, g) \<in> set (due (now + sint k) ts)")
    case True
    have "now + sint k \<le> d" by (rule Cons.IH [OF _ True]) (use Cons.prems(1) in auto)
    then show ?thesis using nonneg by simp
  qed (use Cons.prems(2) nonneg x in auto)
qed simp

lemma due_now:
  assumes "\<And>k g. (k, g) \<in> set ts \<Longrightarrow> 0 \<le> sint k"
  shows "filter (\<lambda>x. fst x \<le> now) (due now ts) = List.map (\<lambda>(k, g). (now, g)) (takeWhile (\<lambda>x. sle (fst x) 0) ts) \<and>
    filter (\<lambda>x. now < fst x) (due now ts) = due now (dropWhile (\<lambda>x. sle (fst x) 0) ts)"
  using assms
proof (induction ts)
  case (Cons x ts)
  obtain k g where x: "x = (k, g)" by (cases x)
  have nonneg: "0 \<le> sint k" using Cons.prems(1) [of k g] by (simp add: x)
  show ?case
  proof (cases "sint k = 0")
    case True
    then show ?thesis using Cons by (auto simp: x sle_def)
  next
    case False
    have later: "now < d" if "(d, g) \<in> set (due (now + sint k) ts)" for d g
    proof -
      have "now + sint k \<le> d" by (rule due_ge [OF _ that]) (use Cons.prems in auto)
      then show ?thesis using False nonneg by simp
    qed
    show ?thesis using False nonneg by (auto simp: x sle_def filter_empty_conv filter_id_conv dest: later)
  qed
qed simp

lemma map_while:
  "List.map f (takeWhile (\<lambda>p. P (f p)) ps) = takeWhile P (List.map f ps)"
  "List.map f (dropWhile (\<lambda>p. P (f p)) ps) = dropWhile P (List.map f ps)"
  by (simp_all add: takeWhile_map dropWhile_map comp_def)

text \<open>
  C31. The clock tick: with times that are not negative, \<open>do_timer\<close> brings every timer one
  tick nearer, calls exactly the functions that are then due, in their order, frees their
  entries and keeps the others.
\<close>

theorem tick_timers_fires:
  assumes "timers_ok t ps" and "\<And>p. p \<in> set ps \<Longrightarrow> 0 \<le> sint (tl_jiffies t p)"
    and "ps \<noteq> [] \<Longrightarrow> 0 < sint (tl_jiffies t (hd ps))"
  shows "let D = late (- 1) (due 0 (List.map (entry t) ps)) in
    \<exists>t' qs. tick_timers t = Ret () t' \<and> timers_ok t' qs \<and>
      fired t' = rev (List.map snd (filter (\<lambda>x. fst x \<le> 0) D)) @ fired t \<and>
      due 0 (List.map (entry t') qs) = filter (\<lambda>x. 0 < fst x) D"
proof (cases ps)
  case Nil
  then show ?thesis
    using assms(1) by (auto simp: tick_timers_def timers_ok_def late_def Let_def intro!: exI [of _ "[]"])
next
  case (Cons q qs)
  define u where "u = t\<lparr>tl_jiffies := (tl_jiffies t)(q := tl_jiffies t q - 1)\<rparr>"
  have u: "next_timer u = Some q" "tl_next u = tl_next t" "tl_fn u = tl_fn t" "fired u = fired t"
    using assms(1) Cons by (simp_all add: u_def timers_ok_def)
  have chain: "timer_chain u (next_timer u) ps" "distinct ps" "next_timer t = Some q"
    using assms(1) Cons by (auto simp: timers_ok_def u intro: timer_chain_cong)
  let ?due = "\<lambda>p. sle (tl_jiffies u p) 0"
  obtain v where v: "run_timers u = Some v" "timer_chain v (next_timer v) (dropWhile ?due ps)"
    "fired v = rev (List.map (tl_fn u) (takeWhile ?due ps)) @ fired u" "tl_jiffies v = tl_jiffies u"
    "tl_fn v = (\<lambda>p. if p \<in> set (takeWhile ?due ps) then 0 else tl_fn u p)"
    using run_timers_fires [OF chain(1,2)] by blast
  have tick: "tick_timers t = Ret () v" using v(1) chain(3) by (simp add: tick_timers_def u_def)
  have q: "sint (tl_jiffies t q - 1) = sint (tl_jiffies t q) - 1" "0 < sint (tl_jiffies t q)"
    using assms(2,3) Cons by (simp_all add: sint_pred)
  have same: "List.map (entry u) qs = List.map (entry t) qs"
    using chain(2) Cons by (auto simp: u_def entry_def)
  have D: "late (- 1) (due 0 (List.map (entry t) ps)) = due 0 (List.map (entry u) ps)"
    using Cons q same due_shift [of "sint (tl_jiffies t q)" "- 1" "List.map (entry t) qs"]
    by (simp add: entry_def [of _ q] u_def late_def del: map_eq_conv)
  have nonneg: "0 \<le> sint k" if "(k, g) \<in> set (List.map (entry u) ps)" for k g
    using that assms(2) q Cons by (auto simp: entry_def u_def split: if_splits)
  have apart: "set (dropWhile ?due ps) \<inter> set (takeWhile ?due ps) = {}"
    using chain(2) by (metis distinct_append inf_commute takeWhile_dropWhile_id)
  have ok: "timers_ok v (dropWhile ?due ps)"
    using v(2,5) chain(2) apart assms(1) by (auto simp: timers_ok_def u dest: set_dropWhileD)
  have kept: "List.map (entry v) (dropWhile ?due ps) = List.map (entry u) (dropWhile ?due ps)"
    using apart by (auto simp: entry_def v(4,5))
  let ?us = "List.map (entry u) ps"
  have now: "filter (\<lambda>x. fst x \<le> 0) (due 0 ?us) = List.map (\<lambda>(k, g). (0, g)) (takeWhile (\<lambda>x. sle (fst x) 0) ?us) \<and>
    filter (\<lambda>x. 0 < fst x) (due 0 ?us) = due 0 (dropWhile (\<lambda>x. sle (fst x) 0) ?us)"
    by (rule due_now) (rule nonneg)
  note w = map_while [of "entry u" "\<lambda>x. sle (fst x) 0" ps] now
  have fst_u: "sle (fst (entry u p)) 0 = ?due p" for p by (simp add: entry_def)
  have "List.map snd (filter (\<lambda>x. fst x \<le> 0) (due 0 (List.map (entry u) ps))) = List.map (tl_fn u) (takeWhile ?due ps)"
    using w by (simp add: fst_u comp_def case_prod_beta flip: w(1)) (simp add: entry_def)
  moreover have "due 0 (List.map (entry v) (dropWhile ?due ps)) = filter (\<lambda>x. 0 < fst x) (due 0 (List.map (entry u) ps))"
    using w by (simp add: fst_u kept)
  ultimately show ?thesis
    unfolding Let_def D using tick ok v(3) u(4) by (intro exI [of _ v] exI [of _ "dropWhile ?due ps"]) simp
qed

theorem tick_timers_fires_witness:
  "let D = late (- 1) (due 0 (List.map (entry one_timer) [0])) in
    \<exists>t' qs. tick_timers one_timer = Ret () t' \<and> timers_ok t' qs \<and>
      fired t' = rev (List.map snd (filter (\<lambda>x. fst x \<le> 0) D)) @ fired one_timer \<and>
      due 0 (List.map (entry t') qs) = filter (\<lambda>x. 0 < fst x) D"
  by (rule tick_timers_fires) (simp_all add: timers_ok_def one_timer_def)

section \<open>The coprocessor\<close>

text \<open>
  The coprocessor state of a task is in the registers if it was the last to use them, and
  saved in its task structure otherwise.
\<close>

definition fpu_of :: "nat \<Rightarrow> kstate \<Rightarrow> i387_struct" where
  "fpu_of i s = (if last_task_used_math s = Some i then fpu s else i387 (t_tss (tsk s i)))"

text \<open>
  The lazy coprocessor switch: after \<open>math_state_restore\<close> the registers belong to the
  current task and hold its own state (the reset state if it never used the coprocessor),
  and no other task's state is lost.
\<close>

theorem math_state_restore_keeps:
  "let t = math_state_restore r s in
     last_task_used_math t = Some (current s) \<and>
     fpu t = (if last_task_used_math s = Some (current s) \<or> t_used_math (cur s) \<noteq> 0
              then fpu_of (current s) s else r) \<and>
     (\<forall>i. i \<noteq> current s \<longrightarrow> fpu_of i t = fpu_of i s)"
  by (auto simp: math_state_restore_def Let_def fpu_of_def state_simps split: option.splits)

theorem math_state_restore_keeps_witness:
  "let t = math_state_restore (\<lambda>_. 0) two_tasks in
     last_task_used_math t = Some (current two_tasks) \<and>
     fpu t = (if last_task_used_math two_tasks = Some (current two_tasks) \<or> t_used_math (cur two_tasks) \<noteq> 0
              then fpu_of (current two_tasks) two_tasks else (\<lambda>_. 0)) \<and>
     (\<forall>i. i \<noteq> current two_tasks \<longrightarrow> fpu_of i t = fpu_of i two_tasks)"
  by (rule math_state_restore_keeps)

end
