(* ===== verification/Tty.thy ===== *)
theory Tty
  imports Sched Ctype
begin

text \<open>
  \<open>kernel/chr_drv/tty_io.c\<close> and the part of \<open>console.c\<close> it drives: the character queues,
  cooking of input with echo and line editing, reading and writing a terminal.
  Terminal \<open>ch\<close> is \<open>tty_table[ch]\<close>: 0 is the console, 1 and 2 are serial lines.

  \<open>con_write\<close> answers \<open>ESC Z\<close> by calling \<open>copy_to_cooked\<close>, whose echo calls \<open>con_write\<close>
  again: \<open>con_write_fuel\<close> ties this knot. Every round takes an \<open>ESC Z\<close> out of a queue of
  at most 1023 characters, so \<open>CON_DEPTH\<close> rounds are enough.
\<close>

section \<open>Queues\<close>

definition TTY_BUF_SIZE :: u32 where "TTY_BUF_SIZE = 1024"

definition q_inc :: "u32 \<Rightarrow> u32" where "q_inc a = (a + 1) AND (TTY_BUF_SIZE - 1)"
definition q_dec :: "u32 \<Rightarrow> u32" where "q_dec a = (a - 1) AND (TTY_BUF_SIZE - 1)"
definition q_empty :: "tty_queue \<Rightarrow> bool" where "q_empty q \<longleftrightarrow> q_head q = q_tail q"
definition q_left :: "tty_queue \<Rightarrow> u32" where "q_left q = (q_tail q - q_head q - 1) AND (TTY_BUF_SIZE - 1)"
definition q_last :: "tty_queue \<Rightarrow> u8" where "q_last q = q_buf q (unat ((TTY_BUF_SIZE - 1) AND (q_head q - 1)))"
definition q_full :: "tty_queue \<Rightarrow> bool" where "q_full q \<longleftrightarrow> q_left q = 0"
definition q_chars :: "tty_queue \<Rightarrow> u32" where "q_chars q = (q_head q - q_tail q) AND (TTY_BUF_SIZE - 1)"

definition getch :: "tty_queue \<Rightarrow> u8 \<times> tty_queue" where
  "getch q = (q_buf q (unat (q_tail q)), q\<lparr>q_tail := q_inc (q_tail q)\<rparr>)"

definition putch :: "u8 \<Rightarrow> tty_queue \<Rightarrow> tty_queue" where
  "putch c q = q\<lparr>q_buf := (q_buf q)(unat (q_head q) := c), q_head := q_inc (q_head q)\<rparr>"

section \<open>Flags and characters\<close>

definition tt :: "nat \<Rightarrow> kstate \<Rightarrow> tty_struct" where "tt ch s = tty_table s ch"

definition L_FLAG :: "u32 \<Rightarrow> nat \<Rightarrow> kstate \<Rightarrow> bool" where
  "L_FLAG f ch s \<longleftrightarrow> c_lflag (tt_termios (tt ch s)) AND f \<noteq> 0"

definition I_FLAG :: "u32 \<Rightarrow> nat \<Rightarrow> kstate \<Rightarrow> bool" where
  "I_FLAG f ch s \<longleftrightarrow> c_iflag (tt_termios (tt ch s)) AND f \<noteq> 0"

definition O_FLAG :: "u32 \<Rightarrow> nat \<Rightarrow> kstate \<Rightarrow> bool" where
  "O_FLAG f ch s \<longleftrightarrow> c_oflag (tt_termios (tt ch s)) AND f \<noteq> 0"

definition L_ISIG :: "nat \<Rightarrow> kstate \<Rightarrow> bool" where "L_ISIG = L_FLAG 1"
definition L_CANON :: "nat \<Rightarrow> kstate \<Rightarrow> bool" where "L_CANON = L_FLAG 2"
definition L_ECHO :: "nat \<Rightarrow> kstate \<Rightarrow> bool" where "L_ECHO = L_FLAG 8"
definition L_ECHOCTL :: "nat \<Rightarrow> kstate \<Rightarrow> bool" where "L_ECHOCTL = L_FLAG 0x200"
definition I_NLCR :: "nat \<Rightarrow> kstate \<Rightarrow> bool" where "I_NLCR = I_FLAG 0x40"
definition I_NOCR :: "nat \<Rightarrow> kstate \<Rightarrow> bool" where "I_NOCR = I_FLAG 0x80"
definition I_CRNL :: "nat \<Rightarrow> kstate \<Rightarrow> bool" where "I_CRNL = I_FLAG 0x100"
definition I_UCLC :: "nat \<Rightarrow> kstate \<Rightarrow> bool" where "I_UCLC = I_FLAG 0x200"
definition O_POST :: "nat \<Rightarrow> kstate \<Rightarrow> bool" where "O_POST = O_FLAG 1"
definition O_LCUC :: "nat \<Rightarrow> kstate \<Rightarrow> bool" where "O_LCUC = O_FLAG 2"
definition O_NLCR :: "nat \<Rightarrow> kstate \<Rightarrow> bool" where "O_NLCR = O_FLAG 4"
definition O_CRNL :: "nat \<Rightarrow> kstate \<Rightarrow> bool" where "O_CRNL = O_FLAG 8"
definition O_NLRET :: "nat \<Rightarrow> kstate \<Rightarrow> bool" where "O_NLRET = O_FLAG 0x20"

text \<open>
  \<open>c\<close> is a signed \<open>char\<close>, a control character an unsigned one: they are equal only below
  128, and every \<open>c\<close> from 128 on is less than 32.
\<close>

definition is_cc :: "nat \<Rightarrow> u8 \<Rightarrow> nat \<Rightarrow> kstate \<Rightarrow> bool" where
  "is_cc n c ch s \<longleftrightarrow> c < 128 \<and> c = c_cc (tt_termios (tt ch s)) n"

definition VINTR :: nat where "VINTR = 0"
definition VQUIT :: nat where "VQUIT = 1"
definition VERASE :: nat where "VERASE = 2"
definition VKILL :: nat where "VKILL = 3"
definition VEOF :: nat where "VEOF = 4"
definition VTIME :: nat where "VTIME = 5"
definition VMIN :: nat where "VMIN = 6"
definition VSTART :: nat where "VSTART = 8"
definition VSTOP :: nat where "VSTOP = 9"

definition is_ctrl :: "u8 \<Rightarrow> bool" where "is_ctrl c \<longleftrightarrow> c < 32 \<or> 128 \<le> c"

definition put_write :: "u8 \<Rightarrow> nat \<Rightarrow> kstate \<Rightarrow> kstate" where
  "put_write c ch = upd_tty ch (write_q_update (putch c))"

definition put_secondary :: "u8 \<Rightarrow> nat \<Rightarrow> kstate \<Rightarrow> kstate" where
  "put_secondary c ch = upd_tty ch (secondary_update (putch c))"

definition unput_secondary :: "nat \<Rightarrow> kstate \<Rightarrow> kstate" where
  "unput_secondary ch = upd_tty ch (secondary_update (\<lambda>q. q\<lparr>q_head := q_dec (q_head q)\<rparr>))"

section \<open>Signals from the keyboard\<close>

primrec signal_group :: "nat \<Rightarrow> u32 \<Rightarrow> u32 \<Rightarrow> kstate \<Rightarrow> kstate" where
  "signal_group 0 pgrp sigs s = s"
| "signal_group (Suc i) pgrp sigs s = (let s = signal_group i pgrp sigs s in
     if tst (task s i) \<and> t_pgrp (tsk s i) = pgrp
     then upd_task i (\<lambda>t. t\<lparr>t_signal := t_signal t OR sigs\<rparr>) s else s)"

definition tty_intr :: "nat \<Rightarrow> u32 \<Rightarrow> kstate \<Rightarrow> kstate" where
  "tty_intr ch sigs s = (if sle (tt_pgrp (tt ch s)) 0 then s
     else signal_group NR_TASKS (tt_pgrp (tt ch s)) sigs s)"

section \<open>Cooked input\<close>

type_synonym tty_fn = "nat \<Rightarrow> kstate \<Rightarrow> (unit, kstate) outcome"

text \<open>Echo of an erased character \<open>c\<close>: one or two rubouts.\<close>

definition echo_erase :: "tty_fn \<Rightarrow> u8 \<Rightarrow> nat \<Rightarrow> kstate \<Rightarrow> (unit, kstate) outcome" where
  "echo_erase wr c ch s =
    (if L_ECHO ch s
     then wr ch (put_write 127 ch (if is_ctrl c then put_write 127 ch s else s))
     else Ret () s)"

definition at_line_start :: "nat \<Rightarrow> kstate \<Rightarrow> bool" where
  "at_line_start ch s \<longleftrightarrow> q_empty (secondary (tt ch s)) \<or> q_last (secondary (tt ch s)) = 10 \<or>
     is_cc VEOF (q_last (secondary (tt ch s))) ch s"

definition kill_step :: "tty_fn \<Rightarrow> nat \<Rightarrow> unit \<Rightarrow> kstate \<Rightarrow> (unit + unit, kstate) outcome" where
  "kill_step wr ch _ s =
    (if at_line_start ch s then Ret (Inr ()) s
     else seq (echo_erase wr (q_last (secondary (tt ch s))) ch s)
            (\<lambda>_ s. Ret (Inl ()) (unput_secondary ch s)))"

definition echo_char :: "tty_fn \<Rightarrow> u8 \<Rightarrow> nat \<Rightarrow> kstate \<Rightarrow> (unit, kstate) outcome" where
  "echo_char wr c ch s =
    (if \<not> L_ECHO ch s then Ret () s
     else wr ch (if c = 10 then put_write 13 ch (put_write 10 ch s)
                 else if is_ctrl c then
                   (if L_ECHOCTL ch s then put_write (c + 64) ch (put_write 94 ch s) else s)
                 else put_write c ch s))"

text \<open>The character after translation, \<open>None\<close> for an ignored carriage return.\<close>

definition translate_in :: "u8 \<Rightarrow> nat \<Rightarrow> kstate \<Rightarrow> (u8 option, kstate) outcome" where
  "translate_in c ch s =
    (if c = 13 \<and> \<not> I_CRNL ch s \<and> I_NOCR ch s then Ret None s
     else let c = (if c = 13 then if I_CRNL ch s then 10 else 13
                   else if c = 10 \<and> I_NLCR ch s then 13 else c)
          in if I_UCLC ch s then (case tolower c of None \<Rightarrow> Fault | Some c \<Rightarrow> Ret (Some c) s)
             else Ret (Some c) s)"

definition store_char :: "tty_fn \<Rightarrow> u8 \<Rightarrow> nat \<Rightarrow> kstate \<Rightarrow> (unit, kstate) outcome" where
  "store_char wr c ch s =
    (let s = (if c = 10 \<or> is_cc VEOF c ch s
              then upd_tty ch (secondary_update (\<lambda>q. q\<lparr>q_data := q_data q + 1\<rparr>)) s else s)
     in seq (echo_char wr c ch s) (\<lambda>_ s. Ret () (put_secondary c ch s)))"

text \<open>One turn of the loop of \<open>copy_to_cooked\<close>; every \<open>continue\<close> is an \<open>Inl\<close>.\<close>

definition cook_char :: "tty_fn \<Rightarrow> u8 \<Rightarrow> nat \<Rightarrow> kstate \<Rightarrow> (unit, kstate) outcome" where
  "cook_char wr c ch s =
    (if L_CANON ch s \<and> is_cc VKILL c ch s then loop (kill_step wr ch) () s
     else if L_CANON ch s \<and> is_cc VERASE c ch s then
       (if at_line_start ch s then Ret () s
        else seq (echo_erase wr (q_last (secondary (tt ch s))) ch s)
               (\<lambda>_ s. Ret () (unput_secondary ch s)))
     else if L_CANON ch s \<and> is_cc VSTOP c ch s then Ret () (upd_tty ch (tt_stopped_update (\<lambda>_. 1)) s)
     else if L_CANON ch s \<and> is_cc VSTART c ch s then Ret () (upd_tty ch (tt_stopped_update (\<lambda>_. 0)) s)
     else if L_ISIG ch s \<and> is_cc VINTR c ch s then Ret () (tty_intr ch (sig_bit SIGINT) s)
     else if L_ISIG ch s \<and> is_cc VQUIT c ch s then Ret () (tty_intr ch (sig_bit SIGQUIT) s)
     else store_char wr c ch s)"

definition cook_step :: "tty_fn \<Rightarrow> nat \<Rightarrow> unit \<Rightarrow> kstate \<Rightarrow> (unit + unit, kstate) outcome" where
  "cook_step wr ch _ s =
    (if q_empty (read_q (tt ch s)) \<or> q_full (secondary (tt ch s)) then Ret (Inr ()) s else
     let (c, q) = getch (read_q (tt ch s));
         s = upd_tty ch (read_q_update (\<lambda>_. q)) s
     in seq (translate_in c ch s) (\<lambda>r s. case r of
          None \<Rightarrow> Ret (Inl ()) s
        | Some c \<Rightarrow> seq (cook_char wr c ch s) (\<lambda>_ s. Ret (Inl ()) s)))"

definition cooked_by :: "tty_fn \<Rightarrow> tty_fn" where
  "cooked_by wr ch s = seq (loop (cook_step wr ch) () s) (\<lambda>_ s. Ret () (wake_up (secondary_queue ch) s))"

section \<open>The console's \<open>write\<close>\<close>

definition RESPONSE :: "u8 list" where "RESPONSE = [27, 91, 63, 49, 59, 50, 99]"

definition respond :: "tty_fn \<Rightarrow> nat \<Rightarrow> kstate \<Rightarrow> (unit, kstate) outcome" where
  "respond cook ch s = cook ch (fold (\<lambda>c. upd_tty ch (read_q_update (putch c))) RESPONSE s)"

text \<open>
  \<open>nr = CHARS(tty->write_q); while (nr--)\<close>: the number of turns is fixed at the start, even
  when \<open>respond\<close> has taken characters out of the queue meanwhile.
\<close>

primrec con_loop :: "tty_fn \<Rightarrow> nat \<Rightarrow> nat \<Rightarrow> kstate \<Rightarrow> (unit, kstate) outcome" where
  "con_loop cook ch 0 s = Ret () s"
| "con_loop cook ch (Suc nr) s =
    (let (c, q) = getch (write_q (tt ch s));
         s = upd_tty ch (write_q_update (\<lambda>_. q)) s;
         (answer, con) = con_char (c_cc (tt_termios (tt ch s)) VERASE) c (console s);
         s = (if beeps con = beeps (console s) then s else s\<lparr>beepcount := cdiv HZ 8\<rparr>);
         s = s\<lparr>console := con\<rparr>
     in seq (if answer then respond cook ch s else Ret () s) (\<lambda>_ s. con_loop cook ch nr s))"

definition con_write_by :: "tty_fn \<Rightarrow> tty_fn" where
  "con_write_by cook ch s = seq (con_loop cook ch (unat (q_chars (write_q (tt ch s)))) s)
     (\<lambda>_ s. Ret () (s\<lparr>console := set_cursor (console s)\<rparr>))"

text \<open>
  \<open>rs_write\<close> of \<open>serial.c\<close> enables the transmit interrupt of the serial port, which empties
  the queue later; \<open>data\<close> of a serial line's queues is its port.
\<close>

definition rs_write :: "nat \<Rightarrow> kstate \<Rightarrow> kstate" where
  "rs_write ch s = (let q = write_q (tt ch s) in
     if q_empty q then s
     else case inb (ucast (q_data q) + 1) s of (v, s) \<Rightarrow> outb (v OR 2) (ucast (q_data q) + 1) s)"

text \<open>\<open>tty->write\<close>\<close>

definition write_by :: "tty_fn \<Rightarrow> tty_fn" where
  "write_by cw ch s = (if ch = 0 then cw ch s else Ret () (rs_write ch s))"

primrec con_write_fuel :: "nat \<Rightarrow> tty_fn" where
  "con_write_fuel 0 = (\<lambda>ch s. Hangs)"
| "con_write_fuel (Suc n) = con_write_by (cooked_by (write_by (con_write_fuel n)))"

definition CON_DEPTH :: nat where "CON_DEPTH = 1024"

definition con_write :: tty_fn where "con_write = con_write_fuel CON_DEPTH"

definition tty_output :: tty_fn where "tty_output = write_by con_write"

definition copy_to_cooked :: tty_fn where "copy_to_cooked = cooked_by tty_output"

definition do_tty_interrupt :: tty_fn where "do_tty_interrupt = copy_to_cooked"

section \<open>Sleeping on a queue\<close>

definition sleep_if_empty :: "nat \<Rightarrow> kstate \<Rightarrow> (unit, kstate) outcome" where
  "sleep_if_empty ch = loop (\<lambda>_ s.
     if t_signal (cur s) = 0 \<and> q_empty (secondary (tt ch s))
     then seq (interruptible_sleep_on (secondary_queue ch) s) (\<lambda>_ s. Ret (Inl ()) s)
     else Ret (Inr ()) s) ()"

definition sleep_if_full :: "nat \<Rightarrow> kstate \<Rightarrow> (unit, kstate) outcome" where
  "sleep_if_full ch s =
    (if \<not> q_full (write_q (tt ch s)) then Ret () s else
     loop (\<lambda>_ s.
       if t_signal (cur s) = 0 \<and> q_left (write_q (tt ch s)) < 128
       then seq (interruptible_sleep_on (write_queue ch) s) (\<lambda>_ s. Ret (Inl ()) s)
       else Ret (Inr ()) s) () s)"

definition wait_for_keypress :: "kstate \<Rightarrow> (unit, kstate) outcome" where
  "wait_for_keypress = sleep_if_empty 0"

section \<open>\<open>tty_read\<close>\<close>

definition ALRMMASK :: u32 where "ALRMMASK = sig_bit SIGALRM"

text \<open>
  The \<open>do ... while\<close> over the queue; the flag of the result is set for the \<open>return\<close> at an
  end-of-file character.
\<close>

definition take_step :: "nat \<Rightarrow> u32 \<times> u32 \<Rightarrow> kstate \<Rightarrow> ((u32 \<times> u32) + bool \<times> u32 \<times> u32, kstate) outcome" where
  "take_step ch v s = (case v of (b, nr) \<Rightarrow>
     let (c, q) = getch (secondary (tt ch s));
         s = upd_tty ch (secondary_update (\<lambda>_. q)) s;
         s = (if is_cc VEOF c ch s \<or> c = 10
              then upd_tty ch (secondary_update (\<lambda>q. q\<lparr>q_data := q_data q - 1\<rparr>)) s else s)
     in if is_cc VEOF c ch s \<and> L_CANON ch s then Ret (Inr (True, b, nr)) s
        else let s = put_fs_byte c b s; b = b + 1; nr = nr - 1 in
          if nr = 0 then Ret (Inr (False, b, nr)) s
          else if slt 0 nr \<and> \<not> q_empty (secondary (tt ch s)) then Ret (Inl (b, nr)) s
          else Ret (Inr (False, b, nr)) s)"

definition set_alarm :: "u32 \<Rightarrow> kstate \<Rightarrow> kstate" where
  "set_alarm v = upd_cur (t_alarm_update (\<lambda>_. v))"

text \<open>
  One turn of \<open>while (nr>0)\<close>: the loop variables are \<open>b\<close>, \<open>nr\<close> and \<open>flag\<close>; the result is the
  flag of the \<open>return\<close> inside the loop and \<open>b\<close>.
\<close>

definition read_step :: "nat \<Rightarrow> u32 \<Rightarrow> u32 \<Rightarrow> u32 \<Rightarrow> u32 \<Rightarrow> u32 \<times> u32 \<times> bool \<Rightarrow> kstate \<Rightarrow>
    ((u32 \<times> u32 \<times> bool) + bool \<times> u32, kstate) outcome" where
  "read_step ch buf time minimum oldalarm v s = (case v of (b, nr, flag) \<Rightarrow>
     if \<not> slt 0 nr then Ret (Inr (False, b)) s
     else if flag \<and> t_signal (cur s) AND ALRMMASK \<noteq> 0
     then Ret (Inr (False, b)) (upd_cur (\<lambda>t. t\<lparr>t_signal := t_signal t AND NOT ALRMMASK\<rparr>) s)
     else if t_signal (cur s) \<noteq> 0 then Ret (Inr (False, b)) s
     else if q_empty (secondary (tt ch s)) \<or>
       L_CANON ch s \<and> q_data (secondary (tt ch s)) = 0 \<and> 20 < q_left (secondary (tt ch s))
     then seq (sleep_if_empty ch s) (\<lambda>_ s. Ret (Inl (b, nr, flag)) s)
     else seq (loop (take_step ch) (b, nr) s) (\<lambda>r s. case r of (done, b, nr) \<Rightarrow>
       if done then Ret (Inr (True, b)) s
       else
         let timed = (time \<noteq> 0 \<and> \<not> L_CANON ch s);
             due = (oldalarm = 0 \<or> slt (time + jiffies s) oldalarm);
             flag = (if timed then due else flag);
             s = (if timed then set_alarm (if due then time + jiffies s else oldalarm) s else s)
         in if L_CANON ch s then
              (if b \<noteq> buf then Ret (Inr (False, b)) s else Ret (Inl (b, nr, flag)) s)
            else if sle minimum (b - buf) then Ret (Inr (False, b)) s
            else Ret (Inl (b, nr, flag)) s))"

definition tty_read :: "u32 \<Rightarrow> u32 \<Rightarrow> u32 \<Rightarrow> kstate \<Rightarrow> (u32, kstate) outcome" where
  "tty_read channel buf nr s =
    (if 2 < channel \<or> slt nr 0 then Ret (- 1) s else
     let ch = unat channel;
         oldalarm = t_alarm (cur s);
         time = 10 * ucast (c_cc (tt_termios (tt ch s)) VTIME);
         minimum = ucast (c_cc (tt_termios (tt ch s)) VMIN);
         timed = (time \<noteq> 0 \<and> minimum = 0);
         flag = (timed \<and> (oldalarm = 0 \<or> slt (time + jiffies s) oldalarm));
         s = (if flag then set_alarm (time + jiffies s) s else s);
         minimum = (if timed then 1 else minimum);
         minimum = (if slt nr minimum then nr else minimum)
     in seq (loop (read_step ch buf time minimum oldalarm) (buf, nr, flag) s) (\<lambda>r s. case r of (done, b) \<Rightarrow>
          if done then Ret (b - buf) s
          else let s = set_alarm oldalarm s in
            if t_signal (cur s) \<noteq> 0 \<and> b = buf then Ret (- EINTR) s else Ret (b - buf) s))"

section \<open>\<open>tty_write\<close>\<close>

text \<open>
  One turn of the inner loop, with \<open>cr_flag\<close> saying that the carriage return before a
  newline has been sent. \<open>toupper\<close> of a character from 128 on reads outside its table.
\<close>

definition send_step :: "nat \<Rightarrow> u32 \<times> u32 \<Rightarrow> kstate \<Rightarrow> ((u32 \<times> u32) + u32 \<times> u32, kstate) outcome" where
  "send_step ch v s = (case v of (b, nr) \<Rightarrow>
     if \<not> (slt 0 nr \<and> \<not> q_full (write_q (tt ch s))) then Ret (Inr (b, nr)) s else
     let c = get_fs_byte b s;
         c = (if O_POST ch s then if c = 13 \<and> O_CRNL ch s then 10
              else if c = 10 \<and> O_NLRET ch s then 13 else c else c)
     in if O_POST ch s \<and> c = 10 \<and> \<not> cr_flag s \<and> O_NLCR ch s
        then Ret (Inl (b, nr)) (put_write 13 ch (s\<lparr>cr_flag := True\<rparr>))
        else case (if O_POST ch s \<and> O_LCUC ch s then toupper c else Some c) of
          None \<Rightarrow> Fault
        | Some c \<Rightarrow> Ret (Inl (b + 1, nr - 1)) (put_write c ch (s\<lparr>cr_flag := False\<rparr>)))"

definition write_step :: "nat \<Rightarrow> u32 \<times> u32 \<Rightarrow> kstate \<Rightarrow> ((u32 \<times> u32) + u32, kstate) outcome" where
  "write_step ch v s = (case v of (b, nr) \<Rightarrow>
     if \<not> slt 0 nr then Ret (Inr b) s else
     seq (sleep_if_full ch s) (\<lambda>_ s.
       if t_signal (cur s) \<noteq> 0 then Ret (Inr b) s else
       seq (loop (send_step ch) (b, nr) s) (\<lambda>r s. case r of (b, nr) \<Rightarrow>
       seq (tty_output ch s) (\<lambda>_ s.
       seq (if slt 0 nr then schedule s else Ret () s) (\<lambda>_ s. Ret (Inl (b, nr)) s)))))"

definition tty_write :: "u32 \<Rightarrow> u32 \<Rightarrow> u32 \<Rightarrow> kstate \<Rightarrow> (u32, kstate) outcome" where
  "tty_write channel buf nr s =
    (if 2 < channel \<or> slt nr 0 then Ret (- 1) s else
     seq (loop (write_step (unat channel)) (buf, nr) s) (\<lambda>b s. Ret (b - buf) s))"

end
