(* ===== verification/TtyProps.thy ===== *)
theory TtyProps
  imports Tty SchedProps
begin

text \<open>
  What the terminal code guarantees: the character queues are first-in first-out buffers,
  and cooked input is the line editing it is meant to be.
\<close>

section \<open>First-in first-out buffers\<close>

primrec take_all :: "('q \<Rightarrow> 'a \<times> 'q) \<Rightarrow> nat \<Rightarrow> 'q \<Rightarrow> 'a list \<times> 'q" where
  "take_all get 0 q = ([], q)"
| "take_all get (Suc n) q = (let (a, q) = get q; (as, q) = take_all get n q in (a # as, q))"

locale fifo =
  fixes ok :: "'q \<Rightarrow> bool" and elems :: "'q \<Rightarrow> 'a list" and cap :: nat
    and put :: "'a \<Rightarrow> 'q \<Rightarrow> 'q" and get :: "'q \<Rightarrow> 'a \<times> 'q"
  assumes put_law: "ok q \<Longrightarrow> length (elems q) < cap \<Longrightarrow> ok (put a q) \<and> elems (put a q) = elems q @ [a]"
    and get_law: "ok q \<Longrightarrow> elems q = a # as \<Longrightarrow> \<exists>q'. get q = (a, q') \<and> ok q' \<and> elems q' = as"
begin

lemma put_all:
  "ok q \<Longrightarrow> length (elems q) + length xs \<le> cap \<Longrightarrow>
     ok (fold put xs q) \<and> elems (fold put xs q) = elems q @ xs"
proof (induction xs arbitrary: q)
  case (Cons x xs)
  have "ok (put x q) \<and> elems (put x q) = elems q @ [x]" by (rule put_law) (use Cons.prems in auto)
  with Cons.IH [of "put x q"] Cons.prems show ?case by simp
qed simp

lemma take_all_elems:
  "ok q \<Longrightarrow> elems q = xs @ ys \<Longrightarrow> \<exists>q'. take_all get (length xs) q = (xs, q') \<and> ok q' \<and> elems q' = ys"
proof (induction xs arbitrary: q)
  case (Cons x xs)
  obtain q' where "get q = (x, q')" "ok q'" "elems q' = xs @ ys"
    using get_law [OF Cons.prems(1)] Cons.prems(2) by auto
  with Cons.IH [of q'] show ?case by auto
qed simp

lemma fifo_order:
  assumes "ok q" and "length (elems q) + length xs \<le> cap"
  shows "elems (fold put xs q) = elems q @ xs \<and>
    fst (take_all get (length (elems q) + length xs) (fold put xs q)) = elems q @ xs"
  using put_all [OF assms] take_all_elems [of "fold put xs q" "elems q @ xs" "[]"] by auto

end

section \<open>Terminal queues\<close>

definition q_ok :: "tty_queue \<Rightarrow> bool" where
  "q_ok q \<longleftrightarrow> q_head q < 1024 \<and> q_tail q < 1024"

definition q_len :: "tty_queue \<Rightarrow> nat" where
  "q_len q = (unat (q_head q) + 1024 - unat (q_tail q)) mod 1024"

definition q_list :: "tty_queue \<Rightarrow> u8 list" where
  "q_list q = List.map (\<lambda>i. q_buf q ((unat (q_tail q) + i) mod 1024)) [0..<q_len q]"

lemma unat_mask: "unat (x AND (TTY_BUF_SIZE - 1)) = unat x mod 1024"
proof -
  have "x AND (TTY_BUF_SIZE - 1) = take_bit 10 x"
    by (simp add: TTY_BUF_SIZE_def take_bit_eq_mask mask_eq_exp_minus_1)
  then show ?thesis by (simp add: unsigned_take_bit_eq take_bit_eq_mod unat_mod)
qed

lemma q_ok_nat: "q_ok q \<longleftrightarrow> unat (q_head q) < 1024 \<and> unat (q_tail q) < 1024"
  by (simp add: q_ok_def word_less_nat_alt)

lemma unat_diff_mod:
  "unat (a :: u32) < 1024 \<Longrightarrow> unat b \<le> 1024 \<Longrightarrow> unat (a - b) mod 1024 = (unat a + 1024 - unat b) mod 1024"
proof (cases "b \<le> a")
  case True
  then have "unat (a - b) = unat a - unat b" "unat b \<le> unat a" by (simp_all add: unat_sub word_le_nat_alt)
  then have "unat a + 1024 - unat b = unat (a - b) + 1024" by simp
  then show ?thesis by simp
next
  case False
  assume "unat a < 1024" "unat b \<le> 1024"
  then have "unat (a - b) = (unat a + 1024 - unat b) + 4194303 * 1024"
    using False by (simp add: unat_sub_if' word_le_nat_alt)
  then show ?thesis by (simp only: mod_mult_self1)
qed

lemma unat_q_chars: "q_ok q \<Longrightarrow> unat (q_chars q) = q_len q"
  by (simp add: q_chars_def unat_mask q_ok_nat q_len_def unat_diff_mod)

lemma unat_q_inc: "q_ok q \<Longrightarrow> unat (q_inc (q_head q)) = (unat (q_head q) + 1) mod 1024 \<and>
    unat (q_inc (q_tail q)) = (unat (q_tail q) + 1) mod 1024"
  by (simp add: q_inc_def unat_mask q_ok_nat unat_plus_if')

lemma unat_q_dec: "q_ok q \<Longrightarrow> unat (q_dec (q_head q)) = (unat (q_head q) + 1023) mod 1024"
  by (simp add: q_dec_def unat_mask q_ok_nat unat_diff_mod add.commute)

lemma length_q_list [simp]: "length (q_list q) = q_len q"
  by (simp add: q_list_def)

lemma q_len_add: "q_ok q \<Longrightarrow> (unat (q_tail q) + q_len q) mod 1024 = unat (q_head q)"
  by (auto simp: q_ok_nat q_len_def mod_add_right_eq)

lemma q_len_unique:
  assumes "q_ok q" and "n < 1024" and "(unat (q_tail q) + n) mod 1024 = unat (q_head q)"
  shows "q_len q = n"
proof -
  have "q_len q < 1024" by (simp add: q_len_def)
  show ?thesis
  proof (rule ccontr)
    assume "q_len q \<noteq> n"
    then show False
      using assms q_len_add [OF assms(1)] \<open>q_len q < 1024\<close>
      by (auto simp: q_ok_nat mod_if [of "unat (q_tail q) + n" for n] split: if_splits)
  qed
qed

lemma q_empty_iff: "q_ok q \<Longrightarrow> q_empty q \<longleftrightarrow> q_list q = []"
proof -
  assume ok: "q_ok q"
  have "q_list q = [] \<longleftrightarrow> q_len q = 0" by (simp add: q_list_def)
  also have "\<dots> \<longleftrightarrow> unat (q_head q) = unat (q_tail q)"
    using q_len_unique [OF ok, of 0] q_len_add [OF ok] ok by (auto simp: q_ok_nat)
  finally show ?thesis by (simp add: q_empty_def word_unat_eq_iff)
qed

lemma uint_diff_mod: "uint (a - b :: u32) mod 1024 = (uint a - uint b) mod 1024"
  by (simp add: uint_word_ariths mod_mod_cancel)

lemma mod_complement: "n < 2048 \<Longrightarrow> (2047 - n) mod 1024 = 1023 - n mod (1024 :: nat)"
proof (cases "n < 1024")
  case True
  then have "2047 - n = (1023 - n) + 1024" by simp
  then have "(2047 - n) mod 1024 = (1023 - n) mod 1024" by (simp only: mod_add_self2)
  then show ?thesis using True by simp
next
  case False
  assume "n < 2048"
  then have "n mod 1024 = n - 1024" using False by (simp add: le_mod_geq)
  then show ?thesis using False \<open>n < 2048\<close> by simp
qed

lemma unat_q_left: "q_ok q \<Longrightarrow> unat (q_left q) = 1023 - q_len q"
proof -
  assume ok: "q_ok q"
  let ?h = "unat (q_head q)" and ?t = "unat (q_tail q)"
  have bounds: "?h < 1024" "?t < 1024" using ok by (simp_all add: q_ok_nat)
  have succ: "unat (q_head q + 1) = ?h + 1" using bounds by (simp add: unat_plus_if')
  have "unat (q_left q) = unat (q_tail q - (q_head q + 1)) mod 1024"
    by (simp add: q_left_def unat_mask diff_diff_eq)
  also have "\<dots> = (?t + 1024 - (?h + 1)) mod 1024"
    using bounds succ by (subst unat_diff_mod) simp_all
  also have "?t + 1024 - (?h + 1) = 2047 - (?h + 1024 - ?t)" using bounds by simp
  also have "(2047 - (?h + 1024 - ?t)) mod 1024 = 1023 - q_len q"
    unfolding q_len_def by (rule mod_complement) (use bounds in simp)
  finally show ?thesis .
qed

lemma q_full_iff: "q_ok q \<Longrightarrow> q_full q \<longleftrightarrow> length (q_list q) = 1023"
proof -
  assume ok: "q_ok q"
  have "q_len q < 1024" by (simp add: q_len_def)
  moreover have "q_full q \<longleftrightarrow> unat (q_left q) = 0" by (simp add: q_full_def unat_eq_0)
  ultimately show ?thesis using unat_q_left [OF ok] by auto
qed

lemma q_put:
  assumes "q_ok q" and "length (q_list q) < 1023"
  shows "q_ok (putch c q) \<and> q_list (putch c q) = q_list q @ [c]"
proof -
  have ok: "q_ok (putch c q)" using assms(1) by (simp add: putch_def q_ok_nat unat_q_inc)
  have "(unat (q_tail (putch c q)) + Suc (q_len q)) mod 1024 = unat (q_head (putch c q))"
    using q_len_add [OF assms(1)] unat_q_inc [OF assms(1)] by (simp add: putch_def) (metis Suc_eq_plus1 mod_Suc_eq)
  then have len: "q_len (putch c q) = Suc (q_len q)"
    by (intro q_len_unique [OF ok]) (use assms(2) in auto)
  have "(unat (q_tail q) + i) mod 1024 \<noteq> unat (q_head q)" if "i < q_len q" for i
    using that q_len_unique [OF assms(1), of i] assms(2) by auto
  then have "q_list (putch c q) = q_list q @ [c]"
    unfolding q_list_def len using q_len_add [OF assms(1)] by (simp add: putch_def)
  with ok show ?thesis by blast
qed

lemma q_get:
  assumes "q_ok q" and "q_list q = c # cs"
  shows "\<exists>q'. getch q = (c, q') \<and> q_ok q' \<and> q_list q' = cs"
proof -
  let ?q = "snd (getch q)"
  obtain n where n: "q_len q = Suc n" using assms(2) by (metis length_Suc_conv length_q_list)
  have ok: "q_ok ?q" using assms(1) by (simp add: getch_def q_ok_nat unat_q_inc)
  have tail: "unat (q_tail ?q) = (unat (q_tail q) + 1) mod 1024" using unat_q_inc [OF assms(1)] by (simp add: getch_def)
  have "n < 1024" using n by (simp add: q_len_def)
  moreover have "(unat (q_tail ?q) + n) mod 1024 = unat (q_head ?q)"
    using q_len_add [OF assms(1)] by (simp add: tail n mod_add_left_eq) (simp add: getch_def)
  ultimately have len: "q_len ?q = n" by (rule q_len_unique [OF ok])
  have "q_list q = q_buf q (unat (q_tail q)) # q_list ?q"
    using assms(1)
    by (simp add: q_list_def n len tail upt_conv_Cons map_Suc_upt [symmetric] del: upt_Suc)
      (simp add: q_ok_nat getch_def comp_def mod_add_left_eq)
  with assms(2) ok show ?thesis by (simp add: getch_def)
qed

interpretation tty_fifo: fifo q_ok q_list 1023 putch getch
  by unfold_locales (rule q_put, assumption+, rule q_get)

text \<open>
  C15. Terminal queues: characters come out of the ring in the order they were put in, and
  EMPTY, FULL, LEFT, CHARS and LAST of \<open>tty.h\<close> say what they should about it, also across the
  wrap-around of head and tail.
\<close>

theorem tty_queue_fifo:
  assumes "q_ok q" and "length (q_list q) + length cs \<le> 1023"
  shows "q_list (fold putch cs q) = q_list q @ cs \<and>
    fst (take_all getch (length (q_list q) + length cs) (fold putch cs q)) = q_list q @ cs \<and>
    (q_empty q \<longleftrightarrow> q_list q = []) \<and> (q_full q \<longleftrightarrow> length (q_list q) = 1023) \<and>
    unat (q_left q) = 1023 - length (q_list q) \<and> unat (q_chars q) = length (q_list q)"
  using tty_fifo.fifo_order [OF assms] q_empty_iff [OF assms(1)] q_full_iff [OF assms(1)]
    unat_q_left [OF assms(1)] unat_q_chars [OF assms(1)] by simp

definition wrapped_queue :: tty_queue where
  "wrapped_queue = \<lparr>q_data = 0, q_head = 1, q_tail = 1023, q_proc_list = None,
     q_buf = (\<lambda>i. if i = 1023 then 97 else 98)\<rparr>"

lemma wrapped_queue_list: "q_list wrapped_queue = [97, 98]"
  by (simp add: wrapped_queue_def q_list_def q_len_def upt_rec)

theorem tty_queue_fifo_witness:
  "q_list (fold putch [99, 100] wrapped_queue) = q_list wrapped_queue @ [99, 100] \<and>
    fst (take_all getch (length (q_list wrapped_queue) + length [99 :: u8, 100]) (fold putch [99, 100] wrapped_queue)) =
      q_list wrapped_queue @ [99, 100] \<and>
    (q_empty wrapped_queue \<longleftrightarrow> q_list wrapped_queue = []) \<and>
    (q_full wrapped_queue \<longleftrightarrow> length (q_list wrapped_queue) = 1023) \<and>
    unat (q_left wrapped_queue) = 1023 - length (q_list wrapped_queue) \<and>
    unat (q_chars wrapped_queue) = length (q_list wrapped_queue)"
  by (rule tty_queue_fifo) (simp_all only: wrapped_queue_list, simp_all add: wrapped_queue_def q_ok_def)

section \<open>Line editing\<close>

text \<open>The line discipline on the characters of the line buffer, latest last.\<close>

definition cc :: "termios \<Rightarrow> nat \<Rightarrow> u8 \<Rightarrow> bool" where
  "cc k n c \<longleftrightarrow> c < 128 \<and> c = c_cc k n"

definition canon :: "termios \<Rightarrow> bool" where "canon k \<longleftrightarrow> c_lflag k AND 2 \<noteq> 0"
definition isig :: "termios \<Rightarrow> bool" where "isig k \<longleftrightarrow> c_lflag k AND 1 \<noteq> 0"
definition line_end :: "termios \<Rightarrow> u8 \<Rightarrow> bool" where "line_end k c \<longleftrightarrow> c = 10 \<or> cc k VEOF c"

definition erase_last :: "termios \<Rightarrow> u8 list \<Rightarrow> u8 list" where
  "erase_last k cs = (if cs = [] \<or> line_end k (last cs) then cs else butlast cs)"

definition kill_line :: "termios \<Rightarrow> u8 list \<Rightarrow> u8 list" where
  "kill_line k cs = rev (dropWhile (\<lambda>c. \<not> line_end k c) (rev cs))"

definition edit :: "termios \<Rightarrow> u8 \<Rightarrow> u8 list \<Rightarrow> u8 list" where
  "edit k c cs =
    (if canon k \<and> cc k VKILL c then kill_line k cs
     else if canon k \<and> cc k VERASE c then erase_last k cs
     else if canon k \<and> (cc k VSTOP c \<or> cc k VSTART c) \<or> isig k \<and> (cc k VINTR c \<or> cc k VQUIT c) then cs
     else cs @ [c])"

text \<open>Translation of carriage returns and newlines; lower-casing (\<open>IUCLC\<close>) is off.\<close>

definition translate :: "termios \<Rightarrow> u8 \<Rightarrow> u8 list" where
  "translate k c =
    (if c = 13 then if c_iflag k AND 0x100 \<noteq> 0 then [10] else if c_iflag k AND 0x80 \<noteq> 0 then [] else [13]
     else if c = 10 \<and> c_iflag k AND 0x40 \<noteq> 0 then [13] else [c])"

definition edit_all :: "termios \<Rightarrow> u8 list \<Rightarrow> u8 list \<Rightarrow> u8 list" where
  "edit_all k rs cs = fold (edit k) (concat (List.map (translate k) rs)) cs"

text \<open>Terminal \<open>ch\<close> has raw input \<open>rs\<close>, line buffer \<open>cs\<close> and as many complete lines as \<open>data\<close> says.\<close>

definition holds :: "nat \<Rightarrow> termios \<Rightarrow> u8 list \<Rightarrow> u8 list \<Rightarrow> kstate \<Rightarrow> bool" where
  "holds ch k rs cs s \<longleftrightarrow> tt_termios (tt ch s) = k \<and>
     q_ok (read_q (tt ch s)) \<and> q_list (read_q (tt ch s)) = rs \<and>
     q_ok (secondary (tt ch s)) \<and> q_list (secondary (tt ch s)) = cs \<and>
     q_data (secondary (tt ch s)) = of_nat (length (filter (line_end k) cs))"

lemma tt_upd [simp]: "tt ch (upd_tty ch f s) = f (tt ch s)"
  by (simp add: tt_def state_simps)

lemma q_list_frame [simp]:
  "q_list (q\<lparr>q_data := n\<rparr>) = q_list q" "q_ok (q\<lparr>q_data := n\<rparr>) = q_ok q"
  "q_list (q\<lparr>q_proc_list := p\<rparr>) = q_list q" "q_ok (q\<lparr>q_proc_list := p\<rparr>) = q_ok q"
  by (simp_all add: q_list_def q_len_def q_ok_def)

lemma putch_data [simp]: "q_data (putch c q) = q_data q"
  by (simp add: putch_def)

lemma getch_data: "getch q = (c, q') \<Longrightarrow> q_data q' = q_data q"
  by (auto simp: getch_def)

lemma unat_dec_head:
  assumes "q_ok q" and "q_len q = Suc n"
  shows "unat (q_dec (q_head q)) = (unat (q_tail q) + n) mod 1024"
proof -
  have "(unat (q_head q) + 1023) mod 1024 = ((unat (q_tail q) + Suc n) mod 1024 + 1023) mod 1024"
    using q_len_add [OF assms(1)] by (simp add: assms(2))
  also have "\<dots> = (unat (q_tail q) + n + 1024) mod 1024" by (simp only: mod_add_left_eq) (simp add: ac_simps)
  finally show ?thesis using unat_q_dec [OF assms(1)] by simp
qed

lemma q_len_Suc: "q_list q \<noteq> [] \<Longrightarrow> \<exists>n. q_len q = Suc n"
  by (metis length_0_conv length_q_list not0_implies_Suc)

lemma q_last_list:
  assumes "q_ok q" and "q_list q \<noteq> []"
  shows "q_last q = last (q_list q)"
proof -
  obtain n where n: "q_len q = Suc n" using q_len_Suc [OF assms(2)] ..
  have "q_last q = q_buf q (unat (q_dec (q_head q)))"
    by (simp add: q_last_def q_dec_def and.commute)
  then show ?thesis using unat_dec_head [OF assms(1) n] by (simp add: q_list_def n)
qed

lemma q_unput:
  assumes "q_ok q" and "q_list q \<noteq> []"
  shows "q_ok (q\<lparr>q_head := q_dec (q_head q)\<rparr>) \<and> q_list (q\<lparr>q_head := q_dec (q_head q)\<rparr>) = butlast (q_list q)"
proof -
  let ?q = "q\<lparr>q_head := q_dec (q_head q)\<rparr>"
  obtain n where n: "q_len q = Suc n" using q_len_Suc [OF assms(2)] ..
  have ok: "q_ok ?q" using assms(1) by (simp add: q_ok_nat unat_q_dec)
  have "q_len q < 1024" by (simp add: q_len_def)
  then have "q_len ?q = n" using n unat_dec_head [OF assms(1) n] by (intro q_len_unique [OF ok]) auto
  then show ?thesis using ok by (simp add: q_list_def n)
qed

text \<open>The model's tests on terminal \<open>ch\<close> are the tests of its \<open>termios\<close>.\<close>

lemma flag_tests:
  assumes "tt_termios (tt ch s) = k"
  shows "L_CANON ch s = canon k" "L_ISIG ch s = isig k" "is_cc n c ch s = cc k n c"
  using assms by (simp_all add: L_CANON_def L_ISIG_def L_FLAG_def is_cc_def canon_def isig_def cc_def)

lemma at_line_start_list:
  assumes "holds ch k rs cs s"
  shows "at_line_start ch s \<longleftrightarrow> cs = [] \<or> line_end k (last cs)"
  using assms by (auto simp: at_line_start_def holds_def q_empty_iff flag_tests line_end_def q_last_list)

lemma unput_holds:
  assumes "holds ch k rs cs s" and "cs \<noteq> []" and "\<not> line_end k (last cs)"
  shows "holds ch k rs (butlast cs) (unput_secondary ch s)"
proof -
  have "filter (line_end k) cs = filter (line_end k) (butlast cs)"
    using append_butlast_last_id [OF assms(2)] assms(3) by (metis append_Nil2 filter.simps filter_append)
  then show ?thesis
    using assms q_unput [of "secondary (tt ch s)"] by (simp add: holds_def unput_secondary_def)
qed

lemma echo_off:
  assumes "\<not> L_ECHO ch s"
  shows "echo_erase wr c ch s = Ret () s" "echo_char wr c ch s = Ret () s"
  using assms by (simp_all add: echo_erase_def echo_char_def)

lemma echo_frame [simp]:
  "L_ECHO ch (upd_tty ch (secondary_update f) s) = L_ECHO ch s"
  "L_ECHO ch (upd_tty ch (read_q_update f) s) = L_ECHO ch s"
  "L_ECHO ch (upd_tty ch (tt_stopped_update g) s) = L_ECHO ch s"
  by (simp_all add: L_ECHO_def L_FLAG_def)

lemma kill_loop:
  assumes "holds ch k rs cs s" and "\<not> L_ECHO ch s"
  shows "\<exists>t. loop (kill_step wr ch) () s = Ret () t \<and> holds ch k rs (kill_line k cs) t \<and> \<not> L_ECHO ch t"
  using assms
proof (induction cs arbitrary: s rule: rev_induct)
  case Nil
  then show ?case
    by (subst loop_unfold) (simp add: kill_step_def at_line_start_list kill_line_def)
next
  case (snoc c cs)
  show ?case
  proof (cases "line_end k c")
    case True
    then show ?thesis using snoc.prems
      by (subst loop_unfold) (simp add: kill_step_def at_line_start_list kill_line_def)
  next
    case False
    then have "holds ch k rs cs (unput_secondary ch s)" using unput_holds [OF snoc.prems(1)] by simp
    moreover have "\<not> L_ECHO ch (unput_secondary ch s)" using snoc.prems(2) by (simp add: unput_secondary_def)
    moreover have "loop (kill_step wr ch) () s = loop (kill_step wr ch) () (unput_secondary ch s)"
      using snoc.prems False
      by (subst loop_unfold) (simp add: kill_step_def at_line_start_list echo_off)
    ultimately show ?thesis using snoc.IH False by (simp add: kill_line_def)
  qed
qed

lemma signal_group_tty: "tty_table (signal_group n pgrp sigs s) = tty_table s"
  by (induction n) (simp_all add: Let_def state_simps)

lemma tty_intr_holds: "holds ch k rs cs s \<Longrightarrow> holds ch k rs cs (tty_intr ch' sigs s)"
  by (simp add: tty_intr_def holds_def tt_def signal_group_tty)

lemma tty_intr_echo [simp]: "L_ECHO ch (tty_intr ch' sigs s) = L_ECHO ch s"
  by (simp add: tty_intr_def tt_def L_ECHO_def L_FLAG_def signal_group_tty)

lemma store_holds:
  assumes "holds ch k rs cs s" and "\<not> L_ECHO ch s" and "length cs < 1023"
  shows "\<exists>t. store_char wr c ch s = Ret () t \<and> holds ch k rs (cs @ [c]) t \<and> \<not> L_ECHO ch t"
proof -
  have "\<not> L_ECHO ch (if c = 10 \<or> is_cc VEOF c ch s
      then upd_tty ch (secondary_update (\<lambda>q. q\<lparr>q_data := q_data q + 1\<rparr>)) s else s)" using assms(2) by simp
  moreover have "c = 10 \<or> is_cc VEOF c ch s \<longleftrightarrow> line_end k c"
    using assms(1) by (simp add: holds_def flag_tests line_end_def)
  ultimately show ?thesis
    using assms q_put [of "secondary (tt ch s)" c] q_put [of "(secondary (tt ch s))\<lparr>q_data := q_data (secondary (tt ch s)) + 1\<rparr>" c]
    by (auto simp: store_char_def Let_def echo_off put_secondary_def holds_def)
qed

lemma cook_char_edits:
  assumes "holds ch k rs cs s" and "\<not> L_ECHO ch s" and "length cs < 1023"
  shows "\<exists>t. cook_char wr c ch s = Ret () t \<and> holds ch k rs (edit k c cs) t \<and> \<not> L_ECHO ch t"
proof -
  have k: "tt_termios (tt ch s) = k" using assms(1) by (simp add: holds_def)
  note tests = flag_tests [OF k] and line = at_line_start_list [OF assms(1)]
  have stop: "holds ch k rs cs (upd_tty ch (tt_stopped_update f) s)" for f
    using assms(1) by (simp add: holds_def)
  show ?thesis
  proof (cases "canon k \<and> cc k VKILL c")
    case True
    then show ?thesis using kill_loop [OF assms(1,2)] by (simp add: cook_char_def tests edit_def)
  next
    case kill: False
    show ?thesis
    proof (cases "canon k \<and> cc k VERASE c")
      case True
      then show ?thesis
        using kill assms(1,2) unput_holds [OF assms(1)]
        by (auto simp: cook_char_def tests edit_def erase_last_def line echo_off unput_secondary_def)
    next
      case False
      then show ?thesis
        using kill stop assms(2) tty_intr_holds [OF assms(1)] store_holds [OF assms]
        by (auto simp: cook_char_def tests edit_def)
    qed
  qed
qed

lemma erase_shorter: "length (edit k c cs) \<le> Suc (length cs)"
proof -
  have "length (kill_line k cs) \<le> length cs"
    using length_dropWhile_le [of "\<lambda>c. \<not> line_end k c" "rev cs"] by (simp add: kill_line_def)
  then show ?thesis by (auto simp: edit_def erase_last_def)
qed

lemma translate_in_simp:
  assumes "tt_termios (tt ch s) = k" and "\<not> I_UCLC ch s"
  shows "translate_in c ch s = Ret (if translate k c = [] then None else Some (hd (translate k c))) s"
  using assms by (simp add: translate_in_def translate_def I_CRNL_def I_NOCR_def I_NLCR_def I_FLAG_def Let_def)

lemma translate_cases: "translate k c = [] \<or> translate k c = [hd (translate k c)]"
  by (simp add: translate_def)

lemma uclc_holds: "holds ch k rs cs s \<Longrightarrow> I_UCLC ch s \<longleftrightarrow> c_iflag k AND 0x200 \<noteq> 0"
  by (simp add: I_UCLC_def I_FLAG_def holds_def)

lemma cook_step_edits:
  assumes "holds ch k (r # rs) cs s" and "\<not> L_ECHO ch s" and "c_iflag k AND 0x200 = 0" and "length cs < 1023"
  shows "\<exists>t. cook_step wr ch () s = Ret (Inl ()) t \<and> holds ch k rs (fold (edit k) (translate k r) cs) t \<and> \<not> L_ECHO ch t"
proof -
  obtain q where q: "getch (read_q (tt ch s)) = (r, q)" "q_ok q" "q_list q = rs"
    using q_get assms(1) unfolding holds_def by blast
  define u where "u = upd_tty ch (read_q_update (\<lambda>_. q)) s"
  have u: "holds ch k rs cs u" "\<not> L_ECHO ch u"
    using assms(1,2) q by (simp_all add: holds_def u_def)
  have "\<not> q_empty (read_q (tt ch s))" and "\<not> q_full (secondary (tt ch s))"
    using assms(1,4) by (auto simp: holds_def q_empty_iff q_full_iff simp del: length_q_list)
  then have step: "cook_step wr ch () s = seq (translate_in r ch u) (\<lambda>r s. case r of
      None \<Rightarrow> Ret (Inl ()) s | Some c \<Rightarrow> seq (cook_char wr c ch s) (\<lambda>_ s. Ret (Inl ()) s))"
    using q(1) by (simp add: cook_step_def u_def)
  have "tt_termios (tt ch u) = k" and "\<not> I_UCLC ch u"
    using u(1) assms(3) by (simp_all add: uclc_holds) (simp add: holds_def)
  note tr = translate_in_simp [OF this]
  show ?thesis
  proof (cases "translate k r = []")
    case True
    then show ?thesis using step tr u by simp
  next
    case False
    define c where "c = hd (translate k r)"
    have "translate k r = [c]" using False translate_cases unfolding c_def by blast
    then show ?thesis using step tr cook_char_edits [OF u assms(4), of wr c] by (auto simp: False)
  qed
qed

lemma length_edit_translate: "length (fold (edit k) (translate k r) cs) \<le> Suc (length cs)"
proof (cases "translate k r = []")
  case False
  then have "translate k r = [hd (translate k r)]" using translate_cases by blast
  then show ?thesis using erase_shorter by (metis fold_simps)
qed simp

lemma cook_loop_edits:
  assumes "holds ch k rs cs s" and "\<not> L_ECHO ch s" and "c_iflag k AND 0x200 = 0"
    and "length cs + length rs \<le> 1023"
  shows "\<exists>t. loop (cook_step wr ch) () s = Ret () t \<and> holds ch k [] (edit_all k rs cs) t"
  using assms
proof (induction rs arbitrary: cs s)
  case Nil
  then have "q_empty (read_q (tt ch s))" by (simp add: holds_def q_empty_iff)
  then show ?case using Nil by (subst loop_unfold) (simp add: cook_step_def edit_all_def)
next
  case (Cons r rs)
  have "length cs < 1023" using Cons.prems(4) by simp
  from cook_step_edits [OF Cons.prems(1-3) this, of wr] obtain t
    where t: "cook_step wr ch () s = Ret (Inl ()) t" "holds ch k rs (fold (edit k) (translate k r) cs) t" "\<not> L_ECHO ch t"
    by blast
  have "length (fold (edit k) (translate k r) cs) + length rs \<le> 1023"
    using length_edit_translate [of k r cs] Cons.prems(4) by simp
  from Cons.IH [OF t(2,3) Cons.prems(3) this] t(1) show ?case
    by (subst loop_unfold) (simp add: edit_all_def)
qed

text \<open>
  C14. Cooked input: without echo, \<open>copy_to_cooked\<close> applies the line discipline to every
  character typed (erase and kill stop at the last line end, CR and NL are translated,
  control characters act and are dropped) and leaves the input queue empty, the edited text
  in the line buffer and the number of its line ends in \<open>data\<close>.
\<close>

theorem copy_to_cooked_edits:
  assumes "holds ch k rs cs s" and "\<not> L_ECHO ch s" and "c_iflag k AND 0x200 = 0"
    and "length cs + length rs \<le> 1023"
  shows "\<exists>t. copy_to_cooked ch s = Ret () t \<and> holds ch k [] (edit_all k rs cs) t \<and>
    q_proc_list (secondary (tt ch t)) = None"
proof -
  from cook_loop_edits [OF assms] obtain t
    where t: "loop (cook_step tty_output ch) () s = Ret () t" "holds ch k [] (edit_all k rs cs) t" by blast
  let ?u = "wake_up (secondary_queue ch) t"
  have "holds ch k [] (edit_all k rs cs) ?u"
    using t(2) by (auto simp: wake_up_def set_state_def queue_simps holds_def tt_def state_simps split: option.split)
  moreover have "q_proc_list (secondary (tt ch ?u)) = None"
    by (auto simp: wake_up_def set_state_def queue_simps tt_def state_simps split: option.split)
  ultimately show ?thesis using t(1) by (simp add: copy_to_cooked_def cooked_by_def)
qed

text \<open>The characters typed: \<open>a\<close>, \<open>b\<close>, rubout, return; the line buffer gets \<open>a\<close> and a newline.\<close>

definition typed :: kstate where
  "typed = (undefined :: kstate)\<lparr>tty_table := (\<lambda>_. \<lparr>
     tt_termios = \<lparr>c_iflag = 0x100, c_oflag = 0, c_cflag = 0, c_lflag = 2, c_line = 0,
       c_cc = (\<lambda>n. if n = VERASE then 127 else if n = VEOF then 4 else 0)\<rparr>,
     tt_pgrp = 0, tt_stopped = 0,
     read_q = fold putch [97, 98, 127, 13] \<lparr>q_data = 0, q_head = 0, q_tail = 0, q_proc_list = None, q_buf = (\<lambda>_. 0)\<rparr>,
     write_q = \<lparr>q_data = 0, q_head = 0, q_tail = 0, q_proc_list = None, q_buf = (\<lambda>_. 0)\<rparr>,
     secondary = \<lparr>q_data = 0, q_head = 0, q_tail = 0, q_proc_list = None, q_buf = (\<lambda>_. 0)\<rparr>\<rparr>)\<rparr>"

lemma typed_holds: "holds 0 (tt_termios (tt 0 typed)) [97, 98, 127, 13] [] typed"
  by (simp add: holds_def tt_def typed_def q_ok_def q_list_def q_len_def putch_def q_inc_def TTY_BUF_SIZE_def upt_rec)

theorem copy_to_cooked_edits_witness:
  "edit_all (tt_termios (tt 0 typed)) [97, 98, 127, 13] [] = [97, 10] \<and>
   (\<exists>t. copy_to_cooked 0 typed = Ret () t \<and>
     holds 0 (tt_termios (tt 0 typed)) [] (edit_all (tt_termios (tt 0 typed)) [97, 98, 127, 13] []) t \<and>
     q_proc_list (secondary (tt 0 t)) = None)"
proof
  show "edit_all (tt_termios (tt 0 typed)) [97, 98, 127, 13] [] = [97, 10]"
    by (simp add: edit_all_def translate_def edit_def erase_last_def line_end_def cc_def canon_def isig_def
        tt_def typed_def VEOF_def VERASE_def VKILL_def VSTOP_def VSTART_def)
  show "\<exists>t. copy_to_cooked 0 typed = Ret () t \<and>
     holds 0 (tt_termios (tt 0 typed)) [] (edit_all (tt_termios (tt 0 typed)) [97, 98, 127, 13] []) t \<and>
     q_proc_list (secondary (tt 0 t)) = None"
    by (rule copy_to_cooked_edits [OF typed_holds])
      (simp_all add: tt_def typed_def L_ECHO_def L_FLAG_def)
qed

end
