(* ===== verification/Requests.thy ===== *)
theory Requests
  imports Sched
begin

text \<open>
  The macros and inline functions of \<open>kernel/blk_drv/blk.h\<close> that all block drivers share
  and the RAM disk driver, \<open>ramdisk.c\<close>. The pointers to requests are indices into
  \<open>request[]\<close>, \<open>CURRENT\<close> of the driver with this major number is \<open>current_request s major\<close>.
\<close>

section \<open>Buffers and requests\<close>

definition lock_buffer :: "nat \<Rightarrow> kstate \<Rightarrow> (unit, kstate) outcome" where
  "lock_buffer b s =
    seq (if tst (b_lock (bh s b)) then sleep_on (bh_queue b) s else Ret () s)
      (\<lambda>_ s. Ret () (upd_bh b (b_lock_update (\<lambda>_. 1)) s))"

definition unlock_buffer :: "nat \<Rightarrow> kstate \<Rightarrow> kstate" where
  "unlock_buffer b s = wake_up (bh_queue b) (upd_bh b (b_lock_update (\<lambda>_. 0)) s)"

definition IN_ORDER :: "request \<Rightarrow> request \<Rightarrow> bool" where
  "IN_ORDER s1 s2 \<longleftrightarrow> slt (r_cmd s1) (r_cmd s2) \<or> r_cmd s1 = r_cmd s2 \<and>
     (slt (r_dev s1) (r_dev s2) \<or> r_dev s1 = r_dev s2 \<and> r_sector s1 < r_sector s2)"

section \<open>The current request\<close>

definition set_current :: "nat \<Rightarrow> nat option \<Rightarrow> kstate \<Rightarrow> kstate" where
  "set_current major r s = s\<lparr>current_request := (current_request s)(major := r)\<rparr>"

definition end_request :: "nat \<Rightarrow> u8 \<Rightarrow> kstate \<Rightarrow> kstate" where
  "end_request major uptodate s = (case current_request s major of None \<Rightarrow> s
     | Some r \<Rightarrow>
        (let b = r_bh (request s r);
             s = unlock_buffer b (upd_bh b (b_uptodate_update (\<lambda>_. uptodate)) s);
             s = wake_up (waiting_queue r) s;
             s = wake_up request_queue s;
             s = upd_req r (r_dev_update (\<lambda>_. - 1)) s
         in set_current major (r_next (request s r)) s))"

section \<open>The RAM disk\<close>

text \<open>\<open>memcpy\<close> between a buffer's block and the RAM disk; a block has 1024 bytes.\<close>

definition rd_write :: "nat \<Rightarrow> u32 \<Rightarrow> nat \<Rightarrow> kstate \<Rightarrow> (unit, kstate) outcome" where
  "rd_write b addr len s =
    (if BLOCK_SIZE < len then Fault else
     Ret () (s\<lparr>rd_mem := (\<lambda>a. if unat (a - addr) < len then b_data (bh s b) (unat (a - addr))
                               else rd_mem s a)\<rparr>))"

definition rd_read :: "nat \<Rightarrow> u32 \<Rightarrow> nat \<Rightarrow> kstate \<Rightarrow> (unit, kstate) outcome" where
  "rd_read b addr len s =
    (if BLOCK_SIZE < len then Fault else
     Ret () (upd_bh b (b_data_update (\<lambda>d k. if k < len then rd_mem s (addr + of_nat k) else d k)) s))"

text \<open>One request, from \<open>INIT_REQUEST\<close> to \<open>goto repeat\<close>.\<close>

definition rd_step :: "unit \<Rightarrow> kstate \<Rightarrow> (unit + unit, kstate) outcome" where
  "rd_step _ s = (case current_request s 1 of None \<Rightarrow> Ret (Inr ()) s
     | Some r \<Rightarrow>
        (let q = request s r in
         if MAJOR (r_dev q) \<noteq> 1 then Panic ''ramdisk: request list destroyed''
         else if \<not> tst (b_lock (bh s (r_bh q))) then Panic ''ramdisk: block not locked''
         else
           let addr = rd_start s + push_bit 9 (r_sector q);
               len = push_bit 9 (r_nr_sectors q)
           in if MINOR (r_dev q) \<noteq> 1 \<or> rd_start s + rd_length s < addr + len
              then Ret (Inl ()) (end_request 1 0 s)
              else seq (if r_cmd q = WRITE then rd_write (r_bh q) addr (unat len) s
                        else if r_cmd q = READ then rd_read (r_bh q) addr (unat len) s
                        else Panic ''unknown ramdisk-command'')
                     (\<lambda>_ s. Ret (Inl ()) (end_request 1 1 s))))"

definition do_rd_request :: "kstate \<Rightarrow> (unit, kstate) outcome" where
  "do_rd_request = loop rd_step ()"

definition rd_init :: "u32 \<Rightarrow> u32 \<Rightarrow> kstate \<Rightarrow> u32 \<times> kstate" where
  "rd_init mem_start len s =
    (len, s\<lparr>request_fn := (request_fn s)(1 := Some Ramdisk), rd_start := mem_start, rd_length := len,
       rd_mem := (\<lambda>a. if int (unat (a - mem_start)) < sint len then 0 else rd_mem s a)\<rparr>)"

end
