(* ===== verification/Harddisk.thy ===== *)
theory Harddisk
  imports Requests
begin

text \<open>
  The hard disk driver, \<open>kernel/blk_drv/hd.c\<close>. It gives a command to the controller and goes on
  in the interrupt, through the pointer \<open>do_hd\<close>. \<open>hd_info\<close> is the geometry of the drives,
  \<open>start_sect\<close> and \<open>nr_sects\<close> the table \<open>hd\<close> of partitions. \<open>sys_setup\<close>, which reads the
  partition tables through the buffer cache, is in the theory of the start-up.
\<close>

section \<open>Registers and status bits\<close>

definition HD_DATA :: u16 where "HD_DATA = 0x1f0"
definition HD_ERROR :: u16 where "HD_ERROR = 0x1f1"
definition HD_STATUS :: u16 where "HD_STATUS = 0x1f7"
definition HD_CMD :: u16 where "HD_CMD = 0x3f6"

definition ERR_STAT :: u8 where "ERR_STAT = 0x01"
definition DRQ_STAT :: u8 where "DRQ_STAT = 0x08"
definition SEEK_STAT :: u8 where "SEEK_STAT = 0x10"
definition WRERR_STAT :: u8 where "WRERR_STAT = 0x20"
definition READY_STAT :: u8 where "READY_STAT = 0x40"
definition BUSY_STAT :: u8 where "BUSY_STAT = 0x80"

definition WIN_RESTORE :: u8 where "WIN_RESTORE = 0x10"
definition WIN_READ :: u8 where "WIN_READ = 0x20"
definition WIN_WRITE :: u8 where "WIN_WRITE = 0x30"
definition WIN_SPECIFY :: u8 where "WIN_SPECIFY = 0x91"

definition HD_MAX_ERRORS :: u32 where "HD_MAX_ERRORS = 7"

definition upd_hd :: "(hd_state \<Rightarrow> hd_state) \<Rightarrow> kstate \<Rightarrow> kstate" where
  "upd_hd f s = s\<lparr>harddisk := f (harddisk s)\<rparr>"

section \<open>Transfers between a buffer and the data port\<close>

text \<open>\<open>rep insw\<close> and \<open>rep outsw\<close> of \<open>n\<close> words at offset \<open>k\<close> of the buffer's block.\<close>

primrec read_words :: "nat \<Rightarrow> nat \<Rightarrow> nat \<Rightarrow> kstate \<Rightarrow> kstate" where
  "read_words 0 b k s = s"
| "read_words (Suc n) b k s = (case in_port HD_DATA s of (v, s) \<Rightarrow>
     read_words n b (k + 2) (upd_bh b (b_data_update (put16 v k)) s))"

primrec write_words :: "nat \<Rightarrow> nat \<Rightarrow> nat \<Rightarrow> kstate \<Rightarrow> kstate" where
  "write_words 0 b k s = s"
| "write_words (Suc n) b k s = write_words n b (k + 2)
     (s\<lparr>ports := ports s\<lparr>port_out := (HD_DATA, get16 (b_data (bh s b)) k) # port_out (ports s)\<rparr>\<rparr>)"

definition port_read :: "nat \<Rightarrow> nat \<Rightarrow> kstate \<Rightarrow> (unit, kstate) outcome" where
  "port_read b k s = (if BLOCK_SIZE < k + 512 then Fault else Ret () (read_words 256 b k s))"

definition port_write :: "nat \<Rightarrow> nat \<Rightarrow> kstate \<Rightarrow> (unit, kstate) outcome" where
  "port_write b k s = (if BLOCK_SIZE < k + 512 then Fault else Ret () (write_words 256 b k s))"

section \<open>Talking to the controller\<close>

text \<open>\<open>while (--retries && (inb_p(HD_STATUS)&0xc0)!=0x40)\<close>\<close>

primrec poll_ready :: "nat \<Rightarrow> kstate \<Rightarrow> nat \<times> kstate" where
  "poll_ready 0 s = (0, s)"
| "poll_ready (Suc retries) s = (if retries = 0 then (0, s) else
     (case inb HD_STATUS s of (v, s) \<Rightarrow>
        if v AND 0xc0 = 0x40 then (retries, s) else poll_ready retries s))"

definition controller_ready :: "kstate \<Rightarrow> nat \<times> kstate" where
  "controller_ready = poll_ready 10000"

definition win_result :: "kstate \<Rightarrow> bool \<times> kstate" where
  "win_result s = (case inb HD_STATUS s of (i, s) \<Rightarrow>
     if i AND (BUSY_STAT OR READY_STAT OR WRERR_STAT OR SEEK_STAT OR ERR_STAT) = READY_STAT OR SEEK_STAT
     then (False, s)
     else (True, if tst (i AND 1) then snd (inb HD_ERROR s) else s))"

definition hd_out :: "u32 \<Rightarrow> u32 \<Rightarrow> u32 \<Rightarrow> u32 \<Rightarrow> u32 \<Rightarrow> u8 \<Rightarrow> hd_intr \<Rightarrow> kstate \<Rightarrow> (unit, kstate) outcome" where
  "hd_out drive nsect sect hea cyl cmd intr_addr s =
    (if 1 < drive \<or> 15 < hea then Panic ''Trying to write bad sector'' else
     case controller_ready s of (ready, s) \<Rightarrow>
       if ready = 0 then Panic ''HD controller not ready'' else
       let info = hd_info (harddisk s) (unat drive);
           s = upd_hd (do_hd_update (\<lambda>_. Some intr_addr)) s;
           s = outb (ucast (hd_ctl info)) HD_CMD s;
           s = outb (ucast (drop_bit 2 (hd_wpcom info))) (HD_DATA + 1) s;
           s = outb (ucast nsect) (HD_DATA + 2) s;
           s = outb (ucast sect) (HD_DATA + 3) s;
           s = outb (ucast cyl) (HD_DATA + 4) s;
           s = outb (ucast (drop_bit 8 cyl)) (HD_DATA + 5) s;
           s = outb (ucast (0xA0 OR push_bit 4 drive OR hea)) (HD_DATA + 6) s
       in Ret () (outb cmd (HD_DATA + 7) s))"

text \<open>
  \<open>drive_busy\<close> polls the status 10000 times at most. The test \<open>i == READY_STAT | SEEK_STAT\<close>
  compares first and is never 0, so the drive is always taken to be ready.
\<close>

primrec poll_busy :: "nat \<Rightarrow> kstate \<Rightarrow> kstate" where
  "poll_busy 0 s = s"
| "poll_busy (Suc n) s = (case inb HD_STATUS s of (v, s) \<Rightarrow>
     if READY_STAT = v AND (BUSY_STAT OR READY_STAT) then s else poll_busy n s)"

definition drive_busy :: "kstate \<Rightarrow> bool \<times> kstate" where
  "drive_busy s = (case inb HD_STATUS (poll_busy 10000 s) of (i, s) \<Rightarrow>
     let i = i AND (BUSY_STAT OR READY_STAT OR SEEK_STAT)
     in if tst ((if i = READY_STAT then 1 else 0) OR SEEK_STAT) then (False, s) else (True, s))"

definition reset_controller :: "kstate \<Rightarrow> kstate" where
  "reset_controller s =
    (let s = outb 4 HD_CMD s;
         s = outb (ucast (hd_ctl (hd_info (harddisk s) 0) AND 0x0f)) HD_CMD s;
         s = snd (drive_busy s)
     in snd (inb HD_ERROR s))"

definition reset_hd :: "u32 \<Rightarrow> kstate \<Rightarrow> (unit, kstate) outcome" where
  "reset_hd nr s =
    (let s = reset_controller s; info = hd_info (harddisk s) (unat nr)
     in hd_out nr (hd_sect info) (hd_sect info) (hd_head info - 1) (hd_cyl info) WIN_SPECIFY Recal_intr s)"

section \<open>Requests\<close>

text \<open>
  \<open>CURRENT->errors\<close>, also when \<open>CURRENT\<close> is NULL, as it is after the last request has failed:
  the kernel's address 8 is then read, an entry of the page directory.
\<close>

definition current_errors :: "kstate \<Rightarrow> u32" where
  "current_errors s = (case current_request s 3 of None \<Rightarrow> phys (mm s) 8 | Some r \<Rightarrow> r_errors (request s r))"

definition set_current_errors :: "u32 \<Rightarrow> kstate \<Rightarrow> kstate" where
  "set_current_errors n s = (case current_request s 3 of None \<Rightarrow> s\<lparr>mm := poke 8 n (mm s)\<rparr>
     | Some r \<Rightarrow> upd_req r (r_errors_update (\<lambda>_. n)) s)"

definition bad_rw_intr :: "kstate \<Rightarrow> kstate" where
  "bad_rw_intr s =
    (let s = set_current_errors (current_errors s + 1) s;
         s = (if sle HD_MAX_ERRORS (current_errors s) then end_request 3 0 s else s)
     in if slt (cdiv HD_MAX_ERRORS 2) (current_errors s) then upd_hd (hd_reset_update (\<lambda>_. True)) s else s)"

text \<open>\<open>for(i=0 ; i<3000 && !(r=inb_p(HD_STATUS)&DRQ_STAT) ; i++)\<close>: whether \<open>r\<close> is set at the end.\<close>

primrec poll_drq :: "nat \<Rightarrow> kstate \<Rightarrow> bool \<times> kstate" where
  "poll_drq 0 s = (False, s)"
| "poll_drq (Suc n) s = (case inb HD_STATUS s of (v, s) \<Rightarrow>
     if tst (v AND DRQ_STAT) then (True, s) else poll_drq n s)"

text \<open>The sector, head and cylinder of an absolute block number: the two \<open>divl\<close>.\<close>

definition chs :: "hd_i_struct \<Rightarrow> u32 \<Rightarrow> u32 \<times> u32 \<times> u32" where
  "chs info block = (let track = block div hd_sect info in
     (block mod hd_sect info + 1, track mod hd_head info, track div hd_head info))"

text \<open>One turn from \<open>repeat:\<close>; a drive without geometry is a division by zero.\<close>

definition hd_step :: "unit \<Rightarrow> kstate \<Rightarrow> (unit + unit, kstate) outcome" where
  "hd_step _ s = (case current_request s 3 of None \<Rightarrow> Ret (Inr ()) s
     | Some r \<Rightarrow>
        let q = request s r; dev = MINOR (r_dev q); block = r_sector q; h = harddisk s in
        if MAJOR (r_dev q) \<noteq> 3 then Panic ''harddisk: request list destroyed''
        else if \<not> tst (b_lock (bh s (r_bh q))) then Panic ''harddisk: block not locked''
        else if 5 * NR_HD h \<le> dev \<or> nr_sects h (unat dev) < block + 2 then Ret (Inl ()) (end_request 3 0 s)
        else
          let block = block + start_sect h (unat dev); dev = dev div 5; info = hd_info h (unat dev) in
          if hd_sect info = 0 \<or> hd_head info = 0 then Fault else
          case chs info block of (sec, hea, cyl) \<Rightarrow>
          if hd_reset h then
            seq (reset_hd dev (upd_hd (\<lambda>h. h\<lparr>hd_reset := False, hd_recalibrate := True\<rparr>) s))
              (\<lambda>_ s. Ret (Inr ()) s)
          else if hd_recalibrate h then
            seq (hd_out dev (hd_sect info) 0 0 0 WIN_RESTORE Recal_intr
                  (upd_hd (hd_recalibrate_update (\<lambda>_. False)) s)) (\<lambda>_ s. Ret (Inr ()) s)
          else if r_cmd q = WRITE then
            seq (hd_out dev (r_nr_sectors q) sec hea cyl WIN_WRITE Write_intr s) (\<lambda>_ s.
              case poll_drq 3000 s of (r, s) \<Rightarrow>
                if \<not> r then Ret (Inl ()) (bad_rw_intr s)
                else seq (port_write (r_bh q) (r_buffer q) s) (\<lambda>_ s. Ret (Inr ()) s))
          else if r_cmd q = READ then
            seq (hd_out dev (r_nr_sectors q) sec hea cyl WIN_READ Read_intr s) (\<lambda>_ s. Ret (Inr ()) s)
          else Panic ''unknown hd-command'')"

definition do_hd_request :: "kstate \<Rightarrow> (unit, kstate) outcome" where
  "do_hd_request = loop hd_step ()"

section \<open>Interrupts\<close>

text \<open>The handlers are set for a request, so that \<open>CURRENT\<close> is not NULL when they run.\<close>

definition read_intr :: "kstate \<Rightarrow> (unit, kstate) outcome" where
  "read_intr s = (case win_result s of (err, s) \<Rightarrow>
     if err then do_hd_request (bad_rw_intr s) else
     (case current_request s 3 of None \<Rightarrow> Fault | Some r \<Rightarrow>
        seq (port_read (r_bh (request s r)) (r_buffer (request s r)) s) (\<lambda>_ s.
          let s = upd_req r (\<lambda>q. q\<lparr>r_errors := 0, r_buffer := r_buffer q + 512,
                    r_sector := r_sector q + 1, r_nr_sectors := r_nr_sectors q - 1\<rparr>) s
          in if tst (r_nr_sectors (request s r)) then Ret () (upd_hd (do_hd_update (\<lambda>_. Some Read_intr)) s)
             else do_hd_request (end_request 3 1 s))))"

definition write_intr :: "kstate \<Rightarrow> (unit, kstate) outcome" where
  "write_intr s = (case win_result s of (err, s) \<Rightarrow>
     if err then do_hd_request (bad_rw_intr s) else
     (case current_request s 3 of None \<Rightarrow> Fault | Some r \<Rightarrow>
        let s = upd_req r (\<lambda>q. q\<lparr>r_nr_sectors := r_nr_sectors q - 1\<rparr>) s in
        if tst (r_nr_sectors (request s r)) then
          let s = upd_req r (\<lambda>q. q\<lparr>r_sector := r_sector q + 1, r_buffer := r_buffer q + 512\<rparr>) s;
              s = upd_hd (do_hd_update (\<lambda>_. Some Write_intr)) s
          in port_write (r_bh (request s r)) (r_buffer (request s r)) s
        else do_hd_request (end_request 3 1 s)))"

definition recal_intr :: "kstate \<Rightarrow> (unit, kstate) outcome" where
  "recal_intr s = (case win_result s of (err, s) \<Rightarrow> do_hd_request (if err then bad_rw_intr s else s))"

text \<open>
  The interrupt entry \<open>_hd_interrupt\<close> acknowledges both interrupt controllers, takes the handler
  out of \<open>do_hd\<close> and calls it; \<open>unexpected_hd_interrupt\<close> only prints.
\<close>

definition hd_interrupt :: "kstate \<Rightarrow> (unit, kstate) outcome" where
  "hd_interrupt s =
    (let handler = do_hd (harddisk s);
         s = upd_hd (do_hd_update (\<lambda>_. None)) (outb 0x20 0x20 (outb 0x20 0xA0 s))
     in case handler of None \<Rightarrow> Ret () s
        | Some Read_intr \<Rightarrow> read_intr s
        | Some Write_intr \<Rightarrow> write_intr s
        | Some Recal_intr \<Rightarrow> recal_intr s)"

text \<open>The interrupt gate is not part of the model, the masks of the interrupt controllers are ports.\<close>

definition hd_init :: "kstate \<Rightarrow> kstate" where
  "hd_init s =
    (let s = s\<lparr>request_fn := (request_fn s)(3 := Some Harddisk)\<rparr>
     in case inb 0x21 s of (m, s) \<Rightarrow>
        case inb 0xA1 (outb (m AND 0xfb) 0x21 s) of (m, s) \<Rightarrow> outb (m AND 0xbf) 0xA1 s)"

end
