(* ===== verification/FloppyDisk.thy ===== *)
theory FloppyDisk
  imports Requests Timers
begin

text \<open>
  The floppy driver, \<open>kernel/blk_drv/floppy.c\<close>. It waits for the motor with a timer, tells the
  controller to seek and to transfer, byte by byte through \<open>FD_DATA\<close>, and goes on in the interrupt,
  through the pointer \<open>do_floppy\<close>. The DMA controller moves the data between the disk and memory;
  buffers above 1 MB, which it cannot reach, go through \<open>tmp_floppy_area\<close>.
\<close>

section \<open>Registers, commands and formats\<close>

definition FD_STATUS :: u16 where "FD_STATUS = 0x3f4"
definition FD_DATA :: u16 where "FD_DATA = 0x3f5"
definition FD_DCR :: u16 where "FD_DCR = 0x3f7"

definition STATUS_BUSY :: u8 where "STATUS_BUSY = 0x10"
definition STATUS_DIR :: u8 where "STATUS_DIR = 0x40"
definition STATUS_READY :: u8 where "STATUS_READY = 0x80"

definition FD_RECALIBRATE :: u8 where "FD_RECALIBRATE = 0x07"
definition FD_SEEK :: u8 where "FD_SEEK = 0x0F"
definition FD_READ :: u8 where "FD_READ = 0xE6"
definition FD_WRITE :: u8 where "FD_WRITE = 0xC5"
definition FD_SENSEI :: u8 where "FD_SENSEI = 0x08"
definition FD_SPECIFY :: u8 where "FD_SPECIFY = 0x03"

definition DMA_READ :: u8 where "DMA_READ = 0x46"
definition DMA_WRITE :: u8 where "DMA_WRITE = 0x4A"

definition FD_MAX_ERRORS :: u32 where "FD_MAX_ERRORS = 8"
definition MAX_REPLIES :: nat where "MAX_REPLIES = 7"

record floppy_struct =
  ft_size :: u32
  ft_sect :: u32
  ft_head :: u32
  ft_track :: u32
  ft_stretch :: u32
  ft_gap :: u8
  ft_rate :: u8
  ft_spec1 :: u8

definition floppy_type :: "floppy_struct list" where
  "floppy_type =
   [\<lparr>ft_size = 0, ft_sect = 0, ft_head = 0, ft_track = 0, ft_stretch = 0, ft_gap = 0, ft_rate = 0, ft_spec1 = 0\<rparr>,
    \<lparr>ft_size = 720, ft_sect = 9, ft_head = 2, ft_track = 40, ft_stretch = 0, ft_gap = 0x2A, ft_rate = 2, ft_spec1 = 0xDF\<rparr>,
    \<lparr>ft_size = 2400, ft_sect = 15, ft_head = 2, ft_track = 80, ft_stretch = 0, ft_gap = 0x1B, ft_rate = 0, ft_spec1 = 0xDF\<rparr>,
    \<lparr>ft_size = 720, ft_sect = 9, ft_head = 2, ft_track = 40, ft_stretch = 1, ft_gap = 0x2A, ft_rate = 2, ft_spec1 = 0xDF\<rparr>,
    \<lparr>ft_size = 1440, ft_sect = 9, ft_head = 2, ft_track = 80, ft_stretch = 0, ft_gap = 0x2A, ft_rate = 2, ft_spec1 = 0xDF\<rparr>,
    \<lparr>ft_size = 720, ft_sect = 9, ft_head = 2, ft_track = 40, ft_stretch = 1, ft_gap = 0x23, ft_rate = 1, ft_spec1 = 0xDF\<rparr>,
    \<lparr>ft_size = 1440, ft_sect = 9, ft_head = 2, ft_track = 80, ft_stretch = 0, ft_gap = 0x23, ft_rate = 1, ft_spec1 = 0xDF\<rparr>,
    \<lparr>ft_size = 2880, ft_sect = 18, ft_head = 2, ft_track = 80, ft_stretch = 0, ft_gap = 0x1B, ft_rate = 0, ft_spec1 = 0xCF\<rparr>]"

definition upd_fdc :: "(fd_state \<Rightarrow> fd_state) \<Rightarrow> kstate \<Rightarrow> kstate" where
  "upd_fdc f s = s\<lparr>fdc := f (fdc s)\<rparr>"

text \<open>\<open>floppy->...\<close>: the format of the disk.\<close>

definition disk_format :: "kstate \<Rightarrow> floppy_struct" where
  "disk_format s = floppy_type ! fd_type (fdc s)"

text \<open>The functions that the driver passes to \<open>add_timer\<close>.\<close>

definition FLOPPY_ON_INTERRUPT :: nat where "FLOPPY_ON_INTERRUPT = 1"
definition TRANSFER :: nat where "TRANSFER = 2"

section \<open>Drives and requests\<close>

definition floppy_deselect :: "u32 \<Rightarrow> kstate \<Rightarrow> kstate" where
  "floppy_deselect nr s = wake_up select_queue (upd_floppy (selected_update (\<lambda>_. 0)) s)"

text \<open>\<open>end_request\<close> of this driver: \<open>DEVICE_OFF\<close> is \<open>floppy_off\<close>.\<close>

definition fd_end_request :: "u8 \<Rightarrow> kstate \<Rightarrow> kstate" where
  "fd_end_request uptodate s = (case current_request s 2 of None \<Rightarrow> s
     | Some r \<Rightarrow> end_request 2 uptodate (floppy_off (r_dev (request s r) AND 3) s))"

section \<open>The DMA controller\<close>

text \<open>\<open>copy_buffer\<close> between the block of a buffer and \<open>tmp_floppy_area\<close>.\<close>

definition copy_to_area :: "nat \<Rightarrow> kstate \<Rightarrow> kstate" where
  "copy_to_area b s = upd_fdc (tmp_floppy_area_update (\<lambda>d k. if k < BLOCK_SIZE then b_data (bh s b) k else d k)) s"

definition copy_from_area :: "nat \<Rightarrow> kstate \<Rightarrow> kstate" where
  "copy_from_area b s = upd_bh b (b_data_update (\<lambda>d k. if k < BLOCK_SIZE then tmp_floppy_area (fdc s) k else d k)) s"

text \<open>\<open>tmp_floppy_area\<close> is at \<open>floppy_area\<close>, below 1 MB; \<open>head.s\<close> puts it at 0x5000.\<close>

definition floppy_area :: u32 where "floppy_area = 0x5000"

definition setup_DMA :: "kstate \<Rightarrow> (unit, kstate) outcome" where
  "setup_DMA s = (case current_request s 2 of None \<Rightarrow> Fault
     | Some r \<Rightarrow>
        let b = r_bh (request s r); addr = b_addr (bh s b); high = sle 0x100000 addr;
            s = (if high \<and> fd_command (fdc s) = FD_WRITE then copy_to_area b s else s);
            addr = (if high then floppy_area else addr);
            mode = (if fd_command (fdc s) = FD_READ then DMA_READ else DMA_WRITE);
            s = outb (4 OR 2) 10 s;
            s = outb mode 12 s;
            s = outb mode 11 s;
            s = outb (ucast addr) 4 s;
            s = outb (ucast (drop_bit 8 addr)) 4 s;
            s = outb (ucast (drop_bit 16 addr)) 0x81 s;
            s = outb 0xff 5 s;
            s = outb 3 5 s
        in Ret () (outb (0 OR 2) 10 s))"

section \<open>Bytes to and from the controller\<close>

primrec send_byte :: "nat \<Rightarrow> u8 \<Rightarrow> kstate \<Rightarrow> kstate" where
  "send_byte 0 v s = upd_fdc (fd_reset_update (\<lambda>_. True)) s"
| "send_byte (Suc n) v s = (case inb FD_STATUS s of (status, s) \<Rightarrow>
     if status AND (STATUS_READY OR STATUS_DIR) = STATUS_READY then outb v FD_DATA s else send_byte n v s)"

definition output_byte :: "u8 \<Rightarrow> kstate \<Rightarrow> kstate" where
  "output_byte v s = (if fd_reset (fdc s) then s else send_byte 10000 v s)"

text \<open>The loop of \<open>result\<close>: \<open>i\<close> bytes have been read; \<open>None\<close> is \<open>-1\<close>.\<close>

primrec get_reply :: "nat \<Rightarrow> nat \<Rightarrow> kstate \<Rightarrow> nat option \<times> kstate" where
  "get_reply 0 i s = (None, upd_fdc (fd_reset_update (\<lambda>_. True)) s)"
| "get_reply (Suc n) i s = (case inb FD_STATUS s of (v, s) \<Rightarrow>
     let status = v AND (STATUS_DIR OR STATUS_READY OR STATUS_BUSY) in
     if status = STATUS_READY then (Some i, s)
     else if status = STATUS_DIR OR STATUS_READY OR STATUS_BUSY then
       if MAX_REPLIES \<le> i then (None, upd_fdc (fd_reset_update (\<lambda>_. True)) s)
       else (case inb FD_DATA s of (v, s) \<Rightarrow>
         get_reply n (Suc i) (upd_fdc (\<lambda>f. f\<lparr>reply_buffer := (reply_buffer f)(i := v)\<rparr>) s))
     else get_reply n i s)"

definition result :: "kstate \<Rightarrow> nat option \<times> kstate" where
  "result s = (if fd_reset (fdc s) then (None, s) else get_reply 10000 0 s)"

definition ST0 :: "kstate \<Rightarrow> u8" where "ST0 s = reply_buffer (fdc s) 0"
definition ST1 :: "kstate \<Rightarrow> u8" where "ST1 s = reply_buffer (fdc s) 1"
definition ST2 :: "kstate \<Rightarrow> u8" where "ST2 s = reply_buffer (fdc s) 2"

text \<open>\<open>head<<2 | current_drive\<close>\<close>

definition head_drive :: "kstate \<Rightarrow> u8" where
  "head_drive s = push_bit 2 (fd_head (fdc s)) OR current_drive (fdc s)"

section \<open>Resetting the controller\<close>

text \<open>The reset line is bit 2 of \<open>FD_DOR\<close>.\<close>

definition reset_floppy :: "kstate \<Rightarrow> kstate" where
  "reset_floppy s = upd_floppy (\<lambda>f. f\<lparr>dor_port := current_DOR f # (current_DOR f AND NOT 4) # dor_port f\<rparr>)
     (upd_fdc (\<lambda>f. f\<lparr>fd_reset := False, cur_spec1 := - 1, cur_rate := - 1, fd_recalibrate := True,
        do_floppy := Some Reset_interrupt\<rparr>) s)"

text \<open>
  Where the functions below call \<open>do_fd_request\<close> while \<open>reset\<close> is set, only its first lines
  run: \<open>do_fd_request_reset\<close> proves that this is what it does.
\<close>

definition restart_reset :: "kstate \<Rightarrow> kstate" where
  "restart_reset s = reset_floppy (upd_fdc (fd_seek_update (\<lambda>_. False)) s)"

definition recalibrate_floppy :: "kstate \<Rightarrow> kstate" where
  "recalibrate_floppy s =
    (let s = upd_fdc (\<lambda>f. f\<lparr>fd_recalibrate := False, current_track := 0, do_floppy := Some Recal_interrupt\<rparr>) s;
         s = output_byte FD_RECALIBRATE s;
         s = output_byte (head_drive s) s
     in if fd_reset (fdc s) then restart_reset s else s)"

section \<open>The transfer\<close>

definition setup_rw_floppy :: "kstate \<Rightarrow> (unit, kstate) outcome" where
  "setup_rw_floppy s = seq (setup_DMA s) (\<lambda>_ s.
     let s = upd_fdc (do_floppy_update (\<lambda>_. Some Rw_interrupt)) s;
         s = output_byte (fd_command (fdc s)) s;
         s = output_byte (head_drive s) s;
         s = output_byte (fd_track (fdc s)) s;
         s = output_byte (fd_head (fdc s)) s;
         s = output_byte (fd_sector (fdc s)) s;
         s = output_byte 2 s;
         s = output_byte (ucast (ft_sect (disk_format s))) s;
         s = output_byte (ft_gap (disk_format s)) s;
         s = output_byte 0xFF s
     in Ret () (if fd_reset (fdc s) then restart_reset s else s))"

definition specify_drive :: "kstate \<Rightarrow> kstate" where
  "specify_drive s = output_byte 6 (output_byte (ucast (cur_spec1 (fdc s))) (output_byte FD_SPECIFY s))"

definition transfer :: "kstate \<Rightarrow> (unit, kstate) outcome" where
  "transfer s =
    (let t = disk_format s;
         s = (if cur_spec1 (fdc s) \<noteq> ucast (ft_spec1 t)
              then specify_drive (upd_fdc (cur_spec1_update (\<lambda>_. ucast (ft_spec1 t))) s) else s);
         s = (if cur_rate (fdc s) \<noteq> ucast (ft_rate t)
              then outb (ft_rate t) FD_DCR (upd_fdc (cur_rate_update (\<lambda>_. ucast (ft_rate t))) s) else s)
     in if fd_reset (fdc s) then Ret () (restart_reset s)
        else if \<not> fd_seek (fdc s) then setup_rw_floppy s
        else let s = upd_fdc (do_floppy_update (\<lambda>_. Some Seek_interrupt)) s;
                 s = (if seek_track (fdc s) \<noteq> 0
                      then let s = output_byte FD_SEEK s; s = output_byte (head_drive s) s
                           in output_byte (seek_track (fdc s)) s
                      else let s = output_byte FD_RECALIBRATE s in output_byte (head_drive s) s)
             in Ret () (if fd_reset (fdc s) then restart_reset s else s))"

definition floppy_on_interrupt :: "kstate \<Rightarrow> (unit, kstate) outcome" where
  "floppy_on_interrupt s =
    (let s = upd_floppy (selected_update (\<lambda>_. 1)) s in
     if current_drive (fdc s) \<noteq> current_DOR (floppy s) AND 3 then
       let s = upd_floppy (\<lambda>f. let dor = (current_DOR f AND 0xFC) OR current_drive (fdc s)
                 in f\<lparr>current_DOR := dor, dor_port := dor # dor_port f\<rparr>) s
       in in_timers (add_timer 2 TRANSFER) s
     else transfer s)"

section \<open>The request function\<close>

text \<open>\<open>add_timer(ticks,&floppy_on_interrupt)\<close>, which calls the function itself when no time is left.\<close>

definition when_motor_on :: "u32 \<Rightarrow> kstate \<Rightarrow> (unit, kstate) outcome" where
  "when_motor_on ticks s = (if sle ticks 0 then floppy_on_interrupt s else in_timers (add_timer ticks FLOPPY_ON_INTERRUPT) s)"

text \<open>
  From \<open>sector = block % floppy->sect\<close> to \<open>sector++\<close>; the quotients and remainders are unsigned,
  the variables one byte wide. A format without sectors would be a division by zero.
\<close>

definition locate :: "u32 \<Rightarrow> kstate \<Rightarrow> kstate" where
  "locate block s =
    (let t = disk_format s; track = block div ft_sect t;
         s = upd_fdc (\<lambda>f. f\<lparr>fd_sector := ucast (block mod ft_sect t) + 1, fd_head := ucast (track mod ft_head t),
               fd_track := ucast (track div ft_head t)\<rparr>) s;
         s = upd_fdc (\<lambda>f. f\<lparr>seek_track := ucast (push_bit (unat (ft_stretch t)) (ucast (fd_track f) :: u32))\<rparr>) s
     in if seek_track (fdc s) \<noteq> current_track (fdc s) then upd_fdc (fd_seek_update (\<lambda>_. True)) s else s)"

text \<open>The format and the drive of a request.\<close>

definition select_drive :: "u32 \<Rightarrow> kstate \<Rightarrow> kstate" where
  "select_drive dev s = upd_fdc (\<lambda>f. f\<lparr>fd_type := unat (MINOR dev) div 4,
     fd_seek := (if current_drive f \<noteq> ucast (dev AND 3) then True else fd_seek f), current_drive := ucast (dev AND 3)\<rparr>) s"

text \<open>One turn from \<open>repeat:\<close>; a minor number of 32 or more is past the end of \<open>floppy_type\<close>.\<close>

definition fd_step :: "unit \<Rightarrow> kstate \<Rightarrow> (unit + unit, kstate) outcome" where
  "fd_step _ s = (case current_request s 2 of None \<Rightarrow> Ret (Inr ()) s
     | Some r \<Rightarrow>
        let q = request s r; dev = r_dev q; block = r_sector q in
        if MAJOR dev \<noteq> 2 then Panic ''floppy: request list destroyed''
        else if \<not> tst (b_lock (bh s (r_bh q))) then Panic ''floppy: block not locked''
        else if length floppy_type \<le> unat (MINOR dev) div 4 then Fault
        else
          let s = select_drive dev s in
             if ft_size (disk_format s) < block + 2 then Ret (Inl ()) (fd_end_request 0 s)
             else if ft_sect (disk_format s) = 0 then Fault
             else
               let s = locate block s in
               if r_cmd q \<noteq> READ \<and> r_cmd q \<noteq> WRITE then Panic ''do_fd_request: unknown command'' else
               let s = upd_fdc (fd_command_update (\<lambda>_. if r_cmd q = READ then FD_READ else FD_WRITE)) s
               in seq (ticks_to_floppy_on (ucast (current_drive (fdc s))) s) (\<lambda>ticks s.
                  seq (when_motor_on ticks s) (\<lambda>_ s. Ret (Inr ()) s)))"

definition do_fd_request :: "kstate \<Rightarrow> (unit, kstate) outcome" where
  "do_fd_request s =
    (let s = upd_fdc (fd_seek_update (\<lambda>_. False)) s in
     if fd_reset (fdc s) then Ret () (reset_floppy s)
     else if fd_recalibrate (fdc s) then Ret () (recalibrate_floppy s)
     else loop fd_step () s)"

lemma do_fd_request_reset: "fd_reset (fdc s) \<Longrightarrow> do_fd_request s = Ret () (restart_reset s)"
  by (simp add: do_fd_request_def restart_reset_def upd_fdc_def Let_def)

section \<open>Interrupts\<close>

text \<open>
  \<open>CURRENT->errors\<close> is read again after \<open>end_request\<close>, then also when \<open>CURRENT\<close> is NULL; the address
  8 of the kernel's memory is read in that case.
\<close>

definition bad_flp_intr :: "kstate \<Rightarrow> (unit, kstate) outcome" where
  "bad_flp_intr s = (case current_request s 2 of None \<Rightarrow> Fault
     | Some r \<Rightarrow>
        let s = upd_req r (\<lambda>q. q\<lparr>r_errors := r_errors q + 1\<rparr>) s;
            s = (if slt FD_MAX_ERRORS (r_errors (request s r))
                 then fd_end_request 0 (floppy_deselect (ucast (current_drive (fdc s))) s) else s);
            errors = (case current_request s 2 of None \<Rightarrow> phys (mm s) 8 | Some r \<Rightarrow> r_errors (request s r))
        in Ret () (if slt (cdiv FD_MAX_ERRORS 2) errors then upd_fdc (fd_reset_update (\<lambda>_. True)) s
                   else upd_fdc (fd_recalibrate_update (\<lambda>_. True)) s))"

definition rw_interrupt :: "kstate \<Rightarrow> (unit, kstate) outcome" where
  "rw_interrupt s = (case result s of (n, s) \<Rightarrow>
     if n \<noteq> Some 7 \<or> tst (ST0 s AND 0xf8) \<or> tst (ST1 s AND 0xbf) \<or> tst (ST2 s AND 0x73) then
       seq (if tst (ST1 s AND 0x02) then
              if current_request s 2 = None then Fault
              else Ret () (fd_end_request 0 (floppy_deselect (ucast (current_drive (fdc s))) s))
            else bad_flp_intr s) (\<lambda>_ s. do_fd_request s)
     else case current_request s 2 of None \<Rightarrow> Fault
       | Some r \<Rightarrow>
          let b = r_bh (request s r);
              s = (if fd_command (fdc s) = FD_READ \<and> 0x100000 \<le> b_addr (bh s b) then copy_from_area b s else s)
          in do_fd_request (fd_end_request 1 (floppy_deselect (ucast (current_drive (fdc s))) s)))"

definition seek_interrupt :: "kstate \<Rightarrow> (unit, kstate) outcome" where
  "seek_interrupt s = (case result (output_byte FD_SENSEI s) of (n, s) \<Rightarrow>
     if n \<noteq> Some 2 \<or> ST0 s AND 0xF8 \<noteq> 0x20 \<or> ST1 s \<noteq> seek_track (fdc s)
     then seq (bad_flp_intr s) (\<lambda>_ s. do_fd_request s)
     else setup_rw_floppy (upd_fdc (current_track_update (\<lambda>_. ST1 s)) s))"

definition sense_failed :: "nat option \<Rightarrow> kstate \<Rightarrow> bool" where
  "sense_failed n s \<longleftrightarrow> n \<noteq> Some 2 \<or> ST0 s AND 0xE0 = 0x60"

definition recal_interrupt :: "kstate \<Rightarrow> (unit, kstate) outcome" where
  "recal_interrupt s = (case result (output_byte FD_SENSEI s) of (n, s) \<Rightarrow>
     do_fd_request (if sense_failed n s then upd_fdc (fd_reset_update (\<lambda>_. True)) s
                    else upd_fdc (fd_recalibrate_update (\<lambda>_. False)) s))"

definition unexpected_floppy_interrupt :: "kstate \<Rightarrow> kstate" where
  "unexpected_floppy_interrupt s = (case result (output_byte FD_SENSEI s) of (n, s) \<Rightarrow>
     if sense_failed n s then upd_fdc (fd_reset_update (\<lambda>_. True)) s
     else upd_fdc (fd_recalibrate_update (\<lambda>_. True)) s)"

definition reset_interrupt :: "kstate \<Rightarrow> (unit, kstate) outcome" where
  "reset_interrupt s = do_fd_request (specify_drive (snd (result (output_byte FD_SENSEI s))))"

text \<open>The interrupt entry \<open>_floppy_interrupt\<close> takes the handler out of \<open>do_floppy\<close> and calls it.\<close>

definition floppy_interrupt :: "kstate \<Rightarrow> (unit, kstate) outcome" where
  "floppy_interrupt s =
    (let handler = do_floppy (fdc s); s = upd_fdc (do_floppy_update (\<lambda>_. None)) (outb 0x20 0x20 s)
     in case handler of None \<Rightarrow> Ret () (unexpected_floppy_interrupt s)
        | Some Rw_interrupt \<Rightarrow> rw_interrupt s
        | Some Seek_interrupt \<Rightarrow> seek_interrupt s
        | Some Recal_interrupt \<Rightarrow> recal_interrupt s
        | Some Reset_interrupt \<Rightarrow> reset_interrupt s)"

text \<open>What the timers of the driver call.\<close>

definition floppy_timer_fn :: "nat \<Rightarrow> kstate \<Rightarrow> (unit, kstate) outcome" where
  "floppy_timer_fn fn s = (if fn = FLOPPY_ON_INTERRUPT then floppy_on_interrupt s
     else if fn = TRANSFER then transfer s else Ret () s)"

definition floppy_init :: "kstate \<Rightarrow> kstate" where
  "floppy_init s = (case inb 0x21 (s\<lparr>request_fn := (request_fn s)(2 := Some Floppy)\<rparr>) of (m, s) \<Rightarrow>
     outb (m AND 0xbf) 0x21 s)"

text \<open>The static variables as they are initialised.\<close>

definition fd_boot :: "(nat \<Rightarrow> u8) \<Rightarrow> fd_state" where
  "fd_boot tmp = \<lparr>fd_recalibrate = False, fd_reset = False, fd_seek = False, reply_buffer = (\<lambda>_. 0), cur_spec1 = - 1,
     cur_rate = - 1, fd_type = 0, current_drive = 0, fd_sector = 0, fd_head = 0, fd_track = 0, seek_track = 0,
     current_track = 255, fd_command = 0, do_floppy = None, tmp_floppy_area = tmp\<rparr>"

end
