(* ===== verification/Block.thy ===== *)
theory Block
  imports Harddisk FloppyDisk
begin

text \<open>
  \<open>kernel/blk_drv/ll_rw_blk.c\<close>: the request queues with their elevator and the entry point of
  the block layer.
\<close>

text \<open>\<open>(dev->request_fn)()\<close>\<close>

definition run_driver :: "nat \<Rightarrow> kstate \<Rightarrow> (unit, kstate) outcome" where
  "run_driver major s = (case request_fn s major of
       None \<Rightarrow> Fault
     | Some Ramdisk \<Rightarrow> do_rd_request s
     | Some Harddisk \<Rightarrow> do_hd_request s
     | Some Floppy \<Rightarrow> do_fd_request s)"

section \<open>The elevator\<close>

text \<open>The request after which \<open>req\<close> goes: the loop over \<open>tmp\<close>.\<close>

partial_function (option) elevator :: "(nat \<Rightarrow> request) \<Rightarrow> nat \<Rightarrow> nat \<Rightarrow> nat option" where
  "elevator q req tmp = (case r_next (q tmp) of None \<Rightarrow> Some tmp
     | Some nxt \<Rightarrow>
         if (IN_ORDER (q tmp) (q req) \<or> \<not> IN_ORDER (q tmp) (q nxt)) \<and> IN_ORDER (q req) (q nxt)
         then Some tmp else elevator q req nxt)"

definition add_request :: "nat \<Rightarrow> nat \<Rightarrow> kstate \<Rightarrow> (unit, kstate) outcome" where
  "add_request major req s =
    (let s = upd_req req (r_next_update (\<lambda>_. None)) s;
         s = upd_bh (r_bh (request s req)) (b_dirt_update (\<lambda>_. 0)) s
     in case current_request s major of
          None \<Rightarrow> run_driver major (set_current major (Some req) s)
        | Some tmp \<Rightarrow>
            (case elevator (request s) req tmp of None \<Rightarrow> Hangs
             | Some tmp \<Rightarrow>
                let s = upd_req req (r_next_update (\<lambda>_. r_next (request s tmp))) s
                in Ret () (upd_req tmp (r_next_update (\<lambda>_. Some req)) s)))"

text \<open>\<open>while (--req >= request) if (req->dev<0) break\<close>\<close>

primrec empty_request :: "nat \<Rightarrow> (nat \<Rightarrow> request) \<Rightarrow> nat option" where
  "empty_request 0 q = None"
| "empty_request (Suc i) q = (if slt (r_dev (q i)) 0 then Some i else empty_request i q)"

definition make_request :: "nat \<Rightarrow> u32 \<Rightarrow> nat \<Rightarrow> kstate \<Rightarrow> (unit, kstate) outcome" where
  "make_request major rw b s =
    (let rw_ahead = (rw = READA \<or> rw = WRITEA) in
     if rw_ahead \<and> tst (b_lock (bh s b)) then Ret () s else
     let rw = (if rw_ahead then if rw = READA then READ else WRITE else rw) in
     if rw \<noteq> READ \<and> rw \<noteq> WRITE then Panic ''Bad block dev command, must be R/W/RA/WA'' else
     seq (lock_buffer b s) (\<lambda>_ s.
       if rw = WRITE \<and> \<not> tst (b_dirt (bh s b)) \<or> rw = READ \<and> tst (b_uptodate (bh s b))
       then Ret () (unlock_buffer b s)
       else case empty_request (if rw = READ then NR_REQUEST else NR_REQUEST * 2 div 3) (request s) of
         None \<Rightarrow> if rw_ahead then Ret () (unlock_buffer b s) else sleep_on request_queue s
       | Some req \<Rightarrow>
           add_request major req (upd_req req (\<lambda>_. \<lparr>r_dev = ucast (b_dev (bh s b)), r_cmd = rw,
             r_errors = 0, r_sector = push_bit 1 (b_blocknr (bh s b)), r_nr_sectors = 2,
             r_waiting = None, r_bh = b, r_buffer = 0, r_next = None\<rparr>) s)))"

definition ll_rw_block :: "u32 \<Rightarrow> nat \<Rightarrow> kstate \<Rightarrow> (unit, kstate) outcome" where
  "ll_rw_block rw b s =
    (let major = unat (MAJOR (ucast (b_dev (bh s b)))) in
     if NR_BLK_DEV \<le> major \<or> request_fn s major = None then Ret () s
     else make_request major rw b s)"

primrec clear_requests :: "nat \<Rightarrow> kstate \<Rightarrow> kstate" where
  "clear_requests 0 s = s"
| "clear_requests (Suc i) s =
     upd_req i (\<lambda>r. r\<lparr>r_dev := - 1, r_next := None\<rparr>) (clear_requests i s)"

definition blk_dev_init :: "kstate \<Rightarrow> kstate" where
  "blk_dev_init s = clear_requests NR_REQUEST s"

end
