(* ===== verification/BlockProps.thy ===== *)
theory BlockProps
  imports Block
begin

text \<open>
  What the block layer guarantees: the order the elevator keeps requests in, and that blocks
  written to the RAM disk are read back.
\<close>

section \<open>The order of requests\<close>

text \<open>
  \<open>IN_ORDER\<close> compares command, device and sector. The type of these keys is ordered the same
  way, so that the library's facts about \<open><\<close> apply to it.
\<close>

datatype req_key = Key (key_cmd: int) (key_dev: int) (key_sector: nat)

instantiation req_key :: linorder
begin

definition less_req_key :: "req_key \<Rightarrow> req_key \<Rightarrow> bool" where
  "less_req_key a b \<longleftrightarrow> key_cmd a < key_cmd b \<or> key_cmd a = key_cmd b \<and>
     (key_dev a < key_dev b \<or> key_dev a = key_dev b \<and> key_sector a < key_sector b)"

definition less_eq_req_key :: "req_key \<Rightarrow> req_key \<Rightarrow> bool" where
  "less_eq_req_key a b \<longleftrightarrow> a < b \<or> a = b"

instance
  by standard (auto simp: less_eq_req_key_def less_req_key_def intro: req_key.expand)

end

definition key :: "request \<Rightarrow> req_key" where
  "key r = Key (sint (r_cmd r)) (sint (r_dev r)) (unat (r_sector r))"

lemma IN_ORDER_key: "IN_ORDER a b \<longleftrightarrow> key a < key b"
  by (simp add: IN_ORDER_def key_def less_req_key_def slt_def word_less_nat_alt
      flip: word_eq_iff_signed)

section \<open>The elevator keeps two sweeps\<close>

text \<open>The insertion on the keys alone: never before the first request, which is being served.\<close>

fun elevate :: "req_key \<Rightarrow> req_key list \<Rightarrow> req_key list" where
  "elevate k [] = [k]"
| "elevate k [t] = [t, k]"
| "elevate k (t # n # ts) =
     (if (t < k \<or> \<not> t < n) \<and> k < n then t # k # n # ts else t # elevate k (n # ts))"

text \<open>Ascending, with at most one step down if \<open>b\<close>.\<close>

fun sweeps :: "bool \<Rightarrow> req_key list \<Rightarrow> bool" where
  "sweeps b (x # y # zs) = (if x < y then sweeps b (y # zs) else b \<and> sweeps False (y # zs))"
| "sweeps b xs = True"

lemma elevate_not_Nil: "elevate k ts \<noteq> []"
  by (induction k ts rule: elevate.induct) auto

lemma elevate_hd: "ts \<noteq> [] \<Longrightarrow> \<exists>us. elevate k ts = hd ts # us"
  by (induction k ts rule: elevate.induct) auto

lemma sweeps_Cons: "ts \<noteq> [] \<Longrightarrow> sweeps b (t # ts) = (if t < hd ts then sweeps b ts else b \<and> sweeps False ts)"
  by (cases ts) auto

lemma elevate_last_sweep:
  "sweeps False ts \<Longrightarrow> k \<notin> set ts \<Longrightarrow> ts \<noteq> [] \<Longrightarrow> hd ts < k \<Longrightarrow> sweeps False (elevate k ts)"
proof (induction k ts rule: elevate.induct)
  case (3 k t n ts)
  then have "t < n" "sweeps False (n # ts)" by (auto split: if_splits)
  show ?case
  proof (cases "k < n")
    case False
    then have "n < k" using 3 by auto
    then have "sweeps False (elevate k (n # ts))" using 3 \<open>sweeps False (n # ts)\<close> False by simp
    moreover obtain us where "elevate k (n # ts) = n # us" using elevate_hd [of "n # ts" k] by auto
    ultimately show ?thesis using False \<open>t < n\<close> by simp
  qed (use 3 \<open>t < n\<close> \<open>sweeps False (n # ts)\<close> in auto)
qed auto

lemma elevate_sweeps: "sweeps True ts \<Longrightarrow> k \<notin> set ts \<Longrightarrow> sweeps True (elevate k ts)"
proof (induction k ts rule: elevate.induct)
  case (3 k t n ts)
  obtain us where us: "elevate k (n # ts) = n # us" using elevate_hd [of "n # ts" k] by auto
  show ?case
  proof (cases "(t < k \<or> \<not> t < n) \<and> k < n")
    case True
    then show ?thesis using 3 by (auto split: if_splits)
  next
    case False
    show ?thesis
    proof (cases "t < n")
      case True
      then have "sweeps True (elevate k (n # ts))" using 3 False by simp
      moreover have "elevate k (t # n # ts) = t # elevate k (n # ts)" using False by (simp only: elevate.simps if_False)
      ultimately show ?thesis using True us by simp
    next
      case down: False
      then have "n < k" using False 3 by auto
      then have "sweeps False (elevate k (n # ts))" using 3 down by (intro elevate_last_sweep) auto
      moreover have "elevate k (t # n # ts) = t # elevate k (n # ts)" using \<open>n < k\<close> by auto
      ultimately show ?thesis using down us by simp
    qed
  qed
qed auto

section \<open>The request queue as a list\<close>

fun req_chain :: "(nat \<Rightarrow> request) \<Rightarrow> nat option \<Rightarrow> nat list \<Rightarrow> bool" where
  "req_chain q p [] \<longleftrightarrow> p = None"
| "req_chain q p (x # xs) \<longleftrightarrow> p = Some x \<and> req_chain q (r_next (q x)) xs"

lemma req_chain_cong:
  "req_chain q p xs \<Longrightarrow> (\<And>x. x \<in> set xs \<Longrightarrow> r_next (q' x) = r_next (q x)) \<Longrightarrow> req_chain q' p xs"
  by (induction xs arbitrary: p) auto


text \<open>The queue splits where the new request goes.\<close>

lemma elevator_splits:
  assumes "req_chain q (Some t) (t # ts)"
  shows "\<exists>as x bs. elevator q req t = Some x \<and> t # ts = as @ x # bs \<and>
    elevate (key (q req)) (List.map (\<lambda>i. key (q i)) (t # ts)) =
      List.map (\<lambda>i. key (q i)) (as @ x # req # bs)"
  using assms
proof (induction ts arbitrary: t)
  case Nil
  then have "elevator q req t = Some t" by (subst elevator.simps) simp
  then show ?case by (intro exI [of _ "[]"] exI [of _ t]) simp
next
  case (Cons n ts)
  show ?case
  proof (cases "(IN_ORDER (q t) (q req) \<or> \<not> IN_ORDER (q t) (q n)) \<and> IN_ORDER (q req) (q n)")
    case True
    then have "elevator q req t = Some t" using Cons.prems by (subst elevator.simps) simp
    then show ?thesis using True by (intro exI [of _ "[]"] exI [of _ t] exI [of _ "n # ts"]) (simp add: IN_ORDER_key)
  next
    case False
    let ?k = "\<lambda>i. key (q i)"
    have "req_chain q (Some n) (n # ts)" using Cons.prems by simp
    from Cons.IH [OF this] obtain as x bs where
      "elevator q req n = Some x" "n # ts = as @ x # bs"
      "elevate (key (q req)) (List.map (\<lambda>i. key (q i)) (n # ts)) = List.map (\<lambda>i. key (q i)) (as @ x # req # bs)" by blast
    moreover have "elevator q req t = elevator q req n"
      using False Cons.prems by (subst elevator.simps) auto
    moreover have "elevate (?k req) (List.map ?k (t # n # ts)) = ?k t # elevate (?k req) (List.map ?k (n # ts))"
      using False by (simp only: elevate.simps list.map IN_ORDER_key if_False)
    ultimately show ?thesis
      by (intro exI [of _ "t # as"] exI [of _ x] exI [of _ bs]) (simp del: elevate.simps)
  qed
qed


lemma req_chain_splice:
  assumes "req_chain q p (as @ x # bs)" "distinct (as @ x # bs)" "req \<notin> set (as @ x # bs)"
  shows "req_chain (q(req := (q req)\<lparr>r_next := r_next (q x)\<rparr>, x := (q x)\<lparr>r_next := Some req\<rparr>)) p
    (as @ x # req # bs)"
  using assms by (induction as arbitrary: p) (auto intro: req_chain_cong)

lemma req_chain_upd: "req \<notin> set xs \<Longrightarrow> req_chain (q(req := r)) p xs = req_chain q p xs"
  by (induction xs arbitrary: p) auto

text \<open>
  C16. The elevator: a request added to a busy device goes somewhere behind the one being
  served, the other requests keep their order, and a queue of at most two ascending sweeps
  (by command, device and sector) still is one. The buffer is no longer dirty.
\<close>
theorem add_request_elevator:
  assumes busy: "current_request s major = Some h"
    and chain: "req_chain (request s) (Some h) xs" "distinct xs" "req \<notin> set xs"
    and new: "key (request s req) \<notin> (\<lambda>i. key (request s i)) ` set xs"
    and sweeps: "sweeps True (List.map (\<lambda>i. key (request s i)) xs)"
  shows "\<exists>t ys. add_request major req s = Ret () t \<and> current_request t major = Some h \<and>
    req_chain (request t) (Some h) ys \<and> filter (\<lambda>i. i \<noteq> req) ys = xs \<and> set ys = insert req (set xs) \<and>
    sweeps True (List.map (\<lambda>i. key (request t i)) ys) \<and> b_dirt (bh t (r_bh (request s req))) = 0"
proof -
  define q where "q = (request s)(req := request s req\<lparr>r_next := None\<rparr>)"
  have key_q: "key (q i) = key (request s i)" for i by (simp add: q_def key_def)
  have q: "req_chain q (Some h) xs" using chain by (simp add: q_def req_chain_upd)
  then obtain ts where xs: "xs = h # ts" by (cases xs) auto
  obtain as x bs where
    x: "elevator q req h = Some x" and split: "xs = as @ x # bs" and
    el: "elevate (key (q req)) (List.map (\<lambda>i. key (q i)) xs) = List.map (\<lambda>i. key (q i)) (as @ x # req # bs)"
    using elevator_splits [OF q [unfolded xs]] unfolding xs by blast
  define q' where "q' = q(req := q req\<lparr>r_next := r_next (q x)\<rparr>, x := q x\<lparr>r_next := Some req\<rparr>)"
  have "x \<noteq> req" using split chain by auto
  then have add: "add_request major req s = Ret ()
      (upd_bh (r_bh (request s req)) (b_dirt_update (\<lambda>_. 0)) (s\<lparr>request := q'\<rparr>))"
    using busy x by (simp add: add_request_def state_simps q'_def q_def Let_def)
  have "key (q' i) = key (request s i)" for i by (simp add: q'_def key_def q_def)
  moreover have "req_chain q' (Some h) (as @ x # req # bs)"
    using q chain unfolding split q'_def by (intro req_chain_splice) auto
  moreover have "sweeps True (List.map (\<lambda>i. key (request s i)) (as @ x # req # bs))"
    using elevate_sweeps [of "List.map (\<lambda>i. key (request s i)) xs" "key (request s req)"] sweeps new el
    by (simp add: key_q image_def)
  moreover have "filter (\<lambda>i. i \<noteq> req) zs = zs" if "req \<notin> set zs" for zs
    using that by (induction zs) auto
  then have "filter (\<lambda>i. i \<noteq> req) (as @ x # req # bs) = xs" using chain unfolding split by auto
  ultimately show ?thesis using busy chain unfolding split
    by (intro exI [of _ "upd_bh (r_bh (request s req)) (b_dirt_update (\<lambda>_. 0)) (s\<lparr>request := q'\<rparr>)"]
      exI [of _ "as @ x # req # bs"]) (auto simp: state_simps add)
qed


text \<open>Two reads are queued, at sectors 8 and 20; one at sector 10 goes between them.\<close>

definition two_requests :: kstate where
  "two_requests = (undefined :: kstate)\<lparr>current_request := (\<lambda>_. Some 5),
     request := (\<lambda>i. (undefined :: request)\<lparr>r_cmd := READ, r_dev := 0x301,
        r_sector := (if i = 5 then 8 else if i = 6 then 20 else 10), r_bh := 0,
        r_next := (if i = 5 then Some 6 else None)\<rparr>)\<rparr>"

theorem add_request_elevator_witness:
  "\<exists>t ys. add_request 3 7 two_requests = Ret () t \<and> current_request t 3 = Some 5 \<and>
    req_chain (request t) (Some 5) ys \<and> filter (\<lambda>i. i \<noteq> 7) ys = [5, 6] \<and> set ys = insert 7 (set [5, 6]) \<and>
    sweeps True (List.map (\<lambda>i. key (request t i)) ys) \<and>
    b_dirt (bh t (r_bh (request two_requests 7))) = 0"
  by (rule add_request_elevator) (simp_all add: two_requests_def key_def less_req_key_def)

section \<open>The RAM disk\<close>

text \<open>A wake-up changes a queue's head and the state of a task, and nothing of the buffers or requests.\<close>

lemma wake_up_bh [simp]:
  "b_data (bh (wake_up (bh_queue i) s) j) = b_data (bh s j)"
  "b_blocknr (bh (wake_up (bh_queue i) s) j) = b_blocknr (bh s j)"
  "b_dev (bh (wake_up (bh_queue i) s) j) = b_dev (bh s j)"
  "b_uptodate (bh (wake_up (bh_queue i) s) j) = b_uptodate (bh s j)"
  "b_dirt (bh (wake_up (bh_queue i) s) j) = b_dirt (bh s j)"
  "b_lock (bh (wake_up (bh_queue i) s) j) = b_lock (bh s j)"
  by (auto simp: wake_up_def set_state_def queue_simps state_simps split: option.splits)

lemma wake_up_others [simp]:
  "request (wake_up (bh_queue i) s) = request s" "request (wake_up request_queue s) = request s"
  "bh (wake_up (waiting_queue i) s) = bh s" "bh (wake_up request_queue s) = bh s"
  "r_next (request (wake_up (waiting_queue i) s) j) = r_next (request s j)"
  "r_dev (request (wake_up (waiting_queue i) s) j) = r_dev (request s j)"
  by (auto simp: wake_up_def set_state_def queue_simps state_simps split: option.splits)

lemma wake_up_disk:
  assumes "q = bh_queue i \<or> q = waiting_queue i \<or> q = request_queue"
  shows "current_request (wake_up q s) = current_request s" "request_fn (wake_up q s) = request_fn s"
    "rd_mem (wake_up q s) = rd_mem s" "rd_start (wake_up q s) = rd_start s"
    "rd_length (wake_up q s) = rd_length s"
  using assms by (auto simp: wake_up_def set_state_def queue_simps state_simps split: option.splits)


lemmas wake_up_disk_queues [simp] =
  wake_up_disk [of "bh_queue i" i for i, OF disjI1, OF refl]
  wake_up_disk [of "waiting_queue i" i for i, OF disjI2, OF disjI1, OF refl]
  wake_up_disk [of request_queue, OF disjI2, OF disjI2, OF refl]

text \<open>
  A buffer of the RAM disk (device 0x101) that is not being transferred, on a block inside the
  disk, with the driver idle and a request slot free.
\<close>

definition rd_ready :: "nat \<Rightarrow> kstate \<Rightarrow> bool" where
  "rd_ready b s \<longleftrightarrow> request_fn s 1 = Some Ramdisk \<and> current_request s 1 = None \<and>
     b_dev (bh s b) = 0x101 \<and> b_lock (bh s b) = 0 \<and>
     1024 * unat (b_blocknr (bh s b)) + 1024 \<le> unat (rd_length s) \<and>
     unat (rd_start s) + unat (rd_length s) < 2 ^ 32 \<and>
     empty_request (NR_REQUEST * 2 div 3) (request s) \<noteq> None"

lemma empty_request_mono: "empty_request m q \<noteq> None \<Longrightarrow> m \<le> n \<Longrightarrow> empty_request n q \<noteq> None"
  by (induction n) (auto simp: le_Suc_eq)

text \<open>The address of a block, which the driver computes in sectors.\<close>

definition rd_addr :: "u32 \<Rightarrow> kstate \<Rightarrow> u32" where
  "rd_addr n s = rd_start s + push_bit 10 n"

lemma rd_addr_unat:
  assumes "1024 * unat n + 1024 \<le> unat (rd_length s)" "unat (rd_start s) + unat (rd_length s) < 2 ^ 32"
  shows "unat (rd_addr n s) = unat (rd_start s) + 1024 * unat n"
    "\<not> rd_start s + rd_length s < rd_addr n s + 1024"
proof -
  have n: "unat (push_bit 10 n :: u32) = 1024 * unat n"
    using assms by (simp add: push_bit_eq_mult unat_word_ariths)
  then show a: "unat (rd_addr n s) = unat (rd_start s) + 1024 * unat n"
    using assms by (simp add: rd_addr_def unat_plus_if')
  have "unat (rd_addr n s + 1024) = unat (rd_start s) + 1024 * unat n + 1024"
    using assms a by (simp add: unat_plus_if')
  moreover have "unat (rd_start s + rd_length s) = unat (rd_start s) + unat (rd_length s)"
    using assms by (simp add: unat_plus_if')
  ultimately show "\<not> rd_start s + rd_length s < rd_addr n s + 1024" using assms by (simp add: word_less_nat_alt)
qed

text \<open>What the driver does with the only request of its queue.\<close>

definition rd_transfer :: "u32 \<Rightarrow> nat \<Rightarrow> kstate \<Rightarrow> (unit, kstate) outcome" where
  "rd_transfer rw b s = (if rw = WRITE then rd_write b (rd_addr (b_blocknr (bh s b)) s) 1024 s
     else rd_read b (rd_addr (b_blocknr (bh s b)) s) 1024 s)"

lemma push_bit_sector: "push_bit 9 (n * 2) = push_bit 10 (n :: u32)"
  by (simp add: push_bit_eq_mult)

lemma do_rd_one:
  assumes "current_request s 1 = Some r" "request s r = \<lparr>r_dev = 0x101, r_cmd = rw, r_errors = 0,
       r_sector = push_bit 1 n, r_nr_sectors = 2, r_waiting = None, r_bh = b, r_buffer = 0, r_next = None\<rparr>"
    and "rw = READ \<or> rw = WRITE" "b_lock (bh s b) = 1" "n = b_blocknr (bh s b)"
    and "\<not> rd_start s + rd_length s < rd_addr n s + 1024"
  shows "do_rd_request s = seq (rd_transfer rw b s) (\<lambda>_ s. Ret () (end_request 1 1 s))"
proof -
  have "rd_step () s = seq (rd_transfer rw b s) (\<lambda>_ s. Ret (Inl ()) (end_request 1 1 s))"
    using assms by (auto simp: rd_step_def Let_def rd_transfer_def MAJOR_def MINOR_def READ_def WRITE_def
      push_bit_sector rd_addr_def)
  moreover have "\<exists>t. rd_transfer rw b s = Ret () t \<and> current_request t 1 = Some r \<and> r_next (request t r) = None"
    using assms by (auto simp: rd_transfer_def rd_write_def rd_read_def BLOCK_SIZE_def state_simps)
  ultimately show ?thesis using assms
    unfolding do_rd_request_def by (subst loop_unfold, subst loop_unfold) (auto simp: rd_step_def end_request_def Let_def set_current_def state_simps unlock_buffer_def)
qed


lemma end_request_fields:
  assumes "current_request s m = Some r" "r_bh (request s r) = b"
  shows "current_request (end_request m v s) m = r_next (request s r)"
    "request_fn (end_request m v s) = request_fn s" "rd_start (end_request m v s) = rd_start s"
    "rd_length (end_request m v s) = rd_length s" "rd_mem (end_request m v s) = rd_mem s"
    "b_lock (bh (end_request m v s) b) = 0" "b_uptodate (bh (end_request m v s) b) = v"
    "b_dirt (bh (end_request m v s) b) = b_dirt (bh s b)" "b_dev (bh (end_request m v s) b) = b_dev (bh s b)"
    "b_blocknr (bh (end_request m v s) b) = b_blocknr (bh s b)" "b_data (bh (end_request m v s) b) = b_data (bh s b)"
    "r_dev (request (end_request m v s) r) = - 1"
  using assms by (simp_all add: end_request_def set_current_def unlock_buffer_def Let_def state_simps)

text \<open>What a transfer leaves: the block on the disk or in the buffer, and the driver idle.\<close>

definition transferred :: "u32 \<Rightarrow> nat \<Rightarrow> kstate \<Rightarrow> kstate \<Rightarrow> bool" where
  "transferred rw b s t \<longleftrightarrow>
     current_request t 1 = None \<and> request_fn t = request_fn s \<and> rd_start t = rd_start s \<and> rd_length t = rd_length s \<and>
     b_lock (bh t b) = 0 \<and> b_uptodate (bh t b) = 1 \<and> b_dirt (bh t b) = 0 \<and>
     b_dev (bh t b) = b_dev (bh s b) \<and> b_blocknr (bh t b) = b_blocknr (bh s b) \<and>
     (let a = rd_addr (b_blocknr (bh s b)) s in
      if rw = WRITE
      then b_data (bh t b) = b_data (bh s b) \<and>
           rd_mem t = (\<lambda>i. if unat (i - a) < 1024 then b_data (bh s b) (unat (i - a)) else rd_mem s i)
      else rd_mem t = rd_mem s \<and> (\<forall>k<1024. b_data (bh t b) k = rd_mem s (a + of_nat k)))"

lemma ll_rw_ready:
  assumes ready: "rd_ready b s"
    and rw: "rw = WRITE \<and> b_dirt (bh s b) \<noteq> 0 \<or> rw = READ \<and> b_uptodate (bh s b) = 0"
  shows "\<exists>t. ll_rw_block rw b s = Ret () t \<and> transferred rw b s t"
proof -
  have "empty_request (if rw = READ then NR_REQUEST else NR_REQUEST * 2 div 3) (request s) \<noteq> None"
    using ready empty_request_mono [of "NR_REQUEST * 2 div 3" "request s" NR_REQUEST]
    by (auto simp: rd_ready_def NR_REQUEST_def)
  then obtain r where slot: "empty_request (if rw = READ then NR_REQUEST else NR_REQUEST * 2 div 3) (request s) = Some r"
    by blast
  let ?q = "\<lparr>r_dev = 0x101, r_cmd = rw, r_errors = 0, r_sector = push_bit 1 (b_blocknr (bh s b)),
    r_nr_sectors = 2, r_waiting = None, r_bh = b, r_buffer = 0, r_next = None\<rparr>"
  define u where "u = set_current 1 (Some r) (upd_bh b (b_dirt_update (\<lambda>_. 0))
    (upd_req r (\<lambda>_. ?q) (upd_bh b (b_lock_update (\<lambda>_. 1)) s)))"
  have call: "ll_rw_block rw b s = do_rd_request u"
    using ready rw slot
    by (auto simp: ll_rw_block_def make_request_def add_request_def rd_ready_def Let_def lock_buffer_def
      MAJOR_def NR_BLK_DEV_def READ_def WRITE_def READA_def WRITEA_def run_driver_def set_current_def state_simps u_def)
  have u: "current_request u 1 = Some r" "request u r = ?q" "b_lock (bh u b) = 1"
    "b_blocknr (bh u b) = b_blocknr (bh s b)" "rd_start u = rd_start s" "rd_length u = rd_length s"
    "rd_mem u = rd_mem s" "b_data (bh u b) = b_data (bh s b)" "b_dev (bh u b) = b_dev (bh s b)"
    "request_fn u = request_fn s" "b_dirt (bh u b) = 0"
    "rd_addr n u = rd_addr n s" for n
    by (auto simp: u_def set_current_def state_simps rd_addr_def)
  have "do_rd_request u = seq (rd_transfer rw b u) (\<lambda>_ s. Ret () (end_request 1 1 s))"
    using u rw ready rd_addr_unat(2) [of "b_blocknr (bh s b)" s]
    by (intro do_rd_one [of _ r]) (auto simp: rd_ready_def)
  moreover have "\<exists>v. rd_transfer rw b u = Ret () v \<and> v = u\<lparr>rd_mem := rd_mem v, bh := bh v\<rparr> \<and>
      b_lock (bh v b) = 1 \<and> transferred rw b s (end_request 1 1 v)"
    using u rw by (auto simp: transferred_def rd_transfer_def rd_write_def rd_read_def BLOCK_SIZE_def Let_def
      state_simps READ_def WRITE_def end_request_fields [of _ _ r b])
  ultimately show ?thesis unfolding call by auto
qed


lemma rd_blocks_apart:
  assumes "1024 * unat m + 1024 \<le> unat (rd_length s)" "1024 * unat n + 1024 \<le> unat (rd_length s)"
    and fits: "unat (rd_start s) + unat (rd_length s) < 2 ^ 32" and "k < 1024"
  shows "unat (rd_addr m s + of_nat k - rd_addr n s) < 1024 \<longleftrightarrow> m = n"
    "m = n \<Longrightarrow> unat (rd_addr m s + of_nat k - rd_addr n s) = k"
proof -
  note a = rd_addr_unat(1) [OF assms(1) fits] rd_addr_unat(1) [OF assms(2) fits]
  have k: "unat (of_nat k :: u32) = k" using assms by (simp add: unat_of_nat)
  have m: "unat (rd_addr m s + of_nat k) = unat (rd_start s) + 1024 * unat m + k"
    using assms a k by (simp add: unat_plus_if')
  show same: "unat (rd_addr m s + of_nat k - rd_addr n s) = k" if "m = n" using that k by simp
  have "1024 \<le> unat (rd_addr m s + of_nat k - rd_addr n s)" if "m \<noteq> n"
    using that assms a m by (auto simp: unat_sub_if' word_unat_eq_iff)
  then show "unat (rd_addr m s + of_nat k - rd_addr n s) < 1024 \<longleftrightarrow> m = n"
    using same assms by fastforce
qed

text \<open>
  C19. The RAM disk keeps what is written to it: \<open>ll_rw_block\<close> of a dirty buffer leaves the
  buffer clean, up to date and unlocked and the driver idle, and any later read of the disk into a
  buffer gets the block written if it is that block, and what the disk held before otherwise.
\<close>
theorem ramdisk_reads_back:
  assumes "rd_ready b s" "b_dirt (bh s b) \<noteq> 0"
  shows "\<exists>t. ll_rw_block WRITE b s = Ret () t \<and> b_dirt (bh t b) = 0 \<and> b_uptodate (bh t b) = 1 \<and>
    b_lock (bh t b) = 0 \<and> current_request t 1 = None \<and>
    (\<forall>c. rd_ready c t \<and> b_uptodate (bh t c) = 0 \<longrightarrow>
      (\<exists>u. ll_rw_block READ c t = Ret () u \<and> b_uptodate (bh u c) = 1 \<and> b_lock (bh u c) = 0 \<and>
        rd_mem u = rd_mem t \<and>
        (\<forall>k<1024. b_data (bh u c) k =
          (if b_blocknr (bh t c) = b_blocknr (bh s b) then b_data (bh s b) k
           else rd_mem s (rd_addr (b_blocknr (bh t c)) s + of_nat k)))))"
proof -
  obtain t where t: "ll_rw_block WRITE b s = Ret () t" "transferred WRITE b s t"
    using ll_rw_ready [of b s WRITE] assms by auto
  have same: "rd_start t = rd_start s" "rd_length t = rd_length s" "rd_addr n t = rd_addr n s" for n
    using t(2) by (auto simp: transferred_def rd_addr_def)
  have "\<exists>u. ll_rw_block READ c t = Ret () u \<and> b_uptodate (bh u c) = 1 \<and> b_lock (bh u c) = 0 \<and>
      rd_mem u = rd_mem t \<and> (\<forall>k<1024. b_data (bh u c) k =
        (if b_blocknr (bh t c) = b_blocknr (bh s b) then b_data (bh s b) k
         else rd_mem s (rd_addr (b_blocknr (bh t c)) s + of_nat k)))"
    if "rd_ready c t" "b_uptodate (bh t c) = 0" for c
  proof -
    obtain u where u: "ll_rw_block READ c t = Ret () u" "transferred READ c t u"
      using ll_rw_ready [of c t READ] \<open>rd_ready c t\<close> \<open>b_uptodate (bh t c) = 0\<close> by auto
    have "1024 * unat (b_blocknr (bh t c)) + 1024 \<le> unat (rd_length s)"
      "1024 * unat (b_blocknr (bh s b)) + 1024 \<le> unat (rd_length s)"
      "unat (rd_start s) + unat (rd_length s) < 2 ^ 32"
      using \<open>rd_ready c t\<close> assms(1) same by (auto simp: rd_ready_def)
    then show ?thesis using u t(2)
      by (auto simp: transferred_def Let_def READ_def WRITE_def same rd_blocks_apart unat_of_nat)
  qed
  then show ?thesis using t by (auto simp: transferred_def)
qed

text \<open>Buffer 0 holds 7s for block 2 of a 16 KB disk at 1 MB.\<close>

definition small_disk :: kstate where
  "small_disk = (undefined :: kstate)\<lparr>request_fn := (\<lambda>_. Some Ramdisk), current_request := (\<lambda>_. None),
     rd_start := 0x100000, rd_length := 0x4000, rd_mem := (\<lambda>_. 0),
     request := (\<lambda>_. (undefined :: request)\<lparr>r_dev := - 1\<rparr>),
     bh := (\<lambda>i. (undefined :: buffer_head)\<lparr>b_dev := 0x101, b_lock := 0, b_blocknr := 2, b_dirt := 1,
        b_uptodate := (if i = 0 then 1 else 0), b_data := (\<lambda>_. 7)\<rparr>)\<rparr>"

theorem ramdisk_reads_back_witness:
  "\<exists>t. ll_rw_block WRITE 0 small_disk = Ret () t \<and> b_dirt (bh t 0) = 0 \<and> b_uptodate (bh t 0) = 1 \<and>
    b_lock (bh t 0) = 0 \<and> current_request t 1 = None \<and>
    (\<forall>c. rd_ready c t \<and> b_uptodate (bh t c) = 0 \<longrightarrow>
      (\<exists>u. ll_rw_block READ c t = Ret () u \<and> b_uptodate (bh u c) = 1 \<and> b_lock (bh u c) = 0 \<and>
        rd_mem u = rd_mem t \<and>
        (\<forall>k<1024. b_data (bh u c) k =
          (if b_blocknr (bh t c) = b_blocknr (bh small_disk 0) then b_data (bh small_disk 0) k
           else rd_mem small_disk (rd_addr (b_blocknr (bh t c)) small_disk + of_nat k)))))"
proof -
  have "empty_request 21 (request small_disk) \<noteq> None"
    by (simp add: small_disk_def slt_def eval_nat_numeral)
  then have "rd_ready 0 small_disk" by (simp add: rd_ready_def NR_REQUEST_def small_disk_def)
  moreover have "b_dirt (bh small_disk 0) \<noteq> 0" by (simp add: small_disk_def)
  ultimately show ?thesis by (rule ramdisk_reads_back)
qed

end
