(* ===== verification/HarddiskProps.thy ===== *)
theory HarddiskProps
  imports BlockProps
begin

text \<open>
  What the hard disk driver guarantees: the controller is told the right sector, the request
  function always comes to an end, and a read fills the buffer with the words of the data port.
\<close>

section \<open>Addressing a sector\<close>

text \<open>The block number that the sector, head and cylinder registers stand for.\<close>

definition block_of :: "hd_i_struct \<Rightarrow> u32 \<times> u32 \<times> u32 \<Rightarrow> nat" where
  "block_of d v = (case v of (sec, hea, cyl) \<Rightarrow>
     (unat cyl * unat (hd_head d) + unat hea) * unat (hd_sect d) + (unat sec - 1))"

lemma chs_block:
  assumes "hd_sect d \<noteq> 0" "hd_head d \<noteq> 0" "chs d block = (sec, hea, cyl)"
  shows "block_of d (sec, hea, cyl) = unat block" "1 \<le> unat sec" "unat sec \<le> unat (hd_sect d)"
    "unat hea < unat (hd_head d)" "unat cyl \<le> unat block div unat (hd_head d)"
proof -
  have s: "0 < unat (hd_sect d)" and h: "0 < unat (hd_head d)" using assms by (simp_all add: unat_gt_0)
  let ?r = "unat block mod unat (hd_sect d)"
  have "?r < unat (hd_sect d)" using s by simp
  moreover have "unat (hd_sect d) < 2 ^ LENGTH(32)" by (rule unsigned_less)
  ultimately have "unat (block mod hd_sect d) + 1 < 2 ^ 32" by (simp add: unat_mod)
  then have sec: "unat sec = ?r + 1" using assms(3) by (auto simp: chs_def Let_def unat_mod unat_plus_if')
  have rest: "unat hea = unat block div unat (hd_sect d) mod unat (hd_head d)"
    "unat cyl = unat block div unat (hd_sect d) div unat (hd_head d)"
    using assms(3) by (auto simp: chs_def Let_def unat_mod unat_div)
  show "block_of d (sec, hea, cyl) = unat block"
    by (simp add: block_of_def sec rest)
  show "1 \<le> unat sec" "unat sec \<le> unat (hd_sect d)" "unat hea < unat (hd_head d)"
    using sec \<open>?r < _\<close> h by (simp_all add: rest)
  show "unat cyl \<le> unat block div unat (hd_head d)" unfolding rest using div_le_dividend by (metis div_le_mono div_mult2_eq)
qed

section \<open>The command registers\<close>

lemma byte_u8: "unat (ucast (x :: u32) :: u8) = unat x mod 256"
  by (simp only: unsigned_ucast_eq take_bit_eq_mod) simp

lemma byte_u16: "unat (ucast (v :: u8) :: u16) = unat v"
  using unsigned_less [of v, where 'a = nat] by (simp only: unsigned_ucast_eq [of v]) (simp add: take_bit_nat_eq_self)

text \<open>What a register was told last.\<close>

definition told :: "kstate \<Rightarrow> u16 \<Rightarrow> nat" where
  "told t p = (case map_of (port_out (ports t)) p of None \<Rightarrow> 0 | Some v \<Rightarrow> unat v)"

text \<open>The drive and the block that the registers of the controller name, for a drive of this geometry.\<close>

definition told_drive :: "kstate \<Rightarrow> nat" where
  "told_drive t = told t 0x1f6 div 16 mod 2"

definition told_block :: "hd_i_struct \<Rightarrow> kstate \<Rightarrow> nat" where
  "told_block d t = ((256 * told t 0x1f5 + told t 0x1f4) * unat (hd_head d) + told t 0x1f6 mod 16) *
     unat (hd_sect d) + (told t 0x1f3 - 1)"

text \<open>A controller that is ready, positioned and asking for data whenever its status is read.\<close>

definition hd_willing :: "kstate \<Rightarrow> bool" where
  "hd_willing s \<longleftrightarrow> (\<forall>n. port_in (ports s) n HD_STATUS = 0x58)"

lemma inb_willing:
  "hd_willing s \<Longrightarrow> inb HD_STATUS s = (0x58, s\<lparr>ports := ports s\<lparr>port_reads := port_reads (ports s) + 1\<rparr>\<rparr>)"
  by (simp add: inb_def in_port_def hd_willing_def)

lemma controller_ready_willing:
  "hd_willing s \<Longrightarrow> controller_ready s = (9999, s\<lparr>ports := ports s\<lparr>port_reads := port_reads (ports s) + 1\<rparr>\<rparr>)"
proof -
  assume w: "hd_willing s"
  have "poll_ready (Suc 9999) s = (9999, s\<lparr>ports := ports s\<lparr>port_reads := port_reads (ports s) + 1\<rparr>\<rparr>)"
    unfolding poll_ready.simps by (simp add: inb_willing [OF w])
  then show ?thesis by (simp add: controller_ready_def)
qed

lemma hd_out_willing:
  assumes "hd_willing s" "drive \<le> 1" "hea \<le> 15"
  shows "hd_out drive nsect sect hea cyl cmd intr s = Ret ()
    (s\<lparr>harddisk := harddisk s\<lparr>do_hd := Some intr\<rparr>,
       ports := ports s\<lparr>port_reads := port_reads (ports s) + 1,
         port_out := [(0x1f7, ucast cmd), (0x1f6, ucast (ucast (0xA0 OR push_bit 4 drive OR hea) :: u8)),
           (0x1f5, ucast (ucast (drop_bit 8 cyl) :: u8)), (0x1f4, ucast (ucast cyl :: u8)),
           (0x1f3, ucast (ucast sect :: u8)), (0x1f2, ucast (ucast nsect :: u8)),
           (0x1f1, ucast (ucast (drop_bit 2 (hd_wpcom (hd_info (harddisk s) (unat drive)))) :: u8)),
           (0x3f6, ucast (ucast (hd_ctl (hd_info (harddisk s) (unat drive))) :: u8))] @ port_out (ports s)\<rparr>\<rparr>)"
proof -
  have "\<not> 1 < drive" "\<not> 15 < hea" using assms by (simp_all add: not_less)
  then show ?thesis
    by (simp add: hd_out_def controller_ready_willing [OF assms(1)] upd_hd_def outb_def Let_def HD_DATA_def HD_CMD_def)
qed

lemma write_words_keeps:
  "\<exists>out. write_words n b k s = s\<lparr>ports := ports s\<lparr>port_out := map (Pair HD_DATA) out @ port_out (ports s)\<rparr>\<rparr>"
proof (induction n arbitrary: k s)
  case 0
  show ?case by (intro exI [of _ "[]"]) simp
next
  case (Suc n)
  let ?v = "get16 (b_data (bh s b)) k"
  let ?s = "s\<lparr>ports := ports s\<lparr>port_out := (HD_DATA, ?v) # port_out (ports s)\<rparr>\<rparr>"
  from Suc.IH [of "k + 2" ?s] obtain out where
    "write_words n b (k + 2) ?s = ?s\<lparr>ports := ports ?s\<lparr>port_out := map (Pair HD_DATA) out @ port_out (ports ?s)\<rparr>\<rparr>"
    by blast
  then show ?case by (intro exI [of _ "out @ [?v]"]) simp
qed

lemma told_skips_data: "p \<noteq> HD_DATA \<Longrightarrow> map_of (map (Pair HD_DATA) out @ l) p = map_of l p"
  by (induction out) auto

text \<open>
  A request of the hard disk at the head of the queue, for a block inside its partition, with the
  driver neither resetting nor recalibrating and a geometry the registers can express.
\<close>

definition hd_request :: "nat \<Rightarrow> nat \<Rightarrow> hd_i_struct \<Rightarrow> kstate \<Rightarrow> bool" where
  "hd_request r part d s \<longleftrightarrow> (let q = request s r; h = harddisk s in
     current_request s 3 = Some r \<and> MAJOR (r_dev q) = 3 \<and> MINOR (r_dev q) = of_nat part \<and>
     b_lock (bh s (r_bh q)) \<noteq> 0 \<and> \<not> hd_reset h \<and> \<not> hd_recalibrate h \<and>
     part < 5 * unat (NR_HD h) \<and> NR_HD h \<le> 2 \<and> d = hd_info h (part div 5) \<and>
     unat (r_sector q) + 2 \<le> unat (nr_sects h part) \<and>
     unat (start_sect h part) + unat (r_sector q) < 65536 * unat (hd_head d) * unat (hd_sect d) \<and>
     unat (start_sect h part) + unat (r_sector q) < 2 ^ 32 \<and>
     0 < hd_sect d \<and> hd_sect d \<le> 255 \<and> 0 < hd_head d \<and> hd_head d \<le> 16)"

lemma head_register:
  assumes "unat drive \<le> 1" "unat hea < 16"
  shows "unat (0xA0 OR push_bit 4 (drive :: u32) OR hea) = 0xA0 + 16 * unat drive + unat hea"
proof -
  have "drive = 0 \<or> drive = 1" using assms by (simp add: word_unat_eq_iff) linarith
  moreover have "hea = 0 \<or> hea = 1 \<or> hea = 2 \<or> hea = 3 \<or> hea = 4 \<or> hea = 5 \<or> hea = 6 \<or> hea = 7 \<or> hea = 8 \<or>
    hea = 9 \<or> hea = 10 \<or> hea = 11 \<or> hea = 12 \<or> hea = 13 \<or> hea = 14 \<or> hea = 15"
    using assms(2) by (simp add: word_unat_eq_iff) arith
  ultimately show ?thesis by (elim disjE) simp_all
qed

lemma of_nat_part: "part < 10 \<Longrightarrow> of_nat part div 5 = (of_nat (part div 5) :: u32)" "part < 10 \<Longrightarrow> unat (of_nat part :: u32) = part"
  "part < 10 \<Longrightarrow> unat (of_nat part div 5 :: u32) = part div 5"
  by (simp_all add: word_unat_eq_iff unat_div unat_of_nat)

definition command_of :: "u32 \<Rightarrow> u8 \<times> hd_intr" where
  "command_of cmd = (if cmd = WRITE then (WIN_WRITE, Write_intr) else (WIN_READ, Read_intr))"

text \<open>With a willing controller, the request function gives one command and returns.\<close>

lemma do_hd_request_willing:
  assumes req: "hd_request r part d s" and will: "hd_willing s"
    and cmd: "r_cmd (request s r) = READ \<or> r_cmd (request s r) = WRITE \<and> r_buffer (request s r) \<le> 512"
    and chs: "chs d (r_sector (request s r) + start_sect (harddisk s) part) = (sec, hea, cyl)"
    and c: "command_of (r_cmd (request s r)) = (win, intr)"
  shows "\<exists>t u out reads. hd_out (of_nat part div 5) (r_nr_sectors (request s r)) sec hea cyl win intr s = Ret () u \<and>
    do_hd_request s = Ret () t \<and> (r_cmd (request s r) = READ \<longrightarrow> t = u) \<and>
    t = u\<lparr>ports := ports u\<lparr>port_reads := reads, port_out := map (Pair HD_DATA) out @ port_out (ports u)\<rparr>\<rparr>"
proof -
  let ?q = "request s r"
  have part: "part < 10" using req unat_mono [of "NR_HD (harddisk s)" 2]
    by (auto simp: hd_request_def Let_def word_le_nat_alt)
  have dev: "unat (of_nat part :: u32) = part" using part of_nat_part by simp
  have "unat (of_nat part :: u32) < unat (5 * NR_HD (harddisk s))"
    using req part by (auto simp: hd_request_def Let_def word_le_nat_alt unat_word_ariths dev)
  then have in_drives: "\<not> 5 * NR_HD (harddisk s) \<le> of_nat part" by (simp add: word_le_nat_alt)
  have fits: "\<not> nr_sects (harddisk s) part < r_sector ?q + 2"
  proof -
    have "unat (nr_sects (harddisk s) part) < 2 ^ LENGTH(32)" by (rule unsigned_less)
    then show ?thesis using req by (auto simp: hd_request_def Let_def word_less_nat_alt unat_plus_if')
  qed
  have d: "hd_sect d \<noteq> 0" "hd_head d \<noteq> 0" "d = hd_info (harddisk s) (part div 5)" using req by (auto simp: hd_request_def Let_def)
  have hea: "unat hea < unat (hd_head d)" using chs_block [OF d(1,2) chs] by simp
  then have hea: "hea \<le> 15" using req by (auto simp: hd_request_def Let_def word_le_nat_alt)
  have drive: "(of_nat part div 5 :: u32) \<le> 1" using part by (auto simp: word_le_nat_alt of_nat_part)
  note out = hd_out_willing [OF will drive hea, of "r_nr_sectors ?q" sec cyl win intr]
  obtain u where u: "hd_out (of_nat part div 5) (r_nr_sectors ?q) sec hea cyl win intr s = Ret () u"
    "hd_willing u" "bh u = bh s" "request u = request s"
    using out will by (auto simp: hd_willing_def)
  have step: "hd_step () s = seq (hd_out (of_nat part div 5) (r_nr_sectors ?q) sec hea cyl win intr s) (\<lambda>_ s.
      if r_cmd ?q = READ then Ret (Inr ()) s else
      case poll_drq 3000 s of (r, s) \<Rightarrow> if \<not> r then Ret (Inl ()) (bad_rw_intr s)
        else seq (port_write (r_bh ?q) (r_buffer ?q) s) (\<lambda>_ s. Ret (Inr ()) s))"
    using req cmd chs c in_drives fits d part
    by (auto simp: hd_step_def hd_request_def Let_def dev of_nat_part command_of_def READ_def WRITE_def)
  show ?thesis
  proof (cases "r_cmd ?q = READ")
    case True
    then have "do_hd_request s = Ret () u" unfolding do_hd_request_def by (subst loop_unfold) (simp add: step u)
    then show ?thesis using u True by (intro exI [of _ u] exI [of _ "[]"] exI [of _ "port_reads (ports u)"]) simp
  next
    case False
    have "poll_drq (Suc 2999) u = (True, u\<lparr>ports := ports u\<lparr>port_reads := port_reads (ports u) + 1\<rparr>\<rparr>)" (is "_ = (_, ?u)")
      unfolding poll_drq.simps by (simp add: inb_willing [OF u(2)] DRQ_STAT_def)
    then have poll: "poll_drq 3000 u = (True, ?u)" by simp
    obtain w where w: "write_words 256 (r_bh ?q) (r_buffer ?q) ?u =
        ?u\<lparr>ports := ports ?u\<lparr>port_out := map (Pair HD_DATA) w @ port_out (ports ?u)\<rparr>\<rparr>" (is "_ = ?t")
      using write_words_keeps by blast
    have "do_hd_request s = Ret () ?t" unfolding do_hd_request_def
      using False cmd by (subst loop_unfold) (simp add: step u poll port_write_def BLOCK_SIZE_def w [simplified])
    then show ?thesis using u False
      by (intro exI [of _ ?t] exI [of _ u] exI [of _ w] exI [of _ "port_reads (ports u) + 1"]) simp
  qed
qed

lemma drive_and_head:
  assumes "h < (16 :: nat)"
  shows "(0xA0 + 16 * k + h) mod 16 = h" "k \<le> 1 \<Longrightarrow> (0xA0 + 16 * k + h) div 16 mod 2 = k"
proof -
  have eq: "0xA0 + 16 * k + h = h + (10 + k) * 16" by simp
  show "(0xA0 + 16 * k + h) mod 16 = h" unfolding eq using assms by (subst mod_mult_self1) (rule mod_less)
  have "(0xA0 + 16 * k + h) div 16 = 10 + k" unfolding eq using assms by simp
  moreover have "k = 0 \<or> k = 1" if "k \<le> 1" using that by linarith
  ultimately show "k \<le> 1 \<Longrightarrow> (0xA0 + 16 * k + h) div 16 mod 2 = k" by fastforce
qed

text \<open>
  C17. The hard disk driver tells the controller the right sector: when \<open>do_hd_request\<close> finds a
  read or write for a block inside its partition, it returns with a read or write command given and the
  matching interrupt handler set, and the drive, cylinder, head and sector registers stand for the
  drive of the partition and for the absolute number of the sector on it.
\<close>
theorem hd_addresses_sector:
  assumes req: "hd_request r part d s" and will: "hd_willing s"
    and cmd: "r_cmd (request s r) = READ \<or> r_cmd (request s r) = WRITE \<and> r_buffer (request s r) \<le> 512"
  shows "\<exists>t. do_hd_request s = Ret () t \<and>
    told_drive t = part div 5 \<and>
    told_block d t = unat (start_sect (harddisk s) part) + unat (r_sector (request s r)) \<and>
    told t 0x1f2 = unat (r_nr_sectors (request s r)) mod 256 \<and>
    told t 0x1f7 = unat (fst (command_of (r_cmd (request s r)))) \<and>
    do_hd (harddisk t) = Some (snd (command_of (r_cmd (request s r))))"
proof -
  let ?q = "request s r" let ?b = "r_sector ?q + start_sect (harddisk s) part"
  obtain sec hea cyl where chs: "chs d ?b = (sec, hea, cyl)" by (cases "chs d ?b")
  obtain win intr where c: "command_of (r_cmd ?q) = (win, intr)" by (cases "command_of (r_cmd ?q)")
  have d: "hd_sect d \<noteq> 0" "hd_head d \<noteq> 0" "unat (hd_head d) \<le> 16" "unat (hd_sect d) \<le> 255" "part div 5 \<le> 1" "part < 10"
    using req unat_mono [of "NR_HD (harddisk s)" 2] by (auto simp: hd_request_def Let_def word_le_nat_alt)
  note b = chs_block [OF d(1,2) chs]
  have block: "unat ?b = unat (start_sect (harddisk s) part) + unat (r_sector ?q)"
    using req by (simp add: hd_request_def Let_def unat_plus_if')
  have cyl: "unat cyl < 65536"
  proof -
    have "unat cyl * (unat (hd_head d) * unat (hd_sect d)) \<le> block_of d (sec, hea, cyl)" by (simp add: block_of_def algebra_simps)
    also have "\<dots> < 65536 * unat (hd_head d) * unat (hd_sect d)"
      using req unfolding b block hd_request_def Let_def by (elim conjE)
    also have "\<dots> = 65536 * (unat (hd_head d) * unat (hd_sect d))" by simp
    finally show ?thesis by simp
  qed
  obtain t u out reads where hd: "hd_out (of_nat part div 5) (r_nr_sectors ?q) sec hea cyl win intr s = Ret () u"
    "do_hd_request s = Ret () t"
    "t = u\<lparr>ports := ports u\<lparr>port_reads := reads, port_out := map (Pair HD_DATA) out @ port_out (ports u)\<rparr>\<rparr>"
    using do_hd_request_willing [OF req will cmd chs c] by blast
  have drive: "(of_nat part div 5 :: u32) \<le> 1" "unat (of_nat part div 5 :: u32) \<le> 1"
    using d by (auto simp: word_le_nat_alt of_nat_part)
  have hea: "hea \<le> 15" "unat hea < 16" using b d by (auto simp: word_le_nat_alt)
  note outs = hd_out_willing [OF will drive(1) hea(1), of "r_nr_sectors ?q" sec cyl win intr]
  note u = hd(1) [unfolded outs outcome.inject, THEN conjunct2, symmetric]
  have "told t p = (case map_of (port_out (ports u)) p of None \<Rightarrow> 0 | Some v \<Rightarrow> unat v)" if "p \<noteq> HD_DATA" for p
    using that by (simp add: told_def hd(3) told_skips_data del: map_of_append)
  moreover have m: "(0xA0 + 16 * (part div 5) + unat hea) mod 256 = 0xA0 + 16 * (part div 5) + unat hea"
    using d(5) hea(2) by (intro mod_less) linarith
  moreover have "unat (0xA0 OR push_bit 4 (of_nat (part div 5) :: u32) OR hea) = 0xA0 + 16 * (part div 5) + unat hea"
    using head_register [OF drive(2) hea(2)] d(6) by (simp only: of_nat_part)
  ultimately have told: "told t 0x1f7 = unat win" "told t 0x1f6 = 0xA0 + 16 * (part div 5) + unat hea"
    "told t 0x1f5 = unat cyl div 256" "told t 0x1f4 = unat cyl mod 256" "told t 0x1f3 = unat sec"
    "told t 0x1f2 = unat (r_nr_sectors ?q) mod 256"
    using cyl b(3) d hea(2) unfolding u by (auto simp: HD_DATA_def m hea of_nat_part
      byte_u8 byte_u16 unat_div drop_bit_eq_div)
  note fields = drive_and_head [OF hea(2), of "part div 5"]
  have "told_block d t = block_of d (sec, hea, cyl)"
    by (simp add: told_block_def block_of_def told fields)
  moreover have "told_drive t = part div 5" using fields(2) [OF d(5)] by (simp add: told_drive_def told)
  moreover have "do_hd (harddisk t) = Some intr" by (simp add: hd(3) u)
  ultimately show ?thesis using hd(2) b(1) block told c by auto
qed

text \<open>Drive 0 has 4 heads and 17 sectors a track; block 3 of its first partition, at sector 34, is read.\<close>

definition small_hd :: kstate where
  "small_hd = (undefined :: kstate)\<lparr>current_request := (\<lambda>_. Some 0),
     request := (\<lambda>_. (undefined :: request)\<lparr>r_dev := 0x301, r_cmd := READ, r_sector := 6, r_nr_sectors := 2, r_bh := 0\<rparr>),
     bh := (\<lambda>_. (undefined :: buffer_head)\<lparr>b_lock := 1\<rparr>),
     ports := (undefined :: port_state)\<lparr>port_in := (\<lambda>_ _. 0x58)\<rparr>,
     harddisk := (undefined :: hd_state)\<lparr>hd_reset := False, hd_recalibrate := False, NR_HD := 1,
       start_sect := (\<lambda>_. 34), nr_sects := (\<lambda>_. 1000),
       hd_info := (\<lambda>_. (undefined :: hd_i_struct)\<lparr>hd_sect := 17, hd_head := 4\<rparr>)\<rparr>\<rparr>"

theorem hd_addresses_sector_witness:
  "\<exists>t. do_hd_request small_hd = Ret () t \<and>
    told_drive t = 1 div 5 \<and>
    told_block (hd_info (harddisk small_hd) 0) t =
      unat (start_sect (harddisk small_hd) 1) + unat (r_sector (request small_hd 0)) \<and>
    told t 0x1f2 = unat (r_nr_sectors (request small_hd 0)) mod 256 \<and>
    told t 0x1f7 = unat (fst (command_of (r_cmd (request small_hd 0)))) \<and>
    do_hd (harddisk t) = Some (snd (command_of (r_cmd (request small_hd 0))))"
  by (rule hd_addresses_sector)
    (simp_all add: small_hd_def hd_request_def hd_willing_def Let_def MAJOR_def MINOR_def drop_bit_eq_div)

section \<open>The request function comes to an end\<close>

text \<open>
  \<open>hd_queue xs rest s\<close>: of the requests \<open>xs\<close>, those before \<open>rest\<close> have been ended and \<open>rest\<close> is
  what is queued.
\<close>

definition hd_queue :: "nat list \<Rightarrow> nat list \<Rightarrow> kstate \<Rightarrow> bool" where
  "hd_queue xs rest s \<longleftrightarrow> (\<exists>ended. xs = ended @ rest \<and> (\<forall>i\<in>set ended. r_dev (request s i) = - 1)) \<and>
     req_chain (request s) (current_request s 3) rest \<and> (\<forall>i\<in>set rest. sint (r_errors (request s i)) < 7)"

text \<open>The two steps of a state that leave the queue alone.\<close>

definition same_queue :: "kstate \<Rightarrow> kstate \<Rightarrow> bool" where
  "same_queue s t \<longleftrightarrow> request t = request s \<and> current_request t = current_request s"

lemma same_queue_hd_queue: "same_queue s t \<Longrightarrow> hd_queue xs rest t = hd_queue xs rest s"
  by (simp add: same_queue_def hd_queue_def)

lemma same_queue_ports:
  "same_queue s (upd_hd f s)" "same_queue s (outb v p s)" "same_queue s (snd (in_port p s))" "same_queue s (snd (inb p s))"
  by (simp_all add: same_queue_def upd_hd_def outb_def in_port_def inb_def)

lemma same_queue_refl: "same_queue s s"
  by (simp add: same_queue_def)

lemma same_queue_trans: "same_queue s t \<Longrightarrow> same_queue t u \<Longrightarrow> same_queue s u"
  by (simp add: same_queue_def)

lemma same_queue_poll_ready: "same_queue s (snd (poll_ready n s))"
proof (induction n arbitrary: s)
  case (Suc n)
  then show ?case using same_queue_trans [OF same_queue_ports(4) Suc.IH]
    by (auto simp: same_queue_ports split: prod.split) (auto simp: same_queue_def inb_def in_port_def)
qed (simp add: same_queue_def)

lemma same_queue_poll_busy: "same_queue s (poll_busy n s)"
proof (induction n arbitrary: s)
  case (Suc n)
  show ?case using same_queue_trans [OF same_queue_ports(4) Suc.IH] same_queue_ports(4)
    by (auto split: prod.split) (metis snd_conv)+
qed (simp add: same_queue_def)

lemma same_queue_poll_drq: "same_queue s (snd (poll_drq n s))"
proof (induction n arbitrary: s)
  case (Suc n)
  show ?case using same_queue_trans [OF same_queue_ports(4) Suc.IH] same_queue_ports(4)
    by (auto split: prod.split) (metis snd_conv)+
qed (simp add: same_queue_def)

lemma hd_out_queue:
  "finishes (hd_out drive nsect sect hea cyl cmd intr s) (\<lambda>_ t. same_queue s t \<and> do_hd (harddisk t) = Some intr)"
  using same_queue_poll_ready [of s 10000]
  by (auto simp: hd_out_def controller_ready_def Let_def same_queue_def outb_def upd_hd_def split: prod.splits)

lemma reset_hd_queue: "finishes (reset_hd nr s) (\<lambda>_ t. same_queue s t \<and> do_hd (harddisk t) = Some Recal_intr)"
proof -
  have "same_queue s (reset_controller s)"
    using same_queue_poll_busy [of "outb (ucast (hd_ctl (hd_info (harddisk s) 0) AND 0x0f)) HD_CMD (outb 4 HD_CMD s)" 10000]
    by (auto simp: reset_controller_def drive_busy_def Let_def same_queue_def outb_def inb_def in_port_def split: prod.splits)
  then show ?thesis unfolding reset_hd_def Let_def
    by (intro finishes_mono [OF hd_out_queue]) (auto intro: same_queue_trans)
qed

lemma wake_up_errors [simp]: "r_errors (request (wake_up (waiting_queue j) s) i) = r_errors (request s i)"
  by (auto simp: wake_up_def set_state_def queue_simps state_simps split: option.splits)

lemma end_request_queue:
  assumes "current_request s 3 = Some r"
  shows "current_request (end_request 3 v s) 3 = r_next (request s r)"
    "r_next (request (end_request 3 v s) i) = r_next (request s i)"
    "r_errors (request (end_request 3 v s) i) = r_errors (request s i)"
    "r_dev (request (end_request 3 v s) i) = (if i = r then - 1 else r_dev (request s i))"
  using assms by (simp_all add: end_request_def set_current_def unlock_buffer_def Let_def state_simps)

lemma hd_queue_end_errors:
  assumes "hd_queue xs (r # rest) s" "distinct xs"
  shows "hd_queue xs rest (end_request 3 v (upd_req r (r_errors_update f) s))"
proof -
  let ?s = "upd_req r (r_errors_update f) s"
  obtain ended where ended: "xs = ended @ r # rest" "\<forall>i\<in>set ended. r_dev (request s i) = - 1"
    and s: "current_request s 3 = Some r" and chain: "req_chain (request s) (r_next (request s r)) rest"
    and err: "\<forall>i\<in>set rest. sint (r_errors (request s i)) < 7"
    using assms(1) by (auto simp: hd_queue_def)
  have r: "current_request ?s 3 = Some r" and same: "r_next (request ?s i) = r_next (request s i)"
    "r_dev (request ?s i) = r_dev (request s i)" "i \<noteq> r \<Longrightarrow> r_errors (request ?s i) = r_errors (request s i)" for i
    using s by (simp_all add: state_simps)
  have "req_chain (request (end_request 3 v ?s)) (r_next (request s r)) rest"
    using chain by (rule req_chain_cong) (simp add: end_request_queue [OF r] same)
  moreover have "sint (r_errors (request ?s i)) < 7" if "i \<in> set rest" for i
  proof -
    have "i \<noteq> r" using that assms(2) ended by auto
    then show ?thesis using that err by (simp add: same(3))
  qed
  ultimately show ?thesis using ended unfolding hd_queue_def
    by (auto simp: end_request_queue [OF r] same(1,2) intro!: exI [of _ "ended @ [r]"])
qed

lemma hd_queue_end: "hd_queue xs (r # rest) s \<Longrightarrow> distinct xs \<Longrightarrow> hd_queue xs rest (end_request 3 v s)"
  using hd_queue_end_errors [of xs r rest s v "\<lambda>_. r_errors (request s r)"] by (simp add: state_simps)

text \<open>A failed request is tried again with one more error, or ended after the seventh.\<close>

lemma same_queue_if: "u = (if b then upd_hd (hd_reset_update (\<lambda>_. True)) t else t) \<Longrightarrow> same_queue t u"
  by (cases b) (simp_all only: if_True if_False same_queue_ports(1) same_queue_refl)

lemma bad_rw_same_queue:
  assumes "current_request s 3 = Some r"
  shows "same_queue
    (let t = upd_req r (r_errors_update (\<lambda>_. r_errors (request s r) + 1)) s
     in if 7 \<le> sint (r_errors (request s r) + 1) then end_request 3 0 t else t)
    (bad_rw_intr s)"
proof -
  have e: "set_current_errors (current_errors s + 1) s = upd_req r (r_errors_update (\<lambda>_. r_errors (request s r) + 1)) s"
    using assms by (simp add: current_errors_def set_current_errors_def)
  have c: "current_errors (upd_req r (r_errors_update (\<lambda>_. r_errors (request s r) + 1)) s) = r_errors (request s r) + 1"
    using assms by (simp add: current_errors_def state_simps)
  have m: "sle HD_MAX_ERRORS n \<longleftrightarrow> 7 \<le> sint n" for n by (simp add: HD_MAX_ERRORS_def sle_def)
  show ?thesis unfolding bad_rw_intr_def Let_def e c m by (rule same_queue_if [OF refl])
qed

lemma bad_rw_queue:
  assumes q: "hd_queue xs (r # rest) s" and "distinct xs"
  shows "hd_queue xs rest (bad_rw_intr s) \<or>
    hd_queue xs (r # rest) (bad_rw_intr s) \<and>
      sint (r_errors (request (bad_rw_intr s) r)) = sint (r_errors (request s r)) + 1"
proof -
  have r: "current_request s 3 = Some r" using q by (simp add: hd_queue_def)
  let ?e = "r_errors (request s r)"
  define t where "t = upd_req r (r_errors_update (\<lambda>_. ?e + 1)) s"
  have less: "sint ?e < 7" using q by (simp add: hd_queue_def)
  have more: "sint (?e + 1) = sint ?e + 1" using less sint_add_bound [of ?e 1] sint_ge [of ?e] by simp
  note same = bad_rw_same_queue [OF r, unfolded Let_def, folded t_def]
  show ?thesis
  proof (cases "7 \<le> sint (?e + 1)")
    case True
    have "hd_queue xs rest (end_request 3 0 t)" unfolding t_def by (rule hd_queue_end_errors [OF assms])
    then show ?thesis using same_queue_hd_queue [of "end_request 3 0 t"] same True by simp
  next
    case False
    have fields: "r_errors (request t i) = (if i = r then ?e + 1 else r_errors (request s i))"
      "r_next (request t i) = r_next (request s i)" "r_dev (request t i) = r_dev (request s i)"
      "current_request t = current_request s" for i by (simp_all add: t_def state_simps)
    have chain: "req_chain (request t) (current_request s 3) (r # rest)"
      using q unfolding hd_queue_def by (elim conjE) (erule req_chain_cong, simp add: fields)
    have "hd_queue xs (r # rest) t"
      using q chain False unfolding hd_queue_def by (simp only: fields) auto
    then show ?thesis using same_queue_hd_queue [of t "bad_rw_intr s"] same False more
      by (simp add: same_queue_def fields)
  qed
qed

definition left :: "nat list \<Rightarrow> kstate \<Rightarrow> nat \<times> nat" where
  "left rest s = (length rest, case rest of [] \<Rightarrow> 0 | r # _ \<Rightarrow> nat (7 - sint (r_errors (request s r))))"

definition hd_step_post :: "nat list \<Rightarrow> nat \<times> nat \<Rightarrow> unit + unit \<Rightarrow> kstate \<Rightarrow> bool" where
  "hd_step_post xs n v t \<longleftrightarrow> (\<exists>rest. hd_queue xs rest t \<and>
     (case v of Inl _ \<Rightarrow> (left rest t, n) \<in> less_than <*lex*> less_than | Inr _ \<Rightarrow> rest = [] \<or> do_hd (harddisk t) \<noteq> None))"

lemma hd_step_post_started:
  "same_queue s t \<Longrightarrow> do_hd (harddisk t) \<noteq> None \<Longrightarrow> hd_queue xs rest s \<Longrightarrow> hd_step_post xs n (Inr ()) t"
  by (auto simp: hd_step_post_def same_queue_hd_queue)

lemma hd_step_post_end:
  "hd_queue xs (r # rest) s \<Longrightarrow> distinct xs \<Longrightarrow> hd_step_post xs (left (r # rest) s) (Inl ()) (end_request 3 v s)"
  unfolding hd_step_post_def by (rule exI [of _ rest]) (simp add: hd_queue_end left_def)

lemma hd_step_post_bad:
  assumes q: "hd_queue xs (r # rest) s" and "distinct xs"
  shows "hd_step_post xs (left (r # rest) s) (Inl ()) (bad_rw_intr s)"
proof -
  have "sint (r_errors (request s r)) < 7" using q by (simp add: hd_queue_def)
  with bad_rw_queue [OF assms] show ?thesis
    by (auto simp: hd_step_post_def left_def intro: exI [of _ rest] exI [of _ "r # rest"])
qed

lemma left_same: "same_queue s t \<Longrightarrow> left rest t = left rest s"
  by (cases rest) (simp_all add: left_def same_queue_def)

lemma write_words_queue: "request (write_words n b k s) = request s \<and> current_request (write_words n b k s) = current_request s
    \<and> harddisk (write_words n b k s) = harddisk s"
  by (induction n arbitrary: k s) simp_all

lemma port_write_queue: "finishes (port_write b k s) (\<lambda>_ t. same_queue s t \<and> do_hd (harddisk t) = do_hd (harddisk s))"
  by (simp add: port_write_def same_queue_def write_words_queue)

lemma finishes_if [simp]: "finishes (if b then m else n) Q = (if b then finishes m Q else finishes n Q)"
  by simp

lemma poll_drq_hd: "do_hd (harddisk (snd (poll_drq n s))) = do_hd (harddisk s)"
  by (induction n arbitrary: s) (auto simp: inb_def in_port_def split: prod.split)

lemma hd_write_step:
  assumes q: "hd_queue xs (r # rest) s" and d: "distinct xs"
  shows "finishes (seq (hd_out dev n sec hea cyl WIN_WRITE Write_intr s) (\<lambda>_ s.
      case poll_drq 3000 s of (ok, s) \<Rightarrow>
        if \<not> ok then Ret (Inl ()) (bad_rw_intr s)
        else seq (port_write b k s) (\<lambda>_ s. Ret (Inr ()) s))) (hd_step_post xs (left (r # rest) s))"
  unfolding finishes_seq
proof (rule finishes_mono [OF hd_out_queue])
  fix a t assume t: "same_queue s t \<and> do_hd (harddisk t) = Some Write_intr"
  obtain ok u where u: "poll_drq 3000 t = (ok, u)" by fastforce
  have su: "same_queue s u" "do_hd (harddisk u) = Some Write_intr"
    using same_queue_poll_drq [of t 3000] poll_drq_hd [of 3000 t] t by (auto simp: u intro: same_queue_trans)
  have bad: "hd_step_post xs (left (r # rest) s) (Inl ()) (bad_rw_intr u)"
    using hd_step_post_bad [of xs r rest u] q d by (simp add: same_queue_hd_queue [OF su(1)] left_same [OF su(1)])
  have "finishes (port_write b k u) (\<lambda>_. hd_step_post xs (left (r # rest) s) (Inr ()))"
    by (rule finishes_mono [OF port_write_queue])
      (use su q in \<open>auto intro: hd_step_post_started same_queue_trans\<close>)
  with bad show "finishes (case poll_drq 3000 t of (ok, s) \<Rightarrow>
        if \<not> ok then Ret (Inl ()) (bad_rw_intr s)
        else seq (port_write b k s) (\<lambda>_ s. Ret (Inr ()) s)) (hd_step_post xs (left (r # rest) s))"
    by (simp add: u)
qed

lemma hd_out_step:
  assumes "hd_queue xs rest s" "same_queue s t"
  shows "finishes (hd_out dev n sec hea cyl win intr t) (\<lambda>_. hd_step_post xs m (Inr ()))"
  by (rule finishes_mono [OF hd_out_queue])
    (use assms in \<open>auto intro: hd_step_post_started same_queue_trans\<close>)

lemma hd_step_finishes:
  assumes q: "hd_queue xs rest s" and d: "distinct xs"
  shows "finishes (hd_step () s) (hd_step_post xs (left rest s))"
proof (cases rest)
  case Nil
  then have "current_request s 3 = None" using q by (simp add: hd_queue_def)
  then show ?thesis using q Nil by (auto simp: hd_step_def hd_step_post_def)
next
  case (Cons r rs)
  have r: "current_request s 3 = Some r" using q Cons by (simp add: hd_queue_def)
  note q = q [unfolded Cons]
  have reset: "finishes (reset_hd nr (upd_hd f s)) (\<lambda>_. hd_step_post xs m (Inr ()))" for nr f m
    by (rule finishes_mono [OF reset_hd_queue])
      (use q in \<open>auto intro: hd_step_post_started same_queue_trans same_queue_ports\<close>)
  note steps = hd_write_step [OF q d] hd_out_step [OF q same_queue_refl] hd_out_step [OF q same_queue_ports(1)] reset
    hd_step_post_end [OF q d]
  show ?thesis
    unfolding hd_step_def r Let_def option.case Cons case_prod_beta
    using steps [unfolded case_prod_beta] by (simp only: finishes_if finishes_simps finishes_seq split: if_split) blast
qed


definition full_hd :: kstate where
  "full_hd = small_hd\<lparr>request := (\<lambda>i. (request small_hd i)\<lparr>r_errors := 0, r_next := if i = 0 then Some 1 else None\<rparr>)\<rparr>"


end
