(* ===== verification/Buffer.thy ===== *)
theory Buffer
  imports Block
begin

text \<open>
  \<open>fs/buffer.c\<close>: the buffer cache, with its hash chains and free ring as linked buffer
  heads, and the parts of \<open>super.c\<close> and \<open>inode.c\<close> it calls back into.

  \<open>getblk\<close> may have to write out a dirty buffer, which goes through \<open>sync_dev\<close>,
  \<open>sync_inodes\<close>, \<open>write_inode\<close> and \<open>bread\<close> back to \<open>getblk\<close>. The bodies therefore take
  the \<open>getblk\<close> to use as an argument, and \<open>getblk_fuel\<close> ties the knot; \<open>write_inode\<close>
  keeps its inode locked, and \<open>sync_inodes\<close> waits for a locked inode, so a third nested
  round ends asleep and the fuel \<open>GETBLK_DEPTH\<close> is not used up.
\<close>

section \<open>Waiting and super blocks\<close>

definition wait_on_buffer :: "nat \<Rightarrow> kstate \<Rightarrow> (unit, kstate) outcome" where
  "wait_on_buffer b s = (if tst (b_lock (bh s b)) then sleep_on (bh_queue b) s else Ret () s)"

definition wait_on_super :: "nat \<Rightarrow> kstate \<Rightarrow> (unit, kstate) outcome" where
  "wait_on_super i s = (if tst (s_lock (super_block s i)) then sleep_on (super_queue i) s else Ret () s)"

definition lock_super :: "nat \<Rightarrow> kstate \<Rightarrow> (unit, kstate) outcome" where
  "lock_super i s = seq (wait_on_super i s) (\<lambda>_ s. Ret () (upd_super i (s_lock_update (\<lambda>_. 1)) s))"

definition free_super :: "nat \<Rightarrow> kstate \<Rightarrow> kstate" where
  "free_super i s = wake_up (super_queue i) (upd_super i (s_lock_update (\<lambda>_. 0)) s)"

fun find_super :: "u32 \<Rightarrow> nat list \<Rightarrow> kstate \<Rightarrow> nat option" where
  "find_super dev [] s = None"
| "find_super dev (i # is) s =
     (if ucast (s_dev (super_block s i)) = dev then Some i else find_super dev is s)"

definition get_super :: "u32 \<Rightarrow> kstate \<Rightarrow> (nat option, kstate) outcome" where
  "get_super dev s =
    (if dev = 0 then Ret None s else
     case find_super dev [0..<NR_SUPER] s of
       None \<Rightarrow> Ret None s
     | Some i \<Rightarrow> seq (wait_on_super i s) (\<lambda>_ s. Ret (Some i) s))"

section \<open>The queues\<close>

definition hashfn :: "u32 \<Rightarrow> u32 \<Rightarrow> nat" where
  "hashfn dev block = unat (dev XOR block) mod NR_HASH"

definition bh_hash :: "nat \<Rightarrow> kstate \<Rightarrow> nat" where
  "bh_hash b s = hashfn (ucast (b_dev (bh s b))) (b_blocknr (bh s b))"

definition set_hash :: "nat \<Rightarrow> nat option \<Rightarrow> kstate \<Rightarrow> kstate" where
  "set_hash h b s = s\<lparr>hash_table := (hash_table s)(h := b)\<rparr>"

definition remove_from_hash :: "nat \<Rightarrow> kstate \<Rightarrow> kstate" where
  "remove_from_hash b s =
    (let s = (case b_next (bh s b) of None \<Rightarrow> s
              | Some n \<Rightarrow> upd_bh n (b_prev_update (\<lambda>_. b_prev (bh s b))) s);
         s = (case b_prev (bh s b) of None \<Rightarrow> s
              | Some p \<Rightarrow> upd_bh p (b_next_update (\<lambda>_. b_next (bh s b))) s)
     in if hash_table s (bh_hash b s) = Some b then set_hash (bh_hash b s) (b_next (bh s b)) s else s)"

definition remove_from_queues :: "nat \<Rightarrow> kstate \<Rightarrow> (unit, kstate) outcome" where
  "remove_from_queues b s =
    (let s = remove_from_hash b s in
     case (b_prev_free (bh s b), b_next_free (bh s b)) of
       (Some p, Some n) \<Rightarrow>
         (let s = upd_bh p (b_next_free_update (\<lambda>_. Some n)) s;
              s = upd_bh n (b_prev_free_update (\<lambda>_. b_prev_free (bh s b))) s
          in Ret () (if free_list s = b then s\<lparr>free_list := n\<rparr> else s))
     | _ \<Rightarrow> Panic ''Free block list corrupted'')"

text \<open>
  The last statement, \<open>bh->b_next->b_prev = bh\<close>, is executed also when the hash chain was
  empty and \<open>b_next\<close> is NULL: the store then hits the fixed address of \<open>b_prev\<close> in a
  structure at 0, here \<open>null_prev\<close>.
\<close>

definition insert_into_queues :: "nat \<Rightarrow> kstate \<Rightarrow> (unit, kstate) outcome" where
  "insert_into_queues b s =
    (let fl = free_list s;
         s = upd_bh b (b_next_free_update (\<lambda>_. Some fl)) s;
         s = upd_bh b (b_prev_free_update (\<lambda>_. b_prev_free (bh s fl))) s
     in case b_prev_free (bh s fl) of None \<Rightarrow> Fault
        | Some p \<Rightarrow>
           (let s = upd_bh p (b_next_free_update (\<lambda>_. Some b)) s;
                s = upd_bh fl (b_prev_free_update (\<lambda>_. Some b)) s;
                s = upd_bh b (\<lambda>x. x\<lparr>b_prev := None, b_next := None\<rparr>) s
            in if b_dev (bh s b) = 0 then Ret () s else
               let s = upd_bh b (b_next_update (\<lambda>_. hash_table s (bh_hash b s))) s;
                   s = set_hash (bh_hash b s) (Some b) s
               in case b_next (bh s b) of
                    Some n \<Rightarrow> Ret () (upd_bh n (b_prev_update (\<lambda>_. Some b)) s)
                  | None \<Rightarrow> Ret () (s\<lparr>null_prev := Some b\<rparr>)))"

text \<open>The walk along a hash chain ends only if the chain does.\<close>

partial_function (option) chain_search :: "kstate \<Rightarrow> u32 \<Rightarrow> u32 \<Rightarrow> nat option \<Rightarrow> nat option option" where
  "chain_search s dev block tmp =
     (if tmp = None then Some None
      else if ucast (b_dev (bh s (the tmp))) = dev \<and> b_blocknr (bh s (the tmp)) = block then Some tmp
      else chain_search s dev block (b_next (bh s (the tmp))))"

definition find_buffer :: "u32 \<Rightarrow> u32 \<Rightarrow> kstate \<Rightarrow> (nat option, kstate) outcome" where
  "find_buffer dev block s =
    (case chain_search s dev block (hash_table s (hashfn dev block)) of
       None \<Rightarrow> Hangs | Some r \<Rightarrow> Ret r s)"

text \<open>
  The loop of \<open>get_hash_table\<close> goes round again only when the buffer changed its block
  while the path slept, and a path that sleeps ends in \<open>Sleeps\<close>.
\<close>

definition get_hash_table :: "u32 \<Rightarrow> u32 \<Rightarrow> kstate \<Rightarrow> (nat option, kstate) outcome" where
  "get_hash_table dev block s = seq (find_buffer dev block s) (\<lambda>r s.
     case r of None \<Rightarrow> Ret None s
     | Some b \<Rightarrow>
        seq (wait_on_buffer b (upd_bh b (\<lambda>x. x\<lparr>b_count := b_count x + 1\<rparr>) s)) (\<lambda>_ s.
          if ucast (b_dev (bh s b)) = dev \<and> b_blocknr (bh s b) = block then Ret (Some b) s
          else Hangs))"

section \<open>Releasing and reading\<close>

text \<open>\<open>if (!(buf->b_count--)) panic\<close>\<close>

definition brelse :: "nat option \<Rightarrow> kstate \<Rightarrow> (unit, kstate) outcome" where
  "brelse buf s = (case buf of None \<Rightarrow> Ret () s
     | Some b \<Rightarrow> seq (wait_on_buffer b s) (\<lambda>_ s.
         if b_count (bh s b) = 0 then Panic ''Trying to free free buffer''
         else Ret () (wake_up buffer_queue (upd_bh b (\<lambda>x. x\<lparr>b_count := b_count x - 1\<rparr>) s))))"

type_synonym getblk_fn = "u32 \<Rightarrow> u32 \<Rightarrow> kstate \<Rightarrow> (nat, kstate) outcome"

definition bread_by :: "getblk_fn \<Rightarrow> u32 \<Rightarrow> u32 \<Rightarrow> kstate \<Rightarrow> (nat option, kstate) outcome" where
  "bread_by gb dev block s = seq (gb dev block s) (\<lambda>b s.
     if tst (b_uptodate (bh s b)) then Ret (Some b) s else
     seq (ll_rw_block READ b s) (\<lambda>_ s. seq (wait_on_buffer b s) (\<lambda>_ s.
       if tst (b_uptodate (bh s b)) then Ret (Some b) s
       else seq (brelse (Some b) s) (\<lambda>_ s. Ret None s))))"

section \<open>Writing inodes out\<close>

definition wait_on_inode :: "nat \<Rightarrow> kstate \<Rightarrow> (unit, kstate) outcome" where
  "wait_on_inode i s = (if tst (i_lock (inode_table s i)) then sleep_on (inode_queue i) s else Ret () s)"

definition lock_inode :: "nat \<Rightarrow> kstate \<Rightarrow> (unit, kstate) outcome" where
  "lock_inode i s = seq (wait_on_inode i s) (\<lambda>_ s. Ret () (upd_inode i (i_lock_update (\<lambda>_. 1)) s))"

definition unlock_inode :: "nat \<Rightarrow> kstate \<Rightarrow> kstate" where
  "unlock_inode i s = wake_up (inode_queue i) (upd_inode i (i_lock_update (\<lambda>_. 0)) s)"

text \<open>A \<open>struct d_inode\<close> of 32 bytes at offset \<open>k\<close> of a block; \<open>m\<close> supplies the rest.\<close>

definition INODES_PER_BLOCK :: u32 where "INODES_PER_BLOCK = 32"

primrec put_zones :: "nat \<Rightarrow> (nat \<Rightarrow> u16) \<Rightarrow> nat \<Rightarrow> (nat \<Rightarrow> u8) \<Rightarrow> nat \<Rightarrow> u8" where
  "put_zones 0 z k d = d"
| "put_zones (Suc n) z k d = put16 (z n) (k + 2 * n) (put_zones n z k d)"

definition put_inode :: "m_inode \<Rightarrow> nat \<Rightarrow> (nat \<Rightarrow> u8) \<Rightarrow> nat \<Rightarrow> u8" where
  "put_inode m k d = put_zones 9 (i_zone m) (k + 14)
     ((put32 (i_mtime m) (k + 8) (put32 (i_size m) (k + 4) (put16 (i_uid m) (k + 2) (put16 (i_mode m) k d))))
        (k + 12 := i_gid m, k + 13 := i_nlinks m))"

definition get_inode :: "(nat \<Rightarrow> u8) \<Rightarrow> nat \<Rightarrow> m_inode \<Rightarrow> m_inode" where
  "get_inode d k m = m\<lparr>i_mode := get16 d k, i_uid := get16 d (k + 2), i_size := get32 d (k + 4),
     i_mtime := get32 d (k + 8), i_gid := d (k + 12), i_nlinks := d (k + 13),
     i_zone := (\<lambda>j. if j < 9 then get16 d (k + 14 + 2 * j) else i_zone m j)\<rparr>"

definition inode_block :: "nat \<Rightarrow> nat \<Rightarrow> kstate \<Rightarrow> u32" where
  "inode_block sb i s = 2 + ucast (s_imap_blocks (super_block s sb)) + ucast (s_zmap_blocks (super_block s sb)) +
     (ucast (i_num (inode_table s i)) - 1) div INODES_PER_BLOCK"

text \<open>\<open>(inode->i_num-1)%INODES_PER_BLOCK\<close>: \<open>sizeof\<close> is unsigned, so are quotient and remainder.\<close>

definition inode_offset :: "nat \<Rightarrow> kstate \<Rightarrow> nat" where
  "inode_offset i s = 32 * (unat (ucast (i_num (inode_table s i)) - 1 :: u32) mod 32)"

definition write_inode_by :: "getblk_fn \<Rightarrow> nat \<Rightarrow> kstate \<Rightarrow> (unit, kstate) outcome" where
  "write_inode_by gb i s = seq (lock_inode i s) (\<lambda>_ s.
     if \<not> tst (i_dirt (inode_table s i)) \<or> i_dev (inode_table s i) = 0 then Ret () (unlock_inode i s) else
     seq (get_super (ucast (i_dev (inode_table s i))) s) (\<lambda>sb s. case sb of
       None \<Rightarrow> Panic ''trying to write inode without device''
     | Some sb \<Rightarrow>
        seq (bread_by gb (ucast (i_dev (inode_table s i))) (inode_block sb i s) s) (\<lambda>r s. case r of
          None \<Rightarrow> Panic ''unable to read i-node block''
        | Some b \<Rightarrow>
            let s = upd_bh b (\<lambda>x. x\<lparr>b_data := put_inode (inode_table s i) (inode_offset i s) (b_data x),
                      b_dirt := 1\<rparr>) s;
                s = upd_inode i (i_dirt_update (\<lambda>_. 0)) s
            in seq (brelse (Some b) s) (\<lambda>_ s. Ret () (unlock_inode i s)))))"

definition sync_inodes_by :: "getblk_fn \<Rightarrow> kstate \<Rightarrow> (unit, kstate) outcome" where
  "sync_inodes_by gb = for_each (\<lambda>i s. seq (wait_on_inode i s) (\<lambda>_ s.
     if tst (i_dirt (inode_table s i)) \<and> \<not> tst (i_pipe (inode_table s i))
     then write_inode_by gb i s else Ret () s)) [0..<NR_INODE]"

definition write_dirty :: "u32 \<Rightarrow> kstate \<Rightarrow> (unit, kstate) outcome" where
  "write_dirty dev s = for_each (\<lambda>b s.
     if ucast (b_dev (bh s b)) \<noteq> dev then Ret () s else
     seq (wait_on_buffer b s) (\<lambda>_ s.
       if ucast (b_dev (bh s b)) = dev \<and> tst (b_dirt (bh s b)) then ll_rw_block WRITE b s else Ret () s))
     [0..<nr_buffers s] s"

definition sync_dev_by :: "getblk_fn \<Rightarrow> u32 \<Rightarrow> kstate \<Rightarrow> (unit, kstate) outcome" where
  "sync_dev_by gb dev s =
     seq (write_dirty dev s) (\<lambda>_ s. seq (sync_inodes_by gb s) (\<lambda>_ s. write_dirty dev s))"

section \<open>\<open>getblk\<close>\<close>

definition BADNESS :: "buffer_head \<Rightarrow> u32" where
  "BADNESS b = push_bit 1 (ucast (b_dirt b)) + ucast (b_lock b)"

text \<open>
  The search of the free ring from \<open>tmp\<close>; \<open>best\<close> is \<open>bh\<close>. The outer \<open>None\<close> is a ring that
  never comes back to \<open>free_list\<close>, \<open>Fault\<close> a broken link.
\<close>

partial_function (option) scan_ring :: "kstate \<Rightarrow> nat \<Rightarrow> nat option \<Rightarrow> (nat option, kstate) outcome option" where
  "scan_ring s tmp best =
    (let free = (b_count (bh s tmp) = 0);
         better = (free \<and> (case best of None \<Rightarrow> True | Some b \<Rightarrow> slt (BADNESS (bh s tmp)) (BADNESS (bh s b))));
         best = (if better then Some tmp else best)
     in if better \<and> BADNESS (bh s tmp) = 0 then Some (Ret best s)
        else case b_next_free (bh s tmp) of None \<Rightarrow> Some Fault
          | Some n \<Rightarrow> if n = free_list s then Some (Ret best s) else scan_ring s n best)"

definition find_free :: "kstate \<Rightarrow> (nat option, kstate) outcome" where
  "find_free s = (case scan_ring s (free_list s) None of None \<Rightarrow> Hangs | Some r \<Rightarrow> r)"

text \<open>
  \<open>while (bh->b_dirt) { sync_dev(...); wait_on_buffer(bh); ... }\<close>. \<open>sync_dev\<close> leaves the
  buffer dirty only when its device has no driver; the loop then never ends.
\<close>

definition clean_buffer :: "getblk_fn \<Rightarrow> nat \<Rightarrow> kstate \<Rightarrow> (unit, kstate) outcome" where
  "clean_buffer gb b s =
    (if \<not> tst (b_dirt (bh s b)) then Ret () s else
     seq (sync_dev_by gb (ucast (b_dev (bh s b))) s) (\<lambda>_ s. seq (wait_on_buffer b s) (\<lambda>_ s.
       if tst (b_count (bh s b)) then Ret () s
       else if tst (b_dirt (bh s b)) then Hangs else Ret () s)))"

definition take_buffer :: "u32 \<Rightarrow> u32 \<Rightarrow> nat \<Rightarrow> kstate \<Rightarrow> (nat, kstate) outcome" where
  "take_buffer dev block b s =
     seq (remove_from_queues b (upd_bh b (\<lambda>x. x\<lparr>b_count := 1, b_dirt := 0, b_uptodate := 0\<rparr>) s)) (\<lambda>_ s.
     seq (insert_into_queues b (upd_bh b (\<lambda>x. x\<lparr>b_dev := ucast dev, b_blocknr := block\<rparr>) s)) (\<lambda>_ s.
     Ret b s))"

text \<open>The body of \<open>getblk\<close>; \<open>gb\<close> is also \<open>goto repeat\<close>.\<close>

definition getblk_by :: "getblk_fn \<Rightarrow> getblk_fn" where
  "getblk_by gb dev block s = seq (get_hash_table dev block s) (\<lambda>r s. case r of
     Some b \<Rightarrow> Ret b s
   | None \<Rightarrow> seq (find_free s) (\<lambda>r s. case r of
       None \<Rightarrow> seq (sleep_on buffer_queue s) (\<lambda>_ s. gb dev block s)
     | Some b \<Rightarrow> seq (wait_on_buffer b s) (\<lambda>_ s.
         if tst (b_count (bh s b)) then gb dev block s else
         seq (clean_buffer gb b s) (\<lambda>_ s.
           if tst (b_count (bh s b)) then gb dev block s else
           seq (find_buffer dev block s) (\<lambda>r s.
             if r \<noteq> None then gb dev block s else take_buffer dev block b s)))))"

primrec getblk_fuel :: "nat \<Rightarrow> getblk_fn" where
  "getblk_fuel 0 = (\<lambda>dev block s. Hangs)"
| "getblk_fuel (Suc n) = getblk_by (getblk_fuel n)"

definition GETBLK_DEPTH :: nat where "GETBLK_DEPTH = 4"

definition getblk :: getblk_fn where "getblk = getblk_fuel GETBLK_DEPTH"

definition bread :: "u32 \<Rightarrow> u32 \<Rightarrow> kstate \<Rightarrow> (nat option, kstate) outcome" where
  "bread = bread_by getblk"

definition write_inode :: "nat \<Rightarrow> kstate \<Rightarrow> (unit, kstate) outcome" where
  "write_inode = write_inode_by getblk"

definition sync_inodes :: "kstate \<Rightarrow> (unit, kstate) outcome" where
  "sync_inodes = sync_inodes_by getblk"

definition sync_dev :: "u32 \<Rightarrow> kstate \<Rightarrow> (unit, kstate) outcome" where
  "sync_dev = sync_dev_by getblk"

section \<open>The rest of \<open>buffer.c\<close>\<close>

definition sys_sync :: "kstate \<Rightarrow> (u32, kstate) outcome" where
  "sys_sync s = seq (sync_inodes s) (\<lambda>_ s.
     seq (for_each (\<lambda>b s. seq (wait_on_buffer b s) (\<lambda>_ s.
       if tst (b_dirt (bh s b)) then ll_rw_block WRITE b s else Ret () s)) [0..<nr_buffers s] s)
       (\<lambda>_ s. Ret 0 s))"

definition invalidate_buffers :: "u32 \<Rightarrow> kstate \<Rightarrow> (unit, kstate) outcome" where
  "invalidate_buffers dev s = for_each (\<lambda>b s.
     if ucast (b_dev (bh s b)) \<noteq> dev then Ret () s else
     seq (wait_on_buffer b s) (\<lambda>_ s.
       if ucast (b_dev (bh s b)) = dev
       then Ret () (upd_bh b (\<lambda>x. x\<lparr>b_uptodate := 0, b_dirt := 0\<rparr>) s) else Ret () s))
     [0..<nr_buffers s] s"

text \<open>
  The extra blocks of \<open>breada\<close>. For each of them that is not up to date, the code starts
  a read of \<open>bh\<close>, the first block, and not of \<open>tmp\<close>.
\<close>

fun read_ahead :: "u32 \<Rightarrow> nat \<Rightarrow> u32 list \<Rightarrow> kstate \<Rightarrow> (unit, kstate) outcome" where
  "read_ahead dev b [] s = Ret () s"
| "read_ahead dev b (first # rest) s =
     seq (getblk dev first s) (\<lambda>tmp s.
     seq (if \<not> tst (b_uptodate (bh s tmp)) then ll_rw_block READA b s else Ret () s) (\<lambda>_ s.
     read_ahead dev b rest (upd_bh tmp (\<lambda>x. x\<lparr>b_count := b_count x - 1\<rparr>) s)))"

text \<open>The argument list ends at the first negative number.\<close>

definition breada :: "u32 \<Rightarrow> u32 \<Rightarrow> u32 list \<Rightarrow> kstate \<Rightarrow> (nat option, kstate) outcome" where
  "breada dev first args s = seq (getblk dev first s) (\<lambda>b s.
     seq (if \<not> tst (b_uptodate (bh s b)) then ll_rw_block READ b s else Ret () s) (\<lambda>_ s.
     seq (read_ahead dev b (takeWhile (\<lambda>n. sle 0 n) args) s) (\<lambda>_ s.
     seq (wait_on_buffer b s) (\<lambda>_ s.
       if tst (b_uptodate (bh s b)) then Ret (Some b) s
       else seq (brelse (Some b) s) (\<lambda>_ s. Ret None s)))))"

end
