(* ===== verification/Bitmap.thy ===== *)
theory Bitmap
  imports Buffer
begin

text \<open>
  The block half of \<open>fs/bitmap.c\<close> with \<open>fs/truncate.c\<close>: the zone bitmap, allocation and
  release of blocks, and freeing the blocks of a file through its indirect blocks.
\<close>

section \<open>Bits of a bitmap block\<close>

definition test_bit :: "nat \<Rightarrow> (nat \<Rightarrow> u8) \<Rightarrow> bool" where
  "test_bit nr d = bit (d (nr div 8)) (nr mod 8)"

definition put_bit :: "nat \<Rightarrow> bool \<Rightarrow> (nat \<Rightarrow> u8) \<Rightarrow> nat \<Rightarrow> u8" where
  "put_bit nr v d = d(nr div 8 :=
     (if v then d (nr div 8) OR push_bit (nr mod 8) 1 else d (nr div 8) AND NOT (push_bit (nr mod 8) 1)))"

text \<open>\<open>bsfl\<close>: the number of the lowest bit set, searched from bit \<open>k\<close> on.\<close>

primrec bsf_from :: "nat \<Rightarrow> nat \<Rightarrow> u32 \<Rightarrow> nat" where
  "bsf_from 0 k e = k"
| "bsf_from (Suc n) k e = (if bit e k then k else bsf_from n (Suc k) e)"

primrec zero_from :: "nat \<Rightarrow> nat \<Rightarrow> (nat \<Rightarrow> u8) \<Rightarrow> nat" where
  "zero_from 0 w d = 32 * w"
| "zero_from (Suc n) w d =
     (let e = NOT (get32 d (4 * w)) in if e = 0 then zero_from n (Suc w) d else 32 * w + bsf_from 32 0 e)"

definition find_first_zero :: "(nat \<Rightarrow> u8) \<Rightarrow> nat" where
  "find_first_zero d = zero_from 256 0 d"

section \<open>Blocks\<close>

definition free_block :: "u32 \<Rightarrow> u32 \<Rightarrow> kstate \<Rightarrow> (unit, kstate) outcome" where
  "free_block dev block s = seq (get_super dev s) (\<lambda>r s. case r of
     None \<Rightarrow> Panic ''trying to free block on nonexistent device''
   | Some sb \<Rightarrow>
      if slt block (ucast (s_firstdatazone (super_block s sb))) \<or>
         sle (ucast (s_nzones (super_block s sb))) block
      then Panic ''trying to free block not in datazone''
      else seq (get_hash_table dev block s) (\<lambda>r s.
        if (case r of Some b \<Rightarrow> b_count (bh s b) \<noteq> 1 | None \<Rightarrow> False) then Ret () s
        else seq (case r of None \<Rightarrow> Ret () s
            | Some b \<Rightarrow> brelse (Some b) (upd_bh b (\<lambda>x. x\<lparr>b_dirt := 0, b_uptodate := 0\<rparr>) s)) (\<lambda>_ s.
          let block = block - (ucast (s_firstdatazone (super_block s sb)) - 1);
              nr = unat (block AND 8191)
          in case s_zmap (super_block s sb) (unat (cdiv block 8192)) of None \<Rightarrow> Fault
             | Some z \<Rightarrow>
                if \<not> test_bit nr (b_data (bh s z)) then Panic ''free_block: bit already cleared''
                else Ret () (upd_bh z (\<lambda>x. x\<lparr>b_data := put_bit nr False (b_data x), b_dirt := 1\<rparr>) s))))"

text \<open>The first bitmap block of a super block's map that has a clear bit, and the bit.\<close>

fun scan_map :: "(nat \<Rightarrow> nat option) \<Rightarrow> nat list \<Rightarrow> kstate \<Rightarrow> (nat \<times> nat \<times> nat) option" where
  "scan_map m [] s = None"
| "scan_map m (i # is) s = (case m i of None \<Rightarrow> scan_map m is s
     | Some b \<Rightarrow> (let j = find_first_zero (b_data (bh s b)) in
         if j < 8192 then Some (i, b, j) else scan_map m is s))"

definition clear_block :: "nat \<Rightarrow> kstate \<Rightarrow> kstate" where
  "clear_block b = upd_bh b (b_data_update (\<lambda>d k. if k < BLOCK_SIZE then 0 else d k))"

definition new_block :: "u32 \<Rightarrow> kstate \<Rightarrow> (u32, kstate) outcome" where
  "new_block dev s = seq (get_super dev s) (\<lambda>r s. case r of
     None \<Rightarrow> Panic ''trying to get new block from nonexistant device''
   | Some sb \<Rightarrow>
      (case scan_map (s_zmap (super_block s sb)) [0..<8] s of None \<Rightarrow> Ret 0 s
       | Some (i, z, j) \<Rightarrow>
          if test_bit j (b_data (bh s z)) then Panic ''new_block: bit already set'' else
          let s = upd_bh z (\<lambda>x. x\<lparr>b_data := put_bit j True (b_data x), b_dirt := 1\<rparr>) s;
              j = of_nat j + of_nat i * 8192 + ucast (s_firstdatazone (super_block s sb)) - 1
          in if sle (ucast (s_nzones (super_block s sb))) j then Ret 0 s else
             seq (getblk dev j s) (\<lambda>b s.
               if b_count (bh s b) \<noteq> 1 then Panic ''new block: count is != 1'' else
               let s = upd_bh b (\<lambda>x. x\<lparr>b_uptodate := 1, b_dirt := 1\<rparr>) (clear_block b s)
               in seq (brelse (Some b) s) (\<lambda>_ s. Ret j s))))"

section \<open>\<open>truncate\<close>\<close>

definition S_IFMT :: u16 where "S_IFMT = 0xF000"
definition S_IFREG :: u16 where "S_IFREG = 0x8000"
definition S_IFBLK :: u16 where "S_IFBLK = 0x6000"
definition S_IFDIR :: u16 where "S_IFDIR = 0x4000"
definition S_IFCHR :: u16 where "S_IFCHR = 0x2000"
definition S_IFIFO :: u16 where "S_IFIFO = 0x1000"

definition S_ISREG :: "u16 \<Rightarrow> bool" where "S_ISREG m \<longleftrightarrow> m AND S_IFMT = S_IFREG"
definition S_ISDIR :: "u16 \<Rightarrow> bool" where "S_ISDIR m \<longleftrightarrow> m AND S_IFMT = S_IFDIR"
definition S_ISCHR :: "u16 \<Rightarrow> bool" where "S_ISCHR m \<longleftrightarrow> m AND S_IFMT = S_IFCHR"
definition S_ISBLK :: "u16 \<Rightarrow> bool" where "S_ISBLK m \<longleftrightarrow> m AND S_IFMT = S_IFBLK"
definition S_ISFIFO :: "u16 \<Rightarrow> bool" where "S_ISFIFO m \<longleftrightarrow> m AND S_IFMT = S_IFIFO"

text \<open>
  A block of 512 zone numbers, freed with \<open>f\<close>; the indirect block itself is freed last,
  also when it could not be read.
\<close>

definition free_zones :: "(u32 \<Rightarrow> u32 \<Rightarrow> kstate \<Rightarrow> (unit, kstate) outcome) \<Rightarrow> u32 \<Rightarrow> u32 \<Rightarrow> kstate \<Rightarrow> (unit, kstate) outcome" where
  "free_zones f dev block s =
    (if block = 0 then Ret () s else
     seq (bread dev block s) (\<lambda>r s.
     seq (case r of None \<Rightarrow> Ret () s
          | Some b \<Rightarrow>
              seq (for_each (\<lambda>i s. let p = get16 (b_data (bh s b)) (2 * i) in
                    if tst p then f dev (ucast p) s else Ret () s) [0..<512] s) (\<lambda>_ s.
              brelse (Some b) s)) (\<lambda>_ s.
     free_block dev block s)))"

definition free_ind :: "u32 \<Rightarrow> u32 \<Rightarrow> kstate \<Rightarrow> (unit, kstate) outcome" where
  "free_ind = free_zones free_block"

definition free_dind :: "u32 \<Rightarrow> u32 \<Rightarrow> kstate \<Rightarrow> (unit, kstate) outcome" where
  "free_dind = free_zones free_ind"

definition set_zone :: "nat \<Rightarrow> nat \<Rightarrow> u16 \<Rightarrow> kstate \<Rightarrow> kstate" where
  "set_zone i n v = upd_inode i (\<lambda>m. m\<lparr>i_zone := (i_zone m)(n := v)\<rparr>)"

definition inode_dev :: "nat \<Rightarrow> kstate \<Rightarrow> u32" where
  "inode_dev i s = ucast (i_dev (inode_table s i))"

definition zone :: "nat \<Rightarrow> nat \<Rightarrow> kstate \<Rightarrow> u32" where
  "zone i n s = ucast (i_zone (inode_table s i) n)"

definition truncate_inode :: "nat \<Rightarrow> kstate \<Rightarrow> (unit, kstate) outcome" where
  "truncate_inode i s =
    (let mode = i_mode (inode_table s i) in
     if \<not> (S_ISREG mode \<or> S_ISDIR mode) then Ret () s else
     seq (for_each (\<lambda>n s. if zone i n s = 0 then Ret () s else
            seq (free_block (inode_dev i s) (zone i n s) s) (\<lambda>_ s. Ret () (set_zone i n 0 s))) [0..<7] s) (\<lambda>_ s.
     seq (free_ind (inode_dev i s) (zone i 7 s) s) (\<lambda>_ s.
     seq (free_dind (inode_dev i s) (zone i 8 s) s) (\<lambda>_ s.
       let s = set_zone i 7 0 (set_zone i 8 0 s)
       in Ret () (upd_inode i (\<lambda>m. m\<lparr>i_size := 0, i_dirt := 1, i_mtime := CURRENT_TIME s,
                                  i_ctime := CURRENT_TIME s\<rparr>) s)))))"

end
