(* ===== verification/Inode.thy ===== *)
theory Inode
  imports Bitmap
begin

text \<open>
  \<open>fs/inode.c\<close> and the inode half of \<open>fs/bitmap.c\<close>: block mapping, the inode table with
  its reference counts, reading inodes from their device and allocating new ones.
\<close>

definition zero_inode :: m_inode where
  "zero_inode = \<lparr>i_mode = 0, i_uid = 0, i_size = 0, i_mtime = 0, i_gid = 0, i_nlinks = 0,
     i_zone = (\<lambda>_. 0), i_wait = None, i_atime = 0, i_ctime = 0, i_dev = 0, i_num = 0, i_count = 0,
     i_lock = 0, i_dirt = 0, i_pipe = 0, i_mount = 0, i_seek = 0, i_update = 0\<rparr>"

definition invalidate_inodes :: "u32 \<Rightarrow> kstate \<Rightarrow> (unit, kstate) outcome" where
  "invalidate_inodes dev = for_each (\<lambda>i s. seq (wait_on_inode i s) (\<lambda>_ s.
     if inode_dev i s = dev then Ret () (upd_inode i (\<lambda>m. m\<lparr>i_dev := 0, i_dirt := 0\<rparr>) s)
     else Ret () s)) [0..<NR_INODE]"

section \<open>\<open>bmap\<close>\<close>

text \<open>\<open>if (create && !zone) if (zone = new_block(dev)) { i_dirt = 1; i_ctime = now; }\<close>\<close>

definition create_zone :: "nat \<Rightarrow> nat \<Rightarrow> bool \<Rightarrow> kstate \<Rightarrow> (unit, kstate) outcome" where
  "create_zone i n create s =
    (if create \<and> zone i n s = 0 then
       seq (new_block (inode_dev i s) s) (\<lambda>b s.
         let s = set_zone i n (ucast b) s in
         if zone i n s \<noteq> 0
         then Ret () (upd_inode i (\<lambda>m. m\<lparr>i_dirt := 1, i_ctime := CURRENT_TIME s\<rparr>) s)
         else Ret () s)
     else Ret () s)"

text \<open>One level of indirection: entry \<open>n\<close> of the block \<open>nr\<close>.\<close>

definition indirect :: "nat \<Rightarrow> u32 \<Rightarrow> nat \<Rightarrow> bool \<Rightarrow> kstate \<Rightarrow> (u32, kstate) outcome" where
  "indirect i nr n create s = seq (bread (inode_dev i s) nr s) (\<lambda>r s. case r of
     None \<Rightarrow> Ret 0 s
   | Some b \<Rightarrow>
      let e = (ucast (get16 (b_data (bh s b)) (2 * n)) :: u32) in
      seq (if create \<and> e = 0 then
             seq (new_block (inode_dev i s) s) (\<lambda>e s.
               if tst e then Ret e (upd_bh b (\<lambda>x. x\<lparr>b_data := put16 (ucast e) (2 * n) (b_data x), b_dirt := 1\<rparr>) s)
               else Ret e s)
           else Ret e s) (\<lambda>e s.
      seq (brelse (Some b) s) (\<lambda>_ s. Ret e s)))"

definition bmap_create :: "nat \<Rightarrow> u32 \<Rightarrow> bool \<Rightarrow> kstate \<Rightarrow> (u32, kstate) outcome" where
  "bmap_create i block create s =
    (if slt block 0 then Panic ''_bmap: block<0''
     else if sle (7 + 512 + 512 * 512) block then Panic ''_bmap: block>big''
     else if slt block 7 then
       seq (create_zone i (unat block) create s) (\<lambda>_ s. Ret (zone i (unat block) s) s)
     else let block = block - 7 in
       if slt block 512 then
         seq (create_zone i 7 create s) (\<lambda>_ s.
           if zone i 7 s = 0 then Ret 0 s else indirect i (zone i 7 s) (unat block) create s)
       else let block = block - 512 in
         seq (create_zone i 8 create s) (\<lambda>_ s.
           if zone i 8 s = 0 then Ret 0 s else
           seq (indirect i (zone i 8 s) (unat (drop_bit 9 block)) create s) (\<lambda>e s.
             if e = 0 then Ret 0 s else indirect i e (unat (block AND 511)) create s)))"

definition bmap :: "nat \<Rightarrow> u32 \<Rightarrow> kstate \<Rightarrow> (u32, kstate) outcome" where
  "bmap i block = bmap_create i block False"

definition create_block :: "nat \<Rightarrow> u32 \<Rightarrow> kstate \<Rightarrow> (u32, kstate) outcome" where
  "create_block i block = bmap_create i block True"

section \<open>Releasing inodes\<close>

definition free_inode :: "nat option \<Rightarrow> kstate \<Rightarrow> (unit, kstate) outcome" where
  "free_inode inode s = (case inode of None \<Rightarrow> Ret () s
     | Some i \<Rightarrow>
        (let m = inode_table s i in
         if i_dev m = 0 then Ret () (upd_inode i (\<lambda>_. zero_inode) s)
         else if 1 < i_count m then Panic ''free_inode''
         else if tst (i_nlinks m) then Panic ''trying to free inode with links''
         else seq (get_super (ucast (i_dev m)) s) (\<lambda>r s. case r of
           None \<Rightarrow> Panic ''trying to free inode on nonexistent device''
         | Some sb \<Rightarrow>
            if i_num m < 1 \<or> s_ninodes (super_block s sb) < i_num m
            then Panic ''trying to free inode 0 or nonexistant inode''
            else case s_imap (super_block s sb) (unat (drop_bit 13 (i_num m))) of
              None \<Rightarrow> Panic ''nonexistent imap in superblock''
            | Some b \<Rightarrow>
                let s = upd_bh b (\<lambda>x. x\<lparr>b_data := put_bit (unat (i_num m AND 8191)) False (b_data x), b_dirt := 1\<rparr>) s
                in Ret () (upd_inode i (\<lambda>_. zero_inode) s))))"

definition dec_count :: "nat \<Rightarrow> kstate \<Rightarrow> kstate" where
  "dec_count i = upd_inode i (\<lambda>m. m\<lparr>i_count := i_count m - 1\<rparr>)"

text \<open>
  The part after \<open>repeat:\<close>. \<open>write_inode\<close> leaves the inode of a device clean, so the
  second round does not write and there is no third.
\<close>

primrec iput_repeat :: "nat \<Rightarrow> nat \<Rightarrow> kstate \<Rightarrow> (unit, kstate) outcome" where
  "iput_repeat 0 i s = Hangs"
| "iput_repeat (Suc n) i s =
    (if 1 < i_count (inode_table s i) then Ret () (dec_count i s)
     else if i_nlinks (inode_table s i) = 0 then
       seq (truncate_inode i s) (\<lambda>_ s. free_inode (Some i) s)
     else if tst (i_dirt (inode_table s i)) then
       seq (write_inode i s) (\<lambda>_ s. seq (wait_on_inode i s) (\<lambda>_ s. iput_repeat n i s))
     else Ret () (dec_count i s))"

definition iput :: "nat option \<Rightarrow> kstate \<Rightarrow> (unit, kstate) outcome" where
  "iput inode s = (case inode of None \<Rightarrow> Ret () s
     | Some i \<Rightarrow> seq (wait_on_inode i s) (\<lambda>_ s.
         if i_count (inode_table s i) = 0 then Panic ''iput: trying to free free inode''
         else if tst (i_pipe (inode_table s i)) then
           let s = dec_count i (wake_up (inode_queue i) s) in
           if tst (i_count (inode_table s i)) then Ret () s else
           seq (in_mm (free_page (i_size (inode_table s i))) s) (\<lambda>_ s.
             Ret () (upd_inode i (\<lambda>m. m\<lparr>i_count := 0, i_dirt := 0, i_pipe := 0\<rparr>) s))
         else if i_dev (inode_table s i) = 0 then Ret () (dec_count i s)
         else seq (if S_ISBLK (i_mode (inode_table s i))
                   then seq (sync_dev (zone i 0 s) s) (\<lambda>_ s. wait_on_inode i s) else Ret () s) (\<lambda>_ s.
              iput_repeat 2 i s)))"

section \<open>Finding inodes\<close>

text \<open>
  The search of \<open>get_empty_inode\<close>, round the table from \<open>last_inode\<close>: the last entry looked
  at and the candidate.
\<close>

primrec scan_inodes :: "nat \<Rightarrow> nat \<Rightarrow> nat option \<Rightarrow> kstate \<Rightarrow> nat \<times> nat option" where
  "scan_inodes 0 pos found s = (pos, found)"
| "scan_inodes (Suc n) pos found s =
    (let pos = (if NR_INODE \<le> Suc pos then 0 else Suc pos); m = inode_table s pos in
     if i_count m = 0 then
       (if \<not> tst (i_dirt m) \<and> \<not> tst (i_lock m) then (pos, Some pos)
        else scan_inodes n pos (Some pos) s)
     else scan_inodes n pos found s)"

text \<open>
  \<open>while (inode->i_dirt)\<close> never ends for an inode without device, which \<open>write_inode\<close>
  leaves dirty. The outer loop goes round again only after a sleep.
\<close>

definition get_empty_inode :: "kstate \<Rightarrow> (nat, kstate) outcome" where
  "get_empty_inode s =
    (let (pos, found) = scan_inodes NR_INODE (last_inode s) None s;
         s = s\<lparr>last_inode := pos\<rparr>
     in case found of None \<Rightarrow> Panic ''No free inodes in mem''
        | Some i \<Rightarrow> seq (wait_on_inode i s) (\<lambda>_ s.
            seq (if \<not> tst (i_dirt (inode_table s i)) then Ret () s else
                 seq (write_inode i s) (\<lambda>_ s. seq (wait_on_inode i s) (\<lambda>_ s.
                   if tst (i_dirt (inode_table s i)) then Hangs else Ret () s))) (\<lambda>_ s.
            if tst (i_count (inode_table s i)) then Hangs
            else Ret i (upd_inode i (\<lambda>_. zero_inode\<lparr>i_count := 1\<rparr>) s))))"

definition get_pipe_inode :: "kstate \<Rightarrow> (nat option, kstate) outcome" where
  "get_pipe_inode s = seq (get_empty_inode s) (\<lambda>i s.
     seq (in_mm get_free_page s) (\<lambda>page s.
       let s = upd_inode i (i_size_update (\<lambda>_. page)) s in
       if page = 0 then Ret None (upd_inode i (i_count_update (\<lambda>_. 0)) s)
       else let s = upd_inode i (i_count_update (\<lambda>_. 2)) s;
                s = set_zone i 0 0 (set_zone i 1 0 s)
            in Ret (Some i) (upd_inode i (i_pipe_update (\<lambda>_. 1)) s)))"

definition read_inode :: "nat \<Rightarrow> kstate \<Rightarrow> (unit, kstate) outcome" where
  "read_inode i s = seq (lock_inode i s) (\<lambda>_ s.
     seq (get_super (inode_dev i s) s) (\<lambda>r s. case r of
       None \<Rightarrow> Panic ''trying to read inode without dev''
     | Some sb \<Rightarrow> seq (bread (inode_dev i s) (inode_block sb i s) s) (\<lambda>r s. case r of
         None \<Rightarrow> Panic ''unable to read i-node block''
       | Some b \<Rightarrow>
          let s = upd_inode i (get_inode (b_data (bh s b)) (inode_offset i s)) s
          in seq (brelse (Some b) s) (\<lambda>_ s. Ret () (unlock_inode i s)))))"

fun find_inode :: "u32 \<Rightarrow> u32 \<Rightarrow> nat list \<Rightarrow> kstate \<Rightarrow> nat option" where
  "find_inode dev nr [] s = None"
| "find_inode dev nr (i # is) s =
     (if inode_dev i s \<noteq> dev \<or> ucast (i_num (inode_table s i)) \<noteq> nr then find_inode dev nr is s else Some i)"

fun find_mount :: "nat \<Rightarrow> nat list \<Rightarrow> kstate \<Rightarrow> nat option" where
  "find_mount i [] s = None"
| "find_mount i (j # js) s = (if s_imount (super_block s j) = Some i then Some j else find_mount i js s)"

text \<open>
  The search of \<open>iget\<close>. Each turn to a mounted device follows a different super block
  (\<open>sys_mount\<close> refuses the root of a mounted device), so \<open>NR_SUPER\<close> turns are enough.
\<close>

primrec iget_search :: "nat \<Rightarrow> u32 \<Rightarrow> u32 \<Rightarrow> nat \<Rightarrow> kstate \<Rightarrow> (nat, kstate) outcome" where
  "iget_search 0 dev nr spare s = Hangs"
| "iget_search (Suc n) dev nr spare s = (case find_inode dev nr [0..<NR_INODE] s of
     Some i \<Rightarrow> seq (wait_on_inode i s) (\<lambda>_ s.
       let s = upd_inode i (\<lambda>m. m\<lparr>i_count := i_count m + 1\<rparr>) s in
       if tst (i_mount (inode_table s i)) then
         (case find_mount i [0..<NR_SUPER] s of
            None \<Rightarrow> seq (iput (Some spare) s) (\<lambda>_ s. Ret i s)
          | Some j \<Rightarrow> seq (iput (Some i) s) (\<lambda>_ s.
              iget_search n (ucast (s_dev (super_block s j))) ROOT_INO spare s))
       else seq (iput (Some spare) s) (\<lambda>_ s. Ret i s))
   | None \<Rightarrow>
       let s = upd_inode spare (\<lambda>m. m\<lparr>i_dev := ucast dev, i_num := ucast nr\<rparr>) s
       in seq (read_inode spare s) (\<lambda>_ s. Ret spare s))"

definition iget :: "u32 \<Rightarrow> u32 \<Rightarrow> kstate \<Rightarrow> (nat, kstate) outcome" where
  "iget dev nr s =
    (if dev = 0 then Panic ''iget with dev==0'' else
     seq (get_empty_inode s) (\<lambda>spare s. iget_search (Suc NR_SUPER) dev nr spare s))"

section \<open>New inodes\<close>

definition new_inode :: "u32 \<Rightarrow> kstate \<Rightarrow> (nat option, kstate) outcome" where
  "new_inode dev s = seq (get_empty_inode s) (\<lambda>i s.
     seq (get_super dev s) (\<lambda>r s. case r of
       None \<Rightarrow> Panic ''new_inode with unknown device''
     | Some sb \<Rightarrow>
        (case scan_map (s_imap (super_block s sb)) [0..<8] s of
           None \<Rightarrow> seq (iput (Some i) s) (\<lambda>_ s. Ret None s)
         | Some (k, b, j) \<Rightarrow>
            if unat (s_ninodes (super_block s sb)) < j + k * 8192
            then seq (iput (Some i) s) (\<lambda>_ s. Ret None s)
            else if test_bit j (b_data (bh s b)) then Panic ''new_inode: bit already set''
            else let s = upd_bh b (\<lambda>x. x\<lparr>b_data := put_bit j True (b_data x), b_dirt := 1\<rparr>) s
                 in Ret (Some i) (upd_inode i (\<lambda>m. m\<lparr>i_count := 1, i_nlinks := 1, i_dev := ucast dev,
                      i_uid := t_euid (cur s), i_gid := ucast (t_egid (cur s)), i_dirt := 1,
                      i_num := of_nat (j + k * 8192), i_mtime := CURRENT_TIME s,
                      i_atime := CURRENT_TIME s, i_ctime := CURRENT_TIME s\<rparr>) s))))"

end
