(* ===== verification/Namei.thy ===== *)
theory Namei
  imports Inode
begin

text \<open>
  \<open>fs/namei.c\<close>: permissions, directory entries, path lookup and the system calls that
  change directories. A directory entry is a buffer with an offset into its block: the
  16 bytes there are the inode number and 14 characters of name. Path names are in
  user memory and end at a NUL byte.
\<close>

section \<open>Permissions and names\<close>

definition MAY_EXEC :: u32 where "MAY_EXEC = 1"
definition MAY_WRITE :: u32 where "MAY_WRITE = 2"
definition MAY_READ :: u32 where "MAY_READ = 4"

definition O_ACCMODE :: u32 where "O_ACCMODE = 3"
definition O_WRONLY :: u32 where "O_WRONLY = 1"
definition O_RDWR :: u32 where "O_RDWR = 2"
definition O_CREAT :: u32 where "O_CREAT = 0x40"
definition O_EXCL :: u32 where "O_EXCL = 0x80"
definition O_TRUNC :: u32 where "O_TRUNC = 0x200"
definition O_APPEND :: u32 where "O_APPEND = 0x400"
definition O_NONBLOCK :: u32 where "O_NONBLOCK = 0x800"

definition S_ISVTX :: u16 where "S_ISVTX = 0x200"
definition I_REGULAR :: u32 where "I_REGULAR = 0x8000"
definition I_DIRECTORY :: u32 where "I_DIRECTORY = 0x4000"

text \<open>The fourth entry of the table is the signed character \<open>\377\<close>.\<close>

definition ACC_MODE :: "u32 \<Rightarrow> u32" where
  "ACC_MODE x = [4, 2, 6, - 1] ! unat (x AND O_ACCMODE)"

definition permission :: "nat \<Rightarrow> u32 \<Rightarrow> kstate \<Rightarrow> bool" where
  "permission i wanted s =
    (let m = inode_table s i; mode = (ucast (i_mode m) :: u32) in
     if i_dev m \<noteq> 0 \<and> i_nlinks m = 0 then False else
     let mode = (if t_euid (cur s) = i_uid m then drop_bit 6 mode
                 else if t_egid (cur s) = ucast (i_gid m) then drop_bit 3 mode else mode)
     in mode AND wanted AND 7 = wanted \<or> suser s)"

definition de_inode :: "nat \<Rightarrow> nat \<Rightarrow> kstate \<Rightarrow> u16" where
  "de_inode b off s = get16 (b_data (bh s b)) off"

definition de_name :: "nat \<Rightarrow> nat \<Rightarrow> kstate \<Rightarrow> nat \<Rightarrow> u8" where
  "de_name b off s k = b_data (bh s b) (off + 2 + k)"

definition set_de_inode :: "nat \<Rightarrow> nat \<Rightarrow> u16 \<Rightarrow> kstate \<Rightarrow> kstate" where
  "set_de_inode b off v = upd_bh b (b_data_update (put16 v off))"

definition match_entry :: "u32 \<Rightarrow> u32 \<Rightarrow> nat \<Rightarrow> nat \<Rightarrow> kstate \<Rightarrow> bool" where
  "match_entry len name b off s =
    (de_inode b off s \<noteq> 0 \<and> sle len 14 \<and>
     \<not> (slt len 14 \<and> de_name b off s (unat len) \<noteq> 0) \<and>
     list_all (\<lambda>k. get_fs_byte (name + of_nat k) s = de_name b off s k) [0..<unat len])"

section \<open>Directory entries\<close>

text \<open>
  The block of entry \<open>i\<close> once \<open>de\<close> has run off the end of a block: the current one is
  released, and \<open>bh\<close> is NULL if the next cannot be had.
\<close>

definition next_dir_block :: "(nat \<Rightarrow> u32 \<Rightarrow> kstate \<Rightarrow> (u32, kstate) outcome) \<Rightarrow> nat \<Rightarrow> nat option \<Rightarrow> nat \<Rightarrow> kstate \<Rightarrow> (u32 \<times> nat option, kstate) outcome" where
  "next_dir_block map_block dir buf i s = seq (brelse buf s) (\<lambda>_ s.
     seq (map_block dir (of_nat (i div 64)) s) (\<lambda>block s.
       if block = 0 then Ret (0, None) s
       else seq (bread (inode_dev dir s) block s) (\<lambda>r s. Ret (block, r) s)))"

text \<open>
  The loop variables are \<open>bh\<close>, the offset of \<open>de\<close> and \<open>i\<close>. With \<open>bh == NULL\<close> the test
  \<open>(char *)de >= BLOCK_SIZE+bh->b_data\<close> reads the dword at address 0, the first page
  directory entry; every buffer lies above that value plus 1024, so it holds.
\<close>

definition find_step :: "nat \<Rightarrow> u32 \<Rightarrow> u32 \<Rightarrow> nat \<Rightarrow> nat option \<times> nat \<times> nat \<Rightarrow> kstate \<Rightarrow>
    ((nat option \<times> nat \<times> nat) + (nat \<times> nat) option, kstate) outcome" where
  "find_step dir name len entries v s = (case v of (buf, off, i) \<Rightarrow>
     if entries \<le> i then seq (brelse buf s) (\<lambda>_ s. Ret (Inr None) s)
     else seq (if BLOCK_SIZE \<le> off \<or> buf = None
               then seq (next_dir_block bmap dir buf i s) (\<lambda>r s. Ret (snd r, 0) s) else Ret (buf, off) s) (\<lambda>r s.
       case r of
         (None, _) \<Rightarrow> Ret (Inl (None, off, i + 64)) s
       | (Some b, off) \<Rightarrow>
           if match_entry len name b off s then Ret (Inr (Some (b, off))) s
           else Ret (Inl (Some b, off + 16, i + 1)) s))"

text \<open>The directory is passed by reference and may change; the result has its new value.\<close>

definition dot_dot :: "nat \<Rightarrow> u32 \<Rightarrow> u32 \<Rightarrow> kstate \<Rightarrow> (nat \<times> u32, kstate) outcome" where
  "dot_dot dir name namelen s =
    (if namelen = 2 \<and> get_fs_byte name s = 46 \<and> get_fs_byte (name + 1) s = 46 then
       (if Some dir = t_root (cur s) then Ret (dir, 1) s
        else if ucast (i_num (inode_table s dir)) = ROOT_INO then
          seq (get_super (inode_dev dir s) s) (\<lambda>r s. case r of None \<Rightarrow> Fault
          | Some sb \<Rightarrow> (case s_imount (super_block s sb) of None \<Rightarrow> Ret (dir, namelen) s
             | Some m \<Rightarrow> seq (iput (Some dir) s) (\<lambda>_ s. case s_imount (super_block s sb) of None \<Rightarrow> Fault
                | Some m \<Rightarrow> Ret (m, namelen) (upd_inode m (\<lambda>x. x\<lparr>i_count := i_count x + 1\<rparr>) s))))
        else Ret (dir, namelen) s)
     else Ret (dir, namelen) s)"

definition find_entry :: "nat \<Rightarrow> u32 \<Rightarrow> u32 \<Rightarrow> kstate \<Rightarrow> (nat \<times> (nat \<times> nat) option, kstate) outcome" where
  "find_entry dir name namelen s =
    (let namelen = (if slt 14 namelen then 14 else namelen);
         entries = unat (i_size (inode_table s dir)) div 16
     in if namelen = 0 then Ret (dir, None) s else
     seq (dot_dot dir name namelen s) (\<lambda>r s. case r of (dir, namelen) \<Rightarrow>
       if zone dir 0 s = 0 then Ret (dir, None) s else
       seq (bread (inode_dev dir s) (zone dir 0 s) s) (\<lambda>r s. case r of
         None \<Rightarrow> Ret (dir, None) s
       | Some b \<Rightarrow> seq (loop (find_step dir name namelen entries) (Some b, 0, 0) s) (\<lambda>r s. Ret (dir, r) s))))"

text \<open>\<open>for (i=0; i < NAME_LEN ; i++) de->name[i]=(i<namelen)?get_fs_byte(name+i):0\<close>\<close>

definition put_name :: "nat \<Rightarrow> nat \<Rightarrow> u32 \<Rightarrow> nat \<Rightarrow> kstate \<Rightarrow> kstate" where
  "put_name b off name namelen s = upd_bh b (b_data_update (\<lambda>d j.
     if off + 2 \<le> j \<and> j < off + 2 + NAME_LEN
     then if j - (off + 2) < namelen then get_fs_byte (name + of_nat (j - (off + 2))) s else 0
     else d j)) s"

definition add_step :: "nat \<Rightarrow> u32 \<Rightarrow> nat \<Rightarrow> nat option \<times> nat \<times> nat \<Rightarrow> kstate \<Rightarrow>
    ((nat option \<times> nat \<times> nat) + (nat \<times> nat) option, kstate) outcome" where
  "add_step dir name len v s = (case v of (buf, off, i) \<Rightarrow>
     seq (if BLOCK_SIZE \<le> off \<or> buf = None then next_dir_block create_block dir buf i s
          else Ret (1, buf) s) (\<lambda>r s. case r of (block, r) \<Rightarrow>
       if block = 0 then Ret (Inr None) s
       else case r of
         None \<Rightarrow> Ret (Inl (None, off, i + 64)) s
       | Some b \<Rightarrow>
          let off = (if BLOCK_SIZE \<le> off \<or> buf = None then 0 else off);
              s = (if i_size (inode_table s dir) \<le> of_nat (i * 16)
                   then upd_inode dir (\<lambda>m. m\<lparr>i_size := of_nat ((i + 1) * 16), i_dirt := 1,
                          i_ctime := CURRENT_TIME s\<rparr>) (set_de_inode b off 0 s)
                   else s)
          in if de_inode b off s = 0
             then let s = upd_inode dir (\<lambda>m. m\<lparr>i_mtime := CURRENT_TIME s\<rparr>) s
                  in Ret (Inr (Some (b, off))) (upd_bh b (b_dirt_update (\<lambda>_. 1)) (put_name b off name len s))
             else Ret (Inl (Some b, off + 16, i + 1)) s))"

definition add_entry :: "nat \<Rightarrow> u32 \<Rightarrow> u32 \<Rightarrow> kstate \<Rightarrow> ((nat \<times> nat) option, kstate) outcome" where
  "add_entry dir name namelen s =
    (let namelen = (if slt 14 namelen then 14 else namelen) in
     if namelen = 0 then Ret None s
     else if zone dir 0 s = 0 then Ret None s
     else seq (bread (inode_dev dir s) (zone dir 0 s) s) (\<lambda>r s. case r of
         None \<Rightarrow> Ret None s
       | Some b \<Rightarrow> loop (add_step dir name (unat namelen)) (Some b, 0, 0) s))"

section \<open>Path lookup\<close>

text \<open>The first slash or NUL from \<open>p\<close> on; \<open>None\<close> if user memory holds neither.\<close>

partial_function (option) name_end :: "kstate \<Rightarrow> u32 \<Rightarrow> u32 option" where
  "name_end s p = (if get_fs_byte p s = 0 \<or> get_fs_byte p s = 47 then Some p else name_end s (p + 1))"

definition get_dir_step :: "nat \<times> u32 \<Rightarrow> kstate \<Rightarrow> ((nat \<times> u32) + nat option, kstate) outcome" where
  "get_dir_step v s = (case v of (i, pathname) \<Rightarrow>
     if \<not> S_ISDIR (i_mode (inode_table s i)) \<or> \<not> permission i MAY_EXEC s
     then seq (iput (Some i) s) (\<lambda>_ s. Ret (Inr None) s)
     else case name_end s pathname of None \<Rightarrow> Hangs
     | Some e \<Rightarrow>
        if get_fs_byte e s = 0 then Ret (Inr (Some i)) s else
        seq (find_entry i pathname (e - pathname) s) (\<lambda>r s. case r of
          (i, None) \<Rightarrow> seq (iput (Some i) s) (\<lambda>_ s. Ret (Inr None) s)
        | (i, Some (b, off)) \<Rightarrow>
            let inr = ucast (de_inode b off s); idev = inode_dev i s in
            seq (brelse (Some b) s) (\<lambda>_ s. seq (iput (Some i) s) (\<lambda>_ s.
            seq (iget idev inr s) (\<lambda>j s. Ret (Inl (j, e + 1)) s)))))"

text \<open>\<open>!current->root || !current->root->i_count\<close>\<close>

definition no_inode :: "nat option \<Rightarrow> kstate \<Rightarrow> bool" where
  "no_inode p s = (case p of None \<Rightarrow> True | Some i \<Rightarrow> i_count (inode_table s i) = 0)"

definition get_dir :: "u32 \<Rightarrow> kstate \<Rightarrow> (nat option, kstate) outcome" where
  "get_dir pathname s =
    (if no_inode (t_root (cur s)) s then Panic ''No root inode''
     else if no_inode (t_pwd (cur s)) s then Panic ''No cwd inode''
     else let c = get_fs_byte pathname s;
              i = the (if c = 47 then t_root (cur s) else t_pwd (cur s));
              pathname = (if c = 47 then pathname + 1 else pathname)
          in if c = 0 then Ret None s
             else loop get_dir_step (i, pathname) (upd_inode i (\<lambda>m. m\<lparr>i_count := i_count m + 1\<rparr>) s))"

partial_function (option) last_component :: "kstate \<Rightarrow> u32 \<Rightarrow> u32 \<Rightarrow> (u32 \<times> u32) option" where
  "last_component s p basename =
     (if get_fs_byte p s = 0 then Some (basename, p - basename)
      else last_component s (p + 1) (if get_fs_byte p s = 47 then p + 1 else basename))"

text \<open>The directory of a path, and the name within it with its length.\<close>

definition dir_namei :: "u32 \<Rightarrow> kstate \<Rightarrow> ((nat \<times> u32 \<times> u32) option, kstate) outcome" where
  "dir_namei pathname s = seq (get_dir pathname s) (\<lambda>r s. case r of
     None \<Rightarrow> Ret None s
   | Some dir \<Rightarrow> (case last_component s pathname pathname of
       None \<Rightarrow> Hangs
     | Some (name, namelen) \<Rightarrow> Ret (Some (dir, name, namelen)) s))"

definition namei :: "u32 \<Rightarrow> kstate \<Rightarrow> (nat option, kstate) outcome" where
  "namei pathname s = seq (dir_namei pathname s) (\<lambda>r s. case r of
     None \<Rightarrow> Ret None s
   | Some (dir, name, namelen) \<Rightarrow>
      if namelen = 0 then Ret (Some dir) s else
      seq (find_entry dir name namelen s) (\<lambda>r s. case r of
        (dir, None) \<Rightarrow> seq (iput (Some dir) s) (\<lambda>_ s. Ret None s)
      | (dir, Some (b, off)) \<Rightarrow>
          let inr = ucast (de_inode b off s); dev = inode_dev dir s in
          seq (brelse (Some b) s) (\<lambda>_ s. seq (iput (Some dir) s) (\<lambda>_ s.
          seq (iget dev inr s) (\<lambda>i s.
            Ret (Some i) (upd_inode i (\<lambda>m. m\<lparr>i_atime := CURRENT_TIME s, i_dirt := 1\<rparr>) s))))))"

text \<open>\<open>iput\<close> on every exit: release inodes and a buffer, then return a value.\<close>

definition iput_ret :: "nat \<Rightarrow> 'a \<Rightarrow> kstate \<Rightarrow> ('a, kstate) outcome" where
  "iput_ret i v s = seq (iput (Some i) s) (\<lambda>_ s. Ret v s)"

end
