(* ===== verification/DirCalls.thy ===== *)
theory DirCalls
  imports Namei
begin

text \<open>
  The second half of \<open>fs/namei.c\<close>: \<open>open_namei\<close> and the system calls that create, link and
  remove directory entries. Results are the \<open>int\<close>s the calls return.
\<close>

definition ENOTEMPTY :: u32 where "ENOTEMPTY = 39"

definition iput2_ret :: "nat \<Rightarrow> nat \<Rightarrow> 'a \<Rightarrow> kstate \<Rightarrow> ('a, kstate) outcome" where
  "iput2_ret i j v s = seq (iput (Some i) s) (\<lambda>_ s. iput_ret j v s)"

section \<open>\<open>open_namei\<close>\<close>

definition create_file :: "nat \<Rightarrow> u32 \<Rightarrow> u32 \<Rightarrow> u32 \<Rightarrow> u32 \<Rightarrow> kstate \<Rightarrow> (u32 \<times> nat option, kstate) outcome" where
  "create_file dir name namelen flag mode s =
    (if flag AND O_CREAT = 0 then iput_ret dir (- ENOENT, None) s
     else if \<not> permission dir MAY_WRITE s then iput_ret dir (- EACCES, None) s
     else seq (new_inode (inode_dev dir s) s) (\<lambda>r s. case r of
       None \<Rightarrow> iput_ret dir (- ENOSPC, None) s
     | Some i \<Rightarrow>
        let s = upd_inode i (\<lambda>m. m\<lparr>i_uid := t_euid (cur s), i_mode := ucast mode, i_dirt := 1\<rparr>) s in
        seq (add_entry dir name namelen s) (\<lambda>r s. case r of
          None \<Rightarrow> iput2_ret i dir (- ENOSPC, None) (upd_inode i (\<lambda>m. m\<lparr>i_nlinks := i_nlinks m - 1\<rparr>) s)
        | Some (b, off) \<Rightarrow>
            let s = upd_bh b (b_dirt_update (\<lambda>_. 1)) (set_de_inode b off (i_num (inode_table s i)) s) in
            seq (brelse (Some b) s) (\<lambda>_ s. iput_ret dir (0, Some i) s))))"

definition open_existing :: "nat \<Rightarrow> nat \<Rightarrow> nat \<Rightarrow> u32 \<Rightarrow> kstate \<Rightarrow> (u32 \<times> nat option, kstate) outcome" where
  "open_existing dir b off flag s =
    (let inr = ucast (de_inode b off s); dev = inode_dev dir s in
     seq (brelse (Some b) s) (\<lambda>_ s. seq (iput (Some dir) s) (\<lambda>_ s.
       if flag AND O_EXCL \<noteq> 0 then Ret (- EEXIST, None) s else
       seq (iget dev inr s) (\<lambda>i s.
         if S_ISDIR (i_mode (inode_table s i)) \<and> flag AND O_ACCMODE \<noteq> 0 \<or> \<not> permission i (ACC_MODE flag) s
         then iput_ret i (- EPERM, None) s
         else let s = upd_inode i (\<lambda>m. m\<lparr>i_atime := CURRENT_TIME s\<rparr>) s in
           seq (if flag AND O_TRUNC \<noteq> 0 then truncate_inode i s else Ret () s) (\<lambda>_ s.
             Ret (0, Some i) s)))))"

definition open_namei :: "u32 \<Rightarrow> u32 \<Rightarrow> u32 \<Rightarrow> kstate \<Rightarrow> (u32 \<times> nat option, kstate) outcome" where
  "open_namei pathname flag mode s =
    (let flag = (if flag AND O_TRUNC \<noteq> 0 \<and> flag AND O_ACCMODE = 0 then flag OR O_WRONLY else flag);
         mode = (mode AND (0x1FF AND NOT (ucast (t_umask (cur s))))) OR I_REGULAR
     in seq (dir_namei pathname s) (\<lambda>r s. case r of
          None \<Rightarrow> Ret (- ENOENT, None) s
        | Some (dir, name, namelen) \<Rightarrow>
           if namelen = 0 then
             (if flag AND (O_ACCMODE OR O_CREAT OR O_TRUNC) = 0 then Ret (0, Some dir) s
              else iput_ret dir (- EISDIR, None) s)
           else seq (find_entry dir name namelen s) (\<lambda>r s. case r of
               (dir, None) \<Rightarrow> create_file dir name namelen flag mode s
             | (dir, Some (b, off)) \<Rightarrow> open_existing dir b off flag s)))"

section \<open>Making nodes and directories\<close>

definition sys_mknod :: "u32 \<Rightarrow> u32 \<Rightarrow> u32 \<Rightarrow> kstate \<Rightarrow> (u32, kstate) outcome" where
  "sys_mknod filename mode dev s =
    (if \<not> suser s then Ret (- EPERM) s else
     seq (dir_namei filename s) (\<lambda>r s. case r of
       None \<Rightarrow> Ret (- ENOENT) s
     | Some (dir, name, namelen) \<Rightarrow>
        if namelen = 0 then iput_ret dir (- ENOENT) s
        else if \<not> permission dir MAY_WRITE s then iput_ret dir (- EPERM) s
        else seq (find_entry dir name namelen s) (\<lambda>r s. case r of
          (dir, Some (b, off)) \<Rightarrow> seq (brelse (Some b) s) (\<lambda>_ s. iput_ret dir (- EEXIST) s)
        | (dir, None) \<Rightarrow> seq (new_inode (inode_dev dir s) s) (\<lambda>r s. case r of
            None \<Rightarrow> iput_ret dir (- ENOSPC) s
          | Some i \<Rightarrow>
             let s = upd_inode i (i_mode_update (\<lambda>_. ucast mode)) s;
                 s = (if S_ISBLK (ucast mode) \<or> S_ISCHR (ucast mode) then set_zone i 0 (ucast dev) s else s);
                 s = upd_inode i (\<lambda>m. m\<lparr>i_mtime := CURRENT_TIME s, i_atime := CURRENT_TIME s, i_dirt := 1\<rparr>) s
             in seq (add_entry dir name namelen s) (\<lambda>r s. case r of
                  None \<Rightarrow> seq (iput (Some dir) s) (\<lambda>_ s.
                    iput_ret i (- ENOSPC) (upd_inode i (i_nlinks_update (\<lambda>_. 0)) s))
                | Some (b, off) \<Rightarrow>
                    let s = upd_bh b (b_dirt_update (\<lambda>_. 1)) (set_de_inode b off (i_num (inode_table s i)) s) in
                    seq (iput (Some dir) s) (\<lambda>_ s. seq (iput (Some i) s) (\<lambda>_ s.
                    seq (brelse (Some b) s) (\<lambda>_ s. Ret 0 s))))))))"

text \<open>The entries \<open>.\<close> and \<open>..\<close> at the start of a new directory block.\<close>

definition put_dots :: "nat \<Rightarrow> u16 \<Rightarrow> u16 \<Rightarrow> kstate \<Rightarrow> kstate" where
  "put_dots b self parent = upd_bh b (b_data_update (\<lambda>d.
     (put16 parent 16 ((put16 self 0 d)(2 := 46, 3 := 0)))(18 := 46, 19 := 46, 20 := 0)))"

text \<open>From the point where the new inode has its first block and its entries.\<close>

definition link_dir :: "nat \<Rightarrow> nat \<Rightarrow> u32 \<Rightarrow> u32 \<Rightarrow> kstate \<Rightarrow> (u32, kstate) outcome" where
  "link_dir dir i name namelen s = seq (add_entry dir name namelen s) (\<lambda>r s. case r of
     None \<Rightarrow> seq (iput (Some dir) s) (\<lambda>_ s. seq (free_block (inode_dev i s) (zone i 0 s) s) (\<lambda>_ s.
       iput_ret i (- ENOSPC) (upd_inode i (i_nlinks_update (\<lambda>_. 0)) s)))
   | Some (b, off) \<Rightarrow>
      let s = upd_bh b (b_dirt_update (\<lambda>_. 1)) (set_de_inode b off (i_num (inode_table s i)) s);
          s = upd_inode dir (\<lambda>m. m\<lparr>i_nlinks := i_nlinks m + 1, i_dirt := 1\<rparr>) s
      in seq (iput (Some dir) s) (\<lambda>_ s. seq (iput (Some i) s) (\<lambda>_ s.
         seq (brelse (Some b) s) (\<lambda>_ s. Ret 0 s))))"

definition make_dir :: "nat \<Rightarrow> u32 \<Rightarrow> u32 \<Rightarrow> u32 \<Rightarrow> nat \<Rightarrow> kstate \<Rightarrow> (u32, kstate) outcome" where
  "make_dir dir name namelen mode i s =
    (let s = upd_inode i (\<lambda>m. m\<lparr>i_size := 32, i_dirt := 1, i_mtime := CURRENT_TIME s,
               i_atime := CURRENT_TIME s\<rparr>) s in
     seq (new_block (inode_dev i s) s) (\<lambda>block s.
       let s = set_zone i 0 (ucast block) s in
       if zone i 0 s = 0 then seq (iput (Some dir) s) (\<lambda>_ s.
         iput_ret i (- ENOSPC) (upd_inode i (\<lambda>m. m\<lparr>i_nlinks := i_nlinks m - 1\<rparr>) s))
       else let s = upd_inode i (i_dirt_update (\<lambda>_. 1)) s in
         seq (bread (inode_dev i s) (zone i 0 s) s) (\<lambda>r s. case r of
           None \<Rightarrow> seq (iput (Some dir) s) (\<lambda>_ s. seq (free_block (inode_dev i s) (zone i 0 s) s) (\<lambda>_ s.
             iput_ret i (- ERROR) (upd_inode i (\<lambda>m. m\<lparr>i_nlinks := i_nlinks m - 1\<rparr>) s)))
         | Some b \<Rightarrow>
            let s = put_dots b (i_num (inode_table s i)) (i_num (inode_table s dir)) s;
                s = upd_inode i (i_nlinks_update (\<lambda>_. 2)) s;
                s = upd_bh b (b_dirt_update (\<lambda>_. 1)) s
            in seq (brelse (Some b) s) (\<lambda>_ s.
               let s = upd_inode i (\<lambda>m. m\<lparr>i_mode := ucast (I_DIRECTORY OR
                         (mode AND (0x1FF AND NOT (ucast (t_umask (cur s)))))), i_dirt := 1\<rparr>) s
               in link_dir dir i name namelen s))))"

definition sys_mkdir :: "u32 \<Rightarrow> u32 \<Rightarrow> kstate \<Rightarrow> (u32, kstate) outcome" where
  "sys_mkdir pathname mode s =
    (if \<not> suser s then Ret (- EPERM) s else
     seq (dir_namei pathname s) (\<lambda>r s. case r of
       None \<Rightarrow> Ret (- ENOENT) s
     | Some (dir, name, namelen) \<Rightarrow>
        if namelen = 0 then iput_ret dir (- ENOENT) s
        else if \<not> permission dir MAY_WRITE s then iput_ret dir (- EPERM) s
        else seq (find_entry dir name namelen s) (\<lambda>r s. case r of
          (dir, Some (b, off)) \<Rightarrow> seq (brelse (Some b) s) (\<lambda>_ s. iput_ret dir (- EEXIST) s)
        | (dir, None) \<Rightarrow> seq (new_inode (inode_dev dir s) s) (\<lambda>r s. case r of
            None \<Rightarrow> iput_ret dir (- ENOSPC) s
          | Some i \<Rightarrow> make_dir dir name namelen mode i s))))"

section \<open>Removing directories\<close>

definition name_is_dot :: "nat \<Rightarrow> nat \<Rightarrow> kstate \<Rightarrow> bool" where
  "name_is_dot b off s \<longleftrightarrow> de_name b off s 0 = 46 \<and> de_name b off s 1 = 0"

definition name_is_dot_dot :: "nat \<Rightarrow> nat \<Rightarrow> kstate \<Rightarrow> bool" where
  "name_is_dot_dot b off s \<longleftrightarrow> de_name b off s 0 = 46 \<and> de_name b off s 1 = 46 \<and> de_name b off s 2 = 0"

text \<open>
  The search of \<open>empty_dir\<close>. When a block of the directory is a hole, \<open>bh\<close> and \<open>de\<close> keep
  their values, so the next turn releases the same buffer again.
\<close>

definition empty_step :: "nat \<Rightarrow> nat \<Rightarrow> nat \<times> nat \<times> nat \<Rightarrow> kstate \<Rightarrow> ((nat \<times> nat \<times> nat) + bool, kstate) outcome" where
  "empty_step i len v s = (case v of (b, off, nr) \<Rightarrow>
     if len \<le> nr then seq (brelse (Some b) s) (\<lambda>_ s. Ret (Inr True) s)
     else if BLOCK_SIZE \<le> off then
       seq (brelse (Some b) s) (\<lambda>_ s. seq (bmap i (of_nat (nr div 64)) s) (\<lambda>block s.
         if block = 0 then Ret (Inl (b, off, nr + 64)) s else
         seq (bread (inode_dev i s) block s) (\<lambda>r s. case r of
           None \<Rightarrow> Ret (Inr False) s
         | Some b \<Rightarrow>
            if de_inode b 0 s \<noteq> 0 then seq (brelse (Some b) s) (\<lambda>_ s. Ret (Inr False) s)
            else Ret (Inl (b, 16, nr + 1)) s)))
     else if de_inode b off s \<noteq> 0 then seq (brelse (Some b) s) (\<lambda>_ s. Ret (Inr False) s)
     else Ret (Inl (b, off + 16, nr + 1)) s)"

definition empty_dir :: "nat \<Rightarrow> kstate \<Rightarrow> (bool, kstate) outcome" where
  "empty_dir i s =
    (let len = unat (i_size (inode_table s i)) div 16 in
     if len < 2 \<or> zone i 0 s = 0 then Ret False s else
     seq (bread (inode_dev i s) (zone i 0 s) s) (\<lambda>r s. case r of
       None \<Rightarrow> Ret False s
     | Some b \<Rightarrow>
        if de_inode b 0 s \<noteq> i_num (inode_table s i) \<or> de_inode b 16 s = 0 \<or>
           \<not> name_is_dot b 0 s \<or> \<not> name_is_dot_dot b 16 s
        then Ret False s
        else loop (empty_step i len) (b, 32, 2) s))"

definition release_ret :: "nat \<Rightarrow> nat \<Rightarrow> nat \<Rightarrow> u32 \<Rightarrow> kstate \<Rightarrow> (u32, kstate) outcome" where
  "release_ret i j b v s = seq (iput (Some i) s) (\<lambda>_ s. seq (iput (Some j) s) (\<lambda>_ s.
     seq (brelse (Some b) s) (\<lambda>_ s. Ret v s)))"

definition remove_dir :: "nat \<Rightarrow> nat \<Rightarrow> nat \<Rightarrow> nat \<Rightarrow> kstate \<Rightarrow> (u32, kstate) outcome" where
  "remove_dir dir i b off s =
    (let s = upd_bh b (b_dirt_update (\<lambda>_. 1)) (set_de_inode b off 0 s) in
     seq (brelse (Some b) s) (\<lambda>_ s.
       let s = upd_inode i (\<lambda>m. m\<lparr>i_nlinks := 0, i_dirt := 1\<rparr>) s;
           s = upd_inode dir (\<lambda>m. m\<lparr>i_nlinks := i_nlinks m - 1, i_ctime := CURRENT_TIME s,
                 i_mtime := CURRENT_TIME s, i_dirt := 1\<rparr>) s
       in iput2_ret dir i 0 s))"

definition sys_rmdir :: "u32 \<Rightarrow> kstate \<Rightarrow> (u32, kstate) outcome" where
  "sys_rmdir pathname s =
    (if \<not> suser s then Ret (- EPERM) s else
     seq (dir_namei pathname s) (\<lambda>r s. case r of
       None \<Rightarrow> Ret (- ENOENT) s
     | Some (dir, name, namelen) \<Rightarrow>
        if namelen = 0 then iput_ret dir (- ENOENT) s
        else if \<not> permission dir MAY_WRITE s then iput_ret dir (- EPERM) s
        else seq (find_entry dir name namelen s) (\<lambda>r s. case r of
          (dir, None) \<Rightarrow> iput_ret dir (- ENOENT) s
        | (dir, Some (b, off)) \<Rightarrow>
           seq (iget (inode_dev dir s) (ucast (de_inode b off s)) s) (\<lambda>i s.
             let m = inode_table s i; d = inode_table s dir in
             if i_mode d AND S_ISVTX \<noteq> 0 \<and> t_euid (cur s) \<noteq> 0 \<and> i_uid m \<noteq> t_euid (cur s)
             then release_ret dir i b (- EPERM) s
             else if i_dev m \<noteq> i_dev d \<or> 1 < i_count m then release_ret dir i b (- EPERM) s
             else if i = dir then release_ret i dir b (- EPERM) s
             else if \<not> S_ISDIR (i_mode m) then release_ret i dir b (- ENOTDIR) s
             else seq (empty_dir i s) (\<lambda>empty s.
               if \<not> empty then release_ret i dir b (- ENOTEMPTY) s else remove_dir dir i b off s)))))"

section \<open>Links\<close>

definition remove_link :: "nat \<Rightarrow> nat \<Rightarrow> nat \<Rightarrow> nat \<Rightarrow> kstate \<Rightarrow> (u32, kstate) outcome" where
  "remove_link dir i b off s =
    (let s = (if i_nlinks (inode_table s i) = 0 then upd_inode i (i_nlinks_update (\<lambda>_. 1)) s else s);
         s = upd_bh b (b_dirt_update (\<lambda>_. 1)) (set_de_inode b off 0 s)
     in seq (brelse (Some b) s) (\<lambda>_ s.
       iput2_ret i dir 0 (upd_inode i (\<lambda>m. m\<lparr>i_nlinks := i_nlinks m - 1, i_dirt := 1,
         i_ctime := CURRENT_TIME s\<rparr>) s)))"

definition sys_unlink :: "u32 \<Rightarrow> kstate \<Rightarrow> (u32, kstate) outcome" where
  "sys_unlink pathname s = seq (dir_namei pathname s) (\<lambda>r s. case r of
     None \<Rightarrow> Ret (- ENOENT) s
   | Some (dir, name, namelen) \<Rightarrow>
      if namelen = 0 then iput_ret dir (- ENOENT) s
      else if \<not> permission dir MAY_WRITE s then iput_ret dir (- EPERM) s
      else seq (find_entry dir name namelen s) (\<lambda>r s. case r of
        (dir, None) \<Rightarrow> iput_ret dir (- ENOENT) s
      | (dir, Some (b, off)) \<Rightarrow>
         seq (iget (inode_dev dir s) (ucast (de_inode b off s)) s) (\<lambda>i s.
           let m = inode_table s i; d = inode_table s dir in
           if i_mode d AND S_ISVTX \<noteq> 0 \<and> \<not> suser s \<and> t_euid (cur s) \<noteq> i_uid m \<and> t_euid (cur s) \<noteq> i_uid d
           then release_ret dir i b (- EPERM) s
           else if S_ISDIR (i_mode m) then release_ret i dir b (- EPERM) s
           else remove_link dir i b off s)))"

definition link_entry :: "nat \<Rightarrow> nat \<Rightarrow> u32 \<Rightarrow> u32 \<Rightarrow> kstate \<Rightarrow> (u32, kstate) outcome" where
  "link_entry dir i name namelen s = seq (add_entry dir name namelen s) (\<lambda>r s. case r of
     None \<Rightarrow> iput2_ret dir i (- ENOSPC) s
   | Some (b, off) \<Rightarrow>
      let s = upd_bh b (b_dirt_update (\<lambda>_. 1)) (set_de_inode b off (i_num (inode_table s i)) s) in
      seq (brelse (Some b) s) (\<lambda>_ s. seq (iput (Some dir) s) (\<lambda>_ s.
        iput_ret i 0 (upd_inode i (\<lambda>m. m\<lparr>i_nlinks := i_nlinks m + 1, i_ctime := CURRENT_TIME s,
          i_dirt := 1\<rparr>) s))))"

definition sys_link :: "u32 \<Rightarrow> u32 \<Rightarrow> kstate \<Rightarrow> (u32, kstate) outcome" where
  "sys_link oldname newname s = seq (namei oldname s) (\<lambda>r s. case r of
     None \<Rightarrow> Ret (- ENOENT) s
   | Some i \<Rightarrow>
      if S_ISDIR (i_mode (inode_table s i)) then iput_ret i (- EPERM) s else
      seq (dir_namei newname s) (\<lambda>r s. case r of
        None \<Rightarrow> iput_ret i (- EACCES) s
      | Some (dir, name, namelen) \<Rightarrow>
         if namelen = 0 then iput2_ret i dir (- EPERM) s
         else if i_dev (inode_table s dir) \<noteq> i_dev (inode_table s i) then iput2_ret dir i (- EXDEV) s
         else if \<not> permission dir MAY_WRITE s then iput2_ret dir i (- EACCES) s
         else seq (find_entry dir name namelen s) (\<lambda>r s. case r of
           (dir, Some (b, off)) \<Rightarrow> seq (brelse (Some b) s) (\<lambda>_ s. iput2_ret dir i (- EEXIST) s)
         | (dir, None) \<Rightarrow> link_entry dir i name namelen s)))"

end
