(* ===== verification/Super.thy ===== *)
theory Super
  imports DirCalls Timers Tty
begin

text \<open>
  \<open>fs/super.c\<close>: reading, dropping, mounting and unmounting super blocks, and the check for
  a changed floppy (\<open>fs/buffer.c\<close>, \<open>kernel/blk_drv/floppy.c\<close>).
\<close>

section \<open>Changed disks\<close>

text \<open>
  \<open>floppy_change\<close>: the inner loop waits while another drive is selected, the outer one is
  \<open>goto repeat\<close>. Bit 7 of \<open>FD_DIR\<close>, 0x3f7, tells that the disk was changed.
\<close>

definition select_wait :: "u32 \<Rightarrow> unit \<Rightarrow> kstate \<Rightarrow> (unit + unit, kstate) outcome" where
  "select_wait nr _ s =
    (if ucast (current_DOR (floppy s) AND 3) \<noteq> nr \<and> tst (selected (floppy s))
     then seq (interruptible_sleep_on select_queue s) (\<lambda>_ s. Ret (Inl ()) s) else Ret (Inr ()) s)"

definition change_step :: "u32 \<Rightarrow> unit \<Rightarrow> kstate \<Rightarrow> (unit + bool, kstate) outcome" where
  "change_step nr _ s = seq (floppy_on nr s) (\<lambda>_ s. seq (loop (select_wait nr) () s) (\<lambda>_ s.
     if ucast (current_DOR (floppy s) AND 3) \<noteq> nr then Ret (Inl ()) s else
     case inb 0x3f7 s of (v, s) \<Rightarrow> Ret (Inr (tst (v AND 0x80))) (floppy_off nr s)))"

definition floppy_change :: "u32 \<Rightarrow> kstate \<Rightarrow> (bool, kstate) outcome" where
  "floppy_change nr = loop (change_step nr) ()"

definition put_super :: "u32 \<Rightarrow> kstate \<Rightarrow> (unit, kstate) outcome" where
  "put_super dev s =
    (if dev = ROOT_DEV s then Ret () s else
     seq (get_super dev s) (\<lambda>r s. case r of None \<Rightarrow> Ret () s
     | Some sb \<Rightarrow>
        if s_imount (super_block s sb) \<noteq> None then Ret () s else
        seq (lock_super sb s) (\<lambda>_ s.
        seq (for_each (\<lambda>i s. brelse (s_imap (super_block s sb) i) s) [0..<I_MAP_SLOTS]
               (upd_super sb (s_dev_update (\<lambda>_. 0)) s)) (\<lambda>_ s.
        seq (for_each (\<lambda>i s. brelse (s_zmap (super_block s sb) i) s) [0..<Z_MAP_SLOTS] s) (\<lambda>_ s.
          Ret () (free_super sb s))))))"

definition check_disk_change :: "u32 \<Rightarrow> kstate \<Rightarrow> (unit, kstate) outcome" where
  "check_disk_change dev s =
    (if MAJOR dev \<noteq> 2 then Ret () s else
     seq (floppy_change (dev AND 3) s) (\<lambda>changed s.
       if \<not> changed then Ret () s else
       seq (for_each (\<lambda>i s. if ucast (s_dev (super_block s i)) = dev
              then put_super (ucast (s_dev (super_block s i))) s else Ret () s) [0..<NR_SUPER] s) (\<lambda>_ s.
       seq (invalidate_inodes dev s) (\<lambda>_ s. invalidate_buffers dev s))))"

section \<open>Reading a super block\<close>

text \<open>A \<open>struct d_super_block\<close> at the start of block 1.\<close>

definition get_d_super :: "(nat \<Rightarrow> u8) \<Rightarrow> super_block \<Rightarrow> super_block" where
  "get_d_super d sb = sb\<lparr>s_ninodes := get16 d 0, s_nzones := get16 d 2, s_imap_blocks := get16 d 4,
     s_zmap_blocks := get16 d 6, s_firstdatazone := get16 d 8, s_log_zone_size := get16 d 10,
     s_max_size := get32 d 12, s_magic := get16 d 16\<rparr>"

fun free_slot :: "nat list \<Rightarrow> kstate \<Rightarrow> nat option" where
  "free_slot [] s = None"
| "free_slot (i # is) s = (if s_dev (super_block s i) = 0 then Some i else free_slot is s)"

definition drop_super :: "nat \<Rightarrow> kstate \<Rightarrow> (nat option, kstate) outcome" where
  "drop_super sb s = Ret None (free_super sb (upd_super sb (s_dev_update (\<lambda>_. 0)) s))"

text \<open>
  \<open>for (i=0 ; i < n ; i++) if (map[i] = bread(dev,block)) block++; else break;\<close> An index from
  8 on is outside the map.
\<close>

definition set_map :: "bool \<Rightarrow> nat \<Rightarrow> nat \<Rightarrow> nat option \<Rightarrow> kstate \<Rightarrow> kstate" where
  "set_map inodes sb i v = upd_super sb (\<lambda>x. if inodes then x\<lparr>s_imap := (s_imap x)(i := v)\<rparr>
     else x\<lparr>s_zmap := (s_zmap x)(i := v)\<rparr>)"

definition map_step :: "bool \<Rightarrow> nat \<Rightarrow> nat \<Rightarrow> u32 \<Rightarrow> nat \<times> u32 \<Rightarrow> kstate \<Rightarrow> ((nat \<times> u32) + u32, kstate) outcome" where
  "map_step inodes sb n dev v s = (case v of (i, block) \<Rightarrow>
     if n \<le> i then Ret (Inr block) s
     else if 8 \<le> i then Fault
     else seq (bread dev block s) (\<lambda>r s.
       let s = set_map inodes sb i r s in
       case r of None \<Rightarrow> Ret (Inr block) s | Some _ \<Rightarrow> Ret (Inl (i + 1, block + 1)) s))"

definition mark_first :: "nat option \<Rightarrow> kstate \<Rightarrow> (unit, kstate) outcome" where
  "mark_first b s = (case b of None \<Rightarrow> Fault
     | Some b \<Rightarrow> Ret () (upd_bh b (b_data_update (\<lambda>d. d(0 := d 0 OR 1))) s))"

definition load_maps :: "nat \<Rightarrow> u32 \<Rightarrow> kstate \<Rightarrow> (nat option, kstate) outcome" where
  "load_maps sb dev s =
    (let s = upd_super sb (\<lambda>x. x\<lparr>s_imap := (\<lambda>i. if i < I_MAP_SLOTS then None else s_imap x i),
               s_zmap := (\<lambda>i. if i < Z_MAP_SLOTS then None else s_zmap x i)\<rparr>) s;
         ni = unat (s_imap_blocks (super_block s sb)); nz = unat (s_zmap_blocks (super_block s sb))
     in seq (loop (map_step True sb ni dev) (0, 2) s) (\<lambda>block s.
        seq (loop (map_step False sb nz dev) (0, block) s) (\<lambda>block s.
          if unat block \<noteq> 2 + ni + nz then
            seq (for_each (\<lambda>i s. brelse (s_imap (super_block s sb) i) s) [0..<I_MAP_SLOTS] s) (\<lambda>_ s.
            seq (for_each (\<lambda>i s. brelse (s_zmap (super_block s sb) i) s) [0..<Z_MAP_SLOTS] s) (\<lambda>_ s.
            drop_super sb s))
          else seq (mark_first (s_imap (super_block s sb) 0) s) (\<lambda>_ s.
               seq (mark_first (s_zmap (super_block s sb) 0) s) (\<lambda>_ s.
               Ret (Some sb) (free_super sb s))))))"

definition read_super :: "u32 \<Rightarrow> kstate \<Rightarrow> (nat option, kstate) outcome" where
  "read_super dev s =
    (if dev = 0 then Ret None s else
     seq (check_disk_change dev s) (\<lambda>_ s. seq (get_super dev s) (\<lambda>r s. case r of
       Some sb \<Rightarrow> Ret (Some sb) s
     | None \<Rightarrow> (case free_slot [0..<NR_SUPER] s of None \<Rightarrow> Ret None s
        | Some sb \<Rightarrow>
           let s = upd_super sb (\<lambda>x. x\<lparr>s_dev := ucast dev, s_isup := None, s_imount := None, s_time := 0,
                     s_rd_only := 0, s_dirt := 0\<rparr>) s
           in seq (lock_super sb s) (\<lambda>_ s. seq (bread dev 1 s) (\<lambda>r s. case r of
                None \<Rightarrow> drop_super sb s
              | Some b \<Rightarrow>
                 let s = upd_super sb (get_d_super (b_data (bh s b))) s in
                 seq (brelse (Some b) s) (\<lambda>_ s.
                   if s_magic (super_block s sb) \<noteq> SUPER_MAGIC then drop_super sb s
                   else load_maps sb dev s)))))))"

section \<open>Mounting\<close>

definition inode_in_use :: "u32 \<Rightarrow> kstate \<Rightarrow> bool" where
  "inode_in_use dev s \<longleftrightarrow>
     list_ex (\<lambda>i. inode_dev i s = dev \<and> i_count (inode_table s i) \<noteq> 0) [0..<NR_INODE]"

definition sys_umount :: "u32 \<Rightarrow> kstate \<Rightarrow> (u32, kstate) outcome" where
  "sys_umount dev_name s = seq (namei dev_name s) (\<lambda>r s. case r of None \<Rightarrow> Ret (- ENOENT) s
   | Some i \<Rightarrow>
      let dev = zone i 0 s in
      if \<not> S_ISBLK (i_mode (inode_table s i)) then iput_ret i (- ENOTBLK) s else
      seq (iput (Some i) s) (\<lambda>_ s.
        if dev = ROOT_DEV s then Ret (- EBUSY) s else
        seq (get_super dev s) (\<lambda>r s. case r of None \<Rightarrow> Ret (- ENOENT) s
        | Some sb \<Rightarrow> (case s_imount (super_block s sb) of None \<Rightarrow> Ret (- ENOENT) s
          | Some m \<Rightarrow>
             if inode_in_use dev s then Ret (- EBUSY) s else
             seq (iput (Some m) (upd_inode m (i_mount_update (\<lambda>_. 0)) s)) (\<lambda>_ s.
             let s = upd_super sb (s_imount_update (\<lambda>_. None)) s in
             seq (iput (s_isup (super_block s sb)) s) (\<lambda>_ s.
             let s = upd_super sb (s_isup_update (\<lambda>_. None)) s in
             seq (put_super dev s) (\<lambda>_ s. seq (sync_dev dev s) (\<lambda>_ s. Ret 0 s))))))))"

definition mount_on :: "nat \<Rightarrow> u32 \<Rightarrow> kstate \<Rightarrow> (u32, kstate) outcome" where
  "mount_on dir dev s =
    (let m = inode_table s dir in
     if i_count m \<noteq> 1 \<or> ucast (i_num m) = ROOT_INO then iput_ret dir (- EBUSY) s
     else if \<not> S_ISDIR (i_mode m) then iput_ret dir (- EPERM) s
     else seq (read_super dev s) (\<lambda>r s. case r of None \<Rightarrow> iput_ret dir (- EBUSY) s
       | Some sb \<Rightarrow>
          if s_imount (super_block s sb) \<noteq> None then iput_ret dir (- EBUSY) s
          else if tst (i_mount (inode_table s dir)) then iput_ret dir (- EPERM) s
          else Ret 0 (upd_inode dir (\<lambda>x. x\<lparr>i_mount := 1, i_dirt := 1\<rparr>)
                 (upd_super sb (s_imount_update (\<lambda>_. Some dir)) s))))"

definition sys_mount :: "u32 \<Rightarrow> u32 \<Rightarrow> u32 \<Rightarrow> kstate \<Rightarrow> (u32, kstate) outcome" where
  "sys_mount dev_name dir_name rw_flag s = seq (namei dev_name s) (\<lambda>r s. case r of
     None \<Rightarrow> Ret (- ENOENT) s
   | Some i \<Rightarrow>
      let dev = zone i 0 s in
      if \<not> S_ISBLK (i_mode (inode_table s i)) then iput_ret i (- EPERM) s else
      seq (iput (Some i) s) (\<lambda>_ s. seq (namei dir_name s) (\<lambda>r s. case r of
        None \<Rightarrow> Ret (- ENOENT) s
      | Some dir \<Rightarrow> mount_on dir dev s)))"

section \<open>The root file system\<close>

text \<open>
  The counts \<open>mount_root\<close> prints: it reads bit \<open>i & 8191\<close> of the map block \<open>i >> 13\<close> for every
  \<open>i\<close> below \<open>n\<close>, and a map block that is not there is a NULL pointer.
\<close>

primrec count_clear :: "(nat \<Rightarrow> nat option) \<Rightarrow> nat \<Rightarrow> kstate \<Rightarrow> (nat, kstate) outcome" where
  "count_clear m 0 s = Ret 0 s"
| "count_clear m (Suc i) s = (case m (i div 8192) of None \<Rightarrow> Fault
     | Some b \<Rightarrow> seq (count_clear m i s) (\<lambda>n s.
         Ret (if test_bit (i mod 8192) (b_data (bh s b)) then n else n + 1) s))"

definition reset_tables :: "kstate \<Rightarrow> kstate" where
  "reset_tables s = s\<lparr>file_table := (\<lambda>i. if i < NR_FILE then (file_table s i)\<lparr>f_count := 0\<rparr> else file_table s i),
     super_block := (\<lambda>i. if i < NR_SUPER then (super_block s i)\<lparr>s_dev := 0, s_lock := 0, s_wait := None\<rparr>
        else super_block s i)\<rparr>"

text \<open>The result is the pair of numbers printed: free blocks and free inodes.\<close>

definition mount_root :: "kstate \<Rightarrow> (nat \<times> nat, kstate) outcome" where
  "mount_root s =
     seq (if MAJOR (ROOT_DEV s) = 2 then wait_for_keypress s else Ret () s) (\<lambda>_ s.
     seq (read_super (ROOT_DEV s) (reset_tables s)) (\<lambda>r s. case r of
       None \<Rightarrow> Panic ''Unable to mount root''
     | Some p \<Rightarrow> seq (iget (ROOT_DEV s) ROOT_INO s) (\<lambda>mi s.
        let s = upd_inode mi (\<lambda>m. m\<lparr>i_count := i_count m + 3\<rparr>) s;
            s = upd_super p (\<lambda>x. x\<lparr>s_isup := Some mi, s_imount := Some mi\<rparr>) s;
            s = upd_cur (\<lambda>t. t\<lparr>t_pwd := Some mi, t_root := Some mi\<rparr>) s
        in seq (count_clear (s_zmap (super_block s p)) (unat (s_nzones (super_block s p))) s) (\<lambda>blocks s.
           seq (count_clear (s_imap (super_block s p)) (unat (s_ninodes (super_block s p)) + 1) s) (\<lambda>inodes s.
             Ret (blocks, inodes) s)))))"

end
