(* ===== verification/FileData.thy ===== *)
theory FileData
  imports Inode
begin

text \<open>
  Reading and writing the data of files: \<open>fs/file_dev.c\<close> for regular files and directories,
  \<open>fs/block_dev.c\<close> for block devices. \<open>f\<close> is the index of the open file, whose \<open>f_pos\<close> the
  calls advance.
\<close>

section \<open>Copying between a block and user memory\<close>

text \<open>\<open>while (chars-->0) put_fs_byte(*(p++),buf++)\<close>, the bytes at \<open>p\<close> being \<open>d 0\<close>, \<open>d 1\<close>, ...\<close>

primrec put_fs_bytes :: "nat \<Rightarrow> (nat \<Rightarrow> u8) \<Rightarrow> u32 \<Rightarrow> kstate \<Rightarrow> kstate" where
  "put_fs_bytes 0 d buf s = s"
| "put_fs_bytes (Suc n) d buf s = put_fs_bytes n (\<lambda>k. d (Suc k)) (buf + 1) (put_fs_byte (d 0) buf s)"

text \<open>\<open>while (chars-->0) *(p++) = get_fs_byte(buf++)\<close>, \<open>p\<close> being at offset \<open>k\<close> of the block \<open>d\<close>.\<close>

primrec get_fs_bytes :: "nat \<Rightarrow> nat \<Rightarrow> u32 \<Rightarrow> kstate \<Rightarrow> (nat \<Rightarrow> u8) \<Rightarrow> nat \<Rightarrow> u8" where
  "get_fs_bytes 0 k buf s d = d"
| "get_fs_bytes (Suc n) k buf s d = get_fs_bytes n (Suc k) (buf + 1) s (d(k := get_fs_byte buf s))"

text \<open>\<open>p = k + bh->b_data\<close> and the copy of \<open>chars\<close> bytes, which must stay inside the block.\<close>

definition block_to_user :: "nat \<Rightarrow> u32 \<Rightarrow> u32 \<Rightarrow> u32 \<Rightarrow> kstate \<Rightarrow> (unit, kstate) outcome" where
  "block_to_user b k chars buf s =
    (if BLOCK_SIZE < unat k + unat chars then Fault
     else Ret () (put_fs_bytes (unat chars) (\<lambda>j. b_data (bh s b) (unat k + j)) buf s))"

definition user_to_block :: "nat \<Rightarrow> u32 \<Rightarrow> u32 \<Rightarrow> u32 \<Rightarrow> kstate \<Rightarrow> (unit, kstate) outcome" where
  "user_to_block b k chars buf s =
    (if BLOCK_SIZE < unat k + unat chars then Fault
     else Ret () (upd_bh b (b_data_update (get_fs_bytes (unat chars) (unat k) buf s)) s))"

definition smin :: "u32 \<Rightarrow> u32 \<Rightarrow> u32" where
  "smin a b = (if slt a b then a else b)"

section \<open>Regular files\<close>

text \<open>One turn of \<open>while (left)\<close>; the result is \<open>left\<close>.\<close>

definition file_read_step :: "nat \<Rightarrow> nat \<Rightarrow> u32 \<times> u32 \<Rightarrow> kstate \<Rightarrow> ((u32 \<times> u32) + u32, kstate) outcome" where
  "file_read_step i f v s = (case v of (left, buf) \<Rightarrow>
     if left = 0 then Ret (Inr left) s else
     seq (bmap i (cdiv (f_pos (file_table s f)) 1024) s) (\<lambda>nr s.
     seq (if tst nr
          then seq (bread (inode_dev i s) nr s) (\<lambda>r s. case r of
                 None \<Rightarrow> Ret None s | Some b \<Rightarrow> Ret (Some (Some b)) s)
          else Ret (Some None) s) (\<lambda>r s. case r of
       None \<Rightarrow> Ret (Inr left) s
     | Some r \<Rightarrow>
         let nr = cmod (f_pos (file_table s f)) 1024; chars = smin (1024 - nr) left;
             s = upd_file f (\<lambda>x. x\<lparr>f_pos := f_pos x + chars\<rparr>) s; left = left - chars in
         seq (case r of
                Some b \<Rightarrow> seq (block_to_user b nr chars buf s) (\<lambda>_ s. brelse (Some b) s)
              | None \<Rightarrow> Ret () (put_fs_bytes (unat chars) (\<lambda>_. 0) buf s))
           (\<lambda>_ s. Ret (Inl (left, buf + chars)) s))))"

definition file_read :: "nat \<Rightarrow> nat \<Rightarrow> u32 \<Rightarrow> u32 \<Rightarrow> kstate \<Rightarrow> (u32, kstate) outcome" where
  "file_read i f buf count s =
    (if sle count 0 then Ret 0 s else
     seq (loop (file_read_step i f) (count, buf) s) (\<lambda>left s.
       Ret (if tst (count - left) then count - left else - ERROR)
         (upd_inode i (i_atime_update (\<lambda>_. CURRENT_TIME s)) s)))"

text \<open>One turn of \<open>while (i<count)\<close>, with \<open>pos\<close>, \<open>i\<close> and \<open>buf\<close>; the result is \<open>pos\<close> and \<open>i\<close>.\<close>

definition file_write_step ::
    "nat \<Rightarrow> u32 \<Rightarrow> u32 \<times> u32 \<times> u32 \<Rightarrow> kstate \<Rightarrow> ((u32 \<times> u32 \<times> u32) + u32 \<times> u32, kstate) outcome" where
  "file_write_step inode count v s = (case v of (pos, i, buf) \<Rightarrow>
     if \<not> slt i count then Ret (Inr (pos, i)) s else
     seq (create_block inode (cdiv pos 1024) s) (\<lambda>block s.
     if block = 0 then Ret (Inr (pos, i)) s else
     seq (bread (inode_dev inode s) block s) (\<lambda>r s. case r of
       None \<Rightarrow> Ret (Inr (pos, i)) s
     | Some b \<Rightarrow>
         let k = cmod pos 1024; s = upd_bh b (b_dirt_update (\<lambda>_. 1)) s;
             c = 1024 - k; c = (if slt (count - i) c then count - i else c); pos = pos + c;
             s = (if i_size (inode_table s inode) < pos
                  then upd_inode inode (\<lambda>m. m\<lparr>i_size := pos, i_dirt := 1\<rparr>) s else s)
         in seq (user_to_block b k c buf s) (\<lambda>_ s.
            seq (brelse (Some b) s) (\<lambda>_ s. Ret (Inl (pos, i + c, buf + c)) s)))))"

definition F_APPEND :: u16 where "F_APPEND = 0x400"

definition file_write :: "nat \<Rightarrow> nat \<Rightarrow> u32 \<Rightarrow> u32 \<Rightarrow> kstate \<Rightarrow> (u32, kstate) outcome" where
  "file_write inode f buf count s =
    (let append = tst (f_flags (file_table s f) AND F_APPEND);
         pos = (if append then i_size (inode_table s inode) else f_pos (file_table s f))
     in seq (loop (file_write_step inode count) (pos, 0, buf) s) (\<lambda>r s. case r of (pos, i) \<Rightarrow>
          let s = upd_inode inode (i_mtime_update (\<lambda>_. CURRENT_TIME s)) s;
              s = (if append then s
                   else upd_inode inode (i_ctime_update (\<lambda>_. CURRENT_TIME s))
                          (upd_file f (f_pos_update (\<lambda>_. pos)) s))
          in Ret (if tst i then i else - 1) s))"

section \<open>Block devices\<close>

text \<open>
  One turn of \<open>while (count>0)\<close> with \<open>block\<close>, \<open>offset\<close>, \<open>buf\<close>, \<open>count\<close> and what is written so
  far. A whole block is taken with \<open>getblk\<close>, which does not read it.
\<close>

type_synonym block_loop = "u32 \<times> u32 \<times> u32 \<times> u32 \<times> u32"

definition block_write_step ::
    "u32 \<Rightarrow> nat \<Rightarrow> block_loop \<Rightarrow> kstate \<Rightarrow> (block_loop + u32, kstate) outcome" where
  "block_write_step dev f v s = (case v of (block, offset, buf, count, written) \<Rightarrow>
     if \<not> slt 0 count then Ret (Inr written) s else
     let chars = 1024 - offset; chars = (if slt count chars then count else chars) in
     seq (if chars = 1024 then seq (getblk dev block s) (\<lambda>b s. Ret (Some b) s)
          else breada dev block [block + 1, block + 2] s) (\<lambda>r s.
     let block = block + 1 in case r of
       None \<Rightarrow> Ret (Inr (if tst written then written else - EIO)) s
     | Some b \<Rightarrow>
         let s = upd_file f (\<lambda>x. x\<lparr>f_pos := f_pos x + chars\<rparr>) s in
         seq (user_to_block b offset chars buf s) (\<lambda>_ s.
         seq (brelse (Some b) (upd_bh b (b_dirt_update (\<lambda>_. 1)) s)) (\<lambda>_ s.
           Ret (Inl (block, 0, buf + chars, count - chars, written + chars)) s))))"

definition block_write :: "u32 \<Rightarrow> nat \<Rightarrow> u32 \<Rightarrow> u32 \<Rightarrow> kstate \<Rightarrow> (u32, kstate) outcome" where
  "block_write dev f buf count s = (let pos = f_pos (file_table s f) in
     loop (block_write_step dev f) (signed_drop_bit 10 pos, pos AND 1023, buf, count, 0) s)"

definition block_read_step ::
    "u32 \<Rightarrow> nat \<Rightarrow> block_loop \<Rightarrow> kstate \<Rightarrow> (block_loop + u32, kstate) outcome" where
  "block_read_step dev f v s = (case v of (block, offset, buf, count, done) \<Rightarrow>
     if \<not> slt 0 count then Ret (Inr done) s else
     let chars = 1024 - offset; chars = (if slt count chars then count else chars) in
     seq (breada dev block [block + 1, block + 2] s) (\<lambda>r s. case r of
       None \<Rightarrow> Ret (Inr (if tst done then done else - EIO)) s
     | Some b \<Rightarrow>
         let s = upd_file f (\<lambda>x. x\<lparr>f_pos := f_pos x + chars\<rparr>) s in
         seq (block_to_user b offset chars buf s) (\<lambda>_ s.
         seq (brelse (Some b) s) (\<lambda>_ s.
           Ret (Inl (block + 1, 0, buf + chars, count - chars, done + chars)) s))))"

definition block_read :: "u32 \<Rightarrow> nat \<Rightarrow> u32 \<Rightarrow> u32 \<Rightarrow> kstate \<Rightarrow> (u32, kstate) outcome" where
  "block_read dev f buf count s = (let pos = f_pos (file_table s f) in
     loop (block_read_step dev f) (drop_bit 10 pos, pos AND 1023, buf, count, 0) s)"

end
