(* ===== verification/Pipe.thy ===== *)
theory Pipe
  imports FileData
begin

text \<open>
  Pipes, \<open>fs/pipe.c\<close>. The buffer of a pipe is the page whose address is in \<open>i_size\<close> of its
  inode; head and tail are in the first two zones. All but one of the 4096 bytes are used.
\<close>

section \<open>Head and tail\<close>

definition PIPE_HEAD :: "m_inode \<Rightarrow> u32" where "PIPE_HEAD m = ucast (i_zone m 0)"
definition PIPE_TAIL :: "m_inode \<Rightarrow> u32" where "PIPE_TAIL m = ucast (i_zone m 1)"
definition PIPE_SIZE :: "m_inode \<Rightarrow> u32" where "PIPE_SIZE m = (PIPE_HEAD m - PIPE_TAIL m) AND 4095"

text \<open>\<open>PIPE_TAIL(*inode) += chars; PIPE_TAIL(*inode) &= (PAGE_SIZE-1)\<close>, and the same for the head.\<close>

definition advance :: "nat \<Rightarrow> nat \<Rightarrow> u32 \<Rightarrow> kstate \<Rightarrow> kstate" where
  "advance i n chars s = set_zone i n ((i_zone (inode_table s i) n + ucast chars) AND 4095) s"

section \<open>Copying\<close>

primrec pipe_out :: "nat \<Rightarrow> u32 \<Rightarrow> u32 \<Rightarrow> kstate \<Rightarrow> kstate" where
  "pipe_out 0 a buf s = s"
| "pipe_out (Suc n) a buf s = pipe_out n (a + 1) (buf + 1) (put_fs_byte (phys_byte a (mm s)) buf s)"

primrec pipe_in :: "nat \<Rightarrow> u32 \<Rightarrow> u32 \<Rightarrow> kstate \<Rightarrow> kstate" where
  "pipe_in 0 a buf s = s"
| "pipe_in (Suc n) a buf s = pipe_in n (a + 1) (buf + 1) (s\<lparr>mm := poke_byte (get_fs_byte buf s) a (mm s)\<rparr>)"

section \<open>Reading and writing\<close>

text \<open>
  \<open>while (!(size=...))\<close>: wake the other side up and sleep, unless there is no other side.
  The result is the size, or \<open>None\<close> for the \<open>return\<close>.
\<close>

definition pipe_wait :: "(m_inode \<Rightarrow> u32) \<Rightarrow> nat \<Rightarrow> kstate \<Rightarrow> (u32 option, kstate) outcome" where
  "pipe_wait room i = loop (\<lambda>_ s.
     let sz = room (inode_table s i) in
     if sz \<noteq> 0 then Ret (Inr (Some sz)) s else
     let s = wake_up (inode_queue i) s in
     if i_count (inode_table s i) \<noteq> 2 then Ret (Inr None) s
     else seq (sleep_on (inode_queue i) s) (\<lambda>_ s. Ret (Inl ()) s)) ()"

definition read_pipe_step :: "nat \<Rightarrow> u32 \<times> u32 \<times> u32 \<Rightarrow> kstate \<Rightarrow> ((u32 \<times> u32 \<times> u32) + bool \<times> u32, kstate) outcome" where
  "read_pipe_step i v s = (case v of (count, done, buf) \<Rightarrow>
     if \<not> slt 0 count then Ret (Inr (True, done)) s else
     seq (pipe_wait PIPE_SIZE i s) (\<lambda>r s. case r of
       None \<Rightarrow> Ret (Inr (False, done)) s
     | Some sz \<Rightarrow>
         let m = inode_table s i; chars = 4096 - PIPE_TAIL m;
             chars = (if slt count chars then count else chars);
             chars = (if slt sz chars then sz else chars);
             tail = PIPE_TAIL m; s = advance i 1 chars s
         in Ret (Inl (count - chars, done + chars, buf + chars))
              (pipe_out (unat chars) (i_size m + tail) buf s)))"

definition read_pipe :: "nat \<Rightarrow> u32 \<Rightarrow> u32 \<Rightarrow> kstate \<Rightarrow> (u32, kstate) outcome" where
  "read_pipe i buf count s = seq (loop (read_pipe_step i) (count, 0, buf) s) (\<lambda>r s. case r of (ended, done) \<Rightarrow>
     Ret done (if ended then wake_up (inode_queue i) s else s))"

definition PIPE_ROOM :: "m_inode \<Rightarrow> u32" where "PIPE_ROOM m = 4095 - PIPE_SIZE m"

definition write_pipe_step :: "nat \<Rightarrow> u32 \<times> u32 \<times> u32 \<Rightarrow> kstate \<Rightarrow> ((u32 \<times> u32 \<times> u32) + bool \<times> u32, kstate) outcome" where
  "write_pipe_step i v s = (case v of (count, written, buf) \<Rightarrow>
     if \<not> slt 0 count then Ret (Inr (True, written)) s else
     seq (pipe_wait PIPE_ROOM i s) (\<lambda>r s. case r of
       None \<Rightarrow> Ret (Inr (False, if tst written then written else - 1))
                 (upd_cur (\<lambda>t. t\<lparr>t_signal := t_signal t OR sig_bit SIGPIPE\<rparr>) s)
     | Some sz \<Rightarrow>
         let m = inode_table s i; chars = 4096 - PIPE_HEAD m;
             chars = (if slt count chars then count else chars);
             chars = (if slt sz chars then sz else chars);
             hea = PIPE_HEAD m; s = advance i 0 chars s
         in Ret (Inl (count - chars, written + chars, buf + chars))
              (pipe_in (unat chars) (i_size m + hea) buf s)))"

definition write_pipe :: "nat \<Rightarrow> u32 \<Rightarrow> u32 \<Rightarrow> kstate \<Rightarrow> (u32, kstate) outcome" where
  "write_pipe i buf count s = seq (loop (write_pipe_step i) (count, 0, buf) s) (\<lambda>r s. case r of (ended, written) \<Rightarrow>
     Ret written (if ended then wake_up (inode_queue i) s else s))"

section \<open>\<open>sys_pipe\<close>\<close>

text \<open>The first two free files, which the loop counts a reference for, and the first two free descriptors.\<close>

fun free_files :: "nat \<Rightarrow> nat list \<Rightarrow> kstate \<Rightarrow> nat list" where
  "free_files 0 is s = []"
| "free_files j [] s = []"
| "free_files (Suc j) (i # is) s =
     (if f_count (file_table s i) = 0 then i # free_files j is s else free_files (Suc j) is s)"

fun free_fds :: "nat \<Rightarrow> nat list \<Rightarrow> kstate \<Rightarrow> nat list" where
  "free_fds 0 is s = []"
| "free_fds j [] s = []"
| "free_fds (Suc j) (i # is) s =
     (if t_filp (cur s) i = None then i # free_fds j is s else free_fds (Suc j) is s)"

definition set_filp :: "nat \<Rightarrow> nat option \<Rightarrow> kstate \<Rightarrow> kstate" where
  "set_filp fd f = upd_cur (\<lambda>t. t\<lparr>t_filp := (t_filp t)(fd := f)\<rparr>)"

definition set_f_count :: "u16 \<Rightarrow> nat \<Rightarrow> kstate \<Rightarrow> kstate" where
  "set_f_count n f = upd_file f (f_count_update (\<lambda>_. n))"

definition sys_pipe :: "u32 \<Rightarrow> kstate \<Rightarrow> (u32, kstate) outcome" where
  "sys_pipe fildes s = (case free_files 2 [0..<NR_FILE] s of
     [f0, f1] \<Rightarrow>
       (let s = set_f_count 1 f1 (set_f_count 1 f0 s) in
        case free_fds 2 [0..<NR_OPEN] s of
          [fd0, fd1] \<Rightarrow>
            seq (get_pipe_inode (set_filp fd1 (Some f1) (set_filp fd0 (Some f0) s))) (\<lambda>r s. case r of
              None \<Rightarrow> Ret (- 1) (set_f_count 0 f1 (set_f_count 0 f0 (set_filp fd1 None (set_filp fd0 None s))))
            | Some i \<Rightarrow>
                let s = upd_file f0 (\<lambda>x. x\<lparr>f_inode := Some i, f_pos := 0, f_mode := 1\<rparr>) s;
                    s = upd_file f1 (\<lambda>x. x\<lparr>f_inode := Some i, f_pos := 0, f_mode := 2\<rparr>) s
                in Ret 0 (put_fs_long (of_nat fd1) (fildes + 4) (put_fs_long (of_nat fd0) fildes s)))
        | _ \<Rightarrow> Ret (- 1) (set_f_count 0 f1 (set_f_count 0 f0 s)))
   | _ \<Rightarrow> Ret (- 1) s)"

end
