(* ===== verification/CharDev.thy ===== *)
theory CharDev
  imports FileData Tty Segments
begin

text \<open>
  Character devices: \<open>fs/char_dev.c\<close>, \<open>kernel/chr_drv/tty_ioctl.c\<close> and the set-up of the serial
  ports, \<open>kernel/chr_drv/serial.c\<close>. \<open>tty_table\<close> has three entries.
\<close>

section \<open>Reading and writing\<close>

definition rw_ttyx :: "u32 \<Rightarrow> u32 \<Rightarrow> u32 \<Rightarrow> u32 \<Rightarrow> kstate \<Rightarrow> (u32, kstate) outcome" where
  "rw_ttyx rw minor buf count s = (if rw = READ then tty_read minor buf count s else tty_write minor buf count s)"

definition rw_tty :: "u32 \<Rightarrow> u32 \<Rightarrow> u32 \<Rightarrow> u32 \<Rightarrow> kstate \<Rightarrow> (u32, kstate) outcome" where
  "rw_tty rw minor buf count s =
    (if slt (t_tty (cur s)) 0 then Ret (- EPERM) s else rw_ttyx rw (t_tty (cur s)) buf count s)"

text \<open>One turn of \<open>while (count-->0 && i<65536)\<close>; the result is \<open>i\<close>.\<close>

definition port_step :: "u32 \<Rightarrow> u32 \<times> u32 \<times> u32 \<Rightarrow> kstate \<Rightarrow> ((u32 \<times> u32 \<times> u32) + u32, kstate) outcome" where
  "port_step rw v s = (case v of (count, i, buf) \<Rightarrow>
     if slt 0 count \<and> slt i 65536
     then Ret (Inl (count - 1, i + 1, buf + 1))
       (if rw = READ then (case inb (ucast i) s of (c, s) \<Rightarrow> put_fs_byte c buf s)
        else outb (get_fs_byte buf s) (ucast i) s)
     else Ret (Inr i) s)"

definition rw_port :: "u32 \<Rightarrow> u32 \<Rightarrow> u32 \<Rightarrow> nat \<Rightarrow> kstate \<Rightarrow> (u32, kstate) outcome" where
  "rw_port rw buf count f s = seq (loop (port_step rw) (count, f_pos (file_table s f), buf) s) (\<lambda>i s.
     let i = i - f_pos (file_table s f)
     in Ret i (upd_file f (\<lambda>x. x\<lparr>f_pos := f_pos x + i\<rparr>) s))"

text \<open>\<open>rw_ram\<close>, \<open>rw_mem\<close> and \<open>rw_kmem\<close> (minors 0 to 2) only return \<open>-EIO\<close>.\<close>

definition rw_memory :: "u32 \<Rightarrow> u32 \<Rightarrow> u32 \<Rightarrow> u32 \<Rightarrow> nat \<Rightarrow> kstate \<Rightarrow> (u32, kstate) outcome" where
  "rw_memory rw minor buf count f s =
    (if minor = 0 \<or> minor = 1 \<or> minor = 2 then Ret (- EIO) s
     else if minor = 3 then Ret (if rw = READ then 0 else count) s
     else if minor = 4 then rw_port rw buf count f s
     else Ret (- EIO) s)"

definition NRDEVS :: u32 where "NRDEVS = 8"

text \<open>\<open>f\<close> is the open file whose \<open>f_pos\<close> is passed; \<open>crw_table\<close> is the last case distinction.\<close>

definition rw_char :: "u32 \<Rightarrow> u32 \<Rightarrow> u32 \<Rightarrow> u32 \<Rightarrow> nat \<Rightarrow> kstate \<Rightarrow> (u32, kstate) outcome" where
  "rw_char rw dev buf count f s =
    (if NRDEVS \<le> MAJOR dev then Ret (- ENODEV) s
     else if MAJOR dev = 1 then rw_memory rw (MINOR dev) buf count f s
     else if MAJOR dev = 4 then rw_ttyx rw (MINOR dev) buf count s
     else if MAJOR dev = 5 then rw_tty rw (MINOR dev) buf count s
     else Ret (- ENODEV) s)"

section \<open>\<open>tty_ioctl.c\<close>\<close>

definition quotient :: "nat \<Rightarrow> u16" where
  "quotient i = [0, 2304, 1536, 1047, 857, 768, 576, 384, 192, 96, 64, 48, 24, 12, 6, 3] ! i"

definition CBAUD :: u32 where "CBAUD = 0xF"

definition change_speed :: "nat \<Rightarrow> kstate \<Rightarrow> kstate" where
  "change_speed ch s =
    (let port = ucast (q_data (read_q (tt ch s))); quot = quotient (unat (c_cflag (tt_termios (tt ch s)) AND CBAUD)) in
     if port = 0 then s else
     outb 0x03 (port + 3) (outb (ucast (drop_bit 8 quot)) (port + 1) (outb (ucast (quot AND 0xff)) port
       (outb 0x80 (port + 3) s))))"

definition flush :: "tty_queue \<Rightarrow> tty_queue" where
  "flush q = q\<lparr>q_head := q_tail q\<rparr>"

text \<open>
  \<open>struct termios\<close> in memory: four words, the line discipline, 17 control characters and two
  bytes of padding, which are entries 17 and 18 of \<open>c_cc\<close> here.
\<close>

definition termios_byte :: "termios \<Rightarrow> nat \<Rightarrow> u8" where
  "termios_byte t i =
    (if i < 16 then ucast (drop_bit (8 * (i mod 4)) ([c_iflag t, c_oflag t, c_cflag t, c_lflag t] ! (i div 4)))
     else if i = 16 then c_line t else c_cc t (i - 17))"

definition termios_of :: "(nat \<Rightarrow> u8) \<Rightarrow> termios" where
  "termios_of d = \<lparr>c_iflag = get32 d 0, c_oflag = get32 d 4, c_cflag = get32 d 8, c_lflag = get32 d 12,
     c_line = d 16, c_cc = (\<lambda>k. d (17 + k))\<rparr>"

definition get_termios :: "nat \<Rightarrow> u32 \<Rightarrow> kstate \<Rightarrow> (u32, kstate) outcome" where
  "get_termios ch a s = seq (verify_area a 36 s) (\<lambda>_ s.
     Ret 0 (put_fs_bytes 36 (termios_byte (tt_termios (tt ch s))) a s))"

definition set_termios :: "nat \<Rightarrow> u32 \<Rightarrow> kstate \<Rightarrow> (u32, kstate) outcome" where
  "set_termios ch a s = Ret 0 (change_speed ch
     (upd_tty ch (tt_termios_update (\<lambda>t. termios_of (\<lambda>k.
        if k < 36 then get_fs_byte (a + of_nat k) s else termios_byte t k))) s))"

text \<open>
  \<open>struct termio\<close>: four 16-bit words, the line discipline, 8 control characters and a byte of
  padding. \<open>get_termio\<close> copies the padding of a local variable, whose value is unspecified.
\<close>

definition termio_byte :: "termios \<Rightarrow> nat \<Rightarrow> u8" where
  "termio_byte t i =
    (if i < 8 then ucast (drop_bit (8 * (i mod 2)) ([c_iflag t, c_oflag t, c_cflag t, c_lflag t] ! (i div 2)))
     else if i = 8 then c_line t else if i < 17 then c_cc t (i - 9) else undefined)"

definition low_word :: "u16 \<Rightarrow> u32 \<Rightarrow> u32" where
  "low_word v w = (w AND 0xffff0000) OR ucast v"

definition get_termio :: "nat \<Rightarrow> u32 \<Rightarrow> kstate \<Rightarrow> (u32, kstate) outcome" where
  "get_termio ch a s = seq (verify_area a 18 s) (\<lambda>_ s.
     Ret 0 (put_fs_bytes 18 (termio_byte (tt_termios (tt ch s))) a s))"

definition set_termio :: "nat \<Rightarrow> u32 \<Rightarrow> kstate \<Rightarrow> (u32, kstate) outcome" where
  "set_termio ch a s = (let d = (\<lambda>k. get_fs_byte (a + of_nat k) s) in
     Ret 0 (change_speed ch (upd_tty ch (tt_termios_update (\<lambda>t. t\<lparr>
       c_iflag := low_word (get16 d 0) (c_iflag t), c_oflag := low_word (get16 d 2) (c_oflag t),
       c_cflag := low_word (get16 d 4) (c_cflag t), c_lflag := low_word (get16 d 6) (c_lflag t),
       c_line := d 8, c_cc := (\<lambda>k. if k < 8 then d (9 + k) else c_cc t k)\<rparr>)) s)))"

text \<open>
  The commands: 0x5401 to 0x5404 are \<open>TCGETS\<close>, \<open>TCSETS\<close>, \<open>TCSETSW\<close>, \<open>TCSETSF\<close>, the next four
  the same for \<open>struct termio\<close>, then \<open>TCSBRK\<close>, \<open>TCXONC\<close>, \<open>TCFLSH\<close>; 0x540F is \<open>TIOCGPGRP\<close>,
  0x5410 \<open>TIOCSPGRP\<close>, 0x5411 \<open>TIOCOUTQ\<close>, 0x541B \<open>TIOCINQ\<close>. All others return \<open>-EINVAL\<close>.
  \<open>wait_until_sent\<close> and \<open>send_break\<close> do nothing.
\<close>

definition tty_command :: "nat \<Rightarrow> u32 \<Rightarrow> u32 \<Rightarrow> kstate \<Rightarrow> (u32, kstate) outcome" where
  "tty_command ch cmd arg s =
    (let flush_read = upd_tty ch (read_q_update flush); flush_write = upd_tty ch (write_q_update flush) in
     if cmd = 0x5401 then get_termios ch arg s
     else if cmd = 0x5404 then set_termios ch arg (flush_read s)
     else if cmd = 0x5403 \<or> cmd = 0x5402 then set_termios ch arg s
     else if cmd = 0x5405 then get_termio ch arg s
     else if cmd = 0x5408 then set_termio ch arg (flush_read s)
     else if cmd = 0x5407 \<or> cmd = 0x5406 then set_termio ch arg s
     else if cmd = 0x5409 then Ret 0 s
     else if cmd = 0x540B then
       (if arg = 0 then Ret 0 (flush_read s) else if arg = 1 then Ret 0 (flush_write s)
        else if arg = 2 then Ret 0 (flush_write (flush_read s)) else Ret (- EINVAL) s)
     else if cmd = 0x540F then
       seq (verify_area arg 4 s) (\<lambda>_ s. Ret 0 (put_fs_long (tt_pgrp (tt ch s)) arg s))
     else if cmd = 0x5410 then Ret 0 (upd_tty ch (tt_pgrp_update (\<lambda>_. get_fs_long arg s)) s)
     else if cmd = 0x5411 then
       seq (verify_area arg 4 s) (\<lambda>_ s. Ret 0 (put_fs_long (q_chars (write_q (tt ch s))) arg s))
     else if cmd = 0x541B then
       seq (verify_area arg 4 s) (\<lambda>_ s. Ret 0 (put_fs_long (q_chars (secondary (tt ch s))) arg s))
     else Ret (- EINVAL) s)"

definition tty_ioctl :: "u32 \<Rightarrow> u32 \<Rightarrow> u32 \<Rightarrow> kstate \<Rightarrow> (u32, kstate) outcome" where
  "tty_ioctl dev cmd arg s =
    (if MAJOR dev = 5 \<and> slt (t_tty (cur s)) 0 then Panic ''tty_ioctl: dev<0'' else
     let dev = (if MAJOR dev = 5 then t_tty (cur s) else MINOR dev)
     in if 2 < dev then Fault else tty_command (unat dev) cmd arg s)"

section \<open>Serial ports\<close>

definition init_port :: "u32 \<Rightarrow> kstate \<Rightarrow> kstate" where
  "init_port data s = (let port = ucast data :: u16 in
     snd (inb port (outb 0x0d (port + 1) (outb 0x0b (port + 4) (outb 0x03 (port + 3)
       (outb 0x00 (port + 1) (outb 0x30 port (outb 0x80 (port + 3) s))))))))"

text \<open>The interrupt gates that \<open>rs_init\<close> sets are not part of the model.\<close>

definition rs_init :: "kstate \<Rightarrow> kstate" where
  "rs_init s =
    (let s = init_port (q_data (read_q (tt 1 s))) s;
         s = init_port (q_data (read_q (tt 2 s))) s
     in case inb 0x21 s of (m, s) \<Rightarrow> outb (m AND 0xE7) 0x21 s)"

end
