(* ===== verification/FileCalls.thy ===== *)
theory FileCalls
  imports Super Pipe CharDev
begin

text \<open>
  The system calls on open files and on single inodes: \<open>fs/open.c\<close>, \<open>fs/read_write.c\<close>,
  \<open>fs/fcntl.c\<close>, \<open>fs/stat.c\<close> and \<open>fs/ioctl.c\<close>. Descriptors are indices into \<open>filp\<close> of the current
  task, open files indices into \<open>file_table\<close>.
\<close>

section \<open>Opening and closing\<close>

fun free_file :: "nat list \<Rightarrow> kstate \<Rightarrow> nat option" where
  "free_file [] s = None"
| "free_file (i # is) s = (if f_count (file_table s i) = 0 then Some i else free_file is s)"

fun free_fd :: "nat list \<Rightarrow> kstate \<Rightarrow> nat option" where
  "free_fd [] s = None"
| "free_fd (i # is) s = (if t_filp (cur s) i = None then Some i else free_fd is s)"

definition close_on_exec :: "bool \<Rightarrow> nat \<Rightarrow> kstate \<Rightarrow> kstate" where
  "close_on_exec on fd = upd_cur (\<lambda>t. t\<lparr>t_close_on_exec :=
     (if on then t_close_on_exec t OR push_bit fd 1 else t_close_on_exec t AND NOT (push_bit fd 1))\<rparr>)"

text \<open>Opening a terminal: it becomes the controlling terminal of a session leader without one.\<close>

definition open_tty :: "nat \<Rightarrow> kstate \<Rightarrow> (bool, kstate) outcome" where
  "open_tty i s =
    (let dev = zone i 0 s in
     if \<not> S_ISCHR (i_mode (inode_table s i)) then Ret True s
     else if MAJOR dev = 4 then
       (if tst (t_leader (cur s)) \<and> slt (t_tty (cur s)) 0 then
          (if 2 < MINOR dev then Fault
           else Ret True (upd_tty (unat (MINOR dev)) (tt_pgrp_update (\<lambda>_. t_pgrp (cur s)))
             (upd_cur (t_tty_update (\<lambda>_. MINOR dev)) s)))
        else Ret True s)
     else if MAJOR dev = 5 then Ret (\<not> slt (t_tty (cur s)) 0) s
     else Ret True s)"

definition sys_open :: "u32 \<Rightarrow> u32 \<Rightarrow> u32 \<Rightarrow> kstate \<Rightarrow> (u32, kstate) outcome" where
  "sys_open filename flag mode s =
    (let mode = mode AND (0x1FF AND NOT (ucast (t_umask (cur s)))) in
     case free_fd [0..<NR_OPEN] s of None \<Rightarrow> Ret (- EINVAL) s
     | Some fd \<Rightarrow>
        let s = close_on_exec False fd s in
        (case free_file [0..<NR_FILE] s of None \<Rightarrow> Ret (- EINVAL) s
         | Some f \<Rightarrow>
            let s = upd_file f (\<lambda>x. x\<lparr>f_count := f_count x + 1\<rparr>) (set_filp fd (Some f) s) in
            seq (open_namei filename flag mode s) (\<lambda>r s. case r of
              (err, None) \<Rightarrow> Ret err (set_f_count 0 f (set_filp fd None s))
            | (err, Some i) \<Rightarrow>
                seq (open_tty i s) (\<lambda>allowed s.
                  if \<not> allowed then
                    seq (iput (Some i) s) (\<lambda>_ s. Ret (- EPERM) (set_f_count 0 f (set_filp fd None s)))
                  else seq (if S_ISBLK (i_mode (inode_table s i)) then check_disk_change (zone i 0 s) s
                            else Ret () s) (\<lambda>_ s.
                    Ret (of_nat fd) (upd_file f (\<lambda>x. x\<lparr>f_mode := i_mode (inode_table s i), f_flags := ucast flag,
                      f_count := 1, f_inode := Some i, f_pos := 0\<rparr>) s))))))"

definition sys_creat :: "u32 \<Rightarrow> u32 \<Rightarrow> kstate \<Rightarrow> (u32, kstate) outcome" where
  "sys_creat pathname mode = sys_open pathname (O_CREAT OR O_TRUNC) mode"

definition filp :: "u32 \<Rightarrow> kstate \<Rightarrow> nat option" where
  "filp fd s = (if NR_OPEN \<le> unat fd then None else t_filp (cur s) (unat fd))"

definition sys_close :: "u32 \<Rightarrow> kstate \<Rightarrow> (u32, kstate) outcome" where
  "sys_close fd s =
    (if NR_OPEN \<le> unat fd then Ret (- EINVAL) s else
     let s = close_on_exec False (unat fd) s in
     case filp fd s of None \<Rightarrow> Ret (- EINVAL) s
     | Some f \<Rightarrow>
        let s = set_filp (unat fd) None s in
        if f_count (file_table s f) = 0 then Panic ''Close: file count is 0'' else
        let s = upd_file f (\<lambda>x. x\<lparr>f_count := f_count x - 1\<rparr>) s in
        if tst (f_count (file_table s f)) then Ret 0 s
        else seq (iput (f_inode (file_table s f)) s) (\<lambda>_ s. Ret 0 s))"

section \<open>Duplicating descriptors\<close>

fun free_from :: "nat list \<Rightarrow> kstate \<Rightarrow> nat option" where
  "free_from [] s = None"
| "free_from (i # is) s = (if t_filp (cur s) i \<noteq> None then free_from is s else Some i)"

definition dupfd :: "u32 \<Rightarrow> u32 \<Rightarrow> kstate \<Rightarrow> (u32, kstate) outcome" where
  "dupfd fd arg s = (case filp fd s of None \<Rightarrow> Ret (- EBADF) s
     | Some f \<Rightarrow>
        if NR_OPEN \<le> unat arg then Ret (- EINVAL) s else
        (case free_from [unat arg..<NR_OPEN] s of None \<Rightarrow> Ret (- EMFILE) s
         | Some n \<Rightarrow> Ret (of_nat n) (upd_file f (\<lambda>x. x\<lparr>f_count := f_count x + 1\<rparr>)
             (set_filp n (Some f) (close_on_exec False n s)))))"

definition sys_dup2 :: "u32 \<Rightarrow> u32 \<Rightarrow> kstate \<Rightarrow> (u32, kstate) outcome" where
  "sys_dup2 oldfd newfd s = seq (sys_close newfd s) (\<lambda>_ s. dupfd oldfd newfd s)"

definition sys_dup :: "u32 \<Rightarrow> kstate \<Rightarrow> (u32, kstate) outcome" where
  "sys_dup fildes = dupfd fildes 0"

definition F_STATUS :: u16 where "F_STATUS = 0xC00"

text \<open>Commands 0 to 4: \<open>F_DUPFD\<close>, \<open>F_GETFD\<close>, \<open>F_SETFD\<close>, \<open>F_GETFL\<close>, \<open>F_SETFL\<close>; the locks return -1.\<close>

definition sys_fcntl :: "u32 \<Rightarrow> u32 \<Rightarrow> u32 \<Rightarrow> kstate \<Rightarrow> (u32, kstate) outcome" where
  "sys_fcntl fd cmd arg s = (case filp fd s of None \<Rightarrow> Ret (- EBADF) s
     | Some f \<Rightarrow>
        if cmd = 0 then dupfd fd arg s
        else if cmd = 1 then Ret (drop_bit (unat fd) (t_close_on_exec (cur s)) AND 1) s
        else if cmd = 2 then Ret 0 (close_on_exec (tst (arg AND 1)) (unat fd) s)
        else if cmd = 3 then Ret (ucast (f_flags (file_table s f))) s
        else if cmd = 4 then Ret 0 (upd_file f (\<lambda>x. x\<lparr>f_flags :=
          (f_flags x AND NOT F_STATUS) OR (ucast arg AND F_STATUS)\<rparr>) s)
        else Ret (- 1) s)"

section \<open>Reading, writing and seeking\<close>

definition sys_lseek :: "u32 \<Rightarrow> u32 \<Rightarrow> u32 \<Rightarrow> kstate \<Rightarrow> (u32, kstate) outcome" where
  "sys_lseek fd offset whence s = (case filp fd s of None \<Rightarrow> Ret (- EBADF) s
     | Some f \<Rightarrow> (case f_inode (file_table s f) of None \<Rightarrow> Ret (- EBADF) s
       | Some i \<Rightarrow>
          let seek_to = (\<lambda>pos. if slt pos 0 then Ret (- EINVAL) s
                              else Ret pos (upd_file f (f_pos_update (\<lambda>_. pos)) s)) in
          if \<not> IS_SEEKABLE (MAJOR (inode_dev i s)) then Ret (- EBADF) s
          else if tst (i_pipe (inode_table s i)) then Ret (- ESPIPE) s
          else if whence = 0 then seek_to offset
          else if whence = 1 then seek_to (f_pos (file_table s f) + offset)
          else if whence = 2 then seek_to (i_size (inode_table s i) + offset)
          else Ret (- EINVAL) s))"

definition read_limit :: "nat \<Rightarrow> nat \<Rightarrow> u32 \<Rightarrow> kstate \<Rightarrow> u32" where
  "read_limit i f count s =
    (if i_size (inode_table s i) < count + f_pos (file_table s f)
     then i_size (inode_table s i) - f_pos (file_table s f) else count)"

definition sys_read :: "u32 \<Rightarrow> u32 \<Rightarrow> u32 \<Rightarrow> kstate \<Rightarrow> (u32, kstate) outcome" where
  "sys_read fd buf count s =
    (if slt count 0 then Ret (- EINVAL) s else
     case filp fd s of None \<Rightarrow> Ret (- EINVAL) s
     | Some f \<Rightarrow> if count = 0 then Ret 0 s else
       seq (verify_area buf count s) (\<lambda>_ s. case f_inode (file_table s f) of None \<Rightarrow> Fault
       | Some i \<Rightarrow>
          let m = inode_table s i in
          if tst (i_pipe m) then
            (if tst (f_mode (file_table s f) AND 1) then read_pipe i buf count s else Ret (- EIO) s)
          else if S_ISCHR (i_mode m) then rw_char READ (zone i 0 s) buf count f s
          else if S_ISBLK (i_mode m) then block_read (zone i 0 s) f buf count s
          else if S_ISDIR (i_mode m) \<or> S_ISREG (i_mode m) then
            (if sle (read_limit i f count s) 0 then Ret 0 s
             else file_read i f buf (read_limit i f count s) s)
          else Ret (- EINVAL) s))"

definition sys_write :: "u32 \<Rightarrow> u32 \<Rightarrow> u32 \<Rightarrow> kstate \<Rightarrow> (u32, kstate) outcome" where
  "sys_write fd buf count s =
    (if slt count 0 then Ret (- EINVAL) s else
     case filp fd s of None \<Rightarrow> Ret (- EINVAL) s
     | Some f \<Rightarrow> if count = 0 then Ret 0 s else
       (case f_inode (file_table s f) of None \<Rightarrow> Fault
       | Some i \<Rightarrow>
          let m = inode_table s i in
          if tst (i_pipe m) then
            (if tst (f_mode (file_table s f) AND 2) then write_pipe i buf count s else Ret (- EIO) s)
          else if S_ISCHR (i_mode m) then rw_char WRITE (zone i 0 s) buf count f s
          else if S_ISBLK (i_mode m) then block_write (zone i 0 s) f buf count s
          else if S_ISREG (i_mode m) then file_write i f buf count s
          else Ret (- EINVAL) s))"

section \<open>Calls on a named inode\<close>

text \<open>\<open>if (!(inode=namei(filename))) return err\<close>\<close>

definition with_namei ::
    "u32 \<Rightarrow> u32 \<Rightarrow> (nat \<Rightarrow> kstate \<Rightarrow> (u32, kstate) outcome) \<Rightarrow> kstate \<Rightarrow> (u32, kstate) outcome" where
  "with_namei err filename k s = seq (namei filename s) (\<lambda>r s. case r of
     None \<Rightarrow> Ret err s | Some i \<Rightarrow> k i s)"

definition sys_utime :: "u32 \<Rightarrow> u32 \<Rightarrow> kstate \<Rightarrow> (u32, kstate) outcome" where
  "sys_utime filename tbuf = with_namei (- ENOENT) filename (\<lambda>i s.
     let actime = (if tst tbuf then get_fs_long tbuf s else CURRENT_TIME s);
         modtime = (if tst tbuf then get_fs_long (tbuf + 4) s else CURRENT_TIME s)
     in iput_ret i 0 (upd_inode i (\<lambda>m. m\<lparr>i_atime := actime, i_mtime := modtime, i_dirt := 1\<rparr>) s))"

text \<open>\<open>sys_access\<close> looks at the owner of the inode after it has put the inode.\<close>

definition sys_access :: "u32 \<Rightarrow> u32 \<Rightarrow> kstate \<Rightarrow> (u32, kstate) outcome" where
  "sys_access filename mode = with_namei (- EACCES) filename (\<lambda>i s.
     let mode = mode AND 7; imode = ucast (i_mode (inode_table s i)) AND 0x1FF in
     seq (iput (Some i) s) (\<lambda>_ s.
       let m = inode_table s i;
           res = (if t_uid (cur s) = i_uid m then drop_bit 6 imode
                  else if t_gid (cur s) = ucast (i_gid m) then drop_bit 6 imode else imode)
       in if res AND 7 AND mode = mode then Ret 0 s
          else if t_uid (cur s) = 0 \<and> (mode AND 1 = 0 \<or> imode AND 0x49 \<noteq> 0) then Ret 0 s
          else Ret (- EACCES) s))"

definition sys_chdir :: "u32 \<Rightarrow> kstate \<Rightarrow> (u32, kstate) outcome" where
  "sys_chdir filename = with_namei (- ENOENT) filename (\<lambda>i s.
     if \<not> S_ISDIR (i_mode (inode_table s i)) then iput_ret i (- ENOTDIR) s
     else seq (iput (t_pwd (cur s)) s) (\<lambda>_ s. Ret 0 (upd_cur (t_pwd_update (\<lambda>_. Some i)) s)))"

definition sys_chroot :: "u32 \<Rightarrow> kstate \<Rightarrow> (u32, kstate) outcome" where
  "sys_chroot filename = with_namei (- ENOENT) filename (\<lambda>i s.
     if \<not> S_ISDIR (i_mode (inode_table s i)) then iput_ret i (- ENOTDIR) s
     else seq (iput (t_root (cur s)) s) (\<lambda>_ s. Ret 0 (upd_cur (t_root_update (\<lambda>_. Some i)) s)))"

definition sys_chmod :: "u32 \<Rightarrow> u32 \<Rightarrow> kstate \<Rightarrow> (u32, kstate) outcome" where
  "sys_chmod filename mode = with_namei (- ENOENT) filename (\<lambda>i s.
     if t_euid (cur s) \<noteq> i_uid (inode_table s i) \<and> \<not> suser s then iput_ret i (- EACCES) s
     else iput_ret i 0 (upd_inode i (\<lambda>m. m\<lparr>i_mode := (ucast mode AND 0xFFF) OR (i_mode m AND NOT 0xFFF),
            i_dirt := 1\<rparr>) s))"

definition sys_chown :: "u32 \<Rightarrow> u32 \<Rightarrow> u32 \<Rightarrow> kstate \<Rightarrow> (u32, kstate) outcome" where
  "sys_chown filename uid gid = with_namei (- ENOENT) filename (\<lambda>i s.
     if \<not> suser s then iput_ret i (- EACCES) s
     else iput_ret i 0 (upd_inode i (\<lambda>m. m\<lparr>i_uid := ucast uid, i_gid := ucast gid, i_dirt := 1\<rparr>) s))"

definition sys_ustat :: "u32 \<Rightarrow> u32 \<Rightarrow> u32" where "sys_ustat dev ubuf = - ENOSYS"

section \<open>\<open>stat\<close> and \<open>ioctl\<close>\<close>

text \<open>
  \<open>struct stat\<close> in memory. Bytes 7, 11, 14 and 15 are padding of a local variable, whose value is
  unspecified.
\<close>

definition stat_byte :: "m_inode \<Rightarrow> nat \<Rightarrow> u8" where
  "stat_byte m i =
    (if i < 6 then ucast (drop_bit (8 * (i mod 2)) ([i_dev m, i_num m, i_mode m] ! (i div 2)))
     else if i = 6 then i_nlinks m
     else if i = 8 \<or> i = 9 then ucast (drop_bit (8 * (i - 8)) (i_uid m))
     else if i = 10 then i_gid m
     else if i = 12 \<or> i = 13 then ucast (drop_bit (8 * (i - 12)) (i_zone m 0))
     else if i < 16 then undefined
     else ucast (drop_bit (8 * (i mod 4)) ([i_size m, i_atime m, i_mtime m, i_ctime m] ! (i div 4 - 4))))"

definition cp_stat :: "nat \<Rightarrow> u32 \<Rightarrow> kstate \<Rightarrow> (unit, kstate) outcome" where
  "cp_stat i statbuf s = seq (verify_area statbuf 32 s) (\<lambda>_ s.
     Ret () (put_fs_bytes 32 (stat_byte (inode_table s i)) statbuf s))"

definition sys_stat :: "u32 \<Rightarrow> u32 \<Rightarrow> kstate \<Rightarrow> (u32, kstate) outcome" where
  "sys_stat filename statbuf = with_namei (- ENOENT) filename (\<lambda>i s.
     seq (cp_stat i statbuf s) (\<lambda>_ s. iput_ret i 0 s))"

definition sys_fstat :: "u32 \<Rightarrow> u32 \<Rightarrow> kstate \<Rightarrow> (u32, kstate) outcome" where
  "sys_fstat fd statbuf s = (case filp fd s of None \<Rightarrow> Ret (- EBADF) s
     | Some f \<Rightarrow> (case f_inode (file_table s f) of None \<Rightarrow> Ret (- EBADF) s
       | Some i \<Rightarrow> seq (cp_stat i statbuf s) (\<lambda>_ s. Ret 0 s)))"

definition sys_ioctl :: "u32 \<Rightarrow> u32 \<Rightarrow> u32 \<Rightarrow> kstate \<Rightarrow> (u32, kstate) outcome" where
  "sys_ioctl fd cmd arg s = (case filp fd s of None \<Rightarrow> Ret (- EBADF) s
     | Some f \<Rightarrow> (case f_inode (file_table s f) of None \<Rightarrow> Fault
       | Some i \<Rightarrow>
          let mode = i_mode (inode_table s i); dev = zone i 0 s in
          if \<not> S_ISCHR mode \<and> \<not> S_ISBLK mode then Ret (- EINVAL) s
          else if NRDEVS \<le> MAJOR dev then Ret (- ENODEV) s
          else if MAJOR dev \<noteq> 4 \<and> MAJOR dev \<noteq> 5 then Ret (- ENOTTY) s
          else tty_ioctl dev cmd arg s))"

end
