(* ===== verification/Frame.thy ===== *)
theory Frame
  imports SchedProps FileCalls
begin

text \<open>
  What the file system, the buffer cache and the block drivers leave alone. \<open>framed s t\<close> says
  that from \<open>s\<close> to \<open>t\<close> no task has changed but for its state, time slice, signals and alarm, no
  open file has got or lost a reference or another inode, and the same task is running; \<open>frames s m\<close> that a run returns, goes on in \<open>do_exit\<close> or sleeps like this, in
  the last case with another task running. The rules in \<open>keeps\<close> follow the structure of the code.
\<close>

section \<open>The frame\<close>

definition proc :: "task_struct \<Rightarrow> task_struct" where
  "proc p = p\<lparr>t_state := 0, t_counter := 0, t_signal := 0, t_alarm := 0\<rparr>"

definition framed :: "kstate \<Rightarrow> kstate \<Rightarrow> bool" where
  "framed s t \<longleftrightarrow> task t = task s \<and> (\<forall>i. proc (tsk t i) = proc (tsk s i)) \<and>
     (\<forall>f. f_count (file_table t f) = f_count (file_table s f) \<and> f_inode (file_table t f) = f_inode (file_table s f)) \<and>
     last_pid t = last_pid s \<and> current t = current s \<and>
     (\<forall>i. t_state (tsk t i) = TASK_ZOMBIE \<longrightarrow> t_state (tsk s i) = TASK_ZOMBIE)"

text \<open>For any relation: what a run has done when it returns, goes on in \<open>do_exit\<close> or sleeps.\<close>

definition kept :: "(kstate \<Rightarrow> kstate \<Rightarrow> bool) \<Rightarrow> kstate \<Rightarrow> ('a, kstate) outcome \<Rightarrow> bool" where
  "kept R s m \<longleftrightarrow> (case m of Ret a t \<Rightarrow> R s t | Sleeps t \<Rightarrow> R s (t\<lparr>current := current s\<rparr>) | Exits c t \<Rightarrow> R s t | _ \<Rightarrow> True)"

abbreviation frames :: "kstate \<Rightarrow> ('a, kstate) outcome \<Rightarrow> bool" where
  "frames \<equiv> kept framed"

lemma framed_refl [simp]: "framed s s"
  by (simp add: framed_def)

lemma framed_trans: "framed s t \<Longrightarrow> framed t u \<Longrightarrow> framed s u"
  by (simp add: framed_def)

lemma kept_simps [simp]:
  "kept R s (Ret a t) = R s t" "kept R s (Sleeps t) = R s (t\<lparr>current := current s\<rparr>)" "kept R s (Panic msg)"
  "kept R s (Exits c t) = R s t" "kept R s Fault" "kept R s Hangs"
  by (simp_all add: kept_def)

section \<open>The structure of the code\<close>

lemma kept_seq [keeps]:
  "kept R s m \<Longrightarrow> (\<And>a t. R s t \<Longrightarrow> kept R s (f a t)) \<Longrightarrow> kept R s (seq m f)"
  by (cases m) simp_all

lemma kept_if [keeps]: "(b \<Longrightarrow> kept R s m) \<Longrightarrow> (\<not> b \<Longrightarrow> kept R s n) \<Longrightarrow> kept R s (if b then m else n)"
  by simp

lemma kept_option [keeps]: "kept R s m \<Longrightarrow> (\<And>x. kept R s (f x)) \<Longrightarrow> kept R s (case v of None \<Rightarrow> m | Some x \<Rightarrow> f x)"
  by (cases v) simp_all

lemma kept_prod [keeps]: "(\<And>x y. kept R s (f x y)) \<Longrightarrow> kept R s (case v of (x, y) \<Rightarrow> f x y)"
  by (cases v) simp_all

lemma kept_sum [keeps]: "(\<And>x. kept R s (f x)) \<Longrightarrow> (\<And>y. kept R s (g y)) \<Longrightarrow> kept R s (case v of Inl x \<Rightarrow> f x | Inr y \<Rightarrow> g y)"
  by (cases v) simp_all

lemma kept_let_state [keeps]: "R s t \<Longrightarrow> (\<And>u. R s u \<Longrightarrow> kept R s (f u)) \<Longrightarrow> kept R s (Let t f)"
  by simp

lemma kept_let_value: "(\<And>x. kept R s (f x)) \<Longrightarrow> kept R s (Let v f)"
  by simp

lemma kept_Ret [keeps]: "R s t \<Longrightarrow> kept R s (Ret a t)"
  by simp

lemma kept_none [keeps]: "kept R s (Panic msg)" "kept R s Fault" "kept R s Hangs"
  by simp_all

lemma kept_Exits [keeps]: "R s t \<Longrightarrow> kept R s (Exits c t)"
  by simp

lemma kept_for_each [keeps]:
  assumes "R s t" and "\<And>x u. R s u \<Longrightarrow> kept R s (f x u)"
  shows "kept R s (for_each f xs t)"
  using assms(1) by (induction xs arbitrary: t) (auto intro!: kept_seq assms(2))

lemma kept_loop [keeps]:
  assumes "R s t" and "\<And>a u. R s u \<Longrightarrow> kept R s (step a u)"
  shows "kept R s (loop step a t)"
proof -
  have "st = step \<longrightarrow> R s t \<longrightarrow> kept R s r" if "run_loop st a t = Some r" for st a t r
  proof (rule run_loop.raw_induct [where P = "\<lambda>st a t r. st = step \<longrightarrow> R s t \<longrightarrow> kept R s r", OF _ that])
    fix rl st a t r
    assume IH: "\<And>st a t r. rl st a t = Some r \<Longrightarrow> st = step \<longrightarrow> R s t \<longrightarrow> kept R s r"
      and eq: "(case st a t of
         Ret r t \<Rightarrow> (case r of Inl b \<Rightarrow> rl st b t | Inr v \<Rightarrow> Some (Ret v t))
       | Panic msg \<Rightarrow> Some (Panic msg) | Sleeps t \<Rightarrow> Some (Sleeps t) | Exits c t \<Rightarrow> Some (Exits c t)
       | Fault \<Rightarrow> Some Fault | Hangs \<Rightarrow> Some Hangs) = Some r"
    show "st = step \<longrightarrow> R s t \<longrightarrow> kept R s r"
      using assms(2) [of t a] eq IH by (auto split: outcome.splits sum.splits)
  qed
  then show ?thesis
    using assms(1) by (cases "run_loop step a t") (auto simp: loop_def)
qed

lemma frames_in_mm [keeps]: "framed s t \<Longrightarrow> frames s (in_mm f t)"
  by (cases "f (mm t)") (simp_all add: in_mm_def framed_def)

section \<open>Updates\<close>

lemma framed_if [keeps]: "(b \<Longrightarrow> framed s t) \<Longrightarrow> (\<not> b \<Longrightarrow> framed s u) \<Longrightarrow> framed s (if b then t else u)"
  by simp

lemma framed_option [keeps]: "framed s t \<Longrightarrow> (\<And>x. framed s (f x)) \<Longrightarrow> framed s (case v of None \<Rightarrow> t | Some x \<Rightarrow> f x)"
  by (cases v) simp_all

lemma framed_let_state [keeps]: "framed s t \<Longrightarrow> (\<And>u. framed s u \<Longrightarrow> framed s (f u)) \<Longrightarrow> framed s (Let t f)"
  by simp

lemma framed_let_value: "(\<And>x. framed s (f x)) \<Longrightarrow> framed s (Let v f)"
  by simp

lemmas let_values = kept_let_value framed_let_value

lemma framed_updates [keeps]:
  "framed s t \<Longrightarrow> framed s (upd_bh i f t)"
  "framed s t \<Longrightarrow> framed s (upd_inode i f' t)"
  "framed s t \<Longrightarrow> framed s (upd_super i f'' t)"
  "framed s t \<Longrightarrow> framed s (upd_req i g t)"
  "framed s t \<Longrightarrow> framed s (upd_tty i g' t)"
  by (simp_all add: framed_def state_simps)

text \<open>No task becomes a zombie, either.\<close>

definition tame :: "(task_struct \<Rightarrow> task_struct) \<Rightarrow> bool" where
  "tame f \<longleftrightarrow> (\<forall>p. proc (f p) = proc p \<and> (t_state (f p) = TASK_ZOMBIE \<longrightarrow> t_state p = TASK_ZOMBIE))"

lemma framed_upd_task: "framed s t \<Longrightarrow> tame f \<Longrightarrow> framed s (upd_task i f t)"
  by (auto simp: framed_def tame_def state_simps)

lemma tame_simps [simp]:
  "tame (t_counter_update g)" "tame (t_signal_update g)" "tame (t_alarm_update g)"
  "tame (\<lambda>p. p\<lparr>t_counter := c p\<rparr>)" "tame (\<lambda>p. p\<lparr>t_signal := c p\<rparr>)" "tame (\<lambda>p. p\<lparr>t_alarm := c p\<rparr>)"
  "v \<noteq> TASK_ZOMBIE \<Longrightarrow> tame (t_state_update (\<lambda>_. v))"
  by (simp_all add: tame_def proc_def)

lemma framed_for_tasks: "framed s t \<Longrightarrow> tame f \<Longrightarrow> framed s (for_tasks n f t)"
  by (induction n arbitrary: t) (auto intro!: framed_upd_task)

section \<open>Scheduling\<close>

lemma tame_check_signals: "tame (check_signals now)"
  by (simp add: tame_def proc_def check_signals_def Let_def TASK_RUNNING_def TASK_ZOMBIE_def)

lemma tame_refill: "tame refill"
  by (simp add: tame_def proc_def refill_def)

lemma sleep_states [simp]: "TASK_RUNNING \<noteq> TASK_ZOMBIE" "TASK_INTERRUPTIBLE \<noteq> TASK_ZOMBIE" "TASK_UNINTERRUPTIBLE \<noteq> TASK_ZOMBIE"
  by (simp_all add: TASK_RUNNING_def TASK_ZOMBIE_def TASK_INTERRUPTIBLE_def TASK_UNINTERRUPTIBLE_def)

lemma framed_choose_task:
  assumes "choose_task t = Some r" and "framed s t"
  shows "framed s (snd r)"
proof -
  have "framed s t \<longrightarrow> framed s (snd r)" if "choose_task t = Some r" for t r
  proof (rule choose_task.raw_induct [where P = "\<lambda>t r. framed s t \<longrightarrow> framed s (snd r)", OF _ that])
    fix c t r
    assume IH: "\<And>t r. c t = Some r \<Longrightarrow> framed s t \<longrightarrow> framed s (snd r)"
      and eq: "(let (c', nxt) = pick (NR_TASKS - 1) (- 1) 0 t in
         if tst c' then Some (nxt, t) else c (for_tasks (NR_TASKS - 1) refill t)) = Some r"
    have "framed s t \<Longrightarrow> framed s (for_tasks (NR_TASKS - 1) refill t)"
      by (rule framed_for_tasks [OF _ tame_refill])
    then show "framed s t \<longrightarrow> framed s (snd r)"
      using eq IH [of "for_tasks (NR_TASKS - 1) refill t" r]
      by (auto simp del: One_nat_def split: prod.splits if_splits)
  qed
  then show ?thesis using assms by blast
qed

lemma frames_schedule [keeps]: "framed s t \<Longrightarrow> frames s (schedule t)"
proof -
  assume "framed s t"
  then have "framed s (for_tasks (NR_TASKS - 1) (check_signals (jiffies t)) t)"
    by (rule framed_for_tasks [OF _ tame_check_signals])
  moreover have "framed s u \<Longrightarrow> framed s (u\<lparr>current := n, current := current s\<rparr>)" for u n
    by (simp add: framed_def)
  ultimately show ?thesis
    by (auto simp: schedule_def Let_def dest: framed_choose_task split: option.split)
qed

lemma framed_queues:
  assumes "is_queue q"
  shows "framed s t \<Longrightarrow> framed s (put_wait q p t)"
  using assms by (auto simp: is_queue_def queue_simps framed_def state_simps)

lemma framed_set_state [keeps]: "framed s t \<Longrightarrow> framed s (set_state 0 p t)"
  by (auto simp: set_state_def TASK_ZOMBIE_def intro: framed_upd_task split: option.split)

lemma is_queue_simps [simp, keeps]:
  "is_queue (inode_queue i)" "is_queue (super_queue i)" "is_queue (bh_queue i)" "is_queue buffer_queue"
  "is_queue request_queue" "is_queue select_queue" "is_queue (waiting_queue i)" "is_queue (motor_queue i)" "is_queue (secondary_queue i)"
  "is_queue (write_queue i)"
  by (auto simp: is_queue_def)

lemma framed_wake_up [keeps]: "is_queue q \<Longrightarrow> framed s t \<Longrightarrow> framed s (wake_up q t)"
  by (auto simp: wake_up_def intro: framed_queues framed_set_state)

lemma frames_sleep_on [keeps]: "is_queue q \<Longrightarrow> framed s t \<Longrightarrow> frames s (sleep_on q t)"
  unfolding sleep_on_def Let_def upd_cur_def
  by (intro keeps framed_upd_task framed_queues) (assumption | simp)+

lemma framed_again: "framed s t \<Longrightarrow> framed s (t\<lparr>current := n, current := current s\<rparr>)" "framed s t \<Longrightarrow> framed s (t\<lparr>current := current s\<rparr>)"
  by (simp_all add: framed_def)

lemma frames_interruptible_sleep_on [keeps]:
  assumes q: "is_queue q" and t: "framed s t"
  shows "frames s (interruptible_sleep_on q t)"
proof -
  have *: "framed s (upd_cur (t_state_update (\<lambda>_. TASK_INTERRUPTIBLE)) u)" if "framed s u" for u
    unfolding upd_cur_def by (rule framed_upd_task [OF that]) simp
  show ?thesis unfolding interruptible_sleep_on_def Let_def
    using t by (auto intro!: keeps framed_queues * q framed_again simp del: kept_simps)
      (auto intro!: keeps framed_queues * q framed_again)
qed

section \<open>Fields of the kernel state that are not framed\<close>

lemma framed_fields [keeps]:
  assumes "framed s t"
  shows "framed s (t\<lparr>mm := a1\<rparr>)" "framed s (t\<lparr>hash_table := a2\<rparr>)" "framed s (t\<lparr>free_list := a3\<rparr>)"
    "framed s (t\<lparr>null_prev := a4\<rparr>)" "framed s (t\<lparr>current_request := a5\<rparr>)" "framed s (t\<lparr>last_inode := a6\<rparr>)"
    "framed s (t\<lparr>rd_mem := a7\<rparr>)" "framed s (t\<lparr>ports := a8\<rparr>)" "framed s (t\<lparr>harddisk := a9\<rparr>)"
    "framed s (t\<lparr>floppy := b1\<rparr>)" "framed s (t\<lparr>timers := b2\<rparr>)" "framed s (t\<lparr>user := b3\<rparr>)"
    "framed s (t\<lparr>console := b4\<rparr>)" "framed s (t\<lparr>cr_flag := b5\<rparr>)" "framed s (t\<lparr>beepcount := b6\<rparr>)" "framed s (t\<lparr>fpu := b7\<rparr>)"
    "framed s (t\<lparr>gdt := b8\<rparr>)" "framed s (t\<lparr>ROOT_DEV := b9\<rparr>)" "framed s (t\<lparr>startup_time := c1\<rparr>)"
    "framed s (t\<lparr>last_task_used_math := c2\<rparr>)"
  using assms by (simp_all add: framed_def)

end
