(* ===== verification/FloppyFrame.thy ===== *)
theory FloppyFrame
  imports Frame
begin

text \<open>
  What the floppy driver may change, once for every relation between kernel states that ignores
  the control variables of the driver, the ports, the timers, the motors and the contents and marks of
  buffers and requests: the locale \<open>floppy_relation\<close>. Such a relation has to say itself what becomes of it when a
  request is addressed. Frames of tasks and files and of the links of the buffer cache are instances, and
  so is the place on the disk staying within the format.
\<close>

named_theorems fd_rules "what the floppy driver keeps of a relation"

text \<open>The variables that say where on which disk to read or write.\<close>

definition place :: "fd_state \<Rightarrow> nat \<times> u8 \<times> u8 \<times> u8 \<times> u8 \<times> u8" where
  "place f = (fd_type f, current_drive f, fd_sector f, fd_head f, fd_track f, seek_track f)"

locale floppy_relation =
  fixes R :: "kstate \<Rightarrow> kstate \<Rightarrow> bool"
  assumes ports [fd_rules]: "R s t \<Longrightarrow> R s (t\<lparr>ports := p\<rparr>)"
    and control: "(\<And>x. place (f x) = place x) \<Longrightarrow> R s t \<Longrightarrow> R s (upd_fdc f t)"
    and select: "R s t \<Longrightarrow> unat (MINOR dev) div 4 < length floppy_type \<Longrightarrow> R s (select_drive dev t)"
    and locate: "R s t \<Longrightarrow> unat (MINOR dev) div 4 < length floppy_type \<Longrightarrow> block = r_sector (request t r) \<Longrightarrow>
      \<not> ft_size (disk_format (select_drive dev t)) < block + 2 \<Longrightarrow> ft_sect (disk_format (select_drive dev t)) \<noteq> 0 \<Longrightarrow>
      R s (locate block (select_drive dev t))"
    and floppy [fd_rules]: "R s t \<Longrightarrow> R s (t\<lparr>floppy := g\<rparr>)"
    and timers [fd_rules]: "R s t \<Longrightarrow> R s (t\<lparr>timers := m\<rparr>)"
    and current_request [fd_rules]: "R s t \<Longrightarrow> R s (t\<lparr>current_request := c\<rparr>)"
    and req: "(\<And>q. r_sector (h q) = r_sector q) \<Longrightarrow> R s t \<Longrightarrow> R s (upd_req i h t)"
    and buffer [fd_rules]: "R s t \<Longrightarrow> R s (upd_bh b (b_data_update d) t)"
      "R s t \<Longrightarrow> R s (upd_bh b (b_uptodate_update e) t)" "R s t \<Longrightarrow> R s (upd_bh b (b_lock_update e) t)"
    and wake [fd_rules]: "is_queue q \<Longrightarrow> R s t \<Longrightarrow> R s (wake_up q t)"
begin

lemma R_if [fd_rules]: "(b \<Longrightarrow> R s t) \<Longrightarrow> (\<not> b \<Longrightarrow> R s u) \<Longrightarrow> R s (if b then t else u)"
  by simp

lemma R_option [fd_rules]: "R s t \<Longrightarrow> (\<And>x. R s (f x)) \<Longrightarrow> R s (case v of None \<Rightarrow> t | Some x \<Rightarrow> f x)"
  by (cases v) simp_all

lemma R_let_state [fd_rules]: "R s t \<Longrightarrow> (\<And>u. R s u \<Longrightarrow> R s (f u)) \<Longrightarrow> R s (Let t f)"
  by simp

lemma R_let_value: "(\<And>x. R s (f x)) \<Longrightarrow> R s (Let v f)"
  by simp

lemmas lets = kept_let_value R_let_value

lemma own [fd_rules]: "R s t \<Longrightarrow> R s (upd_floppy g t)" "R s t \<Longrightarrow> R s (set_current major r t)"
    "R s t \<Longrightarrow> R s (outb v p t)" "R s t \<Longrightarrow> R s (snd (inb p t))"
  by (simp_all add: upd_floppy_def set_current_def outb_def inb_def in_port_def ports floppy current_request)

lemma controls [fd_rules]:
  assumes "R s t"
  shows "R s (upd_fdc (fd_reset_update f1) t)" "R s (upd_fdc (fd_recalibrate_update f2) t)" "R s (upd_fdc (fd_seek_update f3) t)"
    "R s (upd_fdc (do_floppy_update f4) t)" "R s (upd_fdc (current_track_update f5) t)" "R s (upd_fdc (fd_command_update f6) t)"
    "R s (upd_fdc (cur_spec1_update f7) t)" "R s (upd_fdc (cur_rate_update f8) t)" "R s (upd_fdc (tmp_floppy_area_update f9) t)"
    "R s (upd_fdc (\<lambda>f. f\<lparr>reply_buffer := g f\<rparr>) t)"
    "R s (upd_fdc (\<lambda>f. f\<lparr>fd_reset := g1 f, cur_spec1 := g2 f, cur_rate := g3 f, fd_recalibrate := g4 f, do_floppy := g5 f\<rparr>) t)"
    "R s (upd_fdc (\<lambda>f. f\<lparr>fd_recalibrate := h1 f, current_track := h2 f, do_floppy := h3 f\<rparr>) t)"
  using assms by (auto intro!: control simp: place_def)

lemma reqs [fd_rules]:
  assumes "R s t"
  shows "R s (upd_req i (r_dev_update f) t)" "R s (upd_req i (\<lambda>q. q\<lparr>r_errors := g q\<rparr>) t)"
  using assms by (auto intro!: req)

lemma R_inb: "R s t \<Longrightarrow> (\<And>a u. R s u \<Longrightarrow> R s (f a u)) \<Longrightarrow> R s (case inb p t of (a, u) \<Rightarrow> f a u)"
  using own(4) [of s t p] by (auto split: prod.split)

lemma timer [fd_rules]: "R s t \<Longrightarrow> kept R s (in_timers (add_timer jif fn) t)"
  by (auto simp: in_timers_def add_timer_def timers Let_def split: option.split)

lemma end_request [fd_rules]: "R s t \<Longrightarrow> R s (end_request major v t)"
  unfolding end_request_def unlock_buffer_def by (assumption | rule fd_rules keeps lets)+

lemma requests [fd_rules]:
  "R s t \<Longrightarrow> R s (floppy_off nr t)" "R s t \<Longrightarrow> R s (floppy_deselect nr t)" "R s t \<Longrightarrow> R s (fd_end_request v t)"
  unfolding floppy_off_def floppy_deselect_def fd_end_request_def by (assumption | rule fd_rules keeps lets)+

lemma copies [fd_rules]: "R s t \<Longrightarrow> R s (copy_to_area b t)" "R s t \<Longrightarrow> R s (copy_from_area b t)"
  unfolding copy_to_area_def copy_from_area_def by (assumption | rule fd_rules)+

lemma send_byte [fd_rules]: "R s t \<Longrightarrow> R s (send_byte n v t)"
proof (induction n arbitrary: t)
  case (Suc n)
  show ?case unfolding send_byte.simps by (rule R_inb [OF Suc.prems]) (assumption | rule fd_rules Suc.IH)+
qed (simp add: controls)

lemma output_byte [fd_rules]: "R s t \<Longrightarrow> R s (output_byte v t)"
  unfolding output_byte_def by (assumption | rule fd_rules)+

lemma get_reply [fd_rules]: "R s t \<Longrightarrow> R s (snd (get_reply n i t))"
proof (induction n arbitrary: i t)
  case (Suc n)
  obtain v u where u: "inb FD_STATUS t = (v, u)" "R s u" using own(4) [OF Suc.prems, of FD_STATUS] by (cases "inb FD_STATUS t") simp
  obtain w x where x: "inb FD_DATA u = (w, x)" "R s x" using own(4) [OF u(2), of FD_DATA] by (cases "inb FD_DATA u") simp
  show ?case using Suc.IH [OF u(2)] Suc.IH [OF controls(10) [OF x(2)]] controls(1) [OF u(2)] by (simp add: u x(1) Let_def)
qed (simp add: controls)

lemma result_pair:
  "R s t \<Longrightarrow> (\<And>n u. R s u \<Longrightarrow> kept R s (f n u)) \<Longrightarrow> kept R s (case result t of (n, u) \<Rightarrow> f n u)"
  "R s t \<Longrightarrow> (\<And>n u. R s u \<Longrightarrow> R s (g n u)) \<Longrightarrow> R s (case result t of (n, u) \<Rightarrow> g n u)"
  using get_reply [of s t 10000 0] by (auto simp: result_def split: prod.split)

lemma result_state [fd_rules]: "R s t \<Longrightarrow> R s (snd (result t))"
  using get_reply [of s t 10000 0] by (simp add: result_def)

lemma setup_DMA [fd_rules]: "R s t \<Longrightarrow> kept R s (setup_DMA t)"
  unfolding setup_DMA_def by (assumption | rule fd_rules keeps lets)+

lemma resets [fd_rules]: "R s t \<Longrightarrow> R s (reset_floppy t)" "R s t \<Longrightarrow> R s (restart_reset t)" "R s t \<Longrightarrow> R s (recalibrate_floppy t)"
  unfolding reset_floppy_def restart_reset_def recalibrate_floppy_def by (assumption | rule fd_rules lets)+

lemma setup_rw_floppy [fd_rules]: "R s t \<Longrightarrow> kept R s (setup_rw_floppy t)"
  unfolding setup_rw_floppy_def by (assumption | rule fd_rules keeps lets)+

lemma specify_drive [fd_rules]: "R s t \<Longrightarrow> R s (specify_drive t)"
  unfolding specify_drive_def by (assumption | rule fd_rules lets)+

lemma transfer [fd_rules]: "R s t \<Longrightarrow> kept R s (transfer t)"
  unfolding transfer_def by (assumption | rule fd_rules keeps lets)+

lemma motor [fd_rules]: "R s t \<Longrightarrow> kept R s (floppy_on_interrupt t)" "R s t \<Longrightarrow> kept R s (when_motor_on n t)"
    "R s t \<Longrightarrow> kept R s (ticks_to_floppy_on nr t)" "R s t \<Longrightarrow> kept R s (floppy_timer_fn fn t)"
  unfolding floppy_on_interrupt_def when_motor_on_def ticks_to_floppy_on_def floppy_timer_fn_def by (assumption | rule fd_rules keeps lets)+

text \<open>A request that fits is addressed, one that does not is ended.\<close>

lemma start [fd_rules]: "R s t \<Longrightarrow> kept R s (seq (ticks_to_floppy_on nr t) (\<lambda>n t. seq (when_motor_on n t) (\<lambda>_ t. Ret v t)))"
  by (assumption | rule fd_rules keeps)+

lemma fd_step [fd_rules]: "R s t \<Longrightarrow> kept R s (fd_step x t)"
  unfolding fd_step_def Let_def
  by (auto intro!: start controls locate requests select simp: not_le split: option.split)

lemma do_fd_request [fd_rules]: "R s t \<Longrightarrow> kept R s (do_fd_request t)"
  unfolding do_fd_request_def by (assumption | rule fd_rules keeps lets)+

lemma bad_flp_intr [fd_rules]: "R s t \<Longrightarrow> kept R s (bad_flp_intr t)"
  unfolding bad_flp_intr_def by (assumption | rule fd_rules keeps lets)+

lemma handlers [fd_rules]: "R s t \<Longrightarrow> kept R s (rw_interrupt t)" "R s t \<Longrightarrow> kept R s (seek_interrupt t)"
    "R s t \<Longrightarrow> kept R s (recal_interrupt t)" "R s t \<Longrightarrow> kept R s (reset_interrupt t)" "R s t \<Longrightarrow> R s (unexpected_floppy_interrupt t)"
  unfolding rw_interrupt_def seek_interrupt_def recal_interrupt_def reset_interrupt_def unexpected_floppy_interrupt_def
  by (assumption | rule result_pair | rule fd_rules keeps lets)+

lemma handler_case [fd_rules]:
  "kept R s m1 \<Longrightarrow> kept R s m2 \<Longrightarrow> kept R s m3 \<Longrightarrow> kept R s m4 \<Longrightarrow> kept R s (case x of
     Rw_interrupt \<Rightarrow> m1 | Seek_interrupt \<Rightarrow> m2 | Recal_interrupt \<Rightarrow> m3 | Reset_interrupt \<Rightarrow> m4)"
  by (cases x) simp_all

lemma floppy_interrupt [fd_rules]: "R s t \<Longrightarrow> kept R s (floppy_interrupt t)"
  unfolding floppy_interrupt_def by (assumption | rule fd_rules keeps lets)+

end

text \<open>Most relations ignore the variables of the driver altogether.\<close>

lemma only_fdc:
  assumes "\<And>t f. R s t \<Longrightarrow> R s (t\<lparr>fdc := f\<rparr>)" and "R s t"
  shows "R s (upd_fdc f t)" "R s (select_drive dev t)" "R s (locate block (select_drive dev t))"
  using assms by (simp_all add: upd_fdc_def select_drive_def locate_def Let_def)

text \<open>Tasks and files do not notice the driver.\<close>

lemma framed_fdc [keeps]: "framed s t \<Longrightarrow> framed s (t\<lparr>fdc := f\<rparr>)"
  by (simp add: framed_def)

interpretation floppy_framed: floppy_relation framed
  by unfold_locales (assumption | rule keeps only_fdc [where R = framed, OF framed_fdc])+

end
