(* ===== verification/FrameOps.thy ===== *)
theory FrameOps
  imports FloppyFrame
begin

text \<open>
  The frame of every operation of the block layer, the buffer cache, the bitmaps, the inodes, the
  super blocks and the path walk, one line each: the structure of the code does the proof.
\<close>

section \<open>Block drivers\<close>

lemma frames_driver [keeps]:
  "frames s m \<Longrightarrow> frames s m' \<Longrightarrow> frames s m'' \<Longrightarrow>
   frames s (case d of Ramdisk \<Rightarrow> m | Harddisk \<Rightarrow> m' | Floppy \<Rightarrow> m'')"
  by (cases d) simp_all

lemma lock_buffer_frames [keeps]: "framed s t \<Longrightarrow> frames s (lock_buffer x1 t)"
  unfolding lock_buffer_def by (assumption | rule keeps let_values)+

lemma unlock_buffer_framed [keeps]: "framed s t \<Longrightarrow> framed s (unlock_buffer x1 t)"
  unfolding unlock_buffer_def by (assumption | rule keeps let_values)+

lemma set_current_framed [keeps]: "framed s t \<Longrightarrow> framed s (set_current x1 x2 t)"
  unfolding set_current_def by (assumption | rule keeps let_values)+

lemma end_request_framed [keeps]: "framed s t \<Longrightarrow> framed s (end_request x1 x2 t)"
  unfolding end_request_def by (assumption | rule keeps let_values)+

lemma rd_write_frames [keeps]: "framed s t \<Longrightarrow> frames s (rd_write x1 x2 x3 t)"
  unfolding rd_write_def by (assumption | rule keeps let_values)+

lemma rd_read_frames [keeps]: "framed s t \<Longrightarrow> frames s (rd_read x1 x2 x3 t)"
  unfolding rd_read_def by (assumption | rule keeps let_values)+

lemma rd_step_frames [keeps]: "framed s t \<Longrightarrow> frames s (rd_step x1 t)"
  unfolding rd_step_def by (assumption | rule keeps let_values)+

lemma do_rd_request_frames [keeps]: "framed s t \<Longrightarrow> frames s (do_rd_request t)"
  unfolding do_rd_request_def by (assumption | rule keeps let_values)+

lemma upd_hd_framed [keeps]: "framed s t \<Longrightarrow> framed s (upd_hd x1 t)"
  unfolding upd_hd_def by (assumption | rule keeps let_values)+

lemma framed_outb [keeps]: "framed s t \<Longrightarrow> framed s (outb v p t)"
  unfolding outb_def by (assumption | rule keeps)+

lemma framed_in_port [keeps]: "framed s t \<Longrightarrow> framed s (snd (in_port p t))" "framed s t \<Longrightarrow> framed s (snd (inb p t))"
  by (simp_all add: in_port_def inb_def framed_def)

lemma framed_write_words [keeps]: "framed s t \<Longrightarrow> framed s (write_words n b k t)"
  by (induction n arbitrary: k t) (simp_all add: framed_fields)

lemma framed_polls [keeps]:
  "framed s t \<Longrightarrow> framed s (snd (poll_ready n t))" "framed s t \<Longrightarrow> framed s (poll_busy n t)" "framed s t \<Longrightarrow> framed s (snd (poll_drq n t))"
  by (induction n arbitrary: t) (simp_all add: inb_def in_port_def framed_fields)

lemma frames_inb:
  "framed s t \<Longrightarrow> (\<And>a u. framed s u \<Longrightarrow> frames s (f a u)) \<Longrightarrow> frames s (case inb p t of (a, u) \<Rightarrow> f a u)"
  using framed_in_port(2) [of s t p] by (auto split: prod.split)

lemma frames_poll_drq:
  "framed s t \<Longrightarrow> (\<And>a u. framed s u \<Longrightarrow> frames s (f a u)) \<Longrightarrow> frames s (case poll_drq n t of (a, u) \<Rightarrow> f a u)"
  using framed_polls(3) [of s t n] by (auto split: prod.split)

lemma frames_controller_ready:
  "framed s t \<Longrightarrow> (\<And>a u. framed s u \<Longrightarrow> frames s (f a u)) \<Longrightarrow> frames s (case controller_ready t of (a, u) \<Rightarrow> f a u)"
  using framed_polls(1) [of s t 10000] by (auto simp: controller_ready_def split: prod.split)

lemma framed_drive_busy [keeps]: "framed s t \<Longrightarrow> framed s (snd (drive_busy t))"
  using framed_in_port(2) [OF framed_polls(2) [of s t 10000], of HD_STATUS] by (auto simp: drive_busy_def Let_def split: prod.split)

lemmas pairs = frames_inb frames_poll_drq frames_controller_ready

lemma port_write_frames [keeps]: "framed s t \<Longrightarrow> frames s (port_write x1 x2 t)"
  unfolding port_write_def by (assumption | rule pairs | rule keeps let_values)+

lemma hd_out_frames [keeps]: "framed s t \<Longrightarrow> frames s (hd_out x1 x2 x3 x4 x5 x6 x7 t)"
  unfolding hd_out_def by (assumption | rule pairs | rule keeps let_values)+

lemma reset_controller_framed [keeps]: "framed s t \<Longrightarrow> framed s (reset_controller t)"
  unfolding reset_controller_def by (assumption | rule pairs | rule keeps let_values)+

lemma reset_hd_frames [keeps]: "framed s t \<Longrightarrow> frames s (reset_hd x1 t)"
  unfolding reset_hd_def by (assumption | rule pairs | rule keeps let_values)+

lemma set_current_errors_framed [keeps]: "framed s t \<Longrightarrow> framed s (set_current_errors x1 t)"
  unfolding set_current_errors_def by (assumption | rule pairs | rule keeps let_values)+

lemma bad_rw_intr_framed [keeps]: "framed s t \<Longrightarrow> framed s (bad_rw_intr t)"
  unfolding bad_rw_intr_def by (assumption | rule pairs | rule keeps let_values)+

lemma hd_step_frames [keeps]: "framed s t \<Longrightarrow> frames s (hd_step x1 t)"
  unfolding hd_step_def by (assumption | rule pairs | rule keeps let_values)+

lemma do_hd_request_frames [keeps]: "framed s t \<Longrightarrow> frames s (do_hd_request t)"
  unfolding do_hd_request_def by (assumption | rule pairs | rule keeps let_values)+

lemmas floppy_frames [keeps] = floppy_framed.do_fd_request

lemma run_driver_frames [keeps]: "framed s t \<Longrightarrow> frames s (run_driver x1 t)"
  unfolding run_driver_def by (assumption | rule pairs | rule keeps let_values)+

lemma add_request_frames [keeps]: "framed s t \<Longrightarrow> frames s (add_request x1 x2 t)"
  unfolding add_request_def by (assumption | rule pairs | rule keeps let_values)+

lemma make_request_frames [keeps]: "framed s t \<Longrightarrow> frames s (make_request x1 x2 x3 t)"
  unfolding make_request_def by (assumption | rule pairs | rule keeps let_values)+

lemma ll_rw_block_frames [keeps]: "framed s t \<Longrightarrow> frames s (ll_rw_block x1 x2 t)"
  unfolding ll_rw_block_def by (assumption | rule pairs | rule keeps let_values)+

section \<open>The buffer cache\<close>

lemma wait_on_buffer_frames [keeps]: "framed s t \<Longrightarrow> frames s (wait_on_buffer x1 t)"
  unfolding wait_on_buffer_def by (assumption | rule keeps let_values)+

lemma wait_on_super_frames [keeps]: "framed s t \<Longrightarrow> frames s (wait_on_super x1 t)"
  unfolding wait_on_super_def by (assumption | rule keeps let_values)+

lemma lock_super_frames [keeps]: "framed s t \<Longrightarrow> frames s (lock_super x1 t)"
  unfolding lock_super_def by (assumption | rule keeps let_values)+

lemma free_super_framed [keeps]: "framed s t \<Longrightarrow> framed s (free_super x1 t)"
  unfolding free_super_def by (assumption | rule keeps let_values)+

lemma get_super_frames [keeps]: "framed s t \<Longrightarrow> frames s (get_super x1 t)"
  unfolding get_super_def by (assumption | rule keeps let_values)+

lemma set_hash_framed [keeps]: "framed s t \<Longrightarrow> framed s (set_hash x1 x2 t)"
  unfolding set_hash_def by (assumption | rule keeps let_values)+

lemma remove_from_hash_framed [keeps]: "framed s t \<Longrightarrow> framed s (remove_from_hash x1 t)"
  unfolding remove_from_hash_def by (assumption | rule keeps let_values)+

lemma remove_from_queues_frames [keeps]: "framed s t \<Longrightarrow> frames s (remove_from_queues x1 t)"
  unfolding remove_from_queues_def by (assumption | rule keeps let_values)+

lemma insert_into_queues_frames [keeps]: "framed s t \<Longrightarrow> frames s (insert_into_queues x1 t)"
  unfolding insert_into_queues_def by (assumption | rule keeps let_values)+

lemma find_buffer_frames [keeps]: "framed s t \<Longrightarrow> frames s (find_buffer x1 x2 t)"
  unfolding find_buffer_def by (assumption | rule keeps let_values)+

lemma get_hash_table_frames [keeps]: "framed s t \<Longrightarrow> frames s (get_hash_table x1 x2 t)"
  unfolding get_hash_table_def by (assumption | rule keeps let_values)+

lemma brelse_frames [keeps]: "framed s t \<Longrightarrow> frames s (brelse x1 t)"
  unfolding brelse_def by (assumption | rule keeps let_values)+

lemma wait_on_inode_frames [keeps]: "framed s t \<Longrightarrow> frames s (wait_on_inode x1 t)"
  unfolding wait_on_inode_def by (assumption | rule keeps let_values)+

lemma lock_inode_frames [keeps]: "framed s t \<Longrightarrow> frames s (lock_inode x1 t)"
  unfolding lock_inode_def by (assumption | rule keeps let_values)+

lemma unlock_inode_framed [keeps]: "framed s t \<Longrightarrow> framed s (unlock_inode x1 t)"
  unfolding unlock_inode_def by (assumption | rule keeps let_values)+

lemma write_dirty_frames [keeps]: "framed s t \<Longrightarrow> frames s (write_dirty x1 t)"
  unfolding write_dirty_def by (assumption | rule keeps let_values)+

text \<open>The bodies that take the \<open>getblk\<close> to use.\<close>

lemma bread_by_frames [keeps]:
  assumes gb: "\<And>s t dev block. framed s t \<Longrightarrow> frames s (gb dev block t)"
  shows "framed s t \<Longrightarrow> frames s (bread_by gb x1 x2 t)"
  unfolding bread_by_def by (assumption | rule gb | rule keeps let_values)+

lemma write_inode_by_frames [keeps]:
  assumes gb: "\<And>s t dev block. framed s t \<Longrightarrow> frames s (gb dev block t)"
  shows "framed s t \<Longrightarrow> frames s (write_inode_by gb x1 t)"
  unfolding write_inode_by_def by (assumption | rule gb | rule keeps let_values)+

lemma sync_inodes_by_frames [keeps]:
  assumes gb: "\<And>s t dev block. framed s t \<Longrightarrow> frames s (gb dev block t)"
  shows "framed s t \<Longrightarrow> frames s (sync_inodes_by gb  t)"
  unfolding sync_inodes_by_def by (assumption | rule gb | rule keeps let_values)+

lemma sync_dev_by_frames [keeps]:
  assumes gb: "\<And>s t dev block. framed s t \<Longrightarrow> frames s (gb dev block t)"
  shows "framed s t \<Longrightarrow> frames s (sync_dev_by gb x1 t)"
  unfolding sync_dev_by_def by (assumption | rule gb | rule keeps let_values)+

lemma scan_ring_frames: "scan_ring t tmp bst = Some m \<Longrightarrow> framed s t \<Longrightarrow> frames s m"
proof -
  assume m: "scan_ring t tmp bst = Some m" and t: "framed s t"
  have "framed s t \<longrightarrow> frames s r" if "scan_ring t tmp bst = Some r" for t tmp bst r
  proof (rule scan_ring.raw_induct [where P = "\<lambda>t tmp bst r. framed s t \<longrightarrow> frames s r", OF _ that])
    fix c t tmp bst r
    assume IH: "\<And>t tmp bst r. c t tmp bst = Some r \<Longrightarrow> framed s t \<longrightarrow> frames s r"
      and eq: "(let free = (b_count (bh t tmp) = 0);
         better = (free \<and> (case bst of None \<Rightarrow> True | Some b \<Rightarrow> slt (BADNESS (bh t tmp)) (BADNESS (bh t b))));
         bst = (if better then Some tmp else bst)
     in if better \<and> BADNESS (bh t tmp) = 0 then Some (Ret bst t)
        else case b_next_free (bh t tmp) of None \<Rightarrow> Some Fault
          | Some n \<Rightarrow> if n = free_list t then Some (Ret bst t) else c t n bst) = Some r"
    show "framed s t \<longrightarrow> frames s r"
      using eq IH by (auto simp: Let_def split: if_splits option.splits)
  qed
  then show ?thesis using m t by blast
qed

lemma find_free_frames [keeps]: "framed s t \<Longrightarrow> frames s (find_free t)"
  by (auto simp: find_free_def intro: scan_ring_frames split: option.split)

lemma clean_buffer_frames [keeps]:
  assumes gb: "\<And>s t dev block. framed s t \<Longrightarrow> frames s (gb dev block t)"
  shows "framed s t \<Longrightarrow> frames s (clean_buffer gb x1 t)"
  unfolding clean_buffer_def by (assumption | rule gb | rule keeps let_values)+

lemma take_buffer_frames [keeps]: "framed s t \<Longrightarrow> frames s (take_buffer x1 x2 x3 t)"
  unfolding take_buffer_def by (assumption | rule keeps let_values)+

lemma getblk_by_frames [keeps]:
  assumes gb: "\<And>s t dev block. framed s t \<Longrightarrow> frames s (gb dev block t)"
  shows "framed s t \<Longrightarrow> frames s (getblk_by gb x1 x2 t)"
  unfolding getblk_by_def by (assumption | rule gb | rule keeps let_values)+

lemma getblk_fuel_frames: "framed s t \<Longrightarrow> frames s (getblk_fuel n x1 x2 t)"
proof (induction n arbitrary: s t x1 x2)
  case (Suc n)
  show ?case unfolding getblk_fuel.simps by (rule getblk_by_frames [OF Suc.IH Suc.prems])
qed simp

lemma getblk_frames [keeps]: "framed s t \<Longrightarrow> frames s (getblk x1 x2 t)"
  unfolding getblk_def by (rule getblk_fuel_frames)

lemma bread_frames [keeps]: "framed s t \<Longrightarrow> frames s (bread x1 x2 t)"
  unfolding bread_def by (assumption | rule keeps let_values)+

lemma write_inode_frames [keeps]: "framed s t \<Longrightarrow> frames s (write_inode x1 t)"
  unfolding write_inode_def by (assumption | rule keeps let_values)+

lemma sync_inodes_frames [keeps]: "framed s t \<Longrightarrow> frames s (sync_inodes t)"
  unfolding sync_inodes_def by (assumption | rule keeps let_values)+

lemma sync_dev_frames [keeps]: "framed s t \<Longrightarrow> frames s (sync_dev x1 t)"
  unfolding sync_dev_def by (assumption | rule keeps let_values)+

lemma sys_sync_frames [keeps]: "framed s t \<Longrightarrow> frames s (sys_sync t)"
  unfolding sys_sync_def by (assumption | rule keeps let_values)+

lemma invalidate_buffers_frames [keeps]: "framed s t \<Longrightarrow> frames s (invalidate_buffers x1 t)"
  unfolding invalidate_buffers_def by (assumption | rule keeps let_values)+

section \<open>Bitmaps and inodes\<close>

lemma free_block_frames [keeps]: "framed s t \<Longrightarrow> frames s (free_block x1 x2 t)"
  unfolding free_block_def by (assumption | rule keeps let_values)+

lemma clear_block_framed [keeps]: "framed s t \<Longrightarrow> framed s (clear_block x1 t)"
  unfolding clear_block_def by (assumption | rule keeps let_values)+

lemma new_block_frames [keeps]: "framed s t \<Longrightarrow> frames s (new_block x1 t)"
  unfolding new_block_def by (assumption | rule keeps let_values)+

lemma free_zones_frames [keeps]:
  assumes f: "\<And>s t dev block. framed s t \<Longrightarrow> frames s (f dev block t)"
  shows "framed s t \<Longrightarrow> frames s (free_zones f x1 x2 t)"
  unfolding free_zones_def by (assumption | rule f | rule keeps let_values)+

lemma free_ind_frames [keeps]: "framed s t \<Longrightarrow> frames s (free_ind x1 x2 t)"
  unfolding free_ind_def by (assumption | rule keeps let_values)+

lemma free_dind_frames [keeps]: "framed s t \<Longrightarrow> frames s (free_dind x1 x2 t)"
  unfolding free_dind_def by (assumption | rule keeps let_values)+

lemma set_zone_framed [keeps]: "framed s t \<Longrightarrow> framed s (set_zone x1 x2 x3 t)"
  unfolding set_zone_def by (assumption | rule keeps let_values)+

lemma truncate_inode_frames [keeps]: "framed s t \<Longrightarrow> frames s (truncate_inode x1 t)"
  unfolding truncate_inode_def by (assumption | rule keeps let_values)+

lemma invalidate_inodes_frames [keeps]: "framed s t \<Longrightarrow> frames s (invalidate_inodes x1 t)"
  unfolding invalidate_inodes_def by (assumption | rule keeps let_values)+

lemma create_zone_frames [keeps]: "framed s t \<Longrightarrow> frames s (create_zone x1 x2 x3 t)"
  unfolding create_zone_def by (assumption | rule keeps let_values)+

lemma indirect_frames [keeps]: "framed s t \<Longrightarrow> frames s (indirect x1 x2 x3 x4 t)"
  unfolding indirect_def by (assumption | rule keeps let_values)+

lemma bmap_create_frames [keeps]: "framed s t \<Longrightarrow> frames s (bmap_create x1 x2 x3 t)"
  unfolding bmap_create_def by (assumption | rule keeps let_values)+

lemma bmap_frames [keeps]: "framed s t \<Longrightarrow> frames s (bmap x1 x2 t)"
  unfolding bmap_def by (assumption | rule keeps let_values)+

lemma create_block_frames [keeps]: "framed s t \<Longrightarrow> frames s (create_block x1 x2 t)"
  unfolding create_block_def by (assumption | rule keeps let_values)+

lemma free_inode_frames [keeps]: "framed s t \<Longrightarrow> frames s (free_inode x1 t)"
  unfolding free_inode_def by (assumption | rule keeps let_values)+

lemma dec_count_framed [keeps]: "framed s t \<Longrightarrow> framed s (dec_count x1 t)"
  unfolding dec_count_def by (assumption | rule keeps let_values)+

lemma iput_repeat_frames [keeps]: "framed s t \<Longrightarrow> frames s (iput_repeat n i t)"
proof (induction n arbitrary: t)
  case (Suc n)
  show ?case unfolding iput_repeat.simps by (assumption | rule Suc.prems Suc.IH | rule keeps let_values)+
qed simp

lemma iput_frames [keeps]: "framed s t \<Longrightarrow> frames s (iput x1 t)"
  unfolding iput_def by (assumption | rule keeps let_values)+

lemma get_empty_inode_frames [keeps]: "framed s t \<Longrightarrow> frames s (get_empty_inode t)"
  unfolding get_empty_inode_def by (assumption | rule keeps let_values)+

lemma get_pipe_inode_frames [keeps]: "framed s t \<Longrightarrow> frames s (get_pipe_inode t)"
  unfolding get_pipe_inode_def by (assumption | rule keeps let_values)+

lemma read_inode_frames [keeps]: "framed s t \<Longrightarrow> frames s (read_inode x1 t)"
  unfolding read_inode_def by (assumption | rule keeps let_values)+

lemma iget_search_frames [keeps]: "framed s t \<Longrightarrow> frames s (iget_search n dev nr spare t)"
proof (induction n arbitrary: t dev nr)
  case (Suc n)
  show ?case unfolding iget_search.simps by (assumption | rule Suc.prems Suc.IH | rule keeps let_values)+
qed simp

lemma iget_frames [keeps]: "framed s t \<Longrightarrow> frames s (iget x1 x2 t)"
  unfolding iget_def by (assumption | rule keeps let_values)+

lemma new_inode_frames [keeps]: "framed s t \<Longrightarrow> frames s (new_inode x1 t)"
  unfolding new_inode_def by (assumption | rule keeps let_values)+

section \<open>Paths and directories\<close>

lemma set_de_inode_framed [keeps]: "framed s t \<Longrightarrow> framed s (set_de_inode x1 x2 x3 t)"
  unfolding set_de_inode_def by (assumption | rule keeps let_values)+

lemma next_dir_block_frames [keeps]:
  assumes f: "\<And>s t i n. framed s t \<Longrightarrow> frames s (f i n t)"
  shows "framed s t \<Longrightarrow> frames s (next_dir_block f x1 x2 x3 t)"
  unfolding next_dir_block_def by (assumption | rule f | rule keeps let_values)+

lemma find_step_frames [keeps]: "framed s t \<Longrightarrow> frames s (find_step x1 x2 x3 x4 x5 t)"
  unfolding find_step_def by (assumption | rule keeps let_values)+

lemma dot_dot_frames [keeps]: "framed s t \<Longrightarrow> frames s (dot_dot x1 x2 x3 t)"
  unfolding dot_dot_def by (assumption | rule keeps let_values)+

lemma find_entry_frames [keeps]: "framed s t \<Longrightarrow> frames s (find_entry x1 x2 x3 t)"
  unfolding find_entry_def by (assumption | rule keeps let_values)+

lemma put_name_framed [keeps]: "framed s t \<Longrightarrow> framed s (put_name x1 x2 x3 x4 t)"
  unfolding put_name_def by (assumption | rule keeps let_values)+

lemma add_step_frames [keeps]: "framed s t \<Longrightarrow> frames s (add_step x1 x2 x3 x4 t)"
  unfolding add_step_def by (assumption | rule keeps let_values)+

lemma add_entry_frames [keeps]: "framed s t \<Longrightarrow> frames s (add_entry x1 x2 x3 t)"
  unfolding add_entry_def by (assumption | rule keeps let_values)+

lemma get_dir_step_frames [keeps]: "framed s t \<Longrightarrow> frames s (get_dir_step x1 t)"
  unfolding get_dir_step_def by (assumption | rule keeps let_values)+

lemma get_dir_frames [keeps]: "framed s t \<Longrightarrow> frames s (get_dir x1 t)"
  unfolding get_dir_def by (assumption | rule keeps let_values)+

lemma dir_namei_frames [keeps]: "framed s t \<Longrightarrow> frames s (dir_namei x1 t)"
  unfolding dir_namei_def by (assumption | rule keeps let_values)+

lemma namei_frames [keeps]: "framed s t \<Longrightarrow> frames s (namei x1 t)"
  unfolding namei_def by (assumption | rule keeps let_values)+

lemma iput_ret_frames [keeps]: "framed s t \<Longrightarrow> frames s (iput_ret x1 x2 t)"
  unfolding iput_ret_def by (assumption | rule keeps let_values)+

lemma iput2_ret_frames [keeps]: "framed s t \<Longrightarrow> frames s (iput2_ret x1 x2 x3 t)"
  unfolding iput2_ret_def by (assumption | rule keeps let_values)+

lemma create_file_frames [keeps]: "framed s t \<Longrightarrow> frames s (create_file x1 x2 x3 x4 x5 t)"
  unfolding create_file_def by (assumption | rule keeps let_values)+

lemma open_existing_frames [keeps]: "framed s t \<Longrightarrow> frames s (open_existing x1 x2 x3 x4 t)"
  unfolding open_existing_def by (assumption | rule keeps let_values)+

lemma open_namei_frames [keeps]: "framed s t \<Longrightarrow> frames s (open_namei x1 x2 x3 t)"
  unfolding open_namei_def by (assumption | rule keeps let_values)+

lemma sys_mknod_frames [keeps]: "framed s t \<Longrightarrow> frames s (sys_mknod x1 x2 x3 t)"
  unfolding sys_mknod_def by (assumption | rule keeps let_values)+

lemma put_dots_framed [keeps]: "framed s t \<Longrightarrow> framed s (put_dots x1 x2 x3 t)"
  unfolding put_dots_def by (assumption | rule keeps let_values)+

lemma link_dir_frames [keeps]: "framed s t \<Longrightarrow> frames s (link_dir x1 x2 x3 x4 t)"
  unfolding link_dir_def by (assumption | rule keeps let_values)+

lemma make_dir_frames [keeps]: "framed s t \<Longrightarrow> frames s (make_dir x1 x2 x3 x4 x5 t)"
  unfolding make_dir_def by (assumption | rule keeps let_values)+

lemma sys_mkdir_frames [keeps]: "framed s t \<Longrightarrow> frames s (sys_mkdir x1 x2 t)"
  unfolding sys_mkdir_def by (assumption | rule keeps let_values)+

lemma empty_step_frames [keeps]: "framed s t \<Longrightarrow> frames s (empty_step x1 x2 x3 t)"
  unfolding empty_step_def by (assumption | rule keeps let_values)+

lemma empty_dir_frames [keeps]: "framed s t \<Longrightarrow> frames s (empty_dir x1 t)"
  unfolding empty_dir_def by (assumption | rule keeps let_values)+

lemma release_ret_frames [keeps]: "framed s t \<Longrightarrow> frames s (release_ret x1 x2 x3 x4 t)"
  unfolding release_ret_def by (assumption | rule keeps let_values)+

lemma remove_dir_frames [keeps]: "framed s t \<Longrightarrow> frames s (remove_dir x1 x2 x3 x4 t)"
  unfolding remove_dir_def by (assumption | rule keeps let_values)+

lemma sys_rmdir_frames [keeps]: "framed s t \<Longrightarrow> frames s (sys_rmdir x1 t)"
  unfolding sys_rmdir_def by (assumption | rule keeps let_values)+

lemma remove_link_frames [keeps]: "framed s t \<Longrightarrow> frames s (remove_link x1 x2 x3 x4 t)"
  unfolding remove_link_def by (assumption | rule keeps let_values)+

lemma sys_unlink_frames [keeps]: "framed s t \<Longrightarrow> frames s (sys_unlink x1 t)"
  unfolding sys_unlink_def by (assumption | rule keeps let_values)+

lemma link_entry_frames [keeps]: "framed s t \<Longrightarrow> frames s (link_entry x1 x2 x3 x4 t)"
  unfolding link_entry_def by (assumption | rule keeps let_values)+

lemma sys_link_frames [keeps]: "framed s t \<Longrightarrow> frames s (sys_link x1 x2 t)"
  unfolding sys_link_def by (assumption | rule keeps let_values)+

end
