(* ===== verification/FloppyProps.thy ===== *)
theory FloppyProps
  imports FrameOps
begin

text \<open>
  Where the floppy driver sends the controller: the address of a request as track, head and sector,
  the bytes of a command, and that in no execution an address lies outside the format of a disk.
\<close>

section \<open>Formats\<close>

definition good_format :: "floppy_struct \<Rightarrow> bool" where
  "good_format t \<longleftrightarrow> unat (ft_size t) = unat (ft_sect t) * 2 * unat (ft_track t) \<and> unat (ft_sect t) \<le> 18 \<and> ft_head t = 2 \<and>
     unat (ft_track t) * 2 ^ unat (ft_stretch t) \<le> 80 \<and> unat (ft_stretch t) \<le> 1"

lemma good_formats: "t \<in> set floppy_type \<Longrightarrow> ft_sect t \<noteq> 0 \<Longrightarrow> good_format t"
  by (auto simp: floppy_type_def good_format_def)

lemma disk_format_in: "fd_type (fdc s) < length floppy_type \<Longrightarrow> disk_format s \<in> set floppy_type"
  by (simp add: disk_format_def)

text \<open>The address of a block of 512 bytes on a disk of format \<open>t\<close>.\<close>

definition addressed :: "floppy_struct \<Rightarrow> nat \<Rightarrow> fd_state \<Rightarrow> bool" where
  "addressed t block f \<longleftrightarrow> 1 \<le> unat (fd_sector f) \<and> unat (fd_sector f) \<le> unat (ft_sect t) \<and> unat (fd_head f) < unat (ft_head t) \<and>
     unat (fd_track f) < unat (ft_track t) \<and> unat (seek_track f) = unat (fd_track f) * 2 ^ unat (ft_stretch t) \<and>
     block = (unat (fd_track f) * unat (ft_head t) + unat (fd_head f)) * unat (ft_sect t) + (unat (fd_sector f) - 1)"

lemma unat_byte: "unat (x :: u32) < 256 \<Longrightarrow> unat (ucast x :: u8) = unat x"
  by (simp add: unsigned_ucast_eq unsigned_take_bit_eq take_bit_nat_eq_self)

lemma unat_wide: "unat (ucast (x :: u8) :: u32) = unat x"
proof -
  have "unat x < 2 ^ 32" by (rule less_trans [OF unsigned_less]) simp
  then show ?thesis by (simp add: unsigned_ucast_eq unsigned_take_bit_eq take_bit_nat_eq_self)
qed

lemma locate_place:
  "fd_sector (fdc (locate block s)) = ucast (block mod ft_sect (disk_format s)) + 1"
  "fd_head (fdc (locate block s)) = ucast (block div ft_sect (disk_format s) mod ft_head (disk_format s))"
  "fd_track (fdc (locate block s)) = ucast (block div ft_sect (disk_format s) div ft_head (disk_format s))"
  "seek_track (fdc (locate block s)) = ucast (push_bit (unat (ft_stretch (disk_format s))) (ucast (fd_track (fdc (locate block s))) :: u32))"
  "fd_type (fdc (locate block s)) = fd_type (fdc s)" "current_drive (fdc (locate block s)) = current_drive (fdc s)"
  "floppy (locate block s) = floppy s" "timers (locate block s) = timers s"
  by (simp_all add: locate_def Let_def upd_fdc_def)

lemma locate_addressed:
  assumes t: "disk_format s \<in> set floppy_type" "ft_sect (disk_format s) \<noteq> 0" and b: "unat block + 2 \<le> unat (ft_size (disk_format s))"
  shows "addressed (disk_format s) (unat block) (fdc (locate block s))"
    and "fd_type (fdc (locate block s)) = fd_type (fdc s)" "current_drive (fdc (locate block s)) = current_drive (fdc s)"
proof -
  let ?t = "disk_format s"
  let ?n = "unat (ft_sect ?t)" and ?b = "unat block"
  have g: "unat (ft_size ?t) = ?n * 2 * unat (ft_track ?t)" "?n \<le> 18" "ft_head ?t = 2" "unat (ft_track ?t) * 2 ^ unat (ft_stretch ?t) \<le> 80"
    "unat (ft_stretch ?t) \<le> 1" using good_formats [OF t] by (simp_all add: good_format_def)
  have n: "0 < ?n" using t(2) by (simp add: unat_gt_0)
  have track: "?b div ?n div 2 < unat (ft_track ?t)"
    using b g(1) n by (simp add: div_mult2_eq [symmetric] less_mult_imp_div_less mult.assoc mult.commute mult.left_commute)
  have k: "unat (block mod ft_sect ?t) = ?b mod ?n" "unat (block div ft_sect ?t mod 2) = ?b div ?n mod 2"
    "unat (block div ft_sect ?t div 2) = ?b div ?n div 2"
    by (simp_all add: unat_mod unat_div)
  have sec: "unat (ucast (block mod ft_sect ?t) + 1 :: u8) = ?b mod ?n + 1"
  proof -
    have "?b mod ?n < 18" using n g(2) by (meson less_le_trans mod_less_divisor)
    then have m: "unat (ucast (block mod ft_sect ?t) :: u8) = ?b mod ?n" by (subst unat_byte) (simp_all add: k)
    show ?thesis by (subst unat_add_lem [THEN iffD1]) (use m \<open>?b mod ?n < 18\<close> in simp_all)
  qed
  have hea: "unat (ucast (block div ft_sect ?t mod 2) :: u8) = ?b div ?n mod 2"
    by (subst unat_byte) (simp_all add: k)
  have small: "?b div ?n div 2 < 80" by (rule less_le_trans [OF track le_trans [OF _ g(4)]]) simp
  then have tra: "unat (ucast (block div ft_sect ?t div 2) :: u8) = ?b div ?n div 2"
    by (subst unat_byte) (simp_all add: k)
  let ?f = "fdc (locate block s)"
  have f: "fd_sector ?f = ucast (block mod ft_sect ?t) + 1" "fd_head ?f = ucast (block div ft_sect ?t mod 2)"
    "fd_track ?f = ucast (block div ft_sect ?t div 2)" "seek_track ?f = ucast (push_bit (unat (ft_stretch ?t)) (ucast (fd_track ?f) :: u32))"
    by (simp_all add: locate_place g(3))
  have "unat (push_bit (unat (ft_stretch ?t)) (ucast (fd_track ?f) :: u32)) = unat (fd_track ?f) * 2 ^ unat (ft_stretch ?t)"
    using small g(5) tra [folded f(3)]
    by (cases "unat (ft_stretch ?t)") (simp_all add: push_bit_eq_mult unat_word_ariths unat_wide)
  moreover have "unat (fd_track ?f) * 2 ^ unat (ft_stretch ?t) < 80"
  proof -
    have "unat (fd_track ?f) < unat (ft_track ?t)" by (simp only: f(3) tra track)
    then have "unat (fd_track ?f) * 2 ^ unat (ft_stretch ?t) < unat (ft_track ?t) * 2 ^ unat (ft_stretch ?t)" by simp
    then show ?thesis by (rule less_le_trans [OF _ g(4)])
  qed
  ultimately have seek: "unat (seek_track ?f) = unat (fd_track ?f) * 2 ^ unat (ft_stretch ?t)"
    unfolding f(4) by (subst unat_byte) simp_all
  have "?b = (?b div ?n div 2 * 2 + ?b div ?n mod 2) * ?n + ?b mod ?n"
    by simp
  then show "addressed ?t ?b ?f"
    unfolding addressed_def seek f(1-3) sec hea tra g(3) using n track mod_less_divisor [OF n, of ?b] by simp
  show "fd_type (fdc (locate block s)) = fd_type (fdc s)" "current_drive (fdc (locate block s)) = current_drive (fdc s)"
    by (simp_all add: locate_place)
qed

section \<open>The place on the disk in every execution\<close>

text \<open>
  The drive exists, and track, head and sector are those of one of the formats. A sector is 0 only
  before the first request.
\<close>

definition on_disk :: "fd_state \<Rightarrow> bool" where
  "on_disk f \<longleftrightarrow> fd_type f < length floppy_type \<and> unat (current_drive f) < 4 \<and>
     (\<exists>t\<in>set floppy_type. unat (fd_sector f) \<le> unat (ft_sect t) \<and> unat (fd_head f) < unat (ft_head t) \<and>
        unat (fd_track f) < unat (ft_track t) \<and> unat (seek_track f) = unat (fd_track f) * 2 ^ unat (ft_stretch t))"

lemma on_disk_place: "place f = place g \<Longrightarrow> on_disk f = on_disk g"
  by (simp add: on_disk_def place_def)

definition sectors_ok :: "kstate \<Rightarrow> bool" where
  "sectors_ok s \<longleftrightarrow> (\<forall>r. unat (r_sector (request s r)) + 2 < 2 ^ 32)"

definition blocks_ok :: "(nat \<Rightarrow> buffer_head) \<Rightarrow> bool" where
  "blocks_ok h \<longleftrightarrow> (\<forall>b. unat (b_blocknr (h b)) < 2 ^ 31 - 1)"

definition fd_inv :: "kstate \<Rightarrow> bool" where
  "fd_inv s \<longleftrightarrow> on_disk (fdc s) \<and> sectors_ok s \<and> blocks_ok (bh s) \<and> request_fn s 2 = Some Floppy"

definition fd_kept :: "kstate \<Rightarrow> kstate \<Rightarrow> bool" where
  "fd_kept s t \<longleftrightarrow> (fd_inv s \<longrightarrow> fd_inv t)"

lemma fd_kept_same: "fd_kept s t \<Longrightarrow> fdc u = fdc t \<Longrightarrow> (\<And>r. r_sector (request u r) = r_sector (request t r)) \<Longrightarrow> request_fn u = request_fn t \<Longrightarrow>
    (\<And>b. b_blocknr (bh u b) = b_blocknr (bh t b)) \<Longrightarrow> fd_kept s u"
  by (simp add: fd_kept_def fd_inv_def sectors_ok_def blocks_ok_def)

lemma queue_same:
  assumes "is_queue q"
  shows "fdc (put_wait q p t) = fdc t" "r_sector (request (put_wait q p t) r) = r_sector (request t r)" "request_fn (put_wait q p t) = request_fn t"
    "b_blocknr (bh (put_wait q p t) b) = b_blocknr (bh t b)"
  using assms by (auto simp: is_queue_def queue_simps state_simps)

lemma set_state_same: "bh (set_state v p t) = bh t" "fdc (set_state v p t) = fdc t" "request (set_state v p t) = request t" "request_fn (set_state v p t) = request_fn t"
  by (simp_all add: set_state_def state_simps split: option.split)

lemma fd_kept_wake: "is_queue q \<Longrightarrow> fd_kept s t \<Longrightarrow> fd_kept s (wake_up q t)"
  by (erule fd_kept_same) (simp_all add: wake_up_def queue_same set_state_same)

lemma fd_kept_select:
  assumes "fd_kept s t" and "unat (MINOR dev) div 4 < length floppy_type"
  shows "fd_kept s (select_drive dev t)"
proof -
  have "dev AND 3 = take_bit 2 dev" by (simp add: take_bit_eq_mask mask_eq_exp_minus_1)
  then have "unat (dev AND 3) < 4" by (simp add: unsigned_take_bit_eq take_bit_nat_def)
  then have "unat (ucast (dev AND 3) :: u8) < 4" by (subst unat_byte) simp_all
  with assms show ?thesis by (simp add: fd_kept_def fd_inv_def on_disk_def sectors_ok_def blocks_ok_def select_drive_def upd_fdc_def)
qed

lemma fd_kept_locate:
  assumes "fd_kept s t" and "unat (MINOR dev) div 4 < length floppy_type" and "block = r_sector (request t r)"
    and "\<not> ft_size (disk_format (select_drive dev t)) < block + 2" and "ft_sect (disk_format (select_drive dev t)) \<noteq> 0"
  shows "fd_kept s (locate block (select_drive dev t))"
proof (unfold fd_kept_def, intro impI)
  let ?u = "select_drive dev t"
  assume "fd_inv s"
  then have u: "fd_inv ?u" using fd_kept_select [OF assms(1,2)] by (simp add: fd_kept_def)
  then have b: "unat block + 2 < 2 ^ 32" by (simp add: fd_inv_def sectors_ok_def blocks_ok_def assms(3) select_drive_def upd_fdc_def)
  then have "unat (block + 2) = unat block + 2" by (subst unat_add_lem [THEN iffD1]) simp_all
  then have size: "unat block + 2 \<le> unat (ft_size (disk_format ?u))" using assms(4) by (simp add: word_less_nat_alt)
  have t: "disk_format ?u \<in> set floppy_type" by (rule disk_format_in) (use u in \<open>simp add: fd_inv_def on_disk_def\<close>)
  from locate_addressed [OF t assms(5) size] t u show "fd_inv (locate block ?u)"
    by (auto simp: fd_inv_def on_disk_def addressed_def sectors_ok_def blocks_ok_def) (auto simp: locate_def Let_def upd_fdc_def)
qed

lemma fd_kept_fields:
  assumes "fd_kept s t"
  shows "fd_kept s (t\<lparr>ports := a1\<rparr>)" "fd_kept s (t\<lparr>floppy := a2\<rparr>)" "fd_kept s (t\<lparr>timers := a3\<rparr>)"
    "fd_kept s (t\<lparr>current_request := a4\<rparr>)" "(\<And>x. b_blocknr (g x) = b_blocknr x) \<Longrightarrow> fd_kept s (upd_bh b g t)" "(\<And>q. r_sector (h q) = r_sector q) \<Longrightarrow> fd_kept s (upd_req i h t)"
    "(\<And>x. place (f x) = place x) \<Longrightarrow> fd_kept s (upd_fdc f t)" "fd_kept s (t\<lparr>tsk := a5\<rparr>)" "fd_kept s (t\<lparr>current := a6\<rparr>)"
  using assms on_disk_place [of "f (fdc t)" "fdc t"]
  by (simp_all add: fd_kept_def fd_inv_def sectors_ok_def blocks_ok_def upd_fdc_def state_simps)

interpretation floppy_place: floppy_relation fd_kept
  by unfold_locales (assumption | rule fd_kept_select fd_kept_locate fd_kept_wake | rule fd_kept_fields | simp; fail)+

text \<open>Sleeping and ticks of the clock do not move the place either.\<close>

lemma choose_task_only_tasks: "choose_task s = Some (n, t) \<Longrightarrow> \<exists>f. t = s\<lparr>tsk := f\<rparr>"
proof -
  assume c: "choose_task s = Some (n, t)"
  have "\<exists>f. snd r = s\<lparr>tsk := f\<rparr>" if "choose_task s = Some r" for s r
  proof (rule choose_task.raw_induct [where P = "\<lambda>s r. \<exists>f. snd r = s\<lparr>tsk := f\<rparr>", OF _ that])
    fix c s r
    assume IH: "\<And>s r. c s = Some r \<Longrightarrow> \<exists>f. snd r = s\<lparr>tsk := f\<rparr>"
      and eq: "(let (c', nxt) = pick (NR_TASKS - 1) (- 1) 0 s in
         if tst c' then Some (nxt, s) else c (for_tasks (NR_TASKS - 1) refill s)) = Some r"
    obtain g where g: "for_tasks (NR_TASKS - 1) refill s = s\<lparr>tsk := g\<rparr>" using for_tasks_only_tasks by metis
    from eq IH [of "for_tasks (NR_TASKS - 1) refill s" r] show "\<exists>f. snd r = s\<lparr>tsk := f\<rparr>"
      by (auto simp del: One_nat_def simp: g split: prod.splits if_splits intro: exI [of _ "tsk s"])
  qed
  from this [OF c] show ?thesis by simp
qed

lemma schedule_only_tasks: "left_in (schedule s) t \<Longrightarrow> \<exists>f c. t = s\<lparr>tsk := f, current := c\<rparr>"
proof -
  assume t: "left_in (schedule s) t"
  obtain g where g: "after_signals s = s\<lparr>tsk := g\<rparr>" unfolding after_signals_def by (metis for_tasks_only_tasks)
  obtain n u where u: "choose_task (after_signals s) = Some (n, u)" "t = u\<lparr>current := n\<rparr>"
    using t by (auto simp del: One_nat_def simp: schedule_def Let_def after_signals_def [symmetric] split: if_splits option.splits)
  from choose_task_only_tasks [OF u(1)] u(2) g show ?thesis by auto
qed

named_theorems place_rules "what keeps the place on the disk"

lemma fd_kept_simple [place_rules]:
  "(b \<Longrightarrow> fd_kept s t) \<Longrightarrow> (\<not> b \<Longrightarrow> fd_kept s u) \<Longrightarrow> fd_kept s (if b then t else u)"
  "fd_kept s t \<Longrightarrow> (\<And>x. fd_kept s (f x)) \<Longrightarrow> fd_kept s (case v of None \<Rightarrow> t | Some x \<Rightarrow> f x)"
  "fd_kept s t \<Longrightarrow> (\<And>u. fd_kept s u \<Longrightarrow> fd_kept s (g u)) \<Longrightarrow> fd_kept s (Let t g)"
  by (auto split: option.split)

lemma fd_kept_let_value: "(\<And>x. fd_kept s (f x)) \<Longrightarrow> fd_kept s (Let v f)"
  by simp

lemmas [place_rules] = fd_kept_fields(1-6,8,9) fd_kept_wake

lemma schedule_place [place_rules]: "fd_kept s t \<Longrightarrow> kept fd_kept s (schedule t)"
proof (cases "schedule t")
  case (Ret a u)
  assume "fd_kept s t"
  with schedule_only_tasks [of t u] Ret show ?thesis by (auto intro: fd_kept_fields)
next
  case (Sleeps u)
  assume "fd_kept s t"
  with schedule_only_tasks [of t u] Sleeps show ?thesis by (auto intro: fd_kept_fields)
next
  case (Exits c u)
  then show ?thesis by (auto simp: schedule_def Let_def split: if_splits option.splits)
qed simp_all

lemma put_wait_place [place_rules]: "is_queue q \<Longrightarrow> fd_kept s t \<Longrightarrow> fd_kept s (put_wait q p t)"
  by (erule fd_kept_same) (simp_all add: queue_same)

lemma tasks_place [place_rules]: "fd_kept s t \<Longrightarrow> fd_kept s (upd_cur f t)" "fd_kept s t \<Longrightarrow> fd_kept s (set_state v p t)"
    "fd_kept s t \<Longrightarrow> fd_kept s (t\<lparr>beepcount := c\<rparr>)"
  by (erule fd_kept_same, simp_all add: set_state_same state_simps)+

lemma sleep_place [place_rules]: "is_queue q \<Longrightarrow> fd_kept s t \<Longrightarrow> kept fd_kept s (sleep_on q t)"
    "is_queue q \<Longrightarrow> fd_kept s t \<Longrightarrow> kept fd_kept s (interruptible_sleep_on q t)"
  unfolding sleep_on_def interruptible_sleep_on_def Let_def
  by (auto intro!: kept_seq schedule_place tasks_place put_wait_place fd_kept_fields split: if_split)

text \<open>A request for a floppy disk, from \<open>ll_rw_block\<close> down.\<close>

lemma block_place [place_rules]: "fd_kept s t \<Longrightarrow> kept fd_kept s (lock_buffer b t)" "fd_kept s t \<Longrightarrow> fd_kept s (unlock_buffer b t)"
  unfolding lock_buffer_def unlock_buffer_def by (assumption | rule place_rules fd_rules keeps kept_let_value fd_kept_let_value)+

lemma floppy_timers_place [place_rules]: "fd_kept s t \<Longrightarrow> fd_kept s (floppy_timers is t)"
proof (induction "is" arbitrary: t)
  case (Cons i "is")
  show ?case unfolding floppy_timers.simps by (assumption | rule Cons.IH Cons.prems | rule place_rules fd_rules is_queue_simps fd_kept_let_value)+
qed simp

lemma tick_timers_place [place_rules]: "fd_kept s t \<Longrightarrow> kept fd_kept s (in_timers tick_timers t)"
  by (auto simp: in_timers_def tick_timers_def fd_kept_fields split: option.split)

lemma do_timer_place [place_rules]: "fd_kept s t \<Longrightarrow> kept fd_kept s (do_timer cpl t)"
  unfolding do_timer_def do_floppy_timer_def by (assumption | rule place_rules fd_rules keeps kept_let_value fd_kept_let_value)+

lemma floppy_on_place [place_rules]: "fd_kept s t \<Longrightarrow> kept fd_kept s (floppy_on nr t)"
  unfolding floppy_on_def by (assumption | rule place_rules fd_rules keeps kept_let_value)+

lemma kept_inb_place: "fd_kept s t \<Longrightarrow> (\<And>a u. fd_kept s u \<Longrightarrow> kept fd_kept s (f a u)) \<Longrightarrow> kept fd_kept s (case inb p t of (a, u) \<Rightarrow> f a u)"
  by (simp add: inb_def in_port_def fd_kept_fields)

lemma floppy_change_place [place_rules]: "fd_kept s t \<Longrightarrow> kept fd_kept s (floppy_change nr t)"
  unfolding floppy_change_def change_step_def select_wait_def
  by (assumption | rule kept_inb_place | rule place_rules fd_rules keeps kept_let_value)+

lemma add_request_place [place_rules]: "fd_inv s \<Longrightarrow> fd_kept s t \<Longrightarrow> kept fd_kept s (add_request 2 r t)"
proof -
  assume s: "fd_inv s" and t: "fd_kept s t"
  have run: "kept fd_kept s (run_driver 2 u)" if "fd_kept s u" for u
  proof -
    have "request_fn u 2 = Some Floppy" using s that by (simp add: fd_kept_def fd_inv_def)
    then show ?thesis using floppy_place.do_fd_request [OF that] by (simp add: run_driver_def)
  qed
  show ?thesis unfolding add_request_def
    by (assumption | rule t run floppy_place.own | rule place_rules keeps kept_let_value | simp)+
qed

lemma new_sector: "unat (n :: u32) < 2 ^ 31 - 1 \<Longrightarrow> unat (push_bit 1 n) + 2 < 2 ^ 32"
  by (simp add: push_bit_eq_mult unat_word_ariths)

lemma new_request_place [place_rules]:
  assumes "fd_kept s t"
  shows "fd_kept s (upd_req r (\<lambda>_. \<lparr>r_dev = dev, r_cmd = rw, r_errors = 0, r_sector = push_bit 1 (b_blocknr (bh t b)),
    r_nr_sectors = 2, r_waiting = None, r_bh = b, r_buffer = 0, r_next = None\<rparr>) t)"
  using assms new_sector [of "b_blocknr (bh t b)"] by (auto simp: fd_kept_def fd_inv_def sectors_ok_def blocks_ok_def state_simps)

lemma make_request_place [place_rules]: "fd_inv s \<Longrightarrow> fd_kept s t \<Longrightarrow> kept fd_kept s (make_request 2 rw b t)"
  unfolding make_request_def by (assumption | rule place_rules fd_rules keeps kept_let_value fd_kept_let_value)+

text \<open>
  What happens to the driver: blocks of floppy disks are read and written, its interrupt comes, its
  timers run out, the clock ticks, DMA stores data, \<open>mount\<close> looks whether a disk was changed, and
  the buffer cache uses its buffers for other blocks and data. Block numbers are below \<open>2 ^ 31 - 1\<close>:
  the last one is that of a sector number that wraps around in the driver's test.
\<close>

inductive fd_event :: "kstate \<Rightarrow> kstate \<Rightarrow> bool" where
  transfer_block: "MAJOR (ucast (b_dev (bh s b))) = 2 \<Longrightarrow> left_in (ll_rw_block rw b s) t \<Longrightarrow> fd_event s t"
| fd_interrupt: "left_in (floppy_interrupt s) t \<Longrightarrow> fd_event s t"
| fd_timer: "left_in (floppy_timer_fn fn s) t \<Longrightarrow> fd_event s t"
| clock_tick: "left_in (do_timer cpl s) t \<Longrightarrow> fd_event s t"
| dma_stores: "fd_event s (upd_fdc (tmp_floppy_area_update (\<lambda>_. d)) s)"
| disk_change: "left_in (floppy_change nr s) t \<Longrightarrow> fd_event s t"
| cache: "blocks_ok h \<Longrightarrow> fd_event s (s\<lparr>bh := h\<rparr>)"

lemma left_in_place:
  assumes "kept fd_kept s m" and "left_in m t" and "fd_inv s"
  shows "fd_inv t"
  using assms fd_kept_fields(9) [of s t] by (cases m) (auto simp: fd_kept_def fd_inv_def sectors_ok_def blocks_ok_def)

lemma fd_event_inv:
  assumes "fd_event s t" and "fd_inv s"
  shows "fd_inv t"
proof -
  have s: "fd_kept s s" by (simp add: fd_kept_def)
  note go = left_in_place [OF _ _ assms(2)]
  show ?thesis using assms(1)
  proof cases
    case (transfer_block b rw)
    have "kept fd_kept s (ll_rw_block rw b s)"
      using make_request_place [OF assms(2) s] transfer_block(1) s by (simp add: ll_rw_block_def Let_def)
    then show ?thesis by (rule go) (fact transfer_block)
  next
    case fd_interrupt
    then show ?thesis using go [OF floppy_place.floppy_interrupt [OF s]] by simp
  next
    case (fd_timer fn)
    then show ?thesis using go [OF floppy_place.motor(4) [OF s]] by simp
  next
    case (clock_tick cpl)
    then show ?thesis using go [OF do_timer_place [OF s]] by simp
  next
    case (dma_stores d)
    then show ?thesis using floppy_place.controls(9) [OF s, of "\<lambda>_. d"] assms(2) by (simp add: fd_kept_def)
  next
    case (disk_change nr)
    then show ?thesis using go [OF floppy_change_place [OF s]] by simp
  next
    case (cache h)
    then show ?thesis using assms(2) by (simp add: fd_inv_def sectors_ok_def)
  qed
qed

text \<open>
  C11. The floppy driver stays on the disk: in every execution from the boot state, however requests,
  interrupts, replies of the controller, expired timers, errors, resets and disk changes follow each other,
  the drive is one of the four, and track, head, sector and the track to seek are those of one of the
  formats, provided no block number is 0x7fffffff or more, for which the sector number wraps around.
\<close>

theorem floppy_stays_on_disk:
  assumes "fd_event\<^sup>*\<^sup>* s t" and "fdc s = fd_boot tmp" and "request_fn s 2 = Some Floppy"
    and "\<forall>r. r_sector (request s r) = 0" and "blocks_ok (bh s)"
  shows "unat (current_drive (fdc t)) < 4 \<and>
    (\<exists>f\<in>set floppy_type. unat (fd_sector (fdc t)) \<le> unat (ft_sect f) \<and> unat (fd_head (fdc t)) < unat (ft_head f) \<and>
       unat (fd_track (fdc t)) < unat (ft_track f) \<and> unat (seek_track (fdc t)) = unat (fd_track (fdc t)) * 2 ^ unat (ft_stretch f))"
proof -
  have "on_disk (fd_boot tmp)" by (simp add: on_disk_def fd_boot_def floppy_type_def)
  then have "fd_inv s" using assms(2-5) by (simp add: fd_inv_def sectors_ok_def)
  with assms(1) have "fd_inv t" by (induction rule: rtranclp_induct) (auto intro: fd_event_inv)
  then show ?thesis by (simp add: fd_inv_def on_disk_def)
qed

section \<open>A command\<close>

text \<open>The controller takes every byte at once.\<close>

definition fd_ready :: "kstate \<Rightarrow> bool" where
  "fd_ready s \<longleftrightarrow> (\<forall>n. (ucast (port_in (ports s) n FD_STATUS) :: u8) AND (STATUS_READY OR STATUS_DIR) = STATUS_READY)"

definition sent :: "u8 \<Rightarrow> kstate \<Rightarrow> kstate" where
  "sent v s = outb v FD_DATA (snd (inb FD_STATUS s))"

lemma output_byte_ready: "fd_ready s \<Longrightarrow> \<not> fd_reset (fdc s) \<Longrightarrow> output_byte v s = sent v s"
  by (simp add: output_byte_def sent_def inb_def in_port_def fd_ready_def Suc_numeral eval_nat_numeral)

lemma sent_fields [simp]: "fdc (sent v s) = fdc s" "fd_ready (sent v s) = fd_ready s" "bh (sent v s) = bh s"
    "port_out (ports (sent v s)) = (FD_DATA, ucast v) # port_out (ports s)" "disk_format (sent v s) = disk_format s" "head_drive (sent v s) = head_drive s"
  by (simp_all add: sent_def outb_def inb_def in_port_def fd_ready_def disk_format_def head_drive_def)

text \<open>Where DMA moves a block of the buffer \<open>b\<close>: to or from the buffer itself or, for a high one, \<open>tmp_floppy_area\<close>.\<close>

definition dma_address :: "buffer_head \<Rightarrow> u32" where
  "dma_address b = (if sle 0x100000 (b_addr b) then floppy_area else b_addr b)"

definition dma_bytes :: "u8 \<Rightarrow> u32 \<Rightarrow> (u16 \<times> u8) list" where
  "dma_bytes mode a = [(10, 6), (12, mode), (11, mode), (4, ucast a), (4, ucast (drop_bit 8 a)), (0x81, ucast (drop_bit 16 a)),
     (5, 0xff), (5, 3), (10, 2)]"

definition command_bytes :: "floppy_struct \<Rightarrow> fd_state \<Rightarrow> u8 list" where
  "command_bytes t f = [fd_command f, push_bit 2 (fd_head f) OR current_drive f, fd_track f, fd_head f, fd_sector f, 2,
     ucast (ft_sect t), ft_gap t, 0xFF]"

definition port_writes :: "(u16 \<times> u8) list \<Rightarrow> (u16 \<times> u16) list" where
  "port_writes xs = rev (List.map (\<lambda>(p, v). (p, ucast v)) xs)"

lemma copy_to_area_fields:
  "fdc (copy_to_area b s) = (fdc s)\<lparr>tmp_floppy_area := \<lambda>k. if k < BLOCK_SIZE then b_data (bh s b) k else tmp_floppy_area (fdc s) k\<rparr>"
  "ports (copy_to_area b s) = ports s"
proof -
  have "tmp_floppy_area_update g f = f\<lparr>tmp_floppy_area := g (tmp_floppy_area f)\<rparr>" for g f by (cases f) simp
  then show "fdc (copy_to_area b s) = (fdc s)\<lparr>tmp_floppy_area := \<lambda>k. if k < BLOCK_SIZE then b_data (bh s b) k else tmp_floppy_area (fdc s) k\<rparr>"
    by (simp add: copy_to_area_def upd_fdc_def)
qed (simp add: copy_to_area_def upd_fdc_def)

lemma let_sent: "fd_ready s \<Longrightarrow> \<not> fd_reset (fdc s) \<Longrightarrow> Let (output_byte v s) f = f (sent v s)"
  by (simp add: output_byte_ready)

lemma setup_DMA_bytes:
  assumes "current_request s 2 = Some r"
  obtains t where "setup_DMA s = Ret () t" "fd_ready t = fd_ready s" "disk_format t = disk_format s" "head_drive t = head_drive s"
    "\<exists>d. fdc t = (fdc s)\<lparr>tmp_floppy_area := d\<rparr> \<and> (fd_command (fdc s) = FD_WRITE \<and> sle 0x100000 (b_addr (bh s (r_bh (request s r)))) \<longrightarrow>
       (\<forall>k<BLOCK_SIZE. d k = b_data (bh s (r_bh (request s r))) k))"
    "port_out (ports t) = port_writes (dma_bytes (if fd_command (fdc s) = FD_READ then DMA_READ else DMA_WRITE) (dma_address (bh s (r_bh (request s r)))))
       @ port_out (ports s)"
proof -
  let ?b = "r_bh (request s r)"
  have same: "fdc s = (fdc s)\<lparr>tmp_floppy_area := tmp_floppy_area (fdc s)\<rparr>" by simp
  show thesis
    by (rule that [of "case setup_DMA s of Ret a t \<Rightarrow> t | _ \<Rightarrow> s"])
      (use assms in \<open>auto simp: setup_DMA_def Let_def outb_def copy_to_area_fields fd_ready_def disk_format_def head_drive_def
         dma_address_def dma_bytes_def port_writes_def intro: exI [of _ "tmp_floppy_area (fdc s)"]\<close>)
qed

lemma setup_rw_bytes:
  assumes "current_request s 2 = Some r" and "fd_ready s" and "\<not> fd_reset (fdc s)"
  obtains u d where "setup_rw_floppy s = Ret () u" "fdc u = (fdc s)\<lparr>tmp_floppy_area := d, do_floppy := Some Rw_interrupt\<rparr>"
    "port_out (ports u) = port_writes (dma_bytes (if fd_command (fdc s) = FD_READ then DMA_READ else DMA_WRITE) (dma_address (bh s (r_bh (request s r))))
       @ List.map (Pair FD_DATA) (command_bytes (disk_format s) (fdc s))) @ port_out (ports s)"
    "fd_command (fdc s) = FD_WRITE \<Longrightarrow> sle 0x100000 (b_addr (bh s (r_bh (request s r)))) \<Longrightarrow> \<forall>k<BLOCK_SIZE. d k = b_data (bh s (r_bh (request s r))) k"
proof -
  obtain t where t: "setup_DMA s = Ret () t" "fd_ready t = fd_ready s" "disk_format t = disk_format s" "head_drive t = head_drive s"
    "\<exists>d. fdc t = (fdc s)\<lparr>tmp_floppy_area := d\<rparr> \<and> (fd_command (fdc s) = FD_WRITE \<and> sle 0x100000 (b_addr (bh s (r_bh (request s r)))) \<longrightarrow>
       (\<forall>k<BLOCK_SIZE. d k = b_data (bh s (r_bh (request s r))) k))"
    "port_out (ports t) = port_writes (dma_bytes (if fd_command (fdc s) = FD_READ then DMA_READ else DMA_WRITE) (dma_address (bh s (r_bh (request s r)))))
       @ port_out (ports s)"
    by (rule setup_DMA_bytes [OF assms(1)])
  then obtain d where d: "fdc t = (fdc s)\<lparr>tmp_floppy_area := d\<rparr>"
    "fd_command (fdc s) = FD_WRITE \<and> sle 0x100000 (b_addr (bh s (r_bh (request s r)))) \<longrightarrow> (\<forall>k<BLOCK_SIZE. d k = b_data (bh s (r_bh (request s r))) k)"
    by blast
  let ?t = "upd_fdc (do_floppy_update (\<lambda>_. Some Rw_interrupt)) t"
  have f: "fdc ?t = (fdc s)\<lparr>tmp_floppy_area := d, do_floppy := Some Rw_interrupt\<rparr>" "fd_ready ?t" "disk_format ?t = disk_format s"
    "head_drive ?t = head_drive s" "ports ?t = ports t"
    using assms(2) by (simp_all add: upd_fdc_def fd_ready_def d(1)) (use t(2-4) in \<open>simp_all add: disk_format_def head_drive_def fd_ready_def d(1)\<close>)
  have k: "fd_reset (fdc ?t) = False" "fd_command (fdc ?t) = fd_command (fdc s)" "fd_track (fdc ?t) = fd_track (fdc s)"
    "fd_head (fdc ?t) = fd_head (fdc s)" "fd_sector (fdc ?t) = fd_sector (fdc s)"
    using assms(3) by (simp_all add: f(1))
  have u: "setup_rw_floppy s = Ret () (fold sent (command_bytes (disk_format s) (fdc s)) ?t)"
    unfolding setup_rw_floppy_def t(1) seq_simps Let_def [of ?t]
    by (simp only: let_sent f(2-4) k sent_fields command_bytes_def head_drive_def [of s] fold_simps if_False not_False_eq_True)
  have "port_out (ports (fold sent vs x)) = port_writes (List.map (Pair FD_DATA) vs) @ port_out (ports x)" for vs x
    by (induction vs arbitrary: x) (simp_all add: port_writes_def)
  moreover have "fdc (fold sent vs x) = fdc x" for vs x by (induction vs arbitrary: x) simp_all
  ultimately show thesis using d(2) t(6) by (intro that [OF u]) (simp_all add: f port_writes_def)
qed

lemma locate_fields [simp]:
  "current_request (locate block s) = current_request s" "request (locate block s) = request s" "bh (locate block s) = bh s"
  "ports (locate block s) = ports s" "fd_ready (locate block s) = fd_ready s" "disk_format (locate block s) = disk_format s"
  "fd_reset (fdc (locate block s)) = fd_reset (fdc s)" "fd_command (fdc (locate block s)) = fd_command (fdc s)"
  by (simp_all add: locate_def Let_def upd_fdc_def disk_format_def fd_ready_def)

text \<open>
  C18. What the controller is told for a block inside the disk: after the nine bytes that set up DMA for the
  buffer, or for \<open>tmp_floppy_area\<close> when the buffer is above 1 MB (a block to be written is then there),
  the nine bytes of the command follow, for the drive, track, head and sector that
  the block has on this format, and the interrupt is expected as the end of the transfer.
\<close>

theorem floppy_command_addresses_block:
  assumes "current_request s 2 = Some r" and "fd_ready s" and "\<not> fd_reset (fdc s)"
    and "fd_type (fdc s) < length floppy_type" and "ft_sect (disk_format s) \<noteq> 0" and "unat block + 2 \<le> unat (ft_size (disk_format s))"
  shows "\<exists>u. setup_rw_floppy (locate block s) = Ret () u \<and> do_floppy (fdc u) = Some Rw_interrupt \<and>
    port_out (ports u) = port_writes (dma_bytes (if fd_command (fdc s) = FD_READ then DMA_READ else DMA_WRITE) (dma_address (bh s (r_bh (request s r))))
      @ List.map (Pair FD_DATA) (command_bytes (disk_format s) (fdc u))) @ port_out (ports s) \<and>
    addressed (disk_format s) (unat block) (fdc u) \<and> current_drive (fdc u) = current_drive (fdc s) \<and> fd_command (fdc u) = fd_command (fdc s) \<and>
    (fd_command (fdc s) = FD_WRITE \<and> sle 0x100000 (b_addr (bh s (r_bh (request s r)))) \<longrightarrow>
       (\<forall>k<BLOCK_SIZE. tmp_floppy_area (fdc u) k = b_data (bh s (r_bh (request s r))) k))"
proof -
  have a: "addressed (disk_format s) (unat block) (fdc (locate block s))" "current_drive (fdc (locate block s)) = current_drive (fdc s)"
    using locate_addressed [OF disk_format_in [OF assms(4)] assms(5,6)] by simp_all
  obtain u d where u: "setup_rw_floppy (locate block s) = Ret () u"
    "fdc u = (fdc (locate block s))\<lparr>tmp_floppy_area := d, do_floppy := Some Rw_interrupt\<rparr>"
    "port_out (ports u) = port_writes (dma_bytes (if fd_command (fdc s) = FD_READ then DMA_READ else DMA_WRITE) (dma_address (bh s (r_bh (request s r))))
       @ List.map (Pair FD_DATA) (command_bytes (disk_format s) (fdc (locate block s)))) @ port_out (ports s)"
    "fd_command (fdc s) = FD_WRITE \<Longrightarrow> sle 0x100000 (b_addr (bh s (r_bh (request s r)))) \<Longrightarrow> \<forall>k<BLOCK_SIZE. d k = b_data (bh s (r_bh (request s r))) k"
    by (rule setup_rw_bytes [of "locate block s" r]) (use assms(1-3) in simp_all)
  have "command_bytes (disk_format s) (fdc u) = command_bytes (disk_format s) (fdc (locate block s))" by (simp add: command_bytes_def u(2))
  moreover have "addressed (disk_format s) (unat block) (fdc u)" using a(1) by (simp add: addressed_def u(2))
  ultimately show ?thesis using u a(2) by (intro exI [of _ u]) simp
qed

text \<open>A 1.44 MB disk in drive 0 and block 1000, whose first sector is number 2000.\<close>

definition one_floppy :: kstate where
  "one_floppy = (undefined :: kstate)\<lparr>fdc := fd_boot (\<lambda>_. 0), request_fn := (\<lambda>_. Some Floppy), current_request := (\<lambda>_. None),
     request := (\<lambda>_. (undefined :: request)\<lparr>r_sector := 0, r_dev := - 1\<rparr>),
     bh := (\<lambda>_. (undefined :: buffer_head)\<lparr>b_dev := 0x21C, b_blocknr := 1000, b_lock := 0, b_dirt := 0, b_uptodate := 0, b_addr := 0x200000\<rparr>),
     floppy := (undefined :: floppy_state)\<lparr>current_DOR := 0, selected := 0, dor_port := [], mon_timer := (\<lambda>_. 0), moff_timer := (\<lambda>_. 0)\<rparr>,
     timers := (undefined :: timer_state)\<lparr>next_timer := None, tl_fn := (\<lambda>_. 0), tl_next := (\<lambda>_. None)\<rparr>,
     ports := \<lparr>port_in = (\<lambda>_ _. 0x80), port_reads = 0, port_out = []\<rparr>\<rparr>"

definition one_queued :: kstate where
  "one_queued = one_floppy\<lparr>request := (request one_floppy)(31 := \<lparr>r_dev = 0x21C, r_cmd = READ, r_errors = 0, r_sector = 2000,
       r_nr_sectors = 2, r_waiting = None, r_bh = 0, r_buffer = 0, r_next = None\<rparr>),
     bh := (bh one_floppy)(0 := (bh one_floppy 0)\<lparr>b_lock := 1, b_dirt := 0\<rparr>), current_request := (current_request one_floppy)(2 := Some 31)\<rparr>"

lemma one_request: "ll_rw_block READ 0 one_floppy = do_fd_request one_queued"
proof -
  let ?s = "one_floppy\<lparr>bh := (bh one_floppy)(0 := (bh one_floppy 0)\<lparr>b_lock := 1\<rparr>)\<rparr>"
  have "empty_request NR_REQUEST (request ?s) = Some 31"
    by (simp add: NR_REQUEST_def eval_nat_numeral one_floppy_def slt_def)
  moreover have "lock_buffer 0 one_floppy = Ret () ?s"
    by (simp add: lock_buffer_def one_floppy_def state_simps)
  moreover have "request_fn one_floppy 2 = Some Floppy" "b_dev (bh one_floppy 0) = 0x21C" "b_uptodate (bh ?s 0) = 0"
    by (simp_all add: one_floppy_def)
  ultimately have "ll_rw_block READ 0 one_floppy = add_request 2 31 (upd_req 31 (\<lambda>_. \<lparr>r_dev = 0x21C, r_cmd = READ,
      r_errors = 0, r_sector = 2000, r_nr_sectors = 2, r_waiting = None, r_bh = 0, r_buffer = 0, r_next = None\<rparr>) ?s)"
    by (simp add: ll_rw_block_def make_request_def MAJOR_def NR_BLK_DEV_def Let_def READ_def READA_def WRITE_def WRITEA_def)
      (simp add: one_floppy_def)
  also have "\<dots> = run_driver 2 one_queued"
  proof -
    have "current_request one_floppy 2 = None" by (simp add: one_floppy_def)
    then show ?thesis by (simp add: add_request_def Let_def state_simps set_current_def one_queued_def)
  qed
  finally have "ll_rw_block READ 0 one_floppy = run_driver 2 one_queued" .
  then show ?thesis by (simp add: run_driver_def one_queued_def one_floppy_def)
qed

lemma one_addressed:
  obtains t where "do_fd_request one_queued = Ret () t" "fd_track (fdc t) = 55" "fd_head (fdc t) = 1" "fd_sector (fdc t) = 3"
proof -
  let ?s = "upd_fdc (fd_seek_update (\<lambda>_. False)) one_queued"
  let ?u = "upd_fdc (fd_command_update (\<lambda>_. FD_READ)) (locate 2000 (select_drive 0x21C ?s))"
  have q: "current_request ?s 2 = Some 31" "request ?s 31 = \<lparr>r_dev = 0x21C, r_cmd = READ, r_errors = 0, r_sector = 2000, r_nr_sectors = 2,
       r_waiting = None, r_bh = 0, r_buffer = 0, r_next = None\<rparr>" "b_lock (bh ?s 0) = 1" "fd_reset (fdc ?s) = False" "fd_recalibrate (fdc ?s) = False"
    by (simp_all add: upd_fdc_def one_queued_def one_floppy_def fd_boot_def)
  have f: "disk_format (select_drive 0x21C ?s) = floppy_type ! 7" by (simp add: disk_format_def select_drive_def upd_fdc_def MINOR_def)
  have "do_fd_request one_queued = loop fd_step () ?s" by (simp add: do_fd_request_def Let_def q)
  also have "\<dots> = seq (fd_step () ?s) (\<lambda>r s. case r of Inl a \<Rightarrow> loop fd_step a s | Inr x \<Rightarrow> Ret x s)" by (rule loop_unfold)
  also have "fd_step () ?s = seq (ticks_to_floppy_on (ucast (current_drive (fdc ?u))) ?u) (\<lambda>ticks s. seq (when_motor_on ticks s) (\<lambda>_ s. Ret (Inr ()) s))"
    by (simp add: fd_step_def q f Let_def MAJOR_def MINOR_def floppy_type_def)
  finally have d: "do_fd_request one_queued = seq (seq (ticks_to_floppy_on (ucast (current_drive (fdc ?u))) ?u)
      (\<lambda>ticks s. seq (when_motor_on ticks s) (\<lambda>_ s. Ret (Inr ()) s))) (\<lambda>r s. case r of Inl a \<Rightarrow> loop fd_step a s | Inr x \<Rightarrow> Ret x s)" .
  have u: "current_drive (fdc ?u) = 0" "floppy ?u = floppy one_floppy" "timers ?u = timers one_floppy"
    "fd_track (fdc ?u) = 55" "fd_head (fdc ?u) = 1" "fd_sector (fdc ?u) = 3"
    by (simp_all add: upd_fdc_def [of "fd_command_update (\<lambda>_. FD_READ)"] locate_place f)
      (simp_all add: select_drive_def floppy_type_def upd_fdc_def one_queued_def)
  obtain v where v: "ticks_to_floppy_on 0 ?u = Ret 50 v" "fdc v = fdc ?u" "timers v = timers one_floppy"
    by (rule that [of "case ticks_to_floppy_on 0 ?u of Ret a v \<Rightarrow> v"])
      (use u(3) in \<open>simp_all add: ticks_to_floppy_on_def Let_def upd_floppy_def u(2)\<close>, simp_all add: one_floppy_def HZ_def cdiv_def)
  have sift: "tl_next x p = None \<Longrightarrow> sift_timer p x = Some x" for x p by (subst sift_timer.simps) simp
  obtain m where "add_timer 50 FLOPPY_ON_INTERRUPT (timers v) = Ret () m"
    by (rule that [of "case add_timer 50 FLOPPY_ON_INTERRUPT (timers v) of Ret a m \<Rightarrow> m"])
      (simp add: sift add_timer_def v(3) one_floppy_def FLOPPY_ON_INTERRUPT_def TIME_REQUESTS_def sle_def upt_rec)
  then have "do_fd_request one_queued = Ret () (v\<lparr>timers := m\<rparr>)"
    by (simp add: d u(1) v(1) when_motor_on_def sle_def in_timers_def)
  then show thesis by (rule that) (simp_all add: v(2) u)
qed

theorem floppy_stays_on_disk_witness:
  "\<exists>t. fd_event\<^sup>*\<^sup>* one_floppy t \<and> unat (current_drive (fdc t)) < 4 \<and> fd_track (fdc t) = 55 \<and> fd_head (fdc t) = 1 \<and> fd_sector (fdc t) = 3 \<and>
    (\<exists>f\<in>set floppy_type. unat (fd_sector (fdc t)) \<le> unat (ft_sect f) \<and> unat (fd_head (fdc t)) < unat (ft_head f) \<and>
       unat (fd_track (fdc t)) < unat (ft_track f) \<and> unat (seek_track (fdc t)) = unat (fd_track (fdc t)) * 2 ^ unat (ft_stretch f))"
proof -
  obtain t where t: "do_fd_request one_queued = Ret () t" "fd_track (fdc t) = 55" "fd_head (fdc t) = 1" "fd_sector (fdc t) = 3"
    by (rule one_addressed)
  have "fd_event one_floppy t"
    by (rule transfer_block [of _ 0 READ]) (simp_all add: one_request t(1), simp add: one_floppy_def MAJOR_def)
  then have e: "fd_event\<^sup>*\<^sup>* one_floppy t" by simp
  from floppy_stays_on_disk [OF e, of "\<lambda>_. 0"] e t(2-4) show ?thesis
    by (intro exI [of _ t]) (simp add: one_floppy_def blocks_ok_def)
qed

theorem floppy_command_addresses_block_witness:
  "\<exists>u. setup_rw_floppy (locate 2000 (one_queued\<lparr>fdc := (fdc one_queued)\<lparr>fd_type := 7\<rparr>\<rparr>)) = Ret () u \<and> do_floppy (fdc u) = Some Rw_interrupt \<and>
     addressed (floppy_type ! 7) 2000 (fdc u)"
proof -
  let ?s = "one_queued\<lparr>fdc := (fdc one_queued)\<lparr>fd_type := 7\<rparr>\<rparr>"
  have "disk_format ?s = floppy_type ! 7" "current_request ?s 2 = Some 31" "fd_ready ?s" "\<not> fd_reset (fdc ?s)"
    by (simp_all add: disk_format_def one_queued_def one_floppy_def fd_ready_def STATUS_READY_def STATUS_DIR_def fd_boot_def)
  with floppy_command_addresses_block [of ?s 31 2000] show ?thesis by (auto simp: floppy_type_def)
qed

end
