(* ===== verification/PipeProps.thy ===== *)
theory PipeProps
  imports Pipe SchedProps
begin

text \<open>
  A pipe is a bounded first-in first-out buffer of bytes: what is written is what is read, in
  order, whatever the sizes of the single reads and writes. Both loops are the same loop over
  chunks that stop at the end of the page; its properties are proved once, in the locale
  \<open>pipe_side\<close>, from what moving one chunk does.
\<close>

section \<open>The common loop\<close>

text \<open>
  \<open>room\<close> is what can be moved without waiting, \<open>limit\<close> the bytes up to the end of the page,
  \<open>move\<close> copies a chunk; \<open>res\<close> and \<open>sig\<close> are the result and the effect when there is no
  other side.
\<close>

definition pipe_step ::
    "nat \<Rightarrow> (m_inode \<Rightarrow> u32) \<Rightarrow> (m_inode \<Rightarrow> u32) \<Rightarrow> (nat \<Rightarrow> u32 \<Rightarrow> kstate \<Rightarrow> kstate) \<Rightarrow>
     (u32 \<Rightarrow> u32) \<Rightarrow> (kstate \<Rightarrow> kstate) \<Rightarrow>
     u32 \<times> u32 \<times> u32 \<Rightarrow> kstate \<Rightarrow> ((u32 \<times> u32 \<times> u32) + bool \<times> u32, kstate) outcome" where
  "pipe_step i room limit move res sig v s = (case v of (count, done, buf) \<Rightarrow>
     if \<not> slt 0 count then Ret (Inr (True, done)) s else
     seq (pipe_wait room i s) (\<lambda>r s. case r of
       None \<Rightarrow> Ret (Inr (False, res done)) (sig s)
     | Some sz \<Rightarrow>
         let chars = limit (inode_table s i);
             chars = (if slt count chars then count else chars);
             chars = (if slt sz chars then sz else chars)
         in Ret (Inl (count - chars, done + chars, buf + chars)) (move (unat chars) buf s)))"

definition read_chunk :: "nat \<Rightarrow> nat \<Rightarrow> u32 \<Rightarrow> kstate \<Rightarrow> kstate" where
  "read_chunk i n buf s = pipe_out n (i_size (inode_table s i) + PIPE_TAIL (inode_table s i)) buf (advance i 1 (of_nat n) s)"

definition write_chunk :: "nat \<Rightarrow> nat \<Rightarrow> u32 \<Rightarrow> kstate \<Rightarrow> kstate" where
  "write_chunk i n buf s = pipe_in n (i_size (inode_table s i) + PIPE_HEAD (inode_table s i)) buf (advance i 0 (of_nat n) s)"

lemma read_pipe_step_eq:
  "read_pipe_step i = pipe_step i PIPE_SIZE (\<lambda>m. 4096 - PIPE_TAIL m) (read_chunk i) (\<lambda>n. n) (\<lambda>s. s)"
  by (rule ext)+ (auto simp: read_pipe_step_def pipe_step_def read_chunk_def Let_def split: prod.split option.split intro!: seq_cong)

lemma write_pipe_step_eq:
  "write_pipe_step i = pipe_step i PIPE_ROOM (\<lambda>m. 4096 - PIPE_HEAD m) (write_chunk i)
     (\<lambda>n. if tst n then n else - 1) (upd_cur (\<lambda>t. t\<lparr>t_signal := t_signal t OR sig_bit SIGPIPE\<rparr>))"
  by (rule ext)+ (auto simp: write_pipe_step_def pipe_step_def write_chunk_def Let_def split: prod.split option.split intro!: seq_cong)

text \<open>
  \<open>moved n s\<close>: \<open>n\<close> of the \<open>avail\<close> bytes that are there have been moved to or from the user
  memory at \<open>start\<close> of the task \<open>me\<close>.
\<close>

lemma sint_nonneg: "0 \<le> sint a \<Longrightarrow> sint a = int (unat (a :: u32))"
  using sint_lt [of a] uint_sint [of a] by (simp add: take_bit_int_eq_self)

lemma unat_rest:
  fixes count :: u32
  assumes "0 \<le> sint count" and "c \<le> unat count"
  shows "unat (count - of_nat c) = unat count - c" "0 \<le> sint (count - of_nat c)"
    "sint (count - of_nat c) = sint count - int c"
proof -
  have "int (unat count) < int (2 ^ 31)" using sint_lt [of count] sint_nonneg [OF assms(1)] by (simp only:) simp
  then have "unat count < 2 ^ 31" by (rule of_nat_less_imp_less)
  then have "unat (of_nat c :: u32) = c" using assms(2)
    by (simp add: unsigned_of_nat take_bit_nat_eq_self)
  then show rest: "unat (count - of_nat c) = unat count - c" using assms(2) by (simp add: unat_sub word_le_nat_alt)
  then have "count - of_nat c = of_nat (unat count - c)" by (metis of_nat_unat ucast_id)
  then have "sint (count - of_nat c) = int (unat count - c)"
    using sint_of_nat [of "unat count - c"] \<open>unat count < 2 ^ 31\<close> by simp
  then show "0 \<le> sint (count - of_nat c)" "sint (count - of_nat c) = sint count - int c"
    using assms(2) sint_nonneg [OF assms(1)] by (simp_all only: of_nat_diff)
qed

lemma slt_0: "0 \<le> sint a \<Longrightarrow> slt 0 a \<longleftrightarrow> 0 < unat a"
  unfolding slt_def by (simp only: sint_nonneg [of a] sint_0 of_nat_0_less_iff)

lemma small_min: "0 \<le> sint a \<Longrightarrow> 0 \<le> sint b \<Longrightarrow> unat (if slt a b then a else b) = min (unat a) (unat b)"
  by (auto simp only: slt_def sint_nonneg of_nat_less_iff min_def split: if_split)

lemma small_sint: "unat (a :: u32) \<le> 4096 \<Longrightarrow> 0 \<le> sint a"
  using sint_of_nat [of "unat a"] by simp

locale pipe_side =
  fixes i me :: nat and room limit :: "m_inode \<Rightarrow> u32" and move :: "nat \<Rightarrow> u32 \<Rightarrow> kstate \<Rightarrow> kstate"
    and avail :: nat and start :: u32 and moved :: "nat \<Rightarrow> kstate \<Rightarrow> bool"
  assumes avail: "avail < 4096"
    and room: "moved n s \<Longrightarrow> n \<le> avail \<and> unat (room (inode_table s i)) = avail - n"
    and limit: "moved n s \<Longrightarrow> 0 < unat (limit (inode_table s i)) \<and> unat (limit (inode_table s i)) \<le> 4096"
    and move: "moved n s \<Longrightarrow> current s = me \<Longrightarrow> n + c \<le> avail \<Longrightarrow> c \<le> unat (limit (inode_table s i)) \<Longrightarrow>
      moved (n + c) (move c (start + of_nat n) s)"
    and move_keeps: "tsk (move c b s) = tsk s" "task (move c b s) = task s" "current (move c b s) = current s"
      "i_count (inode_table (move c b s) i) = i_count (inode_table s i)"
    and moved_wake: "moved n s \<Longrightarrow> moved n (wake_up (inode_queue i) s)"
    and moved_switch: "moved n s \<Longrightarrow> moved n ((put_wait (inode_queue i) p s)\<lparr>tsk := f, current := c\<rparr>)"
begin

lemma wait_none: "moved n s \<Longrightarrow> n < avail \<Longrightarrow> pipe_wait room i s = Ret (Some (room (inode_table s i))) s"
  using room [of n s] by (subst pipe_wait_def, subst loop_unfold) (auto simp: Let_def unat_eq_0 [symmetric] simp del: unat_eq_0)

lemma wait_empty:
  assumes "moved avail s"
  shows "i_count (inode_table s i) \<noteq> 2 \<Longrightarrow> pipe_wait room i s = Ret None (wake_up (inode_queue i) s)"
    "i_count (inode_table s i) = 2 \<Longrightarrow> sched_inv s \<Longrightarrow> current s \<noteq> 0 \<Longrightarrow>
      \<exists>t. pipe_wait room i s = Sleeps t \<and> moved avail t \<and> current t \<noteq> current s \<and> sched_inv t"
proof -
  let ?w = "wake_up (inode_queue i) s"
  have r: "room (inode_table s i) = 0" using room [OF assms] by (simp add: unat_eq_0)
  have w: "i_count (inode_table ?w i) = i_count (inode_table s i)" "current ?w = current s"
    by (auto simp: wake_up_def set_state_def queue_simps state_simps split: option.split)
  have unfold: "pipe_wait room i s = (if i_count (inode_table s i) \<noteq> 2 then Ret None ?w
     else seq (seq (sleep_on (inode_queue i) ?w) (\<lambda>_ s. Ret (Inl ()) s))
       (\<lambda>r s. case r of Inl b \<Rightarrow> pipe_wait room i s | Inr v \<Rightarrow> Ret v s))"
    by (subst pipe_wait_def, subst loop_unfold)
      (auto simp: Let_def r w pipe_wait_def split: sum.split intro!: seq_cong)
  then show "i_count (inode_table s i) \<noteq> 2 \<Longrightarrow> pipe_wait room i s = Ret None ?w" by simp
  assume "i_count (inode_table s i) = 2" "sched_inv s" "current s \<noteq> 0"
  then have inv: "sched_inv ?w" "current ?w \<noteq> 0" using inode_wq.wake_inv by (simp_all add: w)
  obtain t where t: "sleep_on (inode_queue i) ?w = Sleeps t" "sched_inv t" "current t \<noteq> current ?w"
    "\<exists>f c. t = (put_wait (inode_queue i) (Some (current ?w)) ?w)\<lparr>tsk := f, current := c\<rparr>"
    by (rule inode_wq.sleep_gives_up [OF inv])
  have "moved avail t" using t(4) moved_switch [OF moved_wake [OF assms]] by auto
  then show "\<exists>t. pipe_wait room i s = Sleeps t \<and> moved avail t \<and> current t \<noteq> current s \<and> sched_inv t"
    using unfold t \<open>i_count (inode_table s i) = 2\<close> by (simp add: w)
qed

lemma move_inv: "sched_inv s \<Longrightarrow> sched_inv (move c b s)"
  by (simp add: sched_inv_def move_keeps)


lemma step_moves:
  assumes n: "moved n s" "n < avail" and cur: "current s = me" and count: "slt 0 count"
  obtains c where "0 < c" "c \<le> unat count" "n + c \<le> avail" "moved (n + c) (move c (start + of_nat n) s)"
    "pipe_step i room limit move res sig (count, of_nat n, start + of_nat n) s =
       Ret (Inl (count - of_nat c, of_nat (n + c), start + of_nat (n + c))) (move c (start + of_nat n) s)"
proof -
  let ?m = "inode_table s i"
  define chars where "chars = (let chars = limit ?m; chars = (if slt count chars then count else chars)
    in if slt (room ?m) chars then room ?m else chars)"
  have small: "0 \<le> sint count" "0 \<le> sint (limit ?m)" "0 \<le> sint (room ?m)"
    using count limit [OF n(1)] room [OF n(1)] avail by (simp_all add: slt_def small_sint)
  have "0 \<le> sint (if slt count (limit ?m) then count else limit ?m)" using small by simp
  note chars = small_min [OF small(3) this] small_min [OF small(1,2)]
  have c: "unat chars = min (unat (room ?m)) (min (unat count) (unat (limit ?m)))"
    by (simp only: chars_def Let_def chars)
  have pos: "0 < unat count" using count slt_0 [OF small(1)] by simp
  have c': "0 < unat chars" "unat chars \<le> unat count" "n + unat chars \<le> avail" "unat chars \<le> unat (limit ?m)"
    using pos limit [OF n(1)] room [OF n(1)] n(2) unfolding c by arith+
  have "pipe_step i room limit move res sig (count, of_nat n, start + of_nat n) s =
      Ret (Inl (count - chars, of_nat n + chars, start + of_nat n + chars)) (move (unat chars) (start + of_nat n) s)"
    unfolding pipe_step_def prod.case wait_none [OF n] seq_simps option.case chars_def [unfolded Let_def] Let_def
    using count by simp
  then show thesis using that [of "unat chars"] c' move [OF n(1) cur c'(3,4)] by (simp add: add.assoc)
qed

text \<open>How a loop over \<open>k\<close> bytes ends: with all of them, for want of another side, or asleep.\<close>

definition ends :: "nat \<Rightarrow> bool \<Rightarrow> (u32 \<Rightarrow> u32) \<Rightarrow> (kstate \<Rightarrow> kstate) \<Rightarrow> (bool \<times> u32, kstate) outcome \<Rightarrow> bool" where
  "ends k other res sig m \<longleftrightarrow>
    (if k \<le> avail then \<exists>t. m = Ret (True, of_nat k) t \<and> moved k t \<and> sched_inv t \<and> current t = me
     else if \<not> other then \<exists>t. m = Ret (False, res (of_nat avail)) (sig t) \<and> moved avail t \<and> current t = me
     else \<exists>t. m = Sleeps t \<and> moved avail t \<and> current t \<noteq> me)"

lemma loop_moves:
  "moved n s \<Longrightarrow> sched_inv s \<Longrightarrow> current s = me \<Longrightarrow> me \<noteq> 0 \<Longrightarrow> 0 \<le> sint count \<Longrightarrow>
   n + unat count = k \<Longrightarrow> (i_count (inode_table s i) = 2) = other \<Longrightarrow>
   ends k other res sig (loop (pipe_step i room limit move res sig) (count, of_nat n, start + of_nat n) s)"
proof (induction "unat count" arbitrary: n s count rule: less_induct)
  case less
  let ?step = "pipe_step i room limit move res sig"
  let ?v = "(count, of_nat n, start + of_nat n)"
  show ?case
  proof (cases "count = 0")
    case True
    then have "?step ?v s = Ret (Inr (True, of_nat n)) s" by (simp add: pipe_step_def slt_def)
    moreover have "k = n" "n \<le> avail" using True less.prems(6) room [OF less.prems(1)] by simp_all
    ultimately show ?thesis using less.prems(1-3)
      by (subst loop_unfold) (simp add: ends_def)
  next
    case False
    then have pos: "slt 0 count" "0 < unat count"
      using slt_0 [OF less.prems(5)] by (simp_all add: unat_gt_0)
    show ?thesis
    proof (cases "n < avail")
      case True
      obtain c where c: "0 < c" "c \<le> unat count" "n + c \<le> avail" "moved (n + c) (move c (start + of_nat n) s)"
        "?step ?v s =
         Ret (Inl (count - of_nat c, of_nat (n + c), start + of_nat (n + c))) (move c (start + of_nat n) s)"
        by (rule step_moves [OF less.prems(1) True less.prems(3) pos(1)])
      note rest = unat_rest [OF less.prems(5) c(2)]
      show ?thesis unfolding loop_unfold [of ?step ?v] c(5) seq_simps sum.case
        by (rule less.hyps [OF _ c(4)]) (use c(1-3) rest less.prems pos in \<open>simp_all add: move_inv move_keeps\<close>)
    next
      case n: False
      then have n: "n = avail" using room [OF less.prems(1)] by simp
      have k: "\<not> k \<le> avail" using n pos less.prems(6) by simp
      have step: "?step ?v s = seq (pipe_wait room i s) (\<lambda>r s. case r of
          None \<Rightarrow> Ret (Inr (False, res (of_nat n))) (sig s)
        | Some sz \<Rightarrow> 
         let chars = limit (inode_table s i);
             chars = (if slt count chars then count else chars);
             chars = (if slt sz chars then sz else chars)
         in Ret (Inl (count - chars, of_nat n + chars, start + of_nat n + chars)) (move (unat chars) (start + of_nat n) s))"
        using pos by (simp add: pipe_step_def)
      show ?thesis
      proof (cases other)
        case True
        then obtain t where t: "pipe_wait room i s = Sleeps t" "moved avail t" "current t \<noteq> current s"
          using wait_empty(2) [of s] less.prems n by auto
        show ?thesis unfolding loop_unfold [of ?step ?v] step t(1) seq_simps
          using t less.prems(3) k True by (simp add: ends_def)
      next
        case False
        then have w: "pipe_wait room i s = Ret None (wake_up (inode_queue i) s)"
          using wait_empty(1) [of s] less.prems n by auto
        have "current (wake_up (inode_queue i) s) = me"
          using less.prems(3) by (auto simp: wake_up_def set_state_def queue_simps state_simps split: option.split)
        then show ?thesis unfolding loop_unfold [of ?step ?v] step w seq_simps
          using moved_wake [OF less.prems(1)] k False n by (auto simp: ends_def)
      qed
    qed
  qed
qed

end

section \<open>Bytes in kernel memory\<close>

lemma byte_in_cell:
  "bit (phys_byte a m) k \<longleftrightarrow> k < 8 \<and> bit (phys m (a AND NOT 3)) (8 * unat (a AND 3) + k)"
  by (auto simp: phys_byte_def bit_simps)

lemma low_bits: "unat ((a :: u32) AND 3) < 4"
  using word_and_le1 [of a 3] by (simp add: word_le_nat_alt)

lemma same_address: "a AND NOT 3 = b AND NOT 3 \<Longrightarrow> unat (a AND 3) = unat (b AND 3) \<Longrightarrow> (a :: u32) = b"
proof -
  assume a: "a AND NOT 3 = b AND NOT 3" "unat (a AND 3) = unat (b AND 3)"
  have "x = (x AND NOT 3) OR (x AND 3)" for x :: u32 by (rule bit_word_eqI) (auto simp: bit_simps)
  with a show "a = b" by (metis unsigned_word_eqI)
qed

lemma byte_poked:
  assumes "k < 8"
  shows "bit (phys_byte b (poke_byte v a m)) k =
    (if b AND NOT 3 = a AND NOT 3 \<and> unat (b AND 3) = unat (a AND 3) then bit v k else bit (phys_byte b m) k)"
proof -
  have "(0xff :: u32) = mask 8" by (simp add: mask_eq_exp_minus_1)
  then have "phys (poke_byte v a m) (b AND NOT 3) = (if b AND NOT 3 = a AND NOT 3
      then (phys m (a AND NOT 3) AND NOT (push_bit (8 * unat (a AND 3)) (mask 8))) OR push_bit (8 * unat (a AND 3)) (ucast v)
      else phys m (b AND NOT 3))"
    by (simp add: poke_byte_def poke_def Let_def)
  moreover have "(8 * unat (a AND 3) \<le> 8 * unat (b AND 3) + k \<and> 8 * unat (b AND 3) + k - 8 * unat (a AND 3) < 8)
      \<longleftrightarrow> unat (b AND 3) = unat (a AND 3)" using assms by arith
  ultimately show ?thesis
    using assms low_bits [of b] by (auto simp: byte_in_cell bit_simps dest: bit_imp_le_length)
qed

lemma phys_byte_poke_byte: "phys_byte b (poke_byte v a m) = (if b = a then v else phys_byte b m)"
  by (rule bit_word_eqI) (use same_address [of b a] in \<open>auto simp: byte_poked\<close>)

section \<open>The bytes in a pipe\<close>

abbreviation wrap :: "nat \<Rightarrow> nat" where "wrap n \<equiv> n mod 4096"

definition tail_at :: "nat \<Rightarrow> kstate \<Rightarrow> nat" where "tail_at i s = unat (PIPE_TAIL (inode_table s i))"
definition head_at :: "nat \<Rightarrow> kstate \<Rightarrow> nat" where "head_at i s = unat (PIPE_HEAD (inode_table s i))"

text \<open>\<open>page_byte i k s\<close> is the byte \<open>k\<close> of the page; \<open>pipe_bytes\<close> the bytes from tail to head.\<close>

definition page_byte :: "nat \<Rightarrow> nat \<Rightarrow> kstate \<Rightarrow> u8" where
  "page_byte i k s = phys_byte (i_size (inode_table s i) + of_nat k) (mm s)"

definition pipe_ok :: "nat \<Rightarrow> kstate \<Rightarrow> bool" where
  "pipe_ok i s \<longleftrightarrow> head_at i s < 4096 \<and> tail_at i s < 4096"

definition pipe_bytes :: "nat \<Rightarrow> kstate \<Rightarrow> u8 list" where
  "pipe_bytes i s = List.map (\<lambda>k. page_byte i (wrap (tail_at i s + k)) s) [0..<unat (PIPE_SIZE (inode_table s i))]"

lemma wrap_add: "t < 4096 \<Longrightarrow> k \<le> 4096 \<Longrightarrow> wrap (t + k) = (if t + k < 4096 then t + k else t + k - 4096)"
  by (simp add: mod_if)

lemma unat_and_4095: "unat (x AND 4095 :: 'a::len word) = wrap (unat x)" if "12 \<le> LENGTH('a)"
proof -
  have "x AND 4095 = take_bit 12 x" by (simp add: take_bit_eq_mask mask_eq_exp_minus_1)
  then show ?thesis by (simp only: unsigned_take_bit_eq) (simp add: take_bit_eq_mod)
qed

lemma wrap_diff: "a < 4096 \<Longrightarrow> b < 4096 \<Longrightarrow> \<not> b \<le> a \<Longrightarrow> wrap (a + 4294967296 - b) = a + 4096 - b"
  for a b :: nat
proof -
  assume "a < 4096" "b < 4096" "\<not> b \<le> a"
  then have "a + 4294967296 - b = (a + 4096 - b) + 1048575 * 4096" "a + 4096 - b < 4096" by simp_all
  then show ?thesis by (simp only: mod_mult_self1 mod_less)
qed

lemma length_pipe_bytes: "pipe_ok i s \<Longrightarrow> length (pipe_bytes i s) = wrap (head_at i s + 4096 - tail_at i s)"
  by (auto simp: pipe_bytes_def PIPE_SIZE_def unat_and_4095 pipe_ok_def head_at_def tail_at_def unat_sub_if' word_le_nat_alt
      mod_if [of "unat _ + 4096 - unat _"] wrap_diff)

lemma head_tail: "pipe_ok i s \<Longrightarrow> head_at i s = wrap (tail_at i s + length (pipe_bytes i s))"
  by (auto simp: length_pipe_bytes pipe_ok_def mod_add_right_eq)

lemma length_bytes_less: "length (pipe_bytes i s) < 4096"
  by (simp add: pipe_bytes_def PIPE_SIZE_def unat_and_4095)

lemma nth_pipe_bytes: "k < length (pipe_bytes i s) \<Longrightarrow> pipe_bytes i s ! k = page_byte i (wrap (tail_at i s + k)) s"
  by (simp add: pipe_bytes_def)

lemma pipe_bytes_eqI:
  assumes "pipe_ok i s" and "length xs < 4096" and "head_at i s = wrap (tail_at i s + length xs)"
    and "\<And>k. k < length xs \<Longrightarrow> page_byte i (wrap (tail_at i s + k)) s = xs ! k"
  shows "pipe_bytes i s = xs"
proof (rule nth_equalityI)
  show len: "length (pipe_bytes i s) = length xs"
    using assms(1-3) by (simp add: length_pipe_bytes) (auto simp: pipe_ok_def wrap_add)
  show "pipe_bytes i s ! k = xs ! k" if "k < length (pipe_bytes i s)" for k
    using that assms(4) len by (simp add: nth_pipe_bytes)
qed

section \<open>What a chunk does\<close>

lemma next_byte: "unat (b - (a + 1)) < n \<longleftrightarrow> unat (b - a) < Suc n \<and> b \<noteq> a" if "n < 2 ^ 32 - 1" for a b :: u32
proof -
  have b: "b - (a + 1) = (b - a) - 1" by simp
  show ?thesis
  proof (cases "b = a")
    case True
    then show ?thesis using that by (simp add: unsigned_minus_1_eq_mask mask_eq_exp_minus_1)
  next
    case False
    then have "unat (b - a) \<noteq> 0" by (simp add: unat_eq_0)
    moreover have "unat (b - a - 1) = unat (b - a) - 1" using False by (intro unat_minus_one) simp
    ultimately show ?thesis unfolding b using False by auto
  qed
qed

lemma pipe_out_fields: "n \<le> 4096 \<Longrightarrow> pipe_out n a buf s = s\<lparr>user := (\<lambda>p b.
    if p = current s \<and> unat (b - buf) < n then phys_byte (a + (b - buf)) (mm s) else user s p b)\<rparr>"
proof (induction n arbitrary: a buf s)
  case (Suc n)
  have "n < 2 ^ 32 - 1" using Suc.prems by simp
  note nb = next_byte [OF this]
  show ?case
    unfolding pipe_out.simps using Suc.prems
    by (subst Suc.IH) (auto simp: put_fs_byte_def nb fun_eq_iff intro!: kstate.fold_congs)
qed simp

lemma pipe_in_fields: "n \<le> 4096 \<Longrightarrow> \<exists>f. pipe_in n a buf s = s\<lparr>mm := f\<rparr> \<and>
    (\<forall>b. phys_byte b f = (if unat (b - a) < n then user s (current s) (buf + (b - a)) else phys_byte b (mm s)))"
proof (induction n arbitrary: a buf s)
  case (Suc n)
  obtain f where f: "pipe_in n (a + 1) (buf + 1) (s\<lparr>mm := poke_byte (get_fs_byte buf s) a (mm s)\<rparr>) = s\<lparr>mm := f\<rparr>"
    "\<forall>b. phys_byte b f = (if unat (b - (a + 1)) < n then user s (current s) (buf + (b - a))
       else phys_byte b (poke_byte (get_fs_byte buf s) a (mm s)))"
    using Suc.IH [of "a + 1" "buf + 1" "s\<lparr>mm := poke_byte (get_fs_byte buf s) a (mm s)\<rparr>"] Suc.prems by auto
  then show ?case using Suc.prems
    by (intro exI [of _ f]) (auto simp: next_byte phys_byte_poke_byte get_fs_byte_def)
next
  case 0
  show ?case by (intro exI [of _ "mm s"]) simp
qed

lemma unat_u16: "unat (ucast (w :: u16) :: u32) = unat w"
proof -
  have "unat w < 2 ^ LENGTH(16)" by (rule unsigned_less)
  then show ?thesis by (simp add: unsigned_ucast_eq take_bit_nat_eq_self_iff)
qed

lemma zone_advance:
  assumes "c \<le> 4096"
  shows "unat (ucast ((z + ucast (of_nat c :: u32)) AND 4095 :: u16) :: u32) = wrap (unat (ucast z :: u32) + c)"
proof -
  have "unat ((z + of_nat c :: u16) AND 4095) = wrap (unat (z + of_nat c))" by (rule unat_and_4095) simp
  then have "unat ((z + of_nat c :: u16) AND 4095) = wrap (unat z + c)"
    using assms by (auto simp: unat_word_ariths unsigned_of_nat take_bit_nat_eq_self mod_mod_cancel)
  moreover have "ucast (of_nat c :: u32) = (of_nat c :: u16)"
    using assms by (simp add: unsigned_of_nat take_bit_nat_eq_self)
  ultimately show ?thesis by (simp only: unat_u16)
qed

lemma advance_fields:
  "i_size (inode_table (advance i n c s) j) = i_size (inode_table s j)"
  "i_count (inode_table (advance i n c s) j) = i_count (inode_table s j)"
  "mm (advance i n c s) = mm s" "user (advance i n c s) = user s" "current (advance i n c s) = current s"
  "tsk (advance i n c s) = tsk s" "task (advance i n c s) = task s"
  by (simp_all add: advance_def set_zone_def state_simps)

lemma advance_ends:
  assumes "c \<le> 4096"
  shows "tail_at i (advance i 1 (of_nat c) s) = wrap (tail_at i s + c)" "head_at i (advance i 1 (of_nat c) s) = head_at i s"
    "head_at i (advance i 0 (of_nat c) s) = wrap (head_at i s + c)" "tail_at i (advance i 0 (of_nat c) s) = tail_at i s"
  using zone_advance [OF assms]
  by (simp_all add: tail_at_def head_at_def PIPE_TAIL_def PIPE_HEAD_def advance_def set_zone_def state_simps)

lemma ends_cong [simp]:
  "head_at i (s\<lparr>user := u\<rparr>) = head_at i s" "tail_at i (s\<lparr>user := u\<rparr>) = tail_at i s"
  "head_at i (s\<lparr>mm := m\<rparr>) = head_at i s" "tail_at i (s\<lparr>mm := m\<rparr>) = tail_at i s"
  by (simp_all add: head_at_def tail_at_def)

text \<open>\<open>deliver p buf xs u\<close> is user memory after \<open>xs\<close> has been put at \<open>buf\<close> of task \<open>p\<close>.\<close>

definition deliver :: "nat \<Rightarrow> u32 \<Rightarrow> u8 list \<Rightarrow> (nat \<Rightarrow> u32 \<Rightarrow> u8) \<Rightarrow> nat \<Rightarrow> u32 \<Rightarrow> u8" where
  "deliver p buf xs u = (\<lambda>q b. if q = p \<and> unat (b - buf) < length xs then xs ! unat (b - buf) else u q b)"

lemma past_chunk:
  assumes "n \<le> 4096" and "c \<le> 4096"
  shows "unat (d - of_nat n) < c \<longleftrightarrow> n \<le> unat d \<and> unat d < n + c"
    "unat (d - of_nat n :: u32) < c \<Longrightarrow> unat d = n + unat (d - of_nat n)"
proof -
  have n: "unat (of_nat n :: u32) = n" using assms by (simp add: unsigned_of_nat take_bit_nat_eq_self)
  have "unat (d - of_nat n) = (if n \<le> unat d then unat d - n else unat d + 2 ^ 32 - n)"
    by (simp add: unat_sub_if' n word_le_nat_alt)
  then show "unat (d - of_nat n) < c \<longleftrightarrow> n \<le> unat d \<and> unat d < n + c"
    "unat (d - of_nat n :: u32) < c \<Longrightarrow> unat d = n + unat (d - of_nat n)"
    using assms by (auto split: if_splits)
qed

lemma read_chunk_spec:
  assumes ok: "pipe_ok i s" and c: "c \<le> length (pipe_bytes i s)" "tail_at i s + c \<le> 4096"
  shows "pipe_ok i (read_chunk i c buf s)"
    "pipe_bytes i (read_chunk i c buf s) = drop c (pipe_bytes i s)"
    "user (read_chunk i c buf s) = deliver (current s) buf (take c (pipe_bytes i s)) (user s)"
    "mm (read_chunk i c buf s) = mm s"
proof -
  let ?a = "advance i 1 (of_nat c) s" let ?t = "read_chunk i c buf s"
  have c4: "c \<le> 4096" using c(1) length_bytes_less [of i s] by simp
  have t: "?t = ?a\<lparr>user := (\<lambda>p b. if p = current s \<and> unat (b - buf) < c
      then phys_byte (i_size (inode_table s i) + PIPE_TAIL (inode_table s i) + (b - buf)) (mm s) else user s p b)\<rparr>"
    by (simp add: read_chunk_def pipe_out_fields [OF c4] advance_fields cong: if_cong)
  have page: "page_byte i k ?t = page_byte i k s" for k by (simp add: t page_byte_def advance_fields)
  have ends: "tail_at i ?t = wrap (tail_at i s + c)" "head_at i ?t = head_at i s"
    by (simp_all add: t advance_ends [OF c4] del: One_nat_def)
  show ok': "pipe_ok i ?t" using ok by (simp add: pipe_ok_def ends)
  have tail: "wrap (wrap (tail_at i s + c) + k) = wrap (tail_at i s + (c + k))" for k by (simp add: mod_simps add.assoc)
  have "head_at i s = wrap (wrap (tail_at i s + c) + (length (pipe_bytes i s) - c))"
    using c(1) head_tail [OF ok] by (simp only: tail le_add_diff_inverse)
  then show "pipe_bytes i ?t = drop c (pipe_bytes i s)"
    using c(1) length_bytes_less [of i s]
    by (intro pipe_bytes_eqI [OF ok']) (simp_all add: ends tail page nth_pipe_bytes)
  show "user ?t = deliver (current s) buf (take c (pipe_bytes i s)) (user s)"
  proof (intro ext)
    fix p b
    have "phys_byte (i_size (inode_table s i) + PIPE_TAIL (inode_table s i) + (b - buf)) (mm s) = pipe_bytes i s ! unat (b - buf)"
      if "unat (b - buf) < c"
    proof -
      have "wrap (tail_at i s + unat (b - buf)) = tail_at i s + unat (b - buf)" using that c(2) by simp
      then show ?thesis using that c(1) by (simp add: nth_pipe_bytes page_byte_def tail_at_def add.assoc)
    qed
    then show "user ?t p b = deliver (current s) buf (take c (pipe_bytes i s)) (user s) p b"
      using c(1) by (simp add: t deliver_def)
  qed
  show "mm ?t = mm s" by (simp add: t advance_fields)
qed

lemma write_chunk_spec:
  assumes ok: "pipe_ok i s" and c: "length (pipe_bytes i s) + c < 4096" "head_at i s + c \<le> 4096"
  shows "pipe_ok i (write_chunk i c buf s)"
    "pipe_bytes i (write_chunk i c buf s) =
       pipe_bytes i s @ List.map (\<lambda>k. user s (current s) (buf + of_nat k)) [0..<c]"
    "user (write_chunk i c buf s) = user s"
    "4096 \<le> unat (b - i_size (inode_table s i)) \<Longrightarrow> phys_byte b (mm (write_chunk i c buf s)) = phys_byte b (mm s)"
proof -
  let ?a = "advance i 0 (of_nat c) s" let ?t = "write_chunk i c buf s" let ?n = "length (pipe_bytes i s)"
  have c4: "c \<le> 4096" using c(1) by simp
  obtain f where t: "?t = ?a\<lparr>mm := f\<rparr>" and f: "\<And>b. phys_byte b f =
      (if unat (b - (i_size (inode_table s i) + PIPE_HEAD (inode_table s i))) < c
       then user s (current s) (buf + (b - (i_size (inode_table s i) + PIPE_HEAD (inode_table s i)))) else phys_byte b (mm s))"
    using pipe_in_fields [OF c4, of "i_size (inode_table s i) + PIPE_HEAD (inode_table s i)" buf ?a]
    by (auto simp: write_chunk_def advance_fields cong: if_cong)
  have ends: "tail_at i ?t = tail_at i s" "head_at i ?t = wrap (head_at i s + c)"
    by (simp_all add: t advance_ends [OF c4])
  show ok': "pipe_ok i ?t" using ok by (simp add: pipe_ok_def ends)
  have size: "i_size (inode_table ?t i) = i_size (inode_table s i)" by (simp add: t advance_fields)
  have past: "unat (of_nat k - PIPE_HEAD (inode_table s i)) < c \<longleftrightarrow> head_at i s \<le> k \<and> k < head_at i s + c" if "k < 4096" for k
    using past_chunk(1) [of "head_at i s" c "of_nat k"] that ok c4
    by (simp add: head_at_def pipe_ok_def unsigned_of_nat take_bit_nat_eq_self)
  have page: "page_byte i k ?t = (if head_at i s \<le> k \<and> k < head_at i s + c
      then user s (current s) (buf + of_nat (k - head_at i s)) else page_byte i k s)" if "k < 4096" for k
    using past [OF that] by (auto simp: page_byte_def size) (simp_all add: t f head_at_def algebra_simps)
  have "wrap (head_at i s + c) = wrap (tail_at i s + (?n + c))"
    using head_tail [OF ok] by (simp add: mod_simps add.assoc)
  then show "pipe_bytes i ?t = pipe_bytes i s @ List.map (\<lambda>k. user s (current s) (buf + of_nat k)) [0..<c]"
  proof (intro pipe_bytes_eqI [OF ok'])
    fix k assume "k < length (pipe_bytes i s @ List.map (\<lambda>k. user s (current s) (buf + of_nat k)) [0..<c])"
    then have k: "k < ?n + c" by simp
    have at: "wrap (tail_at i s + k) = (if tail_at i s + k < 4096 then tail_at i s + k else tail_at i s + k - 4096)"
      "head_at i s = (if tail_at i s + ?n < 4096 then tail_at i s + ?n else tail_at i s + ?n - 4096)"
      using k c ok head_tail [OF ok] by (simp_all add: wrap_add pipe_ok_def)
    have tl: "tail_at i s < 4096" using ok by (simp add: pipe_ok_def)
    show "page_byte i (wrap (tail_at i ?t + k)) ?t =
        (pipe_bytes i s @ List.map (\<lambda>k. user s (current s) (buf + of_nat k)) [0..<c]) ! k"
    proof (cases "k < ?n")
      case True
      then have "\<not> (head_at i s \<le> wrap (tail_at i s + k) \<and> wrap (tail_at i s + k) < head_at i s + c)"
        using at tl c by (auto split: if_splits)
      then have "page_byte i (wrap (tail_at i s + k)) ?t = page_byte i (wrap (tail_at i s + k)) s"
        using page [of "wrap (tail_at i s + k)"] by (subst page) (simp, meson)
      then show ?thesis using True by (simp add: ends nth_append nth_pipe_bytes)
    next
      case False
      then obtain j where j: "k = ?n + j" "j < c" using k by (metis le_Suc_ex nat_add_left_cancel_less not_less)
      then have "wrap (tail_at i s + k) = head_at i s + j" using at tl c by (auto split: if_splits)
      moreover have "page_byte i (head_at i s + j) ?t = user s (current s) (buf + of_nat j)"
        using j c by (subst page) simp_all
      ultimately show ?thesis using j by (simp add: ends nth_append)
    qed
  qed (use c ends in simp_all)
  show "user ?t = user s" by (simp add: t advance_fields)
  show "phys_byte b (mm ?t) = phys_byte b (mm s)" if "4096 \<le> unat (b - i_size (inode_table s i))"
  proof -
    have "\<not> unat (b - i_size (inode_table s i) - of_nat (head_at i s)) < c"
      using past_chunk(1) [of "head_at i s" c] ok c that by (simp add: pipe_ok_def)
    then show ?thesis by (simp add: t f head_at_def algebra_simps)
  qed
qed

section \<open>Reading and writing are two sides of the loop\<close>

definition read_moved :: "nat \<Rightarrow> nat \<Rightarrow> u32 \<Rightarrow> kstate \<Rightarrow> nat \<Rightarrow> kstate \<Rightarrow> bool" where
  "read_moved i me buf s n t \<longleftrightarrow> pipe_ok i t \<and> n \<le> length (pipe_bytes i s) \<and>
     pipe_bytes i t = drop n (pipe_bytes i s) \<and> user t = deliver me buf (take n (pipe_bytes i s)) (user s) \<and> mm t = mm s"

definition write_moved :: "nat \<Rightarrow> nat \<Rightarrow> u32 \<Rightarrow> kstate \<Rightarrow> nat \<Rightarrow> kstate \<Rightarrow> bool" where
  "write_moved i me buf s n t \<longleftrightarrow> pipe_ok i t \<and> length (pipe_bytes i s) + n < 4096 \<and>
     pipe_bytes i t = pipe_bytes i s @ List.map (\<lambda>k. user s me (buf + of_nat k)) [0..<n] \<and> user t = user s \<and>
     i_size (inode_table t i) = i_size (inode_table s i) \<and>
     (\<forall>b. 4096 \<le> unat (b - i_size (inode_table s i)) \<longrightarrow> phys_byte b (mm t) = phys_byte b (mm s))"

lemma deliver_more:
  assumes "n + c \<le> length xs" "length xs \<le> 4096"
  shows "deliver p (buf + of_nat n) (take c (drop n xs)) (deliver p buf (take n xs) u) = deliver p buf (take (n + c) xs) u"
proof (intro ext)
  fix q b
  have b: "b - (buf + of_nat n) = (b - buf) - of_nat n" by simp
  show "deliver p (buf + of_nat n) (take c (drop n xs)) (deliver p buf (take n xs) u) q b = deliver p buf (take (n + c) xs) u q b"
    unfolding deliver_def b
    using past_chunk [of n c "b - buf"] assms by (auto simp: min_def)
qed

lemma view_cong:
  assumes "inode_table t i = (inode_table s i)\<lparr>i_wait := w\<rparr>" "mm t = mm s"
  shows "pipe_ok i t = pipe_ok i s" "pipe_bytes i t = pipe_bytes i s"
  using assms by (simp_all add: pipe_ok_def head_at_def tail_at_def pipe_bytes_def page_byte_def PIPE_SIZE_def
      PIPE_HEAD_def PIPE_TAIL_def)

lemma woken_inode: "inode_table (wake_up (inode_queue i) s) i = (inode_table s i)\<lparr>i_wait := None\<rparr>"
  "mm (wake_up (inode_queue i) s) = mm s" "user (wake_up (inode_queue i) s) = user s"
  by (auto simp: wake_up_def set_state_def queue_simps state_simps split: option.split)

lemma slept_inode:
  "inode_table ((put_wait (inode_queue i) p s)\<lparr>tsk := f, current := c\<rparr>) i = (inode_table s i)\<lparr>i_wait := p\<rparr>"
  "mm ((put_wait (inode_queue i) p s)\<lparr>tsk := f, current := c\<rparr>) = mm s"
  "user ((put_wait (inode_queue i) p s)\<lparr>tsk := f, current := c\<rparr>) = user s"
  by (simp_all add: queue_simps state_simps)

lemma pipe_out_only: "\<exists>u. pipe_out n a b s = s\<lparr>user := u\<rparr>"
proof (induction n arbitrary: a b s)
  case (Suc n)
  obtain u where "pipe_out n (a + 1) (b + 1) (put_fs_byte (phys_byte a (mm s)) b s) =
      (put_fs_byte (phys_byte a (mm s)) b s)\<lparr>user := u\<rparr>" using Suc by blast
  then show ?case by (simp add: put_fs_byte_def) blast
next
  case 0
  show ?case by (rule exI [of _ "user s"]) simp
qed

lemma pipe_in_only: "\<exists>m. pipe_in n a b s = s\<lparr>mm := m\<rparr>"
proof (induction n arbitrary: a b s)
  case (Suc n)
  obtain m where "pipe_in n (a + 1) (b + 1) (s\<lparr>mm := poke_byte (get_fs_byte b s) a (mm s)\<rparr>) =
      s\<lparr>mm := poke_byte (get_fs_byte b s) a (mm s), mm := m\<rparr>" using Suc by blast
  then show ?case by simp blast
next
  case 0
  show ?case by (rule exI [of _ "mm s"]) simp
qed

lemma read_chunk_keeps:
  "tsk (read_chunk i n b s) = tsk s" "task (read_chunk i n b s) = task s" "current (read_chunk i n b s) = current s"
  "i_count (inode_table (read_chunk i n b s) i) = i_count (inode_table s i)"
proof -
  obtain u where "read_chunk i n b s = (advance i 1 (of_nat n) s)\<lparr>user := u\<rparr>"
    unfolding read_chunk_def using pipe_out_only by blast
  then show "tsk (read_chunk i n b s) = tsk s" "task (read_chunk i n b s) = task s" "current (read_chunk i n b s) = current s"
    "i_count (inode_table (read_chunk i n b s) i) = i_count (inode_table s i)" by (simp_all add: advance_fields)
qed

lemma write_chunk_keeps:
  "tsk (write_chunk i n b s) = tsk s" "task (write_chunk i n b s) = task s" "current (write_chunk i n b s) = current s"
  "i_count (inode_table (write_chunk i n b s) i) = i_count (inode_table s i)"
  "i_size (inode_table (write_chunk i n b s) i) = i_size (inode_table s i)"
proof -
  obtain m where "write_chunk i n b s = (advance i 0 (of_nat n) s)\<lparr>mm := m\<rparr>"
    unfolding write_chunk_def using pipe_in_only by blast
  then show "tsk (write_chunk i n b s) = tsk s" "task (write_chunk i n b s) = task s" "current (write_chunk i n b s) = current s"
    "i_count (inode_table (write_chunk i n b s) i) = i_count (inode_table s i)"
    "i_size (inode_table (write_chunk i n b s) i) = i_size (inode_table s i)" by (simp_all add: advance_fields)
qed

lemmas chunk_keeps = read_chunk_keeps write_chunk_keeps

interpretation reading: pipe_side i me PIPE_SIZE "\<lambda>m. 4096 - PIPE_TAIL m" "read_chunk i" "length (pipe_bytes i s)" buf "read_moved i me buf s"
  for i me buf s
proof unfold_locales
  show "length (pipe_bytes i s) < 4096" by (rule length_bytes_less)
next
  fix n t assume "read_moved i me buf s n t"
  then have t: "n \<le> length (pipe_bytes i s)" "pipe_bytes i t = drop n (pipe_bytes i s)" "pipe_ok i t" by (simp_all add: read_moved_def)
  have "unat (PIPE_SIZE (inode_table t i)) = length (pipe_bytes i t)" by (simp add: pipe_bytes_def)
  with t show "n \<le> length (pipe_bytes i s) \<and> unat (PIPE_SIZE (inode_table t i)) = length (pipe_bytes i s) - n" by simp
  show "0 < unat (4096 - PIPE_TAIL (inode_table t i)) \<and> unat (4096 - PIPE_TAIL (inode_table t i)) \<le> 4096"
    using t(3) by (simp add: pipe_ok_def tail_at_def unat_sub_if' word_le_nat_alt)
next
  fix n t c
  assume t: "read_moved i me buf s n t" "current t = me" "n + c \<le> length (pipe_bytes i s)"
    and "c \<le> unat (4096 - PIPE_TAIL (inode_table t i))"
  then have c: "c \<le> length (pipe_bytes i t)" "tail_at i t + c \<le> 4096"
    by (auto simp: read_moved_def pipe_ok_def tail_at_def unat_sub_if' word_le_nat_alt)
  show "read_moved i me buf s (n + c) (read_chunk i c (buf + of_nat n) t)"
    using t read_chunk_spec [OF _ c, of "buf + of_nat n"] length_bytes_less [of i s]
    by (simp add: read_moved_def deliver_more add.commute)
qed (simp_all add: read_moved_def chunk_keeps woken_inode view_cong [OF slept_inode(1,2)] view_cong [OF woken_inode(1,2)] slept_inode)

lemma pipe_room: "unat (PIPE_ROOM (inode_table t i)) = 4095 - length (pipe_bytes i t)"
proof -
  have l: "length (pipe_bytes i t) = unat (PIPE_SIZE (inode_table t i))" by (simp add: pipe_bytes_def)
  have "PIPE_SIZE (inode_table t i) \<le> 4095" using length_bytes_less [of i t] by (simp add: l word_le_nat_alt)
  then show ?thesis by (simp add: PIPE_ROOM_def unat_sub l)
qed

lemma page_limit: "pipe_ok i t \<Longrightarrow> unat (4096 - PIPE_HEAD (inode_table t i)) = 4096 - head_at i t"
  by (simp add: pipe_ok_def head_at_def unat_sub word_le_nat_alt)

lemma write_moved_chunk:
  assumes t: "write_moved i me buf s n t" "current t = me" and c: "n + c \<le> 4095 - length (pipe_bytes i s)" "c \<le> 4096 - head_at i t"
  shows "write_moved i me buf s (n + c) (write_chunk i c (buf + of_nat n) t)"
proof -
  have ok: "pipe_ok i t" and len: "length (pipe_bytes i t) = length (pipe_bytes i s) + n" "length (pipe_bytes i s) + n < 4096"
    using t(1) by (simp_all add: write_moved_def)
  have c': "length (pipe_bytes i t) + c < 4096" "head_at i t + c \<le> 4096" using c len ok unfolding pipe_ok_def by arith+
  have app: "List.map f [0..<n] @ List.map (\<lambda>k. f (n + k)) [0..<c] = List.map f [0..<n + c]" for f :: "nat \<Rightarrow> u8"
    by (rule nth_equalityI) (auto simp: nth_append)
  note spec = write_chunk_spec [OF ok c', where buf = "buf + of_nat n"]
  have "pipe_bytes i (write_chunk i c (buf + of_nat n) t) =
      pipe_bytes i s @ List.map (\<lambda>k. user s me (buf + of_nat k)) [0..<n + c]"
    using t app [of "\<lambda>k. user s me (buf + of_nat k)"] unfolding spec(2) by (simp add: write_moved_def add.assoc)
  moreover have "phys_byte b (mm (write_chunk i c (buf + of_nat n) t)) = phys_byte b (mm s)"
    if "4096 \<le> unat (b - i_size (inode_table s i))" for b
    using t(1) that spec(4) [where b = b] by (simp add: write_moved_def)
  moreover have "user t = user s" "i_size (inode_table t i) = i_size (inode_table s i)" using t(1) by (simp_all add: write_moved_def)
  ultimately show ?thesis
    unfolding write_moved_def write_chunk_keeps spec(3) using spec(1) c' len by (auto simp only: add.assoc)
qed

interpretation writing: pipe_side i me PIPE_ROOM "\<lambda>m. 4096 - PIPE_HEAD m" "write_chunk i" "4095 - length (pipe_bytes i s)" buf "write_moved i me buf s"
  for i me buf s
proof unfold_locales
  show "4095 - length (pipe_bytes i s) < 4096" by simp
next
  fix n t assume "write_moved i me buf s n t"
  then have t: "pipe_ok i t" "length (pipe_bytes i s) + n < 4096" "length (pipe_bytes i t) = length (pipe_bytes i s) + n"
    by (simp_all add: write_moved_def)
  then show "n \<le> 4095 - length (pipe_bytes i s) \<and> unat (PIPE_ROOM (inode_table t i)) = 4095 - length (pipe_bytes i s) - n"
    unfolding pipe_room by simp
  show "0 < unat (4096 - PIPE_HEAD (inode_table t i)) \<and> unat (4096 - PIPE_HEAD (inode_table t i)) \<le> 4096"
    using t(1) unfolding page_limit [OF t(1)] by (simp add: pipe_ok_def)
next
  fix n t c
  assume t: "write_moved i me buf s n t" and "current t = me" "n + c \<le> 4095 - length (pipe_bytes i s)"
    and "c \<le> unat (4096 - PIPE_HEAD (inode_table t i))"
  then show "write_moved i me buf s (n + c) (write_chunk i c (buf + of_nat n) t)"
    using page_limit [of i t] by (intro write_moved_chunk) (simp_all add: write_moved_def)
next
  fix n t
  show "write_moved i me buf s n t \<Longrightarrow> write_moved i me buf s n (wake_up (inode_queue i) t)"
    by (simp add: write_moved_def woken_inode view_cong [OF woken_inode(1,2)])
  show "write_moved i me buf s n t \<Longrightarrow> write_moved i me buf s n ((put_wait (inode_queue i) p t)\<lparr>tsk := f, current := c\<rparr>)" for p f c
    by (simp add: write_moved_def slept_inode view_cong [OF slept_inode(1,2)]) (simp add: queue_simps state_simps)
qed (simp_all add: chunk_keeps)

section \<open>Reading and writing\<close>

lemma wake_fields [simp]: "current (wake_up (inode_queue i) s) = current s"
  by (auto simp: wake_up_def set_state_def queue_simps state_simps split: option.split)

lemma start_moved: "pipe_ok i s \<Longrightarrow> read_moved i me buf s 0 s" "pipe_ok i s \<Longrightarrow> write_moved i me buf s 0 s"
  using length_bytes_less [of i s] by (simp_all add: read_moved_def write_moved_def deliver_def)

text \<open>The bytes a task wants to write.\<close>

definition user_bytes :: "u32 \<Rightarrow> nat \<Rightarrow> kstate \<Rightarrow> u8 list" where
  "user_bytes buf n s = List.map (\<lambda>k. get_fs_byte (buf + of_nat k) s) [0..<n]"

text \<open>The state after \<open>n\<close> bytes from the caller's \<open>buf\<close> have been written, or read into it.\<close>

definition appended :: "nat \<Rightarrow> u32 \<Rightarrow> nat \<Rightarrow> kstate \<Rightarrow> kstate \<Rightarrow> bool" where
  "appended i buf n s t \<longleftrightarrow> pipe_ok i t \<and> pipe_bytes i t = pipe_bytes i s @ user_bytes buf n s \<and> user t = user s \<and>
    (\<forall>a. 4096 \<le> unat (a - i_size (inode_table s i)) \<longrightarrow> phys_byte a (mm t) = phys_byte a (mm s))"

definition taken :: "nat \<Rightarrow> u32 \<Rightarrow> nat \<Rightarrow> kstate \<Rightarrow> kstate \<Rightarrow> bool" where
  "taken i buf n s t \<longleftrightarrow> pipe_ok i t \<and> pipe_bytes i t = drop n (pipe_bytes i s) \<and>
    user t = deliver (current s) buf (take n (pipe_bytes i s)) (user s) \<and> mm t = mm s"

lemma appended_moved: "write_moved i (current s) buf s n t \<Longrightarrow> appended i buf n s t"
  by (simp add: write_moved_def appended_def user_bytes_def get_fs_byte_def)

lemma taken_moved: "read_moved i (current s) buf s n t \<Longrightarrow> taken i buf n s t"
  by (simp add: read_moved_def taken_def)

lemma same_view: "inode_table t i = (inode_table s i)\<lparr>i_wait := w\<rparr> \<Longrightarrow> mm t = mm s \<Longrightarrow> user t = user s \<Longrightarrow>
    appended i buf n r t = appended i buf n r s \<and> taken i buf n r t = taken i buf n r s"
  using view_cong [where t = t and s = s] by (simp add: appended_def taken_def)

lemma appended_wake [simp]: "appended i buf n s (wake_up (inode_queue i) t) = appended i buf n s t"
  "taken i buf n s (wake_up (inode_queue i) t) = taken i buf n s t"
  using same_view [OF woken_inode] by blast+

lemma appended_upd_cur [simp]: "appended i buf n s (upd_cur f t) = appended i buf n s t"
  "taken i buf n s (upd_cur f t) = taken i buf n s t"
  using same_view [where t = "upd_cur f t" and s = t and w = "i_wait (inode_table t i)"] by (simp_all add: state_simps)

text \<open>A pipe with 6 bytes, from 4093 around to 3, that only one end is left of.\<close>

definition small_pipe :: kstate where
  "small_pipe = two_tasks\<lparr>inode_table := (\<lambda>_. (undefined :: m_inode)\<lparr>i_zone := (\<lambda>n. if n = 0 then 3 else 4093),
     i_size := 0x50000, i_count := 1, i_wait := None\<rparr>)\<rparr>"

lemma small_pipe: "pipe_ok 7 small_pipe" "sched_inv small_pipe" "current small_pipe \<noteq> 0" "length (pipe_bytes 7 small_pipe) = 6"
    "i_count (inode_table small_pipe 7) = 1"
proof -
  show ok: "pipe_ok 7 small_pipe" by (simp add: small_pipe_def pipe_ok_def head_at_def tail_at_def PIPE_HEAD_def PIPE_TAIL_def)
  show "sched_inv small_pipe" using two_tasks_inv by (simp add: small_pipe_def sched_inv_def)
  show "current small_pipe \<noteq> 0" by (simp add: small_pipe_def two_tasks_def)
  show "length (pipe_bytes 7 small_pipe) = 6"
    unfolding length_pipe_bytes [OF ok] by (simp add: small_pipe_def head_at_def tail_at_def PIPE_HEAD_def PIPE_TAIL_def)
  show "i_count (inode_table small_pipe 7) = 1" by (simp add: small_pipe_def)
qed

text \<open>
  C12. Writing to a pipe appends to it: the bytes in the pipe, from tail to head around the page,
  are a bounded buffer of 4095 bytes. \<open>write_pipe\<close> appends the caller's bytes in order, as many
  as fit, and touches no byte outside the pipe's page. If all fit it returns their number; if not
  it goes to sleep with the pipe full, or, when the pipe has no reader, stops with \<open>SIGPIPE\<close>
  raised and the number it could write, or \<open>-1\<close> if that is none.
\<close>

theorem write_pipe_appends:
  assumes "pipe_ok i s" "sched_inv s" "current s \<noteq> 0" "0 \<le> sint count"
    and "n = min (unat count) (4095 - length (pipe_bytes i s))"
  shows "if n = unat count then \<exists>t. write_pipe i buf count s = Ret count t \<and> appended i buf n s t
    else if i_count (inode_table s i) = 2
    then \<exists>t. write_pipe i buf count s = Sleeps t \<and> appended i buf n s t \<and> current t \<noteq> current s
    else \<exists>t. write_pipe i buf count s = Ret (if n = 0 then - 1 else of_nat n) t \<and> appended i buf n s t \<and>
      t_signal (cur t) AND sig_bit SIGPIPE \<noteq> 0"
proof -
  define l where "l = loop (write_pipe_step i) (count, 0, buf) s"
  let ?a = "4095 - length (pipe_bytes i s)"
  let ?sig = "upd_cur (\<lambda>t. t\<lparr>t_signal := t_signal t OR sig_bit SIGPIPE\<rparr>)"
  let ?res = "\<lambda>n. if tst n then n else - 1"
  have ends: "writing.ends (current s) i s buf (unat count) (i_count (inode_table s i) = 2) ?res ?sig l"
    unfolding l_def write_pipe_step_eq
    using writing.loop_moves [where n = 0, OF start_moved(2) [OF assms(1)] assms(2) refl assms(3,4) _ refl] by simp
  have w: "write_pipe i buf count s = seq l (\<lambda>r s. case r of (ended, written) \<Rightarrow>
      Ret written (if ended then wake_up (inode_queue i) s else s))" by (simp add: write_pipe_def l_def)
  show ?thesis
  proof (cases "unat count \<le> ?a")
    case True
    then have n: "n = unat count" using assms(5) by simp
    obtain t where "l = Ret (True, count) t" "write_moved i (current s) buf s n t"
      using ends True unfolding writing.ends_def n by auto
    then show ?thesis using n appended_moved by (simp add: w)
  next
    case False
    then have n: "n = ?a" "n \<noteq> unat count" using assms(5) by simp_all
    have "unat (of_nat n :: u32) = n" using n(1) by (simp add: unsigned_of_nat take_bit_nat_eq_self)
    then have small: "(of_nat n :: u32) = 0 \<longleftrightarrow> n = 0" by (metis unat_eq_0)
    show ?thesis
    proof (cases "i_count (inode_table s i) = 2")
      case True
      then obtain t where "l = Sleeps t" "write_moved i (current s) buf s n t" "current t \<noteq> current s"
        using ends False n unfolding writing.ends_def by auto
      then show ?thesis using True n(2) appended_moved by (simp add: w)
    next
      case other: False
      obtain t where t: "l = Ret (False, ?res (of_nat n)) (?sig t)" "write_moved i (current s) buf s n t"
        using ends False other n(1) unfolding writing.ends_def by auto
      have "bit (t_signal (cur (?sig t)) AND sig_bit SIGPIPE) 12" by (simp add: state_simps bit_simps sig_bit_def SIGPIPE_def)
      then have sig: "t_signal (cur (?sig t)) AND sig_bit SIGPIPE \<noteq> 0" by auto
      have "write_pipe i buf count s = Ret (if n = 0 then - 1 else of_nat n) (?sig t)"
        unfolding w t(1) by (simp add: small)
      then show ?thesis using n(2) other sig appended_moved [OF t(2)] by simp
    qed
  qed
qed

theorem write_pipe_appends_witness:
  "\<exists>t. write_pipe 7 0x100 5 small_pipe = Ret 5 t \<and> appended 7 0x100 5 small_pipe t"
  using write_pipe_appends [OF small_pipe(1-3), of 5 5 "0x100"] by (simp add: small_pipe(4))

text \<open>
  C13. Reading from a pipe takes from its front: \<open>read_pipe\<close> gives the caller the oldest bytes of
  the pipe, in order, stores to nothing but the caller's buffer and leaves the others in the
  pipe. It returns when it has all the bytes asked for, or when the pipe is empty and has no
  writer; otherwise it sleeps with the pipe empty, also when it has some bytes already.
\<close>

theorem read_pipe_takes:
  assumes "pipe_ok i s" "sched_inv s" "current s \<noteq> 0" "0 \<le> sint count"
    and "n = min (unat count) (length (pipe_bytes i s))"
  shows "if n = unat count \<or> i_count (inode_table s i) \<noteq> 2
    then \<exists>t. read_pipe i buf count s = Ret (of_nat n) t \<and> taken i buf n s t
    else \<exists>t. read_pipe i buf count s = Sleeps t \<and> taken i buf n s t \<and> current t \<noteq> current s"
proof -
  let ?l = "loop (read_pipe_step i) (count, 0, buf) s"
  have ends: "reading.ends (current s) i s buf (unat count) (i_count (inode_table s i) = 2) (\<lambda>n. n) (\<lambda>s. s) ?l"
    unfolding read_pipe_step_eq using reading.loop_moves [where n = 0, OF start_moved(1) [OF assms(1)] assms(2) refl assms(3,4) _ refl]
    by simp
  show ?thesis
  proof (cases "unat count \<le> length (pipe_bytes i s)")
    case True
    then show ?thesis using ends assms(5) taken_moved unfolding reading.ends_def
      by (auto simp: read_pipe_def)
  next
    case False
    then show ?thesis using ends assms(5) taken_moved unfolding reading.ends_def
      by (auto simp: read_pipe_def)
  qed
qed

theorem read_pipe_takes_witness:
  "\<exists>t. read_pipe 7 0x100 10 small_pipe = Ret 6 t \<and> taken 7 0x100 6 small_pipe t"
  using read_pipe_takes [OF small_pipe(1-3), of 10 6 "0x100"] by (simp add: small_pipe(4,5))

end
