(* ===== verification/Fork.thy ===== *)
theory Fork
  imports FileCalls
begin

text \<open>
  \<open>kernel/fork.c\<close>: a new process. \<open>task s nr\<close> is the address of the page of the task in slot
  \<open>nr\<close>, \<open>tsk s nr\<close> what is in it. The user memory of the child is, seen through the copied page
  tables, that of the parent.
\<close>

section \<open>Segments of the new process\<close>

definition copy_mem :: "nat \<Rightarrow> kstate \<Rightarrow> (u32, kstate) outcome" where
  "copy_mem nr s =
    (if data_base s \<noteq> code_base s then Panic ''We don't support separate I&D''
     else if data_limit s < code_limit s then Panic ''Bad data_limit''
     else
       let new_base = of_nat nr * 0x4000000;
           s = upd_task nr (\<lambda>p. p\<lparr>t_start_code := new_base,
                 t_ldt := (t_ldt p)(1 := set_base new_base (t_ldt p 1), 2 := set_base new_base (t_ldt p 2))\<rparr>) s
       in seq (in_mm (copy_page_tables (data_base s) new_base (data_limit s)) s) (\<lambda>err s.
            if tst err then
              seq (in_mm (free_page_tables new_base (data_limit s)) s) (\<lambda>_ s. Ret (- ENOMEM) s)
            else Ret 0 (s\<lparr>user := (user s)(nr := user s (current s))\<rparr>)))"

section \<open>Descriptors of the task in the global table\<close>

definition FIRST_TSS_ENTRY :: nat where "FIRST_TSS_ENTRY = 4"
definition FIRST_LDT_ENTRY :: nat where "FIRST_LDT_ENTRY = FIRST_TSS_ENTRY + 1"

definition LDT_SELECTOR :: "nat \<Rightarrow> u32" where
  "LDT_SELECTOR n = push_bit 4 (of_nat n) + push_bit 3 (of_nat FIRST_LDT_ENTRY)"

text \<open>The eight bytes of a descriptor with limit 104.\<close>

definition tssldt_desc :: "u32 \<Rightarrow> u32 \<Rightarrow> 64 word" where
  "tssldt_desc addr typ = set_base addr (put_field 48 8 0 (put_field 40 8 typ (put_field 0 16 104 0)))"

text \<open>Where \<open>ldt\<close> and \<open>tss\<close> are in a \<open>struct task_struct\<close>.\<close>

definition LDT_OFFSET :: u32 where "LDT_OFFSET = 720"
definition TSS_OFFSET :: u32 where "TSS_OFFSET = 744"

definition set_task_desc :: "nat \<Rightarrow> kstate \<Rightarrow> kstate" where
  "set_task_desc nr s = s\<lparr>gdt := (gdt s)(
     2 * nr + FIRST_TSS_ENTRY := tssldt_desc (task s nr + TSS_OFFSET) 0x89,
     2 * nr + FIRST_LDT_ENTRY := tssldt_desc (task s nr + LDT_OFFSET) 0x82)\<rparr>"

section \<open>\<open>copy_process\<close>\<close>

text \<open>The registers on the stack of the system call.\<close>

record sys_frame =
  fr_ebp :: u32
  fr_edi :: u32
  fr_esi :: u32
  fr_gs :: u32
  fr_ebx :: u32
  fr_ecx :: u32
  fr_edx :: u32
  fr_fs :: u32
  fr_es :: u32
  fr_ds :: u32
  fr_eip :: u32
  fr_cs :: u32
  fr_eflags :: u32
  fr_esp :: u32
  fr_ss :: u32

definition child_tss :: "nat \<Rightarrow> u32 \<Rightarrow> sys_frame \<Rightarrow> tss_struct \<Rightarrow> tss_struct" where
  "child_tss nr page r t = t\<lparr>back_link := 0, esp0 := 4096 + page, ss0 := 0x10, tss_eip := fr_eip r,
     tss_eflags := fr_eflags r, tss_eax := 0, tss_ecx := fr_ecx r, tss_edx := fr_edx r, tss_ebx := fr_ebx r,
     tss_esp := fr_esp r, tss_ebp := fr_ebp r, tss_esi := fr_esi r, tss_edi := fr_edi r,
     tss_es := fr_es r AND 0xffff, tss_cs := fr_cs r AND 0xffff, tss_ss := fr_ss r AND 0xffff,
     tss_ds := fr_ds r AND 0xffff, tss_fs := fr_fs r AND 0xffff, tss_gs := fr_gs r AND 0xffff,
     tss_ldt := LDT_SELECTOR nr, trace_bitmap := 0x80000000\<rparr>"

definition child_task :: "nat \<Rightarrow> u32 \<Rightarrow> sys_frame \<Rightarrow> kstate \<Rightarrow> task_struct" where
  "child_task nr page r s = (let p = cur s in
     p\<lparr>t_state := TASK_UNINTERRUPTIBLE, t_pid := last_pid s, t_father := t_pid p, t_counter := t_priority p,
       t_signal := 0, t_alarm := 0, t_leader := 0, t_utime := 0, t_stime := 0, t_cutime := 0, t_cstime := 0,
       t_start_time := jiffies s, t_tss := child_tss nr page r (t_tss p)\<rparr>)"

text \<open>\<open>f->f_count++\<close> and \<open>i_count++\<close> for everything the child shares with its parent.\<close>

definition share_file :: "nat \<Rightarrow> nat \<Rightarrow> kstate \<Rightarrow> kstate" where
  "share_file nr fd s = (case t_filp (tsk s nr) fd of None \<Rightarrow> s
     | Some f \<Rightarrow> upd_file f (\<lambda>x. x\<lparr>f_count := f_count x + 1\<rparr>) s)"

definition share_inode :: "nat option \<Rightarrow> kstate \<Rightarrow> kstate" where
  "share_inode i s = (case i of None \<Rightarrow> s | Some i \<Rightarrow> upd_inode i (\<lambda>m. m\<lparr>i_count := i_count m + 1\<rparr>) s)"

definition share_all :: "nat \<Rightarrow> kstate \<Rightarrow> kstate" where
  "share_all nr s = (let s = fold (share_file nr) [0..<NR_OPEN] s in
     share_inode (t_executable (cur s)) (share_inode (t_root (cur s)) (share_inode (t_pwd (cur s)) s)))"

text \<open>
  \<open>fnsave\<close> stores the state of the coprocessor and resets it (to \<open>fpu_reset\<close>), which the parent
  goes on with.
\<close>

definition save_fpu :: "i387_struct \<Rightarrow> nat \<Rightarrow> kstate \<Rightarrow> kstate" where
  "save_fpu fpu_reset nr s =
    (if last_task_used_math s = Some (current s)
     then (upd_task nr (t_tss_update (i387_update (\<lambda>_. fpu s))) s)\<lparr>fpu := fpu_reset\<rparr> else s)"

definition copy_process :: "i387_struct \<Rightarrow> nat \<Rightarrow> sys_frame \<Rightarrow> kstate \<Rightarrow> (u32, kstate) outcome" where
  "copy_process fpu_reset nr r s = seq (in_mm get_free_page s) (\<lambda>page s.
     if page = 0 then Ret (- EAGAIN) s else
     let s = s\<lparr>task := (task s)(nr := page), tsk := (tsk s)(nr := child_task nr page r s)\<rparr>;
         s = save_fpu fpu_reset nr s
     in seq (copy_mem nr s) (\<lambda>err s.
          if tst err then
            seq (in_mm (free_page page) (s\<lparr>task := (task s)(nr := 0)\<rparr>)) (\<lambda>_ s. Ret (- EAGAIN) s)
          else let s = set_task_desc nr (share_all nr s)
               in Ret (last_pid s) (upd_task nr (t_state_update (\<lambda>_. TASK_RUNNING)) s)))"

section \<open>\<open>find_empty_process\<close>\<close>

fun pid_used :: "nat list \<Rightarrow> kstate \<Rightarrow> bool" where
  "pid_used [] s = False"
| "pid_used (i # is) s = (task s i \<noteq> 0 \<and> t_pid (tsk s i) = last_pid s \<or> pid_used is s)"

fun free_task :: "nat list \<Rightarrow> kstate \<Rightarrow> nat option" where
  "free_task [] s = None"
| "free_task (i # is) s = (if task s i = 0 then Some i else free_task is s)"

definition next_pid :: "u32 \<Rightarrow> u32" where
  "next_pid n = (if slt (n + 1) 0 then 1 else n + 1)"

text \<open>\<open>repeat:\<close> ends because there are fewer tasks than process numbers.\<close>

partial_function (option) new_pid :: "kstate \<Rightarrow> kstate option" where
  "new_pid s = (let s = s\<lparr>last_pid := next_pid (last_pid s)\<rparr> in
     if pid_used [0..<NR_TASKS] s then new_pid s else Some s)"

definition find_empty_process :: "kstate \<Rightarrow> (u32, kstate) outcome" where
  "find_empty_process s = (case new_pid s of None \<Rightarrow> Hangs
     | Some s \<Rightarrow> Ret (case free_task [1..<NR_TASKS] s of None \<Rightarrow> - EAGAIN | Some i \<Rightarrow> of_nat i) s)"

text \<open>The assembly entry \<open>_sys_fork\<close>.\<close>

definition sys_fork :: "i387_struct \<Rightarrow> sys_frame \<Rightarrow> kstate \<Rightarrow> (u32, kstate) outcome" where
  "sys_fork fpu_reset r s = seq (find_empty_process s) (\<lambda>nr s.
     if slt nr 0 then Ret nr s else copy_process fpu_reset (unat nr) r s)"

end
