(* ===== verification/Exit.thy ===== *)
theory Exit
  imports Fork
begin

text \<open>
  \<open>kernel/exit.c\<close>: the end of a process, signals to processes, and waiting for children.
\<close>

section \<open>Releasing a task\<close>

fun find_task :: "u32 \<Rightarrow> nat list \<Rightarrow> kstate \<Rightarrow> nat option" where
  "find_task p [] s = None"
| "find_task p (i # is) s = (if task s i = p then Some i else find_task p is s)"

text \<open>\<open>p\<close> is the address of the task's page.\<close>

definition release :: "u32 \<Rightarrow> kstate \<Rightarrow> (unit, kstate) outcome" where
  "release p s =
    (if p = 0 then Ret () s else
     case find_task p [1..<NR_TASKS] s of
       None \<Rightarrow> Panic ''trying to release non-existent task''
     | Some i \<Rightarrow> seq (in_mm (free_page p) (s\<lparr>task := (task s)(i := 0)\<rparr>)) (\<lambda>_ s. schedule s))"

section \<open>Sending signals\<close>

definition raise :: "u32 \<Rightarrow> nat \<Rightarrow> kstate \<Rightarrow> kstate" where
  "raise sig i = upd_task i (\<lambda>t. t\<lparr>t_signal := t_signal t OR sig_bit sig\<rparr>)"

definition send_sig :: "u32 \<Rightarrow> nat \<Rightarrow> bool \<Rightarrow> kstate \<Rightarrow> u32 \<times> kstate" where
  "send_sig sig i priv s =
    (if task s i = 0 \<or> slt sig 1 \<or> slt 32 sig then (- EINVAL, s)
     else if priv \<or> t_euid (cur s) = t_euid (tsk s i) \<or> suser s then (0, raise sig i s)
     else (- EPERM, s))"

text \<open>The loops from the last task down to the second.\<close>

primrec kill_session :: "nat \<Rightarrow> kstate \<Rightarrow> kstate" where
  "kill_session 0 s = s"
| "kill_session (Suc n) s = kill_session n
     (if task s (Suc n) \<noteq> 0 \<and> t_session (tsk s (Suc n)) = t_session (cur s) then raise SIGHUP (Suc n) s else s)"

primrec kill_loop :: "nat \<Rightarrow> (nat \<Rightarrow> kstate \<Rightarrow> bool) \<Rightarrow> u32 \<Rightarrow> bool \<Rightarrow> u32 \<Rightarrow> kstate \<Rightarrow> u32 \<times> kstate" where
  "kill_loop 0 meant sig priv retval s = (retval, s)"
| "kill_loop (Suc n) meant sig priv retval s =
    (if meant (Suc n) s
     then (case send_sig sig (Suc n) priv s of (err, s) \<Rightarrow>
             kill_loop n meant sig priv (if tst err then err else retval) s)
     else kill_loop n meant sig priv retval s)"

definition sys_kill :: "u32 \<Rightarrow> u32 \<Rightarrow> kstate \<Rightarrow> u32 \<times> kstate" where
  "sys_kill pid sig s =
    (let kill = (\<lambda>meant priv. kill_loop (NR_TASKS - 1) meant sig priv 0 s) in
     if pid = 0 then kill (\<lambda>i s. task s i \<noteq> 0 \<and> t_pgrp (tsk s i) = t_pid (cur s)) True
     else if slt 0 pid then kill (\<lambda>i s. task s i \<noteq> 0 \<and> t_pid (tsk s i) = pid) False
     else if pid = - 1 then kill (\<lambda>i s. True) False
     else kill (\<lambda>i s. task s i \<noteq> 0 \<and> t_pgrp (tsk s i) = - pid) False)"

fun find_pid :: "u32 \<Rightarrow> nat list \<Rightarrow> kstate \<Rightarrow> nat option" where
  "find_pid pid [] s = None"
| "find_pid pid (i # is) s = (if task s i \<noteq> 0 \<and> t_pid (tsk s i) = pid then Some i else find_pid pid is s)"

definition tell_father :: "u32 \<Rightarrow> kstate \<Rightarrow> (unit, kstate) outcome" where
  "tell_father pid s = (case (if tst pid then find_pid pid [0..<NR_TASKS] s else None) of
     Some i \<Rightarrow> Ret () (raise SIGCHLD i s)
   | None \<Rightarrow> release (task s (current s)) s)"

section \<open>\<open>do_exit\<close>\<close>

text \<open>One step of the loop that gives the children of the current task to task 1.\<close>

definition orphan :: "nat \<Rightarrow> kstate \<Rightarrow> kstate" where
  "orphan i s =
    (if task s i \<noteq> 0 \<and> t_father (tsk s i) = t_pid (cur s) then
       (let s = upd_task i (t_father_update (\<lambda>_. 1)) s in
        if t_state (tsk s i) = TASK_ZOMBIE then snd (send_sig SIGCHLD 1 True s) else s)
     else s)"

definition put_inodes :: "kstate \<Rightarrow> (unit, kstate) outcome" where
  "put_inodes s =
     seq (iput (t_pwd (cur s)) s) (\<lambda>_ s. let s = upd_cur (t_pwd_update (\<lambda>_. None)) s in
     seq (iput (t_root (cur s)) s) (\<lambda>_ s. let s = upd_cur (t_root_update (\<lambda>_. None)) s in
     seq (iput (t_executable (cur s)) s) (\<lambda>_ s. Ret () (upd_cur (t_executable_update (\<lambda>_. None)) s))))"

text \<open>The controlling terminal, the coprocessor and the session of a leader.\<close>

definition leave_session :: "kstate \<Rightarrow> (unit, kstate) outcome" where
  "leave_session s =
    (let has_tty = (tst (t_leader (cur s)) \<and> sle 0 (t_tty (cur s))) in
     if has_tty \<and> 2 < t_tty (cur s) then Fault else
     let s = (if has_tty then upd_tty (unat (t_tty (cur s))) (tt_pgrp_update (\<lambda>_. 0)) s else s);
         s = (if last_task_used_math s = Some (current s) then s\<lparr>last_task_used_math := None\<rparr> else s)
     in Ret () (if tst (t_leader (cur s)) then kill_session (NR_TASKS - 1) s else s))"

definition do_exit :: "u32 \<Rightarrow> kstate \<Rightarrow> (u32, kstate) outcome" where
  "do_exit code s =
     seq (in_mm (free_page_tables (code_base s) (code_limit s)) s) (\<lambda>_ s.
     seq (in_mm (free_page_tables (data_base s) (data_limit s)) s) (\<lambda>_ s.
     seq (for_each (\<lambda>i s. if t_filp (cur s) i \<noteq> None
            then seq (sys_close (of_nat i) s) (\<lambda>_ s. Ret () s) else Ret () s) [0..<NR_OPEN]
            (fold orphan [0..<NR_TASKS] s)) (\<lambda>_ s.
     seq (put_inodes s) (\<lambda>_ s.
     seq (leave_session s) (\<lambda>_ s.
     let s = upd_cur (\<lambda>t. t\<lparr>t_state := TASK_ZOMBIE, t_exit_code := code\<rparr>) s in
     seq (tell_father (t_father (cur s)) s) (\<lambda>_ s.
     seq (schedule s) (\<lambda>_ s. Ret (- 1) s)))))))"

definition sys_exit :: "u32 \<Rightarrow> kstate \<Rightarrow> (u32, kstate) outcome" where
  "sys_exit error_code = do_exit (push_bit 8 (error_code AND 0xff))"

section \<open>Waiting for a child\<close>

definition WNOHANG :: u32 where "WNOHANG = 1"
definition WUNTRACED :: u32 where "WUNTRACED = 2"

definition waits_for :: "u32 \<Rightarrow> nat \<Rightarrow> kstate \<Rightarrow> bool" where
  "waits_for pid i s \<longleftrightarrow> task s i \<noteq> 0 \<and> i \<noteq> current s \<and> t_father (tsk s i) = t_pid (cur s) \<and>
    (if slt 0 pid then t_pid (tsk s i) = pid
     else if pid = 0 then t_pgrp (tsk s i) = t_pgrp (cur s)
     else pid = - 1 \<or> t_pgrp (tsk s i) = - pid)"

text \<open>The loop over the tasks; the result is \<open>flag\<close>, or the value of a \<open>return\<close>.\<close>

primrec wait_scan :: "nat \<Rightarrow> u32 \<Rightarrow> u32 \<Rightarrow> u32 \<Rightarrow> u32 \<Rightarrow> kstate \<Rightarrow> (u32 + u32, kstate) outcome" where
  "wait_scan 0 pid stat_addr options flag s = Ret (Inl flag) s"
| "wait_scan (Suc n) pid stat_addr options flag s =
    (let i = Suc n; p = tsk s i in
     if \<not> waits_for pid i s then wait_scan n pid stat_addr options flag s
     else if t_state p = TASK_STOPPED then
       (if options AND WUNTRACED = 0 then wait_scan n pid stat_addr options flag s
        else Ret (Inr (t_pid p)) (put_fs_long 0x7f stat_addr s))
     else if t_state p = TASK_ZOMBIE then
       (let s = upd_cur (\<lambda>t. t\<lparr>t_cutime := t_cutime t + t_utime p, t_cstime := t_cstime t + t_stime p\<rparr>) s
        in seq (release (task s i) s) (\<lambda>_ s. Ret (Inr (t_pid p)) (put_fs_long (t_exit_code p) stat_addr s)))
     else wait_scan n pid stat_addr options 1 s)"

definition wait_step :: "u32 \<Rightarrow> u32 \<Rightarrow> u32 \<Rightarrow> unit \<Rightarrow> kstate \<Rightarrow> (unit + u32, kstate) outcome" where
  "wait_step pid stat_addr options _ s =
     seq (wait_scan (NR_TASKS - 1) pid stat_addr options 0 s) (\<lambda>r s. case r of
       Inr v \<Rightarrow> Ret (Inr v) s
     | Inl flag \<Rightarrow>
        if \<not> tst flag then Ret (Inr (- ECHILD)) s
        else if tst (options AND WNOHANG) then Ret (Inr 0) s
        else seq (schedule (upd_cur (t_state_update (\<lambda>_. TASK_INTERRUPTIBLE)) s)) (\<lambda>_ s.
          let s = upd_cur (\<lambda>t. t\<lparr>t_signal := t_signal t AND NOT (sig_bit SIGCHLD)\<rparr>) s
          in if t_signal (cur s) = 0 then Ret (Inl ()) s else Ret (Inr (- EINTR)) s))"

definition sys_waitpid :: "u32 \<Rightarrow> u32 \<Rightarrow> u32 \<Rightarrow> kstate \<Rightarrow> (u32, kstate) outcome" where
  "sys_waitpid pid stat_addr options s = seq (verify_area stat_addr 4 s) (\<lambda>_ s.
     loop (wait_step pid stat_addr options) () s)"

end
