(* ===== verification/Exec.thy ===== *)
theory Exec
  imports FileCalls Exit
begin

text \<open>
  \<open>fs/exec.c\<close>: \<open>count\<close>, \<open>copy_strings\<close>, \<open>change_ldt\<close>, \<open>create_tables\<close> and \<open>do_execve\<close>, with the
  header of \<open>include/a.out.h\<close>. The strings of the new program are in up to 32 pages, whose
  addresses are the array \<open>page\<close>; \<open>p\<close> is an offset into them, counted from the first page.
\<close>

section \<open>The header of a program\<close>

record exec =
  a_magic :: u32
  a_text :: u32
  a_data :: u32
  a_bss :: u32
  a_syms :: u32
  a_entry :: u32
  a_trsize :: u32
  a_drsize :: u32

definition get_exec :: "(nat \<Rightarrow> u8) \<Rightarrow> exec" where
  "get_exec d = \<lparr>a_magic = get32 d 0, a_text = get32 d 4, a_data = get32 d 8, a_bss = get32 d 12,
     a_syms = get32 d 16, a_entry = get32 d 20, a_trsize = get32 d 24, a_drsize = get32 d 28\<rparr>"

definition ZMAGIC :: u32 where "ZMAGIC = 0x10B"
definition SIZEOF_EXEC :: u32 where "SIZEOF_EXEC = 32"
definition N_HDROFF :: u32 where "N_HDROFF = 1024 - SIZEOF_EXEC"

definition N_TXTOFF :: "exec \<Rightarrow> u32" where
  "N_TXTOFF ex = (if a_magic ex = ZMAGIC then N_HDROFF + SIZEOF_EXEC else SIZEOF_EXEC)"

definition bad_exec :: "exec \<Rightarrow> u32 \<Rightarrow> bool" where
  "bad_exec ex len \<longleftrightarrow> a_magic ex \<noteq> ZMAGIC \<or> tst (a_trsize ex) \<or> tst (a_drsize ex) \<or>
     0x3000000 < a_text ex + a_data ex + a_bss ex \<or>
     len < a_text ex + a_data ex + a_syms ex + N_TXTOFF ex"

section \<open>Counting and copying strings\<close>

text \<open>The number of pointers before the first NULL; \<open>None\<close> if there is no NULL.\<close>

partial_function (option) count_from :: "kstate \<Rightarrow> u32 \<Rightarrow> u32 \<Rightarrow> u32 option" where
  "count_from s tmp i = (if tst (get_fs_long tmp s) then count_from s (tmp + 4) (i + 1) else Some i)"

definition count_args :: "u32 \<Rightarrow> kstate \<Rightarrow> u32 option" where
  "count_args argv s = (if tst argv then count_from s argv 0 else Some 0)"

definition MAX_ARG_PAGES :: nat where "MAX_ARG_PAGES = 32"

type_synonym arg_pages = "nat \<Rightarrow> u32"

text \<open>
  The segment \<open>fs\<close> of \<open>copy_strings\<close> is an argument: \<open>src\<close> is what it holds, of the task or of the
  kernel, and \<open>ptr k\<close> is \<open>argv[k]\<close>, \<open>None\<close> for a NULL.
\<close>

type_synonym segment = "u32 \<Rightarrow> u8"

definition user_segment :: "kstate \<Rightarrow> segment" where
  "user_segment s = user s (current s)"

definition user_argv :: "u32 \<Rightarrow> kstate \<Rightarrow> nat \<Rightarrow> u32 option" where
  "user_argv argv s k = (let tmp = get_fs_long (argv + 4 * of_nat k) s in if tst tmp then Some tmp else None)"

definition kernel_segment :: "u8 list \<Rightarrow> segment" where
  "kernel_segment xs a = (if unat a < length xs then xs ! unat a else 0)"

text \<open>The address of the NUL at or after \<open>a\<close>.\<close>

partial_function (option) str_end :: "segment \<Rightarrow> u32 \<Rightarrow> u32 option" where
  "str_end src a = (if tst (src a) then str_end src (a + 1) else Some a)"

text \<open>
  The page for \<open>p\<close>, when the bytes of the last one are used up: its offset, its address and the
  array, or only the array when there is no free page. An index from 32 on is outside of \<open>page\<close>.
\<close>

definition next_page :: "u32 \<Rightarrow> arg_pages \<Rightarrow> kstate \<Rightarrow> ((u32 \<times> u32) option \<times> arg_pages, kstate) outcome" where
  "next_page p page s =
    (let offset = p mod 4096; k = unat (p div 4096) in
     if MAX_ARG_PAGES \<le> k then Fault
     else if tst (page k) then Ret (Some (offset, page k), page) s
     else seq (in_mm get_free_page s) (\<lambda>pag s.
       Ret (if tst pag then Some (offset, pag) else None, page(k := pag)) s))"

text \<open>\<open>while (len) { --p; --tmp; --len; ... }\<close>\<close>

type_synonym cursor = "u32 \<times> u32 \<times> u32" \<comment> \<open>\<open>p\<close>, \<open>offset\<close> and \<open>pag\<close>\<close>

primrec copy_bytes :: "nat \<Rightarrow> segment \<Rightarrow> u32 \<Rightarrow> cursor \<Rightarrow> arg_pages \<Rightarrow> kstate \<Rightarrow> (cursor option \<times> arg_pages, kstate) outcome" where
  "copy_bytes 0 src tmp c page s = Ret (Some c, page) s"
| "copy_bytes (Suc len) src tmp c page s = (case c of (p, offset, pag) \<Rightarrow>
     let p = p - 1; tmp = tmp - 1; offset = offset - 1 in
     seq (if slt offset 0 then next_page p page s else Ret (Some (offset, pag), page) s) (\<lambda>r s. case r of
       (None, page) \<Rightarrow> Ret (None, page) s
     | (Some (offset, pag), page) \<Rightarrow>
         copy_bytes len src tmp (p, offset, pag) page (s\<lparr>mm := poke_byte (src tmp) (pag + offset) (mm s)\<rparr>)))"

text \<open>
  \<open>while (argc-- > 0)\<close>. The test \<open>p - len < 0\<close> is between unsigned numbers and never true, as in
  the code.
\<close>

primrec copy_args :: "nat \<Rightarrow> (nat \<Rightarrow> u32 option) \<Rightarrow> segment \<Rightarrow> cursor \<Rightarrow> arg_pages \<Rightarrow> kstate \<Rightarrow>
    (cursor option \<times> arg_pages, kstate) outcome" where
  "copy_args 0 ptr src c page s = Ret (Some c, page) s"
| "copy_args (Suc argc) ptr src c page s = (case ptr argc of
     None \<Rightarrow> Panic ''argc is wrong''
   | Some tmp \<Rightarrow> (case str_end src tmp of None \<Rightarrow> Hangs
     | Some e \<Rightarrow>
        let len = e - tmp + 1 in
        if fst c - len < 0 then Ret (None, page) s else
        seq (copy_bytes (unat len) src (e + 1) c page s) (\<lambda>r s. case r of
          (None, page) \<Rightarrow> Ret (None, page) s
        | (Some c, page) \<Rightarrow> copy_args argc ptr src c page s)))"

definition copy_strings ::
    "u32 \<Rightarrow> (nat \<Rightarrow> u32 option) \<Rightarrow> segment \<Rightarrow> u32 \<times> arg_pages \<Rightarrow> kstate \<Rightarrow> (u32 \<times> arg_pages, kstate) outcome" where
  "copy_strings argc ptr src v s = (case v of (p, page) \<Rightarrow>
     if p = 0 then Ret (0, page) s else
     seq (copy_args (nat (sint argc)) ptr src (p, 0, 0) page s) (\<lambda>r s. case r of
       (None, page) \<Rightarrow> Ret (0, page) s
     | (Some (p, _), page) \<Rightarrow> Ret (p, page) s))"

section \<open>The new address space\<close>

text \<open>
  \<open>put_page(page[i],data_base)\<close>: when it succeeds, the task sees the page at this address of its
  segment.
\<close>

definition map_page :: "u32 \<Rightarrow> u32 \<Rightarrow> kstate \<Rightarrow> kstate" where
  "map_page page a s = s\<lparr>user := (user s)(current s := (\<lambda>b.
     if b - a < 4096 then phys_byte (page + (b - a)) (mm s) else user s (current s) b))\<rparr>"

definition put_arg_page :: "arg_pages \<Rightarrow> nat \<Rightarrow> kstate \<Rightarrow> (unit, kstate) outcome" where
  "put_arg_page page i s =
    (let a = 0x4000000 - 4096 * of_nat (MAX_ARG_PAGES - i) in
     if \<not> tst (page i) then Ret () s
     else seq (in_mm (put_page (page i) (data_base s + a)) s) (\<lambda>r s. Ret () (if tst r then map_page (page i) a s else s)))"

text \<open>
  \<open>loaded\<close> is what the task will see where no page is yet: the program, as \<open>do_no_page\<close> loads
  it, and zeros.
\<close>

definition change_ldt :: "segment \<Rightarrow> u32 \<Rightarrow> arg_pages \<Rightarrow> kstate \<Rightarrow> (u32, kstate) outcome" where
  "change_ldt loaded text_size page s =
    (let code_limit = (text_size + 4096 - 1) AND 0xFFFFF000;
         base = code_base s;
         s = upd_cur (\<lambda>t. t\<lparr>t_ldt := (t_ldt t)(
               1 := set_limit code_limit (set_base base (t_ldt t 1)),
               2 := set_limit 0x4000000 (set_base base (t_ldt t 2)))\<rparr>) s;
         s = s\<lparr>user := (user s)(current s := loaded)\<rparr>
     in seq (for_each (put_arg_page page) (rev [0..<MAX_ARG_PAGES]) s) (\<lambda>_ s. Ret 0x4000000 s))"

text \<open>One loop of \<open>create_tables\<close>: pointers to \<open>n\<close> strings from \<open>p\<close> on, and a NULL.\<close>

primrec put_pointers :: "nat \<Rightarrow> u32 \<Rightarrow> u32 \<Rightarrow> kstate \<Rightarrow> (u32, kstate) outcome" where
  "put_pointers 0 p argv s = Ret p (put_fs_long 0 argv s)"
| "put_pointers (Suc n) p argv s = (let s = put_fs_long p argv s in
     case str_end (user_segment s) p of None \<Rightarrow> Hangs | Some e \<Rightarrow> put_pointers n (e + 1) (argv + 4) s)"

definition create_tables :: "u32 \<Rightarrow> u32 \<Rightarrow> u32 \<Rightarrow> kstate \<Rightarrow> (u32, kstate) outcome" where
  "create_tables p argc envc s =
    (let envp = (p AND 0xfffffffc) - 4 * (envc + 1);
         argv = envp - 4 * (argc + 1);
         s = put_fs_long argc (argv - 12) (put_fs_long argv (argv - 8) (put_fs_long envp (argv - 4) s))
     in seq (put_pointers (nat (sint argc)) p argv s) (\<lambda>p s.
        seq (put_pointers (nat (sint envc)) p envp s) (\<lambda>_ s. Ret (argv - 12) s)))"

section \<open>\<open>do_execve\<close>\<close>

text \<open>The exits: \<open>exec_error1\<close> frees the pages, \<open>exec_error2\<close> puts the inode first.\<close>

type_synonym exec_result = "(u32 \<times> sys_frame, kstate) outcome"

definition exec_error1 :: "u32 \<Rightarrow> sys_frame \<Rightarrow> arg_pages \<Rightarrow> kstate \<Rightarrow> exec_result" where
  "exec_error1 retval r page s =
     seq (for_each (\<lambda>i s. in_mm (free_page (page i)) s) [0..<MAX_ARG_PAGES] s) (\<lambda>_ s. Ret (retval, r) s)"

definition exec_error2 :: "u32 \<Rightarrow> nat \<Rightarrow> sys_frame \<Rightarrow> arg_pages \<Rightarrow> kstate \<Rightarrow> exec_result" where
  "exec_error2 retval i r page s = seq (iput (Some i) s) (\<lambda>_ s. exec_error1 retval r page s)"

definition S_ISUID :: u16 where "S_ISUID = 0x800"
definition S_ISGID :: u16 where "S_ISGID = 0x400"

definition exec_uid :: "nat \<Rightarrow> kstate \<Rightarrow> u16" where
  "exec_uid i s = (let m = inode_table s i in if tst (i_mode m AND S_ISUID) then i_uid m else t_euid (cur s))"

definition exec_gid :: "nat \<Rightarrow> kstate \<Rightarrow> u16" where
  "exec_gid i s = (let m = inode_table s i in if tst (i_mode m AND S_ISGID) then ucast (i_gid m) else t_egid (cur s))"

definition may_execute :: "nat \<Rightarrow> kstate \<Rightarrow> bool" where
  "may_execute i s \<longleftrightarrow>
    (let m = inode_table s i;
         mode = (if t_euid (cur s) = i_uid m then drop_bit 6 (i_mode m)
                 else if t_egid (cur s) = ucast (i_gid m) then drop_bit 3 (i_mode m) else i_mode m)
     in tst (mode AND 1) \<or> tst (i_mode m AND 0x49) \<and> suser s)"

text \<open>
  From \<open>restart_interp\<close> to the first block of the file: \<open>k\<close> goes on with the user and group for
  the program and the block's buffer.
\<close>

definition exec_open ::
    "nat \<Rightarrow> sys_frame \<Rightarrow> arg_pages \<Rightarrow> (u16 \<Rightarrow> u16 \<Rightarrow> nat \<Rightarrow> kstate \<Rightarrow> exec_result) \<Rightarrow> kstate \<Rightarrow> exec_result" where
  "exec_open i r page k s =
    (if \<not> S_ISREG (i_mode (inode_table s i)) then exec_error2 (- EACCES) i r page s
     else if \<not> may_execute i s then exec_error2 (- ENOEXEC) i r page s
     else let e_uid = exec_uid i s; e_gid = exec_gid i s in
       seq (bread (inode_dev i s) (zone i 0 s) s) (\<lambda>b s. case b of
         None \<Rightarrow> exec_error2 (- EACCES) i r page s
       | Some b \<Rightarrow> k e_uid e_gid b s))"

section \<open>The point of no return\<close>

definition close_marked :: "kstate \<Rightarrow> (unit, kstate) outcome" where
  "close_marked = for_each (\<lambda>i s.
     if tst (drop_bit i (t_close_on_exec (cur s)) AND 1) then seq (sys_close (of_nat i) s) (\<lambda>_ s. Ret () s)
     else Ret () s) [0..<NR_OPEN]"

definition replace_executable :: "nat \<Rightarrow> kstate \<Rightarrow> (unit, kstate) outcome" where
  "replace_executable i s =
     seq (if t_executable (cur s) \<noteq> None then iput (t_executable (cur s)) s else Ret () s) (\<lambda>_ s.
     Ret () (upd_cur (\<lambda>t. t\<lparr>t_executable := Some i,
       t_sigaction := (\<lambda>n. if n < 32 then (t_sigaction t n)\<lparr>sa_handler := 0\<rparr> else t_sigaction t n)\<rparr>) s))"

definition free_old_memory :: "kstate \<Rightarrow> (unit, kstate) outcome" where
  "free_old_memory s =
     seq (in_mm (free_page_tables (code_base s) (code_limit s)) s) (\<lambda>_ s.
     seq (in_mm (free_page_tables (data_base s) (data_limit s)) s) (\<lambda>_ s.
     let s = (if last_task_used_math s = Some (current s) then s\<lparr>last_task_used_math := None\<rparr> else s)
     in Ret () (upd_cur (t_used_math_update (\<lambda>_. 0)) s)))"

text \<open>The last loop clears the rest of the last page of the data.\<close>

definition run_program :: "segment \<Rightarrow> sys_frame \<Rightarrow> nat \<Rightarrow> exec \<Rightarrow> u16 \<Rightarrow> u16 \<Rightarrow> u32 \<Rightarrow> u32 \<Rightarrow> u32 \<times> arg_pages \<Rightarrow> kstate \<Rightarrow> exec_result" where
  "run_program loaded r i ex e_uid e_gid argc envc v s = (case v of (p, page) \<Rightarrow>
     seq (replace_executable i s) (\<lambda>_ s. seq (close_marked s) (\<lambda>_ s.
     seq (free_old_memory (upd_cur (t_close_on_exec_update (\<lambda>_. 0)) s)) (\<lambda>_ s.
     seq (change_ldt loaded (a_text ex) page s) (\<lambda>data_limit s.
     seq (create_tables (p + (data_limit - of_nat MAX_ARG_PAGES * 4096)) argc envc s) (\<lambda>p s.
     let end_code = a_text ex; end_data = a_data ex + end_code;
         s = upd_cur (\<lambda>t. t\<lparr>t_end_code := end_code, t_end_data := end_data, t_brk := a_bss ex + end_data,
               t_start_stack := p AND 0xfffff000, t_euid := e_uid, t_egid := e_gid\<rparr>) s;
         i = a_text ex + a_data ex;
         s = put_fs_bytes (unat ((- i) AND 0xfff)) (\<lambda>_. 0) i s
     in Ret (0, r\<lparr>fr_eip := a_entry ex, fr_esp := p\<rparr>) s))))))"

text \<open>After the header has been read and is not that of a script; \<open>copy\<close> copies the arguments unless that is done.\<close>

definition load_program ::
    "segment \<Rightarrow> sys_frame \<Rightarrow> nat \<Rightarrow> exec \<Rightarrow> u16 \<Rightarrow> u16 \<Rightarrow> u32 \<Rightarrow> u32 \<Rightarrow>
     (u32 \<times> arg_pages \<Rightarrow> kstate \<Rightarrow> (u32 \<times> arg_pages, kstate) outcome) \<Rightarrow> u32 \<times> arg_pages \<Rightarrow> kstate \<Rightarrow> exec_result" where
  "load_program loaded r i ex e_uid e_gid argc envc copy v s =
    (if bad_exec ex (i_size (inode_table s i)) \<or> N_TXTOFF ex \<noteq> 1024 then exec_error2 (- ENOEXEC) i r (snd v) s
     else seq (copy v s) (\<lambda>v s.
       if fst v = 0 then exec_error2 (- ENOMEM) i r (snd v) s
       else run_program loaded r i ex e_uid e_gid argc envc v s))"

section \<open>Scripts\<close>

definition blank :: "u8 \<Rightarrow> bool" where
  "blank c \<longleftrightarrow> c = 32 \<or> c = 9"

text \<open>
  The first line of a script after \<open>#!\<close> and blanks: \<open>buf\<close> holds up to 1022 characters and must
  have a newline.
\<close>

definition script_line :: "(nat \<Rightarrow> u8) \<Rightarrow> u8 list option" where
  "script_line d = (let buf = takeWhile (\<lambda>c. c \<noteq> 0) (List.map d [2..<1024]) in
     if 10 \<in> set buf then Some (dropWhile blank (takeWhile (\<lambda>c. c \<noteq> 10) buf)) else None)"

text \<open>What follows the last slash.\<close>

definition i_name :: "u8 list \<Rightarrow> u8 list" where
  "i_name interp = rev (takeWhile (\<lambda>c. c \<noteq> 47) (rev interp))"

text \<open>The interpreter, its name and its argument if the line has one.\<close>

definition parse_line :: "u8 list \<Rightarrow> u8 list \<times> u8 list \<times> u8 list option" where
  "parse_line line =
    (let interp = takeWhile (\<lambda>c. \<not> blank c) line; rest = dropWhile (\<lambda>c. \<not> blank c) line
     in (interp, i_name interp, if rest = [] then None else Some (tl rest)))"

text \<open>\<open>set_fs(get_ds())\<close> around an operation that reads its names through \<open>fs\<close>.\<close>

definition in_kernel_fs :: "segment \<Rightarrow> (kstate \<Rightarrow> ('a, kstate) outcome) \<Rightarrow> kstate \<Rightarrow> ('a, kstate) outcome" where
  "in_kernel_fs k f s =
    (let i = current s; old_fs = user s i; back = (\<lambda>t. t\<lparr>user := (user t)(i := old_fs)\<rparr>) in
     case f (s\<lparr>user := (user s)(i := k)\<rparr>) of
       Ret a t \<Rightarrow> Ret a (back t)
     | Sleeps t \<Rightarrow> Sleeps (back t)
     | Exits c t \<Rightarrow> Exits c (back t)
     | Panic msg \<Rightarrow> Panic msg
     | Fault \<Rightarrow> Fault
     | Hangs \<Rightarrow> Hangs)"

text \<open>One string of the kernel.\<close>

definition copy_kernel_string :: "u8 list \<Rightarrow> u32 \<times> arg_pages \<Rightarrow> kstate \<Rightarrow> (u32 \<times> arg_pages, kstate) outcome" where
  "copy_kernel_string xs = copy_strings 1 (\<lambda>_. Some 0) (kernel_segment xs)"

definition copy_user_strings :: "u32 \<Rightarrow> u32 \<Rightarrow> u32 \<times> arg_pages \<Rightarrow> kstate \<Rightarrow> (u32 \<times> arg_pages, kstate) outcome" where
  "copy_user_strings argc argv v s = copy_strings argc (user_argv argv s) (user_segment s) v s"

definition copy_file_name :: "u32 \<Rightarrow> u32 \<times> arg_pages \<Rightarrow> kstate \<Rightarrow> (u32 \<times> arg_pages, kstate) outcome" where
  "copy_file_name filename v s =
     copy_strings 1 (\<lambda>_. if tst filename then Some filename else None) (user_segment s) v s"

definition copy_both :: "u32 \<Rightarrow> u32 \<Rightarrow> u32 \<Rightarrow> u32 \<Rightarrow> u32 \<times> arg_pages \<Rightarrow> kstate \<Rightarrow> (u32 \<times> arg_pages, kstate) outcome" where
  "copy_both argc argv envc envp v s =
     seq (copy_user_strings envc envp v s) (\<lambda>v s. copy_user_strings argc argv v s)"

text \<open>
  The strings of a script's interpreter: the environment, the arguments but the first, the file
  name, the interpreter's argument and its name.
\<close>

definition copy_script ::
    "u32 \<Rightarrow> u32 \<Rightarrow> u32 \<Rightarrow> u32 \<Rightarrow> u32 \<Rightarrow> u8 list \<Rightarrow> u8 list option \<Rightarrow> u32 \<times> arg_pages \<Rightarrow> kstate \<Rightarrow> (u32 \<times> arg_pages, kstate) outcome" where
  "copy_script filename argc argv envc envp name arg v s =
     seq (copy_both (argc - 1) (argv + 4) envc envp v s) (\<lambda>v s.
     seq (copy_file_name filename v s) (\<lambda>v s.
     seq (case arg of None \<Rightarrow> Ret v s | Some a \<Rightarrow> copy_kernel_string a v s) (\<lambda>v s.
     copy_kernel_string name v s)))"

definition run_script ::
    "segment \<Rightarrow> sys_frame \<Rightarrow> u32 \<Rightarrow> u32 \<Rightarrow> u32 \<Rightarrow> u32 \<Rightarrow> u32 \<Rightarrow> u8 list \<Rightarrow> u32 \<times> arg_pages \<Rightarrow> kstate \<Rightarrow> exec_result" where
  "run_script loaded r filename argc argv envc envp line v s = (case parse_line line of (interp, name, arg) \<Rightarrow>
     seq (copy_script filename argc argv envc envp name arg v s) (\<lambda>v s.
       let argc = (if arg = None then argc + 1 else argc + 2) in
       if fst v = 0 then exec_error1 (- ENOMEM) r (snd v) s else
       seq (in_kernel_fs (kernel_segment interp) (namei 0) s) (\<lambda>i s. case i of
         None \<Rightarrow> exec_error1 (- ENOENT) r (snd v) s
       | Some i \<Rightarrow> exec_open i r (snd v) (\<lambda>e_uid e_gid b s.
           let ex = get_exec (b_data (bh s b)) in
           seq (brelse (Some b) s) (\<lambda>_ s. load_program loaded r i ex e_uid e_gid argc envc Ret v s)) s)))"

definition do_execve :: "segment \<Rightarrow> sys_frame \<Rightarrow> u32 \<Rightarrow> u32 \<Rightarrow> u32 \<Rightarrow> kstate \<Rightarrow> exec_result" where
  "do_execve loaded r filename argv envp s =
    (if 0xffff AND fr_cs r \<noteq> 0x0f then Panic ''execve called from supervisor mode'' else
     seq (namei filename s) (\<lambda>i s. case i of None \<Rightarrow> Ret (- ENOENT, r) s
     | Some i \<Rightarrow> (case count_args argv s of None \<Rightarrow> Hangs | Some argc \<Rightarrow>
         (case count_args envp s of None \<Rightarrow> Hangs | Some envc \<Rightarrow>
           let v = (4096 * of_nat MAX_ARG_PAGES - 4, \<lambda>_. 0) in
           exec_open i r (snd v) (\<lambda>e_uid e_gid b s.
             let d = b_data (bh s b) in
             seq (brelse (Some b) s) (\<lambda>_ s.
               if d 0 = 35 \<and> d 1 = 33 then
                 seq (iput (Some i) s) (\<lambda>_ s. case script_line d of
                   None \<Rightarrow> exec_error1 (- ENOEXEC) r (snd v) s
                 | Some line \<Rightarrow>
                     if line = [] then exec_error1 (- ENOEXEC) r (snd v) s
                     else run_script loaded r filename argc argv envc envp line v s)
               else load_program loaded r i (get_exec d) e_uid e_gid argc envc
                      (copy_both argc argv envc envp) v s)) s))))"

end
