(* ===== verification/Signals.thy ===== *)
theory Signals
  imports Exit
begin

text \<open>
  \<open>kernel/signal.c\<close>: the signal handlers of a task and the frame a handler is called with. Signal
  \<open>n\<close> has entry \<open>n - 1\<close> of \<open>sigaction\<close>.
\<close>

definition SA_NOMASK :: u32 where "SA_NOMASK = 0x40000000"
definition SA_ONESHOT :: u32 where "SA_ONESHOT = 0x80000000"

definition sys_sgetmask :: "kstate \<Rightarrow> u32" where "sys_sgetmask s = t_blocked (cur s)"

definition sys_ssetmask :: "u32 \<Rightarrow> kstate \<Rightarrow> u32 \<times> kstate" where
  "sys_ssetmask newmask s = (t_blocked (cur s),
     upd_cur (t_blocked_update (\<lambda>_. newmask AND NOT (sig_bit SIGKILL))) s)"

text \<open>A \<open>struct sigaction\<close> in memory: handler, mask, flags and restorer.\<close>

definition sigaction_byte :: "sigaction \<Rightarrow> nat \<Rightarrow> u8" where
  "sigaction_byte a i =
    ucast (drop_bit (8 * (i mod 4)) ([sa_handler a, sa_mask a, sa_flags a, sa_restorer a] ! (i div 4)))"

definition save_old :: "sigaction \<Rightarrow> u32 \<Rightarrow> kstate \<Rightarrow> (unit, kstate) outcome" where
  "save_old a to s = seq (verify_area to 16 s) (\<lambda>_ s. Ret () (put_fs_bytes 16 (sigaction_byte a) to s))"

definition get_new :: "u32 \<Rightarrow> kstate \<Rightarrow> sigaction" where
  "get_new frm s = \<lparr>sa_handler = get_fs_long frm s, sa_mask = get_fs_long (frm + 4) s,
     sa_flags = get_fs_long (frm + 8) s, sa_restorer = get_fs_long (frm + 12) s\<rparr>"

definition set_action :: "u32 \<Rightarrow> sigaction \<Rightarrow> kstate \<Rightarrow> kstate" where
  "set_action signum a = upd_cur (\<lambda>t. t\<lparr>t_sigaction := (t_sigaction t)(unat (signum - 1) := a)\<rparr>)"

definition action :: "u32 \<Rightarrow> kstate \<Rightarrow> sigaction" where
  "action signum s = t_sigaction (cur s) (unat (signum - 1))"

definition bad_signal :: "u32 \<Rightarrow> bool" where
  "bad_signal signum \<longleftrightarrow> slt signum 1 \<or> slt 32 signum \<or> signum = SIGKILL"

definition sys_signal :: "u32 \<Rightarrow> u32 \<Rightarrow> u32 \<Rightarrow> kstate \<Rightarrow> u32 \<times> kstate" where
  "sys_signal signum handler restorer s =
    (if bad_signal signum then (- 1, s)
     else (sa_handler (action signum s),
       set_action signum \<lparr>sa_handler = handler, sa_mask = 0, sa_flags = SA_ONESHOT OR SA_NOMASK,
         sa_restorer = restorer\<rparr> s))"

definition sys_sigaction :: "u32 \<Rightarrow> u32 \<Rightarrow> u32 \<Rightarrow> kstate \<Rightarrow> (u32, kstate) outcome" where
  "sys_sigaction signum new_action oldaction s =
    (if bad_signal signum then Ret (- 1) s else
     let old = action signum s; s = set_action signum (get_new new_action s) s
     in seq (if tst oldaction then save_old old oldaction s else Ret () s) (\<lambda>_ s.
          let a = action signum s
          in Ret 0 (set_action signum (a\<lparr>sa_mask :=
               (if tst (sa_flags a AND SA_NOMASK) then 0 else sa_mask a OR sig_bit signum)\<rparr>) s)))"

text \<open>\<open>put_fs_long(v,tmp_esp++)\<close> for a list of values.\<close>

fun push_longs :: "u32 list \<Rightarrow> u32 \<Rightarrow> kstate \<Rightarrow> kstate" where
  "push_longs [] a s = s"
| "push_longs (v # vs) a s = push_longs vs (a + 4) (put_fs_long v a s)"

text \<open>
  \<open>do_signal\<close> changes the \<open>eip\<close> and \<open>esp\<close> the system call returns to; they are the result. The other
  registers it is given are not used.
\<close>

definition do_signal ::
    "u32 \<Rightarrow> u32 \<Rightarrow> u32 \<Rightarrow> u32 \<Rightarrow> u32 \<Rightarrow> u32 \<Rightarrow> u32 \<Rightarrow> kstate \<Rightarrow> (u32 \<times> u32, kstate) outcome" where
  "do_signal signr eax ecx edx eip eflags esp s =
    (let sa = action signr s; handler = sa_handler sa in
     if handler = 1 then Ret (eip, esp) s
     else if handler = 0 \<and> signr = SIGCHLD then Ret (eip, esp) s
     else if handler = 0 then seq (do_exit (sig_bit signr) s) (\<lambda>_ s. Fault)
     else
       let s = (if tst (sa_flags sa AND SA_ONESHOT) then set_action signr (sa\<lparr>sa_handler := 0\<rparr>) s else s);
           nomask = tst (sa_flags sa AND SA_NOMASK); longs = (if nomask then 7 else 8 :: u32); esp = esp - 4 * longs
       in seq (verify_area esp (longs * 4) s) (\<lambda>_ s.
            let s = push_longs ([sa_restorer sa, signr] @ (if nomask then [] else [t_blocked (cur s)]) @
                      [eax, ecx, edx, eflags, eip]) esp s
            in Ret (handler, esp) (upd_cur (\<lambda>t. t\<lparr>t_blocked := t_blocked t OR sa_mask sa\<rparr>) s)))"

end
