(* ===== verification/SysCalls.thy ===== *)
theory SysCalls
  imports Exit
begin

text \<open>
  \<open>kernel/sys.c\<close>: identities, process groups, times and the small calls. Calls that are not
  implemented return \<open>-ENOSYS\<close>.
\<close>

definition sys_ftime :: u32 where "sys_ftime = - ENOSYS"
definition sys_break :: u32 where "sys_break = - ENOSYS"
definition sys_ptrace :: u32 where "sys_ptrace = - ENOSYS"
definition sys_stty :: u32 where "sys_stty = - ENOSYS"
definition sys_gtty :: u32 where "sys_gtty = - ENOSYS"
definition sys_rename :: u32 where "sys_rename = - ENOSYS"
definition sys_prof :: u32 where "sys_prof = - ENOSYS"
definition sys_acct :: u32 where "sys_acct = - ENOSYS"
definition sys_phys :: u32 where "sys_phys = - ENOSYS"
definition sys_lock :: u32 where "sys_lock = - ENOSYS"
definition sys_mpx :: u32 where "sys_mpx = - ENOSYS"
definition sys_ulimit :: u32 where "sys_ulimit = - ENOSYS"

section \<open>User and group ids\<close>

definition sys_setregid :: "u32 \<Rightarrow> u32 \<Rightarrow> kstate \<Rightarrow> u32 \<times> kstate" where
  "sys_setregid rgid egid s =
    (if slt 0 rgid \<and> ucast (t_gid (cur s)) \<noteq> rgid \<and> \<not> suser s then (- EPERM, s) else
     let s = (if slt 0 rgid then upd_cur (t_gid_update (\<lambda>_. ucast rgid)) s else s) in
     if slt 0 egid then
       (if ucast (t_gid (cur s)) = egid \<or> ucast (t_egid (cur s)) = egid \<or> ucast (t_sgid (cur s)) = egid \<or> suser s
        then (0, upd_cur (t_egid_update (\<lambda>_. ucast egid)) s)
        else (- EPERM, s))
     else (0, s))"

definition sys_setgid :: "u32 \<Rightarrow> kstate \<Rightarrow> u32 \<times> kstate" where
  "sys_setgid gid = sys_setregid gid gid"

definition sys_setreuid :: "u32 \<Rightarrow> u32 \<Rightarrow> kstate \<Rightarrow> u32 \<times> kstate" where
  "sys_setreuid ruid euid s =
    (let old_ruid = t_uid (cur s) in
     if slt 0 ruid \<and> ucast (t_euid (cur s)) \<noteq> ruid \<and> ucast old_ruid \<noteq> ruid \<and> \<not> suser s then (- EPERM, s) else
     let s = (if slt 0 ruid then upd_cur (t_uid_update (\<lambda>_. ucast ruid)) s else s) in
     if slt 0 euid then
       (if ucast old_ruid = euid \<or> ucast (t_euid (cur s)) = euid \<or> suser s
        then (0, upd_cur (t_euid_update (\<lambda>_. ucast euid)) s)
        else (- EPERM, upd_cur (t_uid_update (\<lambda>_. old_ruid)) s))
     else (0, s))"

definition sys_setuid :: "u32 \<Rightarrow> kstate \<Rightarrow> u32 \<times> kstate" where
  "sys_setuid uid = sys_setreuid uid uid"

section \<open>Times\<close>

definition sys_time :: "u32 \<Rightarrow> kstate \<Rightarrow> (u32, kstate) outcome" where
  "sys_time tloc s = (let i = CURRENT_TIME s in
     if tst tloc then seq (verify_area tloc 4 s) (\<lambda>_ s. Ret i (put_fs_long i tloc s)) else Ret i s)"

definition sys_stime :: "u32 \<Rightarrow> kstate \<Rightarrow> u32 \<times> kstate" where
  "sys_stime tptr s =
    (if \<not> suser s then (- EPERM, s)
     else (0, s\<lparr>startup_time := get_fs_long tptr s - cdiv (jiffies s) HZ\<rparr>))"

definition sys_times :: "u32 \<Rightarrow> kstate \<Rightarrow> (u32, kstate) outcome" where
  "sys_times tbuf s =
    seq (if tst tbuf then seq (verify_area tbuf 16 s) (\<lambda>_ s.
           Ret () (put_fs_long (t_cstime (cur s)) (tbuf + 12) (put_fs_long (t_cutime (cur s)) (tbuf + 8)
             (put_fs_long (t_stime (cur s)) (tbuf + 4) (put_fs_long (t_utime (cur s)) tbuf s)))))
         else Ret () s) (\<lambda>_ s. Ret (jiffies s) s)"

section \<open>Memory and process groups\<close>

definition sys_brk :: "u32 \<Rightarrow> kstate \<Rightarrow> u32 \<times> kstate" where
  "sys_brk end_data_seg s =
    (let s = (if t_end_code (cur s) \<le> end_data_seg \<and> end_data_seg < t_start_stack (cur s) - 16384
              then upd_cur (t_brk_update (\<lambda>_. end_data_seg)) s else s)
     in (t_brk (cur s), s))"

definition sys_setpgid :: "u32 \<Rightarrow> u32 \<Rightarrow> kstate \<Rightarrow> u32 \<times> kstate" where
  "sys_setpgid pid pgid s =
    (let pid = (if pid = 0 then t_pid (cur s) else pid); pgid = (if pgid = 0 then t_pid (cur s) else pgid) in
     case find_pid pid [0..<NR_TASKS] s of None \<Rightarrow> (- ESRCH, s)
     | Some i \<Rightarrow>
        if tst (t_leader (tsk s i)) then (- EPERM, s)
        else if t_session (tsk s i) \<noteq> t_session (cur s) then (- EPERM, s)
        else (0, upd_task i (t_pgrp_update (\<lambda>_. pgid)) s))"

definition sys_getpgrp :: "kstate \<Rightarrow> u32" where "sys_getpgrp s = t_pgrp (cur s)"

definition sys_setsid :: "kstate \<Rightarrow> u32 \<times> kstate" where
  "sys_setsid s =
    (if tst (t_leader (cur s)) \<and> \<not> suser s then (- EPERM, s) else
     let s = upd_cur (\<lambda>t. t\<lparr>t_leader := 1, t_pgrp := t_pid t, t_session := t_pid t, t_tty := - 1\<rparr>) s
     in (t_pgrp (cur s), s))"

text \<open>\<open>thisname\<close>: five strings of eight characters and a NUL each.\<close>

definition thisname :: "u8 list" where
  "thisname = List.map of_char
     (concat (List.map (\<lambda>n. n @ [CHR 0x00])
       [''linux .0'', ''nodename'', ''release '', ''version '', ''machine '']))"

definition sys_uname :: "u32 \<Rightarrow> kstate \<Rightarrow> (u32, kstate) outcome" where
  "sys_uname name s =
    (if name = 0 then Ret (- ERROR) s else
     seq (verify_area name 45 s) (\<lambda>_ s. Ret 0 (put_fs_bytes 45 (\<lambda>i. thisname ! i) name s)))"

definition sys_umask :: "u32 \<Rightarrow> kstate \<Rightarrow> u32 \<times> kstate" where
  "sys_umask newmask s = (ucast (t_umask (cur s)), upd_cur (t_umask_update (\<lambda>_. ucast (newmask AND 0x1FF))) s)"

end
