(* ===== verification/Startup.thy ===== *)
theory Startup
  imports Super
begin

text \<open>
  What the kernel does with its disks when it starts: \<open>buffer_init\<close> of \<open>fs/buffer.c\<close>, \<open>rd_load\<close>
  of \<open>kernel/blk_drv/ramdisk.c\<close> and \<open>sys_setup\<close> of \<open>kernel/blk_drv/hd.c\<close>.
\<close>

section \<open>The buffer heads\<close>

text \<open>
  The heads grow up from \<open>start\<close> (\<open>start_buffer\<close>, the end of the kernel), 36 bytes each, and the
  blocks grow down from \<open>b\<close>, leaving out the 384 KB below 1 MB. One turn of the loop for head \<open>i\<close>;
  the result is the number of buffers.
\<close>

definition init_step :: "u32 \<Rightarrow> nat \<times> u32 \<Rightarrow> kstate \<Rightarrow> ((nat \<times> u32) + nat, kstate) outcome" where
  "init_step start v s = (case v of (i, b) \<Rightarrow>
     let b = b - 1024 in
     if b < start + 36 * of_nat (Suc i) then Ret (Inr i) s else
     let s = upd_bh i (\<lambda>x. x\<lparr>b_dev := 0, b_dirt := 0, b_count := 0, b_lock := 0, b_uptodate := 0,
               b_wait := None, b_next := None, b_prev := None, b_addr := b,
               b_prev_free := Some (i - 1), b_next_free := Some (Suc i)\<rparr>) s
     in Ret (Inl (Suc i, if b = 0x100000 then 0xA0000 else b)) s)"

definition buffer_init :: "u32 \<Rightarrow> u32 \<Rightarrow> kstate \<Rightarrow> (unit, kstate) outcome" where
  "buffer_init start buffer_end s =
     seq (loop (init_step start) (0, if buffer_end = 0x100000 then 0xA0000 else buffer_end) s) (\<lambda>n s.
       if n = 0 then Fault else
       let s = upd_bh 0 (b_prev_free_update (\<lambda>_. Some (n - 1))) (s\<lparr>nr_buffers := n, free_list := 0\<rparr>)
       in Ret () ((upd_bh (n - 1) (b_next_free_update (\<lambda>_. Some 0)) s)
            \<lparr>hash_table := (\<lambda>i. if i < NR_HASH then None else hash_table s i)\<rparr>))"

section \<open>Loading the RAM disk\<close>

text \<open>One turn of \<open>while (nblocks)\<close>; the result tells whether all blocks were read.\<close>

definition load_step :: "u32 \<times> u32 \<times> u32 \<Rightarrow> kstate \<Rightarrow> ((u32 \<times> u32 \<times> u32) + bool, kstate) outcome" where
  "load_step v s = (case v of (nblocks, block, cp) \<Rightarrow>
     if nblocks = 0 then Ret (Inr True) s else
     seq (if slt 2 nblocks then breada (ROOT_DEV s) block [block + 1, block + 2] s
          else bread (ROOT_DEV s) block s) (\<lambda>r s. case r of
       None \<Rightarrow> Ret (Inr False) s
     | Some b \<Rightarrow> seq (rd_write b cp 1024 s) (\<lambda>_ s. seq (brelse (Some b) s) (\<lambda>_ s.
         Ret (Inl (nblocks - 1, block + 1, cp + 1024)) s))))"

definition rd_load :: "kstate \<Rightarrow> (unit, kstate) outcome" where
  "rd_load s =
    (if rd_length s = 0 \<or> MAJOR (ROOT_DEV s) \<noteq> 2 then Ret () s else
     seq (breada (ROOT_DEV s) 257 [256, 258] s) (\<lambda>r s. case r of
       None \<Rightarrow> Ret () s
     | Some b \<Rightarrow>
         let sb = get_d_super (b_data (bh s b)) (super_block s 0) in
         seq (brelse (Some b) s) (\<lambda>_ s.
           let nblocks = push_bit (unat (s_log_zone_size sb) mod 32) (ucast (s_nzones sb)) in
           if s_magic sb \<noteq> SUPER_MAGIC then Ret () s
           else if slt (signed_drop_bit 10 (rd_length s)) nblocks then Ret () s
           else seq (loop load_step (nblocks, 256, rd_start s) s) (\<lambda>all s.
             Ret () (if all then s\<lparr>ROOT_DEV := 0x0101\<rparr> else s)))))"

section \<open>The hard disks\<close>

text \<open>The 16 bytes the BIOS has for a drive, in kernel memory.\<close>

definition bios_drive :: "u32 \<Rightarrow> mm_state \<Rightarrow> hd_i_struct" where
  "bios_drive a m =
    (let byte = (\<lambda>k. ucast (phys_byte (a + k) m)); word = (\<lambda>k. byte k OR push_bit 8 (byte (k + 1))) in
     \<lparr>hd_head = byte 2, hd_sect = byte 14, hd_cyl = word 0, hd_wpcom = word 5, hd_lzone = word 12,
      hd_ctl = byte 8\<rparr>)"

definition set_partition :: "nat \<Rightarrow> u32 \<Rightarrow> u32 \<Rightarrow> kstate \<Rightarrow> kstate" where
  "set_partition i start n = upd_hd (\<lambda>h. h\<lparr>start_sect := (start_sect h)(i := start), nr_sects := (nr_sects h)(i := n)\<rparr>)"

definition whole_drive :: "nat \<Rightarrow> kstate \<Rightarrow> kstate" where
  "whole_drive i s = (let d = hd_info (harddisk s) i in
     set_partition (5 * i) 0 (hd_head d * hd_sect d * hd_cyl d) s)"

text \<open>\<open>CMOS_READ(0x12)\<close>: the number of drives with an AT controller.\<close>

definition cmos_drives :: "kstate \<Rightarrow> nat \<times> kstate" where
  "cmos_drives s = (case inb 0x71 (outb 0x92 0x70 s) of (v, s) \<Rightarrow>
     (if tst (v AND 0xf0) then if tst (v AND 0x0f) then 2 else 1 else 0, s))"

text \<open>The four entries of a partition table, from offset 0x1BE of the first block of a drive.\<close>

definition read_partitions :: "nat \<Rightarrow> kstate \<Rightarrow> (unit, kstate) outcome" where
  "read_partitions drive s = seq (bread (0x300 + of_nat drive * 5) 0 s) (\<lambda>r s. case r of
     None \<Rightarrow> Panic ''''
   | Some b \<Rightarrow>
      let d = b_data (bh s b) in
      if d 510 \<noteq> 0x55 \<or> d 511 \<noteq> 0xAA then Panic '''' else
      brelse (Some b) (fold (\<lambda>i. set_partition (i + 5 * drive)
        (get32 d (0x1BE + 16 * (i - 1) + 8)) (get32 d (0x1BE + 16 * (i - 1) + 12))) [1..<5] s))"

definition sys_setup :: "u32 \<Rightarrow> kstate \<Rightarrow> (u32, kstate) outcome" where
  "sys_setup bios s =
    (if \<not> callable (harddisk s) then Ret (- 1) s else
     let s = upd_hd (\<lambda>h. h\<lparr>callable := False,
               hd_info := (hd_info h)(0 := bios_drive bios (mm s), 1 := bios_drive (bios + 16) (mm s))\<rparr>) s;
         s = upd_hd (\<lambda>h. h\<lparr>NR_HD := (if hd_cyl (hd_info h 1) \<noteq> 0 then 2 else 1)\<rparr>) s;
         s = fold whole_drive [0..<unat (NR_HD (harddisk s))] s
     in case cmos_drives s of (n, s) \<Rightarrow>
          let s = upd_hd (NR_HD_update (\<lambda>_. of_nat n)) s;
              s = fold (\<lambda>i. set_partition (5 * i) 0 0) [n..<2] s
          in seq (for_each read_partitions [0..<n] s) (\<lambda>_ s.
             seq (rd_load s) (\<lambda>_ s.
             seq (mount_root s) (\<lambda>_ s. Ret 0 s))))"

end
