(* ===== verification/SysTable.thy ===== *)
theory SysTable
  imports Exec Signals SysCalls Startup
begin

text \<open>
  The way into the kernel: \<open>sys_call_table\<close> of \<open>include/linux/sys.h\<close> and what
  \<open>kernel/system_call.s\<close> does around a call, with the delivery of a signal on the way out.
\<close>

section \<open>The table\<close>

text \<open>The arguments are the registers \<open>ebx\<close>, \<open>ecx\<close> and \<open>edx\<close> of the frame.\<close>

type_synonym sys_call = "sys_frame \<Rightarrow> kstate \<Rightarrow> exec_result"

definition value_call :: "(kstate \<Rightarrow> u32) \<Rightarrow> sys_call" where
  "value_call f r s = Ret (f s, r) s"

definition state_call :: "(kstate \<Rightarrow> u32 \<times> kstate) \<Rightarrow> sys_call" where
  "state_call f r s = Ret (fst (f s), r) (snd (f s))"

definition path_call :: "(kstate \<Rightarrow> (u32, kstate) outcome) \<Rightarrow> sys_call" where
  "path_call f r s = seq (f s) (\<lambda>v s. Ret (v, r) s)"

text \<open>
  \<open>loaded\<close> and \<open>fpu_reset\<close> are what \<open>execve\<close> and \<open>fork\<close> take from outside: the memory the page
  faults will load and the coprocessor after \<open>fnsave\<close>.
\<close>

definition sys_call_table :: "segment \<Rightarrow> i387_struct \<Rightarrow> sys_frame \<Rightarrow> sys_call list" where
  "sys_call_table loaded fpu_reset r = (let b = fr_ebx r; c = fr_ecx r; d = fr_edx r in [
     path_call (sys_setup b), path_call (sys_exit b),
     path_call (sys_fork fpu_reset r), path_call (sys_read b c d),
     path_call (sys_write b c d), path_call (sys_open b c d),
     path_call (sys_close b), path_call (sys_waitpid b c d),
     path_call (sys_creat b c), path_call (sys_link b c),
     path_call (sys_unlink b), (\<lambda>r. do_execve loaded r b c d),
     path_call (sys_chdir b), path_call (sys_time b),
     path_call (sys_mknod b c d), path_call (sys_chmod b c),
     path_call (sys_chown b c d), value_call (\<lambda>_. sys_break),
     path_call (sys_stat b c), path_call (sys_lseek b c d),
     value_call sys_getpid, path_call (sys_mount b c d),
     path_call (sys_umount b), state_call (sys_setuid b),
     value_call sys_getuid, state_call (sys_stime b),
     value_call (\<lambda>_. sys_ptrace), state_call (sys_alarm b),
     path_call (sys_fstat b c), path_call sys_pause,
     path_call (sys_utime b c), value_call (\<lambda>_. sys_stty),
     value_call (\<lambda>_. sys_gtty), path_call (sys_access b c),
     state_call (sys_nice b), value_call (\<lambda>_. sys_ftime),
     path_call sys_sync, state_call (sys_kill b c),
     value_call (\<lambda>_. sys_rename), path_call (sys_mkdir b c),
     path_call (sys_rmdir b), path_call (sys_dup b),
     path_call (sys_pipe b), path_call (sys_times b),
     value_call (\<lambda>_. sys_prof), state_call (sys_brk b),
     state_call (sys_setgid b), value_call sys_getgid,
     state_call (sys_signal b c d), value_call sys_geteuid,
     value_call sys_getegid, value_call (\<lambda>_. sys_acct),
     value_call (\<lambda>_. sys_phys), value_call (\<lambda>_. sys_lock),
     path_call (sys_ioctl b c d), path_call (sys_fcntl b c d),
     value_call (\<lambda>_. sys_mpx), state_call (sys_setpgid b c),
     value_call (\<lambda>_. sys_ulimit), path_call (sys_uname b),
     state_call (sys_umask b), path_call (sys_chroot b),
     value_call (\<lambda>_. sys_ustat b c), path_call (sys_dup2 b c),
     value_call sys_getppid, value_call sys_getpgrp,
     state_call sys_setsid, path_call (sys_sigaction b c d),
     value_call sys_sgetmask, state_call (sys_ssetmask b),
     state_call (sys_setreuid b c), state_call (sys_setregid b c)])"

definition NR_SYSTEM_CALLS :: u32 where "NR_SYSTEM_CALLS = 72"

section \<open>Around a call\<close>

text \<open>\<open>oom()\<close> in the middle of a call goes on in \<open>do_exit\<close>, which does not come back.\<close>

definition then_exit :: "('a, kstate) outcome \<Rightarrow> ('a, kstate) outcome" where
  "then_exit m = (case m of Exits code s \<Rightarrow> seq (do_exit code s) (\<lambda>_ s. Fault) | _ \<Rightarrow> m)"

definition reschedule :: "kstate \<Rightarrow> (unit, kstate) outcome" where
  "reschedule s = (if tst (t_state (cur s)) \<or> t_counter (cur s) = 0 then schedule s else Ret () s)"

text \<open>\<open>bsfl\<close>: the number of the lowest bit that is set.\<close>

definition lowest_bit :: "u32 \<Rightarrow> nat option" where
  "lowest_bit w = List.find (bit w) [0..<32]"

definition ret_from_sys_call :: "u32 \<Rightarrow> sys_frame \<Rightarrow> kstate \<Rightarrow> exec_result" where
  "ret_from_sys_call eax r s =
    (if current s = 0 \<or> ucast (fr_cs r) \<noteq> (0x0f :: u16) \<or> ucast (fr_ss r) \<noteq> (0x17 :: u16) then Ret (eax, r) s else
     case lowest_bit (t_signal (cur s) AND NOT (t_blocked (cur s))) of None \<Rightarrow> Ret (eax, r) s
     | Some n \<Rightarrow>
        let s = upd_cur (\<lambda>t. t\<lparr>t_signal := t_signal t AND NOT (push_bit n 1)\<rparr>) s in
        seq (do_signal (of_nat n + 1) eax (fr_ecx r) (fr_edx r) (fr_eip r) (fr_eflags r) (fr_esp r) s) (\<lambda>v s.
          Ret (eax, r\<lparr>fr_eip := fst v, fr_esp := snd v\<rparr>) s))"

definition system_call :: "segment \<Rightarrow> i387_struct \<Rightarrow> u32 \<Rightarrow> sys_frame \<Rightarrow> kstate \<Rightarrow> exec_result" where
  "system_call loaded fpu_reset nr r s =
    (if NR_SYSTEM_CALLS - 1 < nr then Ret (- 1, r) s
     else then_exit (seq ((sys_call_table loaded fpu_reset r ! unat nr) r s) (\<lambda>v s. case v of (eax, r) \<Rightarrow>
       seq (reschedule s) (\<lambda>_ s. ret_from_sys_call eax r s))))"

end
