(* ===== verification/PageLoad.thy ===== *)
theory PageLoad
  imports Segments Inode
begin

text \<open>
  Loading pages on demand: \<open>bread_page\<close> of \<open>fs/buffer.c\<close>, \<open>share_page\<close> and \<open>do_no_page\<close> of
  \<open>mm/memory.c\<close>. They work on physical memory and the page tables; what the task then reads at its
  addresses is its user memory, with or without the fault.
\<close>

section \<open>\<open>bread_page\<close>\<close>

text \<open>\<open>COPYBLK\<close>: 256 words of a block to physical memory, the first at offset \<open>k\<close>.\<close>

primrec copy_block :: "nat \<Rightarrow> nat \<Rightarrow> (nat \<Rightarrow> u8) \<Rightarrow> u32 \<Rightarrow> mm_state \<Rightarrow> mm_state" where
  "copy_block 0 k d address m = m"
| "copy_block (Suc n) k d address m = copy_block n (k + 4) d (address + 4) (poke address (get32 d k) m)"

fun start_reads :: "u32 \<Rightarrow> u32 list \<Rightarrow> kstate \<Rightarrow> (nat option list, kstate) outcome" where
  "start_reads dev [] s = Ret [] s"
| "start_reads dev (b # bs) s =
     seq (if tst b then
            seq (getblk dev b s) (\<lambda>i s.
            seq (if \<not> tst (b_uptodate (bh s i)) then ll_rw_block READ i s else Ret () s) (\<lambda>_ s. Ret (Some i) s))
          else Ret None s) (\<lambda>r s.
     seq (start_reads dev bs s) (\<lambda>rs s. Ret (r # rs) s))"

fun finish_reads :: "u32 \<Rightarrow> nat option list \<Rightarrow> kstate \<Rightarrow> (unit, kstate) outcome" where
  "finish_reads address [] s = Ret () s"
| "finish_reads address (r # rs) s =
     seq (case r of None \<Rightarrow> Ret () s | Some i \<Rightarrow>
            seq (wait_on_buffer i s) (\<lambda>_ s.
              let s = (if tst (b_uptodate (bh s i))
                       then s\<lparr>mm := copy_block 256 0 (b_data (bh s i)) address (mm s)\<rparr> else s)
              in brelse (Some i) s)) (\<lambda>_ s.
     finish_reads (address + 1024) rs s)"

definition bread_page :: "u32 \<Rightarrow> u32 \<Rightarrow> u32 list \<Rightarrow> kstate \<Rightarrow> (unit, kstate) outcome" where
  "bread_page address dev b s = seq (start_reads dev b s) (\<lambda>rs s. finish_reads address rs s)"

section \<open>\<open>do_no_page\<close>\<close>

text \<open>The loop from the last task down to the second.\<close>

primrec share_loop :: "nat \<Rightarrow> u32 \<Rightarrow> kstate \<Rightarrow> (bool, kstate) outcome" where
  "share_loop 0 address s = Ret False s"
| "share_loop (Suc n) address s =
    (let i = Suc n in
     if task s i = 0 \<or> current s = i \<or> t_executable (tsk s i) \<noteq> t_executable (cur s) then share_loop n address s
     else seq (in_mm (try_to_share address (t_start_code (tsk s i)) (t_start_code (cur s))) s) (\<lambda>r s.
       if tst r then Ret True s else share_loop n address s))"

definition share_page :: "u32 \<Rightarrow> kstate \<Rightarrow> (bool, kstate) outcome" where
  "share_page address s = (case t_executable (cur s) of None \<Rightarrow> Ret False s
     | Some i \<Rightarrow> if i_count (inode_table s i) < 2 then Ret False s else share_loop (NR_TASKS - 1) address s)"

fun map_blocks :: "nat \<Rightarrow> u32 list \<Rightarrow> kstate \<Rightarrow> (u32 list, kstate) outcome" where
  "map_blocks inode [] s = Ret [] s"
| "map_blocks inode (b # bs) s = seq (bmap inode b s) (\<lambda>nr s.
     seq (map_blocks inode bs s) (\<lambda>nrs s. Ret (nr # nrs) s))"

text \<open>\<open>while (i-- > 0) { tmp--; *(char *)tmp = 0; }\<close>\<close>

primrec zero_tail :: "nat \<Rightarrow> u32 \<Rightarrow> mm_state \<Rightarrow> mm_state" where
  "zero_tail 0 tmp m = m"
| "zero_tail (Suc n) tmp m = zero_tail n (tmp - 1) (poke_byte 0 (tmp - 1) m)"

text \<open>The block after the header that holds offset \<open>tmp\<close> of the program is \<open>1 + tmp / 1024\<close>.\<close>

definition load_page :: "nat \<Rightarrow> u32 \<Rightarrow> u32 \<Rightarrow> kstate \<Rightarrow> (unit, kstate) outcome" where
  "load_page inode tmp address s = seq (in_mm get_free_page s) (\<lambda>page s.
     if page = 0 then in_mm oom s else
     let block = 1 + tmp div 1024 in
     seq (map_blocks inode [block, block + 1, block + 2, block + 3] s) (\<lambda>nr s.
     seq (bread_page page (inode_dev inode s) nr s) (\<lambda>_ s.
     let s = s\<lparr>mm := zero_tail (nat (sint (tmp + 4096 - t_end_data (cur s)))) (page + 4096) (mm s)\<rparr> in
     seq (in_mm (put_page page address) s) (\<lambda>r s.
       if tst r then Ret () s
       else seq (in_mm (free_page page) s) (\<lambda>_ s. in_mm oom s)))))"

definition do_no_page :: "u32 \<Rightarrow> u32 \<Rightarrow> kstate \<Rightarrow> (unit, kstate) outcome" where
  "do_no_page error_code address s =
    (let address = address AND 0xfffff000; tmp = address - t_start_code (cur s) in
     case t_executable (cur s) of
       None \<Rightarrow> in_mm (get_empty_page address) s
     | Some inode \<Rightarrow>
        if t_end_data (cur s) \<le> tmp then in_mm (get_empty_page address) s
        else seq (share_page tmp s) (\<lambda>shared s.
          if shared then Ret () s else load_page inode tmp address s))"

end
