(* ===== verification/Traps.thy ===== *)
theory Traps
  imports SysTable PageLoad
begin

text \<open>
  What enters the kernel other than by a system call: the trap handlers of \<open>kernel/traps.c\<close>, the
  coprocessor's of \<open>kernel/math/math_emulate.c\<close> and the entries of \<open>kernel/asm.s\<close>, \<open>system_call.s\<close> and
  \<open>mm/page.s\<close>, up to the interrupt table that \<open>trap_init\<close> and the \<open>*_init\<close> functions set up.
\<close>

unbundle bit_operations_syntax

section \<open>\<open>traps.c\<close>\<close>

text \<open>The messages are not part of the model.\<close>

definition die :: "kstate \<Rightarrow> (unit, kstate) outcome" where
  "die s = seq (do_exit 11 s) (\<lambda>_ s. Ret () s)"

definition do_double_fault :: "kstate \<Rightarrow> (unit, kstate) outcome" where "do_double_fault s = die s"
definition do_general_protection :: "kstate \<Rightarrow> (unit, kstate) outcome" where "do_general_protection s = die s"
definition do_divide_error :: "kstate \<Rightarrow> (unit, kstate) outcome" where "do_divide_error s = die s"
definition do_int3 :: "kstate \<Rightarrow> (unit, kstate) outcome" where "do_int3 s = Ret () s"
definition do_nmi :: "kstate \<Rightarrow> (unit, kstate) outcome" where "do_nmi s = die s"
definition do_debug :: "kstate \<Rightarrow> (unit, kstate) outcome" where "do_debug s = die s"
definition do_overflow :: "kstate \<Rightarrow> (unit, kstate) outcome" where "do_overflow s = die s"
definition do_bounds :: "kstate \<Rightarrow> (unit, kstate) outcome" where "do_bounds s = die s"
definition do_invalid_op :: "kstate \<Rightarrow> (unit, kstate) outcome" where "do_invalid_op s = die s"
definition do_device_not_available :: "kstate \<Rightarrow> (unit, kstate) outcome" where "do_device_not_available s = die s"
definition do_coprocessor_segment_overrun :: "kstate \<Rightarrow> (unit, kstate) outcome" where "do_coprocessor_segment_overrun s = die s"
definition do_invalid_TSS :: "kstate \<Rightarrow> (unit, kstate) outcome" where "do_invalid_TSS s = die s"
definition do_segment_not_present :: "kstate \<Rightarrow> (unit, kstate) outcome" where "do_segment_not_present s = die s"
definition do_stack_segment :: "kstate \<Rightarrow> (unit, kstate) outcome" where "do_stack_segment s = die s"

definition do_coprocessor_error :: "kstate \<Rightarrow> (unit, kstate) outcome" where
  "do_coprocessor_error s = (if last_task_used_math s \<noteq> Some (current s) then Ret () s else die s)"

definition do_reserved :: "kstate \<Rightarrow> (unit, kstate) outcome" where "do_reserved s = die s"

section \<open>The coprocessor\<close>

definition SIGFPE :: u32 where "SIGFPE = 8"

text \<open>The parameter \<open>eip\<close> is the return address on the stack, so that the task goes on behind the two bytes.\<close>

definition math_emulate :: "sys_frame \<Rightarrow> kstate \<Rightarrow> (sys_frame, kstate) outcome" where
  "math_emulate r s =
    (if ucast (fr_cs r) \<noteq> (0x000f :: u16) then Panic ''Math emulation needed in kernel''
     else Ret (r\<lparr>fr_eip := fr_eip r + 2\<rparr>) (raise SIGFPE (current s) s))"

definition math_error :: "kstate \<Rightarrow> kstate" where
  "math_error s = (case last_task_used_math s of None \<Rightarrow> s | Some i \<Rightarrow> raise SIGFPE i s)"

section \<open>Entries\<close>

text \<open>\<open>em\<close> is the emulation bit of \<open>cr0\<close>.\<close>

definition device_not_available :: "bool \<Rightarrow> i387_struct \<Rightarrow> u32 \<Rightarrow> sys_frame \<Rightarrow> kstate \<Rightarrow> exec_result" where
  "device_not_available em fpu_reset eax r s =
    (if em then seq (math_emulate r s) (\<lambda>r s. ret_from_sys_call eax r s)
     else ret_from_sys_call eax r (math_state_restore fpu_reset s))"

definition coprocessor_error :: "u32 \<Rightarrow> sys_frame \<Rightarrow> kstate \<Rightarrow> exec_result" where
  "coprocessor_error eax r s = ret_from_sys_call eax r (math_error s)"

definition irq13 :: "u32 \<Rightarrow> sys_frame \<Rightarrow> kstate \<Rightarrow> exec_result" where
  "irq13 eax r s = coprocessor_error eax r (outb 0x20 0xA0 (outb 0x20 0x20 (outb 0 0xF0 s)))"

definition timer_interrupt :: "u32 \<Rightarrow> sys_frame \<Rightarrow> kstate \<Rightarrow> exec_result" where
  "timer_interrupt eax r s = seq (do_timer (fr_cs r AND 3) (outb 0x20 0x20 (s\<lparr>jiffies := jiffies s + 1\<rparr>)))
     (\<lambda>_ s. ret_from_sys_call eax r s)"

definition parallel_interrupt :: "kstate \<Rightarrow> (unit, kstate) outcome" where
  "parallel_interrupt s = Ret () (outb 0x20 0x20 s)"

definition page_fault :: "u32 \<Rightarrow> u32 \<Rightarrow> kstate \<Rightarrow> (unit, kstate) outcome" where
  "page_fault error_code cr2 s =
    (if tst (error_code AND 1) then in_mm (do_wp_page error_code cr2) s else do_no_page error_code cr2 s)"

text \<open>A handler that returns to the task as it found it.\<close>

definition plain :: "(kstate \<Rightarrow> (unit, kstate) outcome) \<Rightarrow> u32 \<Rightarrow> sys_frame \<Rightarrow> kstate \<Rightarrow> exec_result" where
  "plain f eax r s = seq (f s) (\<lambda>_ s. Ret (eax, r) s)"

text \<open>
  The gates 0 to 16; \<open>_debug\<close> calls \<open>do_int3\<close>, and \<open>do_device_not_available\<close> and \<open>do_coprocessor_error\<close> are not
  used.
\<close>

definition trap_gates :: "bool \<Rightarrow> i387_struct \<Rightarrow> u32 \<Rightarrow> u32 \<Rightarrow> (u32 \<Rightarrow> sys_frame \<Rightarrow> kstate \<Rightarrow> exec_result) list" where
  "trap_gates em fpu_reset error_code cr2 =
    [plain do_divide_error, plain do_int3, plain do_nmi, plain do_int3, plain do_overflow, plain do_bounds,
     plain do_invalid_op, device_not_available em fpu_reset, plain do_double_fault,
     plain do_coprocessor_segment_overrun, plain do_invalid_TSS, plain do_segment_not_present,
     plain do_stack_segment, plain do_general_protection, plain (page_fault error_code cr2), plain do_reserved,
     coprocessor_error]"

text \<open>
  The interrupt table: gates 17 to 47 are \<open>reserved\<close> but for the devices. The interrupts of the keyboard (33) and
  the serial ports (35 and 36) are assembly that fills the queues of a terminal and calls
  \<open>do_tty_interrupt\<close>; they are not in the table.
\<close>

definition interrupt_gate :: "bool \<Rightarrow> i387_struct \<Rightarrow> u32 \<Rightarrow> u32 \<Rightarrow> nat \<Rightarrow> u32 \<Rightarrow> sys_frame \<Rightarrow> kstate \<Rightarrow> exec_result" where
  "interrupt_gate em fpu_reset error_code cr2 n =
    (if n < 17 then trap_gates em fpu_reset error_code cr2 ! n
     else if n = 0x20 then timer_interrupt
     else if n = 0x26 then plain floppy_interrupt
     else if n = 39 then plain parallel_interrupt
     else if n = 45 then irq13
     else if n = 0x2E then plain hd_interrupt
     else plain do_reserved)"

definition interrupt :: "bool \<Rightarrow> i387_struct \<Rightarrow> u32 \<Rightarrow> u32 \<Rightarrow> nat \<Rightarrow> u32 \<Rightarrow> sys_frame \<Rightarrow> kstate \<Rightarrow> exec_result" where
  "interrupt em fpu_reset error_code cr2 n eax r s = then_exit (interrupt_gate em fpu_reset error_code cr2 n eax r s)"

end
