(* ===== verification/FrameCalls.thy ===== *)
theory FrameCalls
  imports FrameOps SysTable
begin

text \<open>
  The frame of the floppy timers, the super blocks, the file data, the pipes, the terminals and
  of the system calls that only use open files.
\<close>

section \<open>Open files and user memory\<close>

lemma framed_f_pos [keeps]: "framed s t \<Longrightarrow> framed s (upd_file f (f_pos_update g) t)"
  "framed s t \<Longrightarrow> framed s (upd_file f (\<lambda>x. x\<lparr>f_pos := h x\<rparr>) t)"
  "framed s t \<Longrightarrow> framed s (upd_file f (\<lambda>x. x\<lparr>f_flags := k x\<rparr>) t)"
  by (simp_all add: framed_def upd_file_def)

lemma framed_put_fs_bytes [keeps]: "framed s t \<Longrightarrow> framed s (put_fs_bytes n d a t)"
  by (induction n arbitrary: d a t) (simp_all add: put_fs_byte_def framed_fields)

lemma framed_put_fs [keeps]: "framed s t \<Longrightarrow> framed s (put_fs_byte c a t)" "framed s t \<Longrightarrow> framed s (put_fs_long v a t)"
  by (simp_all add: put_fs_byte_def put_fs_long_def framed_fields)

lemma framed_cur_marks [keeps]:
  "framed s t \<Longrightarrow> framed s (upd_cur (t_alarm_update f) t)" "framed s t \<Longrightarrow> framed s (upd_cur (\<lambda>p. p\<lparr>t_signal := g p\<rparr>) t)"
  "framed s t \<Longrightarrow> framed s (upd_task i (\<lambda>p. p\<lparr>t_signal := g p\<rparr>) t)"
  unfolding upd_cur_def by (rule framed_upd_task, assumption, simp)+

lemma frames_Sleeps [keeps]: "framed s t \<Longrightarrow> frames s (Sleeps t)"
  by (simp add: framed_again)

lemma framed_pipe_copies [keeps]: "framed s t \<Longrightarrow> framed s (pipe_out n a b t)" "framed s t \<Longrightarrow> framed s (pipe_in n a b t)"
  by (induction n arbitrary: a b t) (simp_all add: framed_fields framed_put_fs)

lemma read_ahead_frames [keeps]: "framed s t \<Longrightarrow> frames s (read_ahead dev b xs t)"
proof (induction xs arbitrary: t)
  case (Cons x xs)
  show ?case unfolding read_ahead.simps by (assumption | rule Cons.prems Cons.IH | rule keeps let_values)+
qed simp

section \<open>Drives, super blocks, files and pipes\<close>

lemma upd_floppy_framed [keeps]: "framed s t \<Longrightarrow> framed s (upd_floppy x1 t)"
  unfolding upd_floppy_def by (assumption | rule keeps let_values)+

lemmas [keeps] = floppy_framed.motor floppy_framed.requests

lemma floppy_on_frames [keeps]: "framed s t \<Longrightarrow> frames s (floppy_on x1 t)"
  unfolding floppy_on_def by (assumption | rule keeps let_values)+

lemma floppy_change_frames [keeps]: "framed s t \<Longrightarrow> frames s (floppy_change x1 t)"
  unfolding floppy_change_def change_step_def select_wait_def by (assumption | rule pairs | rule keeps let_values)+

lemma put_super_frames [keeps]: "framed s t \<Longrightarrow> frames s (put_super x1 t)"
  unfolding put_super_def by (assumption | rule keeps let_values)+

lemma check_disk_change_frames [keeps]: "framed s t \<Longrightarrow> frames s (check_disk_change x1 t)"
  unfolding check_disk_change_def by (assumption | rule keeps let_values)+

lemma drop_super_frames [keeps]: "framed s t \<Longrightarrow> frames s (drop_super x1 t)"
  unfolding drop_super_def by (assumption | rule keeps let_values)+

lemma set_map_framed [keeps]: "framed s t \<Longrightarrow> framed s (set_map x1 x2 x3 x4 t)"
  unfolding set_map_def by (assumption | rule keeps let_values)+

lemma map_step_frames [keeps]: "framed s t \<Longrightarrow> frames s (map_step x1 x2 x3 x4 x5 t)"
  unfolding map_step_def by (assumption | rule keeps let_values)+

lemma mark_first_frames [keeps]: "framed s t \<Longrightarrow> frames s (mark_first x1 t)"
  unfolding mark_first_def by (assumption | rule keeps let_values)+

lemma load_maps_frames [keeps]: "framed s t \<Longrightarrow> frames s (load_maps x1 x2 t)"
  unfolding load_maps_def by (assumption | rule keeps let_values)+

lemma read_super_frames [keeps]: "framed s t \<Longrightarrow> frames s (read_super x1 t)"
  unfolding read_super_def by (assumption | rule keeps let_values)+

lemma sys_umount_frames [keeps]: "framed s t \<Longrightarrow> frames s (sys_umount x1 t)"
  unfolding sys_umount_def by (assumption | rule keeps let_values)+

lemma mount_on_frames [keeps]: "framed s t \<Longrightarrow> frames s (mount_on x1 x2 t)"
  unfolding mount_on_def by (assumption | rule keeps let_values)+

lemma sys_mount_frames [keeps]: "framed s t \<Longrightarrow> frames s (sys_mount x1 x2 x3 t)"
  unfolding sys_mount_def by (assumption | rule keeps let_values)+

lemma verify_step_frames [keeps]: "framed s t \<Longrightarrow> frames s (verify_step x1 t)"
  unfolding verify_step_def by (assumption | rule keeps let_values)+

lemma verify_area_frames [keeps]: "framed s t \<Longrightarrow> frames s (verify_area x1 x2 t)"
  unfolding verify_area_def by (assumption | rule keeps let_values)+

lemma block_to_user_frames [keeps]: "framed s t \<Longrightarrow> frames s (block_to_user x1 x2 x3 x4 t)"
  unfolding block_to_user_def by (assumption | rule keeps let_values)+

lemma user_to_block_frames [keeps]: "framed s t \<Longrightarrow> frames s (user_to_block x1 x2 x3 x4 t)"
  unfolding user_to_block_def by (assumption | rule keeps let_values)+

lemma file_read_step_frames [keeps]: "framed s t \<Longrightarrow> frames s (file_read_step x1 x2 x3 t)"
  unfolding file_read_step_def by (assumption | rule keeps let_values)+

lemma file_read_frames [keeps]: "framed s t \<Longrightarrow> frames s (file_read x1 x2 x3 x4 t)"
  unfolding file_read_def by (assumption | rule keeps let_values)+

lemma file_write_step_frames [keeps]: "framed s t \<Longrightarrow> frames s (file_write_step x1 x2 x3 t)"
  unfolding file_write_step_def by (assumption | rule keeps let_values)+

lemma file_write_frames [keeps]: "framed s t \<Longrightarrow> frames s (file_write x1 x2 x3 x4 t)"
  unfolding file_write_def by (assumption | rule keeps let_values)+

lemma breada_frames [keeps]: "framed s t \<Longrightarrow> frames s (breada x1 x2 x3 t)"
  unfolding breada_def by (assumption | rule keeps let_values)+

lemma block_write_step_frames [keeps]: "framed s t \<Longrightarrow> frames s (block_write_step x1 x2 x3 t)"
  unfolding block_write_step_def by (assumption | rule keeps let_values)+

lemma block_write_frames [keeps]: "framed s t \<Longrightarrow> frames s (block_write x1 x2 x3 x4 t)"
  unfolding block_write_def by (assumption | rule keeps let_values)+

lemma block_read_step_frames [keeps]: "framed s t \<Longrightarrow> frames s (block_read_step x1 x2 x3 t)"
  unfolding block_read_step_def by (assumption | rule keeps let_values)+

lemma block_read_frames [keeps]: "framed s t \<Longrightarrow> frames s (block_read x1 x2 x3 x4 t)"
  unfolding block_read_def by (assumption | rule keeps let_values)+

lemma advance_framed [keeps]: "framed s t \<Longrightarrow> framed s (advance x1 x2 x3 t)"
  unfolding advance_def by (assumption | rule keeps let_values)+

lemma pipe_wait_frames [keeps]: "framed s t \<Longrightarrow> frames s (pipe_wait x1 x2 t)"
  unfolding pipe_wait_def by (assumption | rule keeps let_values)+

lemma read_pipe_step_frames [keeps]: "framed s t \<Longrightarrow> frames s (read_pipe_step x1 x2 t)"
  unfolding read_pipe_step_def by (assumption | rule keeps let_values)+

lemma read_pipe_frames [keeps]: "framed s t \<Longrightarrow> frames s (read_pipe x1 x2 x3 t)"
  unfolding read_pipe_def by (assumption | rule keeps let_values)+

lemma write_pipe_step_frames [keeps]: "framed s t \<Longrightarrow> frames s (write_pipe_step x1 x2 t)"
  unfolding write_pipe_step_def by (assumption | rule keeps let_values)+

lemma write_pipe_frames [keeps]: "framed s t \<Longrightarrow> frames s (write_pipe x1 x2 x3 t)"
  unfolding write_pipe_def by (assumption | rule keeps let_values)+

section \<open>Terminals and character devices\<close>

lemma framed_inb:
  "framed s t \<Longrightarrow> (\<And>a u. framed s u \<Longrightarrow> framed s (f a u)) \<Longrightarrow> framed s (case inb p t of (a, u) \<Rightarrow> f a u)"
  using framed_in_port(2) [of s t p] by (auto split: prod.split)

lemma framed_signal_group [keeps]: "framed s t \<Longrightarrow> framed s (signal_group n pgrp sigs t)"
  by (induction n arbitrary: t) (simp_all add: Let_def framed_cur_marks)

lemma tty_intr_framed [keeps]: "framed s t \<Longrightarrow> framed s (tty_intr x1 x2 t)"
  unfolding tty_intr_def by (assumption | rule keeps let_values)+

lemma put_write_framed [keeps]: "framed s t \<Longrightarrow> framed s (put_write x1 x2 t)"
  unfolding put_write_def by (assumption | rule keeps let_values)+

lemma put_secondary_framed [keeps]: "framed s t \<Longrightarrow> framed s (put_secondary x1 x2 t)"
  unfolding put_secondary_def by (assumption | rule keeps let_values)+

lemma unput_secondary_framed [keeps]: "framed s t \<Longrightarrow> framed s (unput_secondary x1 t)"
  unfolding unput_secondary_def by (assumption | rule keeps let_values)+

lemma rs_write_framed [keeps]: "framed s t \<Longrightarrow> framed s (rs_write x1 t)"
  unfolding rs_write_def by (assumption | rule framed_inb | rule keeps let_values)+

lemma set_alarm_framed [keeps]: "framed s t \<Longrightarrow> framed s (set_alarm x1 t)"
  unfolding set_alarm_def by (assumption | rule keeps let_values)+

text \<open>What runs for the echo is a parameter of the input side, as it is in the model.\<close>

lemma translate_in_frames [keeps]: "framed s t \<Longrightarrow> frames s (translate_in x1 x2 t)"
  unfolding translate_in_def by (assumption | rule keeps let_values)+

lemma echo_erase_frames [keeps]:
  assumes wr: "\<And>ch s t. framed s t \<Longrightarrow> frames s (wr ch t)"
  shows "framed s t \<Longrightarrow> frames s (echo_erase wr x1 x2 t)"
  unfolding echo_erase_def by (assumption | rule wr | rule keeps let_values)+

lemma kill_step_frames [keeps]:
  assumes wr: "\<And>ch s t. framed s t \<Longrightarrow> frames s (wr ch t)"
  shows "framed s t \<Longrightarrow> frames s (kill_step wr x1 x2 t)"
  unfolding kill_step_def by (assumption | rule wr | rule keeps let_values)+

lemma echo_char_frames [keeps]:
  assumes wr: "\<And>ch s t. framed s t \<Longrightarrow> frames s (wr ch t)"
  shows "framed s t \<Longrightarrow> frames s (echo_char wr x1 x2 t)"
  unfolding echo_char_def by (assumption | rule wr | rule keeps let_values)+

lemma store_char_frames [keeps]:
  assumes wr: "\<And>ch s t. framed s t \<Longrightarrow> frames s (wr ch t)"
  shows "framed s t \<Longrightarrow> frames s (store_char wr x1 x2 t)"
  unfolding store_char_def by (assumption | rule wr | rule keeps let_values)+

lemma cook_char_frames [keeps]:
  assumes wr: "\<And>ch s t. framed s t \<Longrightarrow> frames s (wr ch t)"
  shows "framed s t \<Longrightarrow> frames s (cook_char wr x1 x2 t)"
  unfolding cook_char_def by (assumption | rule wr | rule keeps let_values)+

lemma cook_step_frames [keeps]:
  assumes wr: "\<And>ch s t. framed s t \<Longrightarrow> frames s (wr ch t)"
  shows "framed s t \<Longrightarrow> frames s (cook_step wr x1 x2 t)"
  unfolding cook_step_def by (assumption | rule wr | rule keeps let_values)+

lemma cooked_by_frames [keeps]:
  assumes wr: "\<And>ch s t. framed s t \<Longrightarrow> frames s (wr ch t)"
  shows "framed s t \<Longrightarrow> frames s (cooked_by wr x1 t)"
  unfolding cooked_by_def by (assumption | rule wr | rule keeps let_values)+

lemma con_loop_frames:
  assumes cook: "\<And>ch s t. framed s t \<Longrightarrow> frames s (cook ch t)"
  shows "framed s t \<Longrightarrow> frames s (con_loop cook ch n t)"
proof (induction n arbitrary: t)
  case (Suc n)
  have *: "framed s u \<Longrightarrow> framed s (fold (\<lambda>c. upd_tty ch (read_q_update (putch c))) cs u)" for cs u
    by (induction cs arbitrary: u) (simp_all add: framed_updates)
  show ?case unfolding con_loop.simps respond_def
    by (assumption | rule Suc.prems Suc.IH * cook | rule keeps let_values)+
qed simp

lemma con_write_fuel_frames: "framed s t \<Longrightarrow> frames s (con_write_fuel n ch t)"
proof (induction n arbitrary: ch s t)
  case (Suc n)
  have w: "framed s t \<Longrightarrow> frames s (write_by (con_write_fuel n) ch t)" for ch s t
    unfolding write_by_def by (assumption | rule Suc.IH | rule keeps let_values)+
  show ?case unfolding con_write_fuel.simps con_write_by_def
    by (assumption | rule Suc.prems con_loop_frames cooked_by_frames w | rule keeps let_values)+
qed simp

lemma tty_output_frames [keeps]: "framed s t \<Longrightarrow> frames s (tty_output ch t)"
  unfolding tty_output_def write_by_def con_write_def by (assumption | rule con_write_fuel_frames | rule keeps let_values)+

lemma sleep_if_empty_frames [keeps]: "framed s t \<Longrightarrow> frames s (sleep_if_empty x1 t)"
  unfolding sleep_if_empty_def by (assumption | rule keeps let_values)+

lemma sleep_if_full_frames [keeps]: "framed s t \<Longrightarrow> frames s (sleep_if_full x1 t)"
  unfolding sleep_if_full_def by (assumption | rule keeps let_values)+

lemma take_step_frames [keeps]: "framed s t \<Longrightarrow> frames s (take_step x1 x2 t)"
  unfolding take_step_def by (assumption | rule keeps let_values)+

lemma read_step_frames [keeps]: "framed s t \<Longrightarrow> frames s (read_step x1 x2 x3 x4 x5 x6 t)"
  unfolding read_step_def by (assumption | rule keeps let_values)+

lemma tty_read_frames [keeps]: "framed s t \<Longrightarrow> frames s (tty_read x1 x2 x3 t)"
  unfolding tty_read_def by (assumption | rule keeps let_values)+

lemma send_step_frames [keeps]: "framed s t \<Longrightarrow> frames s (send_step x1 x2 t)"
  unfolding send_step_def by (assumption | rule keeps let_values)+

lemma write_step_frames [keeps]: "framed s t \<Longrightarrow> frames s (write_step x1 x2 t)"
  unfolding write_step_def by (assumption | rule keeps let_values)+

lemma tty_write_frames [keeps]: "framed s t \<Longrightarrow> frames s (tty_write x1 x2 x3 t)"
  unfolding tty_write_def by (assumption | rule keeps let_values)+

lemma rw_ttyx_frames [keeps]: "framed s t \<Longrightarrow> frames s (rw_ttyx x1 x2 x3 x4 t)"
  unfolding rw_ttyx_def by (assumption | rule keeps let_values)+

lemma rw_tty_frames [keeps]: "framed s t \<Longrightarrow> frames s (rw_tty x1 x2 x3 x4 t)"
  unfolding rw_tty_def by (assumption | rule keeps let_values)+

lemma port_step_frames [keeps]: "framed s t \<Longrightarrow> frames s (port_step x1 x2 t)"
  unfolding port_step_def by (assumption | rule framed_inb | rule keeps let_values)+

lemma rw_port_frames [keeps]: "framed s t \<Longrightarrow> frames s (rw_port x1 x2 x3 x4 t)"
  unfolding rw_port_def by (assumption | rule keeps let_values)+

lemma rw_memory_frames [keeps]: "framed s t \<Longrightarrow> frames s (rw_memory x1 x2 x3 x4 x5 t)"
  unfolding rw_memory_def by (assumption | rule keeps let_values)+

lemma rw_char_frames [keeps]: "framed s t \<Longrightarrow> frames s (rw_char x1 x2 x3 x4 x5 t)"
  unfolding rw_char_def by (assumption | rule keeps let_values)+

lemma change_speed_framed [keeps]: "framed s t \<Longrightarrow> framed s (change_speed x1 t)"
  unfolding change_speed_def by (assumption | rule keeps let_values)+

lemma get_termios_frames [keeps]: "framed s t \<Longrightarrow> frames s (get_termios x1 x2 t)"
  unfolding get_termios_def by (assumption | rule keeps let_values)+

lemma set_termios_frames [keeps]: "framed s t \<Longrightarrow> frames s (set_termios x1 x2 t)"
  unfolding set_termios_def by (assumption | rule keeps let_values)+

lemma get_termio_frames [keeps]: "framed s t \<Longrightarrow> frames s (get_termio x1 x2 t)"
  unfolding get_termio_def by (assumption | rule keeps let_values)+

lemma set_termio_frames [keeps]: "framed s t \<Longrightarrow> frames s (set_termio x1 x2 t)"
  unfolding set_termio_def by (assumption | rule keeps let_values)+

lemma tty_command_frames [keeps]: "framed s t \<Longrightarrow> frames s (tty_command x1 x2 x3 t)"
  unfolding tty_command_def Let_def by (assumption | rule keeps let_values)+

lemma tty_ioctl_frames [keeps]: "framed s t \<Longrightarrow> frames s (tty_ioctl x1 x2 x3 t)"
  unfolding tty_ioctl_def by (assumption | rule keeps let_values)+

section \<open>System calls that only use what is open\<close>

lemma sys_lseek_frames [keeps]: "framed s t \<Longrightarrow> frames s (sys_lseek x1 x2 x3 t)"
  unfolding sys_lseek_def Let_def by (assumption | rule keeps let_values)+

lemma sys_read_frames [keeps]: "framed s t \<Longrightarrow> frames s (sys_read x1 x2 x3 t)"
  unfolding sys_read_def by (assumption | rule keeps let_values)+

lemma sys_write_frames [keeps]: "framed s t \<Longrightarrow> frames s (sys_write x1 x2 x3 t)"
  unfolding sys_write_def by (assumption | rule keeps let_values)+

lemma with_namei_frames [keeps]:
  "framed s t \<Longrightarrow> (\<And>i u. framed s u \<Longrightarrow> frames s (k i u)) \<Longrightarrow> frames s (with_namei e f k t)"
  unfolding with_namei_def by (assumption | rule keeps let_values)+

lemma sys_utime_frames [keeps]: "framed s t \<Longrightarrow> frames s (sys_utime x1 x2 t)"
  unfolding sys_utime_def by (assumption | rule keeps let_values)+

lemma sys_access_frames [keeps]: "framed s t \<Longrightarrow> frames s (sys_access x1 x2 t)"
  unfolding sys_access_def by (assumption | rule keeps let_values)+

lemma sys_chmod_frames [keeps]: "framed s t \<Longrightarrow> frames s (sys_chmod x1 x2 t)"
  unfolding sys_chmod_def by (assumption | rule keeps let_values)+

lemma sys_chown_frames [keeps]: "framed s t \<Longrightarrow> frames s (sys_chown x1 x2 x3 t)"
  unfolding sys_chown_def by (assumption | rule keeps let_values)+

lemma cp_stat_frames [keeps]: "framed s t \<Longrightarrow> frames s (cp_stat x1 x2 t)"
  unfolding cp_stat_def by (assumption | rule keeps let_values)+

lemma sys_stat_frames [keeps]: "framed s t \<Longrightarrow> frames s (sys_stat x1 x2 t)"
  unfolding sys_stat_def by (assumption | rule keeps let_values)+

lemma sys_fstat_frames [keeps]: "framed s t \<Longrightarrow> frames s (sys_fstat x1 x2 t)"
  unfolding sys_fstat_def by (assumption | rule keeps let_values)+

lemma sys_ioctl_frames [keeps]: "framed s t \<Longrightarrow> frames s (sys_ioctl x1 x2 x3 t)"
  unfolding sys_ioctl_def by (assumption | rule keeps let_values)+

lemma sys_time_frames [keeps]: "framed s t \<Longrightarrow> frames s (sys_time x1 t)"
  unfolding sys_time_def by (assumption | rule keeps let_values)+

lemma sys_times_frames [keeps]: "framed s t \<Longrightarrow> frames s (sys_times x1 t)"
  unfolding sys_times_def by (assumption | rule keeps let_values)+

lemma sys_uname_frames [keeps]: "framed s t \<Longrightarrow> frames s (sys_uname x1 t)"
  unfolding sys_uname_def by (assumption | rule keeps let_values)+

section \<open>Start-up of the disks\<close>

lemma framed_fold:
  "(\<And>x u. framed s u \<Longrightarrow> framed s (f x u)) \<Longrightarrow> framed s t \<Longrightarrow> framed s (fold f xs t)"
  by (induction xs arbitrary: t) simp_all

lemma frames_cmos_drives:
  "framed s t \<Longrightarrow> (\<And>a u. framed s u \<Longrightarrow> frames s (f a u)) \<Longrightarrow> frames s (case cmos_drives t of (a, u) \<Rightarrow> f a u)"
  using framed_in_port(2) [OF framed_outb, of s t "0x71" "0x92" "0x70"] by (auto simp: cmos_drives_def split: prod.split)

lemma set_partition_framed [keeps]: "framed s t \<Longrightarrow> framed s (set_partition x1 x2 x3 t)"
  unfolding set_partition_def by (assumption | rule keeps let_values)+

lemma whole_drive_framed [keeps]: "framed s t \<Longrightarrow> framed s (whole_drive x1 t)"
  unfolding whole_drive_def by (assumption | rule keeps let_values)+

lemma read_partitions_frames [keeps]: "framed s t \<Longrightarrow> frames s (read_partitions x1 t)"
  unfolding read_partitions_def by (assumption | rule framed_fold | rule keeps let_values)+

lemma load_step_frames [keeps]: "framed s t \<Longrightarrow> frames s (load_step x1 t)"
  unfolding load_step_def by (assumption | rule keeps let_values)+

lemma rd_load_frames [keeps]: "framed s t \<Longrightarrow> frames s (rd_load t)"
  unfolding rd_load_def by (assumption | rule keeps let_values)+

lemma raise_framed [keeps]: "framed s t \<Longrightarrow> framed s (raise x1 x2 t)"
  unfolding raise_def by (assumption | rule keeps let_values)+

lemma count_clear_frames [keeps]: "framed s t \<Longrightarrow> frames s (count_clear m n t)"
proof (induction n arbitrary: t)
  case (Suc n)
  show ?case unfolding count_clear.simps by (assumption | rule Suc.prems Suc.IH | rule keeps let_values)+
qed simp

end
