(* ===== verification/ForkProps.thy ===== *)
theory ForkProps
  imports Fork MemoryProps SchedProps
begin

text \<open>
  A new process: the search for a process number and a slot comes to an end with an unused
  positive number, and \<open>sys_fork\<close> makes a copy of the caller that differs from it in what a
  child must differ in.
\<close>

section \<open>Process numbers\<close>

definition unused_pid :: "u32 \<Rightarrow> kstate \<Rightarrow> bool" where
  "unused_pid p s \<longleftrightarrow> (\<forall>i<NR_TASKS. task s i \<noteq> 0 \<longrightarrow> t_pid (tsk s i) \<noteq> p)"

lemma pid_used_iff: "pid_used is s \<longleftrightarrow> (\<exists>i\<in>set is. task s i \<noteq> 0 \<and> t_pid (tsk s i) = last_pid s)"
  by (induction "is" s rule: pid_used.induct) auto

text \<open>The numbers go from 1 to \<open>2 ^ 31 - 1\<close> and around.\<close>

lemma sint_next_pid: "0 \<le> sint n \<Longrightarrow> sint (next_pid n) = 1 + sint n mod (2 ^ 31 - 1)"
proof (cases "sint n = 2 ^ 31 - 1")
  case True
  then have "n = 0x7FFFFFFF" by (intro signed_word_eqI) simp
  then show ?thesis using True by (simp add: next_pid_def slt_def)
next
  case False
  assume "0 \<le> sint n"
  moreover from this False have "sint (n + 1) = sint n + 1" using sint_add_bound [of n 1] sint_lt [of n] by simp
  ultimately show ?thesis using False sint_lt [of n] by (simp add: next_pid_def slt_def)
qed

lemma sint_pids: "0 \<le> sint n \<Longrightarrow> sint ((next_pid ^^ Suc k) n) = 1 + (sint n + int k) mod (2 ^ 31 - 1)"
proof (induction k)
  case (Suc k)
  have "sint ((next_pid ^^ Suc (Suc k)) n) = 1 + sint ((next_pid ^^ Suc k) n) mod (2 ^ 31 - 1)"
    using Suc sint_next_pid [of "(next_pid ^^ Suc k) n"] by simp
  then show ?case using Suc by (simp add: mod_simps algebra_simps)
qed (simp add: sint_next_pid)

lemma inj_pids: "0 \<le> sint n \<Longrightarrow> inj_on (\<lambda>k. (next_pid ^^ Suc k) n) {..<65}"
proof (rule inj_onI)
  fix i j assume n: "0 \<le> sint n" "i \<in> {..<65}" "j \<in> {..<65::nat}" "(next_pid ^^ Suc i) n = (next_pid ^^ Suc j) n"
  then have "(sint n + int i) mod (2 ^ 31 - 1) = (sint n + int j) mod (2 ^ 31 - 1)"
    using sint_pids [OF n(1), of i] sint_pids [OF n(1), of j] by simp
  then have "(2 ^ 31 - 1) dvd (int i - int j)" by (simp add: mod_eq_dvd_iff)
  moreover have "\<bar>int i - int j\<bar> < 2 ^ 31 - 1" using n by auto
  ultimately show "i = j" using zdvd_imp_le [of "2 ^ 31 - 1" "\<bar>int i - int j\<bar>"] by fastforce
qed

text \<open>One of 65 successive numbers is not that of one of the 64 tasks.\<close>

lemma some_unused:
  assumes "0 \<le> sint n"
  obtains k where "k < 65" "unused_pid ((next_pid ^^ Suc k) n) s"
proof -
  let ?used = "(\<lambda>i. t_pid (tsk s i)) ` {..<NR_TASKS}" and ?new = "(\<lambda>k. (next_pid ^^ Suc k) n) ` {..<65}"
  have "card ?used \<le> 64" using card_image_le [of "{..<NR_TASKS}" "\<lambda>i. t_pid (tsk s i)"] by (simp add: NR_TASKS_def)
  moreover have "card ?new = 65" using card_image [OF inj_pids [OF assms]] by simp
  ultimately have "\<not> ?new \<subseteq> ?used" using card_mono [of ?used ?new] by auto
  then obtain k where "k < 65" "(next_pid ^^ Suc k) n \<notin> ?used" by blast
  moreover from this have "unused_pid ((next_pid ^^ Suc k) n) s" unfolding unused_pid_def by (metis imageI lessThan_iff)
  ultimately show thesis using that [of k] by simp
qed

lemma new_pid_step:
  "new_pid s = (if unused_pid (next_pid (last_pid s)) s then Some (s\<lparr>last_pid := next_pid (last_pid s)\<rparr>)
     else new_pid (s\<lparr>last_pid := next_pid (last_pid s)\<rparr>))"
  by (subst new_pid.simps) (auto simp: Let_def pid_used_iff unused_pid_def)

definition first_unused :: "nat \<Rightarrow> kstate \<Rightarrow> bool" where
  "first_unused k s \<longleftrightarrow> unused_pid ((next_pid ^^ Suc k) (last_pid s)) s \<and>
     (\<forall>j<k. \<not> unused_pid ((next_pid ^^ Suc j) (last_pid s)) s)"

lemma new_pid_finds:
  "first_unused k s \<Longrightarrow> new_pid s = Some (s\<lparr>last_pid := (next_pid ^^ Suc k) (last_pid s)\<rparr>)"
proof (induction k arbitrary: s)
  case 0
  then show ?case by (subst new_pid_step) (simp add: first_unused_def)
next
  case (Suc k)
  let ?s = "s\<lparr>last_pid := next_pid (last_pid s)\<rparr>"
  have "unused_pid p ?s = unused_pid p s" for p by (simp add: unused_pid_def)
  then have "first_unused k ?s"
    using Suc.prems by (auto simp: first_unused_def funpow_swap1 dest: spec [of _ "Suc _"])
  moreover have "\<not> unused_pid (next_pid (last_pid s)) s"
    using Suc.prems unfolding first_unused_def by (auto dest: spec [of _ 0])
  ultimately show ?case using Suc.IH [of ?s] by (subst new_pid_step) (simp add: funpow_swap1)
qed

lemma find_upt:
  "List.find P [a..<b] = (if \<exists>i. a \<le> i \<and> i < b \<and> P i then Some (LEAST i. a \<le> i \<and> P i) else None)"
proof (induction "b - a" arbitrary: a)
  case (Suc n)
  then have ab: "[a..<b] = a # [Suc a..<b]" "a < b" by (simp_all add: upt_conv_Cons)
  show ?case
  proof (cases "P a")
    case True
    then have "(LEAST i. a \<le> i \<and> P i) = a" by (intro Least_equality) auto
    then show ?thesis using True ab by auto
  next
    case False
    then have "(a \<le> i \<and> P i) = (Suc a \<le> i \<and> P i)" "(a \<le> i \<and> i < b \<and> P i) = (Suc a \<le> i \<and> i < b \<and> P i)" for i
      by (auto simp: Suc_le_eq le_less)
    moreover have "List.find P [Suc a..<b] = (if \<exists>i. Suc a \<le> i \<and> i < b \<and> P i then Some (LEAST i. Suc a \<le> i \<and> P i) else None)"
      using Suc.hyps(2) by (intro Suc.hyps(1)) simp
    ultimately show ?thesis unfolding ab(1) using False by (simp only: find.simps if_False)
  qed
qed simp

lemma free_task_find: "free_task is s = List.find (\<lambda>i. task s i = 0) is"
  by (induction "is") simp_all

lemma find_empty_process_spec:
  assumes "0 \<le> sint (last_pid s)"
  shows "\<exists>k<65. let pid = (next_pid ^^ Suc k) (last_pid s) in
    find_empty_process s = Ret (if \<exists>i. 1 \<le> i \<and> i < NR_TASKS \<and> task s i = 0
      then of_nat (LEAST i. 1 \<le> i \<and> task s i = 0) else - EAGAIN) (s\<lparr>last_pid := pid\<rparr>) \<and>
    0 < sint pid \<and> unused_pid pid s \<and> (\<forall>j<k. \<not> unused_pid ((next_pid ^^ Suc j) (last_pid s)) s)"
proof -
  obtain k\<^sub>0 where k\<^sub>0: "k\<^sub>0 < 65" "unused_pid ((next_pid ^^ Suc k\<^sub>0) (last_pid s)) s" by (rule some_unused [OF assms])
  then obtain k where k: "first_unused k s"
    unfolding first_unused_def using exists_least_iff [of "\<lambda>k. unused_pid ((next_pid ^^ Suc k) (last_pid s)) s"] by blast
  then have "\<not> k\<^sub>0 < k" using k\<^sub>0(2) unfolding first_unused_def by blast
  then have k: "k < 65" "first_unused k s" using k k\<^sub>0(1) by simp_all
  have "find_empty_process s = Ret (if \<exists>i. 1 \<le> i \<and> i < NR_TASKS \<and> task s i = 0
      then of_nat (LEAST i. 1 \<le> i \<and> task s i = 0) else - EAGAIN) (s\<lparr>last_pid := (next_pid ^^ Suc k) (last_pid s)\<rparr>)"
    unfolding find_empty_process_def new_pid_finds [OF k(2)] free_task_find find_upt by (auto simp del: One_nat_def funpow.simps)
  moreover have "0 < sint ((next_pid ^^ Suc k) (last_pid s))"
    unfolding sint_pids [OF assms] by (rule add_pos_nonneg) simp_all
  ultimately show ?thesis using k unfolding Let_def first_unused_def by blast
qed

text \<open>
  C32. The search for a new process always ends: starting from any process number that is not
  negative, \<open>find_empty_process\<close> goes on to the next positive number that no task has, at most 65
  further, and returns the lowest free slot of the task table above 0, or \<open>-EAGAIN\<close> if there is
  none. It changes nothing but \<open>last_pid\<close>.
\<close>

theorem find_empty_process_finds:
  assumes "0 \<le> sint (last_pid s)"
  shows "\<exists>k<65. let pid = (next_pid ^^ Suc k) (last_pid s) in
    find_empty_process s = Ret (if \<exists>i. 1 \<le> i \<and> i < NR_TASKS \<and> task s i = 0
      then of_nat (LEAST i. 1 \<le> i \<and> task s i = 0) else - EAGAIN) (s\<lparr>last_pid := pid\<rparr>) \<and>
    0 < sint pid \<and> unused_pid pid s \<and> (\<forall>j<k. \<not> unused_pid ((next_pid ^^ Suc j) (last_pid s)) s)"
  by (rule find_empty_process_spec [OF assms])

text \<open>Process 1 is the only one, and the numbers are about to wrap around.\<close>

definition late_pid :: kstate where
  "late_pid = two_tasks\<lparr>last_pid := 0x7FFFFFFF, tsk := (\<lambda>_. (undefined :: task_struct)\<lparr>t_pid := 1\<rparr>)\<rparr>"

theorem find_empty_process_finds_witness:
  "\<exists>k<65. let pid = (next_pid ^^ Suc k) (last_pid late_pid) in
    find_empty_process late_pid = Ret (if \<exists>i. 1 \<le> i \<and> i < NR_TASKS \<and> task late_pid i = 0
      then of_nat (LEAST i. 1 \<le> i \<and> task late_pid i = 0) else - EAGAIN) (late_pid\<lparr>last_pid := pid\<rparr>) \<and>
    0 < sint pid \<and> unused_pid pid late_pid \<and> (\<forall>j<k. \<not> unused_pid ((next_pid ^^ Suc j) (last_pid late_pid)) late_pid)"
  by (rule find_empty_process_finds) (simp add: late_pid_def)

section \<open>Memory for the child\<close>

lemma total_in_mm [simp]: "total (in_mm f s) Q = total (f (mm s)) (\<lambda>a m. Q a (s\<lparr>mm := m\<rparr>))"
  by (cases "f (mm s)") (simp_all add: in_mm_def)

lemma free_task_page:
  assumes inv: "mm_inv (add_ext i ext) m" and i: "i < PAGING_PAGES" and below: "page_addr i < high_memory m"
  shows "total (free_page (page_addr i) m) (\<lambda>_. mm_inv ext)"
proof -
  have low: "\<not> page_addr i < LOW_MEM" using unat_page_addr [OF i] by (simp add: LOW_MEM_def word_less_nat_alt)
  then have n: "unat (drop_bit 12 (page_addr i - LOW_MEM)) = i"
    using MAP_NR_frame [of "page_addr i"] frame_page_addr [OF i] by (simp add: MAP_NR_def)
  have c: "unat (mem_map m i) = acct (phys m) i + ext i + 1" using mm_invD(3) [OF inv i] by (simp add: add_ext_def)
  then have pos: "mem_map m i \<noteq> 0" by auto
  then have "unat (mem_map m i - 1) = acct (phys m) i + ext i" using c by (simp add: unat_minus_one)
  moreover have "j \<noteq> i" if "high_memory m \<le> page_addr j" for j using that below by auto
  ultimately have "mm_inv ext (m\<lparr>mem_map := (mem_map m)(i := mem_map m i - 1)\<rparr>)"
    using mm_invD [OF inv] below by (auto simp: mm_inv_def add_ext_def split: if_splits)
  then show ?thesis using low below pos i n
    by (simp add: free_page_def Let_def mem_map_at_def set_mem_map_def)
qed

lemma copy_request_alloc:
  assumes inv: "mm_inv ext m" and i: "i < PAGING_PAGES" "mem_map m i = 0" and req: "copy_request frm to sz m"
  shows "copy_request frm to sz (alloc_page i m)"
proof -
  have same: "same_dir m (alloc_page i m) d" if "d < 1024" for d using alloc_page_same_dir [OF inv i that] .
  then have "phys (alloc_page i m) (cell 0 d) = phys m (cell 0 d)" if "d < 1024" for d
    using that by (simp add: same_dir_def)
  moreover have "from_ok n (alloc_page i m) d" if "d < 1024" "bit (phys m (cell 0 d)) 0" "n \<le> 1024" "from_ok n m d" for n d
    using from_ok_same_dir [OF same [OF that(1)] that(2,3) _ that(4)] by simp
  moreover have "pages_per_table frm \<le> 1024" by (simp add: pages_per_table_def)
  ultimately show ?thesis using req unfolding copy_request_def by auto
qed

section \<open>The new process\<close>

definition fork_ready :: "(nat \<Rightarrow> nat) \<Rightarrow> nat \<Rightarrow> kstate \<Rightarrow> bool" where
  "fork_ready ext nr s \<longleftrightarrow> mm_inv ext (mm s) \<and> (\<forall>i<PAGING_PAGES. mem_map (mm s) i < 128) \<and>
     data_base s = code_base s \<and> code_limit s \<le> data_limit s \<and>
     copy_request (data_base s) (of_nat nr * 0x4000000) (data_limit s) (mm s)"

text \<open>What \<open>copy_process\<close> has done up to the call of \<open>copy_mem\<close>.\<close>

definition prepared :: "i387_struct \<Rightarrow> nat \<Rightarrow> u32 \<Rightarrow> sys_frame \<Rightarrow> kstate \<Rightarrow> kstate" where
  "prepared fpu_reset nr page r s =
     save_fpu fpu_reset nr (s\<lparr>task := (task s)(nr := page), tsk := (tsk s)(nr := child_task nr page r s)\<rparr>)"

definition new_base :: "nat \<Rightarrow> u32" where "new_base nr = of_nat nr * 0x4000000"

definition set_bases :: "nat \<Rightarrow> kstate \<Rightarrow> kstate" where
  "set_bases nr = upd_task nr (\<lambda>p. p\<lparr>t_start_code := new_base nr,
     t_ldt := (t_ldt p)(1 := set_base (new_base nr) (t_ldt p 1), 2 := set_base (new_base nr) (t_ldt p 2))\<rparr>)"

lemma free_page_tables_high:
  assumes "mm_inv ext m" "frm AND 0x3fffff = 0" "4 \<le> dir_index frm" "dir_index frm + dir_count sz \<le> 1024"
  shows "total (free_page_tables frm sz m) (\<lambda>_ m'. mm_inv ext m' \<and> high_memory m' = high_memory m)"
proof -
  have "frm \<noteq> 0" using assms(3) by (auto simp: dir_index_def)
  then show ?thesis
    using assms(2) total_mono [OF free_dirs_spec [OF assms(1,3,4)]]
    unfolding free_page_tables_def pde_addr_index dir_count_def [symmetric] by simp
qed

lemma copy_mem_total:
  assumes inv: "mm_inv ext (mm s)" and few: "\<forall>i<PAGING_PAGES. mem_map (mm s) i < 128" and nr: "current s \<noteq> nr"
    and seg: "data_base s = code_base s" "code_limit s \<le> data_limit s"
    and req: "copy_request (data_base s) (new_base nr) (data_limit s) (mm s)"
  shows "total (copy_mem nr s) (\<lambda>v t. \<exists>m. mm_inv ext m \<and> high_memory m = high_memory (mm s) \<and>
    (v = 0 \<and> t = (set_bases nr s)\<lparr>mm := m, user := (user s)(nr := user s (current s))\<rparr> \<and>
       copied (pages_per_table (data_base s)) (dir_count (data_limit s)) (dir_index (data_base s)) (dir_index (new_base nr)) (mm s) m \<or>
     v = - ENOMEM \<and> t = (set_bases nr s)\<lparr>mm := m\<rparr>))"
proof -
  let ?s = "set_bases nr s"
  have s: "mm ?s = mm s" "data_base ?s = data_base s" "data_limit ?s = data_limit s" "user ?s = user s" "current ?s = current s"
    using nr by (simp_all add: set_bases_def state_simps data_base_def data_limit_def)
  have unfold: "copy_mem nr s = seq (in_mm (copy_page_tables (data_base s) (new_base nr) (data_limit s)) ?s) (\<lambda>err t.
      if tst err then seq (in_mm (free_page_tables (new_base nr) (data_limit t)) t) (\<lambda>_ t. Ret (- ENOMEM) t)
      else Ret 0 (t\<lparr>user := (user t)(nr := user t (current t))\<rparr>))"
    unfolding copy_mem_def Let_def new_base_def [symmetric] set_bases_def [symmetric] s
    using seg by (simp add: not_less [symmetric] linorder_not_less [symmetric])
  have to: "new_base nr AND 0x3fffff = 0" "4 \<le> dir_index (new_base nr)" "dir_index (new_base nr) + dir_count (data_limit s) \<le> 1024"
    using req by (simp_all add: copy_request_def)
  show ?thesis
    unfolding unfold total_seq total_in_mm s(1)
  proof (rule total_mono [OF copy_page_tables_spec [OF inv req few]])
    fix r :: u32 and m assume m: "mm_inv ext m \<and> high_memory m = high_memory (mm s) \<and>
       others_same (dir_count (data_limit s)) (dir_index (data_base s)) (dir_index (new_base nr)) (mm s) m \<and>
       (r = 0 \<and> copied (pages_per_table (data_base s)) (dir_count (data_limit s)) (dir_index (data_base s)) (dir_index (new_base nr)) (mm s) m \<or>
        r = - 1 \<and> (\<forall>i<PAGING_PAGES. mem_map m i \<noteq> 0))"
    show "total (if tst r then seq (in_mm (free_page_tables (new_base nr) (data_limit (?s\<lparr>mm := m\<rparr>))) (?s\<lparr>mm := m\<rparr>)) (\<lambda>_ t. Ret (- ENOMEM) t)
      else Ret 0 (?s\<lparr>mm := m, user := (user (?s\<lparr>mm := m\<rparr>))(nr := user (?s\<lparr>mm := m\<rparr>) (current (?s\<lparr>mm := m\<rparr>)))\<rparr>))
     (\<lambda>v t. \<exists>m. mm_inv ext m \<and> high_memory m = high_memory (mm s) \<and>
    (v = 0 \<and> t = ?s\<lparr>mm := m, user := (user s)(nr := user s (current s))\<rparr> \<and>
       copied (pages_per_table (data_base s)) (dir_count (data_limit s)) (dir_index (data_base s)) (dir_index (new_base nr)) (mm s) m \<or>
     v = - ENOMEM \<and> t = ?s\<lparr>mm := m\<rparr>))"
    proof (cases "r = 0")
      case True
      then show ?thesis using m by (auto simp: s)
    next
      case False
      have limit: "data_limit (?s\<lparr>mm := m\<rparr>) = data_limit s" using s(3) by (simp add: data_limit_def cur_def)
      have "mm_inv ext m" using m by blast
      from free_page_tables_high [OF this to] show ?thesis
        using False m unfolding if_not_P limit by (auto simp: limit elim!: total_mono)
    qed
  qed
qed

text \<open>How many descriptors of a task refer to an open file.\<close>

definition fds_of :: "task_struct \<Rightarrow> nat \<Rightarrow> nat" where
  "fds_of p f = length (filter (\<lambda>fd. t_filp p fd = Some f) [0..<NR_OPEN])"

lemma share_file_only: "share_file nr fd s = s\<lparr>file_table := file_table (share_file nr fd s)\<rparr>"
  by (simp add: share_file_def upd_file_def split: option.split)

lemma share_files_only: "\<exists>f. fold (share_file nr) fds s = s\<lparr>file_table := f\<rparr>"
proof (induction fds arbitrary: s)
  case (Cons fd fds)
  obtain f where "fold (share_file nr) fds (share_file nr fd s) = (share_file nr fd s)\<lparr>file_table := f\<rparr>" using Cons by blast
  then show ?case by (subst (asm) share_file_only [of nr fd s]) auto
next
  case Nil
  show ?case by (rule exI [of _ "file_table s"]) simp
qed

lemma share_files_count:
  "file_table (fold (share_file nr) fds s) f =
     (file_table s f)\<lparr>f_count := f_count (file_table s f) + of_nat (length (filter (\<lambda>fd. t_filp (tsk s nr) fd = Some f) fds))\<rparr>"
proof (induction fds arbitrary: s)
  case (Cons fd fds)
  have "tsk (share_file nr fd s) = tsk s" by (subst share_file_only) simp
  then show ?case by (simp add: Cons.IH) (auto simp: share_file_def state_simps split: option.split)
qed simp

lemma share_inode_only: "\<exists>m. share_inode i s = s\<lparr>inode_table := m\<rparr>"
proof (cases i)
  case None
  then show ?thesis by (intro exI [of _ "inode_table s"]) (simp add: share_inode_def)
qed (auto simp: share_inode_def upd_inode_def)

lemma share_all_spec:
  "\<exists>m. share_all nr s = s\<lparr>file_table := (\<lambda>f. (file_table s f)\<lparr>f_count := f_count (file_table s f) + of_nat (fds_of (tsk s nr) f)\<rparr>),
     inode_table := m\<rparr>"
proof -
  obtain f where f: "fold (share_file nr) [0..<NR_OPEN] s = s\<lparr>file_table := f\<rparr>" using share_files_only by blast
  have "f x = (file_table s x)\<lparr>f_count := f_count (file_table s x) + of_nat (fds_of (tsk s nr) x)\<rparr>" for x
    using share_files_count [of nr "[0..<NR_OPEN]" s x] by (simp add: f fds_of_def)
  then have f': "f = (\<lambda>x. (file_table s x)\<lparr>f_count := f_count (file_table s x) + of_nat (fds_of (tsk s nr) x)\<rparr>)" by blast
  define u where "u = fold (share_file nr) [0..<NR_OPEN] s"
  obtain m where "share_inode (t_pwd (cur u)) u = u\<lparr>inode_table := m\<rparr>" using share_inode_only by blast
  moreover obtain m' where "share_inode (t_root (cur (u\<lparr>inode_table := m\<rparr>))) (u\<lparr>inode_table := m\<rparr>) = u\<lparr>inode_table := m'\<rparr>"
    using share_inode_only [of _ "u\<lparr>inode_table := m\<rparr>"] by auto
  moreover obtain m'' where "share_inode (t_executable (cur (u\<lparr>inode_table := m'\<rparr>))) (u\<lparr>inode_table := m'\<rparr>) = u\<lparr>inode_table := m''\<rparr>"
    using share_inode_only [of _ "u\<lparr>inode_table := m'\<rparr>"] by auto
  ultimately have "share_all nr s = u\<lparr>inode_table := m''\<rparr>" unfolding share_all_def Let_def u_def [symmetric]
    by (simp add: cur_def)
  then show ?thesis unfolding u_def f f' by blast
qed

text \<open>Where everything the child has comes from.\<close>

definition child_of :: "sys_frame \<Rightarrow> nat \<Rightarrow> kstate \<Rightarrow> kstate \<Rightarrow> bool" where
  "child_of r nr s t \<longleftrightarrow> (let p = cur s; c = tsk t nr; x = t_tss c in
     t_state c = TASK_RUNNING \<and> t_pid c = last_pid s \<and> t_father c = t_pid p \<and> t_counter c = t_priority p \<and>
     t_signal c = 0 \<and> t_alarm c = 0 \<and> t_utime c = 0 \<and> t_stime c = 0 \<and> t_leader c = 0 \<and>
     (t_uid c, t_euid c, t_suid c) = (t_uid p, t_euid p, t_suid p) \<and>
     (t_gid c, t_egid c, t_sgid c) = (t_gid p, t_egid p, t_sgid p) \<and>
     t_sigaction c = t_sigaction p \<and> t_blocked c = t_blocked p \<and> t_pgrp c = t_pgrp p \<and> t_session c = t_session p \<and>
     (t_pwd c, t_root c, t_executable c) = (t_pwd p, t_root p, t_executable p) \<and> t_filp c = t_filp p \<and>
     tss_eax x = 0 \<and> tss_eip x = fr_eip r \<and> tss_esp x = fr_esp r \<and> tss_ebx x = fr_ebx r \<and> tss_ecx x = fr_ecx r \<and>
     esp0 x = task t nr + 4096 \<and>
     get_base (t_ldt c 1) = new_base nr \<and> get_base (t_ldt c 2) = new_base nr \<and>
     get_limit (t_ldt c 1) = get_limit (t_ldt p 1) \<and> get_limit (t_ldt c 2) = get_limit (t_ldt p 2) \<and>
     get_base (gdt t (2 * nr + FIRST_TSS_ENTRY)) = task t nr + TSS_OFFSET \<and>
     get_base (gdt t (2 * nr + FIRST_LDT_ENTRY)) = task t nr + LDT_OFFSET \<and>
     user t nr = user s (current s))"

text \<open>What a new reader or writer of every open file of the parent is counted as.\<close>

definition others_kept :: "nat \<Rightarrow> kstate \<Rightarrow> kstate \<Rightarrow> bool" where
  "others_kept nr s t \<longleftrightarrow> (\<forall>i. i \<noteq> nr \<longrightarrow> task t i = task s i \<and> tsk t i = tsk s i \<and> user t i = user s i) \<and> current t = current s"

definition fork_result :: "i387_struct \<Rightarrow> (nat \<Rightarrow> nat) \<Rightarrow> sys_frame \<Rightarrow> nat \<Rightarrow> kstate \<Rightarrow> u32 \<Rightarrow> kstate \<Rightarrow> bool" where
  "fork_result fpu_reset ext r nr s v t \<longleftrightarrow> others_kept nr s t \<and> last_pid t = last_pid s \<and>
    (v = - EAGAIN \<and> task t nr = 0 \<and> file_table t = file_table s \<and> inode_table t = inode_table s \<and> mm_inv ext (mm t) \<or>
     v = last_pid s \<and> child_of r nr s t \<and> last_task_used_math t = last_task_used_math s \<and>
     fpu t = (if last_task_used_math s = Some (current s) then fpu_reset else fpu s) \<and>
     (\<forall>f. file_table t f = (file_table s f)\<lparr>f_count := f_count (file_table s f) + of_nat (fds_of (cur s) f)\<rparr>) \<and>
     copied (pages_per_table (data_base s)) (dir_count (data_limit s)) (dir_index (data_base s)) (dir_index (new_base nr)) (mm s) (mm t) \<and>
     (\<exists>i<PAGING_PAGES. task t nr = page_addr i \<and> mem_map (mm s) i = 0 \<and> mm_inv (add_ext i ext) (mm t)))"

definition child_made :: "nat \<Rightarrow> kstate \<Rightarrow> kstate" where
  "child_made nr s = upd_task nr (t_state_update (\<lambda>_. TASK_RUNNING)) (set_task_desc nr (share_all nr s))"

lemma child_made_fields:
  assumes "nr \<noteq> current s" and t: "t = (set_bases nr (prepared fpu_reset nr page r s))\<lparr>mm := m, user := u\<rparr>"
  shows "last_pid (child_made nr t) = last_pid s" "mm (child_made nr t) = m" "current (child_made nr t) = current s"
    "task (child_made nr t) = (task s)(nr := page)" "user (child_made nr t) = u"
    "last_task_used_math (child_made nr t) = last_task_used_math s"
    "fpu (child_made nr t) = (if last_task_used_math s = Some (current s) then fpu_reset else fpu s)"
    "file_table (child_made nr t) f = (file_table s f)\<lparr>f_count := f_count (file_table s f) + of_nat (fds_of (cur s) f)\<rparr>"
    "tsk (child_made nr t) i = (if i = nr then tsk (child_made nr t) nr else tsk s i)"
    "gdt (child_made nr t) = (gdt s)(
     2 * nr + FIRST_TSS_ENTRY := tssldt_desc (page + TSS_OFFSET) 0x89,
     2 * nr + FIRST_LDT_ENTRY := tssldt_desc (page + LDT_OFFSET) 0x82)"
    "\<exists>fp. tsk (child_made nr t) nr = (child_task nr page r s)\<lparr>t_state := TASK_RUNNING, t_start_code := new_base nr,
     t_ldt := (t_ldt (cur s))(1 := set_base (new_base nr) (t_ldt (cur s) 1), 2 := set_base (new_base nr) (t_ldt (cur s) 2)),
     t_tss := (child_tss nr page r (t_tss (cur s)))\<lparr>i387 := fp\<rparr>\<rparr>"
proof -
  obtain k where k: "share_all nr t = t\<lparr>file_table := (\<lambda>f. (file_table t f)\<lparr>f_count := f_count (file_table t f) + of_nat (fds_of (tsk t nr) f)\<rparr>),
     inode_table := k\<rparr>" using share_all_spec by blast
  note c = child_made_def [of nr t, unfolded k]
  have p: "prepared fpu_reset nr page r s = (if last_task_used_math s = Some (current s)
      then s\<lparr>task := (task s)(nr := page), tsk := (tsk s)(nr := t_tss_update (i387_update (\<lambda>_. fpu s)) (child_task nr page r s)), fpu := fpu_reset\<rparr>
      else s\<lparr>task := (task s)(nr := page), tsk := (tsk s)(nr := child_task nr page r s)\<rparr>)"
    using assms(1) by (simp add: prepared_def save_fpu_def state_simps)
  show "last_pid (child_made nr t) = last_pid s" "mm (child_made nr t) = m" "current (child_made nr t) = current s"
    "task (child_made nr t) = (task s)(nr := page)" "user (child_made nr t) = u"
    "last_task_used_math (child_made nr t) = last_task_used_math s"
    "fpu (child_made nr t) = (if last_task_used_math s = Some (current s) then fpu_reset else fpu s)"
    "file_table (child_made nr t) f = (file_table s f)\<lparr>f_count := f_count (file_table s f) + of_nat (fds_of (cur s) f)\<rparr>"
    "tsk (child_made nr t) i = (if i = nr then tsk (child_made nr t) nr else tsk s i)"
    "gdt (child_made nr t) = (gdt s)(
     2 * nr + FIRST_TSS_ENTRY := tssldt_desc (page + TSS_OFFSET) 0x89,
     2 * nr + FIRST_LDT_ENTRY := tssldt_desc (page + LDT_OFFSET) 0x82)"
    unfolding c unfolding t p
    by (simp_all add: set_task_desc_def set_bases_def state_simps fds_of_def child_task_def Let_def)
  show "\<exists>fp. tsk (child_made nr t) nr = (child_task nr page r s)\<lparr>t_state := TASK_RUNNING, t_start_code := new_base nr,
     t_ldt := (t_ldt (cur s))(1 := set_base (new_base nr) (t_ldt (cur s) 1), 2 := set_base (new_base nr) (t_ldt (cur s) 2)),
     t_tss := (child_tss nr page r (t_tss (cur s)))\<lparr>i387 := fp\<rparr>\<rparr>"
    unfolding c unfolding t p
    by (rule exI [of _ "if last_task_used_math s = Some (current s) then fpu s else i387 (t_tss (cur s))"])
      (simp add: set_task_desc_def set_bases_def state_simps child_task_def child_tss_def Let_def)
qed

lemma fork_success:
  assumes inv: "mm_inv ext (mm s)" and dirs: "dir_index (data_base s) + dir_count (data_limit s) \<le> 1024"
    and i: "i < PAGING_PAGES" "mem_map (mm s) i = 0" and nr: "current s \<noteq> nr" and m: "mm_inv (add_ext i ext) m"
    and t: "t = (set_bases nr (prepared fpu_reset nr (page_addr i) r (s\<lparr>mm := alloc_page i (mm s)\<rparr>)))\<lparr>mm := m,
      user := (user s)(nr := user s (current s))\<rparr>"
    and c: "copied (pages_per_table (data_base s)) (dir_count (data_limit s)) (dir_index (data_base s)) (dir_index (new_base nr)) (alloc_page i (mm s)) m"
  shows "fork_result fpu_reset ext r nr s (last_pid (child_made nr t)) (child_made nr t)"
proof -
  let ?s = "s\<lparr>mm := alloc_page i (mm s)\<rparr>"
  have nr': "nr \<noteq> current ?s" using nr by simp
  note f = child_made_fields [OF nr' t]
  obtain fp where child: "tsk (child_made nr t) nr = (child_task nr (page_addr i) r ?s)\<lparr>t_state := TASK_RUNNING, t_start_code := new_base nr,
     t_ldt := (t_ldt (cur ?s))(1 := set_base (new_base nr) (t_ldt (cur ?s) 1), 2 := set_base (new_base nr) (t_ldt (cur ?s) 2)),
     t_tss := (child_tss nr (page_addr i) r (t_tss (cur ?s)))\<lparr>i387 := fp\<rparr>\<rparr>"
    using f(11) by blast
  have limit: "get_limit (set_base b d) = get_limit d" for b d
    by (simp add: get_limit_def granularity_kept raw_limit_set_base)
  have "child_of r nr s (child_made nr t)"
    unfolding child_of_def Let_def child unfolding f
    by (simp add: child_task_def child_tss_def cur_def get_set_base limit tssldt_desc_def FIRST_LDT_ENTRY_def Let_def)
  moreover have "others_kept nr s (child_made nr t)"
    unfolding others_kept_def using f(3,4,5) f(9) by simp
  moreover have "copied (pages_per_table (data_base s)) (dir_count (data_limit s)) (dir_index (data_base s)) (dir_index (new_base nr)) (mm s) m"
    by (rule copied_trans [OF c]) (use dirs alloc_page_same_dir [OF inv i] in auto)
  ultimately show ?thesis
    unfolding fork_result_def using f(1,2,4,6,7,8) i m by (auto simp: cur_def)
qed

lemma fork_failure:
  assumes i: "i < PAGING_PAGES" "mem_map (mm s) i = 0" and nr: "current s \<noteq> nr" "task s nr = 0" and m: "mm_inv (add_ext i ext) m"
    "high_memory m = high_memory (alloc_page i (mm s))"
    and t: "t = (set_bases nr (prepared fpu_reset nr (page_addr i) r (s\<lparr>mm := alloc_page i (mm s)\<rparr>)))\<lparr>mm := m\<rparr>"
    and below: "page_addr i < high_memory (mm s)"
  shows "total (free_page (page_addr i) (mm t)) (\<lambda>_ m. fork_result fpu_reset ext r nr s (- EAGAIN) (t\<lparr>task := (task t)(nr := 0), mm := m\<rparr>))"
proof -
  have p: "task t = (task s)(nr := page_addr i)" "mm t = m" "current t = current s" "user t = user s" "last_pid t = last_pid s"
    "file_table t = file_table s" "inode_table t = inode_table s" "j \<noteq> nr \<Longrightarrow> tsk t j = tsk s j" for j
    unfolding t using nr by (simp_all add: set_bases_def prepared_def save_fpu_def state_simps)
  show ?thesis unfolding p(2)
    by (rule total_mono [OF free_task_page [OF m(1) i(1)]])
      (use below m(2) nr p in \<open>auto simp: fork_result_def others_kept_def\<close>)
qed

lemma copy_process_total:
  assumes ready: "fork_ready ext nr s" and nr: "current s \<noteq> nr" "task s nr = 0"
  shows "total (copy_process fpu_reset nr r s) (fork_result fpu_reset ext r nr s)"
proof -
  have inv: "mm_inv ext (mm s)" using ready by (simp add: fork_ready_def)
  show ?thesis
  proof (cases rule: get_free_page_cases [of "mm s"])
    case none
    then show ?thesis using inv by (simp add: copy_process_def in_mm_def others_kept_def nr fork_result_def)
  next
    case (page i)
    let ?m = "alloc_page i (mm s)" let ?p = "prepared fpu_reset nr (page_addr i) r (s\<lparr>mm := ?m\<rparr>)"
    note inv1 = alloc_page_inv [OF inv page(2,3)]
    have p0: "page_addr i \<noteq> 0" using unat_page_addr [OF page(2)] by auto
    have p: "mm ?p = ?m" "current ?p = current s" "data_base ?p = data_base s" "data_limit ?p = data_limit s"
      "code_base ?p = code_base s" "code_limit ?p = code_limit s" "file_table ?p = file_table s" "inode_table ?p = inode_table s"
      "user ?p = user s" "last_pid ?p = last_pid s" "task ?p = (task s)(nr := page_addr i)" "gdt ?p = gdt s" "tsk ?p j = (if j = nr then tsk ?p nr else tsk s j)" for j
      using nr by (simp_all add: prepared_def save_fpu_def data_base_def data_limit_def code_base_def code_limit_def state_simps)
    have unfold: "copy_process fpu_reset nr r s = seq (copy_mem nr ?p) (\<lambda>err s.
          if tst err then
            seq (in_mm (free_page (page_addr i)) (s\<lparr>task := (task s)(nr := 0)\<rparr>)) (\<lambda>_ s. Ret (- EAGAIN) s)
          else let s = set_task_desc nr (share_all nr s)
               in Ret (last_pid s) (upd_task nr (t_state_update (\<lambda>_. TASK_RUNNING)) s))"
      using page(1) p0 by (simp add: copy_process_def in_mm_def prepared_def)
    have few: "\<forall>j<PAGING_PAGES. mem_map (mm ?p) j < 128" using ready p(1) by (simp add: fork_ready_def alloc_page_def)
    have req: "copy_request (data_base ?p) (new_base nr) (data_limit ?p) (mm ?p)"
      unfolding p(1,3,4) by (rule copy_request_alloc [OF inv page(2,3)]) (use ready [unfolded fork_ready_def, folded new_base_def] in blast)
    have seg: "data_base ?p = code_base ?p" "code_limit ?p \<le> data_limit ?p"
      using ready p(3-6) by (simp_all add: fork_ready_def)
    have dirs: "dir_index (data_base s) + dir_count (data_limit s) \<le> 1024"
      using ready [unfolded fork_ready_def copy_request_def] by blast
    have curp: "current ?p \<noteq> nr" using nr p(2) by simp
    have inv2: "mm_inv (add_ext i ext) (mm ?p)" using inv1 p(1) by simp
    show ?thesis
      unfolding unfold total_seq
    proof (rule total_mono [OF copy_mem_total [OF inv2 few curp seg req]], elim exE conjE disjE)
      fix v :: u32 and t m
      assume m: "mm_inv (add_ext i ext) m" "high_memory m = high_memory (mm ?p)" and v: "v = 0"
        and t: "t = (set_bases nr ?p)\<lparr>mm := m, user := (user ?p)(nr := user ?p (current ?p))\<rparr>"
        and c: "copied (pages_per_table (data_base ?p)) (dir_count (data_limit ?p)) (dir_index (data_base ?p)) (dir_index (new_base nr)) (mm ?p) m"
      show "total (if tst v then
            seq (in_mm (free_page (page_addr i)) (t\<lparr>task := (task t)(nr := 0)\<rparr>)) (\<lambda>_ s. Ret (- EAGAIN) s)
          else let s = set_task_desc nr (share_all nr t)
               in Ret (last_pid s) (upd_task nr (t_state_update (\<lambda>_. TASK_RUNNING)) s))
        (fork_result fpu_reset ext r nr s)"
        using fork_success [OF inv dirs page(2,3) nr(1) m(1) t [unfolded p(2,9)] c [unfolded p]] v
        by (simp add: child_made_def Let_def upd_task_def)
    next
      fix v :: u32 and t m
      assume m: "mm_inv (add_ext i ext) m" "high_memory m = high_memory (mm ?p)" and v: "v = - ENOMEM"
        and t: "t = (set_bases nr ?p)\<lparr>mm := m\<rparr>"
      show "total (if tst v then
            seq (in_mm (free_page (page_addr i)) (t\<lparr>task := (task t)(nr := 0)\<rparr>)) (\<lambda>_ s. Ret (- EAGAIN) s)
          else let s = set_task_desc nr (share_all nr t)
               in Ret (last_pid s) (upd_task nr (t_state_update (\<lambda>_. TASK_RUNNING)) s))
        (fork_result fpu_reset ext r nr s)"
        using fork_failure [OF page(2,3) nr m(1) m(2) [unfolded p] t] v inv page alloc_page_below [OF inv page(2,3)]
        by (auto simp: ENOMEM_def word_less_nat_alt elim!: total_mono)
    qed
  qed
qed

lemma free_slot:
  assumes "1 \<le> nr" "nr < NR_TASKS" "task s nr = 0" "\<forall>i. 1 \<le> i \<longrightarrow> i < nr \<longrightarrow> task s i \<noteq> 0"
  shows "(LEAST i. 1 \<le> i \<and> task s i = 0) = nr"
  by (rule Least_equality) (use assms in \<open>auto simp: not_le [symmetric]\<close>)

lemma sys_fork_copies:
  assumes pid: "0 \<le> sint (last_pid s)"
    and slot: "1 \<le> nr" "nr < NR_TASKS" "task s nr = 0" "\<forall>i. 1 \<le> i \<longrightarrow> i < nr \<longrightarrow> task s i \<noteq> 0"
  obtains p where "0 < sint p" "unused_pid p s" "sys_fork fpu_reset r s = copy_process fpu_reset nr r (s\<lparr>last_pid := p\<rparr>)"
proof -
  have ex: "\<exists>i. 1 \<le> i \<and> i < NR_TASKS \<and> task s i = 0" using slot by blast
  obtain k where k: "find_empty_process s = Ret (of_nat nr) (s\<lparr>last_pid := (next_pid ^^ Suc k) (last_pid s)\<rparr>)"
    "0 < sint ((next_pid ^^ Suc k) (last_pid s))" "unused_pid ((next_pid ^^ Suc k) (last_pid s)) s"
    using find_empty_process_spec [OF pid] ex free_slot [OF slot] unfolding Let_def by auto
  have "nr < 64" using slot(2) by (simp add: NR_TASKS_def)
  then have "sint (of_nat nr :: u32) = int nr" "unat (of_nat nr :: u32) = nr"
    by (simp_all add: sint_of_nat unsigned_of_nat take_bit_nat_eq_self)
  then have "sys_fork fpu_reset r s = copy_process fpu_reset nr r (s\<lparr>last_pid := (next_pid ^^ Suc k) (last_pid s)\<rparr>)"
    unfolding sys_fork_def k(1) by (simp add: slt_def)
  then show thesis using that k(2,3) by blast
qed

lemma sys_fork_spec:
  assumes "0 \<le> sint (last_pid s)" "task s (current s) \<noteq> 0"
    and "1 \<le> nr" "nr < NR_TASKS" "task s nr = 0" "\<forall>i. 1 \<le> i \<longrightarrow> i < nr \<longrightarrow> task s i \<noteq> 0"
    and ready: "fork_ready ext nr s"
  shows "total (sys_fork fpu_reset r s) (\<lambda>v t. \<exists>pid. 0 < sint pid \<and> unused_pid pid s \<and>
    fork_result fpu_reset ext r nr (s\<lparr>last_pid := pid\<rparr>) v t)"
proof -
  obtain p where p: "0 < sint p" "unused_pid p s"
    and f: "sys_fork fpu_reset r s = copy_process fpu_reset nr r (s\<lparr>last_pid := p\<rparr>)"
    by (rule sys_fork_copies [OF assms(1,3-6)])
  have same: "fork_ready ext nr (s\<lparr>last_pid := p\<rparr>) = fork_ready ext nr s"
    by (simp add: fork_ready_def data_base_def code_base_def data_limit_def code_limit_def cur_def)
  have "fork_ready ext nr (s\<lparr>last_pid := p\<rparr>)"
    unfolding same by (rule ready)
  then have "total (sys_fork fpu_reset r s) (fork_result fpu_reset ext r nr (s\<lparr>last_pid := p\<rparr>))"
    unfolding f by (rule copy_process_total) (use assms(2,5) in auto)
  then show ?thesis by (rule total_mono) (use p in blast)
qed

text \<open>
  C9. \<open>fork\<close>: in a consistent memory state, with a free slot and an empty address range for it,
  \<open>sys_fork\<close> returns without panicking. If it succeeds it returns an unused positive process
  number, and in the free slot is a runnable child with this number that has the caller's
  identity, signal handlers, files, directories and segments' sizes, that returns 0 from the
  same place, whose segments, descriptors and kernel stack are its own and whose memory is a
  copy-on-write copy of the caller's; every open file is counted once more for each descriptor.
  If memory runs out it returns \<open>-EAGAIN\<close>, the slot is free again and no page is lost. No other
  task changes.
\<close>

theorem fork_makes_child:
  assumes "0 \<le> sint (last_pid s)" and "task s (current s) \<noteq> 0"
    and "1 \<le> nr" and "nr < NR_TASKS" and "task s nr = 0" and "\<forall>i. 1 \<le> i \<longrightarrow> i < nr \<longrightarrow> task s i \<noteq> 0"
    and "fork_ready ext nr s"
  shows "total (sys_fork fpu_reset r s) (\<lambda>v t. \<exists>pid. 0 < sint pid \<and> unused_pid pid s \<and>
    fork_result fpu_reset ext r nr (s\<lparr>last_pid := pid\<rparr>) v t)"
  by (rule sys_fork_spec [OF assms])

text \<open>A process of one page in slot 1, as in the properties of the page tables.\<close>

definition parent :: kstate where
  "parent = (undefined :: kstate)\<lparr>mm := user_mm, current := 1, last_pid := 1, last_task_used_math := Some 1,
     task := (\<lambda>i. if i < 2 then 0x1000 else 0),
     tsk := (\<lambda>_. (undefined :: task_struct)\<lparr>t_pid := 1,
       t_ldt := (\<lambda>_. set_limit 0x400000 (set_base 0x4000000 0x00c0fa000000009f))\<rparr>)\<rparr>"

lemma get_set_limit: "n AND 0xfff = 0 \<Longrightarrow> bit d 55 \<Longrightarrow> get_limit (set_limit n d) = n"
  by (simp add: get_limit_def granularity_kept raw_limit_set_limit page_minus_one)

lemma parent_ready: "fork_ready (reserved 768 3840) 2 parent"
proof -
  have d: "data_base parent = 0x4000000" "code_base parent = 0x4000000"
    "data_limit parent = 0x400000" "code_limit parent = 0x400000"
    using get_set_limit [where n = "0x400000" and d = "set_base 0x4000000 0x00c0fa000000009f"]
    by (simp_all add: data_base_def code_base_def data_limit_def code_limit_def parent_def cur_def get_base_set_limit
        get_set_base granularity_kept)
  have m: "mm parent = user_mm" by (simp add: parent_def)
  show ?thesis using user_mm(1) user_few user_request unfolding fork_ready_def d m by simp
qed

lemma parent_slot: "0 \<le> sint (last_pid parent)" "task parent (current parent) \<noteq> 0" "1 \<le> (2 :: nat)" "2 < NR_TASKS"
    "task parent 2 = 0" "\<forall>i. 1 \<le> i \<longrightarrow> i < 2 \<longrightarrow> task parent i \<noteq> 0"
  by (simp_all add: parent_def NR_TASKS_def)

theorem fork_makes_child_witness:
  "\<forall>r. total (sys_fork (\<lambda>_. 0) r parent) (\<lambda>v t. \<exists>pid. 0 < sint pid \<and> unused_pid pid parent \<and>
    fork_result (\<lambda>_. 0) (reserved 768 3840) r 2 (parent\<lparr>last_pid := pid\<rparr>) v t)"
  by (intro allI) (rule fork_makes_child [OF parent_slot parent_ready])

text \<open>
  C37. A process that uses the coprocessor loses its contents by calling \<open>fork\<close>: \<open>fnsave\<close> stores
  them for the child and leaves the coprocessor reset, and since the parent is still the last
  task that used it, \<open>math_state_restore\<close> does not load anything either.
\<close>

theorem fork_resets_coprocessor:
  assumes "0 \<le> sint (last_pid s)" and "task s (current s) \<noteq> 0"
    and "1 \<le> nr" and "nr < NR_TASKS" and "task s nr = 0" and "\<forall>i. 1 \<le> i \<longrightarrow> i < nr \<longrightarrow> task s i \<noteq> 0"
    and "fork_ready ext nr s" and "last_task_used_math s = Some (current s)"
  shows "total (sys_fork fpu_reset r s) (\<lambda>v t. v = - EAGAIN \<or>
    fpu t = fpu_reset \<and> current t = current s \<and> math_state_restore fpu_reset t = t)"
  by (rule total_mono [OF sys_fork_spec [OF assms(1-7)]])
    (use assms(8) in \<open>auto simp: fork_result_def others_kept_def math_state_restore_def\<close>)

theorem fork_resets_coprocessor_witness:
  "\<forall>r. total (sys_fork (\<lambda>_. 0) r parent) (\<lambda>v t. v = - EAGAIN \<or>
    fpu t = (\<lambda>_. 0) \<and> current t = current parent \<and> math_state_restore (\<lambda>_. 0) t = t)"
  by (intro allI, rule fork_resets_coprocessor [OF parent_slot parent_ready]) (simp add: parent_def)

end
