(* ===== verification/Mild.thy ===== *)
theory Mild
  imports FrameCalls ForkProps
begin

text \<open>
  A wider frame than that of \<open>Frame\<close>, for the calls that change their task, but neither
  identities nor open files: \<open>mild s t\<close>. The invariants over all system calls are stated once for relations that are
  closed under it.
\<close>

section \<open>The wider frame\<close>

definition ids :: "task_struct \<Rightarrow> u16 \<times> u16 \<times> u16 \<times> u16 \<times> u16 \<times> u16" where
  "ids p = (t_uid p, t_euid p, t_suid p, t_gid p, t_egid p, t_sgid p)"

definition mild :: "kstate \<Rightarrow> kstate \<Rightarrow> bool" where
  "mild s t \<longleftrightarrow> current t = current s \<and> task t = task s \<and>
     (\<forall>i. ids (tsk t i) = ids (tsk s i) \<and> t_filp (tsk t i) = t_filp (tsk s i) \<and>
        (t_state (tsk t i) = TASK_ZOMBIE \<longrightarrow> t_state (tsk s i) = TASK_ZOMBIE)) \<and>
     (\<forall>f. f_count (file_table t f) = f_count (file_table s f))"

named_theorems mildly

lemma ids_proc: "proc p = proc q \<Longrightarrow> ids p = ids q"
  by (drule arg_cong [where f = ids]) (simp add: ids_def proc_def)

lemma filp_proc: "proc p = proc q \<Longrightarrow> t_filp p = t_filp q"
  by (drule arg_cong [where f = t_filp]) (simp add: proc_def)

lemma mild_refl [simp]: "mild s s"
  by (simp add: mild_def)

lemma mild_trans: "mild s t \<Longrightarrow> mild t u \<Longrightarrow> mild s u"
  by (simp add: mild_def)

lemma framed_mild: "framed s t \<Longrightarrow> mild s t"
  by (simp add: framed_def mild_def ids_proc [of "tsk t i" "tsk s i" for i] filp_proc [of "tsk t i" "tsk s i" for i])

lemma mild_framed: "mild s t \<Longrightarrow> framed t u \<Longrightarrow> mild s u"
  by (blast intro: mild_trans framed_mild)

lemma frames_mild: "frames s m \<Longrightarrow> kept mild s m"
  by (cases m) (simp_all add: framed_mild)

lemma mild_same:
  assumes "mild s t" and "current u = current t" and "task u = task t" and "\<And>f. f_count (file_table u f) = f_count (file_table t f)"
    and "\<And>i. ids (tsk u i) = ids (tsk t i)" and "\<And>i. t_filp (tsk u i) = t_filp (tsk t i)" and "\<And>i. t_state (tsk u i) = TASK_ZOMBIE \<Longrightarrow> t_state (tsk t i) = TASK_ZOMBIE"
  shows "mild s u"
  using assms by (auto simp: mild_def)

lemma mild_upd:
  assumes "\<And>p. ids (f p) = ids p \<and> t_filp (f p) = t_filp p \<and> (t_state (f p) = TASK_ZOMBIE \<longrightarrow> t_state p = TASK_ZOMBIE)" and "mild s t"
  shows "mild s (upd_task i f t)" "mild s (upd_cur f t)"
  using assms by (auto simp: state_simps mild_def)

lemma mild_fields [mildly]:
  assumes "mild s t"
  shows "mild s (t\<lparr>last_task_used_math := a2\<rparr>)" "mild s (t\<lparr>user := a3\<rparr>)"
    "mild s (upd_inode f g' t)" "mild s (upd_tty f g'' t)"
    "mild s (upd_super f h t)" "mild s (t\<lparr>fpu := a4\<rparr>)" "mild s (t\<lparr>gdt := a5\<rparr>)"
    "mild s (t\<lparr>last_pid := a6\<rparr>)" "mild s (t\<lparr>mm := a7\<rparr>)" "mild s (t\<lparr>beepcount := a8\<rparr>)"
  by (rule mild_same [OF assms]; simp add: state_simps)+

lemma mild_if [mildly]: "(b \<Longrightarrow> mild s t) \<Longrightarrow> (\<not> b \<Longrightarrow> mild s u) \<Longrightarrow> mild s (if b then t else u)"
  by simp

lemma mild_option [mildly]: "mild s t \<Longrightarrow> (\<And>x. mild s (f x)) \<Longrightarrow> mild s (case v of None \<Rightarrow> t | Some x \<Rightarrow> f x)"
  by (cases v) simp_all

lemma mild_let_state [mildly]: "mild s t \<Longrightarrow> (\<And>u. mild s u \<Longrightarrow> mild s (f u)) \<Longrightarrow> mild s (Let t f)"
  by simp

lemma mild_let_value: "(\<And>x. mild s (f x)) \<Longrightarrow> mild s (Let v f)"
  by simp

lemmas mild_values = kept_let_value mild_let_value

text \<open>A relation that allows whatever is mild; the current task is the same throughout.\<close>

locale mild_relation =
  fixes R :: "kstate \<Rightarrow> kstate \<Rightarrow> bool"
  assumes same_current: "R s t \<Longrightarrow> current t = current s"
    and mild_closed: "R s t \<Longrightarrow> mild t u \<Longrightarrow> R s u"
begin

lemma kept_mild_run: "kept mild t m \<Longrightarrow> R s t \<Longrightarrow> kept R s m"
  by (cases m) (auto simp: same_current intro: mild_closed)

lemma kept_frame_run: "frames t m \<Longrightarrow> R s t \<Longrightarrow> kept R s m"
  by (blast intro: kept_mild_run frames_mild)

lemma closed_framed: "framed t u \<Longrightarrow> R s t \<Longrightarrow> R s u"
  by (blast intro: mild_closed framed_mild)

lemma closed_mild: "mild t u \<Longrightarrow> R s t \<Longrightarrow> R s u"
  by (rule mild_closed)

end

interpretation mild_itself: mild_relation mild
  by unfold_locales (auto simp: mild_def)

lemmas kept_mild = mild_itself.kept_frame_run

section \<open>Open files and directories\<close>

lemma open_tty_mild [mildly]: "mild s t \<Longrightarrow> kept mild s (open_tty x1 t)"
  unfolding open_tty_def
  by (assumption | rule mildly keeps mild_values | rule mild_upd, (simp add: ids_def; fail)
      | (rule kept_mild, rule keeps, (rule framed_refl | (rule is_queue_simps, rule framed_refl))))+

lemma close_on_exec_mild [mildly]: "mild s t \<Longrightarrow> mild s (close_on_exec x1 x2 t)"
  unfolding close_on_exec_def
  by (assumption | rule mildly keeps mild_values | rule mild_upd, (simp add: ids_def; fail)
      | (rule kept_mild, rule keeps, (rule framed_refl | (rule is_queue_simps, rule framed_refl))))+

lemma with_namei_mild [mildly]:
  "mild s t \<Longrightarrow> (\<And>i u. mild s u \<Longrightarrow> kept mild s (k i u)) \<Longrightarrow> kept mild s (with_namei er f k t)"
  unfolding with_namei_def
  by (assumption | rule mildly keeps mild_values | rule mild_upd, (simp add: ids_def; fail)
      | (rule kept_mild, rule keeps, (rule framed_refl | (rule is_queue_simps, rule framed_refl))))+

lemma sys_chdir_mild [mildly]: "mild s t \<Longrightarrow> kept mild s (sys_chdir x1 t)"
  unfolding sys_chdir_def
  by (assumption | rule mildly keeps mild_values | rule mild_upd, (simp add: ids_def; fail)
      | (rule kept_mild, rule keeps, (rule framed_refl | (rule is_queue_simps, rule framed_refl))))+

lemma sys_chroot_mild [mildly]: "mild s t \<Longrightarrow> kept mild s (sys_chroot x1 t)"
  unfolding sys_chroot_def
  by (assumption | rule mildly keeps mild_values | rule mild_upd, (simp add: ids_def; fail)
      | (rule kept_mild, rule keeps, (rule framed_refl | (rule is_queue_simps, rule framed_refl))))+

lemma put_pair_mild [mildly]: "mild s t \<Longrightarrow> mild s (put_fs_long v a t)" "mild s t \<Longrightarrow> mild s (put_fs_bytes n d a t)"
  by (blast intro: mild_framed framed_put_fs framed_put_fs_bytes framed_refl)+

section \<open>Signals and the ends of processes\<close>

lemma raise_mild [mildly]: "mild s t \<Longrightarrow> mild s (raise x1 x2 t)"
  unfolding raise_def
  by (assumption | rule mildly keeps mild_values | rule mild_upd, (simp add: ids_def; fail)
      | (rule kept_mild, rule keeps, (rule framed_refl | (rule is_queue_simps, rule framed_refl))))+

lemma send_sig_mild [mildly]: "mild s t \<Longrightarrow> mild s (snd (send_sig x1 x2 x3 t))"
  by (simp add: send_sig_def raise_mild)

lemma orphan_mild [mildly]: "mild s t \<Longrightarrow> mild s (orphan x1 t)"
  unfolding orphan_def
  by (assumption | rule mildly keeps mild_values | rule mild_upd, (simp add: ids_def; fail)
      | (rule kept_mild, rule keeps, (rule framed_refl | (rule is_queue_simps, rule framed_refl))))+

lemma kill_session_mild [mildly]: "mild s t \<Longrightarrow> mild s (kill_session n t)"
  by (induction n arbitrary: t) (simp_all add: raise_mild)

lemma kill_loop_mild: "mild s t \<Longrightarrow> mild s (snd (kill_loop n m sig priv v t))"
proof (induction n arbitrary: v t)
  case (Suc n)
  show ?case using Suc.IH send_sig_mild [OF Suc.prems, of sig "Suc n" priv] Suc.prems
    by (simp add: split_beta)
qed simp

lemma sys_kill_mild [mildly]: "mild s t \<Longrightarrow> mild s (snd (sys_kill x1 x2 t))"
  by (simp add: sys_kill_def Let_def kill_loop_mild)

lemma fold_mild: "(\<And>x u. mild s u \<Longrightarrow> mild s (f x u)) \<Longrightarrow> mild s t \<Longrightarrow> mild s (fold f xs t)"
  by (induction xs arbitrary: t) simp_all

lemma fold_orphan_mild [mildly]: "mild s t \<Longrightarrow> mild s (fold orphan xs t)"
  by (rule fold_mild) (rule mildly)

lemma put_inodes_mild [mildly]: "mild s t \<Longrightarrow> kept mild s (put_inodes t)"
  unfolding put_inodes_def
  by (assumption | rule mildly keeps mild_values | rule mild_upd, (simp add: ids_def; fail)
      | (rule kept_mild, rule keeps, (rule framed_refl | (rule is_queue_simps, rule framed_refl))))+

lemma leave_session_mild [mildly]: "mild s t \<Longrightarrow> kept mild s (leave_session t)"
  unfolding leave_session_def
  by (assumption | rule mildly keeps mild_values | rule mild_upd, (simp add: ids_def; fail)
      | (rule kept_mild, rule keeps, (rule framed_refl | (rule is_queue_simps, rule framed_refl))))+

section \<open>New processes\<close>

lemma new_pid_only: "new_pid s = Some t \<Longrightarrow> \<exists>n. t = s\<lparr>last_pid := n\<rparr>"
proof (rule new_pid.raw_induct [where P = "\<lambda>s t. \<exists>n. t = s\<lparr>last_pid := n\<rparr>"])
  fix rec s t
  assume "\<And>s t. rec s = Some t \<Longrightarrow> \<exists>n. t = s\<lparr>last_pid := n\<rparr>"
    and "(let s = s\<lparr>last_pid := next_pid (last_pid s)\<rparr> in if pid_used [0..<NR_TASKS] s then rec s else Some s) = Some t"
  then show "\<exists>n. t = s\<lparr>last_pid := n\<rparr>" by (fastforce simp: Let_def split: if_splits)
qed

lemma find_empty_process_mild [mildly]: "mild s t \<Longrightarrow> kept mild s (find_empty_process t)"
  by (auto simp: find_empty_process_def split: option.split dest!: new_pid_only intro: mild_fields)

lemma copy_mem_mild [mildly]: "mild s t \<Longrightarrow> kept mild s (copy_mem x1 t)"
  unfolding copy_mem_def
  by (assumption | rule mildly keeps mild_values | rule mild_upd, (simp add: ids_def; fail)
      | (rule kept_mild, rule keeps, (rule framed_refl | (rule is_queue_simps, rule framed_refl))))+

lemma save_fpu_mild [mildly]: "mild s t \<Longrightarrow> mild s (save_fpu x1 x2 t)"
  unfolding save_fpu_def
  by (assumption | rule mildly keeps mild_values | rule mild_upd, (simp add: ids_def; fail)
      | (rule kept_mild, rule keeps, (rule framed_refl | (rule is_queue_simps, rule framed_refl))))+

lemma set_task_desc_mild [mildly]: "mild s t \<Longrightarrow> mild s (set_task_desc nr t)"
  by (simp add: set_task_desc_def mild_fields)

section \<open>Disks, signals and the clock\<close>

lemma wait_for_keypress_frames [keeps]: "framed s t \<Longrightarrow> frames s (wait_for_keypress t)"
  unfolding wait_for_keypress_def by (rule keeps)

lemma disk_tables_mild [mildly]:
  "mild s t \<Longrightarrow> mild s (upd_hd g t)" "mild s t \<Longrightarrow> mild s (whole_drive i t)"
  "mild s t \<Longrightarrow> mild s (set_partition i a n t)"
  by (blast intro: mild_framed upd_hd_framed whole_drive_framed set_partition_framed framed_refl)+

lemma set_action_mild [mildly]: "mild s t \<Longrightarrow> mild s (set_action x1 x2 t)"
  unfolding set_action_def
  by (assumption | rule mildly keeps mild_values | rule mild_upd, (simp add: ids_def; fail)
      | (rule kept_mild, rule keeps, (rule framed_refl | (rule is_queue_simps, rule framed_refl))))+

lemma push_longs_mild [mildly]: "mild s t \<Longrightarrow> mild s (push_longs vs a t)"
  by (induction vs arbitrary: a t) (simp_all add: put_pair_mild)

lemma save_old_mild [mildly]: "mild s t \<Longrightarrow> kept mild s (save_old x1 x2 t)"
  unfolding save_old_def
  by (assumption | rule mildly keeps mild_values | rule mild_upd, (simp add: ids_def; fail)
      | (rule kept_mild, rule keeps, (rule framed_refl | (rule is_queue_simps, rule framed_refl))))+

lemma sys_sigaction_mild [mildly]: "mild s t \<Longrightarrow> kept mild s (sys_sigaction x1 x2 x3 t)"
  unfolding sys_sigaction_def
  by (assumption | rule mildly keeps mild_values | rule mild_upd, (simp add: ids_def; fail)
      | (rule kept_mild, rule keeps, (rule framed_refl | (rule is_queue_simps, rule framed_refl))))+

lemma floppy_timers_framed [keeps]: "framed s t \<Longrightarrow> framed s (floppy_timers xs t)"
  by (induction xs arbitrary: t) (simp_all add: Let_def upd_floppy_framed framed_wake_up)

lemma do_floppy_timer_mild [mildly]: "mild s t \<Longrightarrow> mild s (do_floppy_timer t)"
  unfolding do_floppy_timer_def by (rule mild_framed [OF _ floppy_timers_framed [OF framed_refl]])

lemma in_timers_frames [keeps]: "framed s t \<Longrightarrow> frames s (in_timers f t)"
  by (cases "f (timers t)") (simp_all add: in_timers_def framed_def)

lemma do_timer_mild [mildly]: "mild s t \<Longrightarrow> kept mild s (do_timer x1 t)"
  unfolding do_timer_def
  by (assumption | rule mildly keeps mild_values | rule mild_upd, (simp add: ids_def; fail)
      | (rule kept_mild, rule keeps, (rule framed_refl | (rule is_queue_simps, rule framed_refl))))+

lemma sys_pause_mild [mildly]: "mild s t \<Longrightarrow> kept mild s (sys_pause t)"
  unfolding sys_pause_def
  by (assumption | rule mildly keeps mild_values | rule mild_upd, (simp add: ids_def; fail)
      | (rule kept_mild, rule keeps, (rule framed_refl | (rule is_queue_simps, rule framed_refl))))+

lemma reschedule_mild [mildly]: "mild s t \<Longrightarrow> kept mild s (reschedule t)"
  unfolding reschedule_def
  by (assumption | rule mildly keeps mild_values | rule mild_upd, (simp add: ids_def; fail)
      | (rule kept_mild, rule keeps, (rule framed_refl | (rule is_queue_simps, rule framed_refl))))+

section \<open>Calls that only change the state\<close>

lemma sys_alarm_mild [mildly]: "mild s t \<Longrightarrow> mild s (snd (sys_alarm x1 t))"
  unfolding sys_alarm_def Let_def
  by (simp add: split_beta mildly mild_upd ids_def mild_fields split: option.split)

lemma sys_nice_mild [mildly]: "mild s t \<Longrightarrow> mild s (snd (sys_nice x1 t))"
  unfolding sys_nice_def Let_def
  by (simp add: split_beta mildly mild_upd ids_def mild_fields split: option.split)

lemma sys_brk_mild [mildly]: "mild s t \<Longrightarrow> mild s (snd (sys_brk x1 t))"
  unfolding sys_brk_def Let_def
  by (simp add: split_beta mildly mild_upd ids_def mild_fields split: option.split)

lemma startup_time_mild [mildly]: "mild s t \<Longrightarrow> mild s (t\<lparr>startup_time := v\<rparr>)"
  by (rule mild_same) simp_all

lemma sys_signal_mild [mildly]: "mild s t \<Longrightarrow> mild s (snd (sys_signal x1 x2 x3 t))"
  unfolding sys_signal_def Let_def
  by (simp add: split_beta mildly mild_upd ids_def mild_fields split: option.split)

lemma sys_setpgid_mild [mildly]: "mild s t \<Longrightarrow> mild s (snd (sys_setpgid x1 x2 t))"
  unfolding sys_setpgid_def Let_def
  by (simp add: split_beta mildly mild_upd ids_def mild_fields split: option.split)

lemma sys_setsid_mild [mildly]: "mild s t \<Longrightarrow> mild s (snd (sys_setsid t))"
  unfolding sys_setsid_def Let_def
  by (simp add: split_beta mildly mild_upd ids_def mild_fields split: option.split)

lemma sys_umask_mild [mildly]: "mild s t \<Longrightarrow> mild s (snd (sys_umask x1 t))"
  unfolding sys_umask_def Let_def
  by (simp add: split_beta mildly mild_upd ids_def mild_fields split: option.split)

lemma sys_ssetmask_mild [mildly]: "mild s t \<Longrightarrow> mild s (snd (sys_ssetmask x1 t))"
  unfolding sys_ssetmask_def Let_def
  by (simp add: split_beta mildly mild_upd ids_def mild_fields split: option.split)

lemma sys_stime_mild [mildly]: "mild s t \<Longrightarrow> mild s (snd (sys_stime x1 t))"
  unfolding sys_stime_def Let_def
  by (simp add: split_beta mildly mild_upd ids_def mild_fields split: option.split)

section \<open>\<open>execve\<close>\<close>

lemma namei_kernel_mild [mildly]: "mild s t \<Longrightarrow> kept mild s (in_kernel_fs k (namei a) t)"
proof -
  assume t: "mild s t"
  define u where "u = t\<lparr>user := (user t)(current t := k)\<rparr>"
  have "mild s u" unfolding u_def by (rule mild_fields [OF t])
  then have "kept mild s (namei a u)" by (rule kept_mild [OF namei_frames [OF framed_refl]])
  then show ?thesis
    unfolding in_kernel_fs_def Let_def u_def [symmetric]
    by (cases "namei a u") (auto intro: mild_same)
qed

lemma copy_bytes_mild [mildly]: "mild s t \<Longrightarrow> kept mild s (copy_bytes n x1 x2 x3 x4 t)"
proof (induction n arbitrary: x2 x3 x4 t)
  case (Suc n)
  show ?case unfolding copy_bytes.simps next_page_def
    by (assumption | rule Suc.prems Suc.IH | rule mildly keeps mild_values
      | (rule kept_mild, rule keeps, rule framed_refl))+
qed simp

lemma copy_args_mild [mildly]: "mild s t \<Longrightarrow> kept mild s (copy_args n x1 x2 x3 x4 t)"
proof (induction n arbitrary: x3 x4 t)
  case (Suc n)
  show ?case unfolding copy_args.simps
    by (assumption | rule Suc.prems Suc.IH | rule mildly keeps mild_values)+
qed simp

lemma copy_strings_mild [mildly]: "mild s t \<Longrightarrow> kept mild s (copy_strings x1 x2 x3 x4 t)"
  unfolding copy_strings_def
  by (assumption | rule mildly keeps mild_values | rule mild_upd, (simp add: ids_def; fail)
      | (rule kept_mild, rule keeps, (rule framed_refl | (rule is_queue_simps, rule framed_refl))))+

lemma copy_kernel_string_mild [mildly]: "mild s t \<Longrightarrow> kept mild s (copy_kernel_string x1 x2 t)"
  unfolding copy_kernel_string_def
  by (assumption | rule mildly keeps mild_values | rule mild_upd, (simp add: ids_def; fail)
      | (rule kept_mild, rule keeps, (rule framed_refl | (rule is_queue_simps, rule framed_refl))))+

lemma copy_user_strings_mild [mildly]: "mild s t \<Longrightarrow> kept mild s (copy_user_strings x1 x2 x3 t)"
  unfolding copy_user_strings_def
  by (assumption | rule mildly keeps mild_values | rule mild_upd, (simp add: ids_def; fail)
      | (rule kept_mild, rule keeps, (rule framed_refl | (rule is_queue_simps, rule framed_refl))))+

lemma copy_file_name_mild [mildly]: "mild s t \<Longrightarrow> kept mild s (copy_file_name x1 x2 t)"
  unfolding copy_file_name_def
  by (assumption | rule mildly keeps mild_values | rule mild_upd, (simp add: ids_def; fail)
      | (rule kept_mild, rule keeps, (rule framed_refl | (rule is_queue_simps, rule framed_refl))))+

lemma copy_both_mild [mildly]: "mild s t \<Longrightarrow> kept mild s (copy_both x1 x2 x3 x4 x5 t)"
  unfolding copy_both_def
  by (assumption | rule mildly keeps mild_values | rule mild_upd, (simp add: ids_def; fail)
      | (rule kept_mild, rule keeps, (rule framed_refl | (rule is_queue_simps, rule framed_refl))))+

lemma copy_script_mild [mildly]: "mild s t \<Longrightarrow> kept mild s (copy_script x1 x2 x3 x4 x5 x6 x7 x8 t)"
  unfolding copy_script_def
  by (assumption | rule mildly keeps mild_values | rule mild_upd, (simp add: ids_def; fail)
      | (rule kept_mild, rule keeps, (rule framed_refl | (rule is_queue_simps, rule framed_refl))))+

lemma map_page_mild [mildly]: "mild s t \<Longrightarrow> mild s (map_page x1 x2 t)"
  unfolding map_page_def
  by (assumption | rule mildly keeps mild_values | rule mild_upd, (simp add: ids_def; fail)
      | (rule kept_mild, rule keeps, (rule framed_refl | (rule is_queue_simps, rule framed_refl))))+

lemma put_arg_page_mild [mildly]: "mild s t \<Longrightarrow> kept mild s (put_arg_page x1 x2 t)"
  unfolding put_arg_page_def
  by (assumption | rule mildly keeps mild_values | rule mild_upd, (simp add: ids_def; fail)
      | (rule kept_mild, rule keeps, (rule framed_refl | (rule is_queue_simps, rule framed_refl))))+

lemma change_ldt_mild [mildly]: "mild s t \<Longrightarrow> kept mild s (change_ldt x1 x2 x3 t)"
  unfolding change_ldt_def
  by (assumption | rule mildly keeps mild_values | rule mild_upd, (simp add: ids_def; fail)
      | (rule kept_mild, rule keeps, (rule framed_refl | (rule is_queue_simps, rule framed_refl))))+

lemma put_pointers_mild [mildly]: "mild s t \<Longrightarrow> kept mild s (put_pointers n x1 x2 t)"
proof (induction n arbitrary: x1 x2 t)
  case (Suc n)
  show ?case unfolding put_pointers.simps
    by (assumption | rule Suc.prems Suc.IH | rule mildly keeps mild_values)+
qed (simp add: mildly)

lemma create_tables_mild [mildly]: "mild s t \<Longrightarrow> kept mild s (create_tables x1 x2 x3 t)"
  unfolding create_tables_def
  by (assumption | rule mildly keeps mild_values | rule mild_upd, (simp add: ids_def; fail)
      | (rule kept_mild, rule keeps, (rule framed_refl | (rule is_queue_simps, rule framed_refl))))+

lemma exec_error1_mild [mildly]: "mild s t \<Longrightarrow> kept mild s (exec_error1 x1 x2 x3 t)"
  unfolding exec_error1_def
  by (assumption | rule mildly keeps mild_values | rule mild_upd, (simp add: ids_def; fail)
      | (rule kept_mild, rule keeps, (rule framed_refl | (rule is_queue_simps, rule framed_refl))))+

lemma exec_error2_mild [mildly]: "mild s t \<Longrightarrow> kept mild s (exec_error2 x1 x2 x3 x4 t)"
  unfolding exec_error2_def
  by (assumption | rule mildly keeps mild_values | rule mild_upd, (simp add: ids_def; fail)
      | (rule kept_mild, rule keeps, (rule framed_refl | (rule is_queue_simps, rule framed_refl))))+

lemma replace_executable_mild [mildly]: "mild s t \<Longrightarrow> kept mild s (replace_executable x1 t)"
  unfolding replace_executable_def
  by (assumption | rule mildly keeps mild_values | rule mild_upd, (simp add: ids_def; fail)
      | (rule kept_mild, rule keeps, (rule framed_refl | (rule is_queue_simps, rule framed_refl))))+

lemma free_old_memory_mild [mildly]: "mild s t \<Longrightarrow> kept mild s (free_old_memory t)"
  unfolding free_old_memory_def
  by (assumption | rule mildly keeps mild_values | rule mild_upd, (simp add: ids_def; fail)
      | (rule kept_mild, rule keeps, (rule framed_refl | (rule is_queue_simps, rule framed_refl))))+

end
