(* ===== verification/TrapProps.thy ===== *)
theory TrapProps
  imports Traps Mild
begin

text \<open>
  What traps and interrupts leave alone: the frames of page faults, disk, terminal and coprocessor
  interrupts.
\<close>

section \<open>Page faults\<close>

lemma start_reads_frames [keeps]: "framed s t \<Longrightarrow> frames s (start_reads x1 bs t)"
proof (induction bs arbitrary: t)
  case (Cons b bs)
  show ?case unfolding start_reads.simps by (assumption | rule Cons.prems Cons.IH keeps let_values)+
qed simp

lemma finish_reads_frames [keeps]: "framed s t \<Longrightarrow> frames s (finish_reads x1 rs t)"
proof (induction rs arbitrary: x1 t)
  case (Cons r rs)
  show ?case unfolding finish_reads.simps by (assumption | rule Cons.prems Cons.IH keeps let_values)+
qed simp

lemma bread_page_frames [keeps]: "framed s t \<Longrightarrow> frames s (bread_page x1 x2 x3 t)"
  unfolding bread_page_def by (assumption | rule keeps let_values)+

lemma share_loop_frames [keeps]: "framed s t \<Longrightarrow> frames s (share_loop n x1 t)"
proof (induction n arbitrary: t)
  case (Suc n)
  show ?case unfolding share_loop.simps by (assumption | rule Suc.prems Suc.IH keeps let_values)+
qed simp

lemma share_page_frames [keeps]: "framed s t \<Longrightarrow> frames s (share_page x1 t)"
  unfolding share_page_def by (assumption | rule keeps let_values)+

lemma map_blocks_frames [keeps]: "framed s t \<Longrightarrow> frames s (map_blocks x1 bs t)"
proof (induction bs arbitrary: t)
  case (Cons b bs)
  show ?case unfolding map_blocks.simps by (assumption | rule Cons.prems Cons.IH keeps let_values)+
qed simp

lemma load_page_frames [keeps]: "framed s t \<Longrightarrow> frames s (load_page x1 x2 x3 t)"
  unfolding load_page_def by (assumption | rule keeps let_values)+

lemma do_no_page_frames [keeps]: "framed s t \<Longrightarrow> frames s (do_no_page x1 x2 t)"
  unfolding do_no_page_def by (assumption | rule let_values | rule keeps)+

lemma page_fault_frames [keeps]: "framed s t \<Longrightarrow> frames s (page_fault x1 x2 t)"
  unfolding page_fault_def by (assumption | rule keeps let_values)+

section \<open>The hard disk\<close>

lemma read_words_frames [keeps]: "framed s t \<Longrightarrow> framed s (read_words n b k t)"
  by (induction n arbitrary: k t) (simp_all add: in_port_def framed_fields framed_updates)

lemma port_read_frames [keeps]: "framed s t \<Longrightarrow> frames s (port_read x1 x2 t)"
  unfolding port_read_def by (assumption | rule keeps let_values)+

lemma win_result_frames:
  "framed s t \<Longrightarrow> (\<And>a u. framed s u \<Longrightarrow> frames s (f a u)) \<Longrightarrow> frames s (case win_result t of (a, u) \<Rightarrow> f a u)"
  by (auto simp: win_result_def inb_def in_port_def framed_def split: prod.split)

lemma hd_handlers_frames [keeps]:
  assumes "framed s t"
  shows "frames s (read_intr t)" "frames s (write_intr t)" "frames s (recal_intr t)"
  unfolding read_intr_def write_intr_def recal_intr_def
  by (assumption | rule win_result_frames assms keeps let_values)+

lemma hd_interrupt_frames [keeps]: "framed s t \<Longrightarrow> frames s (hd_interrupt t)"
  unfolding hd_interrupt_def
  by (auto split: option.split hd_intr.split intro!: keeps simp: Let_def)

section \<open>Terminals, the coprocessor and the clock\<close>

lemma do_tty_interrupt_frames [keeps]: "framed s t \<Longrightarrow> frames s (do_tty_interrupt ch t)"
  unfolding do_tty_interrupt_def copy_to_cooked_def by (rule cooked_by_frames keeps | assumption)+

lemma math_error_mild [mildly]: "mild s t \<Longrightarrow> mild s (math_error t)"
  unfolding math_error_def by (rule mildly | assumption)+

lemma math_emulate_mild [mildly]: "mild s t \<Longrightarrow> kept mild s (math_emulate r t)"
  unfolding math_emulate_def by (assumption | rule mildly keeps)+

lemma math_state_restore_mild [mildly]: "mild s t \<Longrightarrow> mild s (math_state_restore f t)"
  unfolding math_state_restore_def
  by (assumption | rule mildly mild_let_value | rule mild_upd, (simp add: ids_def; fail))+

text \<open>Acknowledging an interrupt.\<close>

lemma ack_mild [mildly]: "mild s t \<Longrightarrow> mild s (outb v p t)" "mild s t \<Longrightarrow> mild s (t\<lparr>jiffies := j\<rparr>)"
  by (simp_all add: mild_def outb_def)

section \<open>The entries\<close>

text \<open>
  Every gate does one of three things: it runs a handler that is mild, it ends the task, or it runs
  a mild handler and returns by way of \<open>ret_from_sys_call\<close>.
\<close>

definition enters :: "kstate \<Rightarrow> kstate \<Rightarrow> (u32 \<Rightarrow> sys_frame \<Rightarrow> kstate \<Rightarrow> exec_result) \<Rightarrow> bool" where
  "enters s t g \<longleftrightarrow> (\<exists>f. g = plain f \<and> kept mild s (f t)) \<or> g = plain die \<or>
     (\<exists>m. (\<forall>eax r. g eax r t = seq (m r) (\<lambda>r s. ret_from_sys_call eax r s)) \<and> (\<forall>r. kept mild s (m r)))"

lemma enters_mild: "kept mild s (f t) \<Longrightarrow> enters s t (plain f)"
  by (auto simp: enters_def)

lemma enters_die: "(\<And>s. f s = die s) \<Longrightarrow> enters s t (plain f)"
proof -
  assume "\<And>s. f s = die s"
  then have "f = die" by (rule ext)
  then show ?thesis by (simp add: enters_def)
qed

lemma enters_return:
  "(\<And>eax r. g eax r t = seq (m r) (\<lambda>r s. ret_from_sys_call eax r s)) \<Longrightarrow> (\<And>r. kept mild s (m r)) \<Longrightarrow> enters s t g"
  unfolding enters_def by blast

lemma enters_gates:
  assumes "mild s t"
  shows "enters s t (device_not_available em fp)" "enters s t coprocessor_error" "enters s t irq13" "enters s t timer_interrupt"
proof -
  show "enters s t (device_not_available em fp)"
    by (rule enters_return [where m = "\<lambda>r. if em then math_emulate r t else Ret r (math_state_restore fp t)"])
      (auto simp: device_not_available_def intro: mildly assms)
  show "enters s t coprocessor_error"
    by (rule enters_return [where m = "\<lambda>r. Ret r (math_error t)"]) (auto simp: coprocessor_error_def intro: mildly assms)
  show "enters s t irq13"
    by (rule enters_return [where m = "\<lambda>r. Ret r (math_error (outb 0x20 0xA0 (outb 0x20 0x20 (outb 0 0xF0 t))))"])
      (auto simp: irq13_def coprocessor_error_def intro!: math_error_mild ack_mild assms)
  show "enters s t timer_interrupt"
    by (rule enters_return [where m = "\<lambda>r. seq (do_timer (fr_cs r AND 3) (outb 0x20 0x20 (t\<lparr>jiffies := jiffies t + 1\<rparr>))) (\<lambda>_ s. Ret r s)"])
      (auto simp: timer_interrupt_def seq_assoc intro!: kept_seq do_timer_mild ack_mild assms)
qed

lemma gate_enters:
  assumes "mild s t"
  shows "enters s t (interrupt_gate em fp ec cr2 n)"
proof -
  note run = mild_itself.kept_frame_run [OF _ assms]
  have m: "kept mild s (do_int3 t)" "kept mild s (page_fault ec cr2 t)" "kept mild s (floppy_interrupt t)"
    "kept mild s (parallel_interrupt t)" "kept mild s (hd_interrupt t)"
    using assms run [OF page_fault_frames [OF framed_refl]] run [OF floppy_framed.floppy_interrupt [OF framed_refl]] run [OF hd_interrupt_frames [OF framed_refl]]
    by (simp_all add: do_int3_def parallel_interrupt_def ack_mild)
  note e = enters_mild [where f = do_int3, OF m(1)] enters_mild [where f = "page_fault ec cr2", OF m(2)]
    enters_mild [where f = floppy_interrupt, OF m(3)] enters_mild [where f = parallel_interrupt, OF m(4)]
    enters_mild [where f = hd_interrupt, OF m(5)] enters_gates [OF assms]
  have d: "enters s t (plain do_reserved)" by (rule enters_die) (simp add: do_reserved_def)
  have "list_all (enters s t) (trap_gates em fp ec cr2)"
    unfolding trap_gates_def
    by (simp only: list.pred_inject, intro conjI TrueI)
      (rule e | rule enters_die, simp add: do_divide_error_def do_nmi_def do_overflow_def do_bounds_def do_invalid_op_def do_double_fault_def
        do_coprocessor_segment_overrun_def do_invalid_TSS_def do_segment_not_present_def do_stack_segment_def do_general_protection_def do_reserved_def)+
  moreover have "length (trap_gates em fp ec cr2) = 17" by (simp add: trap_gates_def)
  ultimately have "n < 17 \<Longrightarrow> enters s t (trap_gates em fp ec cr2 ! n)" by (simp add: list_all_length)
  then show ?thesis using e d by (simp add: interrupt_gate_def)
qed

end
