(* ===== verification/Identity.thy ===== *)
theory Identity
  imports TrapProps
begin

text \<open>
  User identities. A task with neither user id 0 nor effective user id 0 stays so whatever system
  calls it makes, and so does every task it creates; the one way up is a program with the set-uid
  bit.
\<close>

section \<open>What leaves identities alone\<close>

named_theorems confines

text \<open>Any relation that looks at nothing but the identities and which task is running.\<close>

locale ids_relation = mild_relation +
  assumes ids_same: "R s t \<Longrightarrow> current u = current t \<Longrightarrow> (\<And>i. ids (tsk u i) = ids (tsk t i)) \<Longrightarrow> R s u"
begin

lemma upd_ids:
  assumes "\<And>p. ids (f p) = ids p" and "R s t"
  shows "R s (upd_task i f t)" "R s (upd_cur f t)"
  using ids_same [OF assms(2)] assms(1) by (simp_all add: state_simps)

lemma fields_ids [confines]:
  assumes "R s t"
  shows "R s (t\<lparr>task := a1\<rparr>)" "R s (t\<lparr>last_task_used_math := a2\<rparr>)" "R s (t\<lparr>user := a3\<rparr>)"
    "R s (upd_file f g t)" "R s (upd_inode f g' t)" "R s (upd_tty f g'' t)"
    "R s (upd_super f h t)" "R s (t\<lparr>fpu := a4\<rparr>)" "R s (t\<lparr>gdt := a5\<rparr>)"
    "R s (t\<lparr>last_pid := a6\<rparr>)" "R s (t\<lparr>mm := a7\<rparr>)" "R s (t\<lparr>beepcount := a8\<rparr>)"
  by (rule ids_same [OF assms]; simp add: state_simps)+

lemma if_ids [confines]: "(b \<Longrightarrow> R s t) \<Longrightarrow> (\<not> b \<Longrightarrow> R s u) \<Longrightarrow> R s (if b then t else u)"
  by simp

lemma option_ids [confines]: "R s t \<Longrightarrow> (\<And>x. R s (f x)) \<Longrightarrow> R s (case v of None \<Rightarrow> t | Some x \<Rightarrow> f x)"
  by (cases v) simp_all

lemma let_state_ids [confines]: "R s t \<Longrightarrow> (\<And>u. R s u \<Longrightarrow> R s (f u)) \<Longrightarrow> R s (Let t f)"
  by simp

lemma let_value_ids: "(\<And>x. R s (f x)) \<Longrightarrow> R s (Let v f)"
  by simp

lemmas ids_values = kept_let_value let_value_ids

lemma set_filp_ids [confines]: "R s t \<Longrightarrow> R s (set_filp x1 x2 t)"
  unfolding set_filp_def
  by (assumption | rule confines keeps ids_values | (rule kept_mild_run closed_mild, rule mildly, rule mild_refl)
      | rule upd_ids, (simp add: ids_def; fail) | (rule kept_frame_run closed_framed, rule keeps, rule framed_refl))+

lemma set_f_count_ids [confines]: "R s t \<Longrightarrow> R s (set_f_count x1 x2 t)"
  unfolding set_f_count_def
  by (assumption | rule confines keeps ids_values | (rule kept_mild_run closed_mild, rule mildly, rule mild_refl)
      | rule upd_ids, (simp add: ids_def; fail) | (rule kept_frame_run closed_framed, rule keeps, rule framed_refl))+

lemma sys_open_ids [confines]: "R s t \<Longrightarrow> kept R s (sys_open x1 x2 x3 t)"
  unfolding sys_open_def
  by (assumption | rule confines keeps ids_values | (rule kept_mild_run closed_mild, rule mildly, rule mild_refl)
      | rule upd_ids, (simp add: ids_def; fail) | (rule kept_frame_run closed_framed, rule keeps, rule framed_refl))+

lemma sys_creat_ids [confines]: "R s t \<Longrightarrow> kept R s (sys_creat x1 x2 t)"
  unfolding sys_creat_def
  by (assumption | rule confines keeps ids_values | (rule kept_mild_run closed_mild, rule mildly, rule mild_refl)
      | rule upd_ids, (simp add: ids_def; fail) | (rule kept_frame_run closed_framed, rule keeps, rule framed_refl))+

lemma sys_close_ids [confines]: "R s t \<Longrightarrow> kept R s (sys_close x1 t)"
  unfolding sys_close_def
  by (assumption | rule confines keeps ids_values | (rule kept_mild_run closed_mild, rule mildly, rule mild_refl)
      | rule upd_ids, (simp add: ids_def; fail) | (rule kept_frame_run closed_framed, rule keeps, rule framed_refl))+

lemma dupfd_ids [confines]: "R s t \<Longrightarrow> kept R s (dupfd x1 x2 t)"
  unfolding dupfd_def
  by (assumption | rule confines keeps ids_values | (rule kept_mild_run closed_mild, rule mildly, rule mild_refl)
      | rule upd_ids, (simp add: ids_def; fail) | (rule kept_frame_run closed_framed, rule keeps, rule framed_refl))+

lemma sys_dup_ids [confines]: "R s t \<Longrightarrow> kept R s (sys_dup x1 t)"
  unfolding sys_dup_def
  by (assumption | rule confines keeps ids_values | (rule kept_mild_run closed_mild, rule mildly, rule mild_refl)
      | rule upd_ids, (simp add: ids_def; fail) | (rule kept_frame_run closed_framed, rule keeps, rule framed_refl))+

lemma sys_dup2_ids [confines]: "R s t \<Longrightarrow> kept R s (sys_dup2 x1 x2 t)"
  unfolding sys_dup2_def
  by (assumption | rule confines keeps ids_values | (rule kept_mild_run closed_mild, rule mildly, rule mild_refl)
      | rule upd_ids, (simp add: ids_def; fail) | (rule kept_frame_run closed_framed, rule keeps, rule framed_refl))+

lemma sys_fcntl_ids [confines]: "R s t \<Longrightarrow> kept R s (sys_fcntl x1 x2 x3 t)"
  unfolding sys_fcntl_def
  by (assumption | rule confines keeps ids_values | (rule kept_mild_run closed_mild, rule mildly, rule mild_refl)
      | rule upd_ids, (simp add: ids_def; fail) | (rule kept_frame_run closed_framed, rule keeps, rule framed_refl))+

lemma sys_pipe_ids [confines]: "R s t \<Longrightarrow> kept R s (sys_pipe x1 t)"
  unfolding sys_pipe_def
  by (auto split: list.split option.split simp: Let_def intro!: kept_seq closed_mild [OF put_pair_mild(1) [OF mild_refl]] fields_ids set_f_count_ids set_filp_ids
    kept_frame_run [OF get_pipe_inode_frames [OF framed_refl]])

lemma release_ids [confines]: "R s t \<Longrightarrow> kept R s (release x1 t)"
  unfolding release_def
  by (assumption | rule confines keeps ids_values | (rule kept_mild_run closed_mild, rule mildly, rule mild_refl)
      | rule upd_ids, (simp add: ids_def; fail) | (rule kept_frame_run closed_framed, rule keeps, rule framed_refl))+

lemma fold_ids: "(\<And>x u. R s u \<Longrightarrow> R s (f x u)) \<Longrightarrow> R s t \<Longrightarrow> R s (fold f xs t)"
  by (induction xs arbitrary: t) simp_all

lemma tell_father_ids [confines]: "R s t \<Longrightarrow> kept R s (tell_father x1 t)"
  unfolding tell_father_def
  by (assumption | rule confines keeps ids_values | (rule kept_mild_run closed_mild, rule mildly, rule mild_refl)
      | rule upd_ids, (simp add: ids_def; fail) | (rule kept_frame_run closed_framed, rule keeps, rule framed_refl))+

lemma do_exit_ids [confines]: "R s t \<Longrightarrow> kept R s (do_exit x1 t)"
  unfolding do_exit_def
  by (assumption | rule confines keeps ids_values | rule upd_ids, (simp add: ids_def; fail)
      | (rule kept_mild_run closed_mild, rule mildly, rule mild_refl) | (rule kept_frame_run, rule keeps, rule framed_refl))+

lemma sys_exit_ids [confines]: "R s t \<Longrightarrow> kept R s (sys_exit x1 t)"
  unfolding sys_exit_def
  by (assumption | rule confines keeps ids_values | (rule kept_mild_run closed_mild, rule mildly, rule mild_refl)
      | rule upd_ids, (simp add: ids_def; fail) | (rule kept_frame_run closed_framed, rule keeps, rule framed_refl))+

lemma wait_scan_ids [confines]: "R s t \<Longrightarrow> kept R s (wait_scan n x1 x2 x3 x4 t)"
proof (induction n arbitrary: x4 t)
  case (Suc n)
  show ?case unfolding wait_scan.simps
    by (assumption | rule Suc.prems Suc.IH | rule confines keeps ids_values | (rule closed_mild, rule mildly, rule mild_refl)
      | rule upd_ids, (simp add: ids_def; fail))+
qed simp

lemma wait_step_ids [confines]: "R s t \<Longrightarrow> kept R s (wait_step x1 x2 x3 x4 t)"
  unfolding wait_step_def
  by (assumption | rule confines keeps ids_values | (rule kept_mild_run closed_mild, rule mildly, rule mild_refl)
      | rule upd_ids, (simp add: ids_def; fail) | (rule kept_frame_run closed_framed, rule keeps, rule framed_refl))+

lemma sys_waitpid_ids [confines]: "R s t \<Longrightarrow> kept R s (sys_waitpid x1 x2 x3 t)"
  unfolding sys_waitpid_def
  by (assumption | rule confines keeps ids_values | (rule kept_mild_run closed_mild, rule mildly, rule mild_refl)
      | rule upd_ids, (simp add: ids_def; fail) | (rule kept_frame_run closed_framed, rule keeps, rule framed_refl))+

lemma share_all_ids [confines]: "R s t \<Longrightarrow> R s (share_all nr t)"
  using share_all_spec [of nr t] by (auto intro: ids_same)

lemma reset_tables_ids [confines]: "R s t \<Longrightarrow> R s (reset_tables t)"
  unfolding reset_tables_def by (rule ids_same) simp_all

lemma mount_root_ids [confines]: "R s t \<Longrightarrow> kept R s (mount_root t)"
  unfolding mount_root_def
  by (assumption | rule confines keeps ids_values | (rule kept_mild_run closed_mild, rule mildly, rule mild_refl)
      | rule upd_ids, (simp add: ids_def; fail) | (rule kept_frame_run closed_framed, rule keeps, rule framed_refl))+

lemma cmos_drives_ids:
  "R s t \<Longrightarrow> (\<And>a u. R s u \<Longrightarrow> kept R s (f a u)) \<Longrightarrow> kept R s (case cmos_drives t of (a, u) \<Rightarrow> f a u)"
  using closed_framed [OF framed_in_port(2) [OF framed_outb [OF framed_refl]], of s t "0x71" "0x92" "0x70"]
  by (auto simp: cmos_drives_def split: prod.split)

lemma sys_setup_ids [confines]: "R s t \<Longrightarrow> kept R s (sys_setup x1 t)"
  unfolding sys_setup_def
  by (rule cmos_drives_ids fold_ids | assumption | rule confines keeps ids_values | rule upd_ids, (simp add: ids_def; fail)
      | (rule kept_mild_run closed_mild, rule mildly, rule mild_refl) | (rule kept_frame_run, rule keeps, rule framed_refl))+

lemma do_signal_ids [confines]: "R s t \<Longrightarrow> kept R s (do_signal x1 x2 x3 x4 x5 x6 x7 t)"
  unfolding do_signal_def
  by (assumption | rule confines keeps ids_values | (rule kept_mild_run closed_mild, rule mildly, rule mild_refl)
      | rule upd_ids, (simp add: ids_def; fail) | (rule kept_frame_run closed_framed, rule keeps, rule framed_refl))+

lemma close_marked_ids [confines]: "R s t \<Longrightarrow> kept R s (close_marked t)"
  unfolding close_marked_def
  by (assumption | rule confines keeps ids_values | (rule kept_mild_run closed_mild, rule mildly, rule mild_refl)
      | rule upd_ids, (simp add: ids_def; fail) | (rule kept_frame_run closed_framed, rule keeps, rule framed_refl))+

lemma exec_open_ids [confines]:
  "R s t \<Longrightarrow> (\<And>a b c u. R s u \<Longrightarrow> kept R s (k a b c u)) \<Longrightarrow> kept R s (exec_open i r page k t)"
  unfolding exec_open_def
  by (assumption | rule confines keeps ids_values | (rule kept_mild_run closed_mild, rule mildly, rule mild_refl)
      | rule upd_ids, (simp add: ids_def; fail) | (rule kept_frame_run closed_framed, rule keeps, rule framed_refl))+

lemma value_call_ids: "R s t \<Longrightarrow> kept R s (value_call f r t)"
  by (simp add: value_call_def)

lemma state_call_ids: "R s (snd (f t)) \<Longrightarrow> kept R s (state_call f r t)"
  by (simp add: state_call_def)

lemma path_call_ids: "kept R s (f t) \<Longrightarrow> kept R s (path_call f r t)"
  by (auto simp: path_call_def intro: kept_seq)

lemma then_exit_ids: "kept R s m \<Longrightarrow> kept R s (then_exit m)"
  by (cases m) (auto simp: then_exit_def intro: kept_seq do_exit_ids)

lemma ret_from_sys_call_ids [confines]: "R s t \<Longrightarrow> kept R s (ret_from_sys_call x1 x2 t)"
  unfolding ret_from_sys_call_def
  by (assumption | rule confines keeps ids_values | (rule kept_mild_run closed_mild, rule mildly, rule mild_refl)
      | rule upd_ids, (simp add: ids_def; fail) | (rule kept_frame_run closed_framed, rule keeps, rule framed_refl))+

lemma enters_ids:
  assumes "enters t t g" and t: "R s t"
  shows "kept R s (g eax r t)"
  using assms(1) unfolding enters_def
proof (elim disjE exE conjE)
  fix f assume "g = plain f" and f: "kept mild t (f t)"
  then show ?thesis using kept_mild_run [OF f t] by (auto simp: plain_def intro!: kept_seq)
next
  assume "g = plain die"
  then show ?thesis using do_exit_ids [OF t] by (auto simp: plain_def die_def intro!: kept_seq)
next
  fix m assume "\<forall>eax r. g eax r t = seq (m r) (ret_from_sys_call eax)" and "\<forall>r. kept mild t (m r)"
  then show ?thesis using kept_mild_run [OF _ t] by (auto intro!: kept_seq ret_from_sys_call_ids)
qed

lemma interrupt_ids [confines]: "R s t \<Longrightarrow> kept R s (interrupt em fp ec cr2 n eax r t)"
  unfolding interrupt_def by (rule then_exit_ids) (rule enters_ids [OF gate_enters [OF mild_refl]])

end

section \<open>Privileged tasks\<close>

definition privileged :: "task_struct \<Rightarrow> bool" where
  "privileged p \<longleftrightarrow> t_uid p = 0 \<or> t_euid p = 0"

text \<open>
  From \<open>s\<close> to \<open>t\<close> the current task, which has no privilege, has got none and every privileged
  task is one that has been it all the time. With \<open>e\<close> the effective id of the current task is left
  out, for the program that \<open>execve\<close> starts.
\<close>

definition confined :: "bool \<Rightarrow> kstate \<Rightarrow> kstate \<Rightarrow> bool" where
  "confined e s t \<longleftrightarrow> current t = current s \<and> t_uid (tsk t (current s)) \<noteq> 0 \<and>
     (\<not> e \<longrightarrow> t_euid (tsk t (current s)) \<noteq> 0) \<and>
     (\<forall>i. privileged (tsk t i) \<longrightarrow> i = current s \<and> e \<or> ids (tsk t i) = ids (tsk s i))"

lemma ids_eqD: "ids p = ids q \<Longrightarrow> t_uid p = t_uid q \<and> t_euid p = t_euid q \<and> privileged p = privileged q"
  by (simp add: ids_def privileged_def)

lemma confined_same:
  assumes "confined e s t" and "current u = current t" and "\<And>i. ids (tsk u i) = ids (tsk t i)"
  shows "confined e s u"
  using assms ids_eqD [OF assms(3)] by (simp add: confined_def)

interpretation conf: ids_relation "confined e" for e
proof
  fix s t u
  assume c: "confined e s t" and m: "mild t u"
  show "confined e s u" by (rule confined_same [OF c]) (use m in \<open>simp_all add: mild_def\<close>)
next
  fix s t u :: kstate
  assume "confined e s t" and "current u = current t" and "\<And>i. ids (tsk u i) = ids (tsk t i)"
  then show "confined e s u" by (rule confined_same)
qed (simp add: confined_def)

section \<open>New processes\<close>

lemma new_task_confined:
  assumes "confined False s t"
  shows "confined False s (t\<lparr>task := f, tsk := (tsk t)(nr := child_task nr page r t)\<rparr>)"
proof -
  have "ids (child_task nr page r t) = ids (cur t)" by (simp add: child_task_def Let_def ids_def)
  note c = this ids_eqD [OF this]
  have "current t = current s" using assms by (simp add: confined_def)
  with assms c show ?thesis by (auto simp: confined_def privileged_def cur_def)
qed

lemma copy_process_confined [confines]: "confined False s t \<Longrightarrow> kept (confined False) s (copy_process x1 x2 x3 t)"
  unfolding copy_process_def
  by (rule new_task_confined | assumption | rule confines keeps conf.ids_values | rule conf.upd_ids, (simp add: ids_def; fail)
      | (rule conf.kept_mild_run conf.closed_mild, rule mildly, rule mild_refl) | (rule conf.kept_frame_run, rule keeps, rule framed_refl))+

lemma sys_fork_confined [confines]: "confined False s t \<Longrightarrow> kept (confined False) s (sys_fork x1 x2 t)"
  unfolding sys_fork_def
  by (assumption | rule confines keeps conf.ids_values | (rule conf.kept_mild_run conf.closed_mild, rule mildly, rule mild_refl)
      | rule conf.upd_ids, (simp add: ids_def; fail) | (rule conf.kept_frame_run conf.closed_framed, rule keeps, rule framed_refl))+

section \<open>\<open>execve\<close>\<close>

text \<open>
  Up to the point where the program gets its effective ids, \<open>execve\<close> leaves all identities alone.
\<close>

text \<open>The new program: only now the effective ids change, to those of the file.\<close>

lemma new_ids_confined:
  "confined True s t \<Longrightarrow> confined True s (upd_cur (\<lambda>p. p\<lparr>t_end_code := a, t_end_data := b, t_brk := c,
     t_start_stack := d, t_euid := eu, t_egid := eg\<rparr>) t)"
  by (auto simp: confined_def state_simps ids_def privileged_def)

lemma run_program_confined [confines]: "confined True s t \<Longrightarrow> kept (confined True) s (run_program x1 x2 x3 x4 x5 x6 x7 x8 x9 t)"
  unfolding run_program_def
  by (rule new_ids_confined | assumption | rule confines keeps conf.ids_values | rule conf.upd_ids, (simp add: ids_def; fail)
      | (rule conf.kept_mild_run conf.closed_mild, rule mildly, rule mild_refl) | (rule conf.kept_frame_run, rule keeps, rule framed_refl))+

lemma load_program_confined [confines]:
  "confined True s t \<Longrightarrow> (\<And>v u. confined True s u \<Longrightarrow> kept (confined True) s (copy v u)) \<Longrightarrow>
   kept (confined True) s (load_program x1 x2 x3 x4 x5 x6 x7 x8 copy x10 t)"
  unfolding load_program_def
  by (assumption | rule confines keeps conf.ids_values | (rule conf.kept_mild_run conf.closed_mild, rule mildly, rule mild_refl)
      | rule conf.upd_ids, (simp add: ids_def; fail) | (rule conf.kept_frame_run conf.closed_framed, rule keeps, rule framed_refl))+

lemma run_script_confined [confines]: "confined True s t \<Longrightarrow> kept (confined True) s (run_script x1 x2 x3 x4 x5 x6 x7 x8 x9 t)"
  unfolding run_script_def
  by (assumption | rule confines keeps conf.ids_values | (rule conf.kept_mild_run conf.closed_mild, rule mildly, rule mild_refl)
      | rule conf.upd_ids, (simp add: ids_def; fail) | (rule conf.kept_frame_run conf.closed_framed, rule keeps, rule framed_refl))+

lemma do_execve_confined [confines]: "confined True s t \<Longrightarrow> kept (confined True) s (do_execve x1 x2 x3 x4 x5 t)"
  unfolding do_execve_def
  by (assumption | rule confines keeps conf.ids_values | (rule conf.kept_mild_run conf.closed_mild, rule mildly, rule mild_refl)
      | rule conf.upd_ids, (simp add: ids_def; fail) | (rule conf.kept_frame_run conf.closed_framed, rule keeps, rule framed_refl))+

section \<open>Every system call\<close>

lemma narrow: "ucast (ucast (v :: u16) :: u32) = v"
  by (simp add: unsigned_ucast_eq take_bit_word_eq_self)

lemma own_ids_confined:
  assumes "confined False s t" and "t_uid (f (cur t)) \<noteq> 0" and "t_euid (f (cur t)) \<noteq> 0"
  shows "confined False s (upd_cur f t)"
  using assms by (auto simp: confined_def state_simps privileged_def)

lemma setreuid_ids:
  assumes "t_euid (cur t) \<noteq> 0"
  obtains a b where "snd (sys_setreuid r e t) = upd_cur (\<lambda>p. p\<lparr>t_uid := a, t_euid := b\<rparr>) t"
    "a \<in> {t_uid (cur t), t_euid (cur t)}" "b \<in> {t_uid (cur t), t_euid (cur t)}"
proof -
  let ?u = "t_uid (cur t)" and ?e = "t_euid (cur t)"
  define a where "a = (if slt 0 r then ucast r else ?u)"
  have v: "(if slt 0 r then upd_cur (t_uid_update (\<lambda>_. ucast r)) t else t) = upd_cur (\<lambda>p. p\<lparr>t_uid := a\<rparr>) t"
    by (simp add: a_def state_simps)
  have f: "upd_cur f (upd_cur (\<lambda>p. p\<lparr>t_uid := x\<rparr>) t) = upd_cur (\<lambda>p. f (p\<lparr>t_uid := x\<rparr>)) t"
    "t_euid (cur (upd_cur (\<lambda>p. p\<lparr>t_uid := x\<rparr>) t)) = ?e" for x f
    by (simp_all add: state_simps)
  have s: "\<not> suser (upd_cur (\<lambda>p. p\<lparr>t_uid := x\<rparr>) t)" "\<not> suser t" for x
    using assms by (simp_all add: suser_def f)
  have e: "upd_cur (\<lambda>p. p\<lparr>t_uid := x\<rparr>) t = upd_cur (\<lambda>p. p\<lparr>t_uid := x, t_euid := ?e\<rparr>) t"
    "t = upd_cur (\<lambda>p. p\<lparr>t_uid := ?u, t_euid := ?e\<rparr>) t" for x
    by (simp_all add: state_simps)
  show ?thesis
  proof (cases "slt 0 r \<and> ucast ?e \<noteq> r \<and> ucast ?u \<noteq> r")
    case True
    then have "snd (sys_setreuid r e t) = t" by (simp add: sys_setreuid_def s)
    from trans [OF this e(2)] show ?thesis by (rule that) simp_all
  next
    case False
    then have a: "a \<in> {?u, ?e}" by (auto simp: a_def narrow)
    have "snd (sys_setreuid r e t) = (if slt 0 e then if ucast ?u = e \<or> ucast ?e = e
        then upd_cur (\<lambda>p. p\<lparr>t_uid := a, t_euid := ucast e\<rparr>) t else upd_cur (\<lambda>p. p\<lparr>t_uid := ?u\<rparr>) t
      else upd_cur (\<lambda>p. p\<lparr>t_uid := a\<rparr>) t)"
    proof -
      have "(slt 0 r \<and> ucast ?e \<noteq> r \<and> ucast ?u \<noteq> r \<and> \<not> suser t) = False" using False by blast
      then show ?thesis unfolding sys_setreuid_def Let_def by (simp only: if_False v) (simp add: f s)
    qed
    note r = this
    show ?thesis
    proof (cases "slt 0 e")
      case False
      with r e(1) [of a] have "snd (sys_setreuid r e t) = upd_cur (\<lambda>p. p\<lparr>t_uid := a, t_euid := ?e\<rparr>) t" by simp
      then show ?thesis using a by (rule that) simp
    next
      case True
      show ?thesis
      proof (cases "ucast ?u = e \<or> ucast ?e = e")
        case t: True
        then have u: "ucast e \<in> {?u, ?e}" by (auto simp: narrow)
        from r True t have "snd (sys_setreuid r e t) = upd_cur (\<lambda>p. p\<lparr>t_uid := a, t_euid := ucast e\<rparr>) t" by simp
        then show ?thesis using a u by (rule that)
      next
        case f: False
        with r e(1) [of ?u] True have "snd (sys_setreuid r e t) = upd_cur (\<lambda>p. p\<lparr>t_uid := ?u, t_euid := ?e\<rparr>) t" by simp
        then show ?thesis by (rule that) simp_all
      qed
    qed
  qed
qed

lemma sys_setreuid_confined:
  assumes "confined False s t"
  shows "confined False s (snd (sys_setreuid r e t))"
proof -
  have *: "t_uid (cur t) \<noteq> 0" "t_euid (cur t) \<noteq> 0" using assms by (simp_all add: confined_def cur_def)
  show ?thesis by (rule setreuid_ids [OF *(2), of r e]) (use * in \<open>auto intro: own_ids_confined [OF assms]\<close>)
qed

lemma sys_setregid_confined:
  assumes "confined False s t"
  shows "confined False s (snd (sys_setregid r e t))"
proof -
  have *: "t_uid (cur t) \<noteq> 0" "t_euid (cur t) \<noteq> 0" using assms by (simp_all add: confined_def cur_def)
  have u: "confined False s (upd_cur (t_gid_update f) u)" "confined False s (upd_cur (t_egid_update f) u)"
    if "confined False s u" "t_uid (cur u) \<noteq> 0" "t_euid (cur u) \<noteq> 0" for f u
    using that by (auto intro: own_ids_confined)
  define v where "v = (if slt 0 r then upd_cur (t_gid_update (\<lambda>_. ucast r)) t else t)"
  have "confined False s v" "t_uid (cur v) \<noteq> 0" "t_euid (cur v) \<noteq> 0"
    using u(1) [OF assms *] assms * by (simp_all add: v_def) (simp_all add: state_simps)
  then show ?thesis using assms u(2) by (simp add: sys_setregid_def v_def [symmetric] Let_def)
qed

lemma confined_weak: "confined False s t \<Longrightarrow> confined e s t"
  by (auto simp: confined_def)

lemma kept_weak: "kept (confined False) s m \<Longrightarrow> kept (confined e) s m"
  by (cases m) (auto intro: confined_weak)

lemma table_confined:
  assumes t: "confined False s t"
  shows "list_all (\<lambda>(n, f). kept (confined (n = 11)) s (f r' t)) (List.enumerate 0 (sys_call_table l u r))"
proof -
  have t': "confined e s t" for e by (rule confined_weak [OF t])
  have e: "kept (confined (Suc (Suc (Suc (Suc (Suc (Suc (Suc (Suc (Suc (Suc (Suc 0)))))))))) = 11)) s (do_execve l r' b c d t)" for b c d
    using do_execve_confined [OF t' [of True]] by simp
  show ?thesis
    unfolding sys_call_table_def Let_def sys_setuid_def sys_setgid_def
    by (simp only: enumerate_simps list.pred_inject prod.case, intro conjI TrueI)
      (rule e | rule conf.path_call_ids conf.value_call_ids conf.state_call_ids confines t' kept_weak [OF sys_fork_confined [OF t]]
        confined_weak [OF sys_setreuid_confined [OF t]] confined_weak [OF sys_setregid_confined [OF t]]
      | (rule conf.kept_mild_run conf.closed_mild, rule mildly, rule mild_refl) | (rule conf.kept_frame_run, rule keeps, rule framed_refl))+
qed

lemma call_confined:
  assumes "confined False s t" and "n < 72"
  shows "kept (confined (n = 11)) s ((sys_call_table l u r ! n) r' t)"
proof -
  have "length (sys_call_table l u r) = 72" by (simp add: sys_call_table_def Let_def)
  then show ?thesis using table_confined [OF assms(1), of r' l u r] assms(2)
    by (simp add: list_all_length enumerate_eq_zip)
qed

lemma system_call_confined:
  assumes "confined False s s"
  shows "kept (confined (nr = 11)) s (system_call l u nr r s)"
proof (cases "71 < nr")
  case True
  then show ?thesis using confined_weak [OF assms] by (simp add: system_call_def NR_SYSTEM_CALLS_def)
next
  case False
  then have n: "unat nr < 72" by (simp add: word_less_nat_alt)
  have "(nr = 11) = (unat nr = 11)" by (simp add: word_unat_eq_iff)
  with call_confined [OF assms n, of l u r r] have c: "kept (confined (nr = 11)) s ((sys_call_table l u r ! unat nr) r s)" by simp
  show ?thesis unfolding system_call_def using False
    by (simp add: NR_SYSTEM_CALLS_def)
      (rule conf.then_exit_ids kept_seq c kept_prod conf.kept_mild_run [OF reschedule_mild [OF mild_refl]] conf.ret_from_sys_call_ids | assumption)+
qed

section \<open>Executions\<close>

text \<open>
  What happens while no privileged task makes system calls: any call with any arguments of a task
  without privilege, but for an \<open>execve\<close> that gives it the effective id 0; tasks, like the idle task 0, that pause; and, whoever runs,
  the clock, any trap, page fault or disk interrupt, and characters from the keyboard and the serial lines.
\<close>

inductive user_step :: "kstate \<Rightarrow> kstate \<Rightarrow> bool" where
  call: "\<not> privileged (cur s) \<Longrightarrow> left_in (system_call loaded fpu_reset nr r s) t \<Longrightarrow>
    (nr = 11 \<Longrightarrow> t_euid (tsk t (current s)) \<noteq> 0) \<Longrightarrow> user_step s t"
| pause: "left_in (sys_pause s) t \<Longrightarrow> user_step s t"
| tick: "left_in (do_timer cpl s) t \<Longrightarrow> user_step s t"
| interrupt: "left_in (interrupt em fpu_reset error_code cr2 n eax r s) t \<Longrightarrow> user_step s t"
| terminal: "left_in (do_tty_interrupt ch (upd_tty ch f s)) t \<Longrightarrow> user_step s t"

definition same_ids :: "kstate \<Rightarrow> kstate \<Rightarrow> bool" where
  "same_ids s t \<longleftrightarrow> (\<forall>i. ids (tsk t i) = ids (tsk s i))"

lemma mild_left_in: "kept mild s m \<Longrightarrow> left_in m t \<Longrightarrow> same_ids s t"
  by (auto simp: left_in_def same_ids_def mild_def)

interpretation ids_kept: ids_relation "\<lambda>s t. current t = current s \<and> same_ids s t"
  by unfold_locales (auto simp: same_ids_def mild_def)

lemma ids_left_in: "kept (\<lambda>s t. current t = current s \<and> same_ids s t) s m \<Longrightarrow> left_in m t \<Longrightarrow> same_ids s t"
  by (auto simp: left_in_def same_ids_def)

lemma user_step_ids:
  assumes "user_step s t" and "privileged (tsk t i)"
  shows "ids (tsk t i) = ids (tsk s i)"
  using assms(1)
proof cases
  case (call loaded fpu_reset nr r)
  have "confined False s s" using call(1) by (simp add: confined_def privileged_def cur_def)
  from system_call_confined [OF this, of nr loaded fpu_reset r] call(2)
  have c: "confined (nr = 11) s (t\<lparr>current := current s\<rparr>)"
    by (cases "system_call loaded fpu_reset nr r s") (auto simp: confined_def)
  show ?thesis
  proof (cases "i = current s \<and> nr = 11")
    case True
    with c call(3) assms(2) show ?thesis by (auto simp: confined_def privileged_def)
  next
    case False
    with c assms(2) show ?thesis by (auto simp: confined_def)
  qed
next
  case pause
  from mild_left_in [OF sys_pause_mild [OF mild_refl] this] show ?thesis by (simp add: same_ids_def)
next
  case (tick cpl)
  from mild_left_in [OF do_timer_mild [OF mild_refl] this] show ?thesis by (simp add: same_ids_def)
next
  case (interrupt em fpu_reset error_code cr2 n eax r)
  from ids_left_in [OF ids_kept.interrupt_ids this] show ?thesis by (simp add: same_ids_def)
next
  case (terminal ch f)
  from mild_left_in [OF mild_itself.kept_frame_run [OF do_tty_interrupt_frames [OF framed_refl]] this] mild_fields(4) [OF mild_refl, of s ch f]
  show ?thesis by (simp add: same_ids_def)
qed


definition guest :: "kstate \<Rightarrow> kstate" where
  "guest s = s\<lparr>current := 1, task := (\<lambda>i. if i < 2 then 1 else 0),
     tsk := (\<lambda>i. (tsk s i)\<lparr>t_state := 0, t_counter := 5, t_signal := 0, t_uid := if i = 0 then 0 else 5,
       t_euid := if i = 0 then 0 else 5\<rparr>)\<rparr>"

lemma guest_umask:
  "system_call l u 60 r (guest s) = Ret (ucast (t_umask (tsk s 1)), r) (upd_cur (t_umask_update (\<lambda>_. ucast (fr_ebx r AND 0x1FF))) (guest s))"
  if "fr_cs r = 0"
  using that
  by (simp add: system_call_def NR_SYSTEM_CALLS_def sys_call_table_def Let_def state_call_def sys_umask_def then_exit_def
    reschedule_def ret_from_sys_call_def guest_def state_simps)


end
