(* ===== verification/FileRefs.thy ===== *)
theory FileRefs
  imports Identity
begin

text \<open>
  Reference counts of open files: \<open>f_count\<close> of every entry of the file table is the number of
  descriptors, of all tasks, that point to it, whatever system calls are made.
\<close>

section \<open>Counting descriptors\<close>

definition refs :: "kstate \<Rightarrow> nat \<Rightarrow> nat" where
  "refs s f = (\<Sum>i<NR_TASKS. if task s i \<noteq> 0 then fds_of (tsk s i) f else 0)"

definition no_files :: "task_struct \<Rightarrow> bool" where
  "no_files p \<longleftrightarrow> (\<forall>fd<NR_OPEN. t_filp p fd = None)"

text \<open>
  A zombie has closed its files; its slot can be given away without touching the counts. The table ends
  at \<open>NR_FILE\<close>.
\<close>

definition refs_ok :: "kstate \<Rightarrow> bool" where
  "refs_ok s \<longleftrightarrow> (\<forall>f. unat (f_count (file_table s f)) = refs s f) \<and>
     (\<forall>i<NR_TASKS. task s i \<noteq> 0 \<longrightarrow> t_state (tsk s i) = TASK_ZOMBIE \<longrightarrow> no_files (tsk s i)) \<and>
     (\<forall>f\<ge>NR_FILE. f_count (file_table s f) = 0)"

lemma in_table: "refs_ok s \<Longrightarrow> f_count (file_table s f) \<noteq> 0 \<Longrightarrow> f < NR_FILE"
  unfolding refs_ok_def using leI by blast

definition live :: "kstate \<Rightarrow> bool" where
  "live s \<longleftrightarrow> current s < NR_TASKS \<and> task s (current s) \<noteq> 0 \<and> t_state (cur s) \<noteq> TASK_ZOMBIE"

lemma fds_of_sum: "fds_of p f = (\<Sum>fd<NR_OPEN. if t_filp p fd = Some f then 1 else 0)"
proof -
  have "length (filter P [0..<n]) = (\<Sum>fd<n. if P fd then 1 else 0)" for P and n :: nat
    by (induction n) simp_all
  then show ?thesis by (simp add: fds_of_def)
qed

lemma sum_upd_nat:
  fixes h :: "nat \<Rightarrow> nat"
  assumes "k < n"
  shows "(\<Sum>i<n. (h(k := x)) i) + h k = (\<Sum>i<n. h i) + x"
proof -
  have "{..<n} = insert k ({..<n} - {k})" using assms by auto
  then have *: "sum g {..<n} = g k + sum g ({..<n} - {k})" for g :: "nat \<Rightarrow> nat"
    by (metis finite_lessThan sum.remove lessThan_iff assms)
  have "(\<Sum>i\<in>{..<n} - {k}. (h(k := x)) i) = (\<Sum>i\<in>{..<n} - {k}. h i)" by (rule sum.cong) auto
  then show ?thesis by (simp add: *)
qed

lemma fds_of_set:
  assumes "fd < NR_OPEN"
  shows "fds_of (p\<lparr>t_filp := (t_filp p)(fd := x)\<rparr>) f + (if t_filp p fd = Some f then 1 else 0)
    = fds_of p f + (if x = Some f then 1 else 0)"
proof -
  let ?h = "\<lambda>fd. if t_filp p fd = Some f then 1 else 0 :: nat"
  have "fds_of (p\<lparr>t_filp := (t_filp p)(fd := x)\<rparr>) f = (\<Sum>i<NR_OPEN. (?h(fd := if x = Some f then 1 else 0)) i)"
    unfolding fds_of_sum by (rule sum.cong) auto
  then show ?thesis using sum_upd_nat [OF assms, of ?h "if x = Some f then 1 else 0"]
    by (simp add: fds_of_sum)
qed

lemma refs_set_task:
  assumes "i < NR_TASKS"
  shows "refs (s\<lparr>task := (task s)(i := p), tsk := (tsk s)(i := q)\<rparr>) f + (if task s i \<noteq> 0 then fds_of (tsk s i) f else 0)
    = refs s f + (if p \<noteq> 0 then fds_of q f else 0)"
proof -
  let ?h = "\<lambda>i. if task s i \<noteq> 0 then fds_of (tsk s i) f else 0"
  have "refs (s\<lparr>task := (task s)(i := p), tsk := (tsk s)(i := q)\<rparr>) f = (\<Sum>j<NR_TASKS. (?h(i := if p \<noteq> 0 then fds_of q f else 0)) j)"
    unfolding refs_def by (rule sum.cong) auto
  then show ?thesis using sum_upd_nat [OF assms, of ?h "if p \<noteq> 0 then fds_of q f else 0"]
    by (simp add: refs_def)
qed

lemma refs_set_filp:
  assumes "live s" and "fd < NR_OPEN"
  shows "refs (set_filp fd x s) f + (if t_filp (cur s) fd = Some f then 1 else 0) = refs s f + (if x = Some f then 1 else 0)"
proof -
  let ?p = "(cur s)\<lparr>t_filp := (t_filp (cur s))(fd := x)\<rparr>"
  have "set_filp fd x s = s\<lparr>task := (task s)(current s := task s (current s)), tsk := (tsk s)(current s := ?p)\<rparr>"
    by (simp add: set_filp_def state_simps)
  then have "refs (set_filp fd x s) f + fds_of (cur s) f = refs s f + fds_of ?p f"
    using refs_set_task [where i = "current s" and s = s and f = f and p = "task s (current s)" and q = ?p] assms(1) by (simp add: live_def cur_def)
  then show ?thesis using fds_of_set [OF assms(2), of "cur s" x f] by simp
qed

lemma refs_bound: "refs s f \<le> 1280"
proof -
  have "fds_of p f \<le> 20" for p
    unfolding fds_of_def NR_OPEN_def by (rule order_trans [OF length_filter_le]) simp
  then have "refs s f \<le> (\<Sum>i<NR_TASKS. 20)" unfolding refs_def by (intro sum_mono) simp
  then show ?thesis by (simp add: NR_TASKS_def)
qed

text \<open>No two tasks are in the same page, which the page allocator sees to.\<close>

definition own_pages :: "kstate \<Rightarrow> bool" where
  "own_pages s \<longleftrightarrow> (\<forall>i<NR_TASKS. \<forall>j<NR_TASKS. task s i = task s j \<longrightarrow> task s i \<noteq> 0 \<longrightarrow> i = j)"

section \<open>The invariant in the middle of a call\<close>

definition filed :: "kstate \<Rightarrow> kstate \<Rightarrow> bool" where
  "filed s t \<longleftrightarrow> refs_ok t \<and> live t \<and> own_pages t \<and> current t = current s"

definition counted :: "kstate \<Rightarrow> kstate \<Rightarrow> bool" where
  "counted s t \<longleftrightarrow> refs_ok t \<and> own_pages t \<and> current t = current s"

text \<open>With descriptor \<open>fd\<close> on the new file \<open>f\<close>, which nothing else refers to.\<close>

definition opened :: "nat \<Rightarrow> nat \<Rightarrow> kstate \<Rightarrow> kstate \<Rightarrow> bool" where
  "opened fd f s t \<longleftrightarrow> filed s t \<and> t_filp (cur t) fd = Some f \<and> f_count (file_table t f) = 1"

definition closed_below :: "nat \<Rightarrow> kstate \<Rightarrow> kstate \<Rightarrow> bool" where
  "closed_below n s t \<longleftrightarrow> filed s t \<and> (\<forall>fd<n. t_filp (cur t) fd = None)"

lemma refs_mild: "mild t u \<Longrightarrow> refs u f = refs t f"
  by (simp add: mild_def refs_def fds_of_def cong: if_cong)

lemma refs_ok_mild: "refs_ok t \<Longrightarrow> mild t u \<Longrightarrow> refs_ok u"
  by (auto simp: refs_ok_def refs_mild) (auto simp: mild_def no_files_def)

lemma live_mild: "live t \<Longrightarrow> mild t u \<Longrightarrow> live u"
  by (auto simp: live_def mild_def cur_def)

lemma own_pages_mild: "own_pages t \<Longrightarrow> mild t u \<Longrightarrow> own_pages u"
  by (simp add: own_pages_def mild_def)

lemma mild_cur: "mild t u \<Longrightarrow> t_filp (cur u) = t_filp (cur t)" "mild t u \<Longrightarrow> f_count (file_table u f) = f_count (file_table t f)"
  "mild t u \<Longrightarrow> current u = current t"
  by (simp_all add: mild_def cur_def)

interpretation filed: mild_relation filed
  by unfold_locales (auto simp: filed_def mild_cur intro: refs_ok_mild live_mild own_pages_mild)

interpretation counted: mild_relation counted
  by unfold_locales (auto simp: counted_def mild_cur intro: refs_ok_mild own_pages_mild)

interpretation opened: mild_relation "opened fd f" for fd f
  by unfold_locales (auto simp: opened_def mild_cur filed.same_current dest: filed.mild_closed)

interpretation closed_below: mild_relation "closed_below n" for n
  by unfold_locales (auto simp: closed_below_def mild_cur filed.same_current dest: filed.mild_closed)

lemma kept_mono: "kept R s m \<Longrightarrow> (\<And>t. R s t \<Longrightarrow> R' s t) \<Longrightarrow> kept R' s m"
  by (cases m) simp_all

lemma kept_seq_to:
  assumes "kept R s m" and "\<And>a t. R s t \<Longrightarrow> kept R' s (f a t)" and "\<And>t. R s t \<Longrightarrow> R' s t"
  shows "kept R' s (seq m f)"
  using assms by (cases m) simp_all

lemma filed_opened: "opened fd f s t \<Longrightarrow> filed s t"
  by (simp add: opened_def)

section \<open>One descriptor\<close>

lemma add_fd:
  assumes "filed s t" and "fd < NR_OPEN" and "t_filp (cur t) fd = None" and "f < NR_FILE"
  shows "filed s (upd_file f (\<lambda>x. x\<lparr>f_count := f_count x + 1\<rparr>) (set_filp fd (Some f) t))"
proof -
  let ?u = "upd_file f (\<lambda>x. x\<lparr>f_count := f_count x + 1\<rparr>) (set_filp fd (Some f) t)"
  have t: "live t" "refs_ok t" "current t = current s" using assms(1) by (simp_all add: filed_def)
  have c: "unat (f_count (file_table t f) + 1) = unat (f_count (file_table t f)) + 1"
    using refs_bound [of t f] t(2) by (subst unat_add_lem [THEN iffD1]) (simp_all add: refs_ok_def)
  have "refs ?u g = refs (set_filp fd (Some f) t) g" for g
    by (simp add: refs_def upd_file_def cong: if_cong)
  then have "refs ?u g = (if g = f then refs t g + 1 else refs t g)" for g
    using refs_set_filp [OF t(1) assms(2), of "Some f" g] assms(3) by simp
  then have "unat (f_count (file_table ?u g)) = refs ?u g" for g
    using t(2) c by (simp add: refs_ok_def state_simps set_filp_def)
  moreover have "no_files (tsk ?u i)" if "i < NR_TASKS" "task ?u i \<noteq> 0" "t_state (tsk ?u i) = TASK_ZOMBIE" for i
    using t(1,2) that by (auto simp: refs_ok_def live_def state_simps set_filp_def split: if_splits)
  moreover have "live ?u" "own_pages ?u" "current ?u = current s"
    using t assms(1) by (auto simp: filed_def live_def own_pages_def state_simps set_filp_def)
  moreover have "f_count (file_table ?u g) = 0" if "NR_FILE \<le> g" for g
    using t(2) assms(4) that by (simp add: refs_ok_def state_simps set_filp_def)
  ultimately show ?thesis by (simp add: filed_def refs_ok_def)
qed

lemma drop_fd:
  assumes "filed s t" and "fd < NR_OPEN" and "t_filp (cur t) fd = Some f"
  shows "f_count (file_table t f) \<noteq> 0"
    and "filed s (upd_file f (\<lambda>x. x\<lparr>f_count := f_count x - 1\<rparr>) (set_filp fd None t))"
proof -
  let ?u = "upd_file f (\<lambda>x. x\<lparr>f_count := f_count x - 1\<rparr>) (set_filp fd None t)"
  have t: "live t" "refs_ok t" "current t = current s" using assms(1) by (simp_all add: filed_def)
  have "refs (set_filp fd None t) f + 1 = refs t f" using refs_set_filp [OF t(1) assms(2), of None f] assms(3) by simp
  then have n: "0 < unat (f_count (file_table t f))" using t(2) by (simp add: refs_ok_def)
  then show "f_count (file_table t f) \<noteq> 0" by auto
  have c: "unat (f_count (file_table t f) - 1) = unat (f_count (file_table t f)) - 1"
    by (rule unat_minus_one) (use n in auto)
  have "refs ?u g = refs (set_filp fd None t) g" for g
    by (simp add: refs_def upd_file_def cong: if_cong)
  then have "refs ?u g = (if g = f then refs t g - 1 else refs t g)" for g
    using refs_set_filp [OF t(1) assms(2), of None g] assms(3) by (auto split: if_splits)
  then have "unat (f_count (file_table ?u g)) = refs ?u g" for g
    using t(2) c by (simp add: refs_ok_def state_simps set_filp_def)
  moreover have "no_files (tsk ?u i)" if "i < NR_TASKS" "task ?u i \<noteq> 0" "t_state (tsk ?u i) = TASK_ZOMBIE" for i
    using t(1,2) that by (auto simp: refs_ok_def live_def state_simps set_filp_def no_files_def split: if_splits)
  moreover have "live ?u" "own_pages ?u" "current ?u = current s"
    using t assms(1) by (auto simp: filed_def live_def own_pages_def state_simps set_filp_def)
  moreover have "f_count (file_table ?u g) = 0" if "NR_FILE \<le> g" for g
    using t(2) \<open>f_count (file_table t f) \<noteq> 0\<close> that by (auto simp: refs_ok_def state_simps set_filp_def)
  ultimately show "filed s ?u" by (simp add: filed_def refs_ok_def)
qed

text \<open>A descriptor is in the table.\<close>

lemma fd_in_table:
  assumes "filed s t" and "fd < NR_OPEN" and "t_filp (cur t) fd = Some f"
  shows "f < NR_FILE"
  using in_table [OF _ drop_fd(1) [OF assms]] assms(1) by (simp add: filed_def)

text \<open>A free file has no references, so two new descriptors never share one.\<close>

lemma free_fd_SomeD: "free_fd is s = Some i \<Longrightarrow> i \<in> set is \<and> t_filp (cur s) i = None"
  by (induction "is" s rule: free_fd.induct) (auto split: if_splits)

lemma free_from_SomeD: "free_from is s = Some i \<Longrightarrow> i \<in> set is \<and> t_filp (cur s) i = None"
  by (induction "is" s rule: free_from.induct) (auto split: if_splits)

lemma free_file_SomeD: "free_file is s = Some i \<Longrightarrow> i \<in> set is \<and> f_count (file_table s i) = 0"
  by (induction "is" s rule: free_file.induct) (auto split: if_splits)

section \<open>Opening, closing and duplicating\<close>

lemma sys_open_filed:
  assumes t: "filed s t"
  shows "kept filed s (sys_open x1 x2 x3 t)"
proof (cases "free_fd [0..<NR_OPEN] t")
  case None
  then show ?thesis using t by (simp add: sys_open_def)
next
  case (Some fd)
  note fd = free_fd_SomeD [OF Some]
  define u where "u = close_on_exec False fd t"
  have m: "mild t u" unfolding u_def by (rule mildly mild_refl)+
  then have u: "filed s u" "t_filp (cur u) fd = None" "fd < NR_OPEN"
    using t fd by (auto simp: mild_cur intro: filed.mild_closed)
  show ?thesis
  proof (cases "free_file [0..<NR_FILE] u")
    case None
    then show ?thesis using u Some by (simp add: sys_open_def Let_def u_def [symmetric])
  next
    case entry: (Some f)
    define v where "v = upd_file f (\<lambda>x. x\<lparr>f_count := f_count x + 1\<rparr>) (set_filp fd (Some f) u)"
    have f: "f_count (file_table u f) = 0" "f < NR_FILE" using free_file_SomeD [OF entry] by simp_all
    then have v: "opened fd f s v"
      using add_fd [OF u(1,3,2) f(2)] f(1) by (simp add: opened_def v_def) (simp add: state_simps set_filp_def)
    have undo: "filed s (set_f_count 0 f (set_filp fd None w))" if "opened fd f s w" for w
    proof -
      have w: "filed s w" "t_filp (cur w) fd = Some f" "f_count (file_table w f) = 1" using that by (simp_all add: opened_def)
      from drop_fd(2) [OF w(1) u(3) w(2)] w(3) show ?thesis
        by (simp add: set_f_count_def upd_file_def set_filp_def state_simps)
    qed
    have same: "filed s (upd_file f (\<lambda>x. x\<lparr>f_mode := a, f_flags := b, f_count := 1, f_inode := c, f_pos := d\<rparr>) w)"
      if "opened fd f s w" for w a b c d
    proof (rule filed.mild_closed [OF filed_opened [OF that]])
      show "mild w (upd_file f (\<lambda>x. x\<lparr>f_mode := a, f_flags := b, f_count := 1, f_inode := c, f_pos := d\<rparr>) w)"
        using that by (simp add: mild_def upd_file_def opened_def)
    qed
    note step = kept_seq_to [where R = "opened fd f" and R' = filed, OF _ _ filed_opened]
    show ?thesis
      unfolding sys_open_def Let_def Some option.case u_def [symmetric] entry v_def [symmetric]
      by (rule step opened.kept_frame_run [OF open_namei_frames [OF framed_refl]] v kept_prod kept_option kept_Ret kept_if undo same
          opened.kept_mild_run [OF open_tty_mild [OF mild_refl]] opened.kept_frame_run [OF iput_frames [OF framed_refl]]
          opened.kept_frame_run [OF check_disk_change_frames [OF framed_refl]] | assumption)+
  qed
qed

lemma sys_creat_filed: "filed s t \<Longrightarrow> kept filed s (sys_creat x1 x2 t)"
  unfolding sys_creat_def by (rule sys_open_filed)

text \<open>\<open>sys_close\<close> either leaves the descriptors alone or clears this one, and it finds the count above 0.\<close>

lemma sys_close_cases:
  assumes t: "filed s t"
  obtains (none) "NR_OPEN \<le> unat fd" "sys_close fd t = Ret (- EINVAL) t"
  | (empty) u where "unat fd < NR_OPEN" "mild t u" "t_filp (cur u) (unat fd) = None" "sys_close fd t = Ret (- EINVAL) u"
  | (kept) u where "unat fd < NR_OPEN" "filed s u" "t_filp (cur u) = (t_filp (cur t))(unat fd := None)" "sys_close fd t = Ret 0 u"
  | (last) u i where "unat fd < NR_OPEN" "filed s u" "t_filp (cur u) = (t_filp (cur t))(unat fd := None)"
      "sys_close fd t = seq (iput i u) (\<lambda>_ s. Ret 0 s)"
proof (cases "NR_OPEN \<le> unat fd")
  case True
  with none show ?thesis by (simp add: sys_close_def)
next
  case False
  then have fd: "unat fd < NR_OPEN" by simp
  define u where "u = close_on_exec False (unat fd) t"
  have m: "mild t u" unfolding u_def by (rule mildly mild_refl)+
  then have u: "filed s u" using t by (rule filed.closed_mild)
  show ?thesis
  proof (cases "t_filp (cur u) (unat fd)")
    case None
    with False empty [OF fd m] show ?thesis by (simp add: sys_close_def filp_def u_def [symmetric])
  next
    case (Some f)
    define v where "v = upd_file f (\<lambda>x. x\<lparr>f_count := f_count x - 1\<rparr>) (set_filp (unat fd) None u)"
    note drop = drop_fd [OF u fd Some, folded v_def]
    have filp: "t_filp (cur v) = (t_filp (cur t))(unat fd := None)"
      using mild_cur(1) [OF m] by (simp add: v_def) (simp add: state_simps set_filp_def)
    have count: "f_count (file_table (set_filp (unat fd) None u) f) \<noteq> 0"
      using drop(1) by (simp add: state_simps set_filp_def)
    have c: "sys_close fd t = (if tst (f_count (file_table v f)) then Ret 0 v
        else seq (iput (f_inode (file_table v f)) v) (\<lambda>_ s. Ret 0 s))"
      using False count by (simp add: sys_close_def Let_def u_def [symmetric] filp_def Some v_def [symmetric])
    show ?thesis
    proof (cases "tst (f_count (file_table v f))")
      case True
      from kept [OF fd drop(2) filp] True c show ?thesis by simp
    next
      case False
      from last [OF fd drop(2) filp] False c show ?thesis by simp
    qed
  qed
qed

lemma sys_close_filed: "filed s t \<Longrightarrow> kept filed s (sys_close fd t)"
  by (rule sys_close_cases [of s t fd], assumption)
    (auto intro: filed.closed_mild kept_seq filed.kept_frame_run [OF iput_frames [OF framed_refl]])

lemma dupfd_filed:
  assumes t: "filed s t"
  shows "kept filed s (dupfd x1 x2 t)"
proof (cases "filp x1 t")
  case None
  with t show ?thesis by (simp add: dupfd_def)
next
  case (Some f)
  show ?thesis
  proof (cases "free_from [unat x2..<NR_OPEN] t")
    case None
    with t Some show ?thesis by (simp add: dupfd_def)
  next
    case fd: (Some n)
    define u where "u = close_on_exec False n t"
    have m: "mild t u" unfolding u_def by (rule mildly mild_refl)+
    have "n < NR_OPEN" "t_filp (cur u) n = None"
      using free_from_SomeD [OF fd] by (simp_all add: mild_cur(1) [OF m])
    moreover have "f < NR_FILE" using Some by (intro fd_in_table [OF t]) (auto simp: filp_def split: if_splits)
    ultimately have "filed s (upd_file f (\<lambda>x. x\<lparr>f_count := f_count x + 1\<rparr>) (set_filp n (Some f) u))"
      by (intro add_fd filed.closed_mild [OF m t])
    then show ?thesis using t by (simp add: dupfd_def Some fd u_def)
  qed
qed

lemma sys_dup_filed: "filed s t \<Longrightarrow> kept filed s (sys_dup x1 t)"
  unfolding sys_dup_def by (rule dupfd_filed)

lemma sys_dup2_filed: "filed s t \<Longrightarrow> kept filed s (sys_dup2 x1 x2 t)"
  unfolding sys_dup2_def by (rule kept_seq sys_close_filed dupfd_filed | assumption)+

lemma sys_fcntl_filed: "filed s t \<Longrightarrow> kept filed s (sys_fcntl x1 x2 x3 t)"
  unfolding sys_fcntl_def
  by (auto intro!: dupfd_filed filed.closed_mild [OF close_on_exec_mild [OF mild_refl]] filed.closed_framed [OF framed_f_pos(3) [OF framed_refl]]
    split: option.split)

section \<open>Pipes\<close>

lemma free_files_set: "set (free_files j is s) \<subseteq> {i \<in> set is. f_count (file_table s i) = 0}"
  by (induction j "is" s rule: free_files.induct) auto

lemma distinct_free_files: "distinct is \<Longrightarrow> distinct (free_files j is s)"
proof (induction j "is" s rule: free_files.induct)
  case (3 j i "is" s)
  then show ?case using free_files_set [of j "is" s] by auto
qed simp_all

lemma free_files_two:
  assumes "free_files 2 [0..<NR_FILE] s = [f0, f1]"
  shows "f0 \<noteq> f1" "f_count (file_table s f0) = 0" "f_count (file_table s f1) = 0" "f0 < NR_FILE" "f1 < NR_FILE"
  using free_files_set [of 2 "[0..<NR_FILE]" s] distinct_free_files [of "[0..<NR_FILE]" 2 s] unfolding assms by auto

lemma free_fds_set: "set (free_fds j is s) \<subseteq> {i \<in> set is. t_filp (cur s) i = None}"
  by (induction j "is" s rule: free_fds.induct) auto

lemma distinct_free_fds: "distinct is \<Longrightarrow> distinct (free_fds j is s)"
proof (induction j "is" s rule: free_fds.induct)
  case (3 j i "is" s)
  then show ?case using free_fds_set [of j "is" s] by auto
qed simp_all

lemma free_fds_two:
  assumes "free_fds 2 [0..<NR_OPEN] s = [d0, d1]"
  shows "d0 \<noteq> d1" "t_filp (cur s) d0 = None" "t_filp (cur s) d1 = None" "d0 < NR_OPEN" "d1 < NR_OPEN"
  using free_fds_set [of 2 "[0..<NR_OPEN]" s] distinct_free_fds [of "[0..<NR_OPEN]" 2 s] unfolding assms by auto

text \<open>Both ends of a new pipe, which nothing else refers to.\<close>

definition both_ends :: "nat \<Rightarrow> nat \<Rightarrow> nat \<Rightarrow> nat \<Rightarrow> kstate \<Rightarrow> kstate \<Rightarrow> bool" where
  "both_ends d0 f0 d1 f1 s t \<longleftrightarrow> opened d0 f0 s t \<and> opened d1 f1 s t"

interpretation both_ends: mild_relation "both_ends d0 f0 d1 f1" for d0 f0 d1 f1
  by unfold_locales (auto simp: both_ends_def opened.same_current dest: opened.mild_closed)

lemma both_ends_filed: "both_ends d0 f0 d1 f1 s t \<Longrightarrow> filed s t"
  by (simp add: both_ends_def opened_def)

lemma make_ends:
  assumes t: "filed s t" and d: "d0 \<noteq> d1" "d0 < NR_OPEN" "d1 < NR_OPEN" "t_filp (cur t) d0 = None" "t_filp (cur t) d1 = None"
    and f: "f0 \<noteq> f1" "f_count (file_table t f0) = 0" "f_count (file_table t f1) = 0" "f0 < NR_FILE" "f1 < NR_FILE"
  shows "both_ends d0 f0 d1 f1 s (set_filp d1 (Some f1) (set_filp d0 (Some f0) (set_f_count 1 f1 (set_f_count 1 f0 t))))"
    (is "both_ends d0 f0 d1 f1 s ?v")
proof -
  define inc :: "file_struct \<Rightarrow> file_struct" where "inc = (\<lambda>x. x\<lparr>f_count := f_count x + 1\<rparr>)"
  define u where "u = upd_file f0 inc (set_filp d0 (Some f0) t)"
  have "filed s u" unfolding u_def inc_def using add_fd [OF t d(2,4) f(4)] .
  moreover have "t_filp (cur u) d1 = None" using d by (simp add: u_def) (simp add: state_simps set_filp_def)
  ultimately have "filed s (upd_file f1 inc (set_filp d1 (Some f1) u))" unfolding inc_def using d(3) f(5) by (intro add_fd)
  also have "upd_file f1 inc (set_filp d1 (Some f1) u) = ?v"
    using f by (auto simp: u_def inc_def set_f_count_def set_filp_def upd_file_def upd_cur_def upd_task_def fun_eq_iff)
  finally show ?thesis using d(1) f(1)
    by (auto simp: both_ends_def opened_def) (simp_all add: set_f_count_def set_filp_def state_simps)
qed

lemma undo_ends:
  assumes w: "both_ends d0 f0 d1 f1 s w" and d: "d0 \<noteq> d1" "d0 < NR_OPEN" "d1 < NR_OPEN" and f: "f0 \<noteq> f1"
  shows "filed s (set_f_count 0 f1 (set_f_count 0 f0 (set_filp d1 None (set_filp d0 None w))))" (is "filed s ?v")
proof -
  define dec :: "file_struct \<Rightarrow> file_struct" where "dec = (\<lambda>x. x\<lparr>f_count := f_count x - 1\<rparr>)"
  have o: "filed s w" "t_filp (cur w) d0 = Some f0" "t_filp (cur w) d1 = Some f1"
    "f_count (file_table w f0) = 1" "f_count (file_table w f1) = 1"
    using w by (simp_all add: both_ends_def opened_def)
  define u where "u = upd_file f0 dec (set_filp d0 None w)"
  have "filed s u" unfolding u_def dec_def by (rule drop_fd(2) [OF o(1) d(2) o(2)])
  moreover have "t_filp (cur u) d1 = Some f1" using d o by (simp add: u_def) (simp add: state_simps set_filp_def)
  ultimately have "filed s (upd_file f1 dec (set_filp d1 None u))" unfolding dec_def using d(3) by (intro drop_fd(2))
  also have "upd_file f1 dec (set_filp d1 None u) = ?v"
    using f o by (auto simp: u_def dec_def set_f_count_def set_filp_def upd_file_def upd_cur_def upd_task_def fun_eq_iff)
  finally show ?thesis .
qed

lemma file_fields_mild [mildly]:
  "mild s t \<Longrightarrow> mild s (upd_file f (\<lambda>x. x\<lparr>f_inode := a, f_pos := b, f_mode := c\<rparr>) t)"
  by (rule mild_same) (simp_all add: upd_file_def)

lemma sys_pipe_filed:
  assumes t: "filed s t"
  shows "kept filed s (sys_pipe x1 t)"
proof (cases "\<exists>f0 f1. free_files 2 [0..<NR_FILE] t = [f0, f1]")
  case False
  then show ?thesis using t by (auto simp: sys_pipe_def split: list.split)
next
  case True
  then obtain f0 f1 where ff: "free_files 2 [0..<NR_FILE] t = [f0, f1]" by blast
  note f = free_files_two [OF ff]
  define u where "u = set_f_count 1 f1 (set_f_count 1 f0 t)"
  show ?thesis
  proof (cases "\<exists>d0 d1. free_fds 2 [0..<NR_OPEN] u = [d0, d1]")
    case False
    have "mild t (set_f_count 0 f1 (set_f_count 0 f0 u))"
      using f by (simp add: u_def mild_def set_f_count_def upd_file_def)
    with t have "filed s (set_f_count 0 f1 (set_f_count 0 f0 u))" by (rule filed.mild_closed)
    with False show ?thesis by (auto simp: sys_pipe_def ff u_def [symmetric] Let_def split: list.split)
  next
    case True
    then obtain d0 d1 where dd: "free_fds 2 [0..<NR_OPEN] u = [d0, d1]" by blast
    note d = free_fds_two [OF dd]
    have "t_filp (cur u) = t_filp (cur t)" by (simp add: u_def set_f_count_def upd_file_def cur_def)
    with d have d': "t_filp (cur t) d0 = None" "t_filp (cur t) d1 = None" by simp_all
    define v where "v = set_filp d1 (Some f1) (set_filp d0 (Some f0) u)"
    have v: "both_ends d0 f0 d1 f1 s v" unfolding v_def u_def by (rule make_ends [OF t d(1,4,5) d' f])
    have fin: "filed s (put_fs_long a b (put_fs_long c e (upd_file f1 (\<lambda>x. x\<lparr>f_inode := i, f_pos := 0, f_mode := 2\<rparr>)
        (upd_file f0 (\<lambda>x. x\<lparr>f_inode := i, f_pos := 0, f_mode := 1\<rparr>) w))))" if "both_ends d0 f0 d1 f1 s w" for a b c e i w
      by (rule filed.closed_mild [where t = w]) ((rule mildly mild_refl)+, use that in \<open>simp add: both_ends_def opened_def\<close>)
    have p: "sys_pipe x1 t = seq (get_pipe_inode v) (\<lambda>r s. case r of
        None \<Rightarrow> Ret (- 1) (set_f_count 0 f1 (set_f_count 0 f0 (set_filp d1 None (set_filp d0 None s))))
      | Some i \<Rightarrow> Ret 0 (put_fs_long (of_nat d1) (x1 + 4) (put_fs_long (of_nat d0) x1
          (upd_file f1 (\<lambda>x. x\<lparr>f_inode := Some i, f_pos := 0, f_mode := 2\<rparr>)
            (upd_file f0 (\<lambda>x. x\<lparr>f_inode := Some i, f_pos := 0, f_mode := 1\<rparr>) s)))))"
      unfolding sys_pipe_def Let_def by (simp add: ff u_def [symmetric] dd v_def)
    show ?thesis unfolding p
      by (rule kept_seq_to [where R = "both_ends d0 f0 d1 f1"], rule both_ends.kept_frame_run [OF get_pipe_inode_frames [OF framed_refl] v])
        (auto intro: undo_ends [OF _ d(1,4,5) f(1)] fin both_ends_filed split: option.split)
  qed
qed

section \<open>Processes that end\<close>

lemma find_task_SomeD: "find_task p is s = Some i \<Longrightarrow> i \<in> set is \<and> task s i = p"
  by (induction p "is" s rule: find_task.induct) (auto split: if_splits)

text \<open>A task without files leaves.\<close>

lemma leave_counted:
  assumes t: "counted s t" and "no_files (tsk t i)" and "i < NR_TASKS"
  shows "counted s (t\<lparr>task := (task t)(i := 0)\<rparr>)"
proof -
  have "fds_of (tsk t i) f = 0" for f
    using assms(2) by (auto simp: fds_of_def no_files_def)
  then have "refs (t\<lparr>task := (task t)(i := 0)\<rparr>) f = refs t f" for f
    using refs_set_task [where i = i and s = t and f = f and p = 0 and q = "tsk t i"] assms(3) by (simp split: if_splits)
  with t show ?thesis by (auto simp: counted_def refs_ok_def own_pages_def)
qed

lemma filed_counted: "filed s t \<Longrightarrow> counted s t"
  by (simp add: filed_def counted_def)

lemma counted_filed: "counted s t \<Longrightarrow> live t \<Longrightarrow> filed s t"
  by (simp add: filed_def counted_def)

lemma release_counted:
  assumes t: "counted s t" and i: "i < NR_TASKS" "no_files (tsk t i)"
  shows "kept counted s (release (task t i) t)"
proof (cases "find_task (task t i) [1..<NR_TASKS] t")
  case (Some j)
  note j = find_task_SomeD [OF Some]
  show ?thesis
  proof (cases "task t i = 0")
    case False
    with t i j have "j = i" by (auto simp: counted_def own_pages_def)
    then have "counted s (t\<lparr>task := (task t)(j := 0)\<rparr>)" using i by (intro leave_counted t) auto
    then show ?thesis using t Some unfolding release_def
    by (auto intro!: kept_seq counted.kept_frame_run [OF frames_in_mm [OF framed_refl]] counted.kept_frame_run [OF frames_schedule [OF framed_refl]])
  qed (use t in \<open>simp add: release_def\<close>)
qed (use t in \<open>simp add: release_def\<close>)

lemma kept_partial: "kept R s m \<Longrightarrow> partial m (\<lambda>_ t. R s t)"
  by (cases m) simp_all

text \<open>
  A path that ends in \<open>do_exit\<close>: afterwards the current task may be gone, but whatever calls
  \<open>oom()\<close> does so before.
\<close>

definition ends :: "kstate \<Rightarrow> ('a, kstate) outcome \<Rightarrow> bool" where
  "ends s m \<longleftrightarrow> kept counted s m \<and> (\<forall>c t. m = Exits c t \<longrightarrow> filed s t)"

lemma ends_simps [simp]:
  "ends s (Ret a t) = counted s t" "ends s (Panic msg)" "ends s Fault" "ends s Hangs" "ends s (Exits c t) = filed s t"
  by (auto simp: ends_def filed_counted)

lemma kept_ends: "kept filed s m \<Longrightarrow> ends s m"
  by (cases m) (auto simp: ends_def filed_counted)

lemma ends_seq:
  assumes "kept R s m" and "\<And>a t. R s t \<Longrightarrow> ends s (f a t)" and "\<And>t. R s t \<Longrightarrow> filed s t"
  shows "ends s (seq m f)"
  using assms by (cases m) (auto simp: ends_def filed_counted)

lemma ends_seq_partial:
  assumes "kept filed s m" and "partial m (\<lambda>_ t. Q t)" and "\<And>a t. filed s t \<Longrightarrow> Q t \<Longrightarrow> ends s (f a t)"
  shows "ends s (seq m f)"
  using assms by (cases m) (auto simp: ends_def filed_counted)

definition stays :: "('a, 's) outcome \<Rightarrow> bool" where
  "stays m \<longleftrightarrow> (\<forall>c t. m \<noteq> Exits c t)"

lemma stays_simps [simp]: "stays (Ret a s)" "stays (Panic msg)" "stays (Sleeps s)" "stays Hangs"
  by (simp_all add: stays_def)

lemma stays_seq: "stays m \<Longrightarrow> (\<And>a s. stays (f a s)) \<Longrightarrow> stays (seq m f)"
  by (cases m) (simp_all add: stays_def)

lemma stays_in_mm_free: "stays (in_mm (free_page p) s)"
  by (cases "free_page p (mm s)") (auto simp: in_mm_def stays_def free_page_def mem_map_at_def set_mem_map_def Let_def split: if_splits)

lemma stays_schedule: "stays (schedule s)"
  by (simp add: schedule_def Let_def split: option.split)

lemma stays_tell_father: "stays (tell_father p s)"
  unfolding tell_father_def release_def
  by (simp split: option.split add: stays_seq stays_schedule stays_in_mm_free)

lemma stays_ends: "kept counted s m \<Longrightarrow> stays m \<Longrightarrow> ends s m"
  by (simp add: ends_def stays_def)

lemma for_each_append: "for_each f (xs @ ys) s = seq (for_each f xs s) (\<lambda>_ s. for_each f ys s)"
proof (induction xs arbitrary: s)
  case (Cons x xs)
  have "for_each f (xs @ ys) = (\<lambda>s. seq (for_each f xs s) (\<lambda>_ s. for_each f ys s))" by (rule ext) (rule Cons)
  then show ?case by (simp add: seq_assoc)
qed simp

definition close_fd :: "nat \<Rightarrow> kstate \<Rightarrow> (unit, kstate) outcome" where
  "close_fd i s = (if t_filp (cur s) i \<noteq> None then seq (sys_close (of_nat i) s) (\<lambda>_ s. Ret () s) else Ret () s)"

lemma close_fd_filed: "filed s t \<Longrightarrow> kept filed s (close_fd i t)"
  by (auto simp: close_fd_def intro: kept_seq sys_close_filed)

lemma close_fd_closes:
  assumes "closed_below n s t" and "n < NR_OPEN"
  shows "partial (close_fd n t) (\<lambda>_ u. closed_below (Suc n) s u)"
proof (cases "t_filp (cur t) n")
  case None
  with assms show ?thesis by (simp add: close_fd_def closed_below_def less_Suc_eq)
next
  case (Some f)
  have n: "unat (of_nat n :: u32) = n" using assms(2) by (simp add: NR_OPEN_def unsigned_of_nat take_bit_nat_eq_self)
  have t: "filed s t" "\<And>fd. fd < n \<Longrightarrow> t_filp (cur t) fd = None" using assms(1) by (simp_all add: closed_below_def)
  have c: "closed_below (Suc n) s u" if "filed s u" "t_filp (cur u) = (t_filp (cur t))(n := None)" for u
    using that t(2) by (simp add: closed_below_def less_Suc_eq)
  show ?thesis
  proof (rule sys_close_cases [OF t(1), of "of_nat n"])
    fix u i
    assume "filed s u" "t_filp (cur u) = (t_filp (cur t))(unat (of_nat n :: u32) := None)"
      and r: "sys_close (of_nat n) t = seq (iput i u) (\<lambda>_ s. Ret 0 s)"
    then have "closed_below (Suc n) s u" using c n by simp
    then have "kept (closed_below (Suc n)) s (iput i u)" by (rule closed_below.kept_frame_run [OF iput_frames [OF framed_refl]])
    from kept_partial [OF this] show ?thesis using Some by (simp add: close_fd_def r)
  qed (use c n Some assms(2) in \<open>auto simp: close_fd_def mild_cur(1)\<close>)
qed

lemma close_all_closes:
  assumes "filed s t"
  shows "n \<le> NR_OPEN \<Longrightarrow> partial (for_each close_fd [0..<n] t) (\<lambda>_ u. closed_below n s u)"
proof (induction n)
  case (Suc n)
  from Suc.prems have n: "n < NR_OPEN" by simp
  then have "partial (for_each close_fd [0..<n] t) (\<lambda>_ u. closed_below n s u)" by (intro Suc.IH) simp
  from partial_mono [OF this close_fd_closes [OF _ n]] show ?case by (simp add: for_each_append)
qed (use assms in \<open>simp add: closed_below_def\<close>)

lemma zombie_counted:
  assumes "filed s t" and "no_files (cur t)"
  shows "counted s (upd_cur (\<lambda>p. p\<lparr>t_state := TASK_ZOMBIE, t_exit_code := code\<rparr>) t)"
proof -
  let ?u = "upd_cur (\<lambda>p. p\<lparr>t_state := TASK_ZOMBIE, t_exit_code := code\<rparr>) t"
  have "refs ?u f = refs t f" for f
    unfolding refs_def by (rule sum.cong) (simp_all add: state_simps fds_of_def)
  then have "unat (f_count (file_table ?u f)) = refs ?u f" for f
    using assms(1) by (simp add: filed_def refs_ok_def state_simps)
  moreover have "no_files (tsk ?u i)" if "i < NR_TASKS" "task ?u i \<noteq> 0" "t_state (tsk ?u i) = TASK_ZOMBIE" for i
    using assms that by (auto simp: filed_def refs_ok_def state_simps no_files_def split: if_splits)
  moreover have "\<forall>f\<ge>NR_FILE. f_count (file_table ?u f) = 0" using assms(1) by (simp add: filed_def refs_ok_def state_simps)
  ultimately have "refs_ok ?u" unfolding refs_ok_def by blast
  moreover have "own_pages ?u" "current ?u = current s" using assms(1) by (auto simp: filed_def own_pages_def state_simps)
  ultimately show ?thesis by (simp add: counted_def)
qed

definition all_closed :: "kstate \<Rightarrow> kstate \<Rightarrow> bool" where
  "all_closed s t \<longleftrightarrow> filed s t \<and> no_files (cur t)"

interpretation all_closed: mild_relation all_closed
  by unfold_locales (auto simp: all_closed_def no_files_def mild_cur filed.same_current dest: filed.mild_closed)

lemma tell_father_counted:
  assumes c: "counted s t" and "no_files (cur t)" and "current t < NR_TASKS"
  shows "kept counted s (tell_father p t)"
  unfolding tell_father_def using assms(2,3)
  by (auto split: option.split simp: cur_def intro: release_counted [OF c] counted.closed_mild [OF raise_mild [OF mild_refl] c])

lemma do_exit_ends:
  assumes t: "filed s t"
  shows "ends s (do_exit code t)"
proof -
  have last: "ends s (let u = upd_cur (\<lambda>t. t\<lparr>t_state := TASK_ZOMBIE, t_exit_code := code\<rparr>) u
      in seq (tell_father (t_father (cur u)) u) (\<lambda>_ s. seq (schedule s) (\<lambda>_ s. Ret (- 1) s)))" if "all_closed s u" for u
  proof -
    have "no_files (cur u)" "filed s u" "current u < NR_TASKS" using that by (auto simp: all_closed_def filed_def live_def)
    then show ?thesis unfolding Let_def
      by (intro stays_ends kept_seq tell_father_counted zombie_counted counted.kept_frame_run [OF frames_schedule [OF framed_refl]]
        stays_seq stays_tell_father stays_schedule)
        (simp_all add: state_simps no_files_def)
  qed
  note step = ends_seq [where R = all_closed]
  have rest: "ends s (seq (put_inodes u) (\<lambda>_ s. seq (leave_session s) (\<lambda>_ s.
      let u = upd_cur (\<lambda>t. t\<lparr>t_state := TASK_ZOMBIE, t_exit_code := code\<rparr>) s
      in seq (tell_father (t_father (cur u)) u) (\<lambda>_ s. seq (schedule s) (\<lambda>_ s. Ret (- 1) s)))))" if "all_closed s u" for u
    by (rule step all_closed.kept_mild_run [OF put_inodes_mild [OF mild_refl]] that last
      all_closed.kept_mild_run [OF leave_session_mild [OF mild_refl]] | assumption | (simp add: all_closed_def; fail))+
  have close: "ends s (seq (for_each close_fd [0..<NR_OPEN] v) f)"
    if v: "filed s v" and f: "\<And>u. all_closed s u \<Longrightarrow> ends s (f () u)" for v f
    by (rule ends_seq_partial [OF kept_for_each [OF v close_fd_filed] close_all_closes [OF v order_refl]])
      (auto intro!: f simp: all_closed_def closed_below_def no_files_def)
  have d: "do_exit code t = seq (in_mm (free_page_tables (code_base t) (code_limit t)) t) (\<lambda>_ s.
     seq (in_mm (free_page_tables (data_base s) (data_limit s)) s) (\<lambda>_ s.
     seq (for_each close_fd [0..<NR_OPEN] (fold orphan [0..<NR_TASKS] s)) (\<lambda>_ s. seq (put_inodes s) (\<lambda>_ s. seq (leave_session s) (\<lambda>_ s.
      let u = upd_cur (\<lambda>t. t\<lparr>t_state := TASK_ZOMBIE, t_exit_code := code\<rparr>) s
      in seq (tell_father (t_father (cur u)) u) (\<lambda>_ s. seq (schedule s) (\<lambda>_ s. Ret (- 1) s)))))))"
    unfolding do_exit_def close_fd_def ..
  show ?thesis unfolding d
    by (rule ends_seq [where R = filed] filed.kept_frame_run [OF frames_in_mm [OF framed_refl]] t close rest
      filed.closed_mild [OF fold_orphan_mild [OF mild_refl]] | assumption)+
qed

section \<open>Waiting for children\<close>

lemma release_zombie_filed:
  assumes t: "filed s t" and i: "i < NR_TASKS" "task t i \<noteq> 0" "i \<noteq> current t" "t_state (tsk t i) = TASK_ZOMBIE"
  shows "kept filed s (release (task t i) t)"
proof (cases "find_task (task t i) [1..<NR_TASKS] t")
  case (Some j)
  have "j = i" using find_task_SomeD [OF Some] t i by (auto simp: filed_def own_pages_def)
  moreover have "no_files (tsk t i)" using t i by (simp add: filed_def refs_ok_def)
  then have "counted s (t\<lparr>task := (task t)(i := 0)\<rparr>)" using i by (intro leave_counted filed_counted t)
  then have "filed s (t\<lparr>task := (task t)(i := 0)\<rparr>)"
    by (rule counted_filed) (use t i in \<open>auto simp: filed_def live_def cur_def\<close>)
  ultimately show ?thesis using i(2) Some unfolding release_def
    by (auto intro!: kept_seq filed.kept_frame_run [OF frames_in_mm [OF framed_refl]] filed.kept_frame_run [OF frames_schedule [OF framed_refl]])
qed (simp add: release_def i(2))

lemma wait_scan_filed: "n < NR_TASKS \<Longrightarrow> filed s t \<Longrightarrow> kept filed s (wait_scan n x1 x2 x3 x4 t)"
proof (induction n arbitrary: x4 t)
  case (Suc n)
  have n: "n < NR_TASKS" using Suc.prems by simp
  note IH = Suc.IH [OF n]
  have put: "filed s (put_fs_long a b u)" if "filed s u" for a b u
    by (rule filed.closed_mild [OF put_pair_mild(1) [OF mild_refl] that])
  show ?case
  proof (cases "waits_for x1 (Suc n) t \<and> t_state (tsk t (Suc n)) = TASK_ZOMBIE")
    case True
    define p where "p = tsk t (Suc n)"
    define u where "u = upd_cur (\<lambda>t. t\<lparr>t_cutime := t_cutime t + t_utime p, t_cstime := t_cstime t + t_stime p\<rparr>) t"
    have m: "mild t u" unfolding u_def by (rule mild_upd) (simp_all add: ids_def)
    have i: "task t (Suc n) \<noteq> 0" "Suc n \<noteq> current t" using True by (simp_all add: waits_for_def)
    then have "task u (Suc n) \<noteq> 0" "Suc n \<noteq> current u" "t_state (tsk u (Suc n)) = TASK_ZOMBIE"
      using True by (simp_all add: u_def state_simps)
    from release_zombie_filed [OF filed.closed_mild [OF m Suc.prems(2)] Suc.prems(1) this]
    show ?thesis using True by (auto simp: Let_def TASK_ZOMBIE_def TASK_STOPPED_def u_def p_def intro!: kept_seq put)
  next
    case False
    then show ?thesis using IH [OF Suc.prems(2)] put [OF Suc.prems(2)] by (auto simp: Let_def)
  qed
qed simp

lemma wait_step_filed: "filed s t \<Longrightarrow> kept filed s (wait_step x1 x2 x3 x4 t)"
  unfolding wait_step_def
  by (rule kept_seq wait_scan_filed kept_sum kept_if kept_Ret kept_let_state filed.kept_frame_run [OF frames_schedule [OF framed_refl]]
      filed.closed_framed [OF framed_cur_marks(2) [OF framed_refl]]
    | assumption | (rule filed.closed_mild, rule mild_upd, simp add: ids_def, rule mild_refl) | (simp add: NR_TASKS_def; fail))+

lemma sys_waitpid_filed: "filed s t \<Longrightarrow> kept filed s (sys_waitpid x1 x2 x3 t)"
  unfolding sys_waitpid_def
  by (rule kept_seq kept_loop wait_step_filed filed.kept_frame_run [OF verify_area_frames [OF framed_refl]] | assumption)+

section \<open>New processes\<close>

text \<open>The copying of page tables never sleeps and never ends the process.\<close>

definition calm :: "('a, 's) outcome \<Rightarrow> bool" where
  "calm m \<longleftrightarrow> (case m of Sleeps s \<Rightarrow> False | Exits c s \<Rightarrow> False | _ \<Rightarrow> True)"

lemma calm_simps [simp]: "calm (Ret a s)" "calm (Panic msg)" "calm Fault" "calm Hangs"
  by (simp_all add: calm_def)

lemma calm_seq: "calm m \<Longrightarrow> (\<And>a s. calm (f a s)) \<Longrightarrow> calm (seq m f)"
  by (cases m) (simp_all add: calm_def)

lemma calm_mem_map: "(\<And>c. calm (f c)) \<Longrightarrow> calm (mem_map_at i m f)" "calm (set_mem_map i v m)"
  by (simp_all add: mem_map_at_def set_mem_map_def)

lemma calm_get_free_page: "calm (get_free_page m)"
  by (simp add: get_free_page_def split: option.split)

lemma calm_free_page: "calm (free_page a m)"
  by (simp add: free_page_def Let_def calm_mem_map)

lemma calm_free_table: "calm (free_table n a m)"
  by (induction n arbitrary: a m) (auto intro!: calm_seq calm_free_page)

lemma calm_free_dirs: "calm (free_dirs n a m)"
  by (induction n arbitrary: a m) (auto intro!: calm_seq calm_free_table calm_free_page)

lemma calm_copy_table: "calm (copy_table n a b m)"
  by (induction n arbitrary: a b m) (auto simp: Let_def intro!: calm_seq calm_mem_map)

lemma calm_copy_dirs: "calm (copy_dirs nr n a b m)"
  by (induction n arbitrary: a b m) (auto simp: Let_def intro!: calm_seq calm_copy_table calm_get_free_page)

lemma calm_in_mm: "calm (f (mm s)) \<Longrightarrow> calm (in_mm f s)"
  by (cases "f (mm s)") (simp_all add: in_mm_def calm_def)

lemma calm_copy_mem: "calm (copy_mem nr s)"
  unfolding copy_mem_def Let_def copy_page_tables_def free_page_tables_def
  by (auto intro!: calm_seq calm_in_mm calm_copy_dirs calm_free_dirs)

lemma kept_seq_calm:
  assumes "kept R s m" and "calm m" and "\<And>a t. R s t \<Longrightarrow> kept R' s (f a t)"
  shows "kept R' s (seq m f)"
  using assms by (cases m) (simp_all add: calm_def)

text \<open>With slot \<open>nr\<close> taken by a copy of the current task whose files are not counted yet.\<close>

definition half :: "nat \<Rightarrow> kstate \<Rightarrow> kstate \<Rightarrow> bool" where
  "half nr s t \<longleftrightarrow> filed s (t\<lparr>task := (task t)(nr := 0)\<rparr>) \<and> own_pages t \<and> nr < NR_TASKS \<and> nr \<noteq> current t \<and>
     task t nr \<noteq> 0 \<and> t_filp (tsk t nr) = t_filp (cur t) \<and> t_state (tsk t nr) \<noteq> TASK_ZOMBIE"

interpretation half: mild_relation "half nr" for nr
proof
  fix s t u
  assume h: "half nr s t" and m: "mild t u"
  have "mild (t\<lparr>task := (task t)(nr := 0)\<rparr>) (u\<lparr>task := (task u)(nr := 0)\<rparr>)" using m by (simp add: mild_def)
  moreover have "filed s (t\<lparr>task := (task t)(nr := 0)\<rparr>)" using h by (simp add: half_def)
  ultimately have "filed s (u\<lparr>task := (task u)(nr := 0)\<rparr>)" by (rule filed.closed_mild)
  moreover have "own_pages u" using h m by (auto simp: half_def intro: own_pages_mild)
  ultimately show "half nr s u" using h m by (auto simp: half_def mild_def cur_def)
qed (simp add: half_def filed_def)

definition fresh_page :: "kstate \<Rightarrow> bool" where
  "fresh_page s \<longleftrightarrow> (\<forall>p m. get_free_page (mm s) = Ret p m \<longrightarrow> p \<noteq> 0 \<longrightarrow> (\<forall>j<NR_TASKS. task s j \<noteq> p))"

lemma filed_task:
  assumes "filed s t" and "task t nr = 0" and "p \<noteq> 0" and "\<forall>j<NR_TASKS. task t j \<noteq> p" and "nr < NR_TASKS" and "t_filp q = t_filp (cur t)"
    and "t_state q \<noteq> TASK_ZOMBIE"
  shows "half nr s (t\<lparr>task := (task t)(nr := p), tsk := (tsk t)(nr := q)\<rparr>)"
proof -
  let ?u = "t\<lparr>task := (task t)(nr := p), tsk := (tsk t)(nr := q)\<rparr>"
  let ?v = "?u\<lparr>task := (task ?u)(nr := 0)\<rparr>"
  have n: "nr \<noteq> current t" using assms(1,2) by (auto simp: filed_def live_def)
  have "(task t)(nr := 0) = task t" using assms(2) by auto
  then have v: "?v = t\<lparr>tsk := (tsk t)(nr := q)\<rparr>" by simp
  have "refs ?v f = refs t f" for f
    unfolding v refs_def by (rule sum.cong) (auto simp: assms(2))
  then have "refs_ok ?v" using assms(1,2) unfolding v by (auto simp: filed_def refs_ok_def)
  moreover have "live ?v" using assms(1) n unfolding v by (auto simp: filed_def live_def cur_def)
  moreover have "own_pages ?v" "current ?v = current s" using assms(1) by (auto simp: v filed_def own_pages_def)
  moreover have "own_pages ?u" using assms(1,2,4) by (auto simp: own_pages_def filed_def)
  ultimately show ?thesis using assms(3,5,6,7) n by (simp add: half_def filed_def cur_def)
qed

lemma half_child:
  assumes h: "half nr s t"
  shows "filed s (upd_task nr (t_state_update (\<lambda>_. TASK_RUNNING)) (set_task_desc nr (share_all nr t)))"
proof -
  obtain k where k: "share_all nr t = t\<lparr>file_table := (\<lambda>f. (file_table t f)\<lparr>f_count := f_count (file_table t f) + of_nat (fds_of (tsk t nr) f)\<rparr>),
     inode_table := k\<rparr>" using share_all_spec by blast
  let ?u = "share_all nr t"
  let ?o = "t\<lparr>task := (task t)(nr := 0)\<rparr>"
  have o: "refs_ok ?o" "live ?o" "current t = current s" and n: "nr < NR_TASKS" "nr \<noteq> current t" "task t nr \<noteq> 0" "own_pages t"
    "t_state (tsk t nr) \<noteq> TASK_ZOMBIE"
    using h by (simp_all add: half_def filed_def)
  have r: "refs t f = refs ?o f + fds_of (tsk t nr) f" for f
    using refs_set_task [OF n(1), where s = t and f = f and p = 0 and q = "tsk t nr"] n(3) by simp
  have "refs ?u f = refs t f" for f by (simp add: k refs_def cong: if_cong)
  moreover have "unat (f_count (file_table ?u f)) = refs t f" for f
  proof -
    have "fds_of (tsk t nr) f \<le> 20"
      unfolding fds_of_def NR_OPEN_def by (rule order_trans [OF length_filter_le]) simp
    then have "unat (of_nat (fds_of (tsk t nr) f) :: u16) = fds_of (tsk t nr) f"
      by (simp add: unsigned_of_nat take_bit_nat_eq_self)
    moreover have "unat (f_count (file_table t f)) = refs ?o f" using o(1) by (simp add: refs_ok_def)
    moreover have "refs ?o f + fds_of (tsk t nr) f \<le> 1280" using refs_bound [of t f] r by simp
    ultimately show ?thesis by (simp add: k r) (subst unat_add_lem [THEN iffD1]; simp)
  qed
  ultimately have exact: "\<forall>f. unat (f_count (file_table ?u f)) = refs ?u f" by simp
  have "f_count (file_table ?u f) = 0" if "NR_FILE \<le> f" for f
  proof -
    have same: "fds_of (tsk t nr) f = fds_of (tsk t (current t)) f" using h by (simp add: half_def fds_of_def cur_def)
    have "refs ?o f = 0" using o(1) that by (simp add: refs_ok_def) (metis unsigned_0)
    then have "\<forall>i\<in>{..<NR_TASKS}. (if task ?o i \<noteq> 0 then fds_of (tsk ?o i) f else 0) = 0"
      unfolding refs_def by (simp only: sum_eq_0_iff finite_lessThan)
    moreover have "current t \<in> {..<NR_TASKS}" "task ?o (current t) \<noteq> 0" using o(2) by (simp_all add: live_def)
    ultimately have "fds_of (tsk ?o (current t)) f = 0" by (metis (no_types, lifting))
    then have "fds_of (tsk t (current t)) f = 0" by simp
    with o(1) that same show ?thesis by (simp add: k refs_ok_def)
  qed
  then have "\<forall>f\<ge>NR_FILE. f_count (file_table ?u f) = 0" by blast
  moreover note exact
  moreover have "\<forall>i<NR_TASKS. task ?u i \<noteq> 0 \<longrightarrow> t_state (tsk ?u i) = TASK_ZOMBIE \<longrightarrow> no_files (tsk ?u i)"
    using o(1) n(5) by (auto simp: k refs_ok_def split: if_splits)
  ultimately have "refs_ok ?u" unfolding refs_ok_def by blast
  moreover have "live ?u" "own_pages ?u" "current ?u = current s"
    using o n by (simp_all add: k live_def cur_def own_pages_def)
  ultimately have "filed s ?u" by (simp add: filed_def)
  then show ?thesis
    by (rule filed.closed_mild [rotated]) (intro mild_upd set_task_desc_mild mild_refl, simp add: ids_def TASK_RUNNING_def TASK_ZOMBIE_def)
qed

lemma half_undone: "half nr s t \<Longrightarrow> filed s (t\<lparr>task := (task t)(nr := 0)\<rparr>)"
  by (simp add: half_def)

lemma copy_process_filed:
  assumes t: "filed s t" and "fresh_page t" and "task t nr = 0" and "nr < NR_TASKS"
  shows "kept filed s (copy_process fpu_reset nr r t)"
proof -
  have made: "kept filed s (let s = v\<lparr>task := (task v)(nr := page), tsk := (tsk v)(nr := child_task nr page r v)\<rparr>;
         s = save_fpu fpu_reset nr s
     in seq (copy_mem nr s) (\<lambda>err s.
          if tst err then
            seq (in_mm (free_page page) (s\<lparr>task := (task s)(nr := 0)\<rparr>)) (\<lambda>_ s. Ret (- EAGAIN) s)
          else let s = set_task_desc nr (share_all nr s)
               in Ret (last_pid s) (upd_task nr (t_state_update (\<lambda>_. TASK_RUNNING)) s)))"
    if v: "filed s v" "task v nr = 0" "page \<noteq> 0" "\<forall>j<NR_TASKS. task v j \<noteq> page" for v page
  proof -
    let ?q = "child_task nr page r v"
    have "t_filp ?q = t_filp (cur v)" "t_state ?q \<noteq> TASK_ZOMBIE"
      by (simp_all add: child_task_def Let_def TASK_UNINTERRUPTIBLE_def TASK_ZOMBIE_def)
    from half.closed_mild [OF save_fpu_mild [OF mild_refl] filed_task [OF v assms(4) this]]
    have "kept (half nr) s (copy_mem nr (save_fpu fpu_reset nr (v\<lparr>task := (task v)(nr := page), tsk := (tsk v)(nr := ?q)\<rparr>)))"
      by (rule half.kept_mild_run [OF copy_mem_mild [OF mild_refl]])
    then show ?thesis unfolding Let_def
      by (rule kept_seq_calm [OF _ calm_copy_mem])
        (auto simp del: fun_upd_apply simp: half_child intro!: kept_seq filed.kept_frame_run [OF frames_in_mm [OF framed_refl]] half_undone)
  qed
  show ?thesis
  proof (cases "get_free_page (mm t)")
    case (Ret page m)
    have m: "filed s (t\<lparr>mm := m\<rparr>)" by (rule filed.closed_mild [OF mild_fields(9) [OF mild_refl] t])
    have "page = 0 \<or> (\<forall>j<NR_TASKS. task (t\<lparr>mm := m\<rparr>) j \<noteq> page)" using assms(2) Ret by (auto simp: fresh_page_def)
    with made [OF m] m assms(3) show ?thesis by (auto simp: copy_process_def in_mm_def Ret)
  qed (use calm_get_free_page [of "mm t"] in \<open>simp_all add: copy_process_def in_mm_def calm_def\<close>)
qed

lemma free_task_SomeD: "free_task is s = Some i \<Longrightarrow> i \<in> set is \<and> task s i = 0"
  by (induction "is" s rule: free_task.induct) (auto split: if_splits)

lemma sys_fork_filed:
  assumes t: "filed s t" and "fresh_page t"
  shows "kept filed s (sys_fork fpu_reset r t)"
proof (cases "new_pid t")
  case None
  then show ?thesis by (simp add: sys_fork_def find_empty_process_def)
next
  case (Some u)
  obtain n where n: "u = t\<lparr>last_pid := n\<rparr>" using new_pid_only [OF Some] ..
  have u: "filed s u" unfolding n by (rule filed.closed_mild [OF mild_fields(8) [OF mild_refl] t])
  have f: "fresh_page u" using assms(2) by (simp add: n fresh_page_def)
  show ?thesis
  proof (cases "free_task [1..<NR_TASKS] u")
    case None
    then show ?thesis using u by (simp add: sys_fork_def find_empty_process_def Some EAGAIN_def slt_def)
  next
    case free: (Some i)
    note i = free_task_SomeD [OF free]
    have "unat (of_nat i :: u32) = i" using i by (simp add: NR_TASKS_def unsigned_of_nat take_bit_nat_eq_self)
    then show ?thesis using copy_process_filed [OF u f, of i] i u
      by (simp add: sys_fork_def find_empty_process_def Some free [simplified])
  qed
qed

section \<open>\<open>execve\<close>\<close>

named_theorems files

text \<open>The files and the state of a task are not the only fields that change.\<close>

lemma refs_upd:
  assumes "\<And>p. t_filp (f p) = t_filp p"
  shows "refs (upd_task i f t) g = refs t g"
  unfolding refs_def by (rule sum.cong) (auto simp: state_simps fds_of_def assms)

lemma filed_upd:
  assumes "\<And>p. t_filp (f p) = t_filp p \<and> t_state (f p) = t_state p" and "filed s t"
  shows "filed s (upd_cur f t)"
proof -
  let ?u = "upd_task (current t) f t"
  have c: "t_filp (tsk ?u i) = t_filp (tsk t i)" "t_state (tsk ?u i) = t_state (tsk t i)" for i
    using assms(1) by (simp_all add: state_simps)
  have r: "refs (upd_task i f t) g = refs t g" for i g by (rule refs_upd) (simp add: assms(1))
  have "f_count (file_table ?u g) = f_count (file_table t g)" "task ?u = task t" for g by (simp_all add: state_simps)
  with assms(2) c have "refs_ok ?u" by (simp add: filed_def refs_ok_def r no_files_def)
  moreover have "live ?u" "own_pages ?u" "current ?u = current s"
    using assms(2) c by (simp_all add: filed_def live_def own_pages_def cur_def) (auto simp: state_simps)
  ultimately show ?thesis by (simp add: filed_def upd_cur_def)
qed

lemma filed_if [files]: "(b \<Longrightarrow> filed s t) \<Longrightarrow> (\<not> b \<Longrightarrow> filed s u) \<Longrightarrow> filed s (if b then t else u)"
  by simp

lemma filed_let_state [files]: "filed s t \<Longrightarrow> (\<And>u. filed s u \<Longrightarrow> filed s (f u)) \<Longrightarrow> filed s (Let t f)"
  by simp

lemma close_marked_filed [files]: "filed s t \<Longrightarrow> kept filed s (close_marked t)"
  unfolding close_marked_def by (rule kept_for_each) (auto intro: kept_seq sys_close_filed)

lemma run_program_filed [files]: "filed s t \<Longrightarrow> kept filed s (run_program x1 x2 x3 x4 x5 x6 x7 x8 x9 t)"
  unfolding run_program_def
  by (assumption | rule files keeps kept_let_value | rule filed_upd, (simp; fail)
      | (rule filed.kept_mild_run filed.closed_mild, rule mildly, rule mild_refl) | (rule filed.kept_frame_run, rule keeps, rule framed_refl))+

lemma load_program_filed [files]:
  "filed s t \<Longrightarrow> (\<And>v u. filed s u \<Longrightarrow> kept filed s (copy v u)) \<Longrightarrow>
   kept filed s (load_program x1 x2 x3 x4 x5 x6 x7 x8 copy x10 t)"
  unfolding load_program_def
  by (assumption | rule files keeps kept_let_value
      | (rule filed.kept_mild_run filed.closed_mild, rule mildly, rule mild_refl) | (rule filed.kept_frame_run, rule keeps, rule framed_refl))+

lemma exec_open_filed [files]:
  "filed s t \<Longrightarrow> (\<And>a b c u. filed s u \<Longrightarrow> kept filed s (k a b c u)) \<Longrightarrow> kept filed s (exec_open i r page k t)"
  unfolding exec_open_def
  by (assumption | rule files keeps kept_let_value
      | (rule filed.kept_mild_run filed.closed_mild, rule mildly, rule mild_refl) | (rule filed.kept_frame_run, rule keeps, rule framed_refl))+

lemma run_script_filed [files]: "filed s t \<Longrightarrow> kept filed s (run_script x1 x2 x3 x4 x5 x6 x7 x8 x9 t)"
  unfolding run_script_def
  by (assumption | rule files keeps kept_let_value
      | (rule filed.kept_mild_run filed.closed_mild, rule mildly, rule mild_refl) | (rule filed.kept_frame_run, rule keeps, rule framed_refl))+

lemma do_execve_filed [files]: "filed s t \<Longrightarrow> kept filed s (do_execve x1 x2 x3 x4 x5 t)"
  unfolding do_execve_def
  by (assumption | rule files keeps kept_let_value
      | (rule filed.kept_mild_run filed.closed_mild, rule mildly, rule mild_refl) | (rule filed.kept_frame_run, rule keeps, rule framed_refl))+

section \<open>Every system call\<close>

lemma set_ids_filed [files]:
  "filed s t \<Longrightarrow> filed s (snd (sys_setreuid r e t))" "filed s t \<Longrightarrow> filed s (snd (sys_setregid r e t))"
proof -
  have u: "filed s (upd_cur (t_uid_update f) u)" "filed s (upd_cur (t_gid_update f) u)"
    "filed s (upd_cur (t_euid_update f) u)" "filed s (upd_cur (t_egid_update f) u)"
    if "filed s u" for f u
    using that by (auto intro: filed_upd)
  assume t: "filed s t"
  show "filed s (snd (sys_setreuid r e t))" "filed s (snd (sys_setregid r e t))"
    using t by (auto simp: sys_setreuid_def sys_setregid_def Let_def intro: u)
qed

lemma calls_filed [files]:
  "filed s t \<Longrightarrow> kept filed s (value_call f r t)" "filed s (snd (g t)) \<Longrightarrow> kept filed s (state_call g r t)"
  "kept filed s (h t) \<Longrightarrow> kept filed s (path_call h r t)"
  by (auto simp: value_call_def state_call_def path_call_def intro: kept_seq)

lemmas [files] = sys_open_filed sys_creat_filed sys_close_filed sys_dup_filed sys_dup2_filed sys_fcntl_filed sys_pipe_filed sys_waitpid_filed

text \<open>Call 0 has its own sweep of the tables, and call 1 does not return.\<close>

lemma table_filed:
  assumes t: "filed s t" and f: "fresh_page t"
  shows "list_all (\<lambda>(n, f). n \<le> Suc 0 \<or> kept filed s (f r' t)) (List.enumerate 0 (sys_call_table l u r))"
  unfolding sys_call_table_def Let_def sys_setuid_def sys_setgid_def
  by (simp only: enumerate_simps list.pred_inject prod.case, intro conjI TrueI)
    ((rule disjI1, (simp; fail)) | (rule disjI2, rule files filed.kept_mild_run [OF _ t])
     | rule files t sys_fork_filed [OF t f] filed.closed_mild [OF _ t] | (rule filed.kept_mild_run [OF _ t], rule mildly, rule mild_refl)
     | (rule filed.kept_frame_run [OF _ t], rule keeps, rule framed_refl) | rule mildly mild_refl)+

end
