(* ===== verification/FileSteps.thy ===== *)
theory FileSteps
  imports FileRefs
begin

text \<open>
  The reference counts of \<open>FileRefs\<close> over whole executions: \<open>exit\<close> does not come back, signals on
  the way out of a call, and the steps of a system of tasks.
\<close>

section \<open>\<open>exit\<close> does not come back\<close>

text \<open>A task other than task 0 that has ended.\<close>

definition gone :: "kstate \<Rightarrow> bool" where
  "gone s \<longleftrightarrow> current s \<noteq> 0 \<and> (task s (current s) = 0 \<or> t_state (cur s) = TASK_ZOMBIE)"

definition never :: "('a, 's) outcome \<Rightarrow> bool" where
  "never m \<longleftrightarrow> (\<forall>a t. m \<noteq> Ret a t)"

lemma never_simps [simp]: "\<not> never (Ret a s)" "never (Panic msg)" "never (Sleeps s)" "never (Exits c s)" "never Fault" "never Hangs"
  by (simp_all add: never_def)

lemma never_seq:
  shows "never m \<Longrightarrow> never (seq m f)"
    and "kept R s m \<Longrightarrow> (\<And>a t. R s t \<Longrightarrow> never (f a t)) \<Longrightarrow> never (seq m f)"
  by (cases m; simp)+

lemma pick_runnable: "snd (pick i c n s) = n \<or> runnable (snd (pick i c n s)) s"
  using pick_best [of i c n s] by (cases "pick i c n s") auto

lemma same_for_tasks: "task (for_tasks n f s) = task s" "current (for_tasks n f s) = current s"
  by (subst for_tasks_only_tasks, simp)+

lemma runnable_for_tasks: "(\<And>p. t_state (f p) = t_state p) \<Longrightarrow> runnable i (for_tasks n f s) = runnable i s"
  by (simp add: runnable_def tsk_for_tasks same_for_tasks)

lemma choose_task_runnable: "choose_task s = Some (n, t) \<Longrightarrow> (n = 0 \<or> runnable n s) \<and> current t = current s"
proof -
  have "case (n, t) of (n, t) \<Rightarrow> (n = 0 \<or> runnable n s) \<and> current t = current s" if "choose_task s = Some (n, t)"
  proof (rule choose_task.raw_induct [where P = "\<lambda>s (n, t). (n = 0 \<or> runnable n s) \<and> current t = current s", OF _ that])
  fix rec s y
    assume IH: "\<And>s y. rec s = Some y \<Longrightarrow> case y of (n, t) \<Rightarrow> (n = 0 \<or> runnable n s) \<and> current t = current s"
      and r: "(let (c, nxt) = pick (NR_TASKS - 1) (- 1) 0 s
        in if tst c then Some (nxt, s) else rec (for_tasks (NR_TASKS - 1) refill s)) = Some y"
    show "case y of (n, t) \<Rightarrow> (n = 0 \<or> runnable n s) \<and> current t = current s"
    proof (cases "tst (fst (pick (NR_TASKS - 1) (- 1) 0 s))")
      case True
      with r have "y = (snd (pick (NR_TASKS - 1) (- 1) 0 s), s)" by (auto simp: split_beta)
      then show ?thesis using pick_runnable [of "NR_TASKS - 1" "- 1" 0 s] by simp
    next
      case False
      with r have "rec (for_tasks (NR_TASKS - 1) refill s) = Some y" by (simp add: split_beta)
      from IH [OF this] show ?thesis by (simp add: runnable_for_tasks refill_def same_for_tasks)
    qed
  qed
  then show "choose_task s = Some (n, t) \<Longrightarrow> ?thesis" by simp
qed

lemma schedule_never:
  assumes "gone s"
  shows "never (schedule s)"
proof -
  define u where "u = for_tasks (NR_TASKS - 1) (check_signals (jiffies s)) s"
  have "\<not> runnable (current s) u" "current u = current s"
    using assms by (auto simp: gone_def runnable_def u_def tsk_for_tasks same_for_tasks check_signals_def Let_def cur_def
      TASK_ZOMBIE_def TASK_RUNNING_def TASK_INTERRUPTIBLE_def)
  then show ?thesis using choose_task_runnable [of u] assms
    by (auto simp del: One_nat_def simp: schedule_def u_def [symmetric] Let_def gone_def split: option.split)
qed

lemma tell_father_never:
  assumes "gone t" and f: "\<And>u. gone u \<Longrightarrow> never (f () u)"
  shows "never (seq (tell_father p t) f)"
proof -
  have "never (seq (release q t) f)" for q
  proof (cases "find_task q [1..<NR_TASKS] t")
    case (Some i)
    have "gone (t\<lparr>task := (task t)(i := 0)\<rparr>)" using assms by (auto simp: gone_def cur_def)
    then have "never (seq (in_mm (free_page q) (t\<lparr>task := (task t)(i := 0)\<rparr>)) (\<lambda>_ s. schedule s))"
      by (cases "free_page q (mm t)") (auto simp: in_mm_def gone_def cur_def intro: schedule_never)
    then show ?thesis using assms Some by (auto simp: release_def intro: never_seq(1))
  qed (use assms in \<open>simp add: release_def\<close>)
  moreover have "gone (raise sig i t)" for sig i using assms(1) by (auto simp: gone_def raise_def state_simps)
  ultimately show ?thesis by (auto simp: tell_father_def f split: option.split)
qed

lemma do_exit_never:
  assumes t: "filed s t" and "current s \<noteq> 0"
  shows "never (do_exit code t)"
proof -
  have last: "never (let u = upd_cur (\<lambda>t. t\<lparr>t_state := TASK_ZOMBIE, t_exit_code := code\<rparr>) u
      in seq (tell_father (t_father (cur u)) u) (\<lambda>_ s. seq (schedule s) (\<lambda>_ s. Ret (- 1) s)))" if "filed s u" for u
    using that assms(2) unfolding Let_def
    by (intro tell_father_never never_seq(1) schedule_never) (auto simp: gone_def filed_def state_simps)
  have closed: "kept filed s (for_each (\<lambda>i s. if t_filp (cur s) i \<noteq> None then seq (sys_close (of_nat i) s) (\<lambda>_ s. Ret () s) else Ret () s) is u)"
    if "filed s u" for "is" u
    by (rule kept_for_each [where R = filed and s = s, OF that]) (auto intro: kept_seq sys_close_filed)
  show ?thesis unfolding do_exit_def
    by (rule never_seq(2) [where R = filed and s = s] filed.kept_frame_run [OF frames_in_mm [OF framed_refl]] t closed last
      filed.kept_mild_run [OF put_inodes_mild [OF mild_refl]] filed.kept_mild_run [OF leave_session_mild [OF mild_refl]]
      filed.closed_mild [OF fold_orphan_mild [OF mild_refl]] | assumption)+
qed

section \<open>Signals and the way out\<close>

lemma ends_before: "ends s m \<Longrightarrow> ends s (seq m (\<lambda>_ _. Fault))"
  by (cases m) (auto simp: ends_def)

lemma ends_never: "ends s m \<Longrightarrow> never m \<Longrightarrow> ends s (seq m f)"
  by (cases m) (auto simp: ends_def)

lemma ends_if: "(b \<Longrightarrow> ends s m) \<Longrightarrow> (\<not> b \<Longrightarrow> ends s n) \<Longrightarrow> ends s (if b then m else n)"
  by simp

lemma do_signal_ends:
  assumes t: "filed s t"
  shows "ends s (do_signal signr x2 x3 x4 x5 x6 x7 t)"
proof -
  define u where "u = (if tst (sa_flags (action signr t) AND SA_ONESHOT) then set_action signr ((action signr t)\<lparr>sa_handler := 0\<rparr>) t else t)"
  have "filed s u" unfolding u_def using t by (auto intro: filed.closed_mild [OF set_action_mild [OF mild_refl]])
  then have "kept filed s (seq (verify_area a n u) (\<lambda>_ s. Ret (v s) (upd_cur (\<lambda>t. t\<lparr>t_blocked := t_blocked t OR m\<rparr>) (push_longs (f s) a s))))"
    for a n v m f
    by (intro kept_seq filed.kept_frame_run [OF verify_area_frames [OF framed_refl]] kept_Ret filed_upd filed.closed_mild [OF push_longs_mild [OF mild_refl]])
      simp_all
  note handled = kept_ends [OF this]
  show ?thesis unfolding do_signal_def Let_def u_def [symmetric]
    by (rule ends_if handled ends_before do_exit_ends t ends_simps(1) [THEN iffD2] filed_counted | assumption)+
qed

lemma ends_value: "ends s m \<Longrightarrow> ends s (seq m (\<lambda>a t. Ret (g a) t))"
  by (cases m) (auto simp: ends_def)

lemma ret_from_sys_call_ends:
  assumes "filed s t"
  shows "ends s (ret_from_sys_call eax r t)"
proof -
  have "filed s (upd_cur (\<lambda>p. p\<lparr>t_signal := t_signal p AND NOT (push_bit n 1)\<rparr>) t)" for n
    by (rule filed_upd [OF _ assms]) simp
  from ends_value [OF do_signal_ends [OF this]] show ?thesis
    unfolding ret_from_sys_call_def Let_def by (auto simp del: push_bit_of_1 simp: filed_counted assms split: option.split)
qed

lemma then_exit_counted: "ends s m \<Longrightarrow> kept counted s (then_exit m)"
  using ends_before [OF do_exit_ends] by (cases m) (auto simp: then_exit_def ends_def)

lemma system_call_counted:
  assumes s: "filed s s" and "fresh_page s" and "nr \<noteq> 0" and "nr = 1 \<Longrightarrow> current s \<noteq> 0"
  shows "kept counted s (system_call l u nr r s)"
proof (cases "71 < nr")
  case True
  then show ?thesis using s by (simp add: system_call_def NR_SYSTEM_CALLS_def filed_counted)
next
  case False
  then have n: "unat nr < 72" by (simp add: word_less_nat_alt)
  have 0: "unat nr \<noteq> 0" using assms(3) by (simp add: unat_eq_0)
  have 1: "ends s (seq (path_call (sys_exit b) r s) f)" if "nr = 1" for b f
    using do_exit_ends [OF s] do_exit_never [OF s assms(4) [OF that]]
    unfolding path_call_def sys_exit_def by (intro ends_never never_seq(1))
  have 2: "ends s (seq ((sys_call_table l u r ! unat nr) r s) (\<lambda>v s. case v of (eax, r) \<Rightarrow>
       seq (reschedule s) (\<lambda>_ s. ret_from_sys_call eax r s)))"
  proof (cases "unat nr = 1")
    case True
    then have "nr = 1" by (simp add: word_unat_eq_iff)
    with 1 True show ?thesis by (simp add: sys_call_table_def Let_def)
  next
    case False
    have "length (sys_call_table l u r) = 72" by (simp add: sys_call_table_def Let_def)
    then have "kept filed s ((sys_call_table l u r ! unat nr) r s)"
      using table_filed [OF s assms(2), of r l u r] n 0 False by (auto simp: list_all_length enumerate_eq_zip)
    then show ?thesis
      by (rule ends_seq) (auto intro!: ends_seq filed.kept_mild_run [OF reschedule_mild [OF mild_refl]] ret_from_sys_call_ends)
  qed
  show ?thesis unfolding system_call_def using False then_exit_counted [OF 2]
    by (simp add: NR_SYSTEM_CALLS_def)
qed

lemma enters_ends:
  assumes "enters t t g" and t: "filed s t"
  shows "ends s (g eax r t)"
  using assms(1) unfolding enters_def
proof (elim disjE exE conjE)
  fix f assume "g = plain f" and f: "kept mild t (f t)"
  then show ?thesis using ends_value [OF kept_ends [OF filed.kept_mild_run [OF f t]]] by (simp add: plain_def)
next
  assume "g = plain die"
  then show ?thesis using ends_value [OF ends_value [where g = "\<lambda>_. ()", OF do_exit_ends [OF t]]] by (simp add: plain_def die_def)
next
  fix m assume g: "\<forall>eax r. g eax r t = seq (m r) (ret_from_sys_call eax)" and m: "\<forall>r. kept mild t (m r)"
  have "ends s (seq (m r) (ret_from_sys_call eax))"
    by (rule ends_seq [OF filed.kept_mild_run [OF m [rule_format] t]]) (auto intro: ret_from_sys_call_ends)
  then show ?thesis by (simp add: g)
qed

lemma interrupt_counted: "filed s t \<Longrightarrow> kept counted s (interrupt em fp ec cr2 n eax r t)"
  unfolding interrupt_def by (rule then_exit_counted) (rule enters_ends [OF gate_enters [OF mild_refl]])

section \<open>Executions\<close>

text \<open>
  Any call but \<open>setup\<close>, of any task that has not ended, while the page allocator gives out no page
  that holds a task; the idle loop of task 0; and what the hardware does: the clock, traps and page faults of a task that has not
  ended, disk interrupts, and characters from the keyboard and the serial lines.
\<close>

inductive file_step :: "kstate \<Rightarrow> kstate \<Rightarrow> bool" where
  call: "live s \<Longrightarrow> own_pages s \<Longrightarrow> fresh_page s \<Longrightarrow> nr \<noteq> 0 \<Longrightarrow> (nr = 1 \<Longrightarrow> current s \<noteq> 0) \<Longrightarrow>
    left_in (system_call loaded fpu_reset nr r s) t \<Longrightarrow> file_step s t"
| pause: "left_in (sys_pause s) t \<Longrightarrow> file_step s t"
| tick: "left_in (do_timer cpl s) t \<Longrightarrow> file_step s t"
| interrupt: "live s \<Longrightarrow> own_pages s \<Longrightarrow> left_in (interrupt em fpu_reset error_code cr2 n eax r s) t \<Longrightarrow> file_step s t"
| terminal: "left_in (do_tty_interrupt ch (upd_tty ch f s)) t \<Longrightarrow> file_step s t"

inductive_simps file_step_simps: "file_step s t"

lemma refs_ok_current: "refs_ok (s\<lparr>current := i\<rparr>) = refs_ok s"
  by (simp add: refs_ok_def refs_def cong: if_cong)

lemma left_in_refs:
  assumes "kept R s m" and "\<And>u. R s u \<Longrightarrow> refs_ok u" and "left_in m t"
  shows "refs_ok t"
  using assms(1,3) assms(2) [of t] assms(2) [of "t\<lparr>current := current s\<rparr>"]
  by (cases m) (auto simp: refs_ok_current)

lemma file_step_refs_ok:
  assumes "file_step s t" and "refs_ok s"
  shows "refs_ok t"
  using assms(1)
proof cases
  case (call nr loaded fpu_reset r)
  have "filed s s" using call assms(2) by (simp add: filed_def)
  from system_call_counted [OF this call(3,4,5)] show ?thesis
    by (rule left_in_refs [OF _ _ call(6)]) (simp_all add: counted_def)
next
  case pause
  show ?thesis by (rule left_in_refs [OF sys_pause_mild [OF mild_refl] _ pause]) (rule refs_ok_mild [OF assms(2)])
next
  case (tick cpl)
  show ?thesis by (rule left_in_refs [OF do_timer_mild [OF mild_refl] _ tick]) (rule refs_ok_mild [OF assms(2)])
next
  case (interrupt em fpu_reset error_code cr2 n eax r)
  have "filed s s" using interrupt assms(2) by (simp add: filed_def)
  from interrupt_counted [OF this] show ?thesis
    by (rule left_in_refs [OF _ _ interrupt(3)]) (simp add: counted_def)
next
  case (terminal ch f)
  note run = mild_itself.kept_frame_run [OF do_tty_interrupt_frames [OF framed_refl] mild_fields(4) [OF mild_refl]]
  show ?thesis by (rule left_in_refs [OF run _ terminal]) (rule refs_ok_mild [OF assms(2)])
qed

lemma reached_refs_ok: "file_step\<^sup>*\<^sup>* s t \<Longrightarrow> refs_ok s \<Longrightarrow> refs_ok t"
  by (induction rule: rtranclp_induct) (auto intro: file_step_refs_ok)

lemma used_counted:
  assumes "refs_ok t" and "i < NR_TASKS" and "task t i \<noteq> 0" and "fd < NR_OPEN" and "t_filp (tsk t i) fd = Some f"
  shows "f_count (file_table t f) \<noteq> 0"
proof -
  have "fd \<in> set (filter (\<lambda>fd. t_filp (tsk t i) fd = Some f) [0..<NR_OPEN])" using assms(4,5) by simp
  then have "0 < fds_of (tsk t i) f" unfolding fds_of_def by (rule length_pos_if_in_set)
  also have "\<dots> = (\<lambda>i. if task t i \<noteq> 0 then fds_of (tsk t i) f else 0) i" using assms(3) by simp
  also have "\<dots> \<le> refs t f" unfolding refs_def by (rule member_le_sum) (use assms(2) in auto)
  finally have "0 < refs t f" .
  moreover have "unat (f_count (file_table t f)) = refs t f" using assms(1) by (simp add: refs_ok_def)
  ultimately show ?thesis by auto
qed



text \<open>A task with one open file, while all memory is in use.\<close>

definition shell :: "kstate \<Rightarrow> kstate" where
  "shell s = s\<lparr>current := 1, task := (\<lambda>i. if i < 2 then of_nat i + 1 else 0),
     tsk := (\<lambda>i. (tsk s i)\<lparr>t_state := 0, t_counter := 5, t_signal := 0, t_filp := (\<lambda>fd. if i = 1 \<and> fd = 0 then Some 0 else None)\<rparr>),
     file_table := (\<lambda>f. (file_table s f)\<lparr>f_count := if f = 0 then 1 else 0\<rparr>), mm := (mm s)\<lparr>mem_map := \<lambda>_. 1\<rparr>\<rparr>"

lemma shell_refs_ok: "refs_ok (shell s)"
proof -
  have f: "fds_of (tsk (shell s) i) f = (if i = 1 \<and> f = 0 then 1 else 0)" for i f
    by (auto simp: fds_of_sum shell_def NR_OPEN_def eval_nat_numeral)
  have "refs (shell s) f = (\<Sum>i<NR_TASKS. if i = 1 then (if f = 0 then 1 else 0) else 0)" for f
    unfolding refs_def f by (rule sum.cong) (auto simp: shell_def)
  then show ?thesis
    by (simp add: refs_ok_def NR_TASKS_def) (simp add: shell_def TASK_ZOMBIE_def NR_FILE_def)
qed

lemma shell_dup:
  "\<exists>t. system_call l u 41 (r\<lparr>fr_ebx := 0, fr_cs := 0\<rparr>) (shell s) = Ret (1, r\<lparr>fr_ebx := 0, fr_cs := 0\<rparr>) t \<and> f_count (file_table t 0) = 2"
  by (simp add: system_call_def NR_SYSTEM_CALLS_def sys_call_table_def Let_def path_call_def sys_dup_def dupfd_def shell_def
    NR_OPEN_def then_exit_def upt_rec reschedule_def ret_from_sys_call_def state_simps close_on_exec_def set_filp_def filp_def)



end
