(* ===== verification/Cache.thy ===== *)
theory Cache
  imports Startup
begin

text \<open>
  The links of the buffer cache as lists: the chains of the hash table and the ring of
  \<open>free_list\<close>, and what removing and inserting a buffer head does to them.
\<close>

section \<open>Doubly linked lists\<close>

text \<open>\<open>xs\<close> is linked by \<open>nx\<close> and \<open>pv\<close>, with \<open>p\<close> before its first and \<open>n\<close> after its last element.\<close>

primrec first :: "'a list \<Rightarrow> 'a option \<Rightarrow> 'a option" where
  "first [] n = n"
| "first (x # xs) n = Some x"

primrec dlist :: "('a \<Rightarrow> 'a option) \<Rightarrow> ('a \<Rightarrow> 'a option) \<Rightarrow> 'a option \<Rightarrow> 'a list \<Rightarrow> 'a option \<Rightarrow> bool" where
  "dlist nx pv p [] n = True"
| "dlist nx pv p (x # xs) n \<longleftrightarrow> pv x = p \<and> nx x = first xs n \<and> dlist nx pv (Some x) xs n"

primrec final :: "'a option \<Rightarrow> 'a list \<Rightarrow> 'a option" where
  "final p [] = p"
| "final p (x # xs) = final (Some x) xs"

lemma final_append [simp]: "final p (xs @ ys) = final (final p xs) ys"
  by (induction xs arbitrary: p) simp_all

lemma first_append [simp]: "first (xs @ ys) n = first xs (first ys n)"
  by (cases xs) simp_all

lemma dlist_append: "dlist nx pv p (xs @ ys) n \<longleftrightarrow> dlist nx pv p xs (first ys n) \<and> dlist nx pv (final p xs) ys n"
  by (induction xs arbitrary: p) (auto simp: )

lemma dlist_cong: "(\<And>x. x \<in> set xs \<Longrightarrow> nx x = nx' x \<and> pv x = pv' x) \<Longrightarrow> dlist nx pv p xs n = dlist nx' pv' p xs n"
  by (induction xs arbitrary: p) simp_all

lemma final_last: "xs \<noteq> [] \<Longrightarrow> final p xs = Some (last xs)"
  by (induction xs arbitrary: p) auto

lemma first_hd: "xs \<noteq> [] \<Longrightarrow> first xs n = Some (hd xs)"
  by (cases xs) simp_all

lemma ends_in: "first xs None = Some x \<Longrightarrow> x \<in> set xs" "final None xs = Some x \<Longrightarrow> x \<in> set xs"
  by (cases xs, simp_all) (cases xs rule: rev_cases, simp_all)

text \<open>Another predecessor, another successor.\<close>

lemma dlist_set_prev:
  assumes "dlist nx pv p xs n" and "distinct xs"
  shows "dlist nx (case first xs None of None \<Rightarrow> pv | Some x \<Rightarrow> pv(x := q)) q xs n"
proof (cases xs)
  case (Cons x ys)
  then have "dlist nx (pv(x := q)) (Some x) ys n = dlist nx pv (Some x) ys n"
    using assms(2) by (intro dlist_cong) auto
  then show ?thesis using assms(1) Cons by simp
qed simp

lemma dlist_set_next:
  assumes "dlist nx pv p xs n" and "distinct xs"
  shows "dlist (case final None xs of None \<Rightarrow> nx | Some x \<Rightarrow> nx(x := m)) pv p xs m"
proof (cases xs rule: rev_cases)
  case (snoc ys x)
  then have "dlist (nx(x := m)) pv p ys (Some x) = dlist nx pv p ys (Some x)"
    using assms(2) by (intro dlist_cong) auto
  then show ?thesis using assms(1) snoc by (simp add: dlist_append)
qed simp

section \<open>Rings\<close>

definition ring :: "('a \<Rightarrow> 'a option) \<Rightarrow> ('a \<Rightarrow> 'a option) \<Rightarrow> 'a list \<Rightarrow> bool" where
  "ring nx pv xs \<longleftrightarrow> distinct xs \<and> dlist nx pv (final None xs) xs (first xs None)"

lemma ring_rotate1: "ring nx pv xs \<Longrightarrow> ring nx pv (rotate1 xs)"
  by (cases xs) (auto simp: ring_def dlist_append first_hd final_last split: if_splits)

lemma ring_at:
  assumes "ring nx pv xs" and "x \<in> set xs"
  obtains ys where "ring nx pv (x # ys)" "set (x # ys) = set xs"
proof -
  obtain as bs where xs: "xs = as @ x # bs" using assms(2) by (meson split_list)
  have "ring nx pv (rotate n xs)" for n by (induction n) (simp_all add: assms(1) ring_rotate1)
  then have "ring nx pv (rotate (length as) xs)" .
  then have "ring nx pv (x # bs @ as)" by (simp add: xs rotate_append)
  then show thesis by (rule that) (auto simp: xs)
qed

lemma ring_next:
  assumes "ring nx pv xs" and "x \<in> set xs"
  shows "\<exists>y \<in> set xs. nx x = Some y"
proof -
  obtain ys where ys: "ring nx pv (x # ys)" "set (x # ys) = set xs" by (rule ring_at [OF assms])
  then have "nx x = first ys (Some x)" by (simp add: ring_def)
  then show ?thesis using ys(2) by (cases ys) auto
qed

lemma ring_remove:
  assumes "ring nx pv (x # ys)" and "ys \<noteq> []"
  shows "pv x = Some (last ys)" "nx x = Some (hd ys)" "ring (nx(last ys := Some (hd ys))) (pv(hd ys := Some (last ys))) ys"
proof -
  have d: "dlist nx pv (Some x) ys (Some x)" "distinct ys" and x: "pv x = final (Some x) ys" "nx x = first ys (Some x)"
    using assms(1) by (simp_all add: ring_def)
  show "pv x = Some (last ys)" "nx x = Some (hd ys)" using x assms(2) by (simp_all add: final_last first_hd)
  from dlist_set_next [OF dlist_set_prev [OF d] d(2), of "Some (hd ys)" "Some (last ys)"] d(2)
  show "ring (nx(last ys := Some (hd ys))) (pv(hd ys := Some (last ys))) ys"
    using assms(2) by (simp add: ring_def final_last first_hd)
qed

lemma ring_insert:
  assumes "ring nx pv ys" and "ys \<noteq> []" and "x \<notin> set ys"
  shows "ring (nx(x := Some (hd ys), last ys := Some x)) (pv(x := Some (last ys), hd ys := Some x)) (ys @ [x])"
proof -
  let ?nx = "nx(x := Some (hd ys), last ys := Some x)" and ?pv = "pv(x := Some (last ys), hd ys := Some x)"
  have d: "dlist nx pv (Some (last ys)) ys (Some (hd ys))" "distinct ys"
    using assms(1,2) by (simp_all add: ring_def final_last first_hd)
  have x: "last ys \<noteq> x" "hd ys \<noteq> x" using assms(2,3) by auto
  from dlist_set_next [OF dlist_set_prev [OF d] d(2), of "Some x" "Some x"]
  have "dlist (nx(last ys := Some x)) (pv(hd ys := Some x)) (Some x) ys (Some x)"
    using assms(2) by (simp add: final_last first_hd)
  then have "dlist ?nx ?pv (Some x) ys (Some x)"
    by (rule dlist_cong [THEN iffD1, rotated]) (use assms(3) in auto)
  then show ?thesis using assms(2,3) d(2) x by (simp add: ring_def dlist_append final_last first_hd)
qed

text \<open>Taking an element out and putting it in again before \<open>fl\<close>.\<close>

lemma ring_put:
  assumes "ring nx pv zs" and "fl \<in> set zs" and "b \<notin> set zs"
  shows "\<exists>q R. pv fl = Some q \<and> ring (nx(b := Some fl, q := Some b)) (pv(b := Some q, fl := Some b)) R \<and> set R = insert b (set zs)"
proof -
  obtain ys where ys: "ring nx pv (fl # ys)" "set (fl # ys) = set zs" by (rule ring_at [OF assms(1,2)])
  have "pv fl = Some (last (fl # ys))" using ys(1) by (cases ys) (simp_all add: ring_def final_last)
  moreover have "b \<notin> set (fl # ys)" using assms(3) unfolding ys(2) .
  note ring_insert [OF ys(1) _ this]
  ultimately show ?thesis using ys(2) by (intro exI [of _ "last (fl # ys)"] exI [of _ "(fl # ys) @ [b]"]) auto
qed

lemma ring_move:
  assumes "ring nx pv R" and "b \<in> set R" and "fl \<in> set R"
  obtains p n q R' where "pv b = Some p" "nx b = Some n" "(pv(n := Some p)) (if fl = b then n else fl) = Some q"
    "ring (nx(p := Some n, b := Some (if fl = b then n else fl), q := Some b))
       (pv(n := Some p, b := Some q, (if fl = b then n else fl) := Some b)) R'" "set R' = set R" "n \<in> set R"
proof -
  obtain ys where ys: "ring nx pv (b # ys)" "set (b # ys) = set R" by (rule ring_at [OF assms(1,2)])
  show thesis
  proof (cases "ys = []")
    case True
    then have *: "nx b = Some b" "pv b = Some b" "fl = b" using ys assms(3) by (auto simp: ring_def)
    then have "nx(b := Some b) = nx" "pv(b := Some b) = pv" by auto
    with * True ys show thesis by (intro that [of b b b "[b]"]) auto
  next
    case False
    note r = ring_remove [OF ys(1) False]
    let ?f = "if fl = b then hd ys else fl"
    have b: "b \<notin> set ys" using ys(1) by (simp add: ring_def)
    have "?f \<in> set ys" using ys(2) assms(3) False by auto
    from ring_put [OF r(3) this b] obtain q R' where q: "(pv(hd ys := Some (last ys))) ?f = Some q"
      "ring (nx(last ys := Some (hd ys), b := Some ?f, q := Some b)) (pv(hd ys := Some (last ys), b := Some q, ?f := Some b)) R'"
      "set R' = insert b (set ys)" by blast
    show thesis
    proof (rule that [OF r(1,2) q(1,2)])
      show "set R' = set R" using q(3) ys(2) by simp
      show "hd ys \<in> set R" using False by (simp flip: ys(2))
    qed
  qed
qed

section \<open>Hash chains\<close>

text \<open>The buffers \<open>H\<close> are in the chains of the hash table, each in that of its block.\<close>

abbreviation nxt :: "kstate \<Rightarrow> nat \<Rightarrow> nat option" where "nxt s x \<equiv> b_next (bh s x)"
abbreviation prv :: "kstate \<Rightarrow> nat \<Rightarrow> nat option" where "prv s x \<equiv> b_prev (bh s x)"

definition chain_at :: "kstate \<Rightarrow> nat set \<Rightarrow> nat \<Rightarrow> nat list \<Rightarrow> bool" where
  "chain_at s H h xs \<longleftrightarrow> hash_table s h = first xs None \<and> dlist (nxt s) (prv s) None xs None \<and> distinct xs \<and>
     set xs = {x \<in> H. bh_hash x s = h}"

definition hashed :: "kstate \<Rightarrow> nat set \<Rightarrow> bool" where
  "hashed s H \<longleftrightarrow> (\<forall>h<NR_HASH. \<exists>xs. chain_at s H h xs)"

lemma bh_hash_lt: "bh_hash b s < NR_HASH"
  by (simp add: bh_hash_def hashfn_def NR_HASH_def)

lemma chain_at_cong:
  assumes "chain_at s H h xs" and "hash_table t h = hash_table s h" and "\<And>x. bh_hash x t = bh_hash x s"
    and "\<And>x. x \<in> H \<Longrightarrow> bh_hash x s = h \<Longrightarrow> nxt t x = nxt s x \<and> prv t x = prv s x" and "{x \<in> H'. bh_hash x s = h} = {x \<in> H. bh_hash x s = h}"
  shows "chain_at t H' h xs"
  using assms by (auto simp: chain_at_def intro: dlist_cong [THEN iffD1, rotated])

lemma hashed_chains: "hashed s H \<Longrightarrow> \<exists>C. \<forall>h<NR_HASH. chain_at s H h (C h)"
  unfolding hashed_def by (rule exI [where x = "\<lambda>h. SOME xs. chain_at s H h xs"]) (auto intro: someI_ex)

lemma hashed_at:
  assumes "hashed s H" and "b \<in> H"
  obtains ys zs where "chain_at s H (bh_hash b s) (ys @ b # zs)" "nxt s b = first zs None" "prv s b = final None ys"
    "dlist (nxt s) (prv s) None ys (Some b)" "dlist (nxt s) (prv s) (Some b) zs None"
proof -
  obtain xs where xs: "chain_at s H (bh_hash b s) xs" using assms(1) bh_hash_lt [of b s] by (auto simp: hashed_def)
  then have "b \<in> set xs" using assms(2) by (simp add: chain_at_def)
  then obtain ys zs where "xs = ys @ b # zs" by (meson split_list)
  with xs that show thesis by (auto simp: chain_at_def dlist_append)
qed

lemma hashed_neighbour:
  assumes "hashed s H" and "b \<in> H"
  shows "nxt s b = Some x \<Longrightarrow> x \<in> H" "prv s b = Some x \<Longrightarrow> x \<in> H"
proof -
  obtain ys zs where c: "chain_at s H (bh_hash b s) (ys @ b # zs)" and l: "nxt s b = first zs None" "prv s b = final None ys"
    by (rule hashed_at [OF assms])
  then have "set ys \<subseteq> H" "set zs \<subseteq> H" by (auto simp: chain_at_def)
  then show "nxt s b = Some x \<Longrightarrow> x \<in> H" "prv s b = Some x \<Longrightarrow> x \<in> H" using l by (auto dest: ends_in)
qed

lemma hashed_head: "hashed s H \<Longrightarrow> h < NR_HASH \<Longrightarrow> hash_table s h = Some x \<Longrightarrow> x \<in> H"
  using ends_in(1) by (fastforce simp: hashed_def chain_at_def)

text \<open>The links after \<open>remove_from_hash\<close>.\<close>

lemma remove_from_hash_links:
  assumes "nxt s b \<noteq> Some b" and "prv s b \<noteq> Some b"
  shows "nxt (remove_from_hash b s) = (case prv s b of None \<Rightarrow> nxt s | Some p \<Rightarrow> (nxt s)(p := nxt s b))"
    and "prv (remove_from_hash b s) = (case nxt s b of None \<Rightarrow> prv s | Some n \<Rightarrow> (prv s)(n := prv s b))"
    and "hash_table (remove_from_hash b s) =
      (if hash_table s (bh_hash b s) = Some b then (hash_table s)(bh_hash b s := nxt s b) else hash_table s)"
    and "bh_hash x (remove_from_hash b s) = bh_hash x s"
  using assms
  by (auto simp: remove_from_hash_def Let_def state_simps set_hash_def bh_hash_def fun_eq_iff split: option.splits)

lemma hashed_remove:
  assumes "hashed s H" and "b \<notin> H \<Longrightarrow> nxt s b = None \<and> prv s b = None"
  shows "hashed (remove_from_hash b s) (H - {b})"
proof (cases "b \<in> H")
  case False
  then have "hash_table s (bh_hash b s) \<noteq> Some b" using hashed_head [OF assms(1) bh_hash_lt] by blast
  then have "remove_from_hash b s = s" using assms(2) [OF False] by (simp add: remove_from_hash_def)
  then show ?thesis using assms(1) False by simp
next
  case True
  let ?t = "remove_from_hash b s" and ?k = "bh_hash b s"
  obtain C where C: "h < NR_HASH \<Longrightarrow> chain_at s H h (C h)" for h using hashed_chains [OF assms(1)] by blast
  obtain ys zs where c: "chain_at s H ?k (ys @ b # zs)" and b: "nxt s b = first zs None" "prv s b = final None ys"
    and d: "dlist (nxt s) (prv s) None ys (Some b)" "dlist (nxt s) (prv s) (Some b) zs None"
    by (rule hashed_at [OF assms(1) True])
  have d3: "distinct (ys @ b # zs)"
    and set: "set (ys @ b # zs) = {x \<in> H. bh_hash x s = ?k}" and h: "hash_table s ?k = first ys (Some b)"
    using c by (simp_all add: chain_at_def)
  note d = d d3
  have "nxt s b \<noteq> Some b" "prv s b \<noteq> Some b"
    using d(3) by (auto simp: b dest: ends_in)
  note t = remove_from_hash_links [OF this]
  show ?thesis unfolding hashed_def
  proof (intro allI impI)
    fix g
    assume g: "g < NR_HASH"
    show "\<exists>xs. chain_at ?t (H - {b}) g xs"
    proof (cases "g = ?k")
      case False
      have "chain_at ?t (H - {b}) g (C g)"
      proof (rule chain_at_cong [OF C [OF g]])
        fix x
        assume x: "x \<in> H" "bh_hash x s = g"
        have "x \<noteq> y" if "y \<in> set (ys @ b # zs)" for y using that x False unfolding set by auto
        then show "nxt ?t x = nxt s x \<and> prv ?t x = prv s x"
          unfolding fun_cong [OF t(1)] fun_cong [OF t(2)] by (cases zs; cases ys rule: rev_cases) (auto simp: b)
      qed (use False in \<open>auto simp: t\<close>)
      then show ?thesis ..
    next
      case True
      note n = t(1) [unfolded b] and p = t(2) [unfolded b]
      have "prv ?t x = prv s x" if "x \<in> set ys" for x
        unfolding fun_cong [OF p] using that d(3) by (cases zs) auto
      then have "dlist (nxt ?t) (prv ?t) None ys (first zs None) = dlist (nxt ?t) (prv s) None ys (first zs None)"
        by (intro dlist_cong) simp
      moreover have "nxt ?t x = nxt s x" if "x \<in> set zs" for x
        unfolding fun_cong [OF n] using that d(3) by (cases ys rule: rev_cases) auto
      then have "dlist (nxt ?t) (prv ?t) (final None ys) zs None = dlist (nxt s) (prv ?t) (final None ys) zs None"
        by (intro dlist_cong) simp
      moreover have "dlist (nxt ?t) (prv s) None ys (first zs None)" unfolding n
        by (rule dlist_set_next [OF d(1)]) (use d(3) in simp)
      moreover have "dlist (nxt s) (prv ?t) (final None ys) zs None" unfolding p
        by (rule dlist_set_prev [OF d(2)]) (use d(3) in simp)
      ultimately have "dlist (nxt ?t) (prv ?t) None (ys @ zs) None"
        by (simp only: dlist_append)
      moreover have "hash_table ?t ?k = first (ys @ zs) None"
        using h d(3) by (cases ys) (auto simp: t(3) b)
      moreover have "distinct (ys @ zs)" "set (ys @ zs) = {x \<in> H - {b}. bh_hash x s = ?k}"
        using d(3) set by auto
      ultimately have "chain_at ?t (H - {b}) ?k (ys @ zs)" by (simp add: chain_at_def t(4))
      then show ?thesis using True by blast
    qed
  qed
qed

section \<open>The invariant of the cache\<close>

definition ring_of :: "kstate \<Rightarrow> nat list \<Rightarrow> bool" where
  "ring_of s R \<longleftrightarrow> ring (\<lambda>x. b_next_free (bh s x)) (\<lambda>x. b_prev_free (bh s x)) R \<and> set R = {..<nr_buffers s} \<and> free_list s < nr_buffers s"

definition in_use :: "kstate \<Rightarrow> nat set" where
  "in_use s = {x. x < nr_buffers s \<and> b_dev (bh s x) \<noteq> 0}"

definition holds_block :: "u32 \<Rightarrow> u32 \<Rightarrow> kstate \<Rightarrow> nat \<Rightarrow> bool" where
  "holds_block dev block s x \<longleftrightarrow> ucast (b_dev (bh s x)) = dev \<and> b_blocknr (bh s x) = block"

definition cache_inv :: "kstate \<Rightarrow> bool" where
  "cache_inv s \<longleftrightarrow> hashed s (in_use s) \<and> (\<exists>R. ring_of s R) \<and>
     (\<forall>x<nr_buffers s. b_dev (bh s x) = 0 \<longrightarrow> nxt s x = None \<and> prv s x = None) \<and>
     (\<forall>x\<in>in_use s. \<forall>y\<in>in_use s. b_dev (bh s x) = b_dev (bh s y) \<longrightarrow> b_blocknr (bh s x) = b_blocknr (bh s y) \<longrightarrow> x = y)"

lemma dev_narrow: "ucast (a :: u16) = (ucast b :: u32) \<longleftrightarrow> a = b"
proof
  assume "ucast a = (ucast b :: u32)"
  then have "ucast (ucast a :: u32) = (ucast (ucast b :: u32) :: u16)" by simp
  then show "a = b" by (simp add: unsigned_ucast_eq take_bit_word_eq_self)
qed simp

text \<open>The search along a chain finds the buffer of a block if there is one.\<close>

lemma chain_search_list:
  "dlist (nxt s) pv p xs None \<Longrightarrow> chain_search s dev block (first xs None) = Some (List.find (holds_block dev block s) xs)"
proof (induction xs arbitrary: p)
  case Nil
  then show ?case by (subst chain_search.simps) simp
next
  case (Cons x xs)
  then have "chain_search s dev block (first xs None) = Some (List.find (holds_block dev block s) xs)"
    by (intro Cons.IH [of "Some x"]) simp
  with Cons.prems show ?case by (subst chain_search.simps) (auto simp flip: holds_block_def)
qed

lemma find_buffer_cases:
  assumes "cache_inv s"
  obtains (none) "find_buffer dev block s = Ret None s" "\<And>x. x \<in> in_use s \<Longrightarrow> \<not> holds_block dev block s x"
  | (found) b where "find_buffer dev block s = Ret (Some b) s" "b \<in> in_use s" "holds_block dev block s b"
proof -
  have k: "hashfn dev block < NR_HASH" by (simp add: hashfn_def NR_HASH_def)
  then obtain xs where xs: "chain_at s (in_use s) (hashfn dev block) xs"
    using assms by (auto simp: cache_inv_def hashed_def)
  then have f: "find_buffer dev block s = Ret (List.find (holds_block dev block s) xs) s"
    using chain_search_list [of s "prv s" None xs dev block] by (simp add: find_buffer_def chain_at_def)
  have "x \<in> set xs" if "x \<in> in_use s" "holds_block dev block s x" for x
    using xs that by (auto simp: chain_at_def bh_hash_def holds_block_def)
  note all = this
  have sub: "set xs \<subseteq> in_use s" using xs by (auto simp: chain_at_def)
  show thesis
  proof (cases "List.find (holds_block dev block s) xs")
    case None
    then have "\<not> (\<exists>x. x \<in> set xs \<and> holds_block dev block s x)" by (simp only: find_None_iff) simp
    with f None all show thesis by (intro none) auto
  next
    case (Some b)
    then have "b \<in> set xs \<and> holds_block dev block s b" by (auto simp only: find_Some_iff nth_mem)
    with f Some sub show thesis by (intro found [of b]) auto
  qed
qed

lemma find_buffer_inv:
  assumes "cache_inv s" and "b \<in> in_use s" and "holds_block dev block s b"
  shows "find_buffer dev block s = Ret (Some b) s"
proof (rule find_buffer_cases [OF assms(1), of dev block])
  fix c
  assume c: "find_buffer dev block s = Ret (Some c) s" "c \<in> in_use s" "holds_block dev block s c"
  then have "b_dev (bh s c) = b_dev (bh s b)" using assms(3) by (simp add: holds_block_def dev_narrow flip: assms(3) [unfolded holds_block_def])
  then have "c = b" using c assms by (auto simp: cache_inv_def holds_block_def)
  with c show ?thesis by simp
qed (use assms in auto)

section \<open>Taking a buffer for another block\<close>

abbreviation nxt_free :: "kstate \<Rightarrow> nat \<Rightarrow> nat option" where "nxt_free s x \<equiv> b_next_free (bh s x)"
abbreviation prv_free :: "kstate \<Rightarrow> nat \<Rightarrow> nat option" where "prv_free s x \<equiv> b_prev_free (bh s x)"

text \<open>The two halves of \<open>remove_from_queues\<close> and of \<open>insert_into_queues\<close>.\<close>

definition unlink_free :: "nat \<Rightarrow> nat \<Rightarrow> nat \<Rightarrow> kstate \<Rightarrow> kstate" where
  "unlink_free b p n s =
    (let s = upd_bh n (b_prev_free_update (\<lambda>_. Some p)) (upd_bh p (b_next_free_update (\<lambda>_. Some n)) s)
     in if free_list s = b then s\<lparr>free_list := n\<rparr> else s)"

definition link_free :: "nat \<Rightarrow> nat \<Rightarrow> kstate \<Rightarrow> kstate" where
  "link_free b p s = upd_bh (free_list s) (b_prev_free_update (\<lambda>_. Some b)) (upd_bh p (b_next_free_update (\<lambda>_. Some b))
     (upd_bh b (\<lambda>x. x\<lparr>b_prev_free := Some p, b_next_free := Some (free_list s)\<rparr>) s))"

definition into_hash :: "nat \<Rightarrow> kstate \<Rightarrow> kstate" where
  "into_hash b s =
    (let s = upd_bh b (\<lambda>x. x\<lparr>b_prev := None, b_next := None\<rparr>) s
     in if b_dev (bh s b) = 0 then s else
        let s = upd_bh b (b_next_update (\<lambda>_. hash_table s (bh_hash b s))) s;
            s = set_hash (bh_hash b s) (Some b) s
        in case b_next (bh s b) of
             Some n \<Rightarrow> upd_bh n (b_prev_update (\<lambda>_. Some b)) s
           | None \<Rightarrow> s\<lparr>null_prev := Some b\<rparr>)"

lemma remove_from_hash_free:
  "nxt_free (remove_from_hash b s) x = nxt_free s x" "prv_free (remove_from_hash b s) x = prv_free s x"
  "free_list (remove_from_hash b s) = free_list s" "nr_buffers (remove_from_hash b s) = nr_buffers s"
  "b_dev (bh (remove_from_hash b s) x) = b_dev (bh s x)" "b_blocknr (bh (remove_from_hash b s) x) = b_blocknr (bh s x)"
  by (auto simp: remove_from_hash_def Let_def state_simps set_hash_def split: option.split)

lemma remove_from_queues_eq:
  assumes "prv_free s b = Some p" and "nxt_free s b = Some n"
  shows "remove_from_queues b s = Ret () (unlink_free b p n (remove_from_hash b s))"
proof -
  define u where "u = remove_from_hash b s"
  have u: "prv_free u b = Some p" "nxt_free u b = Some n" by (simp_all add: u_def remove_from_hash_free assms)
  have "prv_free (upd_bh p (b_next_free_update (\<lambda>_. Some n)) u) b = Some p" using u(1) by (auto simp: state_simps)
  then show ?thesis unfolding remove_from_queues_def Let_def u_def [symmetric] unlink_free_def
    by (simp only: u option.case prod.case)
qed

lemma insert_into_queues_eq:
  assumes p: "prv_free s (free_list s) = Some p"
  shows "insert_into_queues b s = Ret () (into_hash b (link_free b p s))"
proof -
  let ?l = "upd_bh b (b_next_free_update (\<lambda>_. Some (free_list s))) s"
  let ?r = "upd_bh b (\<lambda>x. x\<lparr>b_prev_free := Some p, b_next_free := Some (free_list s)\<rparr>) s"
  have "prv_free ?l (free_list s) = Some p" using p by (auto simp: state_simps)
  moreover have "upd_bh b (b_prev_free_update (\<lambda>_. Some p)) ?l = ?r"
    unfolding state_simps by (simp, rule arg_cong [where f = "\<lambda>f. s\<lparr>bh := f\<rparr>"]) (rule ext, simp)
  moreover have "prv_free ?r (free_list s) = Some p" using p by (simp add: state_simps)
  ultimately show ?thesis
    unfolding insert_into_queues_def Let_def
    by (simp only: option.case link_free_def into_hash_def Let_def) (simp split: option.split)
qed

lemma unlink_free_links:
  "nxt_free (unlink_free b p n s) = (nxt_free s)(p := Some n)" "prv_free (unlink_free b p n s) = (prv_free s)(n := Some p)"
  "free_list (unlink_free b p n s) = (if free_list s = b then n else free_list s)"
  "nxt (unlink_free b p n s) x = nxt s x" "prv (unlink_free b p n s) x = prv s x" "hash_table (unlink_free b p n s) = hash_table s"
  "nr_buffers (unlink_free b p n s) = nr_buffers s" "b_dev (bh (unlink_free b p n s) x) = b_dev (bh s x)"
  "b_blocknr (bh (unlink_free b p n s) x) = b_blocknr (bh s x)"
  by (auto simp: unlink_free_def Let_def state_simps fun_eq_iff)

lemma link_free_links:
  "nxt_free (link_free b p s) = (nxt_free s)(b := Some (free_list s), p := Some b)"
  "prv_free (link_free b p s) = (prv_free s)(b := Some p, free_list s := Some b)"
  "free_list (link_free b p s) = free_list s"
  "nxt (link_free b p s) x = nxt s x" "prv (link_free b p s) x = prv s x" "hash_table (link_free b p s) = hash_table s"
  "nr_buffers (link_free b p s) = nr_buffers s" "b_dev (bh (link_free b p s) x) = b_dev (bh s x)"
  "b_blocknr (bh (link_free b p s) x) = b_blocknr (bh s x)"
  by (auto simp: link_free_def Let_def state_simps fun_eq_iff)

lemma into_hash_links:
  assumes "b_dev (bh s b) \<noteq> 0 \<Longrightarrow> hash_table s (bh_hash b s) \<noteq> Some b"
  shows "nxt (into_hash b s) = (nxt s)(b := if b_dev (bh s b) = 0 then None else hash_table s (bh_hash b s))"
    and "prv (into_hash b s) = (case (if b_dev (bh s b) = 0 then None else hash_table s (bh_hash b s)) of
      None \<Rightarrow> (prv s)(b := None) | Some n \<Rightarrow> (prv s)(b := None, n := Some b))"
    and "hash_table (into_hash b s) = (if b_dev (bh s b) = 0 then hash_table s else (hash_table s)(bh_hash b s := Some b))"
    and "nxt_free (into_hash b s) x = nxt_free s x" "prv_free (into_hash b s) x = prv_free s x" "free_list (into_hash b s) = free_list s"
    and "nr_buffers (into_hash b s) = nr_buffers s" "b_dev (bh (into_hash b s) x) = b_dev (bh s x)"
      "b_blocknr (bh (into_hash b s) x) = b_blocknr (bh s x)" "bh_hash x (into_hash b s) = bh_hash x s"
  using assms by (auto simp: into_hash_def Let_def state_simps set_hash_def bh_hash_def fun_eq_iff split: option.splits)

lemma hashed_insert:
  assumes "hashed s H" and "b \<notin> H" and "b_dev (bh s b) \<noteq> 0"
  shows "hash_table s (bh_hash b s) \<noteq> Some b" and "hashed (into_hash b s) (insert b H)"
proof -
  let ?t = "into_hash b s" and ?k = "bh_hash b s"
  obtain C where C: "h < NR_HASH \<Longrightarrow> chain_at s H h (C h)" for h using hashed_chains [OF assms(1)] by blast
  note Ck = C [OF bh_hash_lt [of b s]]
  have b: "b \<notin> set (C ?k)" using Ck assms(2) by (auto simp: chain_at_def)
  show nb: "hash_table s ?k \<noteq> Some b" using Ck b by (cases "C ?k") (auto simp: chain_at_def)
  then have "b_dev (bh s b) \<noteq> 0 \<Longrightarrow> hash_table s ?k \<noteq> Some b" by simp
  note t = into_hash_links [OF this]
  show "hashed ?t (insert b H)" unfolding hashed_def
  proof (intro allI impI)
    fix g
    assume g: "g < NR_HASH"
    show "\<exists>xs. chain_at ?t (insert b H) g xs"
    proof (cases "g = ?k")
      case False
      have "chain_at ?t (insert b H) g (C g)"
      proof (rule chain_at_cong [OF C [OF g]])
        fix x
        assume x: "x \<in> H" "bh_hash x s = g"
        then have "x \<noteq> b" "hash_table s ?k \<noteq> Some x" using assms(2) False Ck by (auto simp: chain_at_def dest: ends_in)
        then show "nxt ?t x = nxt s x \<and> prv ?t x = prv s x"
          using fun_cong [OF t(1), of x] fun_cong [OF t(2), of x] by (auto split: option.split)
      qed (use False assms(3) in \<open>auto simp: t(3,10)\<close>)
      then show ?thesis ..
    next
      case True
      have d: "dlist (nxt s) (prv s) None (C ?k) None" "distinct (C ?k)" "hash_table s ?k = first (C ?k) None"
        "set (C ?k) = {x \<in> H. bh_hash x s = ?k}" using Ck by (simp_all add: chain_at_def)
      have "dlist (nxt s) (case first (C ?k) None of None \<Rightarrow> prv s | Some n \<Rightarrow> (prv s)(n := Some b)) (Some b) (C ?k) None"
        by (rule dlist_set_prev [OF d(1,2)])
      moreover have "nxt ?t x = nxt s x \<and> prv ?t x = (case first (C ?k) None of None \<Rightarrow> prv s | Some n \<Rightarrow> (prv s)(n := Some b)) x"
        if "x \<in> set (C ?k)" for x
        using fun_cong [OF t(1), of x] fun_cong [OF t(2), of x] that b assms(3) d(3) by (auto split: option.split)
      then have "dlist (nxt ?t) (prv ?t) (Some b) (C ?k) None
        = dlist (nxt s) (case first (C ?k) None of None \<Rightarrow> prv s | Some n \<Rightarrow> (prv s)(n := Some b)) (Some b) (C ?k) None"
        by (intro dlist_cong) simp
      moreover have "prv ?t b = None" "nxt ?t b = first (C ?k) None"
        using fun_cong [OF t(1), of b] fun_cong [OF t(2), of b] nb assms(3) d(3) by (auto split: option.split)
      ultimately have "dlist (nxt ?t) (prv ?t) None (b # C ?k) None" by simp
      moreover have "set (b # C ?k) = {x \<in> insert b H. bh_hash x s = ?k}" using d(4) by auto
      ultimately have "chain_at ?t (insert b H) ?k (b # C ?k)"
        using d(2) b assms(3) by (simp add: chain_at_def t(3,10))
      then show ?thesis using True by blast
    qed
  qed
qed

lemma hashed_cong:
  assumes "hashed s H" and "hash_table t = hash_table s" and "\<And>x. x \<in> H \<Longrightarrow> nxt t x = nxt s x \<and> prv t x = prv s x \<and> bh_hash x t = bh_hash x s"
  shows "hashed t H"
proof -
  have "chain_at t H h xs" if "chain_at s H h xs" for h xs
  proof -
    have "{x \<in> H. bh_hash x t = h} = {x \<in> H. bh_hash x s = h}" using assms(3) by auto
    moreover have "dlist (nxt t) (prv t) None xs None = dlist (nxt s) (prv s) None xs None"
      using that assms(3) by (intro dlist_cong) (auto simp: chain_at_def)
    ultimately show ?thesis using that assms(2) by (simp add: chain_at_def)
  qed
  with assms(1) show ?thesis unfolding hashed_def by blast
qed

lemma wide_dev: "dev < 0x10000 \<Longrightarrow> ucast (ucast dev :: u16) = (dev :: u32)"
  by (simp add: word_unat_eq_iff unsigned_ucast_eq word_less_nat_alt unsigned_take_bit_eq take_bit_nat_eq_self)

text \<open>With \<open>b\<close> out of the ring, which is whole again when \<open>b\<close> goes before \<open>free_list\<close>.\<close>

definition gap :: "nat \<Rightarrow> kstate \<Rightarrow> bool" where
  "gap b s \<longleftrightarrow> free_list s < nr_buffers s \<and> (\<exists>q R. prv_free s (free_list s) = Some q \<and> set R = {..<nr_buffers s} \<and>
     ring ((nxt_free s)(b := Some (free_list s), q := Some b)) ((prv_free s)(b := Some q, free_list s := Some b)) R)"

definition idle :: "kstate \<Rightarrow> nat set \<Rightarrow> bool" where
  "idle s H \<longleftrightarrow> (\<forall>x\<in>H. nxt s x = None \<and> prv s x = None)"

lemma idle_remove:
  assumes "hashed s H" and "idle s I" and "H \<inter> I = {}" and "b \<in> H \<or> b \<in> I"
  shows "idle (remove_from_hash b s) I"
  unfolding idle_def
proof
  fix x
  assume x: "x \<in> I"
  have "nxt s b \<noteq> Some x \<and> prv s b \<noteq> Some x"
    using assms(2-4) x hashed_neighbour [OF assms(1), of b x] by (auto simp: idle_def)
  then show "nxt (remove_from_hash b s) x = None \<and> prv (remove_from_hash b s) x = None"
    using assms(2) x by (auto simp: idle_def remove_from_hash_def Let_def state_simps set_hash_def split: option.splits)
qed

lemma removed:
  assumes H: "hashed s H" "idle s I" "H \<inter> I = {}" "b \<in> H \<or> b \<in> I" and R: "ring_of s R" "b < nr_buffers s"
  obtains u where "remove_from_queues b s = Ret () u" "hashed u (H - {b})" "idle u I" "gap b u" "nr_buffers u = nr_buffers s"
    "\<And>x. b_dev (bh u x) = b_dev (bh s x)" "\<And>x. b_blocknr (bh u x) = b_blocknr (bh s x)"
proof -
  let ?v = "remove_from_hash b s"
  obtain p n q R' where r: "prv_free s b = Some p" "nxt_free s b = Some n"
    "((prv_free s)(n := Some p)) (if free_list s = b then n else free_list s) = Some q"
    "ring ((nxt_free s)(p := Some n, b := Some (if free_list s = b then n else free_list s), q := Some b))
       ((prv_free s)(n := Some p, b := Some q, (if free_list s = b then n else free_list s) := Some b)) R'"
    "set R' = set R" "n \<in> set R"
    by (rule ring_move [of "nxt_free s" "prv_free s" R b "free_list s"]) (use R in \<open>auto simp: ring_of_def\<close>)
  let ?u = "unlink_free b p n ?v"
  note f = remove_from_hash_free [of b s]
  have l: "nxt_free ?u = (nxt_free s)(p := Some n)" "prv_free ?u = (prv_free s)(n := Some p)"
    "free_list ?u = (if free_list s = b then n else free_list s)" "nr_buffers ?u = nr_buffers s"
    by (simp_all add: unlink_free_links f)
  have "prv_free ?u (free_list ?u) = Some q" unfolding fun_cong [OF l(2)] l(3) by (rule r(3))
  moreover have "free_list ?u < nr_buffers ?u" using r(6) R by (auto simp: ring_of_def l)
  ultimately have "gap b ?u" unfolding gap_def
    using r(4,5) R by (intro conjI exI [where x = q] exI [where x = R']) (simp_all only: l ring_of_def)
  moreover have "hashed ?v (H - {b})" by (rule hashed_remove [OF H(1)]) (use H in \<open>auto simp: idle_def\<close>)
  then have "hashed ?u (H - {b})" by (rule hashed_cong) (simp_all add: unlink_free_links bh_hash_def)
  moreover have "idle ?u I" using idle_remove [OF H] by (simp add: idle_def unlink_free_links)
  ultimately show thesis
    using r(1,2) by (intro that [of ?u]) (simp_all add: remove_from_queues_eq unlink_free_links f)
qed

lemma inserted:
  assumes H: "hashed s H" "idle s I" "b \<notin> H" "b \<notin> I" "H \<inter> I = {}" and g: "gap b s"
  obtains t R where "insert_into_queues b s = Ret () t" "hashed t (if b_dev (bh s b) = 0 then H else insert b H)" "ring_of t R"
    "idle t (if b_dev (bh s b) = 0 then insert b I else I)" "nr_buffers t = nr_buffers s"
    "\<And>x. b_dev (bh t x) = b_dev (bh s x)" "\<And>x. b_blocknr (bh t x) = b_blocknr (bh s x)"
proof -
  obtain q R where q: "prv_free s (free_list s) = Some q" "set R = {..<nr_buffers s}" "free_list s < nr_buffers s"
    "ring ((nxt_free s)(b := Some (free_list s), q := Some b)) ((prv_free s)(b := Some q, free_list s := Some b)) R"
    using g by (auto simp: gap_def)
  define u where "u = link_free b q s"
  note l = link_free_links [of b q s, folded u_def]
  have u: "hashed u H" by (rule hashed_cong [OF H(1)]) (simp_all add: l bh_hash_def)
  then have head: "hash_table u (bh_hash b u) \<noteq> Some x" if "x = b \<or> x \<in> I" for x
    using hashed_head [OF u bh_hash_lt] that H(3-5) by blast
  let ?t = "into_hash b u"
  have "hash_table u (bh_hash b u) \<noteq> Some b" using head by blast
  note t = into_hash_links [OF this]
  have other: "nxt ?t x = nxt u x" "hash_table u (bh_hash b u) \<noteq> Some x \<Longrightarrow> prv ?t x = prv u x" if "x \<noteq> b" for x
    using fun_cong [OF t(1), of x] fun_cong [OF t(2), of x] that by (auto split: option.splits if_splits)
  have idle: "idle ?t (if b_dev (bh s b) = 0 then insert b I else I)"
  proof -
    have "nxt ?t x = None \<and> prv ?t x = None" if "x \<in> I" for x
    proof -
      have "x \<noteq> b" using that H(4) by auto
      from other [OF this] head [of x] that H(2) show ?thesis by (auto simp: idle_def l)
    qed
    moreover have "nxt ?t b = None \<and> prv ?t b = None" if "b_dev (bh s b) = 0"
      using that fun_cong [OF t(1), of b] fun_cong [OF t(2), of b] by (simp add: l)
    ultimately show ?thesis by (simp add: idle_def)
  qed
  have hashed: "hashed ?t (if b_dev (bh s b) = 0 then H else insert b H)"
  proof (cases "b_dev (bh s b) = 0")
    case True
    have "hashed ?t H"
    proof (rule hashed_cong [OF u])
      fix x
      assume "x \<in> H"
      then have "x \<noteq> b" using H(3) by auto
      then show "nxt ?t x = nxt u x \<and> prv ?t x = prv u x \<and> bh_hash x ?t = bh_hash x u"
        using True other(1) fun_cong [OF t(2), of x] by (simp add: t(10) l)
    qed (use True in \<open>simp add: t(3) l\<close>)
    with True show ?thesis by simp
  next
    case False
    then show ?thesis using hashed_insert(2) [OF u H(3)] by (simp add: l)
  qed
  have "nxt_free ?t = (nxt_free s)(b := Some (free_list s), q := Some b)" "prv_free ?t = (prv_free s)(b := Some q, free_list s := Some b)"
    by (simp_all only: t l)
  then have "ring_of ?t R" using q by (simp add: ring_of_def t l)
  with hashed idle show thesis
    by (intro that [of ?t R]) (simp_all add: insert_into_queues_eq [OF q(1)] t l flip: u_def)
qed

lemma take_buffer_inv:
  assumes s: "cache_inv s" and b: "b < nr_buffers s" and dev: "dev < 0x10000"
    and new: "\<And>x. x \<in> in_use s \<Longrightarrow> \<not> holds_block dev block s x"
  obtains t where "take_buffer dev block b s = Ret b t" "cache_inv t" "holds_block dev block t b" "nr_buffers t = nr_buffers s"
proof -
  define I where "I = {..<nr_buffers s} - in_use s"
  define s1 where "s1 = upd_bh b (\<lambda>x. x\<lparr>b_count := 1, b_dirt := 0, b_uptodate := 0\<rparr>) s"
  have s1: "nxt s1 x = nxt s x" "prv s1 x = prv s x" "nxt_free s1 x = nxt_free s x" "prv_free s1 x = prv_free s x"
    "hash_table s1 = hash_table s" "free_list s1 = free_list s" "nr_buffers s1 = nr_buffers s"
    "b_dev (bh s1 x) = b_dev (bh s x)" "b_blocknr (bh s1 x) = b_blocknr (bh s x)" for x
    by (simp_all add: s1_def state_simps)
  obtain R where R: "ring_of s1 R" using s by (auto simp: cache_inv_def ring_of_def s1)
  have "hashed s1 (in_use s)" using s by (auto simp: cache_inv_def s1 bh_hash_def intro: hashed_cong)
  moreover have "idle s1 I" using s by (auto simp: cache_inv_def idle_def I_def in_use_def s1)
  ultimately obtain u where u: "remove_from_queues b s1 = Ret () u" "hashed u (in_use s - {b})" "idle u I" "gap b u" "nr_buffers u = nr_buffers s"
    "\<And>x. b_dev (bh u x) = b_dev (bh s x)" "\<And>x. b_blocknr (bh u x) = b_blocknr (bh s x)"
    by (rule removed [OF _ _ _ _ R, of "in_use s" I b]) (use b in \<open>auto simp: I_def s1\<close>)
  define s2 where "s2 = upd_bh b (\<lambda>x. x\<lparr>b_dev := ucast dev, b_blocknr := block\<rparr>) u"
  have s2: "nxt s2 x = nxt u x" "prv s2 x = prv u x" "nxt_free s2 x = nxt_free u x" "prv_free s2 x = prv_free u x"
    "hash_table s2 = hash_table u" "free_list s2 = free_list u" "nr_buffers s2 = nr_buffers u"
    "b_dev (bh s2 x) = (if x = b then ucast dev else b_dev (bh s x))" "b_blocknr (bh s2 x) = (if x = b then block else b_blocknr (bh s x))" for x
    by (simp_all add: s2_def state_simps u)
  have h: "hashed s2 (in_use s - {b})" by (rule hashed_cong [OF u(2)]) (auto simp: s2 bh_hash_def u)
  have i: "idle s2 (I - {b})" "gap b s2" using u(3,4) by (auto simp: idle_def gap_def s2)
  have "b \<notin> in_use s - {b}" "b \<notin> I - {b}" "(in_use s - {b}) \<inter> (I - {b}) = {}" by (auto simp: I_def)
  from inserted [OF h i(1) this i(2)] obtain t R where t0: "insert_into_queues b s2 = Ret () t"
    "hashed t (if b_dev (bh s2 b) = 0 then in_use s - {b} else insert b (in_use s - {b}))" "ring_of t R"
    "idle t (if b_dev (bh s2 b) = 0 then insert b (I - {b}) else I - {b})" "nr_buffers t = nr_buffers s2"
    "\<And>x. b_dev (bh t x) = b_dev (bh s2 x)" "\<And>x. b_blocknr (bh t x) = b_blocknr (bh s2 x)" by blast
  note t = t0(1,3,5,2,4,6,7) [unfolded s2(7-9) u(5)]
  have use: "in_use t = (if ucast dev = (0 :: u16) then in_use s - {b} else insert b (in_use s - {b}))"
    using b by (auto simp: in_use_def t(3,6) s2)
  have other: "z \<in> in_use s \<Longrightarrow> b_dev (bh s z) = ucast dev \<Longrightarrow> b_blocknr (bh s z) \<noteq> block" for z
    using new [of z] wide_dev [OF dev] by (auto simp: holds_block_def)
  have old: "z \<in> in_use s" if "z \<in> in_use t" "z \<noteq> b" for z using that by (simp add: use split: if_splits)
  have unique: "x = y" if "x \<in> in_use s" "y \<in> in_use s" "b_dev (bh s x) = b_dev (bh s y)" "b_blocknr (bh s x) = b_blocknr (bh s y)" for x y
    using s that by (simp add: cache_inv_def)
  have "x = y" if xy: "x \<in> in_use t" "y \<in> in_use t" "b_dev (bh t x) = b_dev (bh t y)" "b_blocknr (bh t x) = b_blocknr (bh t y)" for x y
  proof (cases "x = b \<or> y = b")
    case True
    then show ?thesis using xy(3,4) other [OF old [OF xy(1)]] other [OF old [OF xy(2)]] by (auto simp: t(6,7) split: if_splits)
  next
    case False
    then show ?thesis using unique [OF old [OF xy(1)] old [OF xy(2)]] xy(3,4) by (simp add: t(6,7))
  qed
  moreover have "hashed t (in_use t)" using t(4) by (simp add: use)
  moreover have "nxt t x = None \<and> prv t x = None" if x: "x < nr_buffers t" "b_dev (bh t x) = 0" for x
  proof (cases "x = b")
    case True
    then have "ucast dev = (0 :: u16)" using x(2) by (simp only: t(6) refl if_True)
    with t(5) True show ?thesis by (simp add: idle_def)
  next
    case False
    then have "x \<in> I" using x by (simp add: I_def in_use_def t(3,6))
    with t(5) False show ?thesis by (simp add: idle_def split: if_splits)
  qed
  ultimately have "cache_inv t" using t(2) unfolding cache_inv_def by blast
  moreover have "take_buffer dev block b s = Ret b t"
    by (simp add: take_buffer_def u(1) t(1) flip: s1_def s2_def)
  moreover have "holds_block dev block t b" using wide_dev [OF dev] by (simp add: holds_block_def t(6,7))
  ultimately show thesis using t(3) that by blast
qed

end
