(* ===== verification/CacheProps.thy ===== *)
theory CacheProps
  imports Cache FloppyFrame PageLoad
begin

text \<open>
  The buffer cache as a whole: every operation keeps \<open>cache_inv\<close>, so that a block has at most
  one buffer and \<open>getblk\<close> gives that of the block asked for. Everything below the cache leaves its
  links alone (\<open>same_links\<close>).
\<close>

section \<open>What leaves the links alone\<close>

definition links :: "buffer_head \<Rightarrow> u16 \<times> u32 \<times> nat option \<times> nat option \<times> nat option \<times> nat option" where
  "links b = (b_dev b, b_blocknr b, b_next b, b_prev b, b_next_free b, b_prev_free b)"

definition same_links :: "kstate \<Rightarrow> kstate \<Rightarrow> bool" where
  "same_links s t \<longleftrightarrow> nr_buffers t = nr_buffers s \<and> hash_table t = hash_table s \<and> free_list t = free_list s \<and>
     (\<forall>b. links (bh t b) = links (bh s b))"

named_theorems unlinked

lemma same_links_refl [simp]: "same_links s s"
  by (simp add: same_links_def)

lemma same_links_if [unlinked]: "(b \<Longrightarrow> same_links s t) \<Longrightarrow> (\<not> b \<Longrightarrow> same_links s u) \<Longrightarrow> same_links s (if b then t else u)"
  by simp

lemma same_links_option [unlinked]: "same_links s t \<Longrightarrow> (\<And>x. same_links s (f x)) \<Longrightarrow> same_links s (case v of None \<Rightarrow> t | Some x \<Rightarrow> f x)"
  by (cases v) simp_all

lemma same_links_let_state [unlinked]: "same_links s t \<Longrightarrow> (\<And>u. same_links s u \<Longrightarrow> same_links s (f u)) \<Longrightarrow> same_links s (Let t f)"
  by simp

lemma same_links_let_value: "(\<And>x. same_links s (f x)) \<Longrightarrow> same_links s (Let v f)"
  by simp

lemmas link_values = kept_let_value same_links_let_value

lemma same_links_updates [unlinked]:
  assumes "same_links s t"
  shows "same_links s (upd_inode i f1 t)" "same_links s (upd_super i f2 t)" "same_links s (upd_req i f3 t)"
    "same_links s (upd_tty i f4 t)" "same_links s (upd_task i f5 t)" "same_links s (upd_cur f5 t)"
    "same_links s (t\<lparr>current_request := a1\<rparr>)" "same_links s (t\<lparr>rd_mem := a2\<rparr>)" "same_links s (t\<lparr>ports := a3\<rparr>)"
    "same_links s (t\<lparr>harddisk := a4\<rparr>)" "same_links s (t\<lparr>current := a5\<rparr>)" "same_links s (t\<lparr>mm := a6\<rparr>)" "same_links s (t\<lparr>user := a7\<rparr>)"
    "same_links s (t\<lparr>floppy := a8\<rparr>)" "same_links s (t\<lparr>timers := a9\<rparr>)"
  using assms by (simp_all add: same_links_def state_simps)

lemma same_links_bh: "(\<And>x. links (f x) = links x) \<Longrightarrow> same_links s t \<Longrightarrow> same_links s (upd_bh i f t)"
  by (simp add: same_links_def state_simps)

section \<open>Scheduling\<close>

lemma same_links_for_tasks: "same_links s t \<Longrightarrow> same_links s (for_tasks n f t)"
  by (subst for_tasks_only_tasks) (simp add: same_links_def)

lemma choose_task_links: "choose_task t = Some r \<Longrightarrow> same_links s t \<Longrightarrow> same_links s (snd r)"
proof -
  have "same_links s t \<longrightarrow> same_links s (snd r)" if "choose_task t = Some r" for t r
  proof (rule choose_task.raw_induct [where P = "\<lambda>t r. same_links s t \<longrightarrow> same_links s (snd r)", OF _ that])
    fix c t r
    assume IH: "\<And>t r. c t = Some r \<Longrightarrow> same_links s t \<longrightarrow> same_links s (snd r)"
      and eq: "(let (c', nxt) = pick (NR_TASKS - 1) (- 1) 0 t in
         if tst c' then Some (nxt, t) else c (for_tasks (NR_TASKS - 1) refill t)) = Some r"
    show "same_links s t \<longrightarrow> same_links s (snd r)"
      using eq IH [of "for_tasks (NR_TASKS - 1) refill t" r]
      by (auto simp del: One_nat_def intro: same_links_for_tasks split: prod.splits if_splits)
  qed
  then show "choose_task t = Some r \<Longrightarrow> same_links s t \<Longrightarrow> same_links s (snd r)" by blast
qed

lemma schedule_links [unlinked]: "same_links s t \<Longrightarrow> kept same_links s (schedule t)"
  using choose_task_links same_links_for_tasks
  by (fastforce simp: schedule_def Let_def intro: same_links_updates split: option.split)

lemma queue_links: "is_queue q \<Longrightarrow> same_links s t \<Longrightarrow> same_links s (put_wait q p t)"
  by (auto simp: is_queue_def queue_simps same_links_def state_simps links_def)

lemma set_state_links [unlinked]: "same_links s t \<Longrightarrow> same_links s (set_state v p t)"
  by (auto simp: set_state_def intro: same_links_updates split: option.split)

lemma wake_up_links [unlinked]: "is_queue q \<Longrightarrow> same_links s t \<Longrightarrow> same_links s (wake_up q t)"
  by (auto simp: wake_up_def intro: queue_links set_state_links)

lemma sleep_on_links [unlinked]: "is_queue q \<Longrightarrow> same_links s t \<Longrightarrow> kept same_links s (sleep_on q t)"
  unfolding sleep_on_def Let_def by (intro kept_if kept_none kept_seq kept_Ret unlinked queue_links) assumption+

section \<open>Block drivers\<close>

lemma driver_links [unlinked]:
  "kept same_links s m \<Longrightarrow> kept same_links s m' \<Longrightarrow> kept same_links s m'' \<Longrightarrow>
   kept same_links s (case d of Ramdisk \<Rightarrow> m | Harddisk \<Rightarrow> m' | Floppy \<Rightarrow> m'')"
  by (cases d) simp_all

lemma outb_links [unlinked]: "same_links s t \<Longrightarrow> same_links s (outb v p t)"
  unfolding outb_def by (rule unlinked)

lemma in_port_links [unlinked]: "same_links s t \<Longrightarrow> same_links s (snd (in_port p t))" "same_links s t \<Longrightarrow> same_links s (snd (inb p t))"
  by (simp_all add: in_port_def inb_def same_links_updates)

lemma words_links [unlinked]: "same_links s t \<Longrightarrow> same_links s (write_words n b k t)"
  by (induction n arbitrary: k t) (simp_all add: unlinked)

lemma polls_links [unlinked]:
  "same_links s t \<Longrightarrow> same_links s (snd (poll_ready n t))" "same_links s t \<Longrightarrow> same_links s (poll_busy n t)" "same_links s t \<Longrightarrow> same_links s (snd (poll_drq n t))"
  by (induction n arbitrary: t) (simp_all add: inb_def in_port_def same_links_updates)

lemma pairs_links:
  "same_links s t \<Longrightarrow> (\<And>a u. same_links s u \<Longrightarrow> kept same_links s (f a u)) \<Longrightarrow> kept same_links s (case inb p t of (a, u) \<Rightarrow> f a u)"
  "same_links s t \<Longrightarrow> (\<And>a u. same_links s u \<Longrightarrow> kept same_links s (g a u)) \<Longrightarrow> kept same_links s (case poll_drq n t of (a, u) \<Rightarrow> g a u)"
  "same_links s t \<Longrightarrow> (\<And>a u. same_links s u \<Longrightarrow> kept same_links s (h a u)) \<Longrightarrow> kept same_links s (case controller_ready t of (a, u) \<Rightarrow> h a u)"
  using in_port_links(2) [of s t p] polls_links(3) [of s t n] polls_links(1) [of s t 10000]
  by (auto simp: controller_ready_def split: prod.split)

lemma drive_busy_links [unlinked]: "same_links s t \<Longrightarrow> same_links s (snd (drive_busy t))"
  using in_port_links(2) [OF polls_links(2) [of s t 10000], of HD_STATUS] by (auto simp: drive_busy_def Let_def split: prod.split)

lemma lock_buffer_links [unlinked]: "same_links s t \<Longrightarrow> kept same_links s (lock_buffer x1 t)"
  unfolding lock_buffer_def by (assumption | rule pairs_links | rule unlinked keeps link_values | rule same_links_bh, (simp add: links_def; fail))+

lemma unlock_buffer_links [unlinked]: "same_links s t \<Longrightarrow> same_links s (unlock_buffer x1 t)"
  unfolding unlock_buffer_def by (assumption | rule pairs_links | rule unlinked keeps link_values | rule same_links_bh, (simp add: links_def; fail))+

lemma set_current_links [unlinked]: "same_links s t \<Longrightarrow> same_links s (set_current x1 x2 t)"
  unfolding set_current_def by (assumption | rule pairs_links | rule unlinked keeps link_values | rule same_links_bh, (simp add: links_def; fail))+

lemma end_request_links [unlinked]: "same_links s t \<Longrightarrow> same_links s (end_request x1 x2 t)"
  unfolding end_request_def by (assumption | rule pairs_links | rule unlinked keeps link_values | rule same_links_bh, (simp add: links_def; fail))+

lemma rd_write_links [unlinked]: "same_links s t \<Longrightarrow> kept same_links s (rd_write x1 x2 x3 t)"
  unfolding rd_write_def by (assumption | rule pairs_links | rule unlinked keeps link_values | rule same_links_bh, (simp add: links_def; fail))+

lemma rd_read_links [unlinked]: "same_links s t \<Longrightarrow> kept same_links s (rd_read x1 x2 x3 t)"
  unfolding rd_read_def by (assumption | rule pairs_links | rule unlinked keeps link_values | rule same_links_bh, (simp add: links_def; fail))+

lemma rd_step_links [unlinked]: "same_links s t \<Longrightarrow> kept same_links s (rd_step x1 t)"
  unfolding rd_step_def by (assumption | rule pairs_links | rule unlinked keeps link_values | rule same_links_bh, (simp add: links_def; fail))+

lemma do_rd_request_links [unlinked]: "same_links s t \<Longrightarrow> kept same_links s (do_rd_request t)"
  unfolding do_rd_request_def by (assumption | rule pairs_links | rule unlinked keeps link_values | rule same_links_bh, (simp add: links_def; fail))+

lemma upd_hd_links [unlinked]: "same_links s t \<Longrightarrow> same_links s (upd_hd x1 t)"
  unfolding upd_hd_def by (assumption | rule pairs_links | rule unlinked keeps link_values | rule same_links_bh, (simp add: links_def; fail))+

lemma port_write_links [unlinked]: "same_links s t \<Longrightarrow> kept same_links s (port_write x1 x2 t)"
  unfolding port_write_def by (assumption | rule pairs_links | rule unlinked keeps link_values | rule same_links_bh, (simp add: links_def; fail))+

lemma hd_out_links [unlinked]: "same_links s t \<Longrightarrow> kept same_links s (hd_out x1 x2 x3 x4 x5 x6 x7 t)"
  unfolding hd_out_def by (assumption | rule pairs_links | rule unlinked keeps link_values | rule same_links_bh, (simp add: links_def; fail))+

lemma reset_controller_links [unlinked]: "same_links s t \<Longrightarrow> same_links s (reset_controller t)"
  unfolding reset_controller_def by (assumption | rule pairs_links | rule unlinked keeps link_values | rule same_links_bh, (simp add: links_def; fail))+

lemma reset_hd_links [unlinked]: "same_links s t \<Longrightarrow> kept same_links s (reset_hd x1 t)"
  unfolding reset_hd_def by (assumption | rule pairs_links | rule unlinked keeps link_values | rule same_links_bh, (simp add: links_def; fail))+

lemma set_current_errors_links [unlinked]: "same_links s t \<Longrightarrow> same_links s (set_current_errors x1 t)"
  unfolding set_current_errors_def by (assumption | rule pairs_links | rule unlinked keeps link_values | rule same_links_bh, (simp add: links_def; fail))+

lemma bad_rw_intr_links [unlinked]: "same_links s t \<Longrightarrow> same_links s (bad_rw_intr t)"
  unfolding bad_rw_intr_def by (assumption | rule pairs_links | rule unlinked keeps link_values | rule same_links_bh, (simp add: links_def; fail))+

lemma hd_step_links [unlinked]: "same_links s t \<Longrightarrow> kept same_links s (hd_step x1 t)"
  unfolding hd_step_def by (assumption | rule pairs_links | rule unlinked keeps link_values | rule same_links_bh, (simp add: links_def; fail))+

lemma do_hd_request_links [unlinked]: "same_links s t \<Longrightarrow> kept same_links s (do_hd_request t)"
  unfolding do_hd_request_def by (assumption | rule pairs_links | rule unlinked keeps link_values | rule same_links_bh, (simp add: links_def; fail))+

lemma fdc_links [unlinked]: "same_links s t \<Longrightarrow> same_links s (t\<lparr>fdc := f\<rparr>)"
  by (simp add: same_links_def)

interpretation floppy_links: floppy_relation same_links
  by unfold_locales (assumption | rule unlinked only_fdc [where R = same_links, OF fdc_links] | rule same_links_bh, (simp add: links_def; fail))+

lemmas do_fd_request_links [unlinked] = floppy_links.do_fd_request floppy_links.floppy_interrupt

lemma run_driver_links [unlinked]: "same_links s t \<Longrightarrow> kept same_links s (run_driver x1 t)"
  unfolding run_driver_def by (assumption | rule pairs_links | rule unlinked keeps link_values | rule same_links_bh, (simp add: links_def; fail))+

lemma add_request_links [unlinked]: "same_links s t \<Longrightarrow> kept same_links s (add_request x1 x2 t)"
  unfolding add_request_def by (assumption | rule pairs_links | rule unlinked keeps link_values | rule same_links_bh, (simp add: links_def; fail))+

lemma make_request_links [unlinked]: "same_links s t \<Longrightarrow> kept same_links s (make_request x1 x2 x3 t)"
  unfolding make_request_def by (assumption | rule pairs_links | rule unlinked keeps link_values | rule same_links_bh, (simp add: links_def; fail))+

lemma ll_rw_block_links [unlinked]: "same_links s t \<Longrightarrow> kept same_links s (ll_rw_block x1 x2 t)"
  unfolding ll_rw_block_def by (assumption | rule pairs_links | rule unlinked keeps link_values | rule same_links_bh, (simp add: links_def; fail))+

text \<open>The interrupts of the disk.\<close>

lemma read_words_links [unlinked]: "same_links s t \<Longrightarrow> same_links s (read_words n b k t)"
  by (induction n arbitrary: k t) (simp_all add: in_port_def same_links_bh same_links_updates links_def)

lemma port_read_links [unlinked]: "same_links s t \<Longrightarrow> kept same_links s (port_read x1 x2 t)"
  unfolding port_read_def by (assumption | rule unlinked keeps)+

lemma win_result_links:
  "same_links s t \<Longrightarrow> (\<And>a u. same_links s u \<Longrightarrow> kept same_links s (f a u)) \<Longrightarrow> kept same_links s (case win_result t of (a, u) \<Rightarrow> f a u)"
  by (auto simp: win_result_def inb_def in_port_def intro: same_links_updates split: prod.split)

lemma interrupt_links [unlinked]:
  assumes "same_links s t"
  shows "kept same_links s (read_intr t)" "kept same_links s (write_intr t)" "kept same_links s (recal_intr t)"
  unfolding read_intr_def write_intr_def recal_intr_def
  by (assumption | rule win_result_links assms unlinked keeps link_values)+

lemma hd_interrupt_links [unlinked]: "same_links s t \<Longrightarrow> kept same_links s (hd_interrupt t)"
  unfolding hd_interrupt_def
  by (auto split: option.split hd_intr.split intro!: unlinked simp: Let_def)

section \<open>Buffers, super blocks and inodes\<close>

lemma wait_on_buffer_links [unlinked]: "same_links s t \<Longrightarrow> kept same_links s (wait_on_buffer x1 t)"
  unfolding wait_on_buffer_def by (assumption | rule pairs_links | rule unlinked keeps link_values | rule same_links_bh, (simp add: links_def; fail))+

lemma wait_on_super_links [unlinked]: "same_links s t \<Longrightarrow> kept same_links s (wait_on_super x1 t)"
  unfolding wait_on_super_def by (assumption | rule pairs_links | rule unlinked keeps link_values | rule same_links_bh, (simp add: links_def; fail))+

lemma get_super_links [unlinked]: "same_links s t \<Longrightarrow> kept same_links s (get_super x1 t)"
  unfolding get_super_def by (assumption | rule pairs_links | rule unlinked keeps link_values | rule same_links_bh, (simp add: links_def; fail))+

lemma brelse_links [unlinked]: "same_links s t \<Longrightarrow> kept same_links s (brelse x1 t)"
  unfolding brelse_def by (assumption | rule pairs_links | rule unlinked keeps link_values | rule same_links_bh, (simp add: links_def; fail))+

lemma wait_on_inode_links [unlinked]: "same_links s t \<Longrightarrow> kept same_links s (wait_on_inode x1 t)"
  unfolding wait_on_inode_def by (assumption | rule pairs_links | rule unlinked keeps link_values | rule same_links_bh, (simp add: links_def; fail))+

lemma lock_inode_links [unlinked]: "same_links s t \<Longrightarrow> kept same_links s (lock_inode x1 t)"
  unfolding lock_inode_def by (assumption | rule pairs_links | rule unlinked keeps link_values | rule same_links_bh, (simp add: links_def; fail))+

lemma unlock_inode_links [unlinked]: "same_links s t \<Longrightarrow> same_links s (unlock_inode x1 t)"
  unfolding unlock_inode_def by (assumption | rule pairs_links | rule unlinked keeps link_values | rule same_links_bh, (simp add: links_def; fail))+

lemma write_dirty_links [unlinked]: "same_links s t \<Longrightarrow> kept same_links s (write_dirty x1 t)"
  unfolding write_dirty_def by (assumption | rule pairs_links | rule unlinked keeps link_values | rule same_links_bh, (simp add: links_def; fail))+

lemma invalidate_buffers_links [unlinked]: "same_links s t \<Longrightarrow> kept same_links s (invalidate_buffers x1 t)"
  unfolding invalidate_buffers_def by (assumption | rule pairs_links | rule unlinked keeps link_values | rule same_links_bh, (simp add: links_def; fail))+

section \<open>Operations of the cache\<close>

text \<open>
  From a state with \<open>n\<close> buffers: the invariant holds wherever the run is left, and \<open>Q\<close> where it
  returns.
\<close>

definition cached :: "nat \<Rightarrow> ('a \<Rightarrow> kstate \<Rightarrow> bool) \<Rightarrow> ('a, kstate) outcome \<Rightarrow> bool" where
  "cached n Q m \<longleftrightarrow> (case m of Ret a t \<Rightarrow> cache_inv t \<and> nr_buffers t = n \<and> Q a t
     | Sleeps t \<Rightarrow> cache_inv t \<and> nr_buffers t = n | Exits c t \<Rightarrow> cache_inv t \<and> nr_buffers t = n | _ \<Rightarrow> True)"

abbreviation whole :: "nat \<Rightarrow> kstate \<Rightarrow> bool" where
  "whole n s \<equiv> cache_inv s \<and> nr_buffers s = n"

lemma cached_simps [simp]:
  "cached n Q (Ret a t) \<longleftrightarrow> whole n t \<and> Q a t" "cached n Q (Panic msg)" "cached n Q Fault" "cached n Q Hangs"
  "cached n Q (Sleeps t) = whole n t" "cached n Q (Exits c t) = whole n t"
  by (simp_all add: cached_def)

lemma cached_seq: "cached n Q m \<Longrightarrow> (\<And>a t. whole n t \<Longrightarrow> Q a t \<Longrightarrow> cached n P (f a t)) \<Longrightarrow> cached n P (seq m f)"
  by (cases m) simp_all

lemma cached_if: "(b \<Longrightarrow> cached n Q m) \<Longrightarrow> (\<not> b \<Longrightarrow> cached n Q m') \<Longrightarrow> cached n Q (if b then m else m')"
  by simp

lemma cached_mono: "cached n Q m \<Longrightarrow> (\<And>a t. whole n t \<Longrightarrow> Q a t \<Longrightarrow> P a t) \<Longrightarrow> cached n P m"
  by (cases m) simp_all

lemma cached_for_each: "whole n t \<Longrightarrow> (\<And>x u. whole n u \<Longrightarrow> cached n (\<lambda>_ _. True) (f x u)) \<Longrightarrow> cached n (\<lambda>_ _. True) (for_each f xs t)"
  by (induction xs arbitrary: t) (auto intro!: cached_seq)

lemma same_links_fields:
  assumes "same_links s t"
  shows "nr_buffers t = nr_buffers s" "hash_table t = hash_table s" "free_list t = free_list s" "nxt t x = nxt s x" "prv t x = prv s x"
    "nxt_free t x = nxt_free s x" "prv_free t x = prv_free s x" "b_dev (bh t x) = b_dev (bh s x)" "b_blocknr (bh t x) = b_blocknr (bh s x)"
  using assms by (simp_all add: same_links_def links_def)

lemma whole_links:
  assumes "whole n s" and "same_links s t"
  shows "whole n t"
proof -
  note l = same_links_fields [OF assms(2)]
  have "in_use t = in_use s" by (simp add: in_use_def l)
  moreover have "hashed t (in_use s)" using assms(1) by (auto simp: cache_inv_def bh_hash_def l intro: hashed_cong)
  moreover have "ring_of t = ring_of s" by (rule ext) (simp add: ring_of_def l)
  ultimately show ?thesis using assms(1) by (simp add: cache_inv_def l)
qed

lemma cached_links:
  assumes "kept same_links s m" and "whole n s"
  shows "cached n (\<lambda>_ t. same_links s t) m"
proof -
  have "whole n t" if "same_links s (t\<lparr>current := i\<rparr>)" for t i
    by (rule whole_links [OF assms(2)]) (use that in \<open>simp add: same_links_def\<close>)
  then show ?thesis using assms(1) whole_links [OF assms(2)] by (cases m) auto
qed

definition finds :: "u32 \<Rightarrow> u32 \<Rightarrow> nat \<Rightarrow> kstate \<Rightarrow> bool" where
  "finds dev block b s \<longleftrightarrow> b < nr_buffers s \<and> holds_block dev block s b"

lemma finds_links: "finds dev block b s \<Longrightarrow> same_links s t \<Longrightarrow> finds dev block b t"
  using same_links_fields [of s t] by (simp add: finds_def holds_block_def)

lemma find_buffer_cached: "whole n s \<Longrightarrow> cached n (\<lambda>r t. t = s \<and> (case r of None \<Rightarrow> \<forall>x\<in>in_use s. \<not> holds_block dev block s x
    | Some b \<Rightarrow> finds dev block b s)) (find_buffer dev block s)"
  by (rule find_buffer_cases [of s dev block]) (auto simp: finds_def in_use_def)

lemma get_hash_table_cached:
  assumes "whole n s"
  shows "cached n (\<lambda>r t. \<forall>b. r = Some b \<longrightarrow> finds dev block b t) (get_hash_table dev block s)"
  unfolding get_hash_table_def
proof (rule cached_seq [OF find_buffer_cached [OF assms]])
  fix r t
  assume t: "whole n t" and r: "t = s \<and> (case r of None \<Rightarrow> \<forall>x\<in>in_use s. \<not> holds_block dev block s x | Some b \<Rightarrow> finds dev block b s)"
  show "cached n (\<lambda>r t. \<forall>b. r = Some b \<longrightarrow> finds dev block b t) (case r of None \<Rightarrow> Ret None t
     | Some b \<Rightarrow> seq (wait_on_buffer b (upd_bh b (\<lambda>x. x\<lparr>b_count := b_count x + 1\<rparr>) t)) (\<lambda>_ s.
          if ucast (b_dev (bh s b)) = dev \<and> b_blocknr (bh s b) = block then Ret (Some b) s else Hangs))"
  proof (cases r)
    case (Some b)
    define u where "u = upd_bh b (\<lambda>x. x\<lparr>b_count := b_count x + 1\<rparr>) t"
    have u: "same_links t u" unfolding u_def by (rule same_links_bh) (simp_all add: links_def)
    have f: "finds dev block b u" using r Some finds_links [OF _ u] by simp
    have w: "cached n (\<lambda>_ v. same_links u v) (wait_on_buffer b u)"
      by (rule cached_links [OF wait_on_buffer_links [OF same_links_refl] whole_links [OF t u]])
    show ?thesis using finds_links [OF f]
      by (simp add: Some flip: u_def) (rule cached_seq [OF w], simp)
  qed (use t in simp)
qed

text \<open>The scan of the free ring stays among the buffers.\<close>

lemma scan_ring_in:
  assumes "scan_ring s tmp bst = Some r" and "ring_of s R" and "tmp < nr_buffers s" and "\<And>b. bst = Some b \<Longrightarrow> b < nr_buffers s"
  shows "r = Fault \<or> (\<exists>q. r = Ret q s \<and> (\<forall>b. q = Some b \<longrightarrow> b < nr_buffers s))"
proof -
  have nxt: "nxt_free s x = Some y \<Longrightarrow> x < nr_buffers s \<Longrightarrow> y < nr_buffers s" for x y
    using assms(2) ring_next [of "nxt_free s" "prv_free s" R x] by (auto simp: ring_of_def)
  have "u = s \<longrightarrow> tmp < nr_buffers s \<longrightarrow> (\<forall>b. bst = Some b \<longrightarrow> b < nr_buffers s) \<longrightarrow>
      r = Fault \<or> (\<exists>q. r = Ret q s \<and> (\<forall>b. q = Some b \<longrightarrow> b < nr_buffers s))" if "scan_ring u tmp bst = Some r" for u tmp bst r
  proof (rule scan_ring.raw_induct [where P = "\<lambda>u tmp bst r. u = s \<longrightarrow> tmp < nr_buffers s \<longrightarrow> (\<forall>b. bst = Some b \<longrightarrow> b < nr_buffers s) \<longrightarrow>
      r = Fault \<or> (\<exists>q. r = Ret q s \<and> (\<forall>b. q = Some b \<longrightarrow> b < nr_buffers s))", OF _ that])
    fix rec u tmp bst r
    assume IH: "\<And>u tmp bst r. rec u tmp bst = Some r \<Longrightarrow> u = s \<longrightarrow> tmp < nr_buffers s \<longrightarrow> (\<forall>b. bst = Some b \<longrightarrow> b < nr_buffers s) \<longrightarrow>
        r = Fault \<or> (\<exists>q. r = Ret q s \<and> (\<forall>b. q = Some b \<longrightarrow> b < nr_buffers s))"
      and eq: "(let free = b_count (bh u tmp) = 0;
         better = free \<and> (case bst of None \<Rightarrow> True | Some b \<Rightarrow> slt (BADNESS (bh u tmp)) (BADNESS (bh u b)));
         bst = if better then Some tmp else bst
     in if better \<and> BADNESS (bh u tmp) = 0 then Some (Ret bst u)
        else case nxt_free u tmp of None \<Rightarrow> Some Fault
          | Some n \<Rightarrow> if n = free_list u then Some (Ret bst u) else rec u n bst) = Some r"
    define c where "c = (if b_count (bh u tmp) = 0 \<and> (case bst of None \<Rightarrow> True | Some b \<Rightarrow> slt (BADNESS (bh u tmp)) (BADNESS (bh u b)))
      then Some tmp else bst)"
    show "u = s \<longrightarrow> tmp < nr_buffers s \<longrightarrow> (\<forall>b. bst = Some b \<longrightarrow> b < nr_buffers s) \<longrightarrow>
      r = Fault \<or> (\<exists>q. r = Ret q s \<and> (\<forall>b. q = Some b \<longrightarrow> b < nr_buffers s))"
    proof (intro impI)
      assume u: "u = s" "tmp < nr_buffers s" "\<forall>b. bst = Some b \<longrightarrow> b < nr_buffers s"
      then have "\<forall>b. c = Some b \<longrightarrow> b < nr_buffers s" by (auto simp: c_def split: if_splits)
      moreover from eq [folded c_def, unfolded Let_def, folded c_def] have "r = Ret c s \<or> r = Fault \<or> (\<exists>n. nxt_free s tmp = Some n \<and> rec s n c = Some r)"
        by (auto simp: u(1) split: option.splits if_splits)
      ultimately show "r = Fault \<or> (\<exists>q. r = Ret q s \<and> (\<forall>b. q = Some b \<longrightarrow> b < nr_buffers s))"
        using IH [of s _ c r] nxt u(2) by blast
    qed
  qed
  then show ?thesis using assms by blast
qed

lemma find_free_cached: "whole n s \<Longrightarrow> cached n (\<lambda>r t. t = s \<and> (\<forall>b. r = Some b \<longrightarrow> b < n)) (find_free s)"
  unfolding find_free_def cache_inv_def
  by (auto split: option.split dest!: scan_ring_in simp: ring_of_def cache_inv_def)

text \<open>What \<open>getblk\<close> promises, for the operations that are given one.\<close>

definition finder :: "nat \<Rightarrow> getblk_fn \<Rightarrow> bool" where
  "finder n gb \<longleftrightarrow> (\<forall>dev block s. whole n s \<longrightarrow> dev < 0x10000 \<longrightarrow> cached n (finds dev block) (gb dev block s))"

lemma cached_run: "kept same_links s m \<Longrightarrow> whole n s \<Longrightarrow> cached n (\<lambda>_ _. True) m"
  by (rule cached_mono [OF cached_links]) simp_all

lemma whole_run: "same_links s t \<Longrightarrow> whole n s \<Longrightarrow> whole n t"
  by (rule whole_links)

lemma narrow_dev: "(ucast (d :: u16) :: u32) < 0x10000"
  using unsigned_less [of d, where ?'a = nat] by (simp add: word_less_nat_alt unsigned_ucast_eq take_bit_nat_eq_self)

lemma bread_by_cached:
  assumes gb: "finder n gb" and s: "whole n s" and dev: "dev < 0x10000"
  shows "cached n (\<lambda>r t. \<forall>b. r = Some b \<longrightarrow> finds dev block b t) (bread_by gb dev block s)"
  unfolding bread_by_def
proof (rule cached_seq [where Q = "finds dev block"])
  show "cached n (finds dev block) (gb dev block s)" using gb s dev by (simp add: finder_def)
next
  fix b t
  assume t: "whole n t" and b: "finds dev block b t"
  have "cached n (\<lambda>r t. \<forall>b. r = Some b \<longrightarrow> finds dev block b t) (seq (ll_rw_block READ b t) (\<lambda>_ s. seq (wait_on_buffer b s) (\<lambda>_ s.
       if tst (b_uptodate (bh s b)) then Ret (Some b) s else seq (brelse (Some b) s) (\<lambda>_ s. Ret None s))))"
  proof (rule cached_seq [OF cached_links [OF ll_rw_block_links [OF same_links_refl] t]])
    fix u
    assume u: "whole n u" and f: "same_links t u"
    show "cached n (\<lambda>r t. \<forall>b. r = Some b \<longrightarrow> finds dev block b t) (seq (wait_on_buffer b u) (\<lambda>_ s.
       if tst (b_uptodate (bh s b)) then Ret (Some b) s else seq (brelse (Some b) s) (\<lambda>_ s. Ret None s)))"
      by (rule cached_seq [OF cached_links [OF wait_on_buffer_links [OF same_links_refl] u]])
        (auto intro!: cached_seq [OF cached_run [OF brelse_links [OF same_links_refl]]] finds_links [OF finds_links [OF b f]])
  qed
  then show "cached n (\<lambda>r t. \<forall>b. r = Some b \<longrightarrow> finds dev block b t) (if tst (b_uptodate (bh t b)) then Ret (Some b) t else
     seq (ll_rw_block READ b t) (\<lambda>_ s. seq (wait_on_buffer b s) (\<lambda>_ s.
       if tst (b_uptodate (bh s b)) then Ret (Some b) s else seq (brelse (Some b) s) (\<lambda>_ s. Ret None s))))"
    using t b by simp
qed

lemma put_block_links [unlinked]: "same_links s t \<Longrightarrow> same_links s (upd_bh b (\<lambda>x. x\<lparr>b_data := f x, b_dirt := v\<rparr>) t)"
  by (rule same_links_bh) (simp_all add: links_def)

text \<open>Where the result does not matter, the rules for the structure of the code do it.\<close>

definition cache_kept :: "nat \<Rightarrow> kstate \<Rightarrow> kstate \<Rightarrow> bool" where
  "cache_kept n s t \<longleftrightarrow> whole n t"

named_theorems cache_rules

lemma kept_cached: "kept (cache_kept n) s m = cached n (\<lambda>_ _. True) m"
proof -
  have "whole n (t\<lparr>current := i\<rparr>) = whole n t" for t i
    using whole_links [where n = n and s = t and t = "t\<lparr>current := i\<rparr>"] whole_links [where n = n and s = "t\<lparr>current := i\<rparr>" and t = t] by (auto simp: same_links_def)
  then show ?thesis by (cases m) (auto simp: cache_kept_def)
qed

lemma kept_cache_run: "kept same_links t m \<Longrightarrow> cache_kept n s t \<Longrightarrow> kept (cache_kept n) s m"
  by (simp add: kept_cached cache_kept_def cached_run)

lemma cache_kept_links: "same_links t u \<Longrightarrow> cache_kept n s t \<Longrightarrow> cache_kept n s u"
  unfolding cache_kept_def by (rule whole_links)

lemma cache_kept_let_state [cache_rules]: "cache_kept n s t \<Longrightarrow> (\<And>u. cache_kept n s u \<Longrightarrow> cache_kept n s (f u)) \<Longrightarrow> cache_kept n s (Let t f)"
  by simp

lemma cached_kept: "cached n Q m \<Longrightarrow> kept (cache_kept n) s m"
  by (auto simp: kept_cached intro: cached_mono)

lemma bread_by_kept [cache_rules]: "finder n gb \<Longrightarrow> cache_kept n s t \<Longrightarrow> dev < 0x10000 \<Longrightarrow> kept (cache_kept n) s (bread_by gb dev block t)"
  unfolding cache_kept_def by (blast intro: cached_kept [unfolded cache_kept_def] bread_by_cached)

lemma write_inode_by_kept [cache_rules]: "finder n gb \<Longrightarrow> cache_kept n s t \<Longrightarrow> kept (cache_kept n) s (write_inode_by gb i t)"
  unfolding write_inode_by_def
  by (assumption | rule cache_rules narrow_dev keeps kept_let_value | (rule kept_cache_run, rule unlinked, rule same_links_refl)
      | (rule cache_kept_links, rule unlinked, rule same_links_refl))+

lemma sync_inodes_by_kept [cache_rules]: "finder n gb \<Longrightarrow> cache_kept n s t \<Longrightarrow> kept (cache_kept n) s (sync_inodes_by gb t)"
  unfolding sync_inodes_by_def
  by (assumption | rule cache_rules keeps | (rule kept_cache_run, rule unlinked, rule same_links_refl))+

lemma sync_dev_by_kept [cache_rules]: "finder n gb \<Longrightarrow> cache_kept n s t \<Longrightarrow> kept (cache_kept n) s (sync_dev_by gb dev t)"
  unfolding sync_dev_by_def
  by (assumption | rule cache_rules keeps | (rule kept_cache_run, rule unlinked, rule same_links_refl))+

lemma clean_buffer_kept [cache_rules]: "finder n gb \<Longrightarrow> cache_kept n s t \<Longrightarrow> kept (cache_kept n) s (clean_buffer gb b t)"
  unfolding clean_buffer_def
  by (assumption | rule cache_rules keeps | (rule kept_cache_run, rule unlinked, rule same_links_refl))+

section \<open>\<open>getblk\<close>\<close>

lemma take_buffer_cached:
  assumes "whole n s" and "b < n" and "dev < 0x10000" and "\<forall>x\<in>in_use s. \<not> holds_block dev block s x"
  shows "cached n (finds dev block) (take_buffer dev block b s)"
proof -
  obtain t where "take_buffer dev block b s = Ret b t" "cache_inv t" "holds_block dev block t b" "nr_buffers t = nr_buffers s"
    by (rule take_buffer_inv [of s b dev block]) (use assms in auto)
  with assms(1,2) show ?thesis by (simp add: finds_def)
qed

lemma getblk_by_cached:
  assumes gb: "finder n gb"
  shows "finder n (getblk_by gb)"
  unfolding finder_def
proof (intro allI impI)
  fix dev block :: u32 and s
  assume s: "whole n s" and dev: "dev < 0x10000"
  have again: "cached n (finds dev block) (gb dev block t)" if "whole n t" for t
    using gb that dev by (simp add: finder_def)
  have taken: "cached n (finds dev block) (seq (find_buffer dev block t) (\<lambda>r s. if r \<noteq> None then gb dev block s else take_buffer dev block b s))"
    if "whole n t" "b < n" for t b
    using again [OF that(1)] take_buffer_cached [OF that dev, of block]
    by (intro cached_seq [OF find_buffer_cached [OF that(1)]]) (simp split: option.splits)
  have cleaned: "cached n (finds dev block) (if tst (b_count (bh t b)) then gb dev block t else
         seq (clean_buffer gb b t) (\<lambda>_ s. if tst (b_count (bh s b)) then gb dev block s else
           seq (find_buffer dev block s) (\<lambda>r s. if r \<noteq> None then gb dev block s else take_buffer dev block b s)))"
    if t: "whole n t" and b: "b < n" for t b
  proof -
    have "cached n (\<lambda>_ _. True) (clean_buffer gb b t)"
      using clean_buffer_kept [OF gb, of t t b] t by (simp add: kept_cached cache_kept_def)
    note clean = cached_seq [OF this]
    show ?thesis by (rule cached_if again t clean taken b | assumption)+
  qed
  show "cached n (finds dev block) (getblk_by gb dev block s)"
    unfolding getblk_by_def
  proof (rule cached_seq [OF get_hash_table_cached [OF s]], split option.split, intro conjI allI impI)
    fix r t
    assume t: "whole n t"
    have sleep: "cached n (\<lambda>_ _. True) (sleep_on buffer_queue u)" "cached n (\<lambda>_ _. True) (wait_on_buffer b u)" if "whole n u" for u b
      using that by (auto intro!: cached_run unlinked)
    show "cached n (finds dev block) (seq (find_free t) (\<lambda>r s. case r of
       None \<Rightarrow> seq (sleep_on buffer_queue s) (\<lambda>_ s. gb dev block s)
     | Some b \<Rightarrow> seq (wait_on_buffer b s) (\<lambda>_ s.
         if tst (b_count (bh s b)) then gb dev block s else
         seq (clean_buffer gb b s) (\<lambda>_ s.
           if tst (b_count (bh s b)) then gb dev block s else
           seq (find_buffer dev block s) (\<lambda>r s.
             if r \<noteq> None then gb dev block s else take_buffer dev block b s)))))"
    proof (rule cached_seq [OF find_free_cached [OF t]], split option.split, intro conjI allI impI)
      fix u r
      assume u: "whole n u"
      show "cached n (finds dev block) (seq (sleep_on buffer_queue u) (\<lambda>_ s. gb dev block s))"
        by (rule cached_seq [OF sleep(1) [OF u]]) (rule again)
    next
      fix u r b
      assume u: "whole n u" and b: "u = t \<and> (\<forall>b. r = Some b \<longrightarrow> b < n)" "r = Some b"
      show "cached n (finds dev block) (seq (wait_on_buffer b u) (\<lambda>_ s.
         if tst (b_count (bh s b)) then gb dev block s else
         seq (clean_buffer gb b s) (\<lambda>_ s.
           if tst (b_count (bh s b)) then gb dev block s else
           seq (find_buffer dev block s) (\<lambda>r s. if r \<noteq> None then gb dev block s else take_buffer dev block b s))))"
        by (rule cached_seq [OF sleep(2) [OF u]], rule cleaned) (use b in auto)
    qed
  qed simp
qed

lemma getblk_finder: "finder n (getblk_fuel k)"
  by (induction k) (simp_all add: getblk_by_cached, simp add: finder_def)

section \<open>The other operations\<close>

lemma finder_getblk: "finder n getblk"
  unfolding getblk_def by (rule getblk_finder)

lemma getblk_kept [cache_rules]: "cache_kept n s t \<Longrightarrow> dev < 0x10000 \<Longrightarrow> kept (cache_kept n) s (getblk dev block t)"
  by (rule cached_kept [where Q = "finds dev block"], use finder_getblk [of n] in \<open>simp add: finder_def cache_kept_def\<close>)

lemma fuelled_kept [cache_rules]:
  "cache_kept n s t \<Longrightarrow> dev < 0x10000 \<Longrightarrow> kept (cache_kept n) s (bread dev block t)"
  "cache_kept n s t \<Longrightarrow> kept (cache_kept n) s (write_inode i t)"
  "cache_kept n s t \<Longrightarrow> kept (cache_kept n) s (sync_inodes t)"
  "cache_kept n s t \<Longrightarrow> kept (cache_kept n) s (sync_dev dev t)"
  unfolding bread_def write_inode_def sync_inodes_def sync_dev_def
  by (rule cache_rules finder_getblk | assumption)+

lemma get_hash_table_kept [cache_rules]: "cache_kept n s t \<Longrightarrow> kept (cache_kept n) s (get_hash_table dev block t)"
  unfolding cache_kept_def by (blast intro: cached_kept [unfolded cache_kept_def] get_hash_table_cached)

lemma b_count_links [unlinked]:
  "same_links s t \<Longrightarrow> same_links s (upd_bh b (\<lambda>x. x\<lparr>b_count := f x\<rparr>) t)"
  "same_links s t \<Longrightarrow> same_links s (upd_bh b (\<lambda>x. x\<lparr>b_uptodate := v, b_dirt := w\<rparr>) t)"
  by (rule same_links_bh; simp add: links_def)+

lemma sys_sync_kept [cache_rules]: "cache_kept n s t \<Longrightarrow> kept (cache_kept n) s (sys_sync t)"
  unfolding sys_sync_def
  by (assumption | rule cache_rules keeps | (rule kept_cache_run, rule unlinked, rule same_links_refl))+

lemma read_ahead_kept [cache_rules]: "dev < 0x10000 \<Longrightarrow> cache_kept n s t \<Longrightarrow> kept (cache_kept n) s (read_ahead dev b bs t)"
proof (induction bs arbitrary: t)
  case (Cons c cs)
  show ?case unfolding read_ahead.simps
    by (assumption | rule Cons.prems Cons.IH [OF Cons.prems(1)] cache_rules keeps | (rule kept_cache_run, rule unlinked, rule same_links_refl)
      | (rule cache_kept_links, rule unlinked, rule same_links_refl))+
qed simp

lemma breada_kept [cache_rules]: "dev < 0x10000 \<Longrightarrow> cache_kept n s t \<Longrightarrow> kept (cache_kept n) s (breada dev b bs t)"
  unfolding breada_def
  by (assumption | rule cache_rules keeps | (rule kept_cache_run, rule unlinked, rule same_links_refl))+

section \<open>From the start of the kernel\<close>

text \<open>\<open>buffer_init\<close> makes the ring of all heads and empty chains.\<close>

lemma dlist_upt:
  assumes "\<And>i. a \<le> i \<Longrightarrow> i < b \<Longrightarrow> pv i = (if i = a then p else Some (i - 1)) \<and> nx i = (if Suc i = b then q else Some (Suc i))"
  shows "dlist nx pv p [a..<b] q"
  using assms
proof (induction "b - a" arbitrary: a p)
  case (Suc k)
  have "dlist nx pv (Some a) [Suc a..<b] q" by (rule Suc.hyps(1)) (use Suc.hyps(2) Suc.prems in auto)
  moreover have "a < b" using Suc.hyps(2) by simp
  moreover from this have "first [Suc a..<b] q = (if Suc a = b then q else Some (Suc a))" by (cases "Suc a < b") (auto simp: upt_conv_Cons)
  ultimately show ?case using Suc.prems [of a] by (simp add: upt_conv_Cons)
qed simp

definition fresh_head :: "kstate \<Rightarrow> nat \<Rightarrow> bool" where
  "fresh_head s i \<longleftrightarrow> b_dev (bh s i) = 0 \<and> nxt s i = None \<and> prv s i = None \<and> prv_free s i = Some (i - 1) \<and> nxt_free s i = Some (Suc i)"

lemma init_loop: "partial (loop (init_step start) (0, b) s) (\<lambda>n t. \<forall>i<n. fresh_head t i)"
  by (rule partial_loop [where I = "\<lambda>v t. \<forall>i<fst v. fresh_head t i"])
    (auto simp: init_step_def Let_def fresh_head_def state_simps less_Suc_eq)

lemma buffer_init_inv:
  assumes "buffer_init start buffer_end s = Ret () t"
  shows "cache_inv t"
proof -
  obtain n u where r: "loop (init_step start) (0, if buffer_end = 0x100000 then 0xA0000 else buffer_end) s = Ret n u" and n: "n \<noteq> 0"
    and t: "t = (let v = upd_bh 0 (b_prev_free_update (\<lambda>_. Some (n - 1))) (u\<lparr>nr_buffers := n, free_list := 0\<rparr>)
       in (upd_bh (n - 1) (b_next_free_update (\<lambda>_. Some 0)) v)\<lparr>hash_table := (\<lambda>i. if i < NR_HASH then None else hash_table v i)\<rparr>)"
    using assms unfolding buffer_init_def by (auto simp: seq_eq_Ret_iff Let_def split: if_splits)
  note t = t [unfolded Let_def]
  have h: "fresh_head u i" if "i < n" for i using partialD [OF init_loop r] that by blast
  have f: "b_dev (bh t i) = 0" "nxt t i = None" "prv t i = None"
    "prv_free t i = (if i = 0 then Some (n - 1) else Some (i - 1))" "nxt_free t i = (if Suc i = n then Some 0 else Some (Suc i))"
    if "i < n" for i
    using h [OF that] that n by (auto simp: t state_simps fresh_head_def)
  have "first [0..<n] None = Some 0" "final None [0..<n] = Some (n - 1)" using n by (simp_all add: first_hd final_last)
  then have "ring (nxt_free t) (prv_free t) [0..<n]"
    by (simp add: ring_def, intro dlist_upt) (simp add: f)
  then have "ring_of t [0..<n]" using n by (auto simp: ring_of_def t state_simps)
  moreover have "in_use t = {}" using f(1) by (auto simp: in_use_def t state_simps)
  moreover have "hashed t {}" by (auto simp: hashed_def chain_at_def t intro: exI [where x = "[]"])
  moreover have "nr_buffers t = n" by (simp add: t state_simps)
  ultimately show ?thesis using f by (auto simp: cache_inv_def)
qed

text \<open>Sequences of operations, by any tasks, on any devices and blocks.\<close>

inductive cache_step :: "kstate \<Rightarrow> kstate \<Rightarrow> bool" where
  getblk: "dev < 0x10000 \<Longrightarrow> left_in (getblk dev block s) t \<Longrightarrow> cache_step s t"
| bread: "dev < 0x10000 \<Longrightarrow> left_in (bread dev block s) t \<Longrightarrow> cache_step s t"
| breada: "dev < 0x10000 \<Longrightarrow> left_in (breada dev block ahead s) t \<Longrightarrow> cache_step s t"
| brelse: "left_in (brelse b s) t \<Longrightarrow> cache_step s t"
| search: "left_in (get_hash_table dev block s) t \<Longrightarrow> cache_step s t"
| transfer: "left_in (ll_rw_block rw b s) t \<Longrightarrow> cache_step s t"
| invalidate: "left_in (invalidate_buffers dev s) t \<Longrightarrow> cache_step s t"
| sync: "left_in (sync_dev dev s) t \<Longrightarrow> cache_step s t"
| sync_all: "left_in (sys_sync s) t \<Longrightarrow> cache_step s t"
| hd_interrupt: "left_in (hd_interrupt s) t \<Longrightarrow> cache_step s t"
| floppy_interrupt: "left_in (floppy_interrupt s) t \<Longrightarrow> cache_step s t"

inductive_simps cache_step_simps: "cache_step s t"

lemma left_in_cached:
  assumes "kept (cache_kept n) s m" and "left_in m t"
  shows "whole n t"
  using assms(1) [unfolded kept_cached] assms(2) by (cases m) auto

lemma cache_step_inv:
  assumes "cache_step s t" and "cache_inv s"
  shows "cache_inv t"
proof -
  have s: "cache_kept (nr_buffers s) s s" using assms(2) by (simp add: cache_kept_def)
  note keep = left_in_cached [where n = "nr_buffers s" and s = s]
  show ?thesis using assms(1)
    by (cases; elim keep [THEN conjunct1, rotated])
      (rule cache_rules kept_cache_run s unlinked same_links_refl | assumption)+
qed



text \<open>A cache of one buffer.\<close>

lemma small_cache:
  obtains t where "buffer_init 0 2048 s = Ret () t" "nr_buffers t = 1" "free_list t = 0" "hash_table t (hashfn 0x301 5) = None"
    "prv_free t 0 = Some 0" "nxt_free t 0 = Some 0" "b_count (bh t 0) = 0" "b_dirt (bh t 0) = 0" "b_lock (bh t 0) = 0"
    "b_dev (bh t 0) = 0" "task t = task s" "tsk t = tsk s" "current t = current s"
proof -
  have l: "loop (init_step 0) (0, 2048) s = Ret 1 (upd_bh 0 (\<lambda>x. x\<lparr>b_dev := 0, b_dirt := 0, b_count := 0, b_lock := 0, b_uptodate := 0,
      b_wait := None, b_next := None, b_prev := None, b_addr := 1024, b_prev_free := Some 0, b_next_free := Some 1\<rparr>) s)"
    by (subst loop_unfold, simp add: init_step_def Let_def, subst loop_unfold, simp add: init_step_def Let_def)
  show thesis
    by (rule that, simp only: buffer_init_def l, simp add: Let_def l) (simp_all add: state_simps hashfn_def NR_HASH_def)
qed

lemma small_getblk:
  assumes "nr_buffers t = 1" "free_list t = 0" "hash_table t (hashfn 0x301 5) = None"
    "prv_free t 0 = Some 0" "nxt_free t 0 = Some 0" "b_count (bh t 0) = 0" "b_dirt (bh t 0) = 0" "b_lock (bh t 0) = 0"
    "b_dev (bh t 0) = 0" and "cache_inv t"
  obtains u where "getblk 0x301 5 t = Ret 0 u" "nr_buffers u = 1" "b_dev (bh u 0) = 0x301"
proof -
  have f: "find_buffer 0x301 5 t = Ret None t"
    using assms(3) by (simp add: find_buffer_def) (subst chain_search.simps, simp)
  have r: "find_free t = Ret (Some 0) t"
    using assms(2,6,7,8) by (simp add: find_free_def) (subst scan_ring.simps, simp add: Let_def BADNESS_def)
  obtain u where u: "take_buffer 0x301 5 0 t = Ret 0 u" "holds_block 0x301 5 u 0" "nr_buffers u = nr_buffers t"
    by (rule take_buffer_inv [OF assms(10), of 0 "0x301" 5]) (use assms in \<open>auto simp: in_use_def\<close>)
  have "getblk 0x301 5 t = Ret 0 u"
    using assms(6,7,8) u(1) by (simp add: getblk_def GETBLK_DEPTH_def eval_nat_numeral getblk_by_def get_hash_table_def f r wait_on_buffer_def clean_buffer_def)
  moreover have "b_dev (bh u 0) = 0x301" using u(2) dev_narrow [of "b_dev (bh u 0)" "0x301"] by (simp add: holds_block_def)
  ultimately show thesis using u(3) assms(1) that by simp
qed



end
