(* ===== verification/CacheReturns.thy ===== *)
theory CacheReturns
  imports CacheProps
begin

text \<open>
  When \<open>getblk\<close> returns without waiting: the search of the free ring ends, with the buffer that
  costs least to take.
\<close>

section \<open>The free ring\<close>

definition free_buffer :: "kstate \<Rightarrow> nat \<Rightarrow> bool" where
  "free_buffer s b \<longleftrightarrow> b_count (bh s b) = 0"

definition cost :: "kstate \<Rightarrow> nat \<Rightarrow> int" where
  "cost s b = sint (BADNESS (bh s b))"

lemma sint_small: "0 \<le> k \<Longrightarrow> k < 2 ^ 31 \<Longrightarrow> sint (word_of_int k :: u32) = k"
  by (subst signed_of_int, subst signed_take_bit_int_eq_self) simp_all

lemma cost_uint: "cost s b = 2 * uint (b_dirt (bh s b)) + uint (b_lock (bh s b))"
proof -
  let ?d = "b_dirt (bh s b)" and ?l = "b_lock (bh s b)"
  have "uint ?d < 256" "uint ?l < 256" using uint_bounded [of ?d] uint_bounded [of ?l] by simp_all
  then have "sint (word_of_int (2 * uint ?d + uint ?l) :: u32) = 2 * uint ?d + uint ?l" by (intro sint_small) simp_all
  moreover have "BADNESS (bh s b) = word_of_int (2 * uint ?d + uint ?l)"
    by (simp add: BADNESS_def push_bit_eq_mult)
  ultimately show ?thesis by (simp only: cost_def)
qed

lemma cost_nonneg: "0 \<le> cost s b"
  by (simp add: cost_uint)

lemma cost_0: "cost s b = 0 \<longleftrightarrow> b_dirt (bh s b) = 0 \<and> b_lock (bh s b) = 0" "BADNESS (bh s b) = 0 \<longleftrightarrow> cost s b = 0"
proof -
  have "cost s b = 0 \<longleftrightarrow> uint (b_dirt (bh s b)) = 0 \<and> uint (b_lock (bh s b)) = 0"
    using uint_ge_0 [of "b_dirt (bh s b)"] uint_ge_0 [of "b_lock (bh s b)"] unfolding cost_uint by linarith
  then show "cost s b = 0 \<longleftrightarrow> b_dirt (bh s b) = 0 \<and> b_lock (bh s b) = 0" by (simp add: unsigned_eq_0_iff)
  show "BADNESS (bh s b) = 0 \<longleftrightarrow> cost s b = 0" by (simp add: cost_def signed_eq_0_iff)
qed

text \<open>\<open>r\<close> is the cheapest free buffer of \<open>B\<close>.\<close>

definition cheapest :: "kstate \<Rightarrow> nat set \<Rightarrow> nat option \<Rightarrow> bool" where
  "cheapest s B r \<longleftrightarrow> (case r of None \<Rightarrow> \<forall>y\<in>B. \<not> free_buffer s y
     | Some b \<Rightarrow> b \<in> B \<and> free_buffer s b \<and> (\<forall>y\<in>B. free_buffer s y \<longrightarrow> cost s b \<le> cost s y))"

text \<open>One step of the scan.\<close>

definition cheaper :: "kstate \<Rightarrow> nat \<Rightarrow> nat option \<Rightarrow> bool" where
  "cheaper s x bst \<longleftrightarrow> free_buffer s x \<and> (case bst of None \<Rightarrow> True | Some b \<Rightarrow> cost s x < cost s b)"

lemma cheapest_step: "cheapest s B bst \<Longrightarrow> cheapest s (insert x B) (if cheaper s x bst then Some x else bst)"
  by (cases bst) (auto simp: cheapest_def cheaper_def)

lemma cheapest_0: "free_buffer s x \<Longrightarrow> cost s x = 0 \<Longrightarrow> x \<in> B \<Longrightarrow> cheapest s B (Some x)"
  by (simp add: cheapest_def cost_nonneg)

lemma scan_ring_step: "scan_ring s x bst =
    (if cheaper s x bst \<and> cost s x = 0 then Some (Ret (Some x) s) else
     case nxt_free s x of None \<Rightarrow> Some Fault
     | Some n \<Rightarrow> let bst = (if cheaper s x bst then Some x else bst) in if n = free_list s then Some (Ret bst s) else scan_ring s n bst)"
  by (subst scan_ring.simps) (auto simp: cheaper_def Let_def cost_0(2) slt_def cost_def free_buffer_def split: option.splits)

lemma scan_ring_cheapest:
  assumes "dlist (nxt_free s) pv p (x # xs) (Some (free_list s))" and "free_list s \<notin> set xs" and "cheapest s B bst"
  shows "\<exists>r. scan_ring s x bst = Some (Ret r s) \<and> cheapest s (B \<union> set (x # xs)) r"
  using assms
proof (induction xs arbitrary: x p bst B)
  case Nil
  then show ?case using cheapest_step [OF Nil(3), of x]
    by (subst scan_ring_step) (auto simp: cheaper_def cheapest_0)
next
  case (Cons y ys)
  show ?case
  proof (cases "cheaper s x bst \<and> cost s x = 0")
    case True
    then show ?thesis by (subst scan_ring_step) (simp add: cheaper_def cheapest_0)
  next
    case False
    let ?c = "if cheaper s x bst then Some x else bst"
    have "scan_ring s x bst = scan_ring s y ?c" using Cons.prems(1,2) False by (subst scan_ring_step) auto
    moreover have "\<exists>r. scan_ring s y ?c = Some (Ret r s) \<and> cheapest s (insert x B \<union> set (y # ys)) r"
      by (rule Cons.IH [OF _ _ cheapest_step [OF Cons.prems(3)]]) (use Cons.prems(1,2) in auto)
    ultimately show ?thesis by (simp add: insert_commute)
  qed
qed

text \<open>\<open>find_free\<close> always comes back, and a free buffer that is clean and unlocked is preferred.\<close>

lemma find_free_cheapest:
  assumes "cache_inv s"
  obtains r where "find_free s = Ret r s" "cheapest s {..<nr_buffers s} r"
proof -
  obtain R where R: "ring (nxt_free s) (prv_free s) R" "set R = {..<nr_buffers s}" "free_list s \<in> set R"
    using assms by (auto simp: cache_inv_def ring_of_def)
  obtain ys where ys: "ring (nxt_free s) (prv_free s) (free_list s # ys)" "set (free_list s # ys) = set R"
    by (rule ring_at [OF R(1,3)])
  then have "free_list s \<notin> set ys" by (simp add: ring_def)
  from scan_ring_cheapest [OF _ this, of "prv_free s" "final None (free_list s # ys)" "free_list s" "{}" None] ys
  obtain r where "scan_ring s (free_list s) None = Some (Ret r s)" "cheapest s ({} \<union> set (free_list s # ys)) r"
    by (auto simp: ring_def cheapest_def [of s "{}"])
  then have "scan_ring s (free_list s) None = Some (Ret r s)" "cheapest s (set R) r" by (simp_all only: ys(2) Un_empty_left)
  then show thesis using R(2) by (intro that [of r]) (simp_all add: find_free_def)
qed

section \<open>\<open>getblk\<close> without waiting\<close>

text \<open>A block in the cache: only the count of its buffer changes.\<close>

lemma getblk_hit:
  assumes "cache_inv s" and "b \<in> in_use s" and "holds_block dev block s b" and "b_lock (bh s b) = 0"
  shows "getblk dev block s = Ret b (upd_bh b (\<lambda>x. x\<lparr>b_count := b_count x + 1\<rparr>) s)"
proof -
  have "get_hash_table dev block s = Ret (Some b) (upd_bh b (\<lambda>x. x\<lparr>b_count := b_count x + 1\<rparr>) s)"
    using find_buffer_inv [OF assms(1-3)] assms(3,4)
    by (simp add: get_hash_table_def wait_on_buffer_def holds_block_def state_simps)
  then show ?thesis by (simp add: getblk_def GETBLK_DEPTH_def eval_nat_numeral getblk_by_def)
qed

lemma getblk_miss:
  assumes "cache_inv s" and "\<And>x. x \<in> in_use s \<Longrightarrow> \<not> holds_block dev block s x" and "dev < 0x10000"
    and "find_free s = Ret (Some b) s" "b < nr_buffers s" "free_buffer s b" "cost s b = 0"
  obtains t where "getblk dev block s = Ret b t" "cache_inv t" "holds_block dev block t b" "nr_buffers t = nr_buffers s"
proof -
  have f: "find_buffer dev block s = Ret None s"
    by (rule find_buffer_cases [OF assms(1), of dev block]) (use assms(2) in auto)
  obtain t where t: "take_buffer dev block b s = Ret b t" "cache_inv t" "holds_block dev block t b" "nr_buffers t = nr_buffers s"
    by (rule take_buffer_inv [OF assms(1,5,3,2)])
  have "b_lock (bh s b) = 0" "b_dirt (bh s b) = 0" "b_count (bh s b) = 0" using assms(6,7) by (simp_all add: cost_0 free_buffer_def)
  then have "getblk dev block s = Ret b t"
    by (simp add: getblk_def GETBLK_DEPTH_def eval_nat_numeral getblk_by_def get_hash_table_def f assms(4) wait_on_buffer_def clean_buffer_def t(1))
  then show thesis by (rule that [OF _ t(2-4)])
qed

lemma getblk_full:
  assumes "cache_inv s" and "\<And>x. x \<in> in_use s \<Longrightarrow> \<not> holds_block dev block s x" and "find_free s = Ret None s"
    and "sched_inv s" "current s \<noteq> 0"
  obtains t where "getblk dev block s = Sleeps t" "buffer_wait t = Some (current s)"
proof -
  have f: "find_buffer dev block s = Ret None s"
    by (rule find_buffer_cases [OF assms(1), of dev block]) (use assms(2) in auto)
  obtain t where t: "sleep_on buffer_queue s = Sleeps t" "get_wait buffer_queue t = Some (current s)"
    by (rule buffer_wq.sleep_gives_up [OF assms(4,5)])
  show thesis by (rule that [of t])
    (use t in \<open>simp_all add: getblk_def GETBLK_DEPTH_def eval_nat_numeral getblk_by_def get_hash_table_def f assms(3) queue_simps\<close>)
qed

text \<open>
  C20. When \<open>getblk\<close> comes back: if the block is in a buffer that is not locked, it returns that
  buffer and only counts one more user; if the block is in no buffer, it returns one that held
  another block or none when there is a free buffer that is clean and not locked, whatever dirty ones
  are free as well; and if every buffer is in use it goes to sleep until one is released.
\<close>

theorem getblk_returns:
  assumes "cache_inv s" and "sched_inv s" and "current s \<noteq> 0" and "dev < 0x10000"
  shows "(\<forall>b<nr_buffers s. b_dev (bh s b) \<noteq> 0 \<and> holds_block dev block s b \<and> b_lock (bh s b) = 0 \<longrightarrow>
      getblk dev block s = Ret b (upd_bh b (\<lambda>x. x\<lparr>b_count := b_count x + 1\<rparr>) s)) \<and>
    ((\<forall>b<nr_buffers s. b_dev (bh s b) \<noteq> 0 \<longrightarrow> \<not> holds_block dev block s b) \<longrightarrow>
      (if \<exists>b<nr_buffers s. b_count (bh s b) = 0 \<and> b_dirt (bh s b) = 0 \<and> b_lock (bh s b) = 0
       then \<exists>b t. getblk dev block s = Ret b t \<and> b < nr_buffers s \<and> b_count (bh s b) = 0 \<and> b_dirt (bh s b) = 0 \<and> holds_block dev block t b
       else (\<forall>b<nr_buffers s. b_count (bh s b) \<noteq> 0) \<longrightarrow> (\<exists>t. getblk dev block s = Sleeps t \<and> buffer_wait t = Some (current s))))"
    (is "?hit \<and> (?miss \<longrightarrow> ?out)")
proof (intro conjI impI)
  show ?hit using getblk_hit [OF assms(1)] by (simp add: in_use_def)
next
  assume ?miss
  then have no: "\<not> holds_block dev block s x" if "x \<in> in_use s" for x using that by (simp add: in_use_def)
  obtain r where r: "find_free s = Ret r s" "cheapest s {..<nr_buffers s} r" by (rule find_free_cheapest [OF assms(1)])
  show ?out
  proof (cases "\<exists>c<nr_buffers s. b_count (bh s c) = 0 \<and> b_dirt (bh s c) = 0 \<and> b_lock (bh s c) = 0")
    case True
    then obtain c where c: "c < nr_buffers s" "free_buffer s c" "cost s c = 0" by (auto simp: free_buffer_def cost_0)
    then obtain b where b: "r = Some b" "b < nr_buffers s" "free_buffer s b" "cost s b \<le> cost s c"
      using r(2) by (auto simp: cheapest_def split: option.splits)
    then have zero: "cost s b = 0" using cost_nonneg [of s b] c(3) by simp
    obtain t where "getblk dev block s = Ret b t" "holds_block dev block t b"
      by (rule getblk_miss [OF assms(1) no assms(4) r(1) [unfolded b(1)] b(2,3) zero])
    with True b zero show ?thesis by (simp add: free_buffer_def cost_0)
  next
    case False
    have "\<exists>t. getblk dev block s = Sleeps t \<and> buffer_wait t = Some (current s)" if "\<forall>b<nr_buffers s. b_count (bh s b) \<noteq> 0"
    proof -
      have "r = None" using r(2) that by (auto simp: cheapest_def free_buffer_def split: option.splits)
      from getblk_full [OF assms(1) no r(1) [unfolded this] assms(2,3)] show ?thesis by blast
    qed
    with False show ?thesis by (simp only: if_False) blast
  qed
qed

text \<open>In the cache of one buffer, free at first, a block is found a place, and found again.\<close>

theorem getblk_returns_witness:
  "\<exists>s. cache_inv s \<and> nr_buffers s = 1 \<and> (\<exists>b t. getblk 0x301 5 s = Ret b t \<and> b < 1 \<and> holds_block 0x301 5 t b)"
proof -
  obtain s where s: "buffer_init 0 2048 two_tasks = Ret () s" "nr_buffers s = 1" "free_list s = 0" "hash_table s (hashfn 0x301 5) = None"
    "prv_free s 0 = Some 0" "nxt_free s 0 = Some 0" "b_count (bh s 0) = 0" "b_dirt (bh s 0) = 0" "b_lock (bh s 0) = 0"
    "b_dev (bh s 0) = 0" "task s = task two_tasks" "tsk s = tsk two_tasks" "current s = current two_tasks"
    by (rule small_cache)
  have sched: "sched_inv s" "current s \<noteq> 0"
    using two_tasks_inv s(11-13) by (simp_all add: sched_inv_def) (simp add: two_tasks_def)
  from getblk_returns [OF buffer_init_inv [OF s(1)] sched, of "0x301" 5]
  have "\<exists>b t. getblk 0x301 5 s = Ret b t \<and> b < 1 \<and> holds_block 0x301 5 t b" by (simp add: s)
  then show ?thesis using buffer_init_inv [OF s(1)] s(2) by blast
qed

end
