(* ===== verification/Fairness.thy ===== *)
theory Fairness
  imports SchedProps
begin

text \<open>
  No task starves: how many clock ticks a task that could run waits at most until it does.
\<close>

section \<open>The time the others have left\<close>

definition priority :: "nat \<Rightarrow> kstate \<Rightarrow> int" where
  "priority j s = sint (t_priority (tsk s j))"

definition rivals :: "nat \<Rightarrow> kstate \<Rightarrow> nat set" where
  "rivals i s = {j. j < NR_TASKS \<and> j \<noteq> i \<and> task s j \<noteq> 0}"

text \<open>
  A task with time left waits for the time the others have; one without also for what they get
  before it gets its own.
\<close>

definition ahead :: "nat \<Rightarrow> kstate \<Rightarrow> int" where
  "ahead i s = (\<Sum>j\<in>rivals i s. counter j s) + (if 0 < counter i s then 0 else \<Sum>j\<in>rivals i s. counter j s + priority j s)"

definition debt :: "nat \<Rightarrow> kstate \<Rightarrow> int" where
  "debt i s = ahead i s + (if counter (current s) s = 0 then 1 else 0)"

text \<open>Task \<open>i\<close> could run, but another one does.\<close>

definition waiting_turn :: "nat \<Rightarrow> kstate \<Rightarrow> bool" where
  "waiting_turn i s \<longleftrightarrow> sched_inv s \<and> 1 \<le> i \<and> i < NR_TASKS \<and> runnable i s \<and> current s \<noteq> i \<and> task s (current s) \<noteq> 0"

lemma finite_rivals [simp]: "finite (rivals i s)"
  by (rule finite_subset [of _ "{..<NR_TASKS}"]) (auto simp: rivals_def)

lemma rivals_nonneg: "sched_inv s \<Longrightarrow> j \<in> rivals i s \<Longrightarrow> 0 \<le> counter j s \<and> 0 < priority j s"
  by (auto simp: sched_inv_def rivals_def counters_ok_def counter_def priority_def)

section \<open>Steps that leave the time alone\<close>

definition same_time :: "kstate \<Rightarrow> kstate \<Rightarrow> bool" where
  "same_time s t \<longleftrightarrow> task t = task s \<and> current t = current s \<and>
     (\<forall>j. t_counter (tsk t j) = t_counter (tsk s j) \<and> t_priority (tsk t j) = t_priority (tsk s j) \<and>
        (j \<noteq> current s \<longrightarrow> t_state (tsk s j) = TASK_RUNNING \<longrightarrow> t_state (tsk t j) = TASK_RUNNING))"

lemma same_time_refl [simp]: "same_time s s"
  by (simp add: same_time_def)

lemma same_time_trans: "same_time s t \<Longrightarrow> same_time t u \<Longrightarrow> same_time s u"
  by (simp add: same_time_def)

lemma same_time_ahead:
  assumes "same_time s t"
  shows "ahead i t = ahead i s" "debt i t = debt i s"
proof -
  have "rivals i t = rivals i s" "counter j t = counter j s" "priority j t = priority j s" for j
    using assms by (simp_all add: same_time_def rivals_def counter_def priority_def)
  then show "ahead i t = ahead i s" "debt i t = debt i s" using assms by (simp_all add: ahead_def debt_def same_time_def)
qed

lemma same_time_waiting: "same_time s t \<Longrightarrow> waiting_turn i s \<Longrightarrow> waiting_turn i t"
  by (auto simp: same_time_def waiting_turn_def sched_inv_def counters_ok_def runnable_def)

lemma queue_same_time: "is_queue q \<Longrightarrow> same_time s (put_wait q p s)"
  by (auto simp: is_queue_def queue_simps same_time_def state_simps)

lemma set_state_same_time: "same_time s (set_state 0 p s)"
  by (auto simp: set_state_def same_time_def state_simps TASK_RUNNING_def split: option.split)

lemma wake_up_same_time: "is_queue q \<Longrightarrow> same_time s (wake_up q s)"
  unfolding wake_up_def by (simp add: same_time_trans [OF set_state_same_time queue_same_time])

lemma upd_cur_same_time:
  "(\<And>p. t_counter (f p) = t_counter p \<and> t_priority (f p) = t_priority p) \<Longrightarrow> same_time s (upd_cur f s)"
  by (simp add: same_time_def state_simps)

section \<open>The scheduler\<close>

text \<open>With time left for a runnable task no time is given out.\<close>

lemma choose_task_no_refill:
  assumes "sched_inv s" and "1 \<le> i" "i < NR_TASKS" "runnable i s" "0 < counter i s" and "choose_task s = Some (n, t)"
  shows "t = s"
proof -
  obtain c m where p: "pick (NR_TASKS - 1) (- 1) 0 s = (c, m)" by (metis surj_pair)
  have "c \<noteq> 0" using pick_best [OF p] assms(2-5) by (auto simp: counter_def NR_TASKS_def)
  then have "choose_task s = Some (m, s)" by (subst choose_task.simps) (simp del: One_nat_def add: p)
  with assms(6) show ?thesis by simp
qed

lemma refill_ahead:
  assumes "sched_inv s" and "counter i s \<le> 0" "1 \<le> i" "i < NR_TASKS" "task s i \<noteq> 0"
  shows "ahead i (for_tasks (NR_TASKS - 1) refill s) \<le> ahead i s"
proof -
  let ?t = "for_tasks (NR_TASKS - 1) refill s"
  have k: "counters_ok (tsk s j)" if "j < NR_TASKS" "task s j \<noteq> 0" for j using assms(1) that by (simp add: sched_inv_def)
  have c: "counter j ?t = (if 1 \<le> j then counter j s div 2 + priority j s else counter j s)" if "j < NR_TASKS" "task s j \<noteq> 0" for j
    using refill_counter [OF k [OF that]] that by (simp add: counter_def priority_def tsk_for_tasks NR_TASKS_def)
  have r: "rivals i ?t = rivals i s" by (simp add: rivals_def)
  have "0 < counter i ?t" using c [OF assms(4,5)] k [OF assms(4,5)] assms(3)
    by (simp add: counters_ok_def counter_def priority_def) linarith
  moreover have "(\<Sum>j\<in>rivals i s. counter j ?t) \<le> (\<Sum>j\<in>rivals i s. counter j s + priority j s)"
    by (rule sum_mono) (use c rivals_nonneg [OF assms(1)] in \<open>fastforce simp: rivals_def\<close>)
  moreover have "0 \<le> (\<Sum>j\<in>rivals i s. counter j s)" by (rule sum_nonneg) (use rivals_nonneg [OF assms(1)] in blast)
  ultimately show ?thesis using assms(2) unfolding ahead_def r by simp
qed

lemma after_signals_same_time: "same_time s (after_signals s)"
  by (simp add: after_signals_def same_time_def tsk_for_tasks check_signals_def Let_def)

lemma ahead_switch [simp]: "ahead i (s\<lparr>current := n\<rparr>) = ahead i s"
  by (simp add: ahead_def rivals_def counter_def priority_def)

lemma schedule_ahead:
  assumes w: "waiting_turn i s" and t: "left_in (schedule s) t" and i: "current t \<noteq> i"
  shows "waiting_turn i t \<and> debt i t \<le> ahead i s"
proof -
  let ?a = "after_signals s"
  have a: "waiting_turn i ?a" "ahead i ?a = ahead i s"
    using same_time_waiting [OF after_signals_same_time w] same_time_ahead(1) [OF after_signals_same_time] by auto
  then have inv: "sched_inv ?a" and run: "1 \<le> i" "i < NR_TASKS" "runnable i ?a" by (simp_all add: waiting_turn_def)
  obtain n u where u: "choose_task ?a = Some (n, u)" "best n u" "sched_inv u" "u = ?a \<or> u = for_tasks (NR_TASKS - 1) refill ?a"
    by (rule choose_task_best [OF inv])
  have cur: "t = u\<lparr>current := n\<rparr>"
    using t u(1) by (auto simp del: One_nat_def simp: schedule_def Let_def after_signals_def [symmetric] split: if_splits)
  have less: "ahead i u \<le> ahead i s"
  proof (cases "0 < counter i ?a")
    case True
    then show ?thesis using choose_task_no_refill [OF inv run _ u(1)] a(2) by simp
  next
    case False
    have "task ?a i \<noteq> 0" using run by (simp add: runnable_def)
    then show ?thesis using u(4) refill_ahead [OF inv _ run(1,2)] False a(2) by (elim disjE) simp_all
  qed
  have iu: "runnable i u" using u(4) run by (auto simp: runnable_def tsk_for_tasks refill_def)
  then have "\<exists>j. 1 \<le> j \<and> j < NR_TASKS \<and> runnable j u" using run(1,2) by blast
  then have n: "1 \<le> n" "n < NR_TASKS" "runnable n u" "0 < counter n u" using u(2) unfolding best_def by (simp_all only: if_True)
  have "waiting_turn i t"
    using u(3) n i iu run(1,2) by (simp add: cur waiting_turn_def sched_inv_def runnable_def)
  moreover have "counter (current t) t \<noteq> 0" using n(4) by (simp add: cur)
  ultimately show ?thesis using less by (simp add: debt_def) (simp add: cur)
qed

section \<open>The clock\<close>

text \<open>The running task uses up \<open>d\<close> ticks.\<close>

lemma ahead_used:
  assumes "waiting_turn i s" and "0 \<le> d" and "counter (current s) t = counter (current s) s - d"
    and "\<And>j. j \<noteq> current s \<Longrightarrow> counter j t = counter j s" and "\<And>j. priority j t = priority j s" and "task t = task s"
  shows "ahead i t \<le> ahead i s - d"
proof -
  let ?R = "rivals i s" and ?c = "current s"
  have R: "rivals i t = ?R" "?c \<in> ?R" "i \<noteq> ?c" using assms(1,6) by (auto simp: rivals_def waiting_turn_def sched_inv_def)
  have split: "sum h ?R = h ?c + sum h (?R - {?c})" for h :: "nat \<Rightarrow> int" by (rule sum.remove) (use R in simp_all)
  have "(\<Sum>j\<in>?R - {?c}. counter j t) = (\<Sum>j\<in>?R - {?c}. counter j s)" by (rule sum.cong) (use assms(4) in auto)
  then have "(\<Sum>j\<in>?R. counter j t) = (\<Sum>j\<in>?R. counter j s) - d"
    by (simp add: split [of "\<lambda>j. counter j t"] split [of "\<lambda>j. counter j s"] assms(3))
  then have "ahead i t = ahead i s - d - (if 0 < counter i s then 0 else d)"
    using assms(4) [of i] R(3) by (simp add: ahead_def R(1) assms(5) sum.distrib)
  then show ?thesis using assms(2) by simp
qed

lemma in_timers_same_time: "left_in (in_timers f s) t \<Longrightarrow> same_time s t"
  by (cases "f (timers s)") (auto simp: in_timers_def same_time_def)

lemma same_time_floppy: "same_time s t \<Longrightarrow> same_time s (upd_floppy f t)"
  by (simp add: same_time_def upd_floppy_def)

lemma same_time_wake_up: "is_queue q \<Longrightarrow> same_time s t \<Longrightarrow> same_time s (wake_up q t)"
  by (blast intro: same_time_trans wake_up_same_time)

lemma floppy_timers_same_time: "same_time s t \<Longrightarrow> same_time s (floppy_timers xs t)"
  by (induction xs arbitrary: t) (simp_all add: Let_def same_time_floppy same_time_wake_up)

text \<open>What a tick does once the statistics and timers are done with.\<close>

definition use_tick :: "u32 \<Rightarrow> kstate \<Rightarrow> (unit, kstate) outcome" where
  "use_tick cpl s =
    (let s = upd_cur (\<lambda>t. t\<lparr>t_counter := t_counter t - 1\<rparr>) s
     in if slt 0 (t_counter (cur s)) then Ret () s
        else let s = upd_cur (\<lambda>t. t\<lparr>t_counter := 0\<rparr>) s in if \<not> tst cpl then Ret () s else schedule s)"

lemma timers_same_time: "in_timers tick_timers s = Hangs \<or> (\<exists>u. in_timers tick_timers s = Ret () u \<and> same_time s u)"
  by (auto simp: in_timers_def tick_timers_def same_time_def split: option.split)

lemma do_timer_use:
  assumes "left_in (do_timer cpl s) t"
  obtains u where "same_time s u" "left_in (use_tick cpl u) t"
proof -
  define v where "v = (if tst cpl then upd_cur (\<lambda>t. t\<lparr>t_utime := t_utime t + 1\<rparr>) (if tst (beepcount s) then s\<lparr>beepcount := beepcount s - 1\<rparr> else s)
      else upd_cur (\<lambda>t. t\<lparr>t_stime := t_stime t + 1\<rparr>) (if tst (beepcount s) then s\<lparr>beepcount := beepcount s - 1\<rparr> else s))"
  have v: "same_time s v" by (simp add: v_def same_time_def state_simps)
  have d: "do_timer cpl s = seq (in_timers tick_timers v) (\<lambda>_ s.
      use_tick cpl (if tst (current_DOR (floppy s) AND 0xf0) then do_floppy_timer s else s))"
    unfolding do_timer_def Let_def v_def use_tick_def ..
  from timers_same_time [of v] obtain w where w: "in_timers tick_timers v = Ret () w" "same_time v w"
    using assms by (auto simp: d)
  let ?u = "if tst (current_DOR (floppy w) AND 0xf0) then do_floppy_timer w else w"
  have "same_time s ?u" using same_time_trans [OF v w(2)] by (auto simp: do_floppy_timer_def intro: floppy_timers_same_time)
  moreover have "left_in (use_tick cpl ?u) t" using assms by (simp only: d w(1) seq_simps)
  ultimately show thesis by (rule that)
qed

text \<open>The counter of the running task set to \<open>k\<close>.\<close>

lemma set_counter_debt:
  assumes w: "waiting_turn i s" and k: "0 \<le> sint k" "sint k \<le> counter (current s) s"
    and t: "t = upd_cur (\<lambda>t. t\<lparr>t_counter := k\<rparr>) s"
  shows "waiting_turn i t \<and> ahead i t \<le> ahead i s - (counter (current s) s - sint k) \<and> current t = current s \<and> counter (current t) t = sint k"
proof -
  have "counter (current s) t = counter (current s) s - (counter (current s) s - sint k)" by (simp add: t state_simps counter_def)
  then have "ahead i t \<le> ahead i s - (counter (current s) s - sint k)"
    by (intro ahead_used [OF w]) (use k in \<open>simp_all add: t state_simps counter_def priority_def\<close>)
  moreover have "waiting_turn i t"
    using w k by (auto simp: waiting_turn_def sched_inv_def counters_ok_def runnable_def counter_def t state_simps)
  ultimately show ?thesis by (simp add: t state_simps counter_def)
qed

lemma use_tick_debt:
  assumes w: "waiting_turn i s" and t: "left_in (use_tick cpl s) t" and i: "current t \<noteq> i"
  shows "waiting_turn i t \<and> debt i t \<le> debt i s - (if tst cpl then 1 else 0)"
proof -
  let ?k = "t_counter (tsk s (current s))" and ?c = "counter (current s) s"
  have "counters_ok (tsk s (current s))" using w by (simp add: waiting_turn_def sched_inv_def)
  then have c: "?c = sint ?k" "0 \<le> ?c" "sint (?k - 1) = ?c - 1" "slt 0 (?k - 1) \<longleftrightarrow> 1 < ?c"
    by (auto simp: counters_ok_def counter_def slt_def sint_pred)
  have next_k: "upd_cur (\<lambda>t. t\<lparr>t_counter := t_counter t - 1\<rparr>) s = upd_cur (\<lambda>t. t\<lparr>t_counter := ?k - 1\<rparr>) s"
    by (simp add: state_simps)
  show ?thesis
  proof (cases "1 < ?c")
    case True
    have "t = upd_cur (\<lambda>t. t\<lparr>t_counter := ?k - 1\<rparr>) s"
      using t True c(4) by (simp add: use_tick_def Let_def next_k) (simp add: state_simps)
    from set_counter_debt [OF w _ _ this] True c
    have "waiting_turn i t" "ahead i t \<le> ahead i s - 1" "counter (current t) t = ?c - 1"
      using c by auto
    with True show ?thesis by (simp add: debt_def)
  next
    case False
    let ?v = "upd_cur (\<lambda>t. t\<lparr>t_counter := 0\<rparr>) s"
    have v: "waiting_turn i ?v" "ahead i ?v \<le> ahead i s - ?c" "counter (current ?v) ?v = 0"
      using set_counter_debt [OF w, of 0 ?v] c by auto
    have use: "use_tick cpl s = (if \<not> tst cpl then Ret () ?v else schedule ?v)"
      using False c(4) by (simp add: use_tick_def Let_def next_k) (simp add: state_simps)
    show ?thesis
    proof (cases "tst cpl")
      case True
      then show ?thesis using schedule_ahead [OF v(1) _ i] t use v(2) c False by (auto simp: debt_def)
    next
      case f: False
      then have "t = ?v" using t use by simp
      with f v c False show ?thesis by (auto simp: debt_def)
    qed
  qed
qed

lemma do_timer_debt:
  assumes "waiting_turn i s" and "left_in (do_timer cpl s) t" and "current t \<noteq> i"
  shows "waiting_turn i t \<and> debt i t \<le> debt i s - (if tst cpl then 1 else 0)"
proof -
  obtain u where u: "same_time s u" "left_in (use_tick cpl u) t" by (rule do_timer_use [OF assms(2)])
  from use_tick_debt [OF same_time_waiting [OF u(1) assms(1)] u(2) assms(3)] show ?thesis
    by (simp only: same_time_ahead(2) [OF u(1)])
qed

section \<open>Sleeping, waking, system calls\<close>

text \<open>
  \<open>m\<close> runs from \<open>s\<close> without making task \<open>i\<close> wait longer.
\<close>

definition no_later :: "nat \<Rightarrow> kstate \<Rightarrow> kstate \<Rightarrow> bool" where
  "no_later i s t \<longleftrightarrow> waiting_turn i s \<longrightarrow> current t \<noteq> i \<longrightarrow> waiting_turn i t \<and> debt i t \<le> debt i s"

lemma no_laterI: "same_time s t \<Longrightarrow> no_later i s t"
  by (simp add: no_later_def same_time_ahead(2) same_time_waiting)

lemma no_later_same_time: "no_later i s t \<Longrightarrow> same_time t u \<Longrightarrow> no_later i s u"
  using same_time_ahead(2) [of t u i] same_time_waiting [of t u i] by (simp add: no_later_def same_time_def)

lemma no_later_schedule: "same_time s t \<Longrightarrow> left_in (schedule t) u \<Longrightarrow> no_later i s u"
  using schedule_ahead [of i t u] same_time_waiting [of s t i] same_time_ahead(1) [of s t i]
  by (auto simp: no_later_def debt_def)

lemma left_in_seq: "left_in (seq m f) t \<Longrightarrow> (\<exists>a s. m = Ret a s \<and> left_in (f a s) t) \<or> m = Sleeps t"
  by (cases m) simp_all

lemma no_later_seq:
  assumes "left_in (seq m f) t" and "\<And>u. left_in m u \<Longrightarrow> no_later i s u"
    and "\<And>a u. left_in (f a u) t \<Longrightarrow> same_time u t"
  shows "no_later i s t"
  using left_in_seq [OF assms(1)] assms(2,3) by (auto intro: no_later_same_time)

lemma set_current_same_time: "same_time s t \<Longrightarrow> same_time s (upd_cur (t_state_update f) t)"
  by (auto simp: same_time_def state_simps)

lemma go_to_sleep: "is_queue q \<Longrightarrow> same_time s (upd_cur (t_state_update f) (put_wait q p s))"
  by (simp add: set_current_same_time queue_same_time)

lemma sleep_on_no_later:
  assumes "is_queue q" and t: "left_in (sleep_on q s) t"
  shows "no_later i s t"
proof -
  have "left_in (seq (schedule (upd_cur (t_state_update (\<lambda>_. TASK_UNINTERRUPTIBLE)) (put_wait q (Some (current s)) s)))
      (\<lambda>_ u. Ret () (set_state 0 (get_wait q s) u))) t"
    using t by (auto simp: sleep_on_def Let_def split: if_splits)
  then show ?thesis
  proof (rule no_later_seq)
    show "no_later i s u" if "left_in (schedule (upd_cur (t_state_update (\<lambda>_. TASK_UNINTERRUPTIBLE)) (put_wait q (Some (current s)) s))) u" for u
      using that by (rule no_later_schedule [OF go_to_sleep [OF assms(1)]])
  qed (auto intro: set_state_same_time)
qed

lemma interruptible_sleep_no_later:
  assumes "is_queue q" and t: "left_in (interruptible_sleep_on q s) t"
  shows "no_later i s t"
proof -
  have "left_in (seq (schedule (upd_cur (t_state_update (\<lambda>_. TASK_INTERRUPTIBLE)) (put_wait q (Some (current s)) s)))
      (\<lambda>_ u. if get_wait q u \<noteq> None \<and> get_wait q u \<noteq> Some (current u)
          then Sleeps (upd_cur (t_state_update (\<lambda>_. TASK_INTERRUPTIBLE)) (set_state 0 (get_wait q u) u))
          else Ret () (set_state 0 (get_wait q s) (put_wait q None u)))) t"
    using t by (auto simp: interruptible_sleep_on_def Let_def split: if_splits)
  then show ?thesis
  proof (rule no_later_seq)
    show "no_later i s u" if "left_in (schedule (upd_cur (t_state_update (\<lambda>_. TASK_INTERRUPTIBLE)) (put_wait q (Some (current s)) s))) u" for u
      using that by (rule no_later_schedule [OF go_to_sleep [OF assms(1)]])
  qed (auto split: if_splits intro: set_current_same_time set_state_same_time same_time_trans [OF queue_same_time [OF assms(1)]])
qed

lemma nice_no_later:
  assumes "\<And>j. priority j (snd (sys_nice increment s)) \<le> priority j s" and "sint (t_priority (cur s) - increment) < 2 ^ 29"
  shows "no_later i s (snd (sys_nice increment s))"
proof (unfold no_later_def, intro impI)
  let ?t = "snd (sys_nice increment s)"
  assume w: "waiting_turn i s"
  have f: "task ?t = task s" "current ?t = current s" "counter j ?t = counter j s" "t_state (tsk ?t j) = t_state (tsk s j)" for j
    by (simp_all add: sys_nice_def state_simps counter_def)
  then have r: "rivals i ?t = rivals i s" by (simp add: rivals_def)
  have "(\<Sum>j\<in>rivals i s. counter j s + priority j ?t) \<le> (\<Sum>j\<in>rivals i s. counter j s + priority j s)"
    by (rule sum_mono) (use assms(1) in auto)
  then have "debt i ?t \<le> debt i s" by (simp add: debt_def ahead_def r f)
  moreover have "waiting_turn i ?t"
    using w sys_nice_inv [OF _ assms(2)] by (simp add: waiting_turn_def runnable_def f)
  ultimately show "waiting_turn i ?t \<and> debt i ?t \<le> debt i s" by simp
qed

lemma sched_step_no_later:
  assumes "sched_step s t" and "\<And>j. priority j t \<le> priority j s"
  shows "no_later i s t"
  using assms
proof (cases rule: sched_step.cases)
  case (tick cpl)
  then show ?thesis using do_timer_debt [of i s cpl t] by (auto simp: no_later_def split: if_splits)
next
  case pause
  then show ?thesis unfolding sys_pause_def
    by (rule no_later_seq) (use no_later_schedule [OF set_current_same_time [OF same_time_refl]] in auto)
next
  case (alarm seconds)
  then show ?thesis by (auto simp: sys_alarm_def Let_def intro!: no_laterI upd_cur_same_time)
qed (use assms(2) in \<open>auto intro: sleep_on_no_later interruptible_sleep_no_later nice_no_later no_laterI wake_up_same_time\<close>)

section \<open>Nobody starves\<close>

text \<open>
  \<open>waits i n s t\<close>: from \<open>s\<close> the kernel gets to \<open>t\<close> with \<open>n\<close> ticks that found a task in user
  mode, any number of ticks in the kernel, sleeps, wake-ups and calls between them that do not
  raise a priority, and task \<open>i\<close> never runs.
\<close>

inductive waits :: "nat \<Rightarrow> nat \<Rightarrow> kstate \<Rightarrow> kstate \<Rightarrow> bool" where
  waits_none: "waits i 0 s s"
| waits_tick: "waits i n s t \<Longrightarrow> left_in (do_timer 3 t) u \<Longrightarrow> current u \<noteq> i \<Longrightarrow> waits i (Suc n) s u"
| waits_step: "waits i n s t \<Longrightarrow> sched_step t u \<Longrightarrow> (\<And>j. priority j u \<le> priority j t) \<Longrightarrow> current u \<noteq> i \<Longrightarrow> waits i n s u"

lemma waits_debt: "waits i n s t \<Longrightarrow> waiting_turn i s \<Longrightarrow> waiting_turn i t \<and> debt i t + int n \<le> debt i s"
proof (induction rule: waits.induct)
  case (waits_tick i n s t u)
  then show ?case using do_timer_debt [of i t 3 u] by auto
next
  case (waits_step i n s t u)
  then show ?case using sched_step_no_later [of t u i] by (auto simp: no_later_def)
qed simp

lemma debt_nonneg: "waiting_turn i s \<Longrightarrow> 0 \<le> debt i s"
proof -
  assume "waiting_turn i s"
  then have "0 \<le> counter j s" "0 \<le> counter j s + priority j s" if "j \<in> rivals i s" for j
    using rivals_nonneg [OF _ that] by (auto simp: waiting_turn_def)
  then show ?thesis by (simp add: debt_def ahead_def sum_nonneg)
qed

lemma debt_bound: "waiting_turn i s \<Longrightarrow> debt i s \<le> 1 + (\<Sum>j\<in>rivals i s. 2 * counter j s + priority j s)"
proof -
  assume "waiting_turn i s"
  then have "counter j s \<le> 2 * counter j s + priority j s" if "j \<in> rivals i s" for j
    using rivals_nonneg [OF _ that] by (fastforce simp: waiting_turn_def)
  then have "(\<Sum>j\<in>rivals i s. counter j s) \<le> (\<Sum>j\<in>rivals i s. 2 * counter j s + priority j s)" by (rule sum_mono)
  moreover have "(\<Sum>j\<in>rivals i s. 2 * counter j s + priority j s) = (\<Sum>j\<in>rivals i s. counter j s) + (\<Sum>j\<in>rivals i s. counter j s + priority j s)"
    by (simp add: sum.distrib sum_distrib_left [symmetric])
  ultimately show ?thesis by (auto simp: debt_def ahead_def)
qed


text \<open>Task 1 runs in a loop, task 2 has been woken, and the clock ticks.\<close>

definition two_running :: kstate where
  "two_running = two_tasks\<lparr>tsk := (\<lambda>i. (tsk two_tasks i)\<lparr>t_state := TASK_RUNNING\<rparr>), beepcount := 0,
     timers := (undefined :: timer_state)\<lparr>next_timer := None\<rparr>, floppy := (undefined :: floppy_state)\<lparr>current_DOR := 0\<rparr>\<rparr>"

lemma two_running_inv: "sched_inv two_running"
  using two_tasks_inv by (simp add: two_running_def sched_inv_def counters_ok_def)

lemma two_running_tick:
  obtains u where "left_in (do_timer 3 two_running) u" "current u = 1"
proof -
  let ?u = "upd_cur (\<lambda>t. t\<lparr>t_counter := t_counter t - 1\<rparr>) (upd_cur (\<lambda>t. t\<lparr>t_utime := t_utime t + 1\<rparr>) two_running)"
  have "do_timer 3 two_running = Ret () ?u"
    by (simp add: do_timer_def Let_def in_timers_def tick_timers_def two_running_def two_tasks_def state_simps slt_def)
  then have "left_in (do_timer 3 two_running) ?u" by simp
  moreover have "current ?u = 1" by (simp add: two_running_def two_tasks_def state_simps)
  ultimately show thesis by (rule that)
qed


end
