(* ===== verification/Boot.thy ===== *)
theory Boot
  imports Startup Fork Mktime
begin

text \<open>
  The first half of \<open>main\<close> of \<open>init/main.c\<close>, up to \<open>sti()\<close>: what the loader leaves in the static
  variables, the layout of memory, \<open>time_init\<close>, \<open>sched_init\<close> of \<open>kernel/sched.c\<close>, \<open>trap_init\<close> of
  \<open>kernel/traps.c\<close> and the order in which the parts of the kernel are initialised.
\<close>

unbundle bit_operations_syntax

section \<open>Static variables\<close>

text \<open>\<open>INIT_TASK\<close>, the task structure of task 0 at address \<open>a\<close>. The page directory is at 0.\<close>

definition INIT_TASK :: "u32 \<Rightarrow> task_struct" where
  "INIT_TASK a = \<lparr>t_state = 0, t_counter = 15, t_priority = 15, t_signal = 0,
     t_sigaction = (\<lambda>_. \<lparr>sa_handler = 0, sa_mask = 0, sa_flags = 0, sa_restorer = 0\<rparr>), t_blocked = 0,
     t_exit_code = 0, t_start_code = 0, t_end_code = 0, t_end_data = 0, t_brk = 0, t_start_stack = 0,
     t_pid = 0, t_father = - 1, t_pgrp = 0, t_session = 0, t_leader = 0,
     t_uid = 0, t_euid = 0, t_suid = 0, t_gid = 0, t_egid = 0, t_sgid = 0,
     t_alarm = 0, t_utime = 0, t_stime = 0, t_cutime = 0, t_cstime = 0, t_start_time = 0, t_used_math = 0,
     t_tty = - 1, t_umask = 0x12, t_pwd = None, t_root = None, t_executable = None, t_close_on_exec = 0,
     t_filp = (\<lambda>_. None), t_ldt = (\<lambda>i. if i = 1 then 0x00c0fa000000009f else if i = 2 then 0x00c0f2000000009f else 0),
     t_tss = \<lparr>back_link = 0, esp0 = 4096 + a, ss0 = 0x10, esp1 = 0, ss1 = 0, esp2 = 0, ss2 = 0, cr3 = 0,
       tss_eip = 0, tss_eflags = 0, tss_eax = 0, tss_ecx = 0, tss_edx = 0, tss_ebx = 0, tss_esp = 0, tss_ebp = 0,
       tss_esi = 0, tss_edi = 0, tss_es = 0x17, tss_cs = 0x17, tss_ss = 0x17, tss_ds = 0x17, tss_fs = 0x17, tss_gs = 0x17,
       tss_ldt = LDT_SELECTOR 0, trace_bitmap = 0x80000000, i387 = (\<lambda>_. 0)\<rparr>\<rparr>"

definition INIT_C_CC :: "u8 list" where
  "INIT_C_CC = [3, 0x1c, 0x7f, 0x15, 4, 0, 1, 0, 0x11, 0x13, 0x1a, 0, 0x12, 0x0f, 0x17, 0x16, 0]"

definition empty_queue :: "u32 \<Rightarrow> tty_queue" where
  "empty_queue data = \<lparr>q_data = data, q_head = 0, q_tail = 0, q_proc_list = None, q_buf = (\<lambda>_. 0)\<rparr>"

text \<open>The console translates and edits, the serial lines are raw at 2400 baud.\<close>

definition init_tty :: "u32 \<Rightarrow> u32 \<Rightarrow> u32 \<Rightarrow> u32 \<Rightarrow> u32 \<Rightarrow> tty_struct" where
  "init_tty iflag oflag cflag lflag port = \<lparr>tt_termios = \<lparr>c_iflag = iflag, c_oflag = oflag, c_cflag = cflag,
       c_lflag = lflag, c_line = 0, c_cc = (\<lambda>i. if i < 17 then INIT_C_CC ! i else 0)\<rparr>,
     tt_pgrp = 0, tt_stopped = 0, read_q = empty_queue port, write_q = empty_queue port, secondary = empty_queue 0\<rparr>"

definition init_tty_table :: "nat \<Rightarrow> tty_struct" where
  "init_tty_table ch = (if ch = 0 then init_tty 0x100 (1 + 4) 0 (1 + 2 + 8 + 0x200 + 0x800) 0
     else if ch = 1 then init_tty 0 0 (0x0b OR 0x30) 0 0x3f8 else init_tty 0 0 (0x0b OR 0x30) 0 0x2f8)"

definition init_hd :: hd_state where
  "init_hd = \<lparr>hd_recalibrate = True, hd_reset = True,
     hd_info = (\<lambda>_. \<lparr>hd_head = 0, hd_sect = 0, hd_cyl = 0, hd_wpcom = 0, hd_lzone = 0, hd_ctl = 0\<rparr>),
     NR_HD = 0, start_sect = (\<lambda>_. 0), nr_sects = (\<lambda>_. 0), do_hd = None, callable = True\<rparr>"

definition init_motors :: floppy_state where
  "init_motors = \<lparr>wait_motor = (\<lambda>_. None), mon_timer = (\<lambda>_. 0), moff_timer = (\<lambda>_. 0), current_DOR = 0x0c, selected = 0,
     wait_on_floppy_select = None, dor_port = []\<rparr>"

definition init_timers :: timer_state where
  "init_timers = \<lparr>tl_jiffies = (\<lambda>_. 0), tl_fn = (\<lambda>_. 0), tl_next = (\<lambda>_. None), next_timer = None, fired = []\<rparr>"

text \<open>\<open>a\<close> is the address of \<open>init_task\<close>.\<close>

definition init_tasks :: "u32 \<Rightarrow> kstate \<Rightarrow> kstate" where
  "init_tasks a s = s\<lparr>tsk := (tsk s)(0 := INIT_TASK a), jiffies := 0, startup_time := 0, current := 0,
     last_task_used_math := None, task := (\<lambda>i. if i = 0 then a else 0)\<rparr>"

definition init_blk_dev :: "kstate \<Rightarrow> kstate" where
  "init_blk_dev s = s\<lparr>request := (\<lambda>_. \<lparr>r_dev = 0, r_cmd = 0, r_errors = 0, r_sector = 0, r_nr_sectors = 0, r_waiting = None,
       r_bh = 0, r_buffer = 0, r_next = None\<rparr>),
     wait_for_request := None, request_fn := (\<lambda>_. None), current_request := (\<lambda>_. None)\<rparr>"

definition init_console :: "console \<Rightarrow> console" where
  "init_console c = c\<lparr>con_state := 0, con_npar := 0, con_par := (\<lambda>_. 0), con_ques := False, con_attr := 7\<rparr>"

text \<open>
  All variables as the loaded image has them, in a machine that is otherwise in state \<open>s\<close>: those above, and the tables
  without an initialiser, which are zero.
\<close>

definition kernel_image :: "u32 \<Rightarrow> kstate \<Rightarrow> kstate" where
  "kernel_image a s = init_blk_dev (init_tasks a (s\<lparr>timers := init_timers, floppy := init_motors,
     beepcount := 0, last_pid := 0,
     file_table := (\<lambda>_. \<lparr>f_mode = 0, f_flags = 0, f_count = 0, f_inode = None, f_pos = 0\<rparr>),
     inode_table := (\<lambda>_. \<lparr>i_mode = 0, i_uid = 0, i_size = 0, i_mtime = 0, i_gid = 0, i_nlinks = 0, i_zone = (\<lambda>_. 0),
       i_wait = None, i_atime = 0, i_ctime = 0, i_dev = 0, i_num = 0, i_count = 0, i_lock = 0, i_dirt = 0, i_pipe = 0,
       i_mount = 0, i_seek = 0, i_update = 0\<rparr>),
     last_inode := 0,
     super_block := (\<lambda>_. \<lparr>s_ninodes = 0, s_nzones = 0, s_imap_blocks = 0, s_zmap_blocks = 0, s_firstdatazone = 0,
       s_log_zone_size = 0, s_max_size = 0, s_magic = 0, s_imap = (\<lambda>_. None), s_zmap = (\<lambda>_. None), s_dev = 0,
       s_isup = None, s_imount = None, s_time = 0, s_wait = None, s_lock = 0, s_rd_only = 0, s_dirt = 0\<rparr>),
     ROOT_DEV := 0, nr_buffers := 0, hash_table := (\<lambda>_. None), buffer_wait := None, null_prev := None,
     rd_start := 0, rd_length := 0, harddisk := init_hd, fdc := fd_boot (\<lambda>_. 0),
     tty_table := init_tty_table, cr_flag := False,
     console := (init_console (console s))\<lparr>saved_x := 0, saved_y := 0\<rparr>\<rparr>))"

lemmas kernel_image_defs = kernel_image_def init_blk_dev_def init_tasks_def

section \<open>Parts of the start-up\<close>

text \<open>The gates that \<open>trap_init\<close> sets are not part of the model, the masks of the interrupt controllers are ports.\<close>

definition trap_init :: "kstate \<Rightarrow> kstate" where
  "trap_init s = (case inb 0x21 s of (m, s) \<Rightarrow> case inb 0xA1 (outb (m AND 0xfb) 0x21 s) of (m, s) \<Rightarrow>
     outb (m AND 0xdf) 0xA1 s)"

text \<open>The values \<open>setup.s\<close> and the boot sector leave at 0x90000.\<close>

record boot_params =
  orig_x :: u8
  orig_y :: u8
  orig_mode :: u8
  orig_cols :: u8
  ega_bx :: u8
  ext_mem_k :: u16
  orig_root_dev :: u16

definition tty_init :: "boot_params \<Rightarrow> kstate \<Rightarrow> kstate" where
  "tty_init p s =
    (let s = rs_init s;
         s = s\<lparr>console := con_init (orig_x p) (orig_y p) (orig_mode p) (orig_cols p) (ega_bx p) (console s)\<rparr>
     in case inb 0x21 s of (m, s) \<Rightarrow> case inb 0x61 (outb (m AND 0xfd) 0x21 s) of (a, s) \<Rightarrow>
       outb a 0x61 (outb (a OR 0x80) 0x61 s))"

definition CMOS_READ :: "u8 \<Rightarrow> kstate \<Rightarrow> u8 \<times> kstate" where
  "CMOS_READ addr s = inb 0x71 (outb (0x80 OR addr) 0x70 s)"

definition BCD_TO_BIN :: "u8 \<Rightarrow> u32" where
  "BCD_TO_BIN v = (ucast v AND 15) + drop_bit 4 (ucast v) * 10"

text \<open>One turn of the loop of \<open>time_init\<close>: seconds, minutes, hours, day, month, year, and the seconds again.\<close>

definition time_step :: "unit \<Rightarrow> kstate \<Rightarrow> (unit + tm, kstate) outcome" where
  "time_step _ s = (case CMOS_READ 0 s of (sec, s) \<Rightarrow> case CMOS_READ 2 s of (mi, s) \<Rightarrow> case CMOS_READ 4 s of (hour, s) \<Rightarrow>
     case CMOS_READ 7 s of (mday, s) \<Rightarrow> case CMOS_READ 8 s of (mon, s) \<Rightarrow> case CMOS_READ 9 s of (year, s) \<Rightarrow>
     case CMOS_READ 0 s of (again, s) \<Rightarrow>
       Ret (if sec \<noteq> again then Inl () else Inr \<lparr>tm_sec = BCD_TO_BIN sec, tm_min = BCD_TO_BIN mi, tm_hour = BCD_TO_BIN hour,
         tm_mday = BCD_TO_BIN mday, tm_mon = BCD_TO_BIN mon - 1, tm_year = BCD_TO_BIN year,
         tm_wday = 0, tm_yday = 0, tm_isdst = 0\<rparr>) s)"

definition time_init :: "kstate \<Rightarrow> (unit, kstate) outcome" where
  "time_init s = seq (loop time_step () s) (\<lambda>t s.
     seq (lift_outcome (\<lambda>_. s) (kernel_mktime t)) (\<lambda>v s. Ret () (s\<lparr>startup_time := v\<rparr>)))"

definition LATCH :: u32 where "LATCH = cdiv 1193180 HZ"

definition sched_init :: "kstate \<Rightarrow> kstate" where
  "sched_init s =
    (let s = set_task_desc 0 s;
         s = s\<lparr>task := (\<lambda>i. if 1 \<le> i \<and> i < NR_TASKS then 0 else task s i),
               gdt := (\<lambda>i. if 2 + FIRST_TSS_ENTRY \<le> i \<and> i < 2 * NR_TASKS + FIRST_TSS_ENTRY then 0 else gdt s i)\<rparr>;
         s = outb (ucast (drop_bit 8 LATCH)) 0x40 (outb (ucast (LATCH AND 0xff)) 0x40 (outb 0x36 0x43 s))
     in case inb 0x21 s of (m, s) \<Rightarrow> outb (m AND NOT 1) 0x21 s)"

section \<open>\<open>main\<close>\<close>

definition memory_end :: "u16 \<Rightarrow> u32" where
  "memory_end k = (let e = (push_bit 20 1 + push_bit 10 (ucast k)) AND 0xfffff000
     in if slt (16 * 1024 * 1024) e then 16 * 1024 * 1024 else e)"

definition buffer_memory_end :: "u32 \<Rightarrow> u32" where
  "buffer_memory_end e = (if slt (12 * 1024 * 1024) e then 4 * 1024 * 1024
     else if slt (6 * 1024 * 1024) e then 2 * 1024 * 1024 else 1 * 1024 * 1024)"

text \<open>
  \<open>ramdisk\<close> is the value of \<open>RAMDISK\<close> when the kernel is compiled with it; \<open>kernel_end\<close> is \<open>end\<close>, where the
  linker ends the kernel. The copy of the disk parameters is left where \<open>setup.s\<close> put it.
\<close>

definition start_main :: "u32 option \<Rightarrow> u32 \<Rightarrow> boot_params \<Rightarrow> kstate \<Rightarrow> (unit, kstate) outcome" where
  "start_main ramdisk kernel_end p s =
    (let s = s\<lparr>ROOT_DEV := ucast (orig_root_dev p)\<rparr>;
         e = memory_end (ext_mem_k p);
         b = buffer_memory_end e
     in case (case ramdisk of None \<Rightarrow> (0, s) | Some k \<Rightarrow> rd_init b (k * 1024) s) of (n, s) \<Rightarrow>
       seq (in_mm (mem_init (b + n) e) s) (\<lambda>_ s.
       seq (time_init (tty_init p (blk_dev_init (trap_init s)))) (\<lambda>_ s.
       seq (buffer_init kernel_end b (sched_init s)) (\<lambda>_ s.
       Ret () (floppy_init (hd_init s))))))"

end
