(* ===== verification/BootProps.thy ===== *)
theory BootProps
  imports Boot CacheProps ConsoleProps MemoryProps SchedProps TtyProps FileSteps
begin

text \<open>
  The start-up of \<open>Boot\<close> returns and establishes the invariants that the properties of the
  components start from, whatever the size of the memory and what the machine's ports and memory hold.
\<close>

section \<open>Memory layout\<close>

lemma slt_small: "unat a < 2 ^ 31 \<Longrightarrow> unat b < 2 ^ 31 \<Longrightarrow> slt a b \<longleftrightarrow> unat a < unat b" for a b :: u32
proof -
  have "sint w = int (unat w)" if "unat w < 2 ^ 31" for w :: u32
    using that sint_of_nat [of "unat w"] by simp
  then show "unat a < 2 ^ 31 \<Longrightarrow> unat b < 2 ^ 31 \<Longrightarrow> ?thesis" by (simp only: slt_def of_nat_less_iff)
qed

lemma page_down: "unat (w AND 0xfffff000 :: u32) = unat w div 4096 * 4096"
proof -
  have "w AND 0xfffff000 = push_bit 12 (drop_bit 12 w)"
    by (rule bit_word_eqI) (auto simp: page_mask bit_simps)
  then have w: "w AND 0xfffff000 = drop_bit 12 w * 4096" by (simp add: push_bit_eq_mult)
  have d: "unat (drop_bit 12 w) = unat w div 4096" by (simp add: drop_bit_eq_div unat_div)
  have "unat w div 4096 * 4096 < 2 ^ 32" using unsigned_less [of w] by (intro order_le_less_trans [OF div_times_less_eq_dividend]) simp
  then show ?thesis unfolding w using d by (subst unat_mult_lem [THEN iffD1]) simp_all
qed

lemma memory_end_pages:
  "unat (memory_end k) = min 0x1000000 ((0x100000 + 1024 * unat k) div 4096 * 4096)"
proof -
  have k: "unat k < 0x10000" using unsigned_less [of k] by simp
  have "unat (push_bit 10 (ucast k) :: u32) = 1024 * unat k"
    using k by (simp add: push_bit_eq_mult unat_word_ariths unsigned_ucast_eq take_bit_nat_eq_self)
  with k have "unat (push_bit 20 1 + push_bit 10 (ucast k) :: u32) = 0x100000 + 1024 * unat k"
    by (subst unat_add_lem [THEN iffD1]) simp_all
  then have u: "unat ((push_bit 20 1 + push_bit 10 (ucast k)) AND 0xfffff000 :: u32) = (0x100000 + 1024 * unat k) div 4096 * 4096"
    by (simp only: page_down)
  moreover have "(0x100000 + 1024 * unat k) div 4096 * 4096 < 2 ^ 31"
    using k by (intro order_le_less_trans [OF div_times_less_eq_dividend]) simp
  ultimately show ?thesis by (simp add: memory_end_def Let_def slt_small del: push_bit_of_1)
qed

lemma layout:
  fixes k
  defines "e \<equiv> memory_end k" and "b \<equiv> buffer_memory_end (memory_end k)"
  shows "0x100000 \<le> unat b" "unat b \<le> unat e" "unat e \<le> 0x1000000" "4096 dvd unat b" "4096 dvd unat e" "unat b \<le> 0x400000"
    "1024 dvd unat b"
proof -
  have "256 * 4096 \<le> (0x100000 + 1024 * unat k) div 4096 * 4096" by simp
  then have e: "0x100000 \<le> unat e" "unat e \<le> 0x1000000" "4096 dvd unat e" unfolding e_def memory_end_pages by (auto simp: min_def)
  then show "unat e \<le> 0x1000000" "4096 dvd unat e" by simp_all
  have "b = (if 0xc00000 < unat e then 0x400000 else if 0x600000 < unat e then 0x200000 else 0x100000)"
    using e by (simp add: b_def buffer_memory_end_def slt_small flip: e_def)
  with e show "0x100000 \<le> unat b" "unat b \<le> unat e" "4096 dvd unat b" "unat b \<le> 0x400000" "1024 dvd unat b" by simp_all
qed

section \<open>The buffers\<close>

text \<open>
  The heads start at \<open>start\<close> and the blocks lie above them, below \<open>limit\<close>, apart from each other
  and from the video memory and the BIOS below 1 MB.
\<close>

definition block_at :: "nat \<Rightarrow> kstate \<Rightarrow> nat" where
  "block_at i s = unat (b_addr (bh s i))"

definition blocks_placed :: "nat \<Rightarrow> nat \<Rightarrow> nat \<Rightarrow> kstate \<Rightarrow> bool" where
  "blocks_placed start limit n s \<longleftrightarrow> (\<forall>i<n. start + 36 * n \<le> block_at i s \<and> block_at i s + 1024 \<le> limit \<and>
     (block_at i s + 1024 \<le> 0xA0000 \<or> 0x100000 \<le> block_at i s) \<and> (\<forall>j<i. block_at i s + 1024 \<le> block_at j s))"

definition filling :: "nat \<Rightarrow> nat \<Rightarrow> kstate \<Rightarrow> nat \<times> u32 \<Rightarrow> kstate \<Rightarrow> bool" where
  "filling start limit s v t \<longleftrightarrow> (case v of (i, b) \<Rightarrow> t = s\<lparr>bh := bh t\<rparr> \<and> blocks_placed start limit i t \<and>
     1024 \<le> unat b \<and> unat b + 1024 * i \<le> limit \<and> (\<forall>j<i. unat b \<le> block_at j t) \<and> 1024 dvd unat b \<and>
     (unat b \<le> 0xA0000 \<or> 0x100000 < unat b) \<and> (i = 0 \<longrightarrow> start + 36 + 1024 \<le> unat b))"

lemma init_step_filling:
  assumes "filling start limit s v t" and "limit \<le> 0x400000" and "1024 \<le> start" and "start \<le> 0x90000"
  shows "total (init_step (of_nat start) v t) (\<lambda>r u. case r of Inl v' \<Rightarrow> filling start limit s v' u \<and> unat (snd v') < unat (snd v)
    | Inr n \<Rightarrow> n \<noteq> 0 \<and> u = s\<lparr>bh := bh u\<rparr> \<and> blocks_placed start limit n u)"
proof -
  obtain i b where v: "v = (i, b)" by (cases v)
  have f: "t = s\<lparr>bh := bh t\<rparr>" "blocks_placed start limit i t" "1024 \<le> unat b" "unat b + 1024 * i \<le> limit"
    "\<forall>j<i. unat b \<le> block_at j t" "1024 dvd unat b" "unat b \<le> 0xA0000 \<or> 0x100000 < unat b" "i = 0 \<longrightarrow> start + 36 + 1024 \<le> unat b"
    using assms(1) by (simp_all add: filling_def v)
  have a: "unat (b - 1024) = unat b - 1024" using f(3) by (subst unat_sub) (simp_all add: word_le_nat_alt)
  have i: "i < 4096" using f(3,4) assms(2) by simp
  then have n: "unat (of_nat start + 36 * of_nat (Suc i) :: u32) = start + 36 * Suc i"
    using assms(4) by (simp add: unat_word_ariths unsigned_of_nat take_bit_nat_eq_self)
  show ?thesis
  proof (cases "b - 1024 < of_nat start + 36 * of_nat (Suc i)")
    case True
    then have "unat b - 1024 < start + 36 * Suc i" using n a by (simp only: word_less_nat_alt)
    then have "unat b < start + 36 * Suc i + 1024" by simp
    then have "i \<noteq> 0" using f(8) by auto
    with True f show ?thesis by (simp add: v init_step_def Let_def)
  next
    case False
    then have g: "start + 36 * Suc i \<le> unat b - 1024" using n a by (simp only: word_less_nat_alt not_less)
    define u where "u = upd_bh i (\<lambda>x. x\<lparr>b_dev := 0, b_dirt := 0, b_count := 0, b_lock := 0, b_uptodate := 0,
               b_wait := None, b_next := None, b_prev := None, b_addr := b - 1024,
               b_prev_free := Some (i - 1), b_next_free := Some (Suc i)\<rparr>) t"
    have u: "u = s\<lparr>bh := bh u\<rparr>" unfolding u_def upd_bh_def by (subst f(1)) simp
    have at: "block_at j u = (if j = i then unat b - 1024 else block_at j t)" for j
      by (simp add: u_def block_at_def upd_bh_def a)
    define c where "c = (if b - 1024 = 0x100000 then 0xA0000 else b - 1024)"
    have h: "unat b \<le> 0xA0000 \<or> 0x100000 + 1024 \<le> unat b"
      using f(6,7) by (auto elim!: dvdE)
    have c: "1024 \<le> unat c \<and> unat c \<le> unat b - 1024 \<and> 1024 dvd unat c \<and> (unat c \<le> 0xA0000 \<or> 0x100000 < unat c)"
    proof (cases "b - 1024 = 0x100000")
      case True
      then show ?thesis
        using a by (simp add: c_def)
    next
      case False
      then have "unat b - 1024 \<noteq> 0x100000" using a by (simp add: word_unat_eq_iff)
      then show ?thesis
        using False a g h f(6) assms(3) by (auto simp: c_def)
    qed
    have "blocks_placed start limit (Suc i) u"
      using f(2,4,5) g h unfolding blocks_placed_def by (auto simp: at less_Suc_eq)
    then have "filling start limit s (Suc i, c) u" "unat c < unat b"
      using u c f(3,4,5) by (auto simp: filling_def at less_Suc_eq)
    then show ?thesis using False unfolding v init_step_def Let_def c_def u_def by simp
  qed
qed

lemma buffer_init_places:
  assumes "1024 \<le> start" and "start \<le> 0x90000" and "unat b \<le> 0x400000" and "1024 dvd unat b" and "0x100000 \<le> unat b"
  shows "total (buffer_init (of_nat start) b s) (\<lambda>_ t. t = s\<lparr>bh := bh t, nr_buffers := nr_buffers t, free_list := free_list t, hash_table := hash_table t\<rparr> \<and>
     0 < nr_buffers t \<and> blocks_placed start (unat b) (nr_buffers t) t)"
proof -
  let ?c = "if b = 0x100000 then 0xA0000 else b"
  have "unat b \<noteq> 0x100000" if "b \<noteq> 0x100000" using that by (simp add: word_unat_eq_iff)
  then have "filling start (unat b) s (0, ?c) s" using assms by (auto simp: filling_def blocks_placed_def)
  then have "total (loop (init_step (of_nat start)) (0, ?c) s) (\<lambda>n t. n \<noteq> 0 \<and> t = s\<lparr>bh := bh t\<rparr> \<and> blocks_placed start (unat b) n t)"
    by (intro total_loop [where I = "filling start (unat b) s" and m = "\<lambda>v t. unat (snd v)"] init_step_filling) (use assms in auto)
  then show ?thesis unfolding buffer_init_def total_seq
  proof (rule total_mono)
    fix n t
    assume "n \<noteq> 0 \<and> t = s\<lparr>bh := bh t\<rparr> \<and> blocks_placed start (unat b) n t"
    then obtain h where "n \<noteq> 0" "t = s\<lparr>bh := h\<rparr>" "blocks_placed start (unat b) n t" by blast
    then show "total (if n = 0 then Fault else let s = upd_bh 0 (b_prev_free_update (\<lambda>_. Some (n - 1))) (t\<lparr>nr_buffers := n, free_list := 0\<rparr>)
       in Ret () ((upd_bh (n - 1) (b_next_free_update (\<lambda>_. Some 0)) s)\<lparr>hash_table := (\<lambda>i. if i < NR_HASH then None else hash_table s i)\<rparr>))
      (\<lambda>_ t. t = s\<lparr>bh := bh t, nr_buffers := nr_buffers t, free_list := free_list t, hash_table := hash_table t\<rparr> \<and>
         0 < nr_buffers t \<and> blocks_placed start (unat b) (nr_buffers t) t)"
      by (simp add: Let_def upd_bh_def blocks_placed_def block_at_def)
  qed
qed

lemma buffer_init_result:
  assumes "1024 \<le> start" and "start \<le> 0x90000" and "unat b \<le> 0x400000" and "1024 dvd unat b" and "0x100000 \<le> unat b"
  shows "\<exists>t. buffer_init (of_nat start) b s = Ret () t \<and> 0 < nr_buffers t \<and> blocks_placed start (unat b) (nr_buffers t) t \<and>
    t = s\<lparr>bh := bh t, nr_buffers := nr_buffers t, free_list := free_list t, hash_table := hash_table t\<rparr>"
  using buffer_init_places [OF assms, of s] by (cases "buffer_init (of_nat start) b s") auto

section \<open>The clock\<close>

text \<open>
  Byte \<open>i\<close> of the bytes that \<open>time_init\<close> reads from the clock, in rounds of seven. In some round the seconds
  do not change, and the month is the number of a month in two decimal digits.
\<close>

definition clock_byte :: "nat \<Rightarrow> nat \<Rightarrow> kstate \<Rightarrow> u8" where
  "clock_byte n i s = ucast (port_in (ports s) (n + i) 0x71)"

definition clock_ok :: "nat \<Rightarrow> kstate \<Rightarrow> bool" where
  "clock_ok n s \<longleftrightarrow> (\<exists>k. clock_byte n (7 * k) s = clock_byte n (7 * k + 6) s) \<and>
     (\<forall>k. unat (BCD_TO_BIN (clock_byte n (7 * k + 4) s)) \<in> {1..12})"

lemma kernel_mktime_returns:
  assumes "unat (tm_mon tm) < 12"
  shows "\<exists>v. kernel_mktime tm = Ret v ()"
proof -
  have "length month = 12" by (simp add: month_def)
  moreover have "\<not> slt (tm_mon tm) 0" using assms slt_small [of "tm_mon tm" 0] by simp
  ultimately show ?thesis using assms by (simp add: kernel_mktime_def Let_def)
qed

definition clock_read :: "u8 \<Rightarrow> port_state \<Rightarrow> port_state" where
  "clock_read a p = \<lparr>port_in = port_in p, port_reads = Suc (port_reads p), port_out = (0x70, ucast (0x80 OR a)) # port_out p\<rparr>"

lemma clock_read_simps [simp]:
  "port_in (clock_read a p) = port_in p" "port_reads (clock_read a p) = Suc (port_reads p)"
  by (simp_all add: clock_read_def)

lemma CMOS_READ_eq:
  "CMOS_READ a s = (ucast (port_in (ports s) (port_reads (ports s)) 0x71), s\<lparr>ports := clock_read a (ports s)\<rparr>)"
  by (simp add: CMOS_READ_def inb_def in_port_def outb_def clock_read_def)

lemma time_step_reads:
  fixes s
  defines "n \<equiv> port_reads (ports s)"
  obtains q where "port_in q = port_in (ports s)" "port_reads q = n + 7"
    "clock_byte n 0 s \<noteq> clock_byte n 6 s \<Longrightarrow> time_step () s = Ret (Inl ()) (s\<lparr>ports := q\<rparr>)"
    "clock_byte n 0 s = clock_byte n 6 s \<Longrightarrow>
      \<exists>t. time_step () s = Ret (Inr t) (s\<lparr>ports := q\<rparr>) \<and> tm_mon t = BCD_TO_BIN (clock_byte n 4 s) - 1"
proof
  let ?q = "clock_read 0 (clock_read 9 (clock_read 8 (clock_read 7 (clock_read 4 (clock_read 2 (clock_read 0 (ports s)))))))"
  show "port_in ?q = port_in (ports s)" "port_reads ?q = n + 7" by (simp_all add: n_def)
  show "time_step () s = Ret (Inl ()) (s\<lparr>ports := ?q\<rparr>)" if "clock_byte n 0 s \<noteq> clock_byte n 6 s"
    using that by (simp add: time_step_def CMOS_READ_eq clock_byte_def n_def eval_nat_numeral)
  show "\<exists>t. time_step () s = Ret (Inr t) (s\<lparr>ports := ?q\<rparr>) \<and> tm_mon t = BCD_TO_BIN (clock_byte n 4 s) - 1"
    if "clock_byte n 0 s = clock_byte n 6 s"
    using that by (simp add: time_step_def CMOS_READ_eq clock_byte_def n_def eval_nat_numeral)
qed

lemma month_before: "unat (v :: u32) \<in> {1..12} \<Longrightarrow> unat (v - 1) < 12"
  by (subst unat_sub) (auto simp: word_le_nat_alt)

lemma time_steady:
  assumes "clock_byte (port_reads (ports s)) 0 s = clock_byte (port_reads (ports s)) 6 s"
    and "unat (BCD_TO_BIN (clock_byte (port_reads (ports s)) 4 s)) \<in> {1..12}"
  shows "\<exists>t q. loop time_step () s = Ret t (s\<lparr>ports := q\<rparr>) \<and> unat (tm_mon t) < 12"
proof -
  obtain q t where "time_step () s = Ret (Inr t) (s\<lparr>ports := q\<rparr>)" "tm_mon t = BCD_TO_BIN (clock_byte (port_reads (ports s)) 4 s) - 1"
    by (rule time_step_reads [of s]) (use assms(1) in blast)
  then have "loop time_step () s = Ret t (s\<lparr>ports := q\<rparr>) \<and> unat (tm_mon t) < 12"
    using month_before [OF assms(2)] by (subst loop_unfold) simp
  then show ?thesis by blast
qed

lemma time_loop:
  assumes "clock_byte (port_reads (ports s)) (7 * k) s = clock_byte (port_reads (ports s)) (7 * k + 6) s"
    and "\<And>j. unat (BCD_TO_BIN (clock_byte (port_reads (ports s)) (7 * j + 4) s)) \<in> {1..12}"
  shows "\<exists>t q. loop time_step () s = Ret t (s\<lparr>ports := q\<rparr>) \<and> unat (tm_mon t) < 12"
  using assms
proof (induction k arbitrary: s)
  case 0
  then show ?case using time_steady [of s] 0(2) [of 0] by simp
next
  case (Suc k)
  show ?case
  proof (cases "clock_byte (port_reads (ports s)) 0 s = clock_byte (port_reads (ports s)) 6 s")
    case True
    then show ?thesis using time_steady [of s] Suc.prems(2) [of 0] by simp
  next
    case False
    obtain q where q: "port_in q = port_in (ports s)" "port_reads q = port_reads (ports s) + 7"
      and r: "time_step () s = Ret (Inl ()) (s\<lparr>ports := q\<rparr>)"
      by (rule time_step_reads [of s]) (use False in blast)
    have b: "clock_byte (port_reads q) i (s\<lparr>ports := q\<rparr>) = clock_byte (port_reads (ports s)) (7 + i) s" for i
      by (simp add: clock_byte_def q algebra_simps)
    have "\<exists>t p. loop time_step () (s\<lparr>ports := q\<rparr>) = Ret t (s\<lparr>ports := q, ports := p\<rparr>) \<and> unat (tm_mon t) < 12"
      by (rule Suc.IH) (use Suc.prems(1) Suc.prems(2) [of "Suc j" for j] in \<open>simp_all add: b algebra_simps\<close>)
    then show ?thesis by (subst loop_unfold) (simp add: r)
  qed
qed

lemma time_init_returns:
  assumes "clock_ok (port_reads (ports s)) s"
  shows "\<exists>q v. time_init s = Ret () (s\<lparr>ports := q, startup_time := v\<rparr>)"
proof -
  obtain k where "clock_byte (port_reads (ports s)) (7 * k) s = clock_byte (port_reads (ports s)) (7 * k + 6) s"
    using assms by (auto simp: clock_ok_def)
  then obtain t q where t: "loop time_step () s = Ret t (s\<lparr>ports := q\<rparr>)" "unat (tm_mon t) < 12"
    using time_loop [of s k] assms by (auto simp: clock_ok_def)
  obtain v where "kernel_mktime t = Ret v ()" using kernel_mktime_returns [OF t(2)] by blast
  with t(1) have "time_init s = Ret () (s\<lparr>ports := q, startup_time := v\<rparr>)" by (simp add: time_init_def)
  then show ?thesis by blast
qed

section \<open>The other parts\<close>

lemma trap_init_ports:
  "\<exists>q. trap_init s = s\<lparr>ports := q\<rparr> \<and> port_in q = port_in (ports s) \<and> port_reads q = port_reads (ports s) + 2"
  by (simp add: trap_init_def inb_def in_port_def outb_def) (intro exI conjI, rule refl, simp_all)

lemma tty_init_fields:
  "\<exists>q. tty_init p s = s\<lparr>console := con_init (orig_x p) (orig_y p) (orig_mode p) (orig_cols p) (ega_bx p) (console s), ports := q\<rparr> \<and>
     port_in q = port_in (ports s) \<and> port_reads q = port_reads (ports s) + 5"
  by (simp add: tty_init_def rs_init_def init_port_def Let_def inb_def in_port_def outb_def) (intro exI conjI, rule refl, simp_all)

lemma sched_init_fields:
  "\<exists>q g. sched_init s = s\<lparr>task := (\<lambda>i. if 1 \<le> i \<and> i < NR_TASKS then 0 else task s i), gdt := g, ports := q\<rparr>"
  by (simp add: sched_init_def set_task_desc_def Let_def inb_def in_port_def outb_def cong: if_cong) (intro exI, rule refl)

lemma disk_init_fields:
  "\<exists>q. floppy_init (hd_init s) = s\<lparr>request_fn := (request_fn s)(3 := Some Harddisk, 2 := Some Floppy), ports := q\<rparr>"
  by (simp add: floppy_init_def hd_init_def Let_def inb_def in_port_def outb_def) (intro exI, rule refl)

lemma blk_dev_init_free:
  "\<exists>q. blk_dev_init s = s\<lparr>request := q\<rparr> \<and> (\<forall>r<NR_REQUEST. r_dev (q r) = - 1)"
proof -
  have "\<exists>q. clear_requests n s = s\<lparr>request := q\<rparr> \<and> (\<forall>r<n. r_dev (q r) = - 1)" for n
  proof (induction n)
    case (Suc n)
    then obtain q where "clear_requests n s = s\<lparr>request := q\<rparr>" "\<forall>r<n. r_dev (q r) = - 1" by blast
    then have "clear_requests (Suc n) s = s\<lparr>request := q(n := (q n)\<lparr>r_dev := - 1, r_next := None\<rparr>)\<rparr>"
      "\<forall>r<Suc n. r_dev ((q(n := (q n)\<lparr>r_dev := - 1, r_next := None\<rparr>)) r) = - 1" by (auto simp: upd_req_def less_Suc_eq)
    then show ?case by blast
  qed (auto intro: exI [of _ "request s"])
  then show ?thesis by (simp add: blk_dev_init_def)
qed

section \<open>\<open>main\<close> up to \<open>sti()\<close>\<close>

text \<open>Where the pages begin that \<open>get_free_page\<close> gives out, behind the buffers and the RAM disk.\<close>

definition main_memory_start :: "u32 option \<Rightarrow> u16 \<Rightarrow> u32" where
  "main_memory_start ramdisk k = buffer_memory_end (memory_end k) + (case ramdisk of None \<Rightarrow> 0 | Some n \<Rightarrow> n * 1024)"

definition ramdisk_fits :: "u32 option \<Rightarrow> u16 \<Rightarrow> bool" where
  "ramdisk_fits ramdisk k \<longleftrightarrow> (case ramdisk of None \<Rightarrow> True
     | Some n \<Rightarrow> 4 dvd unat n \<and> unat (buffer_memory_end (memory_end k)) + 1024 * unat n \<le> unat (memory_end k))"

lemma main_memory:
  assumes "ramdisk_fits ramdisk k"
  shows "unat (buffer_memory_end (memory_end k)) \<le> unat (main_memory_start ramdisk k)"
    "unat (main_memory_start ramdisk k) \<le> unat (memory_end k)" "4096 dvd unat (main_memory_start ramdisk k)"
proof -
  note l = layout [of k]
  have "unat (main_memory_start ramdisk k) = unat (buffer_memory_end (memory_end k)) + (case ramdisk of None \<Rightarrow> 0 | Some n \<Rightarrow> unat n * 1024)"
  proof (cases ramdisk)
    case (Some n)
    then have f: "unat (buffer_memory_end (memory_end k)) + 1024 * unat n \<le> unat (memory_end k)" using assms by (simp add: ramdisk_fits_def)
    then have "unat (n * 1024) = unat n * 1024" using l(3) by (subst unat_mult_lem [THEN iffD1]) simp_all
    with f l(3) show ?thesis by (simp add: main_memory_start_def Some) (subst unat_add_lem [THEN iffD1]; simp)
  qed (simp add: main_memory_start_def)
  then show "unat (buffer_memory_end (memory_end k)) \<le> unat (main_memory_start ramdisk k)"
    "unat (main_memory_start ramdisk k) \<le> unat (memory_end k)" "4096 dvd unat (main_memory_start ramdisk k)"
    using assms l by (auto simp: ramdisk_fits_def split: option.splits elim!: dvdE)
qed

lemma image_invariants:
  fixes s
  assumes "init_task \<noteq> 0"
  defines "u \<equiv> kernel_image init_task s"
  shows "sched_inv u" "refs_ok u" "live u" "own_pages u" "ch < 3 \<Longrightarrow> q_ok (read_q (tty_table u ch)) \<and> q_ok (write_q (tty_table u ch)) \<and> q_ok (secondary (tty_table u ch))"
proof -
  have t: "task u i = (if i = 0 then init_task else 0)" "tsk u 0 = INIT_TASK init_task" "current u = 0" "f_count (file_table u f) = 0" for i f
    by (simp_all add: u_def kernel_image_defs)
  have n: "t_filp (INIT_TASK init_task) = (\<lambda>_. None)" by (simp add: INIT_TASK_def)
  then have "fds_of (INIT_TASK init_task) f = 0" for f by (simp add: fds_of_def)
  then have "refs u f = 0" for f unfolding refs_def by (auto simp: t)
  then show "refs_ok u" by (simp add: refs_ok_def t no_files_def n)
  show "live u" using assms(1) by (simp add: live_def t cur_def NR_TASKS_def) (simp add: INIT_TASK_def TASK_ZOMBIE_def)
  show "own_pages u" by (auto simp: own_pages_def t)
  show "sched_inv u" by (simp add: sched_inv_def t NR_TASKS_def) (simp add: INIT_TASK_def counters_ok_def)
  show "q_ok (read_q (tty_table u ch)) \<and> q_ok (write_q (tty_table u ch)) \<and> q_ok (secondary (tty_table u ch))" if "ch < 3"
    by (simp add: u_def kernel_image_defs init_tty_table_def init_tty_def empty_queue_def q_ok_def)
qed

text \<open>The fields the invariants of the tasks, the files and the terminals are about.\<close>

definition boots :: "kstate \<Rightarrow> kstate \<Rightarrow> bool" where
  "boots s t \<longleftrightarrow> task t = task s \<and> tsk t = tsk s \<and> current t = current s \<and> file_table t = file_table s \<and> tty_table t = tty_table s"

lemma boots_invariants:
  assumes "boots s t"
  shows "sched_inv t = sched_inv s" "refs_ok t = refs_ok s" "live t = live s" "own_pages t = own_pages s"
  using assms by (simp_all add: boots_def sched_inv_def refs_ok_def refs_def live_def own_pages_def cur_def cong: if_cong)

lemma clock_ok_same: "port_in (ports t) = port_in (ports s) \<Longrightarrow> clock_ok n t = clock_ok n s"
  by (simp add: clock_ok_def clock_byte_def)

text \<open>From \<open>trap_init\<close> to \<open>time_init\<close>.\<close>

lemma devices_ready:
  assumes "clock_ok (port_reads (ports s) + 7) s"
  shows "\<exists>q rq v. time_init (tty_init p (blk_dev_init (trap_init s))) = Ret () (s\<lparr>request := rq,
     console := con_init (orig_x p) (orig_y p) (orig_mode p) (orig_cols p) (ega_bx p) (console s), ports := q, startup_time := v\<rparr>) \<and>
     (\<forall>r<NR_REQUEST. r_dev (rq r) = - 1)"
proof -
  obtain q1 where 1: "trap_init s = s\<lparr>ports := q1\<rparr>" "port_in q1 = port_in (ports s)" "port_reads q1 = port_reads (ports s) + 2"
    using trap_init_ports [of s] by blast
  obtain rq where 2: "blk_dev_init (s\<lparr>ports := q1\<rparr>) = s\<lparr>ports := q1, request := rq\<rparr>" "\<forall>r<NR_REQUEST. r_dev (rq r) = - 1"
    using blk_dev_init_free [of "s\<lparr>ports := q1\<rparr>"] by blast
  let ?c = "con_init (orig_x p) (orig_y p) (orig_mode p) (orig_cols p) (ega_bx p) (console s)"
  obtain q2 where 3: "tty_init p (s\<lparr>ports := q1, request := rq\<rparr>) = s\<lparr>request := rq, console := ?c, ports := q2\<rparr>"
    "port_in q2 = port_in (ports s)" "port_reads q2 = port_reads (ports s) + 7"
    using tty_init_fields [of p "s\<lparr>ports := q1, request := rq\<rparr>"] 1(2,3) by auto
  let ?t = "s\<lparr>request := rq, console := ?c, ports := q2\<rparr>"
  have "clock_ok (port_reads (ports ?t)) ?t" using assms by (simp add: 3 clock_ok_same [of ?t s])
  then obtain q v where "time_init ?t = Ret () (?t\<lparr>ports := q, startup_time := v\<rparr>)" using time_init_returns by blast
  then have "time_init (tty_init p (blk_dev_init (trap_init s))) = Ret () (s\<lparr>request := rq, console := ?c, ports := q, startup_time := v\<rparr>)"
    by (simp only: 1 2 3) simp
  with 2(2) show ?thesis by blast
qed


text \<open>A machine with 16 MB and a screen of 80 columns, whose ports all give 1.\<close>

definition pc :: boot_params where
  "pc = \<lparr>orig_x = 0, orig_y = 10, orig_mode = 3, orig_cols = 80, ega_bx = 0x10, ext_mem_k = 15360, orig_root_dev = 0x306\<rparr>"

definition pc_state :: "kstate \<Rightarrow> kstate" where
  "pc_state s = s\<lparr>mm := boot_mm, ports := \<lparr>port_in = (\<lambda>_ _. 1), port_reads = 0, port_out = []\<rparr>\<rparr>"


end
