(* ===== verification/Spec2Isabelle.thy ===== *)
theory Spec2Isabelle
  imports Prelude MemoryProps Mktime Vsprintf Malloc ConsoleProps Ctype Segments TimerProps TtyProps BlockProps HarddiskProps FloppyProps PipeProps FileSteps PageLoad CacheReturns Fairness BootProps
begin

text \<open>
  A model of the linux-0.11 kernel, \<open>src/linux-0.11\<close>, in HOL.

  \<^bold>\<open>The program.\<close> The kernel is one program of C functions that user tasks enter by system calls and
  hardware enters by interrupts. \<open>kernel/system_call.s\<close> looks the call up in \<open>sys_call_table\<close>; the
  calls work on the task table (\<open>kernel/sched.c\<close>, \<open>fork.c\<close>, \<open>exit.c\<close>, \<open>signal.c\<close>, \<open>sys.c\<close>), on memory
  (\<open>mm/memory.c\<close>) and on files. Files go from descriptors and the file table (\<open>fs/open.c\<close>, \<open>fcntl.c\<close>,
  \<open>read_write.c\<close>) to inodes and directories (\<open>inode.c\<close>, \<open>namei.c\<close>), to zones (\<open>bitmap.c\<close>, \<open>truncate.c\<close>,
  \<open>super.c\<close>), to the buffer cache (\<open>buffer.c\<close>), to the request queues (\<open>kernel/blk_drv/ll_rw_blk.c\<close>) and to a
  disk driver (\<open>hd.c\<close>, \<open>floppy.c\<close>, \<open>ramdisk.c\<close>); or to a terminal (\<open>kernel/chr_drv\<close>) or a pipe (\<open>pipe.c\<close>).

  \<^bold>\<open>State.\<close> \<open>kstate\<close> of \<open>State\<close> is a record of the kernel's global variables: \<open>task\<close> and \<open>tsk\<close> (the pointers
  in \<open>task[]\<close> and what they point to), \<open>current\<close>, \<open>jiffies\<close>, \<open>mm\<close> (\<open>mem_map\<close> and physical memory), \<open>gdt\<close>,
  \<open>file_table\<close>, \<open>inode_table\<close>, \<open>super_block\<close>, the buffer heads \<open>bh\<close> with \<open>hash_table\<close> and \<open>free_list\<close>,
  \<open>request\<close>, \<open>request_fn\<close> and \<open>current_request\<close>, the terminals, the timers, the disks, the ports written and to be read. C
  structures are records with the fields of the C code, \<open>n\<close>-bit integers are \<open>n word\<close>, so that arithmetic
  wraps as it does in C, signed comparison and division are \<open>slt\<close>, \<open>sle\<close>, \<open>cdiv\<close>, \<open>cmod\<close>. Pointers into a table
  are indices, \<open>NULL\<close> is \<open>None\<close>; a page or a structure in physical memory has its address. \<open>user s i\<close> is
  the memory task \<open>i\<close> sees through \<open>fs\<close>, as its page tables present it.

  \<^bold>\<open>Effects.\<close> An operation maps a state to an \<open>outcome\<close> (\<open>Prelude\<close>): \<open>Ret v s\<close> returns; \<open>Panic msg\<close> is
  \<open>panic()\<close>; \<open>Sleeps s\<close> is a path that gave the processor away in \<open>schedule()\<close> (whatever the task does after it is woken
  is a new run); \<open>Exits c s\<close> is a path that called \<open>do_exit()\<close> inside \<open>mm/\<close>; \<open>Fault\<close> is a null
  pointer; \<open>Hangs\<close> is a loop that does not end. \<open>seq\<close> composes, \<open>loop\<close> is a loop with \<open>Hangs\<close> as its
  bottom, so that a loop that returns is proved to. The judgements \<open>total\<close> (returns), \<open>safe\<close>
  (neither panics, faults nor hangs), \<open>finishes\<close> and \<open>partial\<close> say what a run may do.

  \<^bold>\<open>Theories that translate the code.\<close>
  \<^item> \<open>Memory\<close> (\<open>mm/memory.c\<close>) and \<open>PageLoad\<close> (\<open>share_page\<close>, \<open>do_no_page\<close>, \<open>bread_page\<close>); \<open>Malloc\<close> (\<open>lib/malloc.c\<close>);
    \<open>Segments\<close> (descriptors, \<open>verify_area\<close>).
  \<^item> \<open>Sched\<close> and \<open>Timers\<close> (\<open>kernel/sched.c\<close>); \<open>Fork\<close>, \<open>Exit\<close>, \<open>Signals\<close>, \<open>SysCalls\<close> (\<open>kernel/fork.c\<close>, \<open>exit.c\<close>,
    \<open>signal.c\<close>, \<open>sys.c\<close>); \<open>Exec\<close> (\<open>fs/exec.c\<close>); \<open>SysTable\<close> (\<open>include/linux/sys.h\<close> and \<open>system_call.s\<close>);
    \<open>Traps\<close> (\<open>kernel/traps.c\<close>, \<open>math_emulate.c\<close>, \<open>asm.s\<close>, \<open>mm/page.s\<close>: the interrupt table).
  \<^item> \<open>Requests\<close>, \<open>Block\<close>, \<open>Harddisk\<close>, \<open>FloppyDisk\<close>, \<open>Startup\<close> (\<open>kernel/blk_drv\<close>); \<open>Buffer\<close>, \<open>Bitmap\<close>, \<open>Inode\<close>, \<open>Namei\<close>,
    \<open>DirCalls\<close>, \<open>Super\<close>, \<open>FileData\<close>, \<open>Pipe\<close>, \<open>CharDev\<close>, \<open>FileCalls\<close> (the files of \<open>fs/\<close>).
  \<^item> \<open>Boot\<close> (\<open>init/main.c\<close> up to \<open>sti()\<close>, \<open>sched_init\<close>, \<open>trap_init\<close> and the initialised data of the kernel).
  \<^item> \<open>Console\<close> and \<open>Tty\<close> (\<open>kernel/chr_drv\<close>); \<open>Vsprintf\<close>, \<open>Mktime\<close>, \<open>Ctype\<close> (library functions).

  \<^bold>\<open>Theories that prove.\<close>
  \<^item> \<open>PageRefs\<close>, \<open>PageOps\<close>, \<open>PageFault\<close>, \<open>MemoryProps\<close>: \<open>mem_map\<close> is the exact number of references to every page,
    and the page table operations do what \<open>fork\<close>, \<open>exit\<close> and a write fault need.
  \<^item> \<open>SchedProps\<close>: the scheduler picks the best task, sleeping and waking on every wait queue (locale
    \<open>waiting\<close>); \<open>Fairness\<close>: how long a task waits at most; \<open>TimerProps\<close>: timers against a list of times due.
  \<^item> \<open>ConsoleProps\<close>: the cursor stays on the screen; \<open>TtyProps\<close>: terminal queues are lists (locale \<open>fifo\<close>), cooked
    input is line editing.
  \<^item> \<open>BlockProps\<close>: the elevator, the RAM disk; \<open>HarddiskProps\<close> and \<open>FloppyProps\<close>: what the
    controllers are told.
  \<^item> \<open>Cache\<close>, \<open>CacheProps\<close>, \<open>CacheReturns\<close>: the links of the buffer cache as lists and a ring; a block has one buffer, and
    \<open>getblk\<close> finds it.
  \<^item> \<open>PipeProps\<close>: a pipe is a bounded queue of bytes (locale \<open>pipe_side\<close>); \<open>ForkProps\<close>: what \<open>fork\<close> makes.
  \<^item> \<open>FloppyFrame\<close>: the floppy driver moves requests along and writes ports, once for every relation that allows it
    (locale \<open>floppy_relation\<close>).
  \<^item> \<open>Frame\<close>, \<open>FrameOps\<close>, \<open>FrameCalls\<close>, \<open>Mild\<close>, \<open>TrapProps\<close>: what the operations leave alone, as a structural judgement
    \<open>kept R s m\<close> (every state in which \<open>m\<close> leaves the kernel is related to \<open>s\<close>) with one rule per construct in the
    collection \<open>keeps\<close>. The locale \<open>mild_relation\<close> carries these frames over to every relation
    that ignores what they ignore, \<open>ids_relation\<close> to those that only look at identities. On it rest two theorems about whole executions:
    \<open>Identity\<close>, that no task gains privilege, and \<open>FileRefs\<close> with \<open>FileSteps\<close>, that \<open>f_count\<close> is exact
    and descriptors are valid.
  \<^item> \<open>BootProps\<close>: the start-up establishes the invariants that the executions above start from.

  \<^bold>\<open>Fuel and bounds.\<close> \<open>getblk\<close> calls itself through \<open>sync_dev\<close>, \<open>write_inode\<close> and \<open>bread\<close>; the nested calls run with an
    inode locked, on which \<open>sync_inodes\<close> waits, so \<open>GETBLK_DEPTH = 4\<close> is not used up. \<open>con_write\<close> answers a
    terminal query by calling \<open>copy_to_cooked\<close>, which may echo: \<open>CON_DEPTH = 1024\<close> is the length of a queue. \<open>iput_repeat\<close> goes round
    at most twice and \<open>iget_search\<close> follows at most one mount per super block. Loops over tables and
    within a page are \<open>primrec\<close> or \<open>fun\<close>; those that may not end (walks along lists in memory, \<open>schedule\<close>,
    the search for a process number) are \<open>partial_function\<close>.

  \<^bold>\<open>Parameters.\<close> The values read from ports are an input of the state (\<open>ports\<close>); \<open>fork\<close> takes the state of the coprocessor after
    \<open>fnsave\<close>, \<open>execve\<close> the memory that later page faults will load. Padding bytes of structures copied to user memory are not specified.

  \<^bold>\<open>Not modelled.\<close> Assembly other than the entries of system calls, traps and interrupts and what inline assembly computes; interrupt gates; what the DMA and floppy controllers do
    between interrupts, of which the model has the values the driver reads from their ports; the messages of \<open>printk\<close>, of \<open>show_task\<close> and of the trap handlers; the
    user-space stubs of \<open>lib/\<close> and \<open>init()\<close> of \<open>init/main.c\<close>, which runs in user mode. Interrupts happen between operations, not inside them: \<open>cli\<close> and \<open>sti\<close> have no
    counterpart. The other directories of the repository are separate third-party programs.
\<close>

end
